(* ===== verification/Prelude.thy ===== *)
theory Prelude
  imports Complex_Main "HOL-Library.List_Lexorder" "HOL-Library.Char_ord"
begin

text \<open>
  Shared ground of the development: how a handler's outcome is represented, the generic
  lemmas on results, lists and sums that the component theories use, and the names of the
  theorem collections they extend.

  A request handler of the service either throws one of the framework's exceptions, each
  carrying a code of \<^verbatim>\<open>src/src/common/errors/error-codes.ts\<close>, or returns. Every database
  handler runs inside one transaction (\<^verbatim>\<open>PrismaService.withTenant\<close>), so a throw leaves no
  trace in the database: an outcome is \<open>Inl error\<close> with no state, or \<open>Inr\<close> of the returned
  value and the new state. The text of a message is not part of an outcome; the exception
  class and its code are.
\<close>

section \<open>Theorem collections\<close>

named_theorems res_simps \<open>rewriting of results\<close>
named_theorems money_simps \<open>sums of amounts over the ledger\<close>
named_theorems row_simps \<open>what a table operation does to the other tables\<close>

section \<open>Outcomes\<close>

datatype error_code =
    VALIDATION_FAILED | UNAUTHORIZED | FORBIDDEN | NOT_FOUND | CONFLICT | INTERNAL | TRY_AGAIN
  | NOT_IMPLEMENTED | TOO_MANY_REQUESTS
  | TENANT_HEADER_MISSING | TENANT_MISMATCH
  | INVALID_CREDENTIALS | EMAIL_NOT_VERIFIED | TOKEN_INVALID | SUBDOMAIN_TAKEN | EMAIL_TAKEN
  | INVITE_INVALID | MFA_REQUIRED | MFA_INVALID_CODE | MFA_LOCKED | BRAND_MODE_ALREADY_CONFIGURED
  | BRAND_LIMIT_SINGLE_MODE | INVALID_TIMEZONE | BRANCH_NAME_TAKEN | ROOM_NUMBERS_TAKEN
  | INVALID_STATUS_TRANSITION
  | RESERVATION_NOT_AVAILABLE | OVERBOOKING_NOT_ACKNOWLEDGED | CANCELLATION_TERMS_CHANGED
  | FOLIO_NOT_SETTLED | AUDIT_ALREADY_RAN
  | SHIFT_ALREADY_OPEN | SHIFT_ALREADY_CLOSED | SHIFT_REQUIRED | EARLY_CHECK_IN
  | TENANT_SUSPENDED | PAYLOAD_TOO_LARGE | FOLIO_CREDIT_BALANCE

text \<open>
  The exception classes the services throw, a plain \<^verbatim>\<open>Error\<close> (a programming mistake,
  answered with status 500), and the two database refusals the code meets: a broken
  \<^verbatim>\<open>CHECK\<close> and a broken unique index (\<^verbatim>\<open>P2002\<close>).
\<close>

datatype http_error =
    BadRequest error_code
  | Unauthorized error_code
  | Forbidden error_code
  | NotFound error_code
  | Conflict error_code
  | TooManyRequests error_code
  | PlainError
  | CheckViolation
  | UniqueViolation

type_synonym 'a result = "http_error + 'a"

definition bindr :: "'a result \<Rightarrow> ('a \<Rightarrow> 'b result) \<Rightarrow> 'b result" where
  "bindr m f = (case m of Inl e \<Rightarrow> Inl e | Inr x \<Rightarrow> f x)"

lemma bindr_Inl [simp]: "bindr (Inl e) f = Inl e"
  by (simp add: bindr_def)

lemma bindr_Inr [simp]: "bindr (Inr x) f = f x"
  by (simp add: bindr_def)

lemma bindr_eq_Inr [res_simps]: "bindr m f = Inr y \<longleftrightarrow> (\<exists>x. m = Inr x \<and> f x = Inr y)"
  by (cases m) simp_all

lemma bindr_eq_Inl [res_simps]:
  "bindr m f = Inl e \<longleftrightarrow> m = Inl e \<or> (\<exists>x. m = Inr x \<and> f x = Inl e)"
  by (cases m) simp_all

lemma bindr_assoc: "bindr (bindr m f) g = bindr m (\<lambda>x. bindr (f x) g)"
  by (cases m) simp_all

lemma bindr_cong [fundef_cong]:
  assumes "m = m'" and "\<And>x. m' = Inr x \<Longrightarrow> f x = g x"
  shows "bindr m f = bindr m' g"
  using assms by (cases m') simp_all

text \<open>A \<open>for\<close> loop whose body may throw: the state is threaded through the list.\<close>

fun foldr_res :: "('a \<Rightarrow> 's \<Rightarrow> 's result) \<Rightarrow> 'a list \<Rightarrow> 's \<Rightarrow> 's result" where
  "foldr_res f [] s = Inr s"
| "foldr_res f (x # xs) s = bindr (f x s) (foldr_res f xs)"

lemma foldr_res_append: "foldr_res f (xs @ ys) s = bindr (foldr_res f xs s) (foldr_res f ys)"
proof (induction xs arbitrary: s)
  case (Cons x xs)
  show ?case by (cases "f x s") (simp_all add: Cons.IH)
qed simp

text \<open>The invariant rule of such a loop.\<close>

lemma foldr_res_inv:
  assumes "foldr_res f xs s = Inr t" and "P s"
    and "\<And>x s t. x \<in> set xs \<Longrightarrow> P s \<Longrightarrow> f x s = Inr t \<Longrightarrow> P t"
  shows "P t"
  using assms
proof (induction xs arbitrary: s)
  case Nil
  then show ?case by simp
next
  case (Cons x xs)
  from Cons.prems(1) obtain u where u: "f x s = Inr u" "foldr_res f xs u = Inr t"
    by (auto simp: res_simps)
  have "P u" using Cons.prems(3)[of x s u] Cons.prems(2) u(1) by simp
  then show ?case using Cons.IH[OF u(2)] Cons.prems(3) by (meson list.set_intros(2))
qed

text \<open>
  A system that moves by steps, and a property every step keeps: then every run keeps it.
\<close>

locale step_invariant =
  fixes step :: "'s \<Rightarrow> 's \<Rightarrow> bool" and inv :: "'s \<Rightarrow> bool"
  assumes step_keeps: "step s t \<Longrightarrow> inv s \<Longrightarrow> inv t"
begin

lemma run_keeps: "step\<^sup>*\<^sup>* s t \<Longrightarrow> inv s \<Longrightarrow> inv t"
  by (induction rule: rtranclp_induct) (auto intro: step_keeps)

end

text \<open>An optional member: \<open>x ?? d\<close> and \<open>x !== undefined ? \<dots>\<close>.\<close>

definition the_default :: "'a \<Rightarrow> 'a option \<Rightarrow> 'a" where
  "the_default d x = (case x of None \<Rightarrow> d | Some v \<Rightarrow> v)"

lemma the_default_simps [simp]: "the_default d None = d" "the_default d (Some v) = v"
  by (simp_all add: the_default_def)

section \<open>JSON values\<close>

text \<open>
  What a JSON column can hold. Numbers of a JSON column are finite, so \<^verbatim>\<open>Number.isFinite\<close>
  holds of every \<open>JNum\<close>. A missing field (\<^verbatim>\<open>undefined\<close>) is \<open>None\<close>.
\<close>

datatype json =
    JNull
  | JBool bool
  | JNum rat
  | JStr string
  | JArr "json list"
  | JObj "(string \<times> json) list"

text \<open>
  The fields of a value read as a record: an object's own, none for anything else (an array
  is an object to \<^verbatim>\<open>typeof\<close>, but has none of the fields the code reads).
\<close>

definition jfields :: "json option \<Rightarrow> (string \<times> json) list" where
  "jfields v = (case v of Some (JObj fs) \<Rightarrow> fs | _ \<Rightarrow> [])"

definition jget :: "(string \<times> json) list \<Rightarrow> string \<Rightarrow> json option" where
  "jget fs k = map_of fs k"

definition jstring :: "json option \<Rightarrow> string option" where
  "jstring v = (case v of Some (JStr s) \<Rightarrow> Some s | _ \<Rightarrow> None)"

definition jnumber :: "json option \<Rightarrow> rat option" where
  "jnumber v = (case v of Some (JNum n) \<Rightarrow> Some n | _ \<Rightarrow> None)"

definition jbool :: "json option \<Rightarrow> bool option" where
  "jbool v = (case v of Some (JBool b) \<Rightarrow> Some b | _ \<Rightarrow> None)"

text \<open>\<^verbatim>\<open>Number.isInteger\<close> of a number that is at least zero, as a whole number.\<close>

definition jcount :: "json option \<Rightarrow> int option" where
  "jcount v = (case jnumber v of
       Some n \<Rightarrow> if of_int \<lfloor>n\<rfloor> = n \<and> 0 \<le> n then Some \<lfloor>n\<rfloor> else None
     | None \<Rightarrow> None)"

section \<open>Lists and sums\<close>

text \<open>\<open>xs.find(p)\<close> is the library's \<open>List.find\<close>; \<open>.at(-1)\<close> of a list that may be empty.\<close>

definition last_opt :: "'a list \<Rightarrow> 'a option" where
  "last_opt xs = (if xs = [] then None else Some (last xs))"

definition head_opt :: "'a list \<Rightarrow> 'a option" where
  "head_opt xs = (case xs of [] \<Rightarrow> None | x # _ \<Rightarrow> Some x)"

text \<open>\<open>[...new Set(xs)]\<close>: the distinct elements in order of first appearance.\<close>

definition js_unique :: "'a list \<Rightarrow> 'a list" where
  "js_unique xs = rev (remdups (rev xs))"

lemma set_js_unique [simp]: "set (js_unique xs) = set xs"
  by (simp add: js_unique_def)

lemma distinct_js_unique [simp]: "distinct (js_unique xs)"
  by (simp add: js_unique_def)

lemma find_Some_mem: "List.find p xs = Some x \<Longrightarrow> x \<in> set xs \<and> p x"
  by (auto simp: find_Some_iff)

lemma find_append:
  "List.find p (xs @ ys) = (case List.find p xs of None \<Rightarrow> List.find p ys | Some x \<Rightarrow> Some x)"
  by (induction xs) auto

lemma find_None_ex: "List.find p xs = None \<longleftrightarrow> (\<forall>x \<in> set xs. \<not> p x)"
  by (auto simp: find_None_iff)

lemma find_map_inv:
  assumes "\<And>x. x \<in> set xs \<Longrightarrow> p (f x) = p x"
  shows "List.find p (map f xs) = map_option f (List.find p xs)"
  using assms by (induction xs) auto

lemma sum_list_filter_split:
  fixes f :: "'a \<Rightarrow> 'b::comm_monoid_add"
  shows "sum_list (map f (filter p xs)) + sum_list (map f (filter (\<lambda>x. \<not> p x) xs))
    = sum_list (map f xs)"
  by (induction xs) (auto simp: ac_simps)

lemma sum_list_nonneg_mem:
  fixes f :: "'a \<Rightarrow> 'b::ordered_comm_monoid_add"
  assumes "\<And>x. x \<in> set xs \<Longrightarrow> 0 \<le> f x"
  shows "0 \<le> sum_list (map f xs)"
  using assms by (induction xs) (auto intro: add_nonneg_nonneg)

lemma sum_list_uminus:
  fixes f :: "'a \<Rightarrow> 'b::ab_group_add"
  shows "sum_list (map (\<lambda>x. - f x) xs) = - sum_list (map f xs)"
  by (induction xs) simp_all

lemma foldl_plus_sum_list:
  fixes f :: "'a \<Rightarrow> 'b::comm_monoid_add"
  shows "foldl (\<lambda>s x. s + f x) a xs = a + sum_list (map f xs)"
  by (induction xs arbitrary: a) (simp_all add: ac_simps)

lemma sorted_key_last: "sorted (map f xs) \<Longrightarrow> x \<in> set xs \<Longrightarrow> f x \<le> f (last xs)"
  by (induction xs rule: rev_induct) (auto simp: sorted_append)

lemma set_map_filter: "set (List.map_filter f xs) = {y. \<exists>x \<in> set xs. f x = Some y}"
  by (force simp: List.map_filter_def)

section \<open>Text\<close>

text \<open>\<^verbatim>\<open>String.prototype.trim\<close>, for the white space of Latin-1.\<close>

definition is_space :: "char \<Rightarrow> bool" where
  "is_space c \<longleftrightarrow> c \<in> {CHR '' '', CHR 0x09, CHR 0x0A, CHR 0x0B, CHR 0x0C, CHR 0x0D, CHR 0xA0}"

definition js_trim :: "string \<Rightarrow> string" where
  "js_trim s = rev (dropWhile is_space (rev (dropWhile is_space s)))"

text \<open>\<^verbatim>\<open>\\d\<close>, and \<^verbatim>\<open>toLowerCase\<close> and \<^verbatim>\<open>toUpperCase\<close> on the letters of ASCII.\<close>

definition is_digit :: "char \<Rightarrow> bool" where
  "is_digit c \<longleftrightarrow> CHR ''0'' \<le> c \<and> c \<le> CHR ''9''"

definition lower_char :: "char \<Rightarrow> char" where
  "lower_char c = (if CHR ''A'' \<le> c \<and> c \<le> CHR ''Z'' then char_of (of_char c + (32::nat)) else c)"

definition upper_char :: "char \<Rightarrow> char" where
  "upper_char c = (if CHR ''a'' \<le> c \<and> c \<le> CHR ''z'' then char_of (of_char c - (32::nat)) else c)"

definition js_lower :: "string \<Rightarrow> string" where
  "js_lower = map lower_char"

definition js_upper :: "string \<Rightarrow> string" where
  "js_upper = map upper_char"

text \<open>\<^verbatim>\<open>replace(/\\s+/g, ' ')\<close>\<close>

fun squeeze :: "string \<Rightarrow> string" where
  "squeeze [] = []"
| "squeeze [c] = [if is_space c then CHR '' '' else c]"
| "squeeze (c # d # s) = (if is_space c then if is_space d then squeeze (d # s) else CHR '' '' # squeeze (d # s) else c # squeeze (d # s))"

lemma dropWhile_idem [simp]: "dropWhile p (dropWhile p xs) = dropWhile p xs"
  by (induction xs) auto

lemma dropWhile_rev_keep:
  "dropWhile p (rev (dropWhile p (rev (dropWhile p xs)))) = rev (dropWhile p (rev (dropWhile p xs)))"
proof (cases "dropWhile p xs")
  case (Cons y ys)
  then have "\<not> p y" by (metis dropWhile_eq_Cons_conv)
  then have "rev (dropWhile p (rev (y # ys))) = y # rev (dropWhile p (rev ys))"
    by (simp add: dropWhile_append)
  with Cons \<open>\<not> p y\<close> show ?thesis by simp
next
  case Nil
  then show ?thesis by (simp only: rev.simps dropWhile.simps)
qed

lemma js_trim_idem [simp]: "js_trim (js_trim s) = js_trim s"
  by (simp add: js_trim_def dropWhile_rev_keep)

end
