(* ===== verification/Decimal.thy ===== *)
theory Decimal
  imports Prelude
begin

text \<open>
  Money arithmetic. The services compute amounts with \<^verbatim>\<open>Prisma.Decimal\<close> (the decimal.js
  package, not part of the repository). A value is a rational number; what the package
  computes exactly on the amounts the system stores (at most twelve digits: sums,
  differences, products of stored amounts, comparison, negation, floor) is the rational
  operation itself. What it rounds is a parameter of the model:
  \<^item> \<open>d_div\<close>: the quotient, rounded to the package's precision of 20 significant digits;
  \<^item> \<open>d_mul\<close>: a product one of whose factors is already such a quotient;
  \<^item> \<open>d_dp2\<close>: \<^verbatim>\<open>toDecimalPlaces(2)\<close> in the package's default rounding mode;
  \<^item> \<open>d_dp2_down\<close>: \<^verbatim>\<open>toDecimalPlaces(2, ROUND_DOWN)\<close>;
  \<^item> \<open>d_toFixed2\<close> and \<open>d_parse\<close>: \<^verbatim>\<open>toFixed(2)\<close> and \<^verbatim>\<open>new Decimal(string)\<close>, which
    throws on text that is no number and accepts \<^verbatim>\<open>Infinity\<close> and \<^verbatim>\<open>NaN\<close>.

  The locale \<open>decimal_arith\<close> states what the services rely on, all of it documented
  behaviour of the package; \<open>decimal_js\<close> is a concrete library with that behaviour
  (20 significant digits, half-up), and the interpretation at the end shows that it
  satisfies the laws.
\<close>

datatype parsed = Throws | NonFinite | Finite rat

record decimal_lib =
  d_div :: "rat \<Rightarrow> rat \<Rightarrow> rat"
  d_mul :: "rat \<Rightarrow> rat \<Rightarrow> rat"
  d_dp2 :: "rat \<Rightarrow> rat"
  d_dp2_down :: "rat \<Rightarrow> rat"
  d_toFixed2 :: "rat \<Rightarrow> string"
  d_parse :: "string \<Rightarrow> parsed"

text \<open>An amount a \<^verbatim>\<open>NUMERIC(12,2)\<close> column can hold: whole cents (size bounds are stated where needed).\<close>

definition is_money :: "rat \<Rightarrow> bool" where
  "is_money x \<longleftrightarrow> of_int \<lfloor>x * 100\<rfloor> = x * 100"

lemma is_money_iff: "is_money x \<longleftrightarrow> (\<exists>k::int. x = of_int k / 100)"
proof
  assume "is_money x"
  then have "x = of_int \<lfloor>x * 100\<rfloor> / 100"
    unfolding is_money_def by (simp only: eq_divide_eq) simp
  then show "\<exists>k::int. x = of_int k / 100" by blast
next
  assume "\<exists>k::int. x = of_int k / 100"
  then obtain k :: int where "x * 100 = of_int k" by auto
  then show "is_money x" unfolding is_money_def by (metis floor_of_int)
qed

lemma is_moneyI: "x = of_int k / 100 \<Longrightarrow> is_money x"
  by (auto simp: is_money_iff)

lemma is_money_0 [simp]: "is_money 0"
  by (rule is_moneyI[of _ 0]) simp

lemma is_money_add: "is_money x \<Longrightarrow> is_money y \<Longrightarrow> is_money (x + y)"
  unfolding is_money_iff by (metis add_divide_distrib of_int_add)

lemma is_money_minus: "is_money x \<Longrightarrow> is_money (- x)"
  unfolding is_money_iff by (metis minus_divide_left of_int_minus)

lemma is_money_diff: "is_money x \<Longrightarrow> is_money y \<Longrightarrow> is_money (x - y)"
  using is_money_add[OF _ is_money_minus, of x y] by simp

lemma is_money_of_int [simp]: "is_money (of_int n)"
  by (rule is_moneyI[of _ "n * 100"]) simp

lemma is_money_mult_int: "is_money x \<Longrightarrow> is_money (x * of_int n)"
  unfolding is_money_iff by (metis of_int_mult times_divide_eq_left)

lemma is_money_sum_list: "(\<And>x. x \<in> set xs \<Longrightarrow> is_money (f x)) \<Longrightarrow> is_money (sum_list (map f xs))"
  by (induction xs) (auto intro: is_money_add)

text \<open>Amounts lie on a grid of step 1/100, so anything strictly nearer than a cent is equal or ordered.\<close>

lemma money_le_of_lt_cent:
  assumes "is_money x" and "is_money y" and "x < y + 1 / 100"
  shows "x \<le> y"
proof -
  from assms(1,2) obtain j k :: int where x: "x = of_int j / 100" and y: "y = of_int k / 100"
    by (auto simp: is_money_iff)
  from assms(3) have "(of_int j :: rat) < of_int (k + 1)" by (simp add: x y)
  then have "j < k + 1" by (simp only: of_int_less_iff)
  then show ?thesis by (simp add: x y)
qed

lemma money_eq_of_near:
  assumes "is_money x" and "is_money y" and "\<bar>y - x\<bar> \<le> 1 / 200"
  shows "y = x"
proof (rule antisym)
  show "y \<le> x" using assms(3) by (intro money_le_of_lt_cent[OF assms(2,1)]) linarith
  show "x \<le> y" using assms(3) by (intro money_le_of_lt_cent[OF assms(1,2)]) linarith
qed

lemma tenth_shrinks: "0 < q \<Longrightarrow> q / 10 ^ 19 < (q :: rat)"
  by (simp add: divide_less_eq)

locale decimal_arith =
  fixes D :: decimal_lib
  assumes div_err: "b \<noteq> 0 \<Longrightarrow> \<bar>d_div D a b - a / b\<bar> \<le> \<bar>a / b\<bar> / 10 ^ 19"
    and mul_err: "\<bar>d_mul D a b - a * b\<bar> \<le> \<bar>a * b\<bar> / 10 ^ 19"
    and dp2_money: "is_money (d_dp2 D x)"
    and dp2_half: "\<bar>d_dp2 D x - x\<bar> \<le> 1 / 200"
    and dp2_down_money: "is_money (d_dp2_down D x)"
    and dp2_down_le: "0 \<le> x \<Longrightarrow> d_dp2_down D x \<le> x"
    and dp2_down_gt: "0 \<le> x \<Longrightarrow> x < d_dp2_down D x + 1 / 100"
    and parse_toFixed: "is_money x \<Longrightarrow> d_parse D (d_toFixed2 D x) = Finite x"
begin

lemma dp2_bounds: "d_dp2 D x \<le> x + 1 / 200" "x \<le> d_dp2 D x + 1 / 200"
  using dp2_half[of x] by linarith+

lemma dp2_id: "is_money x \<Longrightarrow> d_dp2 D x = x"
  by (rule money_eq_of_near[OF _ dp2_money dp2_half])

lemma dp2_mono: "x \<le> y \<Longrightarrow> d_dp2 D x \<le> d_dp2 D y"
proof (cases "x = y")
  case False
  assume "x \<le> y"
  with False have "x < y" by simp
  then have "d_dp2 D x < d_dp2 D y + 1 / 100"
    using dp2_bounds(1)[of x] dp2_bounds(2)[of y] by linarith
  then show ?thesis by (rule money_le_of_lt_cent[OF dp2_money dp2_money])
qed simp

lemma dp2_nonneg: "0 \<le> x \<Longrightarrow> 0 \<le> d_dp2 D x"
  using dp2_mono[of 0 x] dp2_id[of 0] by simp

lemma dp2_le_money:
  assumes "is_money c" and "x < c + 1 / 200"
  shows "d_dp2 D x \<le> c"
proof (rule money_le_of_lt_cent[OF dp2_money assms(1)])
  show "d_dp2 D x < c + 1 / 100" using assms(2) dp2_bounds(1)[of x] by linarith
qed

lemma dp2_down_nonneg:
  assumes "0 \<le> x"
  shows "0 \<le> d_dp2_down D x"
  using money_le_of_lt_cent[of 0 "d_dp2_down D x"] dp2_down_money[of x] dp2_down_gt[OF assms] assms
  by simp

lemma div_pos:
  assumes "0 < a" and "0 < b"
  shows "0 < d_div D a b"
proof -
  have q: "0 < a / b" using assms by simp
  have "a / b - d_div D a b \<le> a / b / 10 ^ 19"
    using div_err[of b a] assms q by (simp add: abs_le_iff)
  moreover have "a / b / 10 ^ 19 < a / b"
    using q by (rule tenth_shrinks)
  ultimately show ?thesis by linarith
qed

lemma div_zero: "b \<noteq> 0 \<Longrightarrow> d_div D 0 b = 0"
  using div_err[of b 0] by simp

lemma div_nonneg: "0 \<le> a \<Longrightarrow> 0 < b \<Longrightarrow> 0 \<le> d_div D a b"
  using div_pos[of a b] div_zero[of b] by (cases "a = 0") auto

lemma div_upper:
  assumes "0 \<le> a" and "0 < b" and "a \<le> c * b"
  shows "d_div D a b \<le> c + c / 10 ^ 19"
proof -
  have q: "0 \<le> a / b" "a / b \<le> c" using assms by (simp_all add: pos_divide_le_eq)
  have "d_div D a b \<le> a / b + a / b / 10 ^ 19"
    using div_err[of b a] assms q by (simp add: abs_le_iff)
  also have "\<dots> \<le> c + c / 10 ^ 19" using q by (intro add_mono divide_right_mono) simp_all
  finally show ?thesis .
qed

text \<open>
  A share of an amount, rounded to the cent, is never more than the amount: the quotient's
  error is far below half a cent for every amount a column can hold.
\<close>

lemma dp2_div_le:
  assumes "0 \<le> a" and "0 < b" and "a \<le> c * b" and "is_money c" and "c < 10 ^ 16"
  shows "d_dp2 D (d_div D a b) \<le> c"
proof (rule dp2_le_money[OF assms(4)])
  have "c / 10 ^ 19 < 1 / 200" using assms(5) by (simp add: divide_less_eq)
  then show "d_div D a b < c + 1 / 200" using div_upper[OF assms(1-3)] by linarith
qed

lemma mul_nonneg:
  assumes "0 \<le> a" and "0 \<le> b"
  shows "0 \<le> d_mul D a b"
proof -
  have p: "0 \<le> a * b" using assms by simp
  have "\<bar>a * b\<bar> = a * b" using p by simp
  with mul_err[of a b] have "a * b - d_mul D a b \<le> a * b / 10 ^ 19" by linarith
  moreover have "a * b / 10 ^ 19 \<le> a * b" using p by (simp add: divide_le_eq)
  ultimately show ?thesis by linarith
qed

lemma mul_zero: "d_mul D a 0 = 0"
  using mul_err[of a 0] by simp

end

section \<open>A concrete library: 20 significant digits, half-up\<close>

fun ndigits :: "nat \<Rightarrow> nat" where
  "ndigits n = (if n < 10 then 1 else Suc (ndigits (n div 10)))"

declare ndigits.simps [simp del]

lemma ndigits_pos: "0 < ndigits n"
  by (subst ndigits.simps) simp

lemma ndigits_bounds: "0 < n \<Longrightarrow> 10 ^ (ndigits n - 1) \<le> n \<and> n < 10 ^ ndigits n"
proof (induction n rule: ndigits.induct)
  case (1 n)
  show ?case
  proof (cases "n < 10")
    case True
    then show ?thesis using 1(2) by (simp add: ndigits.simps[of n])
  next
    case False
    let ?m = "n div 10"
    from False have m: "10 ^ (ndigits ?m - 1) \<le> ?m \<and> ?m < 10 ^ ndigits ?m"
      by (intro 1(1)) auto
    obtain k where k: "ndigits ?m = Suc k" using ndigits_pos[of ?m] gr0_implies_Suc by blast
    from m k have lo: "10 ^ k \<le> ?m" and hi: "?m < 10 ^ Suc k" by simp_all
    from lo have "10 * 10 ^ k \<le> 10 * ?m" by simp
    also have "\<dots> \<le> n" by simp
    finally have "10 ^ Suc k \<le> n" by simp
    moreover have "n < 10 ^ Suc (Suc k)"
    proof -
      from hi have "Suc ?m \<le> 10 ^ Suc k" by simp
      then have "10 * Suc ?m \<le> 10 * 10 ^ Suc k" by (rule mult_le_mono2)
      moreover have "n < 10 * Suc ?m" by simp
      ultimately show ?thesis by simp
    qed
    ultimately show ?thesis using False k by (simp add: ndigits.simps[of n])
  qed
qed

text \<open>The exponent of the leading digit of a positive rational.\<close>

definition leading_exp :: "rat \<Rightarrow> int" where
  "leading_exp q =
     (let (a, b) = quotient_of q;
          k = int (ndigits (nat a)) - int (ndigits (nat b))
      in if 10 powi k \<le> q then k else k - 1)"

definition sig20 :: "rat \<Rightarrow> rat" where
  "sig20 q =
     (if q = 0 then 0
      else let u = 10 powi (leading_exp \<bar>q\<bar> - 19)
           in sgn q * of_int \<lfloor>\<bar>q\<bar> / u + 1 / 2\<rfloor> * u)"

definition half_up2 :: "rat \<Rightarrow> rat" where
  "half_up2 x = (if x < 0 then - (of_int \<lfloor>- x * 100 + 1 / 2\<rfloor> / 100) else of_int \<lfloor>x * 100 + 1 / 2\<rfloor> / 100)"

definition down2 :: "rat \<Rightarrow> rat" where
  "down2 x = (if x < 0 then - (of_int \<lfloor>- x * 100\<rfloor> / 100) else of_int \<lfloor>x * 100\<rfloor> / 100)"

text \<open>Printing with two decimals, and reading plain decimal notation back.\<close>

definition digit_char :: "nat \<Rightarrow> char" where
  "digit_char d = char_of (48 + d)"

definition read_digit :: "char \<Rightarrow> nat option" where
  "read_digit c = (let n = of_char c in if 48 \<le> n \<and> n \<le> (57::nat) then Some (n - 48) else None)"

fun show_nat :: "nat \<Rightarrow> string" where
  "show_nat n = (if n < 10 then [digit_char n] else show_nat (n div 10) @ [digit_char (n mod 10)])"

declare show_nat.simps [simp del]

fun read_nat :: "nat \<Rightarrow> string \<Rightarrow> nat option" where
  "read_nat acc [] = Some acc"
| "read_nat acc (c # cs) = (case read_digit c of None \<Rightarrow> None | Some d \<Rightarrow> read_nat (acc * 10 + d) cs)"

definition fixed2 :: "rat \<Rightarrow> string" where
  "fixed2 x =
     (let k = \<lfloor>half_up2 x * 100\<rfloor>; n = nat \<bar>k\<bar>
      in (if k < 0 then ''-'' else '''') @ show_nat (n div 100) @ ''.'' @
         [digit_char (n div 10 mod 10), digit_char (n mod 10)])"

definition parse_unsigned :: "string \<Rightarrow> parsed" where
  "parse_unsigned t =
     (let whole = takeWhile (\<lambda>c. c \<noteq> CHR ''.'') t; frac = drop 1 (dropWhile (\<lambda>c. c \<noteq> CHR ''.'') t)
      in if whole = [] then Throws
         else case read_nat 0 (whole @ frac) of
                None \<Rightarrow> Throws
              | Some n \<Rightarrow> Finite (of_nat n / 10 ^ length frac))"

definition parse_plain :: "string \<Rightarrow> parsed" where
  "parse_plain s =
     (if s = ''NaN'' \<or> s = ''Infinity'' \<or> s = ''-Infinity'' then NonFinite
      else case s of
        [] \<Rightarrow> Throws
      | c # t \<Rightarrow> (if c = CHR ''-''
                  then (case parse_unsigned t of Finite v \<Rightarrow> Finite (- v) | p \<Rightarrow> p)
                  else parse_unsigned s))"

definition decimal_js :: decimal_lib where
  "decimal_js = \<lparr>d_div = (\<lambda>a b. sig20 (a / b)), d_mul = (\<lambda>a b. sig20 (a * b)),
     d_dp2 = half_up2, d_dp2_down = down2, d_toFixed2 = fixed2, d_parse = parse_plain\<rparr>"

lemma leading_exp_le:
  assumes "0 < q"
  shows "10 powi leading_exp q \<le> q"
proof -
  obtain a b where ab: "quotient_of q = (a, b)" by (cases "quotient_of q")
  have b: "0 < b" using ab quotient_of_denom_pos by blast
  have q: "q = of_int a / of_int b" using ab quotient_of_div by blast
  have a: "0 < a" using assms b q by (simp add: zero_less_divide_iff)
  let ?na = "ndigits (nat a)" and ?nb = "ndigits (nat b)"
  let ?k = "int ?na - int ?nb"
  have "(10::nat) ^ (?na - 1) \<le> nat a" using ndigits_bounds[of "nat a"] a by simp
  then have "of_nat (10 ^ (?na - 1)) \<le> (of_nat (nat a) :: rat)" by (simp only: of_nat_le_iff)
  then have la: "10 ^ (?na - 1) \<le> (of_int a :: rat)" using a by simp
  have "nat b < 10 ^ ?nb" using ndigits_bounds[of "nat b"] b by simp
  then have "(of_nat (nat b) :: rat) \<le> of_nat (10 ^ ?nb)" by (simp only: of_nat_le_iff less_imp_le)
  then have ub: "(of_int b :: rat) \<le> 10 ^ ?nb" using b by simp
  have "10 powi (?k - 1) = (10 ^ (?na - 1) / 10 ^ ?nb :: rat)"
  proof -
    have "?k - 1 = int (?na - 1) - int ?nb" using ndigits_pos[of "nat a"] by simp
    then have "10 powi (?k - 1) = (10 powi (int (?na - 1) - int ?nb) :: rat)" by (rule arg_cong)
    also have "\<dots> = 10 powi int (?na - 1) / 10 powi int ?nb" by (rule power_int_diff) simp
    finally show ?thesis by (simp only: power_int_of_nat)
  qed
  also have "\<dots> \<le> of_int a / of_int b"
    using la ub a b by (intro frac_le) simp_all
  finally have "10 powi (?k - 1) \<le> q" by (simp add: q)
  then show ?thesis by (simp add: leading_exp_def ab Let_def)
qed

lemma floor_half_err: "\<bar>of_int \<lfloor>x + 1 / 2\<rfloor> - x\<bar> \<le> (1 / 2 :: rat)"
  using floor_correct[of "x + 1 / 2"] by (simp only: abs_le_iff) (simp add: field_simps)

lemma sig20_err: "\<bar>sig20 q - q\<bar> \<le> \<bar>q\<bar> / 10 ^ 19"
proof (cases "q = 0")
  case True
  then show ?thesis by (simp add: sig20_def)
next
  case False
  define u :: rat where "u = 10 powi (leading_exp \<bar>q\<bar> - 19)"
  have u: "0 < u" by (simp add: u_def)
  have "u = 10 powi leading_exp \<bar>q\<bar> / 10 ^ 19" by (simp add: u_def power_int_diff)
  also have "\<dots> \<le> \<bar>q\<bar> / 10 ^ 19"
    using leading_exp_le[of "\<bar>q\<bar>"] False by (intro divide_right_mono) simp_all
  finally have uq: "u \<le> \<bar>q\<bar> / 10 ^ 19" .
  let ?n = "of_int \<lfloor>\<bar>q\<bar> / u + 1 / 2\<rfloor> :: rat"
  have "sig20 q - q = sgn q * (?n - \<bar>q\<bar> / u) * u"
    using False u by (simp add: sig20_def u_def[symmetric] Let_def field_simps sgn_if)
  then have "\<bar>sig20 q - q\<bar> = \<bar>?n - \<bar>q\<bar> / u\<bar> * u"
    using False u by (simp add: abs_mult abs_sgn_eq)
  also have "\<dots> \<le> 1 / 2 * u" using floor_half_err u by (intro mult_right_mono) simp_all
  also have "\<dots> \<le> u" using u by simp
  finally show ?thesis using uq by linarith
qed

lemma half_up2_money: "is_money (half_up2 x)"
  unfolding half_up2_def by (auto intro: is_moneyI is_money_minus)

lemma half_up2_half: "\<bar>half_up2 x - x\<bar> \<le> 1 / 200"
proof (cases "x < 0")
  case True
  have "\<bar>half_up2 x - x\<bar> = \<bar>of_int \<lfloor>- x * 100 + 1 / 2\<rfloor> - (- x * 100)\<bar> / 100"
    using True by (simp add: half_up2_def abs_if field_simps)
  also have "\<dots> \<le> 1 / 2 / 100" by (intro divide_right_mono floor_half_err) simp
  finally show ?thesis by simp
next
  case False
  have "\<bar>half_up2 x - x\<bar> = \<bar>of_int \<lfloor>x * 100 + 1 / 2\<rfloor> - x * 100\<bar> / 100"
    using False by (simp add: half_up2_def abs_if field_simps)
  also have "\<dots> \<le> 1 / 2 / 100" by (intro divide_right_mono floor_half_err) simp
  finally show ?thesis by simp
qed

lemma down2_money: "is_money (down2 x)"
  unfolding down2_def by (auto intro: is_moneyI is_money_minus)

lemma down2_bounds: "0 \<le> x \<Longrightarrow> down2 x \<le> x \<and> x < down2 x + 1 / 100"
  using floor_correct[of "x * 100"] by (simp add: down2_def field_simps)

lemma read_digit_char [simp]: "d < 10 \<Longrightarrow> read_digit (digit_char d) = Some d"
  by (simp add: read_digit_def digit_char_def Let_def of_char_of)

lemma digit_char_neq: "d < 10 \<Longrightarrow> digit_char d \<noteq> CHR ''.'' \<and> digit_char d \<noteq> CHR ''-''"
proof -
  assume d: "d < 10"
  have "read_digit CHR ''.'' = None" "read_digit CHR ''-'' = None" by (simp_all add: read_digit_def)
  with read_digit_char[OF d] show ?thesis by auto
qed

lemma read_nat_append:
  "read_nat acc (xs @ ys) = (case read_nat acc xs of None \<Rightarrow> None | Some a \<Rightarrow> read_nat a ys)"
  by (induction xs arbitrary: acc) (auto split: option.splits)

lemma read_show_nat: "read_nat 0 (show_nat n) = Some n"
proof (induction n rule: show_nat.induct)
  case (1 n)
  then show ?case
    by (cases "n < 10") (simp_all add: show_nat.simps[of n] read_nat_append)
qed

lemma show_nat_digits: "c \<in> set (show_nat n) \<Longrightarrow> \<exists>d < 10. c = digit_char d"
proof (induction n rule: show_nat.induct)
  case (1 n)
  then show ?case
    by (cases "n < 10") (auto simp: show_nat.simps[of n] intro: exI[of _ "n mod 10"])
qed

lemma show_nat_nonempty: "show_nat n \<noteq> []"
  by (subst show_nat.simps) simp

lemma parse_unsigned_fixed:
  "parse_unsigned (show_nat (n div 100) @ ''.'' @ [digit_char (n div 10 mod 10), digit_char (n mod 10)])
     = Finite (of_nat n / 100)"
proof -
  have nodot: "\<forall>c \<in> set (show_nat (n div 100)). c \<noteq> CHR ''.''"
  proof
    fix c assume "c \<in> set (show_nat (n div 100))"
    then obtain d where "d < 10" "c = digit_char d" using show_nat_digits by blast
    then show "c \<noteq> CHR ''.''" using digit_char_neq[of d] by simp
  qed
  let ?d = "[digit_char (n div 10 mod 10), digit_char (n mod 10)]"
  have tw: "takeWhile (\<lambda>c. c \<noteq> CHR ''.'') (show_nat (n div 100) @ ''.'' @ ?d) = show_nat (n div 100)"
    using nodot by (subst takeWhile_append2) simp_all
  have dw: "dropWhile (\<lambda>c. c \<noteq> CHR ''.'') (show_nat (n div 100) @ ''.'' @ ?d) = ''.'' @ ?d"
    using nodot by (subst dropWhile_append2) simp_all
  have "n div 100 = n div 10 div 10" by (simp flip: div_mult2_eq)
  then have "(n div 100 * 10 + n div 10 mod 10) * 10 + n mod 10 = n"
    by (simp only: div_mult_mod_eq)
  then have "read_nat 0 (show_nat (n div 100) @ ?d) = Some n"
    by (simp add: read_nat_append read_show_nat)
  then show ?thesis
    unfolding parse_unsigned_def Let_def tw dw by (simp add: show_nat_nonempty)
qed

lemma digit_char_letters:
  assumes "\<exists>d<10. c = digit_char d"
  shows "c \<noteq> CHR ''N''" "c \<noteq> CHR ''I''" "c \<noteq> CHR ''-''"
proof -
  have "read_digit c \<noteq> None" using assms by auto
  then show "c \<noteq> CHR ''N''" "c \<noteq> CHR ''I''" "c \<noteq> CHR ''-''"
    by (auto simp: read_digit_def)
qed

lemma parse_plain_unsigned:
  "\<exists>d<10. c = digit_char d \<Longrightarrow> parse_plain (c # t) = parse_unsigned (c # t)"
  by (simp add: parse_plain_def digit_char_letters)

lemma parse_plain_negative:
  "\<exists>d<10. c = digit_char d \<Longrightarrow>
   parse_plain (CHR ''-'' # c # t) = (case parse_unsigned (c # t) of Finite v \<Rightarrow> Finite (- v) | p \<Rightarrow> p)"
  by (simp add: parse_plain_def digit_char_letters)

lemma parse_fixed2:
  assumes "is_money x"
  shows "parse_plain (fixed2 x) = Finite x"
proof -
  define k where "k = \<lfloor>x * 100\<rfloor>"
  define n where "n = nat \<bar>k\<bar>"
  have x: "x = of_int k / 100"
    using assms unfolding is_money_def k_def by (simp only: eq_divide_eq) simp
  have hu: "half_up2 x = x"
    using assms half_up2_money half_up2_half by (rule money_eq_of_near)
  let ?s = "show_nat (n div 100) @ ''.'' @ [digit_char (n div 10 mod 10), digit_char (n mod 10)]"
  have fx: "fixed2 x = (if k < 0 then ''-'' else '''') @ ?s"
    by (simp add: fixed2_def hu k_def n_def Let_def)
  have p: "parse_unsigned ?s = Finite (of_nat n / 100)" by (rule parse_unsigned_fixed)
  obtain c t where ct: "show_nat (n div 100) = c # t"
    using show_nat_nonempty[of "n div 100"] by (cases "show_nat (n div 100)") auto
  then have c: "\<exists>d<10. c = digit_char d" using show_nat_digits[of c "n div 100"] by simp
  show ?thesis
  proof (cases "k < 0")
    case True
    then have "fixed2 x = CHR ''-'' # ?s" by (simp add: fx)
    then have "parse_plain (fixed2 x) = Finite (- (of_nat n / 100))"
      using p by (simp add: ct parse_plain_negative[OF c])
    moreover have "x = - (of_nat n / 100)" using True by (simp add: x n_def)
    ultimately show ?thesis by simp
  next
    case False
    then have "fixed2 x = ?s" by (simp add: fx)
    then have "parse_plain (fixed2 x) = Finite (of_nat n / 100)"
      using p by (simp add: ct parse_plain_unsigned[OF c])
    moreover have "of_nat n / 100 = x" using False by (simp add: x n_def)
    ultimately show ?thesis by (simp only:)
  qed
qed

text \<open>
  Code equations that count on binary integers instead of unary naturals, for evaluating
  the concrete library.
\<close>

function ndig :: "int \<Rightarrow> int" where
  "ndig n = (if n < 10 then 1 else 1 + ndig (n div 10))"
  by pat_completeness auto
termination by (relation "measure nat") auto

declare ndig.simps [simp del]

lemma ndig_ndigits: "int (ndigits (nat n)) = ndig n"
proof (induction n rule: ndig.induct)
  case (1 n)
  show ?case
  proof (cases "n < 10")
    case False
    then have "nat n div 10 = nat (n div 10)" "\<not> nat n < 10" by (simp_all add: nat_div_distrib)
    with False 1 show ?thesis by (simp add: ndig.simps[of n] ndigits.simps[of "nat n"])
  next
    case True
    then have "nat n < 10" by simp
    with True show ?thesis by (simp add: ndig.simps[of n] ndigits.simps[of "nat n"])
  qed
qed

lemma leading_exp_code [code]:
  "leading_exp q = (let (a, b) = quotient_of q; k = ndig a - ndig b in if 10 powi k \<le> q then k else k - 1)"
  by (simp add: leading_exp_def ndig_ndigits)

fun read_int :: "int \<Rightarrow> string \<Rightarrow> int option" where
  "read_int acc [] = Some acc"
| "read_int acc (c # cs) = (case read_digit c of None \<Rightarrow> None | Some d \<Rightarrow> read_int (acc * 10 + int d) cs)"

lemma read_int_nat: "read_int (int acc) cs = map_option int (read_nat acc cs)"
proof (induction cs arbitrary: acc)
  case (Cons c cs)
  show ?case
  proof (cases "read_digit c")
    case (Some d)
    then show ?thesis using Cons.IH[of "acc * 10 + d"] by simp
  qed simp
qed simp

lemma parse_unsigned_code [code]:
  "parse_unsigned t =
     (let whole = takeWhile (\<lambda>c. c \<noteq> CHR ''.'') t; frac = drop 1 (dropWhile (\<lambda>c. c \<noteq> CHR ''.'') t)
      in if whole = [] then Throws
         else case read_int 0 (whole @ frac) of
                None \<Rightarrow> Throws
              | Some n \<Rightarrow> Finite (of_int n / 10 ^ length frac))"
  using read_int_nat[of 0] by (simp add: parse_unsigned_def Let_def split: option.splits)

function show_int :: "int \<Rightarrow> string" where
  "show_int n = (if n < 10 then [digit_char (nat n)] else show_int (n div 10) @ [digit_char (nat (n mod 10))])"
  by pat_completeness auto
termination by (relation "measure nat") auto

declare show_int.simps [simp del]

lemma show_int_nat: "show_int (int n) = show_nat n"
proof (induction n rule: show_nat.induct)
  case (1 n)
  have "int n div 10 = int (n div 10)" "nat (int n mod 10) = n mod 10" by (simp_all add: zdiv_int nat_mod_as_int)
  with 1 show ?case by (simp add: show_int.simps[of "int n"] show_nat.simps[of n])
qed

lemma fixed2_code [code]:
  "fixed2 x =
     (let k = \<lfloor>half_up2 x * 100\<rfloor>; n = \<bar>k\<bar>
      in (if k < 0 then ''-'' else '''') @ show_int (n div 100) @ ''.'' @
         [digit_char (nat (n div 10 mod 10)), digit_char (nat (n mod 10))])"
proof -
  define k where "k = \<lfloor>half_up2 x * 100\<rfloor>"
  have "show_int (\<bar>k\<bar> div 100) = show_nat (nat \<bar>k\<bar> div 100)"
    using show_int_nat[of "nat \<bar>k\<bar> div 100"] by (simp add: zdiv_int)
  moreover have "nat (\<bar>k\<bar> div 10 mod 10) = nat \<bar>k\<bar> div 10 mod 10" "nat (\<bar>k\<bar> mod 10) = nat \<bar>k\<bar> mod 10"
    by (simp_all add: nat_mod_distrib nat_div_distrib)
  ultimately show ?thesis by (simp add: fixed2_def Let_def flip: k_def)
qed

lemma decimal_js_sel:
  "d_div decimal_js a b = sig20 (a / b)" "d_mul decimal_js a b = sig20 (a * b)"
  "d_dp2 decimal_js x = half_up2 x" "d_dp2_down decimal_js x = down2 x"
  "d_toFixed2 decimal_js x = fixed2 x" "d_parse decimal_js s = parse_plain s"
  by (simp_all add: decimal_js_def)

interpretation js: decimal_arith decimal_js
  by unfold_locales
    (simp_all only: decimal_js_sel sig20_err half_up2_money half_up2_half down2_money down2_bounds
      parse_fixed2)

end
