(* ===== verification/Dates.thy ===== *)
theory Dates
  imports Prelude
begin

text \<open>
  Business dates and instants (\<^verbatim>\<open>src/src/common/utils/branch-date.ts\<close>). An instant is a
  number of milliseconds since the epoch, as in a JavaScript \<^verbatim>\<open>Date\<close>. A date column holds
  the instant of UTC midnight. The text \<^verbatim>\<open>YYYY-MM-DD\<close> names a calendar day and is
  represented by the number of that day since the epoch; comparing two such texts is
  comparing the two numbers. A clock time \<^verbatim>\<open>HH:MM:SS\<close> is its number of seconds.

  The offset of an IANA timezone at an instant is the parameter \<open>tzo\<close>: local clock time
  is the instant plus the offset. \<^verbatim>\<open>branchCutoffInstant\<close> reads the offset at its first
  guess, by formatting that guess in UTC and in the timezone and subtracting.
\<close>

type_synonym instant = int
type_synonym day = int
type_synonym tz_offset = "string \<Rightarrow> instant \<Rightarrow> int"

definition DAY :: int where "DAY = 86400000"

lemma DAY_pos [simp]: "0 < DAY" "DAY \<noteq> 0"
  by (simp_all add: DAY_def)

text \<open>\<^verbatim>\<open>date.toISOString().slice(0, 10)\<close>\<close>

definition day_key :: "instant \<Rightarrow> day" where
  "day_key t = t div DAY"

definition toBranchDate :: "day \<Rightarrow> instant" where
  "toBranchDate d = d * DAY"

definition timeOfDay :: "instant \<Rightarrow> int" where
  "timeOfDay t = (t mod DAY) div 1000"

definition branchCutoffInstant :: "tz_offset \<Rightarrow> instant \<Rightarrow> int \<Rightarrow> string \<Rightarrow> instant" where
  "branchCutoffInstant tzo dateOnly time timezone =
     (let guess = toBranchDate (day_key dateOnly) + time * 1000;
          asUtc = guess;
          asTz = guess + tzo timezone guess
      in guess + (asUtc - asTz))"

definition hasPassedBranchCutoff :: "tz_offset \<Rightarrow> instant \<Rightarrow> int \<Rightarrow> string \<Rightarrow> instant \<Rightarrow> bool" where
  "hasPassedBranchCutoff tzo dateOnly time timezone now \<longleftrightarrow>
     branchCutoffInstant tzo dateOnly time timezone \<le> now"

definition localDateOf :: "tz_offset \<Rightarrow> instant \<Rightarrow> string \<Rightarrow> day" where
  "localDateOf tzo t timezone = (t + tzo timezone t) div DAY"

definition todayInTimezone :: "tz_offset \<Rightarrow> string \<Rightarrow> instant \<Rightarrow> day" where
  "todayInTimezone tzo timezone now = localDateOf tzo now timezone"

definition branchDayStart :: "tz_offset \<Rightarrow> day \<Rightarrow> string \<Rightarrow> instant" where
  "branchDayStart tzo d timezone = branchCutoffInstant tzo (toBranchDate d) 0 timezone"

text \<open>
  \<^verbatim>\<open>Math.max(1, Math.round((out - in) / 86400000))\<close> of two dates; \<^verbatim>\<open>Math.round(x)\<close> is
  the floor of \<open>x + 1/2\<close>.
\<close>

definition round_days :: "int \<Rightarrow> int" where
  "round_days ms = (ms + DAY div 2) div DAY"

definition stay_nights :: "instant \<Rightarrow> instant \<Rightarrow> int" where
  "stay_nights checkIn checkOut = max 1 (round_days (checkOut - checkIn))"

text \<open>
  The loop \<^verbatim>\<open>for (d = from; d < to; d.setUTCDate(d.getUTCDate() + 1))\<close> that the rate
  resolver, the room-charge backfill and the fee calculator share.
\<close>

function enumerateNights :: "instant \<Rightarrow> instant \<Rightarrow> instant list" where
  "enumerateNights d till = (if d < till then d # enumerateNights (d + DAY) till else [])"
  by pat_completeness auto
termination
  by (relation "measure (\<lambda>(d, till). nat (till - d))") (auto simp: DAY_def)

declare enumerateNights.simps [simp del]

section \<open>Lemmas\<close>

lemma day_key_toBranchDate [simp]: "day_key (toBranchDate d) = d"
  by (simp add: day_key_def toBranchDate_def)

lemma round_days_exact [simp]: "round_days (n * DAY) = n"
  by (simp add: round_days_def DAY_def)

lemma enumerateNights_empty: "till \<le> d \<Longrightarrow> enumerateNights d till = []"
  by (subst enumerateNights.simps) simp

lemma enumerateNights_range: "n \<in> set (enumerateNights d till) \<Longrightarrow> d \<le> n \<and> n < till"
proof (induction d till rule: enumerateNights.induct)
  case (1 d till)
  then show ?case
    by (cases "d < till") (auto simp: enumerateNights.simps[of d till] DAY_def)
qed

lemma enumerateNights_mod: "n \<in> set (enumerateNights d till) \<Longrightarrow> n mod DAY = d mod DAY"
proof (induction d till rule: enumerateNights.induct)
  case (1 d till)
  then show ?case
    by (cases "d < till") (auto simp: enumerateNights.simps[of d till])
qed

text \<open>Between two dates the loop visits exactly the days in between, each once, in order.\<close>

lemma enumerateNights_dates:
  "enumerateNights (toBranchDate a) (toBranchDate b) = map toBranchDate [a..b - 1]"
proof (induction "nat (b - a)" arbitrary: a)
  case 0
  then show ?case
    by (simp add: enumerateNights_empty toBranchDate_def DAY_def)
next
  case (Suc k)
  then have "a < b" by simp
  moreover from Suc have "enumerateNights (toBranchDate (a + 1)) (toBranchDate b) = map toBranchDate [a + 1..b - 1]"
    by (intro Suc.hyps) simp
  moreover have "toBranchDate (a + 1) = toBranchDate a + DAY" by (simp add: toBranchDate_def algebra_simps)
  ultimately show ?case
    by (subst enumerateNights.simps) (simp add: toBranchDate_def upto_rec1)
qed

lemma enumerateNights_length: "length (enumerateNights (toBranchDate a) (toBranchDate b)) = nat (b - a)"
  by (simp add: enumerateNights_dates)

lemma enumerateNights_distinct: "distinct (enumerateNights d till)"
proof (induction d till rule: enumerateNights.induct)
  case (1 d till)
  show ?case
  proof (cases "d < till")
    case True
    moreover have "d \<notin> set (enumerateNights (d + DAY) till)"
      using enumerateNights_range[of d "d + DAY" till] by (auto simp: DAY_def)
    ultimately show ?thesis using 1 by (simp add: enumerateNights.simps[of d till])
  next
    case False
    then show ?thesis by (simp add: enumerateNights_empty)
  qed
qed

text \<open>
  In a timezone whose offset does not change (\<open>off\<close>), a branch's local days partition
  time: an instant falls on local day \<open>d\<close> or later exactly when it is not before
  \<^verbatim>\<open>branchDayStart(d)\<close>. So filtering a timestamp column with \<^verbatim>\<open>branchDayStart\<close> bounds
  selects exactly the rows whose \<^verbatim>\<open>localDateOf\<close> lies in the range.
\<close>

theorem branchDayStart_localDateOf:
  assumes "\<And>t. tzo zone t = off"
  shows "branchDayStart tzo d zone \<le> t \<longleftrightarrow> d \<le> localDateOf tzo t zone"
proof -
  have "d * DAY - off \<le> t \<longleftrightarrow> d \<le> (t + off) div DAY"
    unfolding DAY_def by linarith
  then show ?thesis
    by (simp add: branchDayStart_def branchCutoffInstant_def localDateOf_def assms
        day_key_def toBranchDate_def Let_def)
qed

text \<open>One in the afternoon, an hour east of UTC.\<close>

theorem branchDayStart_localDateOf_witness:
  "branchDayStart (\<lambda>_ _. 3600000) 20000 ''Africa/Lagos'' \<le> 1728046800000 \<longleftrightarrow>
   20000 \<le> localDateOf (\<lambda>_ _. 3600000) 1728046800000 ''Africa/Lagos''"
  by (rule branchDayStart_localDateOf) simp

end
