(* ===== verification/Policies.thy ===== *)
theory Policies
  imports Decimal Dates
begin

text \<open>
  The pure policy functions of a booking (\<^verbatim>\<open>src/src/modules/reservations\<close>): the price of one
  night (\<^verbatim>\<open>nightly-rates.ts\<close>), the cancellation policy and its penalty (\<^verbatim>\<open>policies.ts\<close>), late
  check-out and early departure fees (\<^verbatim>\<open>stay-fees.ts\<close>), deposits (\<^verbatim>\<open>deposits.ts\<close>), day-use
  hours (\<^verbatim>\<open>day-use.ts\<close>) and the window of a group block
  (\<^verbatim>\<open>src/src/modules/sales-events/group-block-window.ts\<close>).

  Every function reads its stored JSON defensively. A JavaScript number of a policy is a
  rational here; the sentences a guest reads (\<^verbatim>\<open>describe\<dots>\<close>) are not modelled.
\<close>

section \<open>A night's price\<close>

text \<open>
  \<^verbatim>\<open>Reservation.nightlyRates\<close>: \<open>None\<close> when the column holds no array. An element that is an
  object has the day its \<^verbatim>\<open>date\<close> field names (\<open>None\<close> when it names none) and its \<^verbatim>\<open>rate\<close>
  field, a JSON value or absent; any other element has no \<^verbatim>\<open>date\<close>.
\<close>

type_synonym nightly_json = "(day option \<times> json option) list option"

definition nightlyRateFor :: "decimal_lib \<Rightarrow> nightly_json \<Rightarrow> instant \<Rightarrow> rat option result" where
  "nightlyRateFor D nights serviceDate =
     (case nights of
        None \<Rightarrow> Inr None
      | Some ns \<Rightarrow>
          (case List.find (\<lambda>n. fst n = Some (day_key serviceDate)) ns of
             None \<Rightarrow> Inr None
           | Some (_, rate) \<Rightarrow>
               (case rate of
                  Some (JStr s) \<Rightarrow> (case d_parse D s of
                       Throws \<Rightarrow> Inl PlainError | NonFinite \<Rightarrow> Inr None | Finite r \<Rightarrow> Inr (Some r))
                | Some (JNum n) \<Rightarrow> Inr (Some n)
                | _ \<Rightarrow> Inr None)))"

record priced_stay =
  st_confirmedRate :: rat
  st_overrideRate :: "rat option"
  st_checkInDate :: instant
  st_checkOutDate :: instant
  st_nightlyRates :: nightly_json

text \<open>\<^verbatim>\<open>new Decimal(confirmedRate).div(nights).toDecimalPlaces(2)\<close>\<close>

definition evenSplit :: "decimal_lib \<Rightarrow> priced_stay \<Rightarrow> rat" where
  "evenSplit D stay =
     d_dp2 D (d_div D (st_confirmedRate stay) (of_int (stay_nights (st_checkInDate stay) (st_checkOutDate stay))))"

text \<open>The private \<^verbatim>\<open>nightPrice\<close> of \<^verbatim>\<open>stay-fees.ts\<close>: the override, the night's own quote, or the even split.\<close>

definition nightPrice :: "decimal_lib \<Rightarrow> priced_stay \<Rightarrow> instant \<Rightarrow> rat result" where
  "nightPrice D stay night =
     (case st_overrideRate stay of
        Some r \<Rightarrow> Inr r
      | None \<Rightarrow> bindr (nightlyRateFor D (st_nightlyRates stay) night) (\<lambda>own.
          Inr (case own of Some r \<Rightarrow> r | None \<Rightarrow> evenSplit D stay)))"

section \<open>Cancellation\<close>

datatype penalty_type = FirstNight | FullStay | FlatFee | NoPenalty

record cancellation_policy =
  cp_freeCancellationHours :: rat
  cp_lateCancellationPenalty :: penalty_type
  cp_flatFeeAmount :: "rat option"
  cp_allowOnlineCancellation :: bool

definition DEFAULT_CANCELLATION_POLICY :: cancellation_policy where
  "DEFAULT_CANCELLATION_POLICY = \<lparr>cp_freeCancellationHours = 24, cp_lateCancellationPenalty = FirstNight,
     cp_flatFeeAmount = None, cp_allowOnlineCancellation = True\<rparr>"

definition penalty_of_name :: "string \<Rightarrow> penalty_type option" where
  "penalty_of_name s =
     (if s = ''first_night'' then Some FirstNight else if s = ''full_stay'' then Some FullStay
      else if s = ''flat_fee'' then Some FlatFee else if s = ''none'' then Some NoPenalty else None)"

definition penalty_name :: "penalty_type \<Rightarrow> string" where
  "penalty_name p = (case p of FirstNight \<Rightarrow> ''first_night'' | FullStay \<Rightarrow> ''full_stay'' | FlatFee \<Rightarrow> ''flat_fee'' | NoPenalty \<Rightarrow> ''none'')"

definition resolveCancellationPolicy :: "json option \<Rightarrow> cancellation_policy" where
  "resolveCancellationPolicy stored =
     (let s = jfields stored
      in \<lparr>cp_freeCancellationHours =
            (case jnumber (jget s ''freeCancellationHours'') of
               Some h \<Rightarrow> if 0 \<le> h then h else cp_freeCancellationHours DEFAULT_CANCELLATION_POLICY
             | None \<Rightarrow> cp_freeCancellationHours DEFAULT_CANCELLATION_POLICY),
          cp_lateCancellationPenalty =
            (case jstring (jget s ''lateCancellationPenalty'') of
               Some n \<Rightarrow> the_default (cp_lateCancellationPenalty DEFAULT_CANCELLATION_POLICY) (penalty_of_name n)
             | None \<Rightarrow> cp_lateCancellationPenalty DEFAULT_CANCELLATION_POLICY),
          cp_flatFeeAmount =
            (case jnumber (jget s ''flatFeeAmount'') of Some f \<Rightarrow> if 0 < f then Some f else None | None \<Rightarrow> None),
          cp_allowOnlineCancellation =
            the_default (cp_allowOnlineCancellation DEFAULT_CANCELLATION_POLICY) (jbool (jget s ''allowOnlineCancellation''))\<rparr>)"

definition penaltyAmountFor :: "decimal_lib \<Rightarrow> priced_stay \<Rightarrow> penalty_type \<Rightarrow> rat option \<Rightarrow> rat option result" where
  "penaltyAmountFor D stay penaltyType flatFeeAmount =
     (case penaltyType of
        FirstNight \<Rightarrow>
          (case st_overrideRate stay of
             Some r \<Rightarrow> Inr (Some r)
           | None \<Rightarrow> bindr (nightlyRateFor D (st_nightlyRates stay) (st_checkInDate stay)) (\<lambda>own.
               Inr (Some (case own of Some r \<Rightarrow> r | None \<Rightarrow> evenSplit D stay))))
      | FullStay \<Rightarrow> Inr (Some (st_confirmedRate stay))
      | FlatFee \<Rightarrow> Inr (case flatFeeAmount of Some f \<Rightarrow> if f \<noteq> 0 then Some f else None | None \<Rightarrow> None)
      | NoPenalty \<Rightarrow> Inr None)"

datatype reservation_status = Waitlisted | Confirmed | Checked_in | Checked_out | Cancelled | No_show | Walked

definition CANCELLABLE_STATUSES :: "reservation_status set" where
  "CANCELLABLE_STATUSES = {Confirmed, Waitlisted}"

record cancellation_terms =
  ct_checkInAt :: instant
  ct_freeUntil :: instant
  ct_withinFreeWindow :: bool
  ct_pastCheckInTime :: bool
  ct_penaltyType :: penalty_type
  ct_penaltyAmount :: rat

text \<open>A \<^verbatim>\<open>Date\<close> made from a number drops its fraction towards zero.\<close>

definition js_trunc :: "rat \<Rightarrow> int" where
  "js_trunc x = (if 0 \<le> x then \<lfloor>x\<rfloor> else \<lceil>x\<rceil>)"

definition cancellationTermsFor ::
  "decimal_lib \<Rightarrow> tz_offset \<Rightarrow> priced_stay \<Rightarrow> reservation_status \<Rightarrow> string \<Rightarrow> instant \<Rightarrow> cancellation_policy \<Rightarrow> instant
     \<Rightarrow> cancellation_terms result" where
  "cancellationTermsFor D tzo stay status timezone checkInTime policy now =
     (let checkInAt = branchCutoffInstant tzo (st_checkInDate stay) (timeOfDay checkInTime) timezone;
          freeUntil = js_trunc (of_int checkInAt - cp_freeCancellationHours policy * 3600000);
          withinFreeWindow = (status = Waitlisted \<or> now < freeUntil)
      in bindr (if withinFreeWindow then Inr None
                else penaltyAmountFor D stay (cp_lateCancellationPenalty policy) (cp_flatFeeAmount policy)) (\<lambda>amount.
         let penaltyAmount = (case amount of Some a \<Rightarrow> if 0 < a then a else 0 | None \<Rightarrow> 0)
         in Inr \<lparr>ct_checkInAt = checkInAt, ct_freeUntil = freeUntil, ct_withinFreeWindow = withinFreeWindow,
                 ct_pastCheckInTime = (checkInAt \<le> now),
                 ct_penaltyType = (if penaltyAmount = 0 then NoPenalty else cp_lateCancellationPenalty policy),
                 ct_penaltyAmount = penaltyAmount\<rparr>))"

section \<open>Late check-out and early departure\<close>

datatype late_fee = LateFlat | PercentOfNight
datatype early_fee = EarlyFlat | EarlyFirstNight | PercentOfRemaining

record late_policy =
  lp_graceMinutes :: int
  lp_feeType :: late_fee
  lp_amount :: rat

record early_policy =
  ep_feeType :: early_fee
  ep_amount :: "rat option"

record stay_fee_policy =
  sf_lateCheckout :: "late_policy option"
  sf_earlyDeparture :: "early_policy option"

definition positive :: "json option \<Rightarrow> rat option" where
  "positive v = (case jnumber v of Some n \<Rightarrow> if 0 < n then Some n else None | None \<Rightarrow> None)"

definition late_fee_of :: "string option \<Rightarrow> late_fee option" where
  "late_fee_of s = (if s = Some ''flat'' then Some LateFlat else if s = Some ''percent_of_night'' then Some PercentOfNight else None)"

definition early_fee_of :: "string option \<Rightarrow> early_fee option" where
  "early_fee_of s = (if s = Some ''flat'' then Some EarlyFlat else if s = Some ''first_night'' then Some EarlyFirstNight
     else if s = Some ''percent_of_remaining'' then Some PercentOfRemaining else None)"

definition resolveStayFeePolicy :: "json option \<Rightarrow> stay_fee_policy" where
  "resolveStayFeePolicy stored =
     (let s = jfields stored;
          late = jfields (jget s ''lateCheckout'');
          early = jfields (jget s ''earlyDeparture'');
          lateAmount = positive (jget late ''amount'');
          lateType = late_fee_of (jstring (jget late ''feeType''));
          grace = the_default 0 (jcount (jget late ''graceMinutes''));
          earlyType = early_fee_of (jstring (jget early ''feeType''));
          earlyAmount = positive (jget early ''amount'')
      in \<lparr>sf_lateCheckout =
            (case (lateType, lateAmount) of
               (Some t, Some a) \<Rightarrow> if t = PercentOfNight \<and> 100 < a then None
                  else Some \<lparr>lp_graceMinutes = grace, lp_feeType = t, lp_amount = a\<rparr>
             | _ \<Rightarrow> None),
          sf_earlyDeparture =
            (case earlyType of
               None \<Rightarrow> None
             | Some t \<Rightarrow>
                 if t = EarlyFirstNight \<or> (case earlyAmount of None \<Rightarrow> False | Some a \<Rightarrow> \<not> (t = PercentOfRemaining \<and> 100 < a))
                 then Some \<lparr>ep_feeType = t, ep_amount = (if t = EarlyFirstNight then None else earlyAmount)\<rparr>
                 else None)\<rparr>)"

datatype fee_kind = Late_checkout | Early_departure

record stay_fee =
  fe_kind :: fee_kind
  fe_amount :: rat

text \<open>\<^verbatim>\<open>remaining.reduce((sum, night) => sum.plus(nightPrice(stay, night)), 0)\<close>\<close>

fun sumNightPrices :: "decimal_lib \<Rightarrow> priced_stay \<Rightarrow> instant list \<Rightarrow> rat result" where
  "sumNightPrices D stay [] = Inr 0"
| "sumNightPrices D stay (n # ns) =
     bindr (nightPrice D stay n) (\<lambda>p. bindr (sumNightPrices D stay ns) (\<lambda>q. Inr (p + q)))"

text \<open>The nights given up: tonight up to the booked departure day, less any already billed.\<close>

definition remainingNights :: "priced_stay \<Rightarrow> instant \<Rightarrow> day set \<Rightarrow> instant list" where
  "remainingNights stay today billed =
     filter (\<lambda>n. day_key n \<notin> billed) (enumerateNights (max today (st_checkInDate stay)) (st_checkOutDate stay))"

definition earlyFee :: "decimal_lib \<Rightarrow> early_policy \<Rightarrow> priced_stay \<Rightarrow> instant \<Rightarrow> day set \<Rightarrow> stay_fee list result" where
  "earlyFee D p stay today billed =
     (let remaining = remainingNights stay today billed
      in bindr (case ep_feeType p of
                  EarlyFlat \<Rightarrow> Inr (the_default 0 (ep_amount p))
                | EarlyFirstNight \<Rightarrow> (case remaining of [] \<Rightarrow> Inr 0 | n # _ \<Rightarrow> nightPrice D stay n)
                | PercentOfRemaining \<Rightarrow> bindr (sumNightPrices D stay remaining) (\<lambda>total.
                    Inr (d_div D (d_mul D total (the_default 0 (ep_amount p))) 100))) (\<lambda>raw.
         let amount = d_dp2 D raw
         in Inr (if remaining \<noteq> [] \<and> 0 < amount then [\<lparr>fe_kind = Early_departure, fe_amount = amount\<rparr>] else [])))"

definition lateFee :: "decimal_lib \<Rightarrow> tz_offset \<Rightarrow> late_policy \<Rightarrow> priced_stay \<Rightarrow> string \<Rightarrow> instant \<Rightarrow> instant \<Rightarrow> instant \<Rightarrow> stay_fee list result" where
  "lateFee D tzo p stay timezone checkOutTime today now =
     (if branchCutoffInstant tzo today (timeOfDay checkOutTime) timezone + lp_graceMinutes p * 60000 < now
      then bindr (case lp_feeType p of
                    LateFlat \<Rightarrow> Inr (lp_amount p)
                  | PercentOfNight \<Rightarrow> bindr (nightPrice D stay (st_checkOutDate stay - DAY)) (\<lambda>n.
                      Inr (d_div D (d_mul D n (lp_amount p)) 100))) (\<lambda>raw.
             let amount = d_dp2 D raw
             in Inr (if 0 < amount then [\<lparr>fe_kind = Late_checkout, fe_amount = amount\<rparr>] else []))
      else Inr [])"

definition stayFeesFor ::
  "decimal_lib \<Rightarrow> tz_offset \<Rightarrow> stay_fee_policy \<Rightarrow> priced_stay \<Rightarrow> string \<Rightarrow> instant \<Rightarrow> instant \<Rightarrow> instant \<Rightarrow> day set \<Rightarrow> stay_fee list result" where
  "stayFeesFor D tzo policy stay timezone checkOutTime today now billed =
     bindr (case sf_earlyDeparture policy of
              Some p \<Rightarrow> if today < st_checkOutDate stay then earlyFee D p stay today billed else Inr []
            | None \<Rightarrow> Inr []) (\<lambda>early.
     bindr (case sf_lateCheckout policy of
              Some p \<Rightarrow> if st_checkOutDate stay \<le> today then lateFee D tzo p stay timezone checkOutTime today now else Inr []
            | None \<Rightarrow> Inr []) (\<lambda>late.
       Inr (early @ late)))"

section \<open>Deposits\<close>

datatype deposit_type = DepNone | DepFirstNight | DepPercentage | DepFixed

record deposit_policy =
  dp_type :: deposit_type
  dp_value :: "rat option"
  dp_dueDaysBeforeArrival :: int

definition deposit_type_of :: "string option \<Rightarrow> deposit_type option" where
  "deposit_type_of s = (if s = Some ''first_night'' then Some DepFirstNight else if s = Some ''percentage'' then Some DepPercentage
     else if s = Some ''fixed'' then Some DepFixed else if s = Some ''none'' then Some DepNone else None)"

definition resolveDepositPolicy :: "json option \<Rightarrow> deposit_policy option" where
  "resolveDepositPolicy stored =
     (let s = jfields stored
      in case deposit_type_of (jstring (jget s ''type'')) of
           None \<Rightarrow> None
         | Some DepNone \<Rightarrow> None
         | Some t \<Rightarrow>
             (let value = positive (jget s ''value'');
                  days = the_default 0 (jcount (jget s ''dueDaysBeforeArrival''))
              in if (t = DepPercentage \<or> t = DepFixed) \<and> value = None then None
                 else if t = DepPercentage \<and> (case value of None \<Rightarrow> False | Some v \<Rightarrow> 100 < v) then None
                 else Some \<lparr>dp_type = t, dp_value = value, dp_dueDaysBeforeArrival = days\<rparr>))"

record priced_for_deposit =
  pd_checkInDate :: instant
  pd_subtotal :: rat
  pd_totalWithTax :: rat
  pd_firstNight :: rat

definition depositFor :: "decimal_lib \<Rightarrow> deposit_policy option \<Rightarrow> priced_for_deposit \<Rightarrow> instant \<Rightarrow> (rat \<times> instant) option" where
  "depositFor D policy stay bookedOn =
     (case policy of
        None \<Rightarrow> None
      | Some p \<Rightarrow>
          if dp_type p = DepNone then None
          else
          (let asked = (case dp_type p of
                 DepFirstNight \<Rightarrow> if 0 < pd_subtotal stay
                    then d_div D (d_mul D (pd_firstNight stay) (pd_totalWithTax stay)) (pd_subtotal stay)
                    else pd_firstNight stay
               | DepPercentage \<Rightarrow> d_div D (d_mul D (pd_totalWithTax stay) (the_default 0 (dp_value p))) 100
               | _ \<Rightarrow> the_default 0 (dp_value p));
               amount = d_dp2 D (min asked (pd_totalWithTax stay));
               due = pd_checkInDate stay - dp_dueDaysBeforeArrival p * DAY
           in if \<not> 0 < amount then None
              else Some (amount, if due < bookedOn then bookedOn else due)))"

section \<open>Day use and group blocks\<close>

text \<open>\<^verbatim>\<open>/^([01]\\d|2[0-3]):[0-5]\\d$/\<close>\<close>

definition CLOCK :: "string \<Rightarrow> bool" where
  "CLOCK s = (case s of
     [a, b, c, d, e] \<Rightarrow> ((a = CHR ''0'' \<or> a = CHR ''1'') \<and> is_digit b \<or> a = CHR ''2'' \<and> CHR ''0'' \<le> b \<and> b \<le> CHR ''3'') \<and>
       c = CHR '':'' \<and> CHR ''0'' \<le> d \<and> d \<le> CHR ''5'' \<and> is_digit e
   | _ \<Rightarrow> False)"

definition dayUseHoursFor :: "json option \<Rightarrow> (string \<times> string) option" where
  "dayUseHoursFor stored =
     (let s = jfields stored
      in case (jstring (jget s ''from''), jstring (jget s ''until'')) of
           (Some from, Some until) \<Rightarrow>
             if \<not> CLOCK from \<or> \<not> CLOCK until \<or> until \<le> from then None else Some (from, until)
         | _ \<Rightarrow> None)"

definition SHOULDER_NIGHTS :: int where "SHOULDER_NIGHTS = 2"

text \<open>Whether a stay lies outside a group block (the code answers with the reason or \<^verbatim>\<open>null\<close>).\<close>

definition outsideGroupBlock :: "instant option \<Rightarrow> instant option \<Rightarrow> day \<Rightarrow> day \<Rightarrow> bool" where
  "outsideGroupBlock arrivalDate departureDate checkInDate checkOutDate =
     (case (arrivalDate, departureDate) of
        (Some a, Some d) \<Rightarrow> checkInDate < day_key a - SHOULDER_NIGHTS \<or> day_key d + SHOULDER_NIGHTS < checkOutDate
      | _ \<Rightarrow> False)"

section \<open>Lemmas\<close>

lemma js_trunc_le: "x \<le> of_int k \<Longrightarrow> js_trunc x \<le> k"
  by (auto simp: js_trunc_def floor_le_iff ceiling_le_iff)

text \<open>The first-night penalty is the price of the arrival night.\<close>

lemma penalty_first_night:
  "penaltyAmountFor D stay FirstNight flat = bindr (nightPrice D stay (st_checkInDate stay)) (\<lambda>p. Inr (Some p))"
  by (cases "nightlyRateFor D (st_nightlyRates stay) (st_checkInDate stay)")
    (simp_all add: penaltyAmountFor_def nightPrice_def split: option.splits)

lemma resolveCancellationPolicy_nonneg: "0 \<le> cp_freeCancellationHours (resolveCancellationPolicy v)"
  by (auto simp: resolveCancellationPolicy_def Let_def DEFAULT_CANCELLATION_POLICY_def split: option.splits)

lemma early_percent_range:
  "sf_earlyDeparture (resolveStayFeePolicy v) = Some p \<Longrightarrow> ep_feeType p = PercentOfRemaining \<Longrightarrow>
     0 < the_default 0 (ep_amount p) \<and> the_default 0 (ep_amount p) \<le> 100"
  by (auto simp: resolveStayFeePolicy_def Let_def positive_def split: option.splits if_splits)

lemma late_grace: "sf_lateCheckout (resolveStayFeePolicy v) = Some p \<Longrightarrow> 0 \<le> lp_graceMinutes p"
  by (auto simp: resolveStayFeePolicy_def Let_def the_default_def jcount_def split: option.splits if_splits)

context decimal_arith
begin

lemma dp2_near_money:
  assumes "is_money t" and "\<bar>x - t\<bar> < 1 / 200"
  shows "d_dp2 D x = t"
  using assms dp2_half[of x]
  by (intro antisym money_le_of_lt_cent dp2_money) linarith+

text \<open>A product and a quotient in a row stay within a relative error of \<open>3 / 10 ^ 19\<close>.\<close>

lemma mul_div_err:
  assumes "0 \<le> a" and "0 \<le> b" and "0 < c"
  shows "\<bar>d_div D (d_mul D a b) c - a * b / c\<bar> \<le> 3 * (a * b / c) / 10 ^ 19"
proof -
  define q m where "q = a * b / c" and "m = d_mul D a b / c"
  have q: "0 \<le> q" using assms by (simp add: q_def)
  have "0 \<le> d_mul D a b" using assms by (intro mul_nonneg)
  then have m: "0 \<le> m" using assms(3) by (simp add: m_def)
  have "m - q = (d_mul D a b - a * b) / c" by (simp add: q_def m_def diff_divide_distrib)
  then have "\<bar>m - q\<bar> = \<bar>d_mul D a b - a * b\<bar> / c" using assms(3) by simp
  also have "\<dots> \<le> \<bar>a * b\<bar> / 10 ^ 19 / c" using mul_err[of a b] assms(3) by (intro divide_right_mono) simp_all
  also have "\<dots> = q / 10 ^ 19" using assms by (simp add: q_def)
  finally have 1: "\<bar>m - q\<bar> \<le> q / 10 ^ 19" .
  moreover have "q / 10 ^ 19 \<le> q" using q by (simp add: divide_le_eq)
  ultimately have m2: "m \<le> 2 * q" by linarith
  have "\<bar>d_div D (d_mul D a b) c - m\<bar> \<le> m / 10 ^ 19"
    using div_err[of c "d_mul D a b"] assms(3) m by (simp add: m_def)
  also have "m / 10 ^ 19 \<le> 2 * q / 10 ^ 19" using m2 by (rule divide_right_mono) simp
  finally have "\<bar>d_div D (d_mul D a b) c - m\<bar> \<le> 2 * q / 10 ^ 19" .
  moreover have "3 * q / 10 ^ 19 = q / 10 ^ 19 + 2 * q / 10 ^ 19" by (simp add: add_divide_distrib[symmetric])
  ultimately show ?thesis using 1 unfolding q_def[symmetric] by linarith
qed

lemma share_le:
  assumes "0 \<le> a" and "0 \<le> b" and "0 < c" and "b \<le> c" and "is_money a" and "a < 10 ^ 16"
  shows "d_dp2 D (d_div D (d_mul D a b) c) \<le> a"
proof (rule dp2_le_money[OF assms(5)])
  have "a * b / c \<le> a" using assms by (simp add: pos_divide_le_eq mult_left_mono)
  moreover from this have "3 * (a * b / c) / 10 ^ 19 \<le> 3 * a / 10 ^ 19" by (intro divide_right_mono mult_left_mono) simp_all
  moreover have "3 * a / 10 ^ 19 < 1 / 200" using assms(6) by (simp add: divide_less_eq)
  ultimately show "d_div D (d_mul D a b) c < a + 1 / 200"
    using mul_div_err[OF assms(1-3)] by linarith
qed

lemma deposit_bounds:
  assumes "depositFor D policy stay bookedOn = Some (amount, due)" and "is_money (pd_totalWithTax stay)"
  shows "0 < amount \<and> amount \<le> pd_totalWithTax stay \<and> is_money amount \<and> bookedOn \<le> due"
proof -
  from assms(1) obtain x where a: "amount = d_dp2 D (min x (pd_totalWithTax stay))" and "0 < amount" "bookedOn \<le> due"
    by (auto simp: depositFor_def Let_def split: option.splits if_splits)
  moreover have "amount \<le> pd_totalWithTax stay"
    using dp2_mono[of "min x (pd_totalWithTax stay)" "pd_totalWithTax stay"] dp2_id[OF assms(2)] by (simp add: a)
  ultimately show ?thesis using dp2_money by (simp add: a)
qed

lemma fee_amounts:
  "earlyFee D p stay today billed = Inr fs \<Longrightarrow> f \<in> set fs \<Longrightarrow>
     fs = [f] \<and> 0 < fe_amount f \<and> is_money (fe_amount f) \<and> fe_kind f = Early_departure \<and> remainingNights stay today billed \<noteq> []"
  "lateFee D tzo q stay tz ct0 today now = Inr fs \<Longrightarrow> f \<in> set fs \<Longrightarrow>
     fs = [f] \<and> 0 < fe_amount f \<and> is_money (fe_amount f) \<and> fe_kind f = Late_checkout \<and>
     branchCutoffInstant tzo today (timeOfDay ct0) tz + lp_graceMinutes q * 60000 < now"
  by (auto simp: earlyFee_def lateFee_def Let_def res_simps dp2_money split: if_splits)

end

section \<open>Properties\<close>


definition ex_stay :: priced_stay where
  "ex_stay = \<lparr>st_confirmedRate = 300, st_overrideRate = None, st_checkInDate = 1728000000000, st_checkOutDate = 1728172800000,
     st_nightlyRates = Some [(Some 20000, Some (JStr ''120.50'')), (Some 20001, Some (JStr ''179.50''))]\<rparr>"

text \<open>A two-night stay cancelled at midnight of the arrival day: the first night, 120.50, is charged.\<close>

definition ex_terms :: cancellation_terms where
  "ex_terms = \<lparr>ct_checkInAt = 1728050400000, ct_freeUntil = 1727964000000, ct_withinFreeWindow = False,
     ct_pastCheckInTime = False, ct_penaltyType = FirstNight, ct_penaltyAmount = 241 / 2\<rparr>"


text \<open>The JSON a saved policy has.\<close>

definition policy_json :: "cancellation_policy \<Rightarrow> json" where
  "policy_json p = JObj
     [(''freeCancellationHours'', JNum (cp_freeCancellationHours p)),
      (''lateCancellationPenalty'', JStr (penalty_name (cp_lateCancellationPenalty p))),
      (''flatFeeAmount'', case cp_flatFeeAmount p of None \<Rightarrow> JNull | Some f \<Rightarrow> JNum f),
      (''allowOnlineCancellation'', JBool (cp_allowOnlineCancellation p))]"

text \<open>
  A saved cancellation policy reads back as it was saved, whenever its window is not
  negative and its flat fee, if it has one, is positive; and a branch with no saved policy,
  or anything that is not an object in the column, has the standard default.
\<close>

theorem cancellation_policy_roundtrip:
  assumes "0 \<le> cp_freeCancellationHours p" and "case cp_flatFeeAmount p of None \<Rightarrow> True | Some f \<Rightarrow> 0 < f"
  shows "resolveCancellationPolicy (Some (policy_json p)) = p \<and>
     resolveCancellationPolicy None = DEFAULT_CANCELLATION_POLICY \<and>
     resolveCancellationPolicy (Some JNull) = DEFAULT_CANCELLATION_POLICY \<and>
     resolveCancellationPolicy (Some (JArr xs)) = DEFAULT_CANCELLATION_POLICY"
proof -
  have "penalty_of_name (penalty_name q) = Some q" for q
    by (cases q) (simp_all add: penalty_of_name_def penalty_name_def)
  then show ?thesis using assms
    by (simp add: resolveCancellationPolicy_def policy_json_def DEFAULT_CANCELLATION_POLICY_def jfields_def jget_def
        jnumber_def jstring_def jbool_def split: option.splits)
qed

theorem cancellation_policy_roundtrip_witness:
  "resolveCancellationPolicy (Some (policy_json \<lparr>cp_freeCancellationHours = 48, cp_lateCancellationPenalty = FlatFee,
      cp_flatFeeAmount = Some 5000, cp_allowOnlineCancellation = False\<rparr>)) =
     \<lparr>cp_freeCancellationHours = 48, cp_lateCancellationPenalty = FlatFee, cp_flatFeeAmount = Some 5000, cp_allowOnlineCancellation = False\<rparr>"
  by (rule cancellation_policy_roundtrip[THEN conjunct1]) simp_all

text \<open>
  A deposit is a positive whole number of cents, never more than the stay costs tax
  included, and never due before the booking was made.
\<close>

theorem deposit_never_exceeds_stay:
  assumes "decimal_arith D" and "is_money (pd_totalWithTax stay)"
    and "depositFor D policy stay bookedOn = Some (amount, due)"
  shows "0 < amount \<and> amount \<le> pd_totalWithTax stay \<and> is_money amount \<and> bookedOn \<le> due"
  by (rule decimal_arith.deposit_bounds[OF assms(1,3,2)])

theorem deposit_never_exceeds_stay_witness:
  "depositFor decimal_js (Some \<lparr>dp_type = DepFirstNight, dp_value = None, dp_dueDaysBeforeArrival = 7\<rparr>)
      \<lparr>pd_checkInDate = 20 * DAY, pd_subtotal = 300, pd_totalWithTax = 645 / 2, pd_firstNight = 120\<rparr> (10 * DAY)
     = Some (129, 13 * DAY) \<and> (129 :: rat) \<le> 645 / 2 \<and> 10 * DAY \<le> 13 * DAY"
proof -
  have d: "depositFor decimal_js (Some \<lparr>dp_type = DepFirstNight, dp_value = None, dp_dueDaysBeforeArrival = 7\<rparr>)
      \<lparr>pd_checkInDate = 20 * DAY, pd_subtotal = 300, pd_totalWithTax = 645 / 2, pd_firstNight = 120\<rparr> (10 * DAY)
     = Some (129, 13 * DAY)"
    by code_simp
  have "is_money (645 / 2)" by code_simp
  with deposit_never_exceeds_stay[OF js.decimal_arith_axioms _ d] d show ?thesis by simp
qed

text \<open>
  Leaving costs at most one fee, a positive whole number of cents: an early departure
  fee only before the booked departure day and only for nights given up that are not
  already billed, a late check-out fee only from that day on and only after the branch's
  check-out time, grace included.
\<close>

theorem stay_fees_sound:
  assumes "decimal_arith D"
    and "stayFeesFor D tzo (resolveStayFeePolicy stored) stay tz checkOutTime today now billed = Inr fees"
  shows "length fees \<le> 1 \<and>
     (\<forall>f \<in> set fees. 0 < fe_amount f \<and> is_money (fe_amount f) \<and>
        (fe_kind f = Early_departure \<longrightarrow> today < st_checkOutDate stay \<and> remainingNights stay today billed \<noteq> []) \<and>
        (fe_kind f = Late_checkout \<longrightarrow> st_checkOutDate stay \<le> today \<and>
           branchCutoffInstant tzo today (timeOfDay checkOutTime) tz < now))"
proof -
  from assms(2) obtain e l where fees: "fees = e @ l"
    and e: "(case sf_earlyDeparture (resolveStayFeePolicy stored) of
              Some p \<Rightarrow> if today < st_checkOutDate stay then earlyFee D p stay today billed else Inr []
            | None \<Rightarrow> Inr []) = Inr e"
    and l: "(case sf_lateCheckout (resolveStayFeePolicy stored) of
              Some p \<Rightarrow> if st_checkOutDate stay \<le> today then lateFee D tzo p stay tz checkOutTime today now else Inr []
            | None \<Rightarrow> Inr []) = Inr l"
    by (auto simp: stayFeesFor_def res_simps)
  have E: "e = [f] \<and> 0 < fe_amount f \<and> is_money (fe_amount f) \<and> fe_kind f = Early_departure \<and>
      today < st_checkOutDate stay \<and> remainingNights stay today billed \<noteq> []" if "f \<in> set e" for f
    using e that decimal_arith.fee_amounts(1)[OF assms(1)] by (auto split: option.splits if_splits)
  have L: "l = [f] \<and> 0 < fe_amount f \<and> is_money (fe_amount f) \<and> fe_kind f = Late_checkout \<and>
      st_checkOutDate stay \<le> today \<and> branchCutoffInstant tzo today (timeOfDay checkOutTime) tz < now" if f: "f \<in> set l" for f
  proof -
    from l f obtain p where p: "sf_lateCheckout (resolveStayFeePolicy stored) = Some p" "st_checkOutDate stay \<le> today"
        "lateFee D tzo p stay tz checkOutTime today now = Inr l"
      by (auto split: option.splits if_splits)
    from decimal_arith.fee_amounts(2)[OF assms(1) p(3) f] late_grace[OF p(1)] p(2) show ?thesis by auto
  qed
  have "length e \<le> 1" using E[of "hd e"] by (cases e) auto
  moreover have "length l \<le> 1" using L[of "hd l"] by (cases l) auto
  moreover have "e = [] \<or> l = []" using E[of "hd e"] L[of "hd l"] by (cases "e = []"; cases "l = []") auto
  ultimately have "length fees \<le> 1" using fees by auto
  moreover have "0 < fe_amount f \<and> is_money (fe_amount f) \<and>
      (fe_kind f = Early_departure \<longrightarrow> today < st_checkOutDate stay \<and> remainingNights stay today billed \<noteq> []) \<and>
      (fe_kind f = Late_checkout \<longrightarrow> st_checkOutDate stay \<le> today \<and>
         branchCutoffInstant tzo today (timeOfDay checkOutTime) tz < now)" if "f \<in> set fees" for f
    using that E[of f] L[of f] unfolding fees set_append by (elim UnE) simp_all
  ultimately show ?thesis by blast
qed

definition ex_fee_policy :: json where
  "ex_fee_policy = JObj [(''earlyDeparture'', JObj [(''feeType'', JStr ''percent_of_remaining''), (''amount'', JNum 50)])]"

text \<open>Leaving a day early, with the arrival night billed: half of the second night.\<close>

theorem stay_fees_sound_witness:
  "stayFeesFor decimal_js (\<lambda>_ _. 0) (resolveStayFeePolicy (Some ex_fee_policy)) ex_stay ''UTC'' 39600000
      (20001 * DAY) (20001 * DAY) {20000} = Inr [\<lparr>fe_kind = Early_departure, fe_amount = 359 / 4\<rparr>] \<and>
   20001 * DAY < st_checkOutDate ex_stay"
proof -
  have f: "stayFeesFor decimal_js (\<lambda>_ _. 0) (resolveStayFeePolicy (Some ex_fee_policy)) ex_stay ''UTC'' 39600000
      (20001 * DAY) (20001 * DAY) {20000} = Inr [\<lparr>fe_kind = Early_departure, fe_amount = 359 / 4\<rparr>]"
    by code_simp
  from stay_fees_sound[OF js.decimal_arith_axioms f] f show ?thesis by simp
qed

text \<open>
  A percentage early-departure fee never exceeds the price of the nights given up.
\<close>

theorem early_percent_bounded:
  assumes "decimal_arith D" and "sf_earlyDeparture (resolveStayFeePolicy stored) = Some p"
    and "ep_feeType p = PercentOfRemaining" and "earlyFee D p stay today billed = Inr fees"
    and "sumNightPrices D stay (remainingNights stay today billed) = Inr tot"
    and "is_money tot" and "0 \<le> tot" and "tot < 10 ^ 16"
  shows "sum_list (map fe_amount fees) \<le> tot"
proof -
  from assms(3-5) have "sum_list (map fe_amount fees) \<le> max 0 (d_dp2 D (d_div D (d_mul D tot (the_default 0 (ep_amount p))) 100))"
    by (auto simp: earlyFee_def Let_def res_simps split: if_splits)
  also have "d_dp2 D (d_div D (d_mul D tot (the_default 0 (ep_amount p))) 100) \<le> tot"
    using early_percent_range[OF assms(2,3)] assms(6-8) by (intro decimal_arith.share_le[OF assms(1)]) simp_all
  finally show ?thesis using assms(7) by (simp add: max_def split: if_splits)
qed

theorem early_percent_bounded_witness:
  "\<exists>fees. earlyFee decimal_js \<lparr>ep_feeType = PercentOfRemaining, ep_amount = Some 50\<rparr> ex_stay (20001 * DAY) {20000} = Inr fees \<and>
     sum_list (map fe_amount fees) \<le> 359 / 2"
proof -
  have p: "sf_earlyDeparture (resolveStayFeePolicy (Some ex_fee_policy)) = Some \<lparr>ep_feeType = PercentOfRemaining, ep_amount = Some 50\<rparr>"
    by code_simp
  have f: "earlyFee decimal_js \<lparr>ep_feeType = PercentOfRemaining, ep_amount = Some 50\<rparr> ex_stay (20001 * DAY) {20000}
      = Inr [\<lparr>fe_kind = Early_departure, fe_amount = 359 / 4\<rparr>]"
    by code_simp
  have t: "sumNightPrices decimal_js ex_stay (remainingNights ex_stay (20001 * DAY) {20000}) = Inr (359 / 2)"
    by code_simp
  have m: "is_money (359 / 2)" by code_simp
  from early_percent_bounded[OF js.decimal_arith_axioms p _ f t m] f show ?thesis by simp
qed

end
