(* ===== verification/Access.thy ===== *)
theory Access
  imports Prelude
begin

text \<open>
  Who may do what (\<^verbatim>\<open>src/src/common/guards\<close>, \<^verbatim>\<open>src/src/common/permissions\<close>,
  \<^verbatim>\<open>src/src/common/utils/branch-roles.ts\<close> and \<^verbatim>\<open>staff-authority.ts\<close>): the tenant guard, the
  role guard with its custom-role, API-key and page-access branches, the permission map a
  custom role holds, the catalogue of dashboard pages, and the rules for handing out roles
  and acting on a colleague's account.

  A request is a record of what the guards read of it; the database reads of a guard (the
  tenant's roles by name, the page-access rows, the branch of a record) are the fields of
  \<open>guard_env\<close>. The short-lived caches in front of those reads are not modelled: they return
  what the database held at most a minute ago.
\<close>

section \<open>Principals\<close>

record role_assignment =
  ra_branch :: "nat option"
  ra_role :: string

record api_key_principal =
  ak_id :: nat
  ak_scopes :: "string list"
  ak_branch :: "nat option"

record jwt =
  jw_sub :: nat
  jw_tenant :: nat
  jw_roles :: "role_assignment list"
  jw_apiKey :: "api_key_principal option"

definition hasRoleAtBranch :: "jwt \<Rightarrow> nat \<Rightarrow> string list \<Rightarrow> bool" where
  "hasRoleAtBranch actor branchId roles \<longleftrightarrow>
     (\<exists>r \<in> set (jw_roles actor). ra_role r \<in> set roles \<and> (ra_branch r = None \<or> ra_branch r = Some branchId))"

definition SUPERVISOR_ROLES :: "string list" where
  "SUPERVISOR_ROLES = [''owner'', ''manager'']"

definition isSupervisorAt :: "jwt \<Rightarrow> nat \<Rightarrow> bool" where
  "isSupervisorAt actor branchId \<longleftrightarrow> hasRoleAtBranch actor branchId SUPERVISOR_ROLES"

definition assertRoleAtBranch :: "jwt \<Rightarrow> nat \<Rightarrow> string list \<Rightarrow> unit result" where
  "assertRoleAtBranch actor branchId roles =
     (if \<not> hasRoleAtBranch actor branchId roles then Inl (Forbidden FORBIDDEN) else Inr ())"

section \<open>Staff authority\<close>

text \<open>The reasons a change to a colleague's role or account is refused, one per message.\<close>

datatype refusal =
    OneOwnerOnly | OnlyOwnerMakesManager | OnlyOwnerEveryBranch | NotYourBranch
  | NotYourOwnRole | OwnerRoleFixed | OnlyOwnerChangesManager
  | NotYourOwnAccount | OwnerAccountFixed | WorksElsewhere

definition SENIOR_ROLES :: "string list" where
  "SENIOR_ROLES = [''owner'', ''manager'']"

definition isOwner :: "jwt \<Rightarrow> bool" where
  "isOwner actor \<longleftrightarrow> (\<exists>r \<in> set (jw_roles actor). ra_role r = ''owner'')"

definition managesBranch :: "jwt \<Rightarrow> nat option \<Rightarrow> bool" where
  "managesBranch actor branchId =
     (if isOwner actor then True
      else case branchId of
        None \<Rightarrow> False
      | Some b \<Rightarrow> (\<exists>r \<in> set (jw_roles actor). ra_role r = ''manager'' \<and> (ra_branch r = None \<or> ra_branch r = Some b)))"

definition whyCannotGrant :: "jwt \<Rightarrow> string \<Rightarrow> nat option \<Rightarrow> refusal option" where
  "whyCannotGrant actor roleName branchId =
     (if roleName = ''owner'' then Some OneOwnerOnly
      else if isOwner actor then None
      else if roleName \<in> set SENIOR_ROLES then Some OnlyOwnerMakesManager
      else if branchId = None then Some OnlyOwnerEveryBranch
      else if \<not> managesBranch actor branchId then Some NotYourBranch
      else None)"

definition assertMayGrant :: "jwt \<Rightarrow> string \<Rightarrow> nat option \<Rightarrow> unit result" where
  "assertMayGrant actor roleName branchId =
     (case whyCannotGrant actor roleName branchId of
        Some _ \<Rightarrow> Inl (Forbidden FORBIDDEN) | None \<Rightarrow> Inr ())"

definition whyCannotChangeRoleAt :: "jwt \<Rightarrow> nat \<Rightarrow> role_assignment list \<Rightarrow> nat option \<Rightarrow> refusal option" where
  "whyCannotChangeRoleAt actor targetUserId held branchId =
     (if targetUserId = jw_sub actor then Some NotYourOwnRole
      else if \<exists>r \<in> set held. ra_role r = ''owner'' then Some OwnerRoleFixed
      else if \<not> isOwner actor \<and> (\<exists>r \<in> set held. ra_role r \<in> set SENIOR_ROLES) then Some OnlyOwnerChangesManager
      else if \<not> managesBranch actor branchId
        then (if branchId = None then Some OnlyOwnerEveryBranch else Some NotYourBranch)
      else None)"

definition whyCannotManageAccount :: "jwt \<Rightarrow> nat \<Rightarrow> role_assignment list \<Rightarrow> refusal option" where
  "whyCannotManageAccount actor targetUserId held =
     (if targetUserId = jw_sub actor then Some NotYourOwnAccount
      else if \<exists>r \<in> set held. ra_role r = ''owner'' then Some OwnerAccountFixed
      else if isOwner actor then None
      else if \<exists>r \<in> set held. ra_role r \<in> set SENIOR_ROLES then Some OnlyOwnerChangesManager
      else if held = [] \<or> (\<exists>r \<in> set held. \<not> managesBranch actor (ra_branch r)) then Some WorksElsewhere
      else None)"

definition assertMayManageAccount :: "jwt \<Rightarrow> nat \<Rightarrow> role_assignment list \<Rightarrow> unit result" where
  "assertMayManageAccount actor targetUserId held =
     (case whyCannotManageAccount actor targetUserId held of
        Some _ \<Rightarrow> Inl (Forbidden FORBIDDEN) | None \<Rightarrow> Inr ())"

section \<open>Permission maps\<close>

datatype perm_action = Read | Create | Update | Delete

type_synonym permission_map = "(string \<times> perm_action list) list"

definition MODULE_KEYS :: "string list" where
  "MODULE_KEYS = [''reservations'', ''guests'', ''folios'', ''housekeeping'', ''maintenance'', ''pos'', ''shifts'', ''comms'', ''reports'', ''night_audit'', ''property'', ''taxes'', ''alerts'', ''sales_events'', ''revenue'', ''loyalty'', ''marketing'']"

definition action_of_name :: "string \<Rightarrow> perm_action option" where
  "action_of_name s =
     (if s = ''read'' then Some Read else if s = ''create'' then Some Create
      else if s = ''update'' then Some Update else if s = ''delete'' then Some Delete else None)"

fun parse_actions :: "json list \<Rightarrow> (perm_action list) result" where
  "parse_actions [] = Inr []"
| "parse_actions (j # js) =
     (case j of
        JStr s \<Rightarrow> (case action_of_name s of
                     None \<Rightarrow> Inl (BadRequest VALIDATION_FAILED)
                   | Some a \<Rightarrow> bindr (parse_actions js) (\<lambda>as. Inr (a # as)))
      | _ \<Rightarrow> Inl (BadRequest VALIDATION_FAILED))"

fun parse_entries :: "(string \<times> json) list \<Rightarrow> permission_map result" where
  "parse_entries [] = Inr []"
| "parse_entries ((moduleKey, rawActions) # rest) =
     (if moduleKey \<notin> set MODULE_KEYS then Inl (BadRequest VALIDATION_FAILED)
      else case rawActions of
        JArr js \<Rightarrow> bindr (parse_actions js) (\<lambda>actions.
          bindr (parse_entries rest) (\<lambda>parsed.
            let unique = js_unique actions
            in Inr (if unique \<noteq> [] then (moduleKey, unique) # parsed else parsed)))
      | _ \<Rightarrow> Inl (BadRequest VALIDATION_FAILED))"

definition parsePermissions :: "json option \<Rightarrow> permission_map result" where
  "parsePermissions value =
     (case value of
        None \<Rightarrow> Inr []
      | Some JNull \<Rightarrow> Inr []
      | Some (JObj fs) \<Rightarrow> parse_entries fs
      | Some _ \<Rightarrow> Inl (BadRequest VALIDATION_FAILED))"

text \<open>A stored map that does not parse grants nothing (\<^verbatim>\<open>safeParse\<close>).\<close>

definition safeParse :: "json option \<Rightarrow> permission_map" where
  "safeParse value = (case parsePermissions value of Inl _ \<Rightarrow> [] | Inr m \<Rightarrow> m)"

definition permits :: "permission_map \<Rightarrow> string \<Rightarrow> perm_action \<Rightarrow> bool" where
  "permits permissions mdl action \<longleftrightarrow>
     action \<in> set (case map_of permissions mdl of None \<Rightarrow> [] | Some as \<Rightarrow> as)"

datatype http_method = GET | HEAD | POST | PUT | PATCH | DELETE | OPTIONS

definition actionForMethod :: "http_method \<Rightarrow> perm_action" where
  "actionForMethod m =
     (case m of POST \<Rightarrow> Create | PUT \<Rightarrow> Update | PATCH \<Rightarrow> Update | DELETE \<Rightarrow> Delete | _ \<Rightarrow> Read)"

section \<open>The page catalogue\<close>

record page_definition =
  pg_key :: string
  pg_module :: "string option"
  pg_roles :: "string list"
  pg_actRoles :: "string list option"
  pg_uses :: "string list"

definition STAFF_ROLES :: "string list" where
  "STAFF_ROLES = [''front_desk'', ''housekeeper'', ''accountant'', ''pos_staff'']"

definition UNRESTRICTED_ROLES :: "string list" where
  "UNRESTRICTED_ROLES = [''owner'', ''manager'']"

definition page :: "string \<Rightarrow> string option \<Rightarrow> string list \<Rightarrow> string list option \<Rightarrow> string list \<Rightarrow> page_definition" where
  "page k m r a u = \<lparr>pg_key = k, pg_module = m, pg_roles = r, pg_actRoles = a, pg_uses = u\<rparr>"

definition PAGE_CATALOGUE :: "page_definition list" where
  "PAGE_CATALOGUE = [
    page ''/dashboard/alerts'' (Some ''alerts'') [''front_desk'', ''accountant''] None [''alerts''],
    page ''/dashboard/arrivals'' (Some ''reservations'') STAFF_ROLES None [''reservations'', ''property'', ''folios''],
    page ''/dashboard/check-in'' (Some ''reservations'') STAFF_ROLES (Some [''front_desk'']) [''reservations'', ''guests'', ''property''],
    page ''/dashboard/group-check-in'' (Some ''reservations'') STAFF_ROLES (Some [''front_desk'']) [''reservations'', ''property''],
    page ''/dashboard/walk-in-booking'' (Some ''reservations'') [''front_desk'', ''accountant''] (Some [''front_desk'']) [''reservations'', ''guests'', ''property''],
    page ''/dashboard/departures'' (Some ''reservations'') STAFF_ROLES (Some [''front_desk'']) [''reservations'', ''folios'', ''property''],
    page ''/dashboard/check-out'' (Some ''reservations'') STAFF_ROLES (Some [''front_desk'']) [''reservations'', ''folios'', ''property''],
    page ''/dashboard/room-move'' (Some ''reservations'') [''front_desk''] (Some [''front_desk'']) [''reservations'', ''property''],
    page ''/dashboard/in-house-guest-list'' (Some ''reservations'') STAFF_ROLES (Some [''front_desk'']) [''reservations'', ''folios'', ''property''],
    page ''/dashboard/room-status-board'' (Some ''property'') STAFF_ROLES (Some STAFF_ROLES) [''property'', ''reservations''],
    page ''/dashboard/reservations/availability-calendar'' (Some ''reservations'') STAFF_ROLES None [''reservations''],
    page ''/dashboard/reservations/create'' (Some ''reservations'') [''front_desk'', ''accountant''] (Some [''front_desk'']) [''reservations'', ''guests'', ''property''],
    page ''/dashboard/reservations/modify'' (Some ''reservations'') STAFF_ROLES (Some [''front_desk'']) [''reservations'', ''property'', ''folios''],
    page ''/dashboard/reservations/cancel'' (Some ''reservations'') [''front_desk''] (Some [''front_desk'']) [''reservations''],
    page ''/dashboard/reservations/waitlist'' (Some ''reservations'') STAFF_ROLES (Some [''front_desk'']) [''reservations''],
    page ''/dashboard/housekeeping/task-board'' (Some ''housekeeping'') [''front_desk'', ''housekeeper''] (Some [''front_desk'', ''housekeeper'']) [''housekeeping'', ''property''],
    page ''/dashboard/housekeeping/staff-assignment'' (Some ''housekeeping'') [''front_desk'', ''housekeeper''] (Some []) [''housekeeping'', ''property''],
    page ''/dashboard/housekeeping/inspection-workflow'' (Some ''property'') STAFF_ROLES (Some []) [''housekeeping'', ''property''],
    page ''/dashboard/housekeeping/room-blocking'' (Some ''property'') STAFF_ROLES (Some []) [''housekeeping'', ''property''],
    page ''/dashboard/billing/folios'' (Some ''folios'') STAFF_ROLES (Some [''front_desk'', ''accountant'']) [''folios'', ''loyalty''],
    page ''/dashboard/split-billing'' (Some ''folios'') STAFF_ROLES (Some [''front_desk'', ''accountant'']) [''folios''],
    page ''/dashboard/night-audit'' (Some ''night_audit'') STAFF_ROLES (Some []) [''night_audit''],
    page ''/dashboard/billing/refunds'' (Some ''folios'') [''front_desk'', ''accountant''] (Some [''front_desk'', ''accountant'']) [''folios''],
    page ''/dashboard/folio-transfer/transfer'' (Some ''folios'') STAFF_ROLES (Some [''front_desk'', ''accountant'']) [''folios'', ''loyalty''],
    page ''/dashboard/folio-transfer/secondary-folio'' (Some ''folios'') [''front_desk'', ''accountant''] (Some [''front_desk'', ''accountant'']) [''folios'', ''guests'', ''reservations''],
    page ''/dashboard/folio-transfer/history'' (Some ''folios'') [''front_desk'', ''accountant''] (Some []) [''folios''],
    page ''/dashboard/pos/terminal'' (Some ''pos'') [''front_desk'', ''pos_staff''] (Some [''front_desk'', ''pos_staff'']) [''pos''],
    page ''/dashboard/pos/menu'' (Some ''pos'') [''front_desk'', ''pos_staff''] (Some [''front_desk'', ''pos_staff'']) [''pos''],
    page ''/dashboard/shifts'' (Some ''shifts'') STAFF_ROLES (Some [''front_desk'', ''pos_staff'']) [''shifts''],
    page ''/dashboard/no-shows'' (Some ''reservations'') STAFF_ROLES (Some [''front_desk'']) [''reservations''],
    page ''/dashboard/registration-cards'' (Some ''guests'') [''front_desk''] (Some [''front_desk'']) [''guests'', ''property'', ''reservations''],
    page ''/dashboard/comms-log'' (Some ''comms'') [''front_desk''] (Some [''front_desk'']) [''comms'', ''reservations''],
    page ''/dashboard/reservations/rate-plans'' (Some ''reservations'') STAFF_ROLES (Some []) [''reservations'', ''property''],
    page ''/dashboard/guests/profiles'' (Some ''guests'') [''front_desk''] (Some [''front_desk'']) [''guests'', ''loyalty''],
    page ''/dashboard/guests/corporate'' (Some ''guests'') [''front_desk'', ''accountant''] (Some []) [''guests'', ''reservations''],
    page ''/dashboard/sales-events'' (Some ''sales_events'') [''front_desk''] (Some [''front_desk'']) [''sales_events'', ''property'', ''folios''],
    page ''/dashboard/maintenance'' (Some ''maintenance'') STAFF_ROLES (Some STAFF_ROLES) [''maintenance'', ''property''],
    page ''/dashboard/reports/operational'' (Some ''reports'') [''front_desk'', ''accountant''] None [''reports'', ''property''],
    page ''/dashboard/reports/financial'' (Some ''reports'') [''accountant''] None [''reports''],
    page ''/dashboard/reports/custom'' (Some ''reports'') [''accountant''] (Some [''accountant'']) [''reports''],
    page ''/dashboard/integrations/marketplace'' None [''accountant''] (Some [''accountant'']) []]"

definition PAGE_BY_KEY :: "string \<Rightarrow> page_definition option" where
  "PAGE_BY_KEY key = List.find (\<lambda>p. pg_key p = key) PAGE_CATALOGUE"

section \<open>Page access\<close>

record role_grant =
  rg_id :: nat
  rg_name :: string
  rg_isSystem :: bool
  rg_permissions :: permission_map

text \<open>The rows of \<^verbatim>\<open>branch_page_access\<close>: branch, role, pages; at most one per branch and role.\<close>

type_synonym page_rows = "((nat \<times> nat) \<times> string list) list"

definition availableFor :: "role_grant \<Rightarrow> page_definition list" where
  "availableFor role =
     (if rg_name role \<in> set UNRESTRICTED_ROLES then PAGE_CATALOGUE
      else if rg_isSystem role then filter (\<lambda>p. rg_name role \<in> set (pg_roles p)) PAGE_CATALOGUE
      else filter (\<lambda>p. case pg_module p of None \<Rightarrow> False | Some m \<Rightarrow> permits (rg_permissions role) m Read) PAGE_CATALOGUE)"

definition viewOnlyFor :: "role_grant \<Rightarrow> page_definition list \<Rightarrow> string list" where
  "viewOnlyFor role pages =
     map pg_key (filter (\<lambda>p.
       if rg_isSystem role
       then (case pg_actRoles p of None \<Rightarrow> False | Some acts \<Rightarrow> rg_name role \<notin> set acts)
       else case (pg_actRoles p, pg_module p) of
              (Some _, Some m) \<Rightarrow> \<not> (\<exists>a \<in> {Create, Update, Delete}. permits (rg_permissions role) m a)
            | _ \<Rightarrow> False) pages)"

definition effectivePages :: "role_grant \<Rightarrow> string list option \<Rightarrow> string list" where
  "effectivePages role stored =
     (let available = map pg_key (availableFor role)
      in case stored of None \<Rightarrow> available | Some st \<Rightarrow> filter (\<lambda>k. k \<in> set st) available)"

text \<open>What the guards read from the database.\<close>

record guard_env =
  ge_rolesByName :: "string \<Rightarrow> role_grant option"
  ge_rows :: page_rows
  ge_recordBranch :: "string \<Rightarrow> nat \<Rightarrow> nat option"

definition pagesForUser :: "guard_env \<Rightarrow> jwt \<Rightarrow> nat \<Rightarrow> string list option" where
  "pagesForUser env user branchId =
     (if \<exists>a \<in> set (jw_roles user). ra_role a = ''owner'' then None
      else let here = filter (\<lambda>a. ra_branch a = None \<or> ra_branch a = Some branchId) (jw_roles user)
      in if \<exists>a \<in> set here. ra_role a \<in> set UNRESTRICTED_ROLES then None
      else let pages = concat (map (\<lambda>a. case ge_rolesByName env (ra_role a) of
                None \<Rightarrow> []
              | Some role \<Rightarrow> effectivePages role (map_of (ge_rows env) (branchId, rg_id role))) here)
      in Some (filter (\<lambda>k. k \<in> set pages) (map pg_key PAGE_CATALOGUE)))"

text \<open>
  The loop over a person's assignments: it returns \<^verbatim>\<open>null\<close> (no restriction) as soon as one
  of them has no page setting to go by, else the modules of all their pages.
\<close>

fun modules_loop :: "guard_env \<Rightarrow> nat option \<Rightarrow> role_assignment list \<Rightarrow> string list \<Rightarrow> string list option" where
  "modules_loop env branchId [] modules = Some modules"
| "modules_loop env branchId (a # rest) modules =
     (case ge_rolesByName env (ra_role a) of
        None \<Rightarrow> modules_loop env branchId rest modules
      | Some role \<Rightarrow>
          (case (case branchId of Some b \<Rightarrow> Some b | None \<Rightarrow> ra_branch a) of
             None \<Rightarrow> None
           | Some atBranch \<Rightarrow>
               (case map_of (ge_rows env) (atBranch, rg_id role) of
                  None \<Rightarrow> None
                | Some stored \<Rightarrow>
                    modules_loop env branchId rest
                      (modules @ concat (map (\<lambda>k. case PAGE_BY_KEY k of None \<Rightarrow> [] | Some p \<Rightarrow> pg_uses p) stored)))))"

definition modulesForUser :: "guard_env \<Rightarrow> jwt \<Rightarrow> nat option \<Rightarrow> string list option" where
  "modulesForUser env user branchId =
     (if \<exists>a \<in> set (jw_roles user). ra_role a = ''owner'' then None
      else if ge_rows env = [] then None
      else if \<exists>a \<in> set (jw_roles user). ra_role a \<in> set UNRESTRICTED_ROLES \<and>
                (ra_branch a = None \<or> branchId = None \<or> ra_branch a = branchId) then None
      else let assignments = filter (\<lambda>a. branchId = None \<or> ra_branch a = None \<or> ra_branch a = branchId) (jw_roles user)
      in if assignments = [] then None
      else modules_loop env branchId assignments [])"

definition staffRole :: "role_grant list \<Rightarrow> nat \<Rightarrow> role_grant result" where
  "staffRole roles roleId =
     (case List.find (\<lambda>r. rg_id r = roleId) roles of
        None \<Rightarrow> Inl (NotFound NOT_FOUND)
      | Some role \<Rightarrow> if rg_name role \<in> set UNRESTRICTED_ROLES then Inl (BadRequest VALIDATION_FAILED) else Inr role)"

text \<open>\<^verbatim>\<open>setPages\<close> and \<^verbatim>\<open>reset\<close>: the upsert and the deletion of one role's row at one branch.\<close>

definition setPages :: "role_grant list \<Rightarrow> (nat \<Rightarrow> bool) \<Rightarrow> page_rows \<Rightarrow> nat \<Rightarrow> nat \<Rightarrow> string list \<Rightarrow> page_rows result" where
  "setPages roles branchExists rows branchId roleId pages =
     bindr (staffRole roles roleId) (\<lambda>role.
       let available = map pg_key (availableFor role)
       in if \<exists>k \<in> set pages. PAGE_BY_KEY k = None then Inl (BadRequest VALIDATION_FAILED)
       else if \<exists>k \<in> set pages. k \<notin> set available then Inl (BadRequest VALIDATION_FAILED)
       else if \<not> branchExists branchId then Inl (NotFound NOT_FOUND)
       else let ordered = filter (\<lambda>k. k \<in> set pages) (map pg_key PAGE_CATALOGUE)
            in Inr (((branchId, roleId), ordered) # filter (\<lambda>r. fst r \<noteq> (branchId, roleId)) rows))"

definition resetPages :: "role_grant list \<Rightarrow> (nat \<Rightarrow> bool) \<Rightarrow> page_rows \<Rightarrow> nat \<Rightarrow> nat \<Rightarrow> page_rows result" where
  "resetPages roles branchExists rows branchId roleId =
     bindr (staffRole roles roleId) (\<lambda>role.
       if \<not> branchExists branchId then Inl (NotFound NOT_FOUND)
       else Inr (filter (\<lambda>r. fst r \<noteq> (branchId, roleId)) rows))"

section \<open>The guards\<close>

record route_meta =
  rm_public :: bool
  rm_roles :: "string list option"
  rm_permission :: "(string \<times> perm_action option) option"
  rm_branchOf :: "string option"

text \<open>
  \<open>rq_recordId\<close> is the id in the route parameter a \<^verbatim>\<open>@BranchOf\<close> route names, when it is
  present and a well-formed UUID.
\<close>

record request =
  rq_method :: http_method
  rq_user :: "jwt option"
  rq_branchParam :: "nat option"
  rq_recordId :: "nat option"
  rq_reveal :: bool
  rq_tenantHeader :: "nat option"

text \<open>\<^verbatim>\<open>TenantGuard.canActivate\<close>; \<open>Inr None\<close> is a pass with no tenant set, \<open>Inr (Some t)\<close> sets \<^verbatim>\<open>request.tenantId\<close>.\<close>

definition tenant_canActivate :: "route_meta \<Rightarrow> request \<Rightarrow> (bool \<times> nat option) result" where
  "tenant_canActivate meta rq =
     (if rm_public meta then Inr (True, None)
      else case rq_user rq of
        None \<Rightarrow> Inr (False, None)
      | Some user \<Rightarrow>
          (case rq_tenantHeader rq of
             None \<Rightarrow> Inl (BadRequest TENANT_HEADER_MISSING)
           | Some t \<Rightarrow> if t \<noteq> jw_tenant user then Inl (Forbidden TENANT_MISMATCH)
                       else Inr (True, Some (jw_tenant user))))"

definition recordBranch :: "guard_env \<Rightarrow> route_meta \<Rightarrow> request \<Rightarrow> nat option" where
  "recordBranch env meta rq =
     (case (rm_branchOf meta, rq_recordId rq) of
        (Some kind, Some i) \<Rightarrow> ge_recordBranch env kind i
      | _ \<Rightarrow> None)"

definition branchOfRequest :: "guard_env \<Rightarrow> route_meta \<Rightarrow> request \<Rightarrow> nat option" where
  "branchOfRequest env meta rq =
     (case rq_branchParam rq of Some b \<Rightarrow> Some b | None \<Rightarrow> recordBranch env meta rq)"

definition customRoleAllows :: "guard_env \<Rightarrow> route_meta \<Rightarrow> request \<Rightarrow> string list \<Rightarrow> bool" where
  "customRoleAllows env meta rq roleNames =
     (if roleNames = [] then False
      else case rm_permission meta of
        None \<Rightarrow> False
      | Some (mdl, act) \<Rightarrow>
          (let action = the_default (actionForMethod (rq_method rq)) act
           in \<exists>name \<in> set roleNames.
                case ge_rolesByName env name of
                  None \<Rightarrow> False
                | Some role \<Rightarrow> \<not> rg_isSystem role \<and> permits (rg_permissions role) mdl action))"

definition assertWithinPageAccess :: "guard_env \<Rightarrow> route_meta \<Rightarrow> jwt \<Rightarrow> nat option \<Rightarrow> unit result" where
  "assertWithinPageAccess env meta user branchId =
     (case rm_permission meta of
        None \<Rightarrow> Inr ()
      | Some (mdl, _) \<Rightarrow>
          (case modulesForUser env user branchId of
             None \<Rightarrow> Inr ()
           | Some modules \<Rightarrow> if mdl \<notin> set modules then Inl (Forbidden FORBIDDEN) else Inr ()))"

definition apiKeyMayRead :: "guard_env \<Rightarrow> route_meta \<Rightarrow> request \<Rightarrow> api_key_principal \<Rightarrow> bool result" where
  "apiKeyMayRead env meta rq key =
     (if rq_method rq \<noteq> GET \<and> rq_method rq \<noteq> HEAD then Inl (Forbidden FORBIDDEN)
      else case rm_permission meta of
        None \<Rightarrow> Inl (Forbidden FORBIDDEN)
      | Some (mdl, act) \<Rightarrow>
          (if the_default (actionForMethod (rq_method rq)) act \<noteq> Read then Inl (Forbidden FORBIDDEN)
           else if mdl \<notin> set (ak_scopes key) then Inl (Forbidden FORBIDDEN)
           else if rq_reveal rq then Inl (Forbidden FORBIDDEN)
           else case ak_branch key of
             None \<Rightarrow> Inr True
           | Some kb \<Rightarrow>
               (case branchOfRequest env meta rq of
                  None \<Rightarrow> Inr True
                | Some b \<Rightarrow> if b \<noteq> kb then Inl (Forbidden FORBIDDEN) else Inr True)))"

definition at_this_branch :: "nat option \<Rightarrow> role_assignment \<Rightarrow> bool" where
  "at_this_branch branchId a \<longleftrightarrow> ra_branch a = None \<or> branchId = None \<or> ra_branch a = branchId"

text \<open>\<^verbatim>\<open>RolesGuard.canActivate\<close>\<close>

definition roles_canActivate :: "guard_env \<Rightarrow> route_meta \<Rightarrow> request \<Rightarrow> bool result" where
  "roles_canActivate env meta rq =
     (case Option.bind (rq_user rq) jw_apiKey of
        Some key \<Rightarrow> apiKeyMayRead env meta rq key
      | None \<Rightarrow>
          (let required = the_default [] (rm_roles meta)
           in case rq_user rq of
                None \<Rightarrow> if required \<noteq> [] then Inr False else Inr True
              | Some user \<Rightarrow>
                  (let branchId = branchOfRequest env meta rq;
                       allowed = (\<exists>a \<in> set (jw_roles user). ra_role a \<in> set required \<and> at_this_branch branchId a) \<or>
                         customRoleAllows env meta rq (map ra_role (filter (at_this_branch branchId) (jw_roles user)))
                   in if required \<noteq> [] \<and> \<not> allowed then Inl (Forbidden FORBIDDEN)
                      else bindr (assertWithinPageAccess env meta user branchId) (\<lambda>_. Inr True))))"

section \<open>Lemmas\<close>

lemma whyCannotGrant_None:
  "whyCannotGrant actor r b = None \<longleftrightarrow>
     r \<noteq> ''owner'' \<and> (isOwner actor \<or> r \<noteq> ''manager'' \<and> b \<noteq> None \<and> managesBranch actor b)"
  by (auto simp: whyCannotGrant_def SENIOR_ROLES_def)

lemma assertMayGrant_Inr: "assertMayGrant actor r b = Inr u \<longleftrightarrow> whyCannotGrant actor r b = None"
  by (cases u) (auto simp: assertMayGrant_def split: option.splits)

lemma changeable_no_owner:
  "whyCannotChangeRoleAt a u held b = None \<Longrightarrow> x \<in> set held \<Longrightarrow> ra_role x \<noteq> ''owner''"
  by (auto simp: whyCannotChangeRoleAt_def split: if_splits)

lemma changeable_no_senior:
  "whyCannotChangeRoleAt a u held b = None \<Longrightarrow> \<not> isOwner a \<Longrightarrow> x \<in> set held \<Longrightarrow> ra_role x \<notin> set SENIOR_ROLES"
  by (auto simp: whyCannotChangeRoleAt_def split: if_splits)

lemma parse_entries_ok:
  "parse_entries fs = Inr m \<Longrightarrow> (k, as) \<in> set m \<Longrightarrow> k \<in> set MODULE_KEYS \<and> as \<noteq> [] \<and> distinct as"
proof (induction fs arbitrary: m)
  case (Cons f fs)
  obtain mk raw where f: "f = (mk, raw)" by (cases f)
  from Cons.prems(1) have mk: "mk \<in> set MODULE_KEYS" by (auto simp: f split: if_splits)
  with Cons.prems(1) obtain js where raw: "raw = JArr js" by (auto simp: f split: json.splits)
  with Cons.prems(1) mk obtain actions parsed where p: "parse_entries fs = Inr parsed"
    and m: "m = (if js_unique actions \<noteq> [] then (mk, js_unique actions) # parsed else parsed)"
    by (auto simp: f res_simps Let_def)
  show ?case
  proof (cases "(k, as) \<in> set parsed")
    case True
    then show ?thesis using Cons.IH[OF p] by blast
  next
    case False
    with Cons.prems(2) m have "k = mk" "as = js_unique actions" "as \<noteq> []"
      by (auto split: if_splits)
    then show ?thesis using mk by simp
  qed
qed simp

lemma permits_safeParse: "permits (safeParse v) mdl action \<Longrightarrow> mdl \<in> set MODULE_KEYS"
proof -
  assume p: "permits (safeParse v) mdl action"
  then obtain as where "map_of (safeParse v) mdl = Some as"
    by (cases "map_of (safeParse v) mdl") (auto simp: permits_def)
  then have e: "(mdl, as) \<in> set (safeParse v)" by (rule map_of_SomeD)
  then obtain fs m where "v = Some (JObj fs)" "parse_entries fs = Inr m" "safeParse v = m"
    by (auto simp: safeParse_def parsePermissions_def split: option.splits json.splits sum.splits dest: sym)
  with e show ?thesis using parse_entries_ok by blast
qed

section \<open>Properties\<close>

text \<open>
  The tenant guard lets a request of a non-public route through for tenant \<open>t\<close> exactly
  when the signed-in principal belongs to \<open>t\<close> and the \<^verbatim>\<open>X-Tenant-ID\<close> header names \<open>t\<close>:
  the tenant the services then work in is always the caller's own.
\<close>

theorem tenant_guard_exact:
  "tenant_canActivate meta rq = Inr (True, Some t) \<longleftrightarrow>
     \<not> rm_public meta \<and> (\<exists>user. rq_user rq = Some user \<and> jw_tenant user = t \<and> rq_tenantHeader rq = Some t)"
  by (auto simp: tenant_canActivate_def split: option.splits if_splits)

text \<open>
  C15. Who gets past the role guard on a route that names roles: a signed-in person passes
  only on the strength of one of their assignments that is valid at the branch the request
  is about, and that assignment is either one of the roles the route names, or a custom
  (never a seeded) role whose permission map covers the route's module and action.
\<close>

theorem roles_guard_sound:
  assumes "rq_user rq = Some user" and "jw_apiKey user = None"
    and "rm_roles meta = Some required" and "required \<noteq> []"
    and "roles_canActivate env meta rq = Inr True"
  shows "\<exists>a \<in> set (jw_roles user). at_this_branch (branchOfRequest env meta rq) a \<and>
     (ra_role a \<in> set required \<or>
      (\<exists>role mdl act. ge_rolesByName env (ra_role a) = Some role \<and> \<not> rg_isSystem role \<and>
         rm_permission meta = Some (mdl, act) \<and>
         permits (rg_permissions role) mdl (the_default (actionForMethod (rq_method rq)) act)))"
proof -
  let ?b = "branchOfRequest env meta rq"
  from assms have "(\<exists>a \<in> set (jw_roles user). ra_role a \<in> set required \<and> at_this_branch ?b a) \<or>
      customRoleAllows env meta rq (map ra_role (filter (at_this_branch ?b) (jw_roles user)))"
    by (auto simp: roles_canActivate_def Let_def split: if_splits)
  then show ?thesis
    by (fastforce simp: customRoleAllows_def Let_def split: option.splits if_splits)
qed

definition ex_desk :: jwt where
  "ex_desk = \<lparr>jw_sub = 7, jw_tenant = 1, jw_roles = [\<lparr>ra_branch = Some 3, ra_role = ''front_desk''\<rparr>], jw_apiKey = None\<rparr>"

definition ex_env :: guard_env where
  "ex_env = \<lparr>ge_rolesByName = (\<lambda>_. None), ge_rows = [], ge_recordBranch = (\<lambda>_ i. if i = 40 then Some 3 else Some 4)\<rparr>"

definition ex_meta :: route_meta where
  "ex_meta = \<lparr>rm_public = False, rm_roles = Some [''front_desk''], rm_permission = Some (''folios'', None), rm_branchOf = Some ''folio''\<rparr>"

definition ex_rq :: "nat \<Rightarrow> request" where
  "ex_rq record_id = \<lparr>rq_method = POST, rq_user = Some ex_desk, rq_branchParam = None, rq_recordId = Some record_id,
     rq_reveal = False, rq_tenantHeader = Some 1\<rparr>"

lemmas ex_guard_defs = ex_desk_def ex_env_def ex_meta_def ex_rq_def

theorem roles_guard_sound_witness:
  "roles_canActivate ex_env ex_meta (ex_rq 40) = Inr True \<and>
   (\<exists>a \<in> set (jw_roles ex_desk). at_this_branch (branchOfRequest ex_env ex_meta (ex_rq 40)) a \<and>
     (ra_role a \<in> set [''front_desk''] \<or>
      (\<exists>role mdl act. ge_rolesByName ex_env (ra_role a) = Some role \<and> \<not> rg_isSystem role \<and>
         rm_permission ex_meta = Some (mdl, act) \<and>
         permits (rg_permissions role) mdl (the_default (actionForMethod (rq_method (ex_rq 40))) act))))"
proof -
  have r: "roles_canActivate ex_env ex_meta (ex_rq 40) = Inr True"
    by (simp add: ex_guard_defs roles_canActivate_def branchOfRequest_def recordBranch_def at_this_branch_def
        assertWithinPageAccess_def modulesForUser_def)
  show ?thesis
    using roles_guard_sound[of "ex_rq 40" ex_desk ex_meta "[''front_desk'']" ex_env] r
    by (auto simp: ex_rq_def ex_desk_def ex_meta_def)
qed

text \<open>
  Staff are confined to their own properties: when every role a person holds is at some
  branch other than the one the request is about (the branch in the URL, or the branch of
  the record the route is addressed by), a route that names roles answers 403.
\<close>

theorem other_branch_refused:
  assumes "rq_user rq = Some user" and "jw_apiKey user = None"
    and "rm_roles meta = Some required" and "required \<noteq> []"
    and "branchOfRequest env meta rq = Some b"
    and "\<forall>a \<in> set (jw_roles user). \<exists>b'. ra_branch a = Some b' \<and> b' \<noteq> b"
  shows "roles_canActivate env meta rq = Inl (Forbidden FORBIDDEN)"
proof -
  from assms(6) have none: "filter (at_this_branch (Some b)) (jw_roles user) = []"
    by (auto simp: filter_empty_conv at_this_branch_def)
  then have "\<not> (\<exists>a \<in> set (jw_roles user). ra_role a \<in> set required \<and> at_this_branch (Some b) a)"
    by (auto simp: filter_empty_conv)
  with none assms(1-5) show ?thesis
    by (auto simp: roles_canActivate_def Let_def customRoleAllows_def)
qed

theorem other_branch_refused_witness:
  "roles_canActivate ex_env ex_meta (ex_rq 41) = Inl (Forbidden FORBIDDEN)"
  by (rule other_branch_refused[where user = ex_desk and required = "[''front_desk'']" and b = 4])
    (simp_all add: ex_guard_defs branchOfRequest_def recordBranch_def)


definition ex_key_rq :: request where
  "ex_key_rq = \<lparr>rq_method = GET, rq_user = Some \<lparr>jw_sub = 5, jw_tenant = 1, jw_roles = [],
       jw_apiKey = Some \<lparr>ak_id = 5, ak_scopes = [''folios''], ak_branch = Some 3\<rparr>\<rparr>,
     rq_branchParam = None, rq_recordId = Some 40, rq_reveal = False, rq_tenantHeader = Some 1\<rparr>"



definition ex_custom_env :: guard_env where
  "ex_custom_env = ex_env\<lparr>ge_rolesByName := (\<lambda>_. Some \<lparr>rg_id = 9, rg_name = ''auditor'', rg_isSystem = False,
     rg_permissions = safeParse (Some (JObj [(''folios'', JArr [JStr ''create''])]))\<rparr>)\<rparr>"


definition page_ok :: "page_definition \<Rightarrow> bool" where
  "page_ok p \<longleftrightarrow>
     (case pg_module p of None \<Rightarrow> True | Some m \<Rightarrow> List.member (pg_uses p) m) \<and>
     list_all (List.member MODULE_KEYS) (pg_uses p) \<and>
     list_all (List.member STAFF_ROLES) (pg_roles p) \<and>
     (case pg_actRoles p of None \<Rightarrow> True | Some acts \<Rightarrow> list_all (List.member (pg_roles p)) acts)"

text \<open>
  The page catalogue is consistent: keys are distinct, every page uses the module it is
  about (so giving a page never leaves its own module refused), every module used is one the
  permission catalogue knows, the roles are staff roles, and the roles that can act on a page
  can open it.
\<close>

theorem page_catalogue_consistent:
  "list_all page_ok PAGE_CATALOGUE \<and> distinct (map pg_key PAGE_CATALOGUE)"
  by code_simp

lemma availableFor_subset: "set (availableFor role) \<subseteq> set PAGE_CATALOGUE"
  by (auto simp: availableFor_def)

lemma setPages_Inr:
  assumes "setPages roles branchExists rows b rid pages = Inr rows'" and "staffRole roles rid = Inr role"
  shows "set pages \<subseteq> pg_key ` set (availableFor role)"
    and "rows' = ((b, rid), filter (\<lambda>k. k \<in> set pages) (map pg_key PAGE_CATALOGUE)) # filter (\<lambda>r. fst r \<noteq> (b, rid)) rows"
  using assms by (auto simp: setPages_def Let_def split: if_splits)

lemma setPages_stored:
  assumes "setPages roles branchExists rows b rid pages = Inr rows'" and "staffRole roles rid = Inr role"
  shows "\<exists>st. map_of rows' (b, rid) = Some st \<and> set st = set pages"
  using setPages_Inr[OF assms] availableFor_subset[of role] by auto

lemma map_of_filter_other: "k \<noteq> k' \<Longrightarrow> map_of (filter (\<lambda>r. fst r \<noteq> k') rows) k = map_of rows k"
  by (induction rows) auto

text \<open>
  Setting a role's pages does exactly what Page Access says. After \<^verbatim>\<open>setPages\<close> succeeds,
  the role opens exactly the given pages at that branch, every other role and branch keeps
  its setting, and the server lets a person holding just that role there use a module
  exactly when one of the given pages uses it.
\<close>

theorem setPages_enforced:
  assumes set: "setPages roles branchExists rows b rid pages = Inr rows'"
    and role: "staffRole roles rid = Inr role" and "rg_id role = rid"
    and env: "ge_rolesByName env (rg_name role) = Some role" "ge_rows env = rows'"
    and user: "jw_roles user = [\<lparr>ra_branch = Some b, ra_role = rg_name role\<rparr>]"
    and meta: "rm_permission meta = Some (mdl, act)"
  shows "set (effectivePages role (map_of rows' (b, rid))) = set pages \<and>
     (\<forall>b' r'. (b', r') \<noteq> (b, rid) \<longrightarrow> map_of rows' (b', r') = map_of rows (b', r')) \<and>
     (assertWithinPageAccess env meta user (Some b) = Inr () \<longleftrightarrow>
        (\<exists>k \<in> set pages. \<exists>p. PAGE_BY_KEY k = Some p \<and> mdl \<in> set (pg_uses p)))"
proof (intro conjI)
  from setPages_stored[OF set role] obtain st where st: "map_of rows' (b, rid) = Some st" "set st = set pages" by blast
  from st setPages_Inr(1)[OF set role] show "set (effectivePages role (map_of rows' (b, rid))) = set pages"
    by (auto simp: effectivePages_def Let_def)
  show "\<forall>b' r'. (b', r') \<noteq> (b, rid) \<longrightarrow> map_of rows' (b', r') = map_of rows (b', r')"
    using setPages_Inr(2)[OF set role] by (auto simp: map_of_filter_other)
  have nu: "rg_name role \<notin> set UNRESTRICTED_ROLES" using role by (auto simp: staffRole_def split: option.splits if_splits)
  then have "rg_name role \<noteq> ''owner''" by (auto simp: UNRESTRICTED_ROLES_def)
  moreover have "rows' \<noteq> []" using st by auto
  ultimately have "modulesForUser env user (Some b) =
      Some (concat (map (\<lambda>k. case PAGE_BY_KEY k of None \<Rightarrow> [] | Some p \<Rightarrow> pg_uses p) st))"
    using nu st env user assms(3) by (simp add: modulesForUser_def)
  then show "assertWithinPageAccess env meta user (Some b) = Inr () \<longleftrightarrow>
      (\<exists>k \<in> set pages. \<exists>p. PAGE_BY_KEY k = Some p \<and> mdl \<in> set (pg_uses p))"
    using st(2) by (auto simp: assertWithinPageAccess_def meta split: option.splits intro: bexI dest: sym)
qed

definition ex_page_role :: role_grant where
  "ex_page_role = \<lparr>rg_id = 9, rg_name = ''front_desk'', rg_isSystem = True, rg_permissions = []\<rparr>"

theorem setPages_enforced_witness:
  "assertWithinPageAccess (ex_env\<lparr>ge_rolesByName := (\<lambda>_. Some ex_page_role), ge_rows := [((3, 9), [''/dashboard/alerts''])]\<rparr>)
     ex_meta ex_desk (Some 3) = Inr () \<longleftrightarrow>
   (\<exists>k \<in> set [''/dashboard/alerts'']. \<exists>p. PAGE_BY_KEY k = Some p \<and> ''folios'' \<in> set (pg_uses p))"
proof -
  have "setPages [ex_page_role] (\<lambda>b. b = 3) [] 3 9 [''/dashboard/alerts''] = Inr [((3, 9), [''/dashboard/alerts''])]"
    by code_simp
  then show ?thesis
    by (rule setPages_enforced[where role = ex_page_role and act = None, THEN conjunct2, THEN conjunct2])
      (simp_all add: staffRole_def UNRESTRICTED_ROLES_def ex_page_role_def ex_desk_def ex_meta_def)
qed

end
