(* ===== verification/Taxes.thy ===== *)
theory Taxes
  imports Decimal Access
begin

text \<open>
  Taxes (\<^verbatim>\<open>src/src/modules/taxes/taxes.service.ts\<close>): the rules of a branch and their upkeep,
  and the engine \<^verbatim>\<open>priceCharge\<close> that takes included taxes out of a price and puts added
  taxes on top. The quote, the folio ledger and the point of sale all price through it; what
  they rely on is the locale \<open>tax_engine\<close>.

  \<open>ci\<close> is the database's case-insensitive comparison of names, of which only symmetry and
  reflexivity are used.
\<close>

section \<open>Rules\<close>

datatype adjustment_type = FixedAmount | Percentage

datatype charge_type = Room | Fnb | Spa | Laundry | Minibar | Transport | Tax | Penalty | Correction | Misc

record tax_rule =
  tr_id :: nat
  tr_branch :: nat
  tr_name :: string
  tr_rate :: rat
  tr_type :: adjustment_type
  tr_fixedAmount :: "rat option"
  tr_inclusive :: bool
  tr_appliesTo :: "charge_type list"
  tr_jurisdiction :: "string option"
  tr_isActive :: bool

record tax_rule_dto =
  td_name :: string
  td_type :: "adjustment_type option"
  td_rate :: "rat option"
  td_fixedAmount :: "rat option"
  td_inclusive :: "bool option"
  td_appliesTo :: "charge_type list option"
  td_jurisdiction :: "string option"

text \<open>What the request's own decorators let through: a rate in \<open>[0, 1]\<close>, an amount of at least a cent, in whole cents.\<close>

definition tax_dto_valid :: "tax_rule_dto \<Rightarrow> bool" where
  "tax_dto_valid dto \<longleftrightarrow>
     (case td_rate dto of None \<Rightarrow> True | Some r \<Rightarrow> 0 \<le> r \<and> r \<le> 1) \<and>
     (case td_fixedAmount dto of None \<Rightarrow> True | Some f \<Rightarrow> 1 / 100 \<le> f \<and> f \<le> 10000000 \<and> is_money f)"

definition TAX_ADMIN_ROLES :: "string list" where
  "TAX_ADMIN_ROLES = [''owner'', ''manager'', ''accountant'']"

definition assertShape :: "tax_rule_dto \<Rightarrow> (nat \<Rightarrow> nat \<Rightarrow> tax_rule) result" where
  "assertShape dto =
     (let name = js_trim (td_name dto);
          jurisdiction = (case td_jurisdiction dto of None \<Rightarrow> None
             | Some j \<Rightarrow> if js_trim j = [] then None else Some (js_trim j));
          rule = (\<lambda>t rate fixed i b. \<lparr>tr_id = i, tr_branch = b, tr_name = name, tr_rate = rate, tr_type = t,
             tr_fixedAmount = fixed, tr_inclusive = the_default False (td_inclusive dto),
             tr_appliesTo = the_default [] (td_appliesTo dto), tr_jurisdiction = jurisdiction, tr_isActive = True\<rparr>)
      in if name = [] then Inl (BadRequest VALIDATION_FAILED)
      else if the_default Percentage (td_type dto) = FixedAmount
      then (case td_fixedAmount dto of
              None \<Rightarrow> Inl (BadRequest VALIDATION_FAILED)
            | Some f \<Rightarrow>
                if f \<le> 0 then Inl (BadRequest VALIDATION_FAILED)
                else if td_rate dto \<noteq> None \<and> td_rate dto \<noteq> Some 0 then Inl (BadRequest VALIDATION_FAILED)
                else Inr (rule FixedAmount 0 (Some f)))
      else (case td_rate dto of
              None \<Rightarrow> Inl (BadRequest VALIDATION_FAILED)
            | Some r \<Rightarrow>
                if td_fixedAmount dto \<noteq> None then Inl (BadRequest VALIDATION_FAILED)
                else Inr (rule Percentage r None)))"

definition assertNameFree ::
  "(string \<Rightarrow> string \<Rightarrow> bool) \<Rightarrow> tax_rule list \<Rightarrow> nat \<Rightarrow> string \<Rightarrow> nat option \<Rightarrow> unit result" where
  "assertNameFree ci rules branchId name exceptId =
     (if \<exists>r \<in> set rules. tr_branch r = branchId \<and> tr_isActive r \<and> ci (tr_name r) (js_trim name) \<and> exceptId \<noteq> Some (tr_id r)
      then Inl (Conflict CONFLICT) else Inr ())"

definition findRule :: "tax_rule list \<Rightarrow> nat \<Rightarrow> tax_rule result" where
  "findRule rules i = (case List.find (\<lambda>r. tr_id r = i) rules of None \<Rightarrow> Inl (NotFound NOT_FOUND) | Some r \<Rightarrow> Inr r)"

definition fresh_rule :: "tax_rule list \<Rightarrow> nat" where
  "fresh_rule rules = Suc (Max (insert 0 (set (map tr_id rules))))"

definition createTaxRule ::
  "(string \<Rightarrow> string \<Rightarrow> bool) \<Rightarrow> (nat \<Rightarrow> bool) \<Rightarrow> nat \<Rightarrow> tax_rule_dto \<Rightarrow> tax_rule list \<Rightarrow> tax_rule list result" where
  "createTaxRule ci branchExists branchId dto rules =
     bindr (assertShape dto) (\<lambda>shape.
       if \<not> branchExists branchId then Inl (NotFound NOT_FOUND)
       else bindr (assertNameFree ci rules branchId (td_name dto) None) (\<lambda>_.
         Inr (rules @ [shape (fresh_rule rules) branchId])))"

text \<open>Writing one rule's \<^verbatim>\<open>isActive\<close>.\<close>

definition setActive :: "nat \<Rightarrow> bool \<Rightarrow> tax_rule list \<Rightarrow> tax_rule list" where
  "setActive i active = map (\<lambda>r. if tr_id r = i then r\<lparr>tr_isActive := active\<rparr> else r)"

definition updateTaxRule ::
  "(string \<Rightarrow> string \<Rightarrow> bool) \<Rightarrow> nat \<Rightarrow> bool option \<Rightarrow> jwt option \<Rightarrow> tax_rule list \<Rightarrow> tax_rule list result" where
  "updateTaxRule ci i isActive actor rules =
     bindr (findRule rules i) (\<lambda>rule.
     bindr (case actor of None \<Rightarrow> Inr () | Some a \<Rightarrow> assertRoleAtBranch a (tr_branch rule) TAX_ADMIN_ROLES) (\<lambda>_.
     bindr (if isActive = Some True \<and> \<not> tr_isActive rule
            then assertNameFree ci rules (tr_branch rule) (tr_name rule) (Some (tr_id rule)) else Inr ()) (\<lambda>_.
       Inr (case isActive of None \<Rightarrow> rules | Some a \<Rightarrow> setActive i a rules))))"

definition replaceTaxRule ::
  "(string \<Rightarrow> string \<Rightarrow> bool) \<Rightarrow> nat \<Rightarrow> tax_rule_dto \<Rightarrow> jwt \<Rightarrow> tax_rule list \<Rightarrow> tax_rule list result" where
  "replaceTaxRule ci i dto actor rules =
     bindr (assertShape dto) (\<lambda>shape.
     bindr (findRule rules i) (\<lambda>old.
     bindr (assertRoleAtBranch actor (tr_branch old) TAX_ADMIN_ROLES) (\<lambda>_.
       if \<not> tr_isActive old then Inl (Conflict CONFLICT)
       else bindr (assertNameFree ci rules (tr_branch old) (td_name dto) (Some (tr_id old))) (\<lambda>_.
         Inr (setActive (tr_id old) False rules @ [shape (fresh_rule rules) (tr_branch old)])))))"

section \<open>The engine\<close>

record computed_tax =
  cx_ruleId :: nat
  cx_inclusive :: bool
  cx_taxAmount :: rat

record priced_charge =
  pc_price :: rat
  pc_net :: rat
  pc_taxes :: "computed_tax list"
  pc_taxTotal :: rat
  pc_includedTax :: rat
  pc_addedTax :: rat
  pc_total :: rat

definition NEVER_TAXED :: "charge_type set" where
  "NEVER_TAXED = {Tax, Correction}"

definition isFixed :: "tax_rule \<Rightarrow> bool" where
  "isFixed rule \<longleftrightarrow> tr_type rule = FixedAmount \<and> tr_fixedAmount rule \<noteq> None"

definition fixedFor :: "int \<Rightarrow> tax_rule \<Rightarrow> rat" where
  "fixedFor units rule = the_default 0 (tr_fixedAmount rule) * of_int units"

text \<open>The active rules of a branch that cover a charge type, by name.\<close>

definition rulesFor :: "tax_rule list \<Rightarrow> nat \<Rightarrow> charge_type \<Rightarrow> tax_rule list" where
  "rulesFor rules branchId chargeType =
     filter (\<lambda>r. tr_appliesTo r = [] \<or> chargeType \<in> set (tr_appliesTo r))
       (sort_key tr_name (filter (\<lambda>r. tr_branch r = branchId \<and> tr_isActive r) rules))"

definition includedFixed :: "int \<Rightarrow> tax_rule list \<Rightarrow> rat" where
  "includedFixed units rs = sum_list (map (fixedFor units) (filter isFixed (filter tr_inclusive rs)))"

definition includedRate :: "tax_rule list \<Rightarrow> rat" where
  "includedRate rs = sum_list (map tr_rate (filter (\<lambda>r. \<not> isFixed r) (filter tr_inclusive rs)))"

definition taxOf :: "decimal_lib \<Rightarrow> int \<Rightarrow> rat \<Rightarrow> tax_rule \<Rightarrow> computed_tax" where
  "taxOf D units base rule =
     \<lparr>cx_ruleId = tr_id rule, cx_inclusive = tr_inclusive rule,
      cx_taxAmount = d_dp2 D (if isFixed rule then fixedFor units rule else d_mul D base (tr_rate rule))\<rparr>"

definition sumTaxes :: "computed_tax list \<Rightarrow> rat" where
  "sumTaxes ts = sum_list (map cx_taxAmount ts)"

definition priceCharge ::
  "decimal_lib \<Rightarrow> tax_rule list \<Rightarrow> nat \<Rightarrow> charge_type \<Rightarrow> rat \<Rightarrow> int \<Rightarrow> priced_charge result" where
  "priceCharge D allRules branchId chargeType price units =
     (let untaxed = \<lparr>pc_price = price, pc_net = price, pc_taxes = [], pc_taxTotal = 0, pc_includedTax = 0,
            pc_addedTax = 0, pc_total = price\<rparr>
      in if chargeType \<in> NEVER_TAXED \<or> \<not> 0 < price then Inr untaxed
      else let rules = rulesFor allRules branchId chargeType
      in if rules = [] then Inr untaxed
      else let base = d_div D (price - includedFixed units rules) (1 + includedRate rules)
      in if \<not> 0 < base then Inl (BadRequest VALIDATION_FAILED)
      else let taxes = filter (\<lambda>t. cx_taxAmount t \<noteq> 0) (map (taxOf D units base) rules);
               includedTax = sumTaxes (filter cx_inclusive taxes);
               addedTax = sumTaxes (filter (\<lambda>t. \<not> cx_inclusive t) taxes)
      in Inr \<lparr>pc_price = price, pc_net = price - includedTax, pc_taxes = taxes, pc_taxTotal = includedTax + addedTax,
              pc_includedTax = includedTax, pc_addedTax = addedTax, pc_total = price + addedTax\<rparr>)"

section \<open>What callers rely on\<close>

text \<open>
  A tax engine answers a price with a net amount and tax lines. Whatever the rules, the
  lines it asks the ledger to post add up to the total, the included taxes and the net make
  up the price, no line is zero, and what is not positive or is itself a tax or a correction
  comes back untaxed.
\<close>

locale tax_engine =
  fixes engine :: "nat \<Rightarrow> charge_type \<Rightarrow> rat \<Rightarrow> int \<Rightarrow> priced_charge result"
  assumes keeps_price: "engine b ct p u = Inr pc \<Longrightarrow> pc_price pc = p"
    and net_included: "engine b ct p u = Inr pc \<Longrightarrow> pc_net pc + sumTaxes (filter cx_inclusive (pc_taxes pc)) = p"
    and total_added: "engine b ct p u = Inr pc \<Longrightarrow> pc_total pc = p + sumTaxes (filter (\<lambda>t. \<not> cx_inclusive t) (pc_taxes pc))"
    and tax_total: "engine b ct p u = Inr pc \<Longrightarrow> pc_taxTotal pc = sumTaxes (pc_taxes pc)"
    and no_zero: "engine b ct p u = Inr pc \<Longrightarrow> t \<in> set (pc_taxes pc) \<Longrightarrow> cx_taxAmount t \<noteq> 0"
    and untaxed: "p \<le> 0 \<or> ct \<in> {Tax, Correction} \<Longrightarrow> \<exists>pc. engine b ct p u = Inr pc \<and> pc_taxes pc = []"
begin

lemma lines_add_up:
  assumes "engine b ct p u = Inr pc"
  shows "pc_net pc + sumTaxes (pc_taxes pc) = pc_total pc"
  using net_included[OF assms] total_added[OF assms]
    sum_list_filter_split[of cx_taxAmount cx_inclusive "pc_taxes pc"]
  by (simp add: sumTaxes_def)

lemma untaxed_price:
  assumes "p \<le> 0 \<or> ct \<in> {Tax, Correction}"
  shows "\<exists>pc. engine b ct p u = Inr pc \<and> pc_taxes pc = [] \<and> pc_net pc = p \<and> pc_total pc = p"
proof -
  from untaxed[OF assms, where b = b and u = u] obtain pc where "engine b ct p u = Inr pc" "pc_taxes pc = []" by blast
  with net_included[OF this(1)] total_added[OF this(1)] show ?thesis by (simp add: sumTaxes_def)
qed

end

lemma filter_commute: "filter p (filter q xs) = filter q (filter p xs)"
  by (simp add: conj_commute)

interpretation te: tax_engine "priceCharge D rules" for D rules
proof (unfold_locales, goal_cases)
  case (1 b ct p u pc)
  then show ?case by (auto simp: priceCharge_def Let_def split: if_splits)
next
  case (2 b ct p u pc)
  then show ?case by (auto simp: priceCharge_def Let_def sumTaxes_def split: if_splits)
next
  case (3 b ct p u pc)
  then show ?case by (auto simp: priceCharge_def Let_def sumTaxes_def split: if_splits)
next
  case (4 b ct p u pc)
  then show ?case
    using sum_list_filter_split[of cx_taxAmount cx_inclusive "pc_taxes pc"]
    by (auto simp: priceCharge_def Let_def sumTaxes_def split: if_splits)
next
  case (5 b ct p u pc t)
  then show ?case by (auto simp: priceCharge_def Let_def split: if_splits)
next
  case (6 p ct b u)
  then show ?case by (auto simp: priceCharge_def Let_def NEVER_TAXED_def)
qed

section \<open>Upkeep\<close>

text \<open>The table's own check, names trimmed, and at most one active rule of a name at a branch.\<close>

definition rule_shape :: "tax_rule \<Rightarrow> bool" where
  "rule_shape r \<longleftrightarrow> js_trim (tr_name r) = tr_name r \<and> tr_name r \<noteq> [] \<and>
     (if tr_type r = Percentage then tr_fixedAmount r = None \<and> 0 \<le> tr_rate r \<and> tr_rate r \<le> 1
      else tr_rate r = 0 \<and> (case tr_fixedAmount r of None \<Rightarrow> False | Some f \<Rightarrow> 0 < f \<and> is_money f))"

definition clash :: "(string \<Rightarrow> string \<Rightarrow> bool) \<Rightarrow> tax_rule \<Rightarrow> tax_rule \<Rightarrow> bool" where
  "clash ci r s \<longleftrightarrow> tr_isActive r \<and> tr_isActive s \<and> tr_branch r = tr_branch s \<and> ci (tr_name r) (tr_name s)"

definition rules_ok :: "(string \<Rightarrow> string \<Rightarrow> bool) \<Rightarrow> tax_rule list \<Rightarrow> bool" where
  "rules_ok ci rules \<longleftrightarrow> distinct (map tr_id rules) \<and> list_all rule_shape rules \<and>
     (\<forall>r \<in> set rules. \<forall>s \<in> set rules. clash ci r s \<longrightarrow> tr_id r = tr_id s)"

inductive tax_step :: "(string \<Rightarrow> string \<Rightarrow> bool) \<Rightarrow> tax_rule list \<Rightarrow> tax_rule list \<Rightarrow> bool" for ci where
  created: "tax_dto_valid dto \<Longrightarrow> createTaxRule ci ex b dto rules = Inr rules' \<Longrightarrow> tax_step ci rules rules'"
| updated: "updateTaxRule ci i act actor rules = Inr rules' \<Longrightarrow> tax_step ci rules rules'"
| replaced: "tax_dto_valid dto \<Longrightarrow> replaceTaxRule ci i dto user rules = Inr rules' \<Longrightarrow> tax_step ci rules rules'"

lemma assertShape_Inr:
  assumes "assertShape dto = Inr shape" and "tax_dto_valid dto"
  shows "rule_shape (shape i b)" and "tr_id (shape i b) = i" and "tr_branch (shape i b) = b"
    and "tr_isActive (shape i b)" and "tr_name (shape i b) = js_trim (td_name dto)"
  using assms by (auto simp: assertShape_def Let_def rule_shape_def tax_dto_valid_def split: if_splits option.splits)

lemma fresh_rule_new: "fresh_rule rules \<notin> tr_id ` set rules"
proof
  assume "fresh_rule rules \<in> tr_id ` set rules"
  then have "fresh_rule rules \<le> Max (insert 0 (set (map tr_id rules)))" by (intro Max_ge) auto
  then show False by (simp add: fresh_rule_def)
qed

lemma assertNameFree_Inr:
  "assertNameFree ci rules b name except = Inr u \<longleftrightarrow>
     (\<forall>r \<in> set rules. tr_branch r = b \<longrightarrow> tr_isActive r \<longrightarrow> ci (tr_name r) (js_trim name) \<longrightarrow> except = Some (tr_id r))"
  by (cases u) (auto simp: assertNameFree_def)

lemma setActive_ids [simp]: "map tr_id (setActive i a rules) = map tr_id rules"
  by (simp add: setActive_def comp_def if_distrib[of tr_id] cong: if_cong)

lemma setActive_shape: "list_all rule_shape rules \<Longrightarrow> list_all rule_shape (setActive i a rules)"
  by (auto simp: setActive_def list_all_iff rule_shape_def)

lemma mem_setActive:
  "r \<in> set (setActive i a rules) \<longleftrightarrow>
     r \<in> set rules \<and> tr_id r \<noteq> i \<or> (\<exists>r0 \<in> set rules. tr_id r0 = i \<and> r = r0\<lparr>tr_isActive := a\<rparr>)"
  by (auto simp: setActive_def image_iff)

text \<open>A rule whose name is free may join.\<close>

lemma rules_ok_snoc:
  assumes "rules_ok ci rules" and "rule_shape r" and "tr_id r \<notin> tr_id ` set rules"
    and "\<And>x y. ci x y \<Longrightarrow> ci y x" and "\<And>s. s \<in> set rules \<Longrightarrow> \<not> clash ci s r"
  shows "rules_ok ci (rules @ [r])"
proof -
  have "\<not> clash ci r s" if "s \<in> set rules" for s using assms(4)[of "tr_name r" "tr_name s"] assms(5)[OF that] by (auto simp: clash_def)
  with assms show ?thesis by (auto simp: rules_ok_def)
qed

text \<open>Retiring a rule never makes a clash; reinstating one does not when its name is free.\<close>

lemma rules_ok_setActive:
  assumes "rules_ok ci rules" and "\<And>x y. ci x y \<Longrightarrow> ci y x"
    and "\<And>r s. a \<Longrightarrow> r \<in> set rules \<Longrightarrow> tr_id r = i \<Longrightarrow> s \<in> set rules \<Longrightarrow> tr_id s \<noteq> i \<Longrightarrow>
           tr_branch s = tr_branch r \<Longrightarrow> tr_isActive s \<Longrightarrow> \<not> ci (tr_name s) (tr_name r)"
  shows "rules_ok ci (setActive i a rules)"
proof -
  have "tr_id r = tr_id s" if rs: "r \<in> set (setActive i a rules)" "s \<in> set (setActive i a rules)" and c: "clash ci r s" for r s
  proof (rule ccontr)
    assume ne: "tr_id r \<noteq> tr_id s"
    show False
    proof (cases "tr_id r = i")
      case True
      with rs(1) obtain r0 where "r0 \<in> set rules" "tr_id r0 = i" "r = r0\<lparr>tr_isActive := a\<rparr>"
        unfolding mem_setActive by blast
      moreover have "tr_id s \<noteq> i" using ne True by simp
      moreover from this have "s \<in> set rules" using rs(2) by (force simp: mem_setActive)
      ultimately show False using assms(3)[of r0 s] assms(2)[of "tr_name r" "tr_name s"] c by (simp add: clash_def)
    next
      case r: False
      then have r': "r \<in> set rules" using rs by (auto simp: mem_setActive)
      show False
      proof (cases "tr_id s = i")
        case True
        with rs obtain s0 where "s0 \<in> set rules" "tr_id s0 = i" "s = s0\<lparr>tr_isActive := a\<rparr>" by (auto simp: mem_setActive)
        with assms(3)[of s0 r] r r' c show False by (simp add: clash_def)
      next
        case False
        then have "s \<in> set rules" using rs by (auto simp: mem_setActive)
        with r' c ne assms(1) show False by (auto simp: rules_ok_def)
      qed
    qed
  qed
  then show ?thesis using assms(1) setActive_shape[of rules i a] unfolding rules_ok_def by simp
qed

lemma findRule_Inr: "findRule rules i = Inr r \<Longrightarrow> r \<in> set rules \<and> tr_id r = i"
  by (auto simp: findRule_def split: option.splits dest: find_Some_mem)

lemma rules_unique_id: "distinct (map tr_id rules) \<Longrightarrow> r \<in> set rules \<Longrightarrow> s \<in> set rules \<Longrightarrow> tr_id r = tr_id s \<Longrightarrow> r = s"
  by (metis distinct_map inj_onD)

lemma replaceTaxRule_Inr:
  assumes "replaceTaxRule ci i dto user rules = Inr rules'"
  obtains old shape where "old \<in> set rules" and "tr_id old = i" and "tr_isActive old" and "assertShape dto = Inr shape"
    and "rules' = setActive i False rules @ [shape (fresh_rule rules) (tr_branch old)]"
    and "assertNameFree ci rules (tr_branch old) (td_name dto) (Some i) = Inr ()"
    and "hasRoleAtBranch user (tr_branch old) TAX_ADMIN_ROLES"
  using assms by (auto simp: replaceTaxRule_def res_simps assertRoleAtBranch_def dest: findRule_Inr split: if_splits)

lemma rules_ok_replace:
  assumes "rules_ok ci rules" and "tax_dto_valid dto" and "replaceTaxRule ci i dto user rules = Inr rules'"
    and "\<And>x y. ci x y \<Longrightarrow> ci y x"
  shows "rules_ok ci rules'"
  using assms(3)
proof (cases rule: replaceTaxRule_Inr)
  case (1 old shape)
  note sh = assertShape_Inr[OF 1(4) assms(2), of "fresh_rule rules" "tr_branch old"]
  have f: "fresh_rule rules \<notin> tr_id ` set (setActive i False rules)"
    using fresh_rule_new[of rules] setActive_ids[of i False rules] by (metis list.set_map)
  show ?thesis unfolding 1(5)
  proof (rule rules_ok_snoc[OF rules_ok_setActive[OF assms(1,4)] sh(1) _ assms(4)])
    fix s assume "s \<in> set (setActive i False rules)"
    then show "\<not> clash ci s (shape (fresh_rule rules) (tr_branch old))"
      using 1(6) sh by (auto simp: mem_setActive clash_def assertNameFree_Inr)
  qed (use f sh in simp_all)
qed

lemma tax_step_rules_ok:
  assumes "tax_step ci rules rules'" and "rules_ok ci rules" and sym: "\<And>x y. ci x y \<Longrightarrow> ci y x"
  shows "rules_ok ci rules'"
  using assms(1)
proof (cases rule: tax_step.cases)
  case (created dto ex b)
  then obtain shape where s: "assertShape dto = Inr shape" and r: "rules' = rules @ [shape (fresh_rule rules) b]"
    and n: "assertNameFree ci rules b (td_name dto) None = Inr ()"
    by (auto simp: createTaxRule_def res_simps split: if_splits)
  note sh = assertShape_Inr[OF s created(1), of "fresh_rule rules" b]
  show ?thesis unfolding r using n sh fresh_rule_new[of rules]
    by (intro rules_ok_snoc[OF assms(2) _ _ sym]) (auto simp: clash_def assertNameFree_Inr)
next
  case (updated i act actor)
  then obtain rule where rule: "rule \<in> set rules" "tr_id rule = i"
    and n: "act = Some True \<Longrightarrow> \<not> tr_isActive rule \<Longrightarrow> assertNameFree ci rules (tr_branch rule) (tr_name rule) (Some i) = Inr ()"
    and r: "rules' = (case act of None \<Rightarrow> rules | Some a \<Rightarrow> setActive i a rules)"
    by (auto simp: updateTaxRule_def res_simps dest!: findRule_Inr split: option.splits if_splits)
  show ?thesis
  proof (cases act)
    case None
    then show ?thesis using r assms(2) by simp
  next
    case (Some a)
    have id: "distinct (map tr_id rules)" and tr: "js_trim (tr_name rule) = tr_name rule"
      using assms(2) rule by (auto simp: rules_ok_def list_all_iff rule_shape_def)
    have "rules_ok ci (setActive i a rules)"
    proof (rule rules_ok_setActive[OF assms(2) sym])
      fix r0 s assume h: "a" "r0 \<in> set rules" "tr_id r0 = i" "s \<in> set rules" "tr_id s \<noteq> i" "tr_branch s = tr_branch r0" "tr_isActive s"
      then have "r0 = rule" using rules_unique_id[OF id h(2) rule(1)] rule(2) by simp
      show "\<not> ci (tr_name s) (tr_name r0)"
      proof (cases "tr_isActive rule")
        case True
        then have "\<not> clash ci s rule" using assms(2) h rule unfolding rules_ok_def by metis
        then show ?thesis using True h \<open>r0 = rule\<close> by (simp add: clash_def)
      next
        case False
        from n[unfolded Some] False h(1) have "assertNameFree ci rules (tr_branch rule) (tr_name rule) (Some i) = Inr ()" by simp
        then have "ci (tr_name s) (js_trim (tr_name rule)) \<Longrightarrow> Some i = Some (tr_id s)"
          using h \<open>r0 = rule\<close> unfolding assertNameFree_Inr by blast
        then show ?thesis using h(5) tr \<open>r0 = rule\<close> by auto
      qed
    qed
    then show ?thesis using r Some by simp
  qed
next
  case (replaced dto i user)
  then show ?thesis using rules_ok_replace[OF assms(2)] sym by blast
qed

section \<open>Accuracy\<close>

text \<open>The amount a price has before any tax, in exact arithmetic.\<close>

definition exactBase :: "tax_rule list \<Rightarrow> rat \<Rightarrow> int \<Rightarrow> rat" where
  "exactBase rs price units = (price - includedFixed units rs) / (1 + includedRate rs)"

definition taxFor :: "priced_charge \<Rightarrow> nat \<Rightarrow> rat" where
  "taxFor pc i = sumTaxes (filter (\<lambda>t. cx_ruleId t = i) (pc_taxes pc))"

lemma sumTaxes_drop_zero: "sumTaxes (filter P (filter (\<lambda>t. cx_taxAmount t \<noteq> 0) ts)) = sumTaxes (filter P ts)"
  by (induction ts) (auto simp: sumTaxes_def)

lemma sumTaxes_of_rule:
  assumes "distinct (map tr_id rs)" and "r \<in> set rs"
  shows "sumTaxes (filter (\<lambda>t. cx_ruleId t = tr_id r) (map (taxOf D u base) rs)) = cx_taxAmount (taxOf D u base r)"
  using assms
proof (induction rs)
  case (Cons x xs)
  show ?case
  proof (cases "tr_id x = tr_id r")
    case True
    then have "x = r" and "\<forall>y \<in> set xs. tr_id y \<noteq> tr_id r" using Cons.prems by (auto simp: rev_image_eqI)
    then show ?thesis by (simp add: sumTaxes_def taxOf_def filter_empty_conv filter_map comp_def)
  next
    case False
    then show ?thesis using Cons by (auto simp: sumTaxes_def taxOf_def)
  qed
qed simp

lemma rulesFor_sub: "set (rulesFor rules b ct) \<subseteq> set rules"
  by (auto simp: rulesFor_def)

lemma rulesFor_distinct: "distinct (map tr_id rules) \<Longrightarrow> distinct (map tr_id (rulesFor rules b ct))"
proof -
  assume "distinct (map tr_id rules)"
  then have "distinct (map tr_id (filter (\<lambda>r. tr_branch r = b \<and> tr_isActive r) rules))" by (rule distinct_map_filter)
  then have "distinct (map tr_id (sort_key tr_name (filter (\<lambda>r. tr_branch r = b \<and> tr_isActive r) rules)))"
    by (simp add: distinct_map)
  then show ?thesis unfolding rulesFor_def by (rule distinct_map_filter)
qed

lemma includedRate_nonneg:
  assumes "list_all rule_shape rules"
  shows "0 \<le> includedRate (rulesFor rules b ct)"
  unfolding includedRate_def
proof (rule sum_list_nonneg_mem)
  fix r assume "r \<in> set (filter (\<lambda>r. \<not> isFixed r) (filter tr_inclusive (rulesFor rules b ct)))"
  then have "rule_shape r" using assms rulesFor_sub[of rules b ct] by (auto simp: list_all_iff)
  then show "0 \<le> tr_rate r" by (auto simp: rule_shape_def split: if_splits)
qed

lemma includedFixed_nonneg:
  assumes "list_all rule_shape rules" and "0 \<le> u"
  shows "0 \<le> includedFixed u (rulesFor rules b ct)"
  unfolding includedFixed_def
proof (rule sum_list_nonneg_mem)
  fix r assume "r \<in> set (filter isFixed (filter tr_inclusive (rulesFor rules b ct)))"
  then have "rule_shape r" using assms rulesFor_sub[of rules b ct] by (auto simp: list_all_iff)
  then show "0 \<le> fixedFor u r" using assms(2)
    by (auto simp: rule_shape_def fixedFor_def split: if_splits option.splits)
qed

lemma priceCharge_taxFor:
  assumes "priceCharge D rules b ct p u = Inr pc" and "0 < p" and "ct \<notin> NEVER_TAXED"
    and "distinct (map tr_id rules)" and "r \<in> set (rulesFor rules b ct)"
  defines "base \<equiv> d_div D (p - includedFixed u (rulesFor rules b ct)) (1 + includedRate (rulesFor rules b ct))"
  shows "0 < base" and "taxFor pc (tr_id r) = cx_taxAmount (taxOf D u base r)"
proof -
  have ne: "rulesFor rules b ct \<noteq> []" using assms(5) by auto
  with assms(1-3) show "0 < base" by (auto simp: priceCharge_def Let_def base_def split: if_splits)
  with assms(1-3) ne have "pc_taxes pc = filter (\<lambda>t. cx_taxAmount t \<noteq> 0) (map (taxOf D u base) (rulesFor rules b ct))"
    by (auto simp: priceCharge_def Let_def base_def)
  then show "taxFor pc (tr_id r) = cx_taxAmount (taxOf D u base r)"
    using sumTaxes_of_rule[OF rulesFor_distinct[OF assms(4)] assms(5)] by (simp only: taxFor_def sumTaxes_drop_zero)
qed

context decimal_arith
begin

lemma percent_error:
  assumes "0 < d_div D a c" and "0 < c" and "0 \<le> r" and "r \<le> 1" and "a / c < 10 ^ 12"
  shows "\<bar>d_dp2 D (d_mul D (d_div D a c) r) - r * (a / c)\<bar> \<le> 1 / 200 + 1 / 10 ^ 6"
proof -
  define q d where "q = a / c" and "d = d_div D a c"
  have e1: "\<bar>d - q\<bar> \<le> \<bar>q\<bar> / 10 ^ 19" using div_err[of c a] assms(2) by (simp add: q_def d_def)
  have "0 < q"
  proof (rule ccontr)
    assume "\<not> 0 < q"
    moreover have "\<bar>q\<bar> / 10 ^ 19 \<le> \<bar>q\<bar>" by (simp add: divide_le_eq)
    ultimately have "d \<le> 0" using e1 by linarith
    with assms(1) show False by (simp add: d_def)
  qed
  with e1 have q: "0 < q" "\<bar>d - q\<bar> \<le> q / 10 ^ 19" by simp_all
  have "q < 10 ^ 12" using assms(5) by (simp only: q_def)
  then have small: "q / 10 ^ 19 \<le> 1 / 10 ^ 7" by (simp add: divide_le_eq)
  have "d \<le> q + 1 / 10 ^ 7" using q(2) small by linarith
  moreover have "(1 :: rat) / 10 ^ 7 \<le> 1" by simp
  ultimately have "d < 10 ^ 12 + 1" using \<open>q < 10 ^ 12\<close> by linarith
  then have d: "0 < d" "d / 10 ^ 19 \<le> 2 / 10 ^ 7" using assms(1) by (simp_all add: d_def divide_le_eq)
  have dr: "0 \<le> d * r" "d * r \<le> d" using d(1) assms(3,4) by (simp_all add: mult_left_le)
  have "\<bar>d_mul D d r - d * r\<bar> \<le> \<bar>d * r\<bar> / 10 ^ 19" by (rule mul_err)
  also have "\<dots> \<le> d / 10 ^ 19" using dr by (intro divide_right_mono) simp_all
  finally have e2: "\<bar>d_mul D d r - d * r\<bar> \<le> 2 / 10 ^ 7" using d(2) by linarith
  have "d * r - r * q = (d - q) * r" by (simp add: algebra_simps)
  then have "\<bar>d * r - r * q\<bar> \<le> \<bar>d - q\<bar>" using assms(3,4) by (simp add: abs_mult mult_left_le)
  with q(2) small have e3: "\<bar>d * r - r * q\<bar> \<le> 1 / 10 ^ 7" by linarith
  have "(2 :: rat) / 10 ^ 7 + 1 / 10 ^ 7 \<le> 1 / 10 ^ 6" by simp
  then show ?thesis unfolding q_def[symmetric] d_def[symmetric]
    using dp2_half[of "d_mul D d r"] e2 e3 by linarith
qed

end

section \<open>Properties\<close>

text \<open>
  The lines a priced charge posts add up, to the cent and whatever the rules: the net
  amount and the tax lines make the total, the net and the included taxes make the price as
  quoted, the total is the price plus the added taxes, and no tax line is zero.
\<close>

theorem price_adds_up:
  assumes "priceCharge D rules b ct p u = Inr pc"
  shows "pc_net pc + sumTaxes (pc_taxes pc) = pc_total pc \<and>
     pc_net pc + sumTaxes (filter cx_inclusive (pc_taxes pc)) = p \<and>
     pc_total pc = p + sumTaxes (filter (\<lambda>t. \<not> cx_inclusive t) (pc_taxes pc)) \<and>
     pc_taxTotal pc = sumTaxes (pc_taxes pc) \<and> list_all (\<lambda>t. cx_taxAmount t \<noteq> 0) (pc_taxes pc)"
  using te.lines_add_up[OF assms] te.net_included[OF assms] te.total_added[OF assms] te.tax_total[OF assms]
    te.no_zero[OF assms] by (simp add: list_all_iff)

text \<open>A VAT of 7.5 percent included, a service charge of 10 percent on top, a city tax of 500 a charge.\<close>

definition ex_rules :: "tax_rule list" where
  "ex_rules =
     [\<lparr>tr_id = 1, tr_branch = 3, tr_name = ''VAT'', tr_rate = 3 / 40, tr_type = Percentage, tr_fixedAmount = None,
       tr_inclusive = True, tr_appliesTo = [], tr_jurisdiction = None, tr_isActive = True\<rparr>,
      \<lparr>tr_id = 2, tr_branch = 3, tr_name = ''Service'', tr_rate = 1 / 10, tr_type = Percentage, tr_fixedAmount = None,
       tr_inclusive = False, tr_appliesTo = [Room, Fnb], tr_jurisdiction = None, tr_isActive = True\<rparr>,
      \<lparr>tr_id = 3, tr_branch = 3, tr_name = ''City'', tr_rate = 0, tr_type = FixedAmount, tr_fixedAmount = Some 500,
       tr_inclusive = False, tr_appliesTo = [Room], tr_jurisdiction = None, tr_isActive = True\<rparr>]"

definition ex_priced :: priced_charge where
  "ex_priced = \<lparr>pc_price = 20000, pc_net = 1860465 / 100,
     pc_taxes = [\<lparr>cx_ruleId = 3, cx_inclusive = False, cx_taxAmount = 500\<rparr>,
       \<lparr>cx_ruleId = 2, cx_inclusive = False, cx_taxAmount = 186047 / 100\<rparr>,
       \<lparr>cx_ruleId = 1, cx_inclusive = True, cx_taxAmount = 139535 / 100\<rparr>],
     pc_taxTotal = 375582 / 100, pc_includedTax = 139535 / 100, pc_addedTax = 236047 / 100, pc_total = 2236047 / 100\<rparr>"

lemma ex_priced_eq: "priceCharge decimal_js ex_rules 3 Room 20000 1 = Inr ex_priced"
  by code_simp

theorem price_adds_up_witness:
  "priceCharge decimal_js ex_rules 3 Room 20000 1 = Inr ex_priced \<and>
   pc_net ex_priced + sumTaxes (pc_taxes ex_priced) = pc_total ex_priced"
  using price_adds_up[OF ex_priced_eq] ex_priced_eq by blast

text \<open>
  C30. Every rule charges what it says. Of a price below 10 to the 12th, a percentage rule's tax is
  within half a cent (and a millionth, for the library's division) of its rate times the
  price net of all included taxes, the same base for an included rule as for an added one;
  a fixed rule's tax is its amount once per charge, exactly.
\<close>

theorem tax_accuracy:
  assumes "decimal_arith D" and "rules_ok ci rules" and "priceCharge D rules b ct p u = Inr pc"
    and "0 < p" and "p < 10 ^ 12" and "0 \<le> u" and "ct \<notin> NEVER_TAXED" and "r \<in> set (rulesFor rules b ct)"
  shows "if isFixed r then taxFor pc (tr_id r) = fixedFor u r
     else \<bar>taxFor pc (tr_id r) - tr_rate r * exactBase (rulesFor rules b ct) p u\<bar> \<le> 1 / 200 + 1 / 10 ^ 6"
proof -
  let ?rs = "rulesFor rules b ct"
  have ok: "list_all rule_shape rules" "distinct (map tr_id rules)" using assms(2) by (auto simp: rules_ok_def)
  note t = priceCharge_taxFor[OF assms(3,4,7) ok(2) assms(8)]
  have sh: "rule_shape r" using ok(1) assms(8) rulesFor_sub[of rules b ct] by (auto simp: list_all_iff)
  show ?thesis
  proof (cases "isFixed r")
    case True
    with sh have "is_money (fixedFor u r)"
      by (auto simp: rule_shape_def isFixed_def fixedFor_def intro: is_money_mult_int split: if_splits)
    with True t(2) show ?thesis by (simp add: taxOf_def decimal_arith.dp2_id[OF assms(1)])
  next
    case False
    with sh have r: "0 \<le> tr_rate r" "tr_rate r \<le> 1" by (auto simp: rule_shape_def split: if_splits)
    note R = includedRate_nonneg[OF ok(1), of b ct] and F = includedFixed_nonneg[OF ok(1) assms(6), of b ct]
    have "p - includedFixed u ?rs < 10 ^ 12 * (1 + includedRate ?rs)"
      using assms(5) F R by (simp add: algebra_simps)
    then have "(p - includedFixed u ?rs) / (1 + includedRate ?rs) < 10 ^ 12" using R by (simp add: pos_divide_less_eq)
    with False t r R show ?thesis
      using decimal_arith.percent_error[OF assms(1) t(1) _ r] by (simp add: taxOf_def exactBase_def)
  qed
qed

theorem tax_accuracy_witness:
  "\<bar>taxFor ex_priced 2 - 1 / 10 * exactBase (rulesFor ex_rules 3 Room) 20000 1\<bar> \<le> 1 / 200 + 1 / 10 ^ 6"
proof -
  let ?r = "ex_rules ! 1"
  have ok: "rules_ok (=) ex_rules" by code_simp
  have m: "?r \<in> set (rulesFor ex_rules 3 Room)" by code_simp
  have "if isFixed ?r then taxFor ex_priced (tr_id ?r) = fixedFor 1 ?r
     else \<bar>taxFor ex_priced (tr_id ?r) - tr_rate ?r * exactBase (rulesFor ex_rules 3 Room) 20000 1\<bar> \<le> 1 / 200 + 1 / 10 ^ 6"
    by (rule tax_accuracy[OF js.decimal_arith_axioms ok ex_priced_eq _ _ _ _ m]) (simp_all add: NEVER_TAXED_def)
  then show ?thesis by (simp add: ex_rules_def isFixed_def)
qed

text \<open>
  C31. A branch's taxes stay in order: whatever is created, retired, reinstated or replaced,
  every rule keeps the one shape of its kind, ids stay unique, no two active rules of a
  branch have the same name, and no rule is ever deleted.
\<close>

theorem tax_rules_invariant:
  assumes "tax_step ci rules rules'" and "rules_ok ci rules" and "\<And>x y. ci x y \<Longrightarrow> ci y x"
  shows "rules_ok ci rules' \<and> set (map tr_id rules) \<subseteq> set (map tr_id rules')"
proof
  show "rules_ok ci rules'" by (rule tax_step_rules_ok[OF assms])
  show "set (map tr_id rules) \<subseteq> set (map tr_id rules')"
    using assms(1)
  proof (cases rule: tax_step.cases)
    case (created dto ex b)
    then show ?thesis by (auto simp: createTaxRule_def res_simps split: if_splits)
  next
    case (updated i act actor)
    then obtain a where "rules' = rules \<or> rules' = setActive i a rules"
      by (auto simp: updateTaxRule_def res_simps split: option.splits)
    then show ?thesis using setActive_ids[of i a rules] by (metis order_refl)
  next
    case (replaced dto i user)
    then show ?thesis by (elim replaceTaxRule_Inr) (metis Un_upper1 map_append set_append setActive_ids)
  qed
qed

definition ex_tax_dto :: tax_rule_dto where
  "ex_tax_dto = \<lparr>td_name = '' VAT '', td_type = None, td_rate = Some (1 / 10), td_fixedAmount = None, td_inclusive = Some True,
     td_appliesTo = None, td_jurisdiction = None\<rparr>"

definition ex_owner :: jwt where
  "ex_owner = \<lparr>jw_sub = 1, jw_tenant = 1, jw_roles = [\<lparr>ra_branch = None, ra_role = ''owner''\<rparr>], jw_apiKey = None\<rparr>"

definition ex_replaced :: "tax_rule list" where
  "ex_replaced = setActive 1 False ex_rules @
     [\<lparr>tr_id = 4, tr_branch = 3, tr_name = ''VAT'', tr_rate = 1 / 10, tr_type = Percentage, tr_fixedAmount = None,
       tr_inclusive = True, tr_appliesTo = [], tr_jurisdiction = None, tr_isActive = True\<rparr>]"

lemma ex_replaced_eq: "replaceTaxRule (=) 1 ex_tax_dto ex_owner ex_rules = Inr ex_replaced"
  by code_simp

theorem tax_rules_invariant_witness:
  "rules_ok (=) ex_replaced \<and> set (map tr_id ex_rules) \<subseteq> set (map tr_id ex_replaced)"
proof (rule tax_rules_invariant)
  have "tax_dto_valid ex_tax_dto" by code_simp
  then show "tax_step (=) ex_rules ex_replaced" using ex_replaced_eq by (rule tax_step.replaced)
  show "rules_ok (=) ex_rules" by code_simp
qed simp

text \<open>
  Replacing a rule never leaves a moment with none. In the one step, the old rule (which
  was active) stays in the table, retired and otherwise untouched, for the bills that point
  at it; exactly one active rule of the new name joins, at the same branch; every other rule
  is as it was; and only somebody who answers for that branch's books gets that far.
\<close>

theorem replace_tax_rule:
  assumes "replaceTaxRule ci i dto user rules = Inr rules'" and "rules_ok ci rules" and "tax_dto_valid dto"
  shows "\<exists>old new. old \<in> set rules \<and> tr_id old = i \<and> tr_isActive old \<and>
     tr_isActive new \<and> tr_branch new = tr_branch old \<and> tr_name new = js_trim (td_name dto) \<and>
     tr_id new \<notin> set (map tr_id rules) \<and>
     set rules' = insert new (insert (old\<lparr>tr_isActive := False\<rparr>) (set rules - {old})) \<and>
     hasRoleAtBranch user (tr_branch old) TAX_ADMIN_ROLES"
  using assms(1)
proof (cases rule: replaceTaxRule_Inr)
  case (1 old shape)
  have id: "distinct (map tr_id rules)" using assms(2) by (simp add: rules_ok_def)
  let ?new = "shape (fresh_rule rules) (tr_branch old)"
  note sh = assertShape_Inr[OF 1(4) assms(3), of "fresh_rule rules" "tr_branch old"]
  have "set (setActive i False rules) = insert (old\<lparr>tr_isActive := False\<rparr>) (set rules - {old})"
  proof (rule set_eqI)
    fix r
    have e: "r0 \<in> set rules \<and> tr_id r0 = i \<longleftrightarrow> r0 = old" for r0 using rules_unique_id[OF id 1(1), of r0] 1(1,2) by metis
    then have "(\<exists>r0 \<in> set rules. tr_id r0 = i \<and> r = r0\<lparr>tr_isActive := False\<rparr>) \<longleftrightarrow> r = old\<lparr>tr_isActive := False\<rparr>" by metis
    with e[of r] show "r \<in> set (setActive i False rules) \<longleftrightarrow> r \<in> insert (old\<lparr>tr_isActive := False\<rparr>) (set rules - {old})"
      unfolding mem_setActive insert_iff Diff_iff empty_iff by metis
  qed
  then have "set rules' = insert ?new (insert (old\<lparr>tr_isActive := False\<rparr>) (set rules - {old}))"
    unfolding 1(5) by simp
  moreover have "tr_id ?new \<notin> set (map tr_id rules)" using fresh_rule_new[of rules] sh(2) by simp
  ultimately show ?thesis using 1 sh by (intro exI[of _ old] exI[of _ ?new] conjI)
qed

theorem replace_tax_rule_witness:
  "\<exists>old new. old \<in> set ex_rules \<and> tr_id old = 1 \<and> tr_isActive old \<and>
     tr_isActive new \<and> tr_branch new = tr_branch old \<and> tr_name new = js_trim (td_name ex_tax_dto) \<and>
     tr_id new \<notin> set (map tr_id ex_rules) \<and>
     set ex_replaced = insert new (insert (old\<lparr>tr_isActive := False\<rparr>) (set ex_rules - {old})) \<and>
     hasRoleAtBranch ex_owner (tr_branch old) TAX_ADMIN_ROLES"
proof (rule replace_tax_rule[OF ex_replaced_eq])
  show "rules_ok (=) ex_rules" by code_simp
  show "tax_dto_valid ex_tax_dto" by code_simp
qed

end
