(* ===== verification/Store.thy ===== *)
theory Store
  imports Policies Taxes
begin

text \<open>
  The tables the money handlers work on (\<^verbatim>\<open>src/prisma/schema.prisma\<close>), as one tenant sees
  them: the bills, their lines and payments, transfers, refunds, drawers, the stays they
  belong to, the outlets with their menus and sales, and the loyalty ledger. A row is a record; a table is the list of its rows in
  the order they were written; a database is \<open>db\<close>.

  Row ids are drawn from one counter, \<open>db_next\<close>. A write that breaks a constraint of the
  schema fails the way the database fails it: \<open>insert_line\<close> refuses a zero amount
  (\<^verbatim>\<open>CHECK (amount <> 0)\<close>) and a second correction of one line (the unique index on
  \<^verbatim>\<open>correctsLineItemId\<close>); an amount is stored rounded to the column's two decimals. Amounts too large
  for a \<^verbatim>\<open>NUMERIC(12,2)\<close> column are not modelled. \<^verbatim>\<open>deletedAt\<close> is kept as a flag.
\<close>

section \<open>Rows\<close>

datatype folio_status = Pending | Open | Settled | Disputed
datatype payment_method = Cash | Card | Bank_transfer | Voucher | Loyalty_points
datatype payment_purpose = PurposePayment | PurposeDeposit | PurposeDepositApplication
datatype refund_status = RefundPending | RefundApproved | RefundRejected | RefundProcessed
datatype package_basis = Per_night | Per_stay | Per_person_per_night
datatype shift_type = Morning | Evening | Night
datatype issue_priority = Low | Medium | High | Urgent
datatype issue_status = IssueOpen | IssueResolved | IssueCarriedOver
datatype outlet_category = Restaurant | Bar | SpaOutlet | LaundryOutlet | Retail | Room_service
datatype pos_settlement = ToRoom | ByCash | ByCard | BySplit
datatype modifier_selection = SingleChoice | MultiChoice
datatype reservation_channel = Direct | Website | Walk_in | Booking_com | Expedia | Agoda | Airbnb
datatype loyalty_tx_type = Earn | Redeem | Adjust | Expire | Reversal

record branch =
  br_id :: nat
  br_currency :: string
  br_timezone :: string
  br_rates :: "(string \<times> rat) list"
  br_varianceThreshold :: "rat option"
  br_checkInTime :: instant
  br_checkOutTime :: instant
  br_policies :: "json option"
  br_noShowPolicy :: "json option"
  br_cancellationPolicy :: "json option"
  br_depositPolicy :: "json option"
  br_stayFeePolicy :: "json option"
  br_dayUsePolicy :: "json option"
  br_turndownPolicy :: "json option"
  br_deleted :: bool

record folio =
  fo_id :: nat
  fo_branch :: nat
  fo_reservation :: "nat option"
  fo_guest :: nat
  fo_label :: "string option"
  fo_payer :: "string option"
  fo_corporate :: "nat option"
  fo_status :: folio_status
  fo_openedAt :: "instant option"
  fo_closedAt :: "instant option"
  fo_deleted :: bool

record line_item =
  li_id :: nat
  li_folio :: nat
  li_amount :: rat
  li_taxAmount :: rat
  li_chargeType :: charge_type
  li_taxRuleIds :: "nat list"
  li_serviceDate :: instant
  li_outlet :: "nat option"
  li_stay :: "nat option"
  li_roomType :: "nat option"
  li_package :: "nat option"
  li_dayUse :: bool
  li_parent :: "nat option"
  li_corrects :: "nat option"
  li_isVoid :: bool
  li_deleted :: bool
  li_postedBy :: "nat option"

record payment =
  pa_id :: nat
  pa_folio :: nat
  pa_method :: payment_method
  pa_amount :: rat
  pa_currency :: string
  pa_foreign :: "(string \<times> rat \<times> rat) option"
  pa_shift :: "nat option"
  pa_purpose :: payment_purpose
  pa_recordedBy :: "nat option"
  pa_isVoid :: bool
  pa_voidedBy :: "nat option"
  pa_deleted :: bool

record folio_transfer =
  ft_id :: nat
  ft_source :: nat
  ft_target :: nat
  ft_lines :: "nat list"
  ft_amount :: rat
  ft_approvedBy :: "nat option"
  ft_createdAt :: instant
  ft_reversedAt :: "instant option"
  ft_reversedBy :: "nat option"

record refund =
  rf_id :: nat
  rf_folio :: nat
  rf_payment :: "nat option"
  rf_amount :: rat
  rf_status :: refund_status
  rf_method :: payment_method
  rf_requestedBy :: "nat option"
  rf_approvedBy :: "nat option"
  rf_processedBy :: "nat option"
  rf_refundPayment :: "nat option"

record shift =
  sh_id :: nat
  sh_branch :: nat
  sh_agent :: nat
  sh_type :: shift_type
  sh_openedAt :: instant
  sh_closedAt :: "instant option"
  sh_openingFloat :: "rat option"
  sh_systemCashTotal :: "rat option"
  sh_closingCashCounted :: "rat option"
  sh_variance :: "rat option"
  sh_foreignCash :: "(string \<times> rat) list option"
  sh_explanation :: "string option"
  sh_handoverNotes :: "string option"

record shift_issue =
  is_id :: nat
  is_shift :: nat
  is_description :: string
  is_priority :: issue_priority
  is_status :: issue_status
  is_resolution :: "string option"
  is_resolvedBy :: "nat option"
  is_resolvedAt :: "instant option"

record outlet =
  ou_id :: nat
  ou_branch :: nat
  ou_name :: string
  ou_category :: outlet_category
  ou_chargeType :: charge_type
  ou_isActive :: bool
  ou_sortOrder :: "int option"
  ou_discountLimit :: "rat option"

record modifier_group =
  mg_name :: string
  mg_selection :: modifier_selection
  mg_required :: bool
  mg_options :: "(string \<times> rat) list"

record menu_item =
  mn_id :: nat
  mn_branch :: nat
  mn_outlet :: nat
  mn_name :: string
  mn_category :: string
  mn_price :: rat
  mn_isAvailable :: bool
  mn_modifiers :: "modifier_group list"
  mn_sortOrder :: "int option"
  mn_deleted :: bool

text \<open>One line of an outlet order, as the sale snapshots it (\<^verbatim>\<open>PricedLine\<close>); its amounts before they are printed.\<close>

record priced_line =
  pl_item :: nat
  pl_name :: string
  pl_qty :: int
  pl_unitPrice :: rat
  pl_modifiers :: "(string \<times> string \<times> rat) list"
  pl_lineTotal :: rat

record pos_order =
  po_id :: nat
  po_branch :: nat
  po_outlet :: nat
  po_orderNo :: nat
  po_settlement :: pos_settlement
  po_items :: "priced_line list"
  po_subtotal :: rat
  po_taxTotal :: rat
  po_total :: rat
  po_discount :: rat
  po_discountReason :: "string option"
  po_cashAmount :: rat
  po_cardAmount :: rat
  po_reservation :: "nat option"
  po_folio :: "nat option"
  po_lineItem :: "nat option"
  po_shift :: "nat option"
  po_createdBy :: "nat option"
  po_createdAt :: instant
  po_voidedAt :: "instant option"
  po_voidedBy :: "nat option"

text \<open>
  A package as a stay holds it (\<^verbatim>\<open>PackageSnapshot\<close>), as \<^verbatim>\<open>parsePackageSnapshots\<close> lets it
  through; \<open>pk_price\<close> is the stored text.
\<close>

record package_snapshot =
  pk_packageId :: nat
  pk_price :: string
  pk_basis :: package_basis
  pk_chargeType :: charge_type
  pk_addedOn :: "day option"

record reservation =
  re_id :: nat
  re_branch :: nat
  re_guest :: nat
  re_roomType :: nat
  re_room :: "nat option"
  re_status :: reservation_status
  re_checkInDate :: instant
  re_checkOutDate :: instant
  re_confirmedRate :: rat
  re_overrideRate :: "rat option"
  re_nightlyRates :: nightly_json
  re_isDayUse :: bool
  re_packages :: "package_snapshot list"
  re_adults :: int
  re_children :: int
  re_billToFolio :: "nat option"
  re_confirmation :: string
  re_channel :: reservation_channel
  re_ratePlan :: "nat option"
  re_overrideReason :: "string option"
  re_groupBlock :: "nat option"
  re_corporate :: "nat option"
  re_promoCode :: "string option"
  re_depositAmount :: "rat option"
  re_depositDueDate :: "instant option"
  re_cancellationPolicy :: "json option"
  re_actualCheckIn :: "instant option"
  re_actualCheckOut :: "instant option"
  re_createdBy :: "nat option"
  re_deleted :: bool

record room_type =
  rt_id :: nat
  rt_branch :: nat
  rt_name :: string
  rt_baseRate :: rat
  rt_capacityAdults :: int
  rt_capacityChildren :: int
  rt_adultsIncluded :: "int option"
  rt_extraAdultRate :: "rat option"
  rt_childrenIncluded :: int
  rt_childRate :: "rat option"
  rt_dayUseRate :: "rat option"
  rt_deleted :: bool

record guest_profile =
  gu_id :: nat
  gu_name :: string
  gu_email :: "string option"
  gu_phone :: "string option"
  gu_phoneDigits :: "string option"
  gu_vipLevel :: "int option"
  gu_points :: int
  gu_tier :: "string option"
  gu_enrolledAt :: "instant option"
  gu_deleted :: bool

record loyalty_transaction =
  lt_id :: nat
  lt_guest :: nat
  lt_branch :: "nat option"
  lt_type :: loyalty_tx_type
  lt_points :: int
  lt_earnReservation :: "nat option"
  lt_payment :: "nat option"
  lt_expiresAt :: "instant option"
  lt_createdBy :: "nat option"

record loyalty_tier =
  tier_name :: string
  tier_threshold :: int
  tier_benefits :: "string list"

record loyalty_program =
  pg_isActive :: bool
  pg_currency :: string
  pg_pointsPerUnit :: rat
  pg_pointValue :: rat
  pg_tiers :: "loyalty_tier list"
  pg_expireMonths :: "nat option"

record corporate_account =
  ca_id :: nat
  ca_isActive :: bool
  ca_ratePlan :: "nat option"

record audit_entry =
  au_branch :: "nat option"
  au_user :: "nat option"
  au_action :: string
  au_entity :: nat

record db =
  db_next :: nat
  db_branches :: "branch list"
  db_folios :: "folio list"
  db_lines :: "line_item list"
  db_payments :: "payment list"
  db_transfers :: "folio_transfer list"
  db_refunds :: "refund list"
  db_shifts :: "shift list"
  db_issues :: "shift_issue list"
  db_outlets :: "outlet list"
  db_menuItems :: "menu_item list"
  db_userOutlets :: "(nat \<times> nat) list"
  db_posOrders :: "pos_order list"
  db_reservations :: "reservation list"
  db_roomTypes :: "room_type list"
  db_taxRules :: "tax_rule list"
  db_corporate :: "corporate_account list"
  db_guests :: "guest_profile list"
  db_loyalty :: "loyalty_transaction list"
  db_program :: "loyalty_program option"
  db_audit :: "audit_entry list"
  db_webhooks :: "(string \<times> nat) list"

section \<open>Rows in force\<close>

definition live_line :: "line_item \<Rightarrow> bool" where
  "live_line i \<longleftrightarrow> \<not> li_isVoid i \<and> \<not> li_deleted i"

definition live_payment :: "payment \<Rightarrow> bool" where
  "live_payment p \<longleftrightarrow> \<not> pa_isVoid p \<and> \<not> pa_deleted p"

definition linesOf :: "db \<Rightarrow> nat \<Rightarrow> line_item list" where
  "linesOf d f = filter (\<lambda>i. li_folio i = f \<and> live_line i) (db_lines d)"

definition paymentsOf :: "db \<Rightarrow> nat \<Rightarrow> payment list" where
  "paymentsOf d f = filter (\<lambda>p. pa_folio p = f \<and> live_payment p) (db_payments d)"

section \<open>Writes\<close>

text \<open>A value stored in a \<^verbatim>\<open>NUMERIC(12,2)\<close> column: rounded to two decimals, halves away from zero.\<close>

definition num2 :: "rat \<Rightarrow> rat" where
  "num2 = half_up2"

lemma num2_money [simp]: "is_money x \<Longrightarrow> num2 x = x"
  unfolding num2_def by (rule money_eq_of_near[OF _ half_up2_money half_up2_half])

lemma is_money_num2 [simp]: "is_money (num2 x)"
  unfolding num2_def by (rule half_up2_money)

text \<open>A line as the code passes it to \<^verbatim>\<open>lineItem.create\<close>; everything not named has its column's default.\<close>

definition blank_line :: line_item where
  "blank_line = \<lparr>li_id = 0, li_folio = 0, li_amount = 0, li_taxAmount = 0, li_chargeType = Misc, li_taxRuleIds = [],
     li_serviceDate = 0, li_outlet = None, li_stay = None, li_roomType = None, li_package = None, li_dayUse = False,
     li_parent = None, li_corrects = None, li_isVoid = False, li_deleted = False, li_postedBy = None\<rparr>"

definition insert_line :: "line_item \<Rightarrow> db \<Rightarrow> (line_item \<times> db) result" where
  "insert_line i d =
     (let row = i\<lparr>li_id := db_next d, li_amount := num2 (li_amount i), li_taxAmount := num2 (li_taxAmount i)\<rparr>
      in if li_amount row = 0 then Inl CheckViolation
      else if li_corrects row \<noteq> None \<and> (\<exists>x \<in> set (db_lines d). li_corrects x = li_corrects row) then Inl UniqueViolation
      else Inr (row, d\<lparr>db_lines := db_lines d @ [row], db_next := Suc (db_next d)\<rparr>))"

definition insert_payment :: "payment \<Rightarrow> db \<Rightarrow> payment \<times> db" where
  "insert_payment p d =
     (let row = p\<lparr>pa_id := db_next d, pa_amount := num2 (pa_amount p)\<rparr>
      in (row, d\<lparr>db_payments := db_payments d @ [row], db_next := Suc (db_next d)\<rparr>))"

definition insert_folio :: "folio \<Rightarrow> db \<Rightarrow> folio \<times> db" where
  "insert_folio f d =
     (let row = f\<lparr>fo_id := db_next d\<rparr> in (row, d\<lparr>db_folios := db_folios d @ [row], db_next := Suc (db_next d)\<rparr>))"

text \<open>\<^verbatim>\<open>audit\<close> of \<^verbatim>\<open>folios.service.ts\<close>: the audit row, and the event of a payment taken.\<close>

definition audit :: "nat \<Rightarrow> nat option \<Rightarrow> string \<Rightarrow> nat \<Rightarrow> db \<Rightarrow> db" where
  "audit branchId userId action entityId d =
     (let d = d\<lparr>db_audit := db_audit d @ [\<lparr>au_branch = Some branchId, au_user = userId, au_action = action, au_entity = entityId\<rparr>]\<rparr>
      in if action = ''payment.recorded''
         then d\<lparr>db_webhooks := db_webhooks d @ [(''payment.received'', entityId)]\<rparr> else d)"

definition set_folio_status :: "nat \<Rightarrow> folio_status \<Rightarrow> instant option \<Rightarrow> db \<Rightarrow> db" where
  "set_folio_status f st closedAt d =
     d\<lparr>db_folios := map (\<lambda>x. if fo_id x = f then x\<lparr>fo_status := st, fo_closedAt := closedAt\<rparr> else x) (db_folios d)\<rparr>"

definition assertBranch :: "db \<Rightarrow> nat \<Rightarrow> branch result" where
  "assertBranch d b =
     (case List.find (\<lambda>x. br_id x = b \<and> \<not> br_deleted x) (db_branches d) of None \<Rightarrow> Inl (NotFound NOT_FOUND) | Some x \<Rightarrow> Inr x)"

section \<open>What a write leaves alone\<close>

lemma audit_sel [row_simps, simp]:
  "db_next (audit b u a e d) = db_next d" "db_branches (audit b u a e d) = db_branches d"
  "db_folios (audit b u a e d) = db_folios d" "db_lines (audit b u a e d) = db_lines d"
  "db_payments (audit b u a e d) = db_payments d" "db_transfers (audit b u a e d) = db_transfers d"
  "db_refunds (audit b u a e d) = db_refunds d" "db_shifts (audit b u a e d) = db_shifts d"
  "db_issues (audit b u a e d) = db_issues d" "db_outlets (audit b u a e d) = db_outlets d"
  "db_menuItems (audit b u a e d) = db_menuItems d" "db_userOutlets (audit b u a e d) = db_userOutlets d"
  "db_posOrders (audit b u a e d) = db_posOrders d" "db_reservations (audit b u a e d) = db_reservations d"
  "db_roomTypes (audit b u a e d) = db_roomTypes d" "db_taxRules (audit b u a e d) = db_taxRules d"
  "db_corporate (audit b u a e d) = db_corporate d" "db_guests (audit b u a e d) = db_guests d"
  "db_loyalty (audit b u a e d) = db_loyalty d" "db_program (audit b u a e d) = db_program d"
  by (simp_all add: audit_def Let_def)

lemma linesOf_audit [simp]: "linesOf (audit b u a e d) f = linesOf d f"
  by (simp add: linesOf_def)

lemma paymentsOf_audit [simp]: "paymentsOf (audit b u a e d) f = paymentsOf d f"
  by (simp add: paymentsOf_def)

lemma insert_line_Inr:
  assumes "insert_line i d = Inr (row, d')"
  shows "row = i\<lparr>li_id := db_next d, li_amount := num2 (li_amount i), li_taxAmount := num2 (li_taxAmount i)\<rparr>"
    and "d' = d\<lparr>db_lines := db_lines d @ [row], db_next := Suc (db_next d)\<rparr>" and "li_amount row \<noteq> 0"
    and "li_corrects row = None \<or> (\<forall>x \<in> set (db_lines d). li_corrects x \<noteq> li_corrects row)"
  using assms by (auto simp: insert_line_def Let_def split: if_splits)

end
