(* ===== verification/Loyalty.thy ===== *)
theory Loyalty
  imports Store
begin

text \<open>
  The loyalty programme's rules (\<^verbatim>\<open>src/src/modules/loyalty/loyalty-rules.ts\<close>) and the points
  ledger (\<^verbatim>\<open>loyalty-ledger.ts\<close>): tiers, what a spend earns, what points are worth, which
  points have lapsed unspent, and the one write that moves a guest's balance and tier with a
  ledger row. The handlers of the programme itself are in the theory \<open>Loyalty_Program\<close>.
\<close>

section \<open>Tiers and rates\<close>

definition sortTiers :: "loyalty_tier list \<Rightarrow> loyalty_tier list" where
  "sortTiers = sort_key tier_threshold"

definition parseTiers :: "loyalty_program option \<Rightarrow> loyalty_tier list" where
  "parseTiers program = (case program of None \<Rightarrow> [] | Some p \<Rightarrow> sortTiers (pg_tiers p))"

definition tierFor :: "loyalty_tier list \<Rightarrow> int \<Rightarrow> loyalty_tier option" where
  "tierFor tiers lifetimePoints = last_opt (filter (\<lambda>t. tier_threshold t \<le> lifetimePoints) (sortTiers tiers))"

definition nextTierFor :: "loyalty_tier list \<Rightarrow> int \<Rightarrow> (string \<times> int) option" where
  "nextTierFor tiers lifetimePoints =
     map_option (\<lambda>t. (tier_name t, tier_threshold t - lifetimePoints))
       (List.find (\<lambda>t. lifetimePoints < tier_threshold t) (sortTiers tiers))"

definition pointsForSpend :: "decimal_lib \<Rightarrow> rat \<Rightarrow> rat \<Rightarrow> int" where
  "pointsForSpend D spend pointsPerUnit = (if \<not> 0 < spend then 0 else \<lfloor>d_mul D spend pointsPerUnit\<rfloor>)"

definition redemptionValue :: "decimal_lib \<Rightarrow> int \<Rightarrow> rat \<Rightarrow> rat" where
  "redemptionValue D points pointValue = d_dp2_down D (d_mul D pointValue (of_int points))"

section \<open>Lapsing\<close>

text \<open>Months on the calendar, as \<^verbatim>\<open>Date.UTC\<close> counts them: the day a year starts on, and the length of its months (January is 0).\<close>

definition dayFromYear :: "int \<Rightarrow> int" where
  "dayFromYear y = 365 * (y - 1970) + (y - 1969) div 4 - (y - 1901) div 100 + (y - 1601) div 400"

definition leapYear :: "int \<Rightarrow> bool" where
  "leapYear y \<longleftrightarrow> y mod 4 = 0 \<and> (y mod 100 \<noteq> 0 \<or> y mod 400 = 0)"

definition monthLength :: "int \<Rightarrow> int \<Rightarrow> int" where
  "monthLength y m = (if m = 1 then (if leapYear y then 29 else 28) else if m \<in> {3, 5, 8, 10} then 30 else 31)"

definition monthStart :: "int \<Rightarrow> int \<Rightarrow> int" where
  "monthStart y m = sum_list (map (monthLength y) [0..m - 1])"

definition yearOfDay :: "day \<Rightarrow> int" where
  "yearOfDay d = (let e = 1970 + (d * 400) div 146097
     in if dayFromYear (e + 1) \<le> d then e + 1 else if dayFromYear e \<le> d then e else e - 1)"

definition monthOfDay :: "day \<Rightarrow> int" where
  "monthOfDay d = (let y = yearOfDay d
     in int (length (filter (\<lambda>m. dayFromYear y + monthStart y m \<le> d) [1..11])))"

definition pointsExpireAt :: "instant \<Rightarrow> nat option \<Rightarrow> instant option" where
  "pointsExpireAt earnedAt months =
     (case months of
        None \<Rightarrow> None
      | Some k \<Rightarrow>
          if k = 0 then None
          else let d = day_key earnedAt; y = yearOfDay d; m = monthOfDay d;
                   dayOfMonth = d - (dayFromYear y + monthStart y m);
                   y' = y + (m + int k) div 12; m' = (m + int k) mod 12;
                   lastDay = monthLength y' m' - 1
               in Some ((dayFromYear y' + monthStart y' m' + min dayOfMonth lastDay) * DAY + earnedAt mod DAY))"

text \<open>A ledger row as the lapse calculation reads it: type, points, when it lapses.\<close>

type_synonym ledger_row = "loyalty_tx_type \<times> int \<times> instant option"

definition spentPoints :: "ledger_row list \<Rightarrow> int" where
  "spentPoints rows = foldl (\<lambda>spent (t, p, _).
     (let spent = (if t = Redeem \<or> t = Expire \<or> (t = Adjust \<and> p < 0) then spent + - p else spent)
      in if t = Reversal then spent - p else spent)) 0 rows"

definition lotsOf :: "ledger_row list \<Rightarrow> (int \<times> instant) list" where
  "lotsOf rows = sort_key snd (List.map_filter (\<lambda>(t, p, e). case e of Some x \<Rightarrow> if t = Earn then Some (p, x) else None | None \<Rightarrow> None) rows)"

fun lapse_loop :: "instant \<Rightarrow> (int \<times> instant) list \<Rightarrow> int \<Rightarrow> int \<Rightarrow> (int \<times> instant) option \<Rightarrow> int \<times> (int \<times> instant) option" where
  "lapse_loop now [] spent due nxt = (due, nxt)"
| "lapse_loop now ((points, on) # lots) spent due nxt =
     (let used = min points spent; spent = spent - used; unspent = points - used
      in if unspent \<le> 0 then lapse_loop now lots spent due nxt
         else if on \<le> now then lapse_loop now lots spent (due + unspent) nxt
         else case nxt of
                None \<Rightarrow> lapse_loop now lots spent due (Some (unspent, on))
              | Some (q, o') \<Rightarrow> lapse_loop now lots spent due (Some (if o' = on then q + unspent else q, o')))"

definition lapsedPoints :: "ledger_row list \<Rightarrow> instant \<Rightarrow> int \<times> (int \<times> instant) option" where
  "lapsedPoints rows now =
     (let (due, nxt) = lapse_loop now (lotsOf rows) (max 0 (spentPoints rows)) 0 None;
          balance = sum_list (map (\<lambda>(_, p, _). p) rows)
      in (max 0 (min due balance), nxt))"

section \<open>The ledger\<close>

record loyalty_entry =
  le_type :: loyalty_tx_type
  le_points :: int
  le_branch :: "nat option"
  le_earnReservation :: "nat option"
  le_payment :: "nat option"
  le_expiresAt :: "instant option"
  le_actor :: "nat option"

definition findLoyaltyGuest :: "db \<Rightarrow> nat \<Rightarrow> guest_profile result" where
  "findLoyaltyGuest d g =
     (case List.find (\<lambda>x. gu_id x = g \<and> \<not> gu_deleted x) (db_guests d) of None \<Rightarrow> Inl (NotFound NOT_FOUND) | Some x \<Rightarrow> Inr x)"

text \<open>\<^verbatim>\<open>lockLoyaltyGuest\<close> takes the row lock first; within one transaction it reads the same row.\<close>

definition lockLoyaltyGuest :: "db \<Rightarrow> nat \<Rightarrow> guest_profile result" where
  "lockLoyaltyGuest d g = findLoyaltyGuest d g"

definition lifetimeLoyaltyPoints :: "db \<Rightarrow> nat \<Rightarrow> int" where
  "lifetimeLoyaltyPoints d g =
     sum_list (map lt_points (filter (\<lambda>t. lt_guest t = g \<and> 0 < lt_points t \<and> (lt_type t = Earn \<or> lt_type t = Adjust)) (db_loyalty d)))"

text \<open>The table's own check: each kind of row has its sign and its link.\<close>

definition loyalty_shape :: "loyalty_transaction \<Rightarrow> bool" where
  "loyalty_shape t \<longleftrightarrow>
     (case lt_type t of
        Earn \<Rightarrow> 0 < lt_points t \<and> lt_earnReservation t \<noteq> None \<and> lt_payment t = None
      | Redeem \<Rightarrow> lt_points t < 0 \<and> lt_payment t \<noteq> None \<and> lt_earnReservation t = None
      | Adjust \<Rightarrow> lt_points t \<noteq> 0 \<and> lt_earnReservation t = None \<and> lt_payment t = None
      | Reversal \<Rightarrow> 0 < lt_points t \<and> lt_earnReservation t = None \<and> lt_payment t = None
      | Expire \<Rightarrow> lt_points t < 0 \<and> lt_earnReservation t = None \<and> lt_payment t = None) \<and>
     (lt_expiresAt t = None \<or> lt_type t = Earn)"

definition insert_loyalty :: "loyalty_transaction \<Rightarrow> db \<Rightarrow> db result" where
  "insert_loyalty t d =
     (let row = t\<lparr>lt_id := db_next d\<rparr>
      in if \<not> loyalty_shape row then Inl CheckViolation
      else if \<exists>x \<in> set (db_loyalty d). lt_earnReservation row \<noteq> None \<and> lt_earnReservation x = lt_earnReservation row \<or>
                lt_payment row \<noteq> None \<and> lt_payment x = lt_payment row then Inl UniqueViolation
      else Inr (d\<lparr>db_loyalty := db_loyalty d @ [row], db_next := Suc (db_next d)\<rparr>))"

text \<open>The position of a tier by name, \<open>-1\<close> when there is none (\<^verbatim>\<open>findIndex\<close>).\<close>

fun tierIndex :: "loyalty_tier list \<Rightarrow> string option \<Rightarrow> int" where
  "tierIndex [] n = - 1"
| "tierIndex (t # ts) n = (if Some (tier_name t) = n then 0 else let i = tierIndex ts n in if i = - 1 then - 1 else i + 1)"

definition applyLoyaltyPoints :: "guest_profile \<Rightarrow> loyalty_entry \<Rightarrow> instant \<Rightarrow> db \<Rightarrow> (loyalty_tier option \<times> db) result" where
  "applyLoyaltyPoints guest entry now d =
     bindr (insert_loyalty \<lparr>lt_id = 0, lt_guest = gu_id guest, lt_branch = le_branch entry, lt_type = le_type entry,
              lt_points = le_points entry, lt_earnReservation = le_earnReservation entry, lt_payment = le_payment entry,
              lt_expiresAt = le_expiresAt entry, lt_createdBy = le_actor entry\<rparr> d) (\<lambda>d.
       let program = db_program d;
           tiers = parseTiers program;
           lifetime = lifetimeLoyaltyPoints d (gu_id guest);
           reached = (if program \<noteq> None then tierFor tiers lifetime else None);
           before = tierIndex tiers (gu_tier guest);
           after = (if reached = None then - 1 else int (length (filter (\<lambda>t. tier_threshold t \<le> lifetime) tiers)) - 1);
           d = d\<lparr>db_guests := map (\<lambda>g. if gu_id g = gu_id guest
                  then g\<lparr>gu_points := gu_points g + le_points entry,
                         gu_tier := (if program \<noteq> None then map_option tier_name reached else gu_tier guest),
                         gu_enrolledAt := Some (the_default now (gu_enrolledAt guest))\<rparr> else g) (db_guests d)\<rparr>
       in Inr (if reached \<noteq> None \<and> before < after then reached else None, d))"

section \<open>Lemmas\<close>

lemma sortTiers_idem [simp]: "sortTiers (sortTiers ts) = sortTiers ts"
  by (simp add: sortTiers_def sort_key_id_if_sorted)

lemma set_sortTiers [simp]: "set (sortTiers ts) = set ts"
  by (simp add: sortTiers_def)

lemma insert_loyalty_Inr:
  assumes "insert_loyalty t d = Inr d'"
  shows "d' = d\<lparr>db_loyalty := db_loyalty d @ [t\<lparr>lt_id := db_next d\<rparr>], db_next := Suc (db_next d)\<rparr>"
    and "loyalty_shape (t\<lparr>lt_id := db_next d\<rparr>)"
    and "\<And>x. x \<in> set (db_loyalty d) \<Longrightarrow> lt_earnReservation t \<noteq> None \<Longrightarrow> lt_earnReservation x \<noteq> lt_earnReservation t"
    and "\<And>x. x \<in> set (db_loyalty d) \<Longrightarrow> lt_payment t \<noteq> None \<Longrightarrow> lt_payment x \<noteq> lt_payment t"
  using assms by (auto simp: insert_loyalty_def Let_def split: if_splits)

text \<open>A member's points are what the ledger says, and no balance is negative.\<close>

definition pointsOf :: "db \<Rightarrow> nat \<Rightarrow> int" where
  "pointsOf d g = sum_list (map lt_points (filter (\<lambda>t. lt_guest t = g) (db_loyalty d)))"

definition loyalty_ok :: "db \<Rightarrow> bool" where
  "loyalty_ok d \<longleftrightarrow> (\<forall>g \<in> set (db_guests d). gu_points g = pointsOf d (gu_id g) \<and> 0 \<le> gu_points g) \<and>
     list_all loyalty_shape (db_loyalty d)"

lemma applyLoyaltyPoints_Inr:
  assumes "applyLoyaltyPoints guest entry now d = Inr (up, d')"
  obtains row upd where "insert_loyalty row d = Inr (d\<lparr>db_loyalty := db_loyalty d @ [row\<lparr>lt_id := db_next d\<rparr>], db_next := Suc (db_next d)\<rparr>)"
    and "lt_guest row = gu_id guest" and "lt_points row = le_points entry" and "lt_type row = le_type entry"
    and "lt_earnReservation row = le_earnReservation entry" and "lt_payment row = le_payment entry"
    and "\<And>g. gu_points (upd g) = gu_points g + le_points entry \<and> gu_id (upd g) = gu_id g \<and> gu_deleted (upd g) = gu_deleted g"
    and "d' = d\<lparr>db_loyalty := db_loyalty d @ [row\<lparr>lt_id := db_next d\<rparr>], db_next := Suc (db_next d),
            db_guests := map (\<lambda>g. if gu_id g = gu_id guest then upd g else g) (db_guests d)\<rparr>"
proof -
  let ?row = "\<lparr>lt_id = 0, lt_guest = gu_id guest, lt_branch = le_branch entry, lt_type = le_type entry,
              lt_points = le_points entry, lt_earnReservation = le_earnReservation entry, lt_payment = le_payment entry,
              lt_expiresAt = le_expiresAt entry, lt_createdBy = le_actor entry\<rparr>"
  from assms obtain e where e: "insert_loyalty ?row d = Inr e" by (auto simp: applyLoyaltyPoints_def res_simps)
  note i = insert_loyalty_Inr(1)[OF e]
  let ?upd = "\<lambda>g. g\<lparr>gu_points := gu_points g + le_points entry,
     gu_tier := (if db_program e \<noteq> None
        then map_option tier_name (tierFor (parseTiers (db_program e)) (lifetimeLoyaltyPoints e (gu_id guest))) else gu_tier guest),
     gu_enrolledAt := Some (the_default now (gu_enrolledAt guest))\<rparr>"
  have "d' = e\<lparr>db_guests := map (\<lambda>g. if gu_id g = gu_id guest then ?upd g else g) (db_guests e)\<rparr>"
    using assms e by (auto simp: applyLoyaltyPoints_def Let_def cong: if_cong)
  with i e show thesis by (intro that[of ?row ?upd]) simp_all
qed

lemma pointsOf_snoc:
  "pointsOf (d\<lparr>db_loyalty := db_loyalty d @ [row], db_next := n, db_guests := gs\<rparr>) g =
     pointsOf d g + (if lt_guest row = g then lt_points row else 0)"
  by (simp add: pointsOf_def)

text \<open>The one write keeps the balance and the ledger together.\<close>

lemma applyLoyaltyPoints_ok:
  assumes "applyLoyaltyPoints guest entry now d = Inr (up, d')" and "loyalty_ok d"
    and "\<And>g. g \<in> set (db_guests d) \<Longrightarrow> gu_id g = gu_id guest \<Longrightarrow> 0 \<le> gu_points g + le_points entry"
  shows "loyalty_ok d'"
  using assms(1)
proof (cases rule: applyLoyaltyPoints_Inr)
  case (1 row upd)
  have sh: "loyalty_shape (row\<lparr>lt_id := db_next d\<rparr>)" by (rule insert_loyalty_Inr(2)[OF 1(1)])
  have pt: "pointsOf d' g = pointsOf d g + (if g = gu_id guest then le_points entry else 0)" for g
    unfolding 1(8) using 1(2,3) by (simp add: pointsOf_def)
  have "gu_points g = pointsOf d' (gu_id g) \<and> 0 \<le> gu_points g" if g: "g \<in> set (db_guests d')" for g
  proof -
    from g obtain g0 where g0: "g0 \<in> set (db_guests d)" "g = (if gu_id g0 = gu_id guest then upd g0 else g0)"
      unfolding 1(8) by auto
    have "gu_points g0 = pointsOf d (gu_id g0) \<and> 0 \<le> gu_points g0" using assms(2) g0(1) unfolding loyalty_ok_def by blast
    then show ?thesis using assms(3)[OF g0(1)] g0(2) 1(7)[of g0] pt[of "gu_id g"] by (auto split: if_splits)
  qed
  moreover have "list_all loyalty_shape (db_loyalty d')" unfolding 1(8) using sh assms(2) by (simp add: loyalty_ok_def)
  ultimately show ?thesis unfolding loyalty_ok_def by blast
qed

text \<open>Every row leaves lifetime points where they were or raises them.\<close>

lemma applyLoyaltyPoints_lifetime:
  assumes "applyLoyaltyPoints guest entry now d = Inr (up, d')"
  shows "lifetimeLoyaltyPoints d g \<le> lifetimeLoyaltyPoints d' g"
    and "g \<noteq> gu_id guest \<or> le_type entry \<notin> {Earn, Adjust} \<Longrightarrow> lifetimeLoyaltyPoints d' g = lifetimeLoyaltyPoints d g"
  using assms
  by (auto elim!: applyLoyaltyPoints_Inr simp: lifetimeLoyaltyPoints_def)

lemma tierFor_None: "tierFor tiers l = None \<longleftrightarrow> (\<forall>t \<in> set tiers. l < tier_threshold t)"
  by (auto simp: tierFor_def last_opt_def filter_empty_conv not_le)

lemma tierFor_Some:
  assumes "tierFor tiers l = Some t"
  shows "t \<in> set tiers" and "tier_threshold t \<le> l"
    and "\<And>u. u \<in> set tiers \<Longrightarrow> tier_threshold u \<le> l \<Longrightarrow> tier_threshold u \<le> tier_threshold t"
proof -
  let ?xs = "filter (\<lambda>t. tier_threshold t \<le> l) (sortTiers tiers)"
  from assms have ne: "?xs \<noteq> []" and t: "t = last ?xs" by (auto simp: tierFor_def last_opt_def split: if_splits)
  then have "t \<in> set ?xs" using last_in_set by blast
  then show "t \<in> set tiers" "tier_threshold t \<le> l" by auto
  fix u assume "u \<in> set tiers" "tier_threshold u \<le> l"
  then have "u \<in> set ?xs" by simp
  moreover have "sorted (map tier_threshold ?xs)" by (simp add: sortTiers_def sorted_filter)
  ultimately show "tier_threshold u \<le> tier_threshold t" unfolding t by (metis sorted_key_last)
qed

lemma lapse_loop_due:
  assumes "sorted (map snd lots)" and "\<forall>l \<in> set lots. 0 \<le> fst l" and "0 \<le> spent"
  shows "fst (lapse_loop now lots spent due nxt) =
     due + max 0 (sum_list (map fst (filter (\<lambda>l. snd l \<le> now) lots)) - spent)"
  using assms
proof (induction lots arbitrary: spent due nxt)
  case (Cons l lots)
  obtain p on where l: "l = (p, on)" by (cases l)
  let ?S = "sum_list (map fst (filter (\<lambda>l. snd l \<le> now) lots))"
  have S: "0 \<le> ?S" using Cons.prems(2) by (intro sum_list_nonneg_mem) auto
  have IH: "fst (lapse_loop now lots (spent - min p spent) due' nxt') = due' + max 0 (?S - (spent - min p spent))" for due' nxt'
    using Cons.prems by (intro Cons.IH) auto
  show ?case
  proof (cases "on \<le> now")
    case True
    show ?thesis
    proof (cases "p \<le> spent")
      case le: True
      then show ?thesis using True IH[of due nxt] S by (simp add: l Let_def)
    next
      case gt: False
      then have "max 0 (?S - (spent - min p spent)) = ?S" using S by simp
      then show ?thesis using True gt IH[of "due + (p - spent)" nxt] S by (simp add: l Let_def)
    qed
  next
    case False
    then have "\<forall>x \<in> set lots. \<not> snd x \<le> now" using Cons.prems(1) by (fastforce simp: l)
    then have S0: "?S = 0" by (simp add: filter_False)
    show ?thesis using False IH S0 Cons.prems(2,3)
      by (simp add: l Let_def split: option.splits prod.splits) (auto simp: min_def max_def)
  qed
qed simp

definition lapsedEarnings :: "ledger_row list \<Rightarrow> instant \<Rightarrow> int" where
  "lapsedEarnings rows now = sum_list (map fst (filter (\<lambda>l. snd l \<le> now) (lotsOf rows)))"

definition ledger_balance :: "ledger_row list \<Rightarrow> int" where
  "ledger_balance rows = sum_list (map (\<lambda>(_, p, _). p) rows)"

lemma lapsedPoints_due:
  assumes "\<And>p e. (Earn, p, e) \<in> set rows \<Longrightarrow> 0 \<le> p"
  shows "fst (lapsedPoints rows now) =
     max 0 (min (max 0 (lapsedEarnings rows now - max 0 (spentPoints rows))) (ledger_balance rows))"
proof -
  have "\<forall>l \<in> set (lotsOf rows). 0 \<le> fst l"
    using assms by (auto simp: lotsOf_def set_map_filter split: option.splits if_splits)
  moreover have "sorted (map snd (lotsOf rows))" by (simp add: lotsOf_def)
  ultimately show ?thesis
    unfolding lapsedPoints_def lapsedEarnings_def ledger_balance_def
    using lapse_loop_due[of "lotsOf rows" "max 0 (spentPoints rows)" now 0 None]
    by (auto simp: Let_def split: prod.splits)
qed

section \<open>Properties\<close>

text \<open>
  A member holds the highest tier their lifetime points have reached: \<^verbatim>\<open>tierFor\<close> answers
  with a tier whose threshold is reached and above which no reached threshold lies, or with
  none exactly when none is reached; more points never mean a lower tier.
\<close>

theorem tier_is_highest_reached:
  "(case tierFor tiers l of
      None \<Rightarrow> list_all (\<lambda>t. l < tier_threshold t) tiers
    | Some t \<Rightarrow> t \<in> set tiers \<and> tier_threshold t \<le> l \<and>
        list_all (\<lambda>u. l < tier_threshold u \<or> tier_threshold u \<le> tier_threshold t) tiers) \<and>
   (case (tierFor tiers l, tierFor tiers (l + int n)) of
      (None, _) \<Rightarrow> True
    | (Some t, Some u) \<Rightarrow> tier_threshold t \<le> tier_threshold u
    | (Some _, None) \<Rightarrow> False)"
proof
  show "case tierFor tiers l of
      None \<Rightarrow> list_all (\<lambda>t. l < tier_threshold t) tiers
    | Some t \<Rightarrow> t \<in> set tiers \<and> tier_threshold t \<le> l \<and>
        list_all (\<lambda>u. l < tier_threshold u \<or> tier_threshold u \<le> tier_threshold t) tiers"
  proof (cases "tierFor tiers l")
    case None
    with tierFor_None[of tiers l] show ?thesis by (simp add: list_all_iff)
  next
    case (Some t)
    have "l < tier_threshold u \<or> tier_threshold u \<le> tier_threshold t" if "u \<in> set tiers" for u
      using tierFor_Some(3)[OF Some that] by linarith
    with Some tierFor_Some(1,2)[OF Some] show ?thesis by (simp add: list_all_iff)
  qed
  show "case (tierFor tiers l, tierFor tiers (l + int n)) of
      (None, _) \<Rightarrow> True
    | (Some t, Some u) \<Rightarrow> tier_threshold t \<le> tier_threshold u
    | (Some _, None) \<Rightarrow> False"
  proof (cases "tierFor tiers l")
    case None
    then show ?thesis by simp
  next
    case (Some t)
    note t = tierFor_Some(1,2)[OF Some]
    then obtain u where u: "tierFor tiers (l + int n) = Some u"
      using tierFor_None[of tiers "l + int n"] by fastforce
    then show ?thesis using Some t tierFor_Some(3)[OF u, of t] by simp
  qed
qed

text \<open>
  Points lapse once. In a ledger where earnings are not negative and no more was given
  back than spent, taking off what \<^verbatim>\<open>lapsedPoints\<close> says is due leaves nothing due at the same
  moment, and what is due is never more than the balance nor than the lapsed earnings.
\<close>

theorem lapse_once:
  assumes "\<And>p e. (Earn, p, e) \<in> set rows \<Longrightarrow> 0 \<le> p" and "0 \<le> spentPoints rows"
    and "due = fst (lapsedPoints rows now)" and "0 < due"
  shows "fst (lapsedPoints (rows @ [(Expire, - due, None)]) now) = 0 \<and> due \<le> ledger_balance rows \<and>
     due \<le> lapsedEarnings rows now"
proof -
  let ?rows = "rows @ [(Expire, - due, None)]"
  have lots: "lapsedEarnings ?rows now = lapsedEarnings rows now"
    by (simp add: lapsedEarnings_def lotsOf_def map_filter_def)
  have spent: "spentPoints ?rows = spentPoints rows + due" by (simp add: spentPoints_def)
  have bal: "ledger_balance ?rows = ledger_balance rows - due" by (simp add: ledger_balance_def)
  have d: "due = max 0 (min (max 0 (lapsedEarnings rows now - spentPoints rows)) (ledger_balance rows))"
    using lapsedPoints_due[OF assms(1)] assms(2,3) by simp
  have "fst (lapsedPoints ?rows now) =
      max 0 (min (max 0 (lapsedEarnings rows now - max 0 (spentPoints rows + due))) (ledger_balance rows - due))"
    using lapsedPoints_due[of ?rows now] assms(1) by (simp add: lots spent bal)
  with d assms(2,4) show ?thesis by (auto simp: max_def min_def split: if_splits)
qed

definition ex_ledger :: "ledger_row list" where
  "ex_ledger = [(Earn, 100, Some 50), (Earn, 80, Some 90), (Redeem, - 30, None), (Adjust, 5, None)]"

theorem lapse_once_witness:
  "fst (lapsedPoints ex_ledger 60) = 70 \<and> fst (lapsedPoints (ex_ledger @ [(Expire, - 70, None)]) 60) = 0"
proof -
  have d: "70 = fst (lapsedPoints ex_ledger 60)" by code_simp
  have "fst (lapsedPoints (ex_ledger @ [(Expire, - 70, None)]) 60) = 0 \<and> 70 \<le> ledger_balance ex_ledger \<and>
      70 \<le> lapsedEarnings ex_ledger 60"
    by (rule lapse_once[OF _ _ d]) (auto simp: ex_ledger_def spentPoints_def)
  with d show ?thesis by simp
qed

end
