(* ===== verification/Folios.thy ===== *)
theory Folios
  imports Loyalty
begin

text \<open>
  The bill of a stay (\<^verbatim>\<open>src/src/modules/folios/folios.service.ts\<close>): an append-only ledger of
  line items and payments. A charge and its taxes are written together; a correction is a
  new negating line with the taxes it takes back; charges move between bills with everything
  that hangs off them; a bill closes only at a balance of exactly zero.

  Every handler runs in one transaction: it maps a database to an error, or to its answer
  and the new database. \<open>now\<close> is the transaction's time. Descriptions and the payload of
  audit rows are not kept; that an audit row is written is.
\<close>

section \<open>Packages (\<^verbatim>\<open>package-pricing.ts\<close>)\<close>

definition chargePerPosting :: "decimal_lib \<Rightarrow> package_snapshot \<Rightarrow> int \<Rightarrow> rat result" where
  "chargePerPosting D pkg guests =
     (case d_parse D (pk_price pkg) of
        Finite price \<Rightarrow> Inr (if pk_basis pkg = Per_person_per_night then price * of_int (max 1 guests) else price)
      | _ \<Rightarrow> Inl PlainError)"

definition postingsFor :: "package_snapshot \<Rightarrow> int \<Rightarrow> int" where
  "postingsFor pkg nights = (if pk_basis pkg = Per_stay then 1 else max 0 nights)"

definition packageTotal :: "decimal_lib \<Rightarrow> package_snapshot \<Rightarrow> int \<Rightarrow> int \<Rightarrow> rat result" where
  "packageTotal D pkg nights guests = bindr (chargePerPosting D pkg guests) (\<lambda>c. Inr (c * of_int (postingsFor pkg nights)))"

section \<open>Totals\<close>

record folio_totals =
  to_subTotal :: rat
  to_taxTotal :: rat
  to_totalCost :: rat
  to_paymentsTotal :: rat
  to_depositsTotal :: rat
  to_balanceDue :: rat

definition computeTotals :: "db \<Rightarrow> nat \<Rightarrow> folio_totals" where
  "computeTotals d f =
     (let items = linesOf d f; payments = paymentsOf d f;
          (sub, tax) = foldl (\<lambda>(s, t) i. if li_chargeType i = Tax then (s, t + li_amount i) else (s + li_amount i, t)) (0, 0) items;
          (paid, dep) = foldl (\<lambda>(p, q) x. (p + pa_amount x, if pa_purpose x = PurposeDeposit then q + pa_amount x else q)) (0, 0) payments;
          totalCost = sub + tax
      in \<lparr>to_subTotal = sub, to_taxTotal = tax, to_totalCost = totalCost, to_paymentsTotal = paid, to_depositsTotal = dep,
          to_balanceDue = totalCost - paid\<rparr>)"

text \<open>
  \<^verbatim>\<open>balancesFor\<close>: two grouped sums for any number of bills, then added up per bill.
\<close>

definition groupSum :: "(nat \<times> rat) list \<Rightarrow> (nat \<times> rat) list" where
  "groupSum rows = map (\<lambda>f. (f, sum_list (map snd (filter (\<lambda>r. fst r = f) rows)))) (remdups (map fst rows))"

definition addAt :: "nat \<Rightarrow> rat \<Rightarrow> (nat \<times> rat) list \<Rightarrow> (nat \<times> rat) list" where
  "addAt f x m = (f, the_default 0 (map_of m f) + x) # filter (\<lambda>e. fst e \<noteq> f) m"

definition balancesFor :: "db \<Rightarrow> nat list \<Rightarrow> (nat \<times> rat) list" where
  "balancesFor d ids =
     (let charges = groupSum (map (\<lambda>i. (li_folio i, li_amount i)) (filter (\<lambda>i. li_folio i \<in> set ids \<and> live_line i) (db_lines d)));
          payments = groupSum (map (\<lambda>p. (pa_folio p, pa_amount p)) (filter (\<lambda>p. pa_folio p \<in> set ids \<and> live_payment p) (db_payments d)));
          m = map (\<lambda>i. (i, 0)) ids;
          m = foldl (\<lambda>m (f, x). addAt f x m) m charges
      in foldl (\<lambda>m (f, x). addAt f (- x) m) m payments)"

datatype guest_status = In_house | City_ledger | Refund_due | Deposit_held

definition BEFORE_ARRIVAL :: "reservation_status set" where
  "BEFORE_ARRIVAL = {Confirmed, Waitlisted}"

definition deriveGuestStatus :: "reservation_status option \<Rightarrow> rat \<Rightarrow> guest_status option" where
  "deriveGuestStatus st balanceDue =
     (if balanceDue < 0
      then Some (case st of Some s \<Rightarrow> if s \<in> BEFORE_ARRIVAL then Deposit_held else Refund_due | None \<Rightarrow> Refund_due)
      else if \<not> 0 < balanceDue then None
      else if st \<in> {Some Checked_out, Some No_show, Some Cancelled} then Some City_ledger
      else if st = Some Checked_in then Some In_house
      else None)"

section \<open>Finding and opening bills\<close>

definition findFolioOrThrow :: "db \<Rightarrow> nat \<Rightarrow> folio result" where
  "findFolioOrThrow d f =
     (case List.find (\<lambda>x. fo_id x = f \<and> \<not> fo_deleted x) (db_folios d) of None \<Rightarrow> Inl (NotFound NOT_FOUND) | Some x \<Rightarrow> Inr x)"

definition assertFolioOpen :: "folio \<Rightarrow> unit result" where
  "assertFolioOpen f = (if fo_status f = Settled then Inl (Conflict CONFLICT) else Inr ())"

definition primaryFolio :: "db \<Rightarrow> nat \<Rightarrow> folio option" where
  "primaryFolio d r = List.find (\<lambda>x. fo_reservation x = Some r \<and> fo_label x = None \<and> \<not> fo_deleted x) (db_folios d)"

definition ensurePrimaryFolio :: "reservation \<Rightarrow> nat option \<Rightarrow> instant \<Rightarrow> db \<Rightarrow> folio \<times> db" where
  "ensurePrimaryFolio r actorId now d =
     (let arrived = (re_status r \<notin> BEFORE_ARRIVAL)
      in case primaryFolio d (re_id r) of
           Some existing \<Rightarrow>
             if fo_status existing \<noteq> Pending \<or> \<not> arrived then (existing, d)
             else (existing\<lparr>fo_status := Open, fo_openedAt := Some now\<rparr>,
                   d\<lparr>db_folios := map (\<lambda>x. if fo_id x = fo_id existing then x\<lparr>fo_status := Open, fo_openedAt := Some now\<rparr> else x) (db_folios d)\<rparr>)
         | None \<Rightarrow>
             (let (folio, d) = insert_folio \<lparr>fo_id = 0, fo_branch = re_branch r, fo_reservation = Some (re_id r),
                    fo_guest = re_guest r, fo_label = None, fo_payer = None, fo_corporate = None,
                    fo_status = (if arrived then Open else Pending), fo_openedAt = (if arrived then Some now else None),
                    fo_closedAt = None, fo_deleted = False\<rparr> d
              in (folio, audit (re_branch r) actorId ''folio.opened'' (fo_id folio) d)))"

section \<open>Writing a charge\<close>

record charge_input =
  ci_branch :: nat
  ci_folio :: nat
  ci_amount :: rat
  ci_chargeType :: charge_type
  ci_serviceDate :: instant
  ci_outlet :: "nat option"
  ci_stay :: "nat option"
  ci_roomType :: "nat option"
  ci_package :: "nat option"
  ci_dayUse :: bool
  ci_actor :: "nat option"

definition plain_charge :: "nat \<Rightarrow> nat \<Rightarrow> rat \<Rightarrow> charge_type \<Rightarrow> instant \<Rightarrow> nat option \<Rightarrow> charge_input" where
  "plain_charge b f amount ct date actor =
     \<lparr>ci_branch = b, ci_folio = f, ci_amount = amount, ci_chargeType = ct, ci_serviceDate = date, ci_outlet = None,
      ci_stay = None, ci_roomType = None, ci_package = None, ci_dayUse = False, ci_actor = actor\<rparr>"

definition tax_line :: "charge_input \<Rightarrow> nat \<Rightarrow> computed_tax \<Rightarrow> line_item" where
  "tax_line inp parent t = blank_line\<lparr>li_folio := ci_folio inp, li_amount := cx_taxAmount t, li_chargeType := Tax,
     li_taxRuleIds := [cx_ruleId t], li_serviceDate := ci_serviceDate inp, li_outlet := ci_outlet inp,
     li_parent := Some parent, li_postedBy := ci_actor inp\<rparr>"

definition charge_line :: "charge_input \<Rightarrow> priced_charge \<Rightarrow> line_item" where
  "charge_line inp priced = blank_line\<lparr>li_folio := ci_folio inp, li_amount := pc_net priced, li_taxAmount := pc_taxTotal priced,
     li_chargeType := ci_chargeType inp, li_serviceDate := ci_serviceDate inp, li_outlet := ci_outlet inp, li_stay := ci_stay inp,
     li_roomType := ci_roomType inp, li_package := ci_package inp, li_dayUse := ci_dayUse inp, li_postedBy := ci_actor inp\<rparr>"

definition add_line :: "line_item \<Rightarrow> db \<Rightarrow> db result" where
  "add_line i d = bindr (insert_line i d) (\<lambda>(_, d). Inr d)"

definition writeChargeWithTaxes :: "decimal_lib \<Rightarrow> charge_input \<Rightarrow> db \<Rightarrow> (line_item option \<times> db) result" where
  "writeChargeWithTaxes D inp d =
     (if ci_amount inp = 0 then Inr (None, d)
      else if ci_amount inp < 0 then Inl PlainError
      else bindr (priceCharge D (db_taxRules d) (ci_branch inp) (ci_chargeType inp) (ci_amount inp) 1) (\<lambda>priced.
        bindr (insert_line (charge_line inp priced) d) (\<lambda>(parent, d).
        bindr (foldr_res (\<lambda>t. add_line (tax_line inp (li_id parent) t)) (pc_taxes priced) d) (\<lambda>d.
          Inr (Some parent, audit (ci_branch inp) (ci_actor inp) ''line_item.posted'' (li_id parent) d)))))"

definition previewCharge :: "decimal_lib \<Rightarrow> db \<Rightarrow> nat \<Rightarrow> charge_type \<Rightarrow> rat \<Rightarrow> priced_charge result" where
  "previewCharge D d b ct price = priceCharge D (db_taxRules d) b ct price 1"

definition postAdHocCharge :: "decimal_lib \<Rightarrow> reservation \<Rightarrow> folio \<Rightarrow> charge_type \<Rightarrow> rat \<Rightarrow> nat option \<Rightarrow> db \<Rightarrow> (line_item option \<times> db) result" where
  "postAdHocCharge D r folio ct amount actorId =
     writeChargeWithTaxes D (plain_charge (re_branch r) (fo_id folio) amount ct (re_checkInDate r) actorId)"

definition postOutletCharge :: "decimal_lib \<Rightarrow> folio \<Rightarrow> nat \<Rightarrow> charge_type \<Rightarrow> rat \<Rightarrow> instant \<Rightarrow> nat \<Rightarrow> db \<Rightarrow> (line_item option \<times> db) result" where
  "postOutletCharge D folio outletId ct amount date actorId =
     writeChargeWithTaxes D ((plain_charge (fo_branch folio) (fo_id folio) amount ct date (Some actorId))\<lparr>ci_outlet := Some outletId\<rparr>)"

definition postChargeInTx :: "decimal_lib \<Rightarrow> folio \<Rightarrow> rat \<Rightarrow> charge_type \<Rightarrow> instant \<Rightarrow> nat option \<Rightarrow> db \<Rightarrow> (line_item option \<times> db) result" where
  "postChargeInTx D folio amount ct date actorId d =
     bindr (assertFolioOpen folio) (\<lambda>_.
       writeChargeWithTaxes D (plain_charge (fo_branch folio) (fo_id folio) amount ct date actorId) d)"

definition postCharge ::
  "decimal_lib \<Rightarrow> tz_offset \<Rightarrow> nat \<Rightarrow> rat \<Rightarrow> charge_type \<Rightarrow> day option \<Rightarrow> nat \<Rightarrow> instant \<Rightarrow> db \<Rightarrow> (line_item \<times> db) result" where
  "postCharge D tzo folioId amount ct serviceDate actorId now d =
     bindr (findFolioOrThrow d folioId) (\<lambda>folio.
     bindr (assertFolioOpen folio) (\<lambda>_.
     bindr (assertBranch d (fo_branch folio)) (\<lambda>branch.
     let date = toBranchDate (the_default (todayInTimezone tzo (br_timezone branch) now) serviceDate)
     in bindr (writeChargeWithTaxes D (plain_charge (fo_branch folio) folioId amount ct date (Some actorId)) d) (\<lambda>(line, d).
          case line of None \<Rightarrow> Inl (BadRequest VALIDATION_FAILED) | Some l \<Rightarrow> Inr (l, d)))))"

section \<open>Room nights and packages\<close>

definition stay_of :: "reservation \<Rightarrow> priced_stay" where
  "stay_of r = \<lparr>st_confirmedRate = re_confirmedRate r, st_overrideRate = re_overrideRate r, st_checkInDate = re_checkInDate r,
     st_checkOutDate = re_checkOutDate r, st_nightlyRates = re_nightlyRates r\<rparr>"

definition routedFolio :: "db \<Rightarrow> reservation \<Rightarrow> folio \<Rightarrow> folio" where
  "routedFolio d r folio =
     (case re_billToFolio r of
        None \<Rightarrow> folio
      | Some b \<Rightarrow>
          if b = fo_id folio then folio
          else case List.find (\<lambda>x. fo_id x = b \<and> \<not> fo_deleted x) (db_folios d) of
                 None \<Rightarrow> folio
               | Some routed \<Rightarrow> if fo_status routed \<noteq> Settled \<and> fo_branch routed = re_branch r then routed else folio)"

definition dayUseCharged :: "db \<Rightarrow> nat \<Rightarrow> bool" where
  "dayUseCharged d r \<longleftrightarrow> (\<exists>i \<in> set (db_lines d). li_stay i = Some r \<and> li_dayUse i \<and> live_line i)"

definition postDayUseCharge :: "decimal_lib \<Rightarrow> reservation \<Rightarrow> folio \<Rightarrow> nat option \<Rightarrow> db \<Rightarrow> (line_item option \<times> db) result" where
  "postDayUseCharge D r folio actorId d =
     (let billTo = routedFolio d r folio;
          amount = (case re_overrideRate r of Some x \<Rightarrow> x | None \<Rightarrow> re_confirmedRate r)
      in if \<not> 0 < amount then Inr (None, d)
         else writeChargeWithTaxes D ((plain_charge (re_branch r) (fo_id billTo) amount Room (re_checkInDate r) actorId)
                \<lparr>ci_stay := Some (re_id r), ci_roomType := Some (re_roomType r), ci_dayUse := True\<rparr>) d)"

definition nightBilled :: "db \<Rightarrow> reservation \<Rightarrow> nat \<Rightarrow> instant \<Rightarrow> bool" where
  "nightBilled d r folioId date \<longleftrightarrow>
     (\<exists>i \<in> set (db_lines d). li_chargeType i = Room \<and> li_serviceDate i = date \<and> \<not> li_dayUse i \<and> live_line i \<and>
        (li_stay i = Some (re_id r) \<or> li_stay i = None \<and> li_folio i = folioId))"

definition perNight :: "decimal_lib \<Rightarrow> db \<Rightarrow> reservation \<Rightarrow> instant \<Rightarrow> rat result" where
  "perNight D d r date =
     (if re_isDayUse r
      then Inr (case List.find (\<lambda>t. rt_id t = re_roomType r) (db_roomTypes d) of Some t \<Rightarrow> rt_baseRate t | None \<Rightarrow> re_confirmedRate r)
      else case re_overrideRate r of
        Some x \<Rightarrow> Inr x
      | None \<Rightarrow> bindr (nightlyRateFor D (re_nightlyRates r) date) (\<lambda>own.
          Inr (case own of Some x \<Rightarrow> x | None \<Rightarrow> evenSplit D (stay_of r))))"

definition postRoomNight :: "decimal_lib \<Rightarrow> reservation \<Rightarrow> folio \<Rightarrow> instant \<Rightarrow> nat option \<Rightarrow> db \<Rightarrow> (line_item option \<times> db) result" where
  "postRoomNight D r folio date actorId d =
     (if nightBilled d r (fo_id folio) date then Inr (None, d)
      else let billTo = routedFolio d r folio
      in bindr (perNight D d r date) (\<lambda>amount.
           if amount \<le> 0 then Inr (None, d)
           else writeChargeWithTaxes D ((plain_charge (re_branch r) (fo_id billTo) amount Room date actorId)
                  \<lparr>ci_stay := Some (re_id r), ci_roomType := Some (re_roomType r)\<rparr>) d))"

definition packageCharged :: "db \<Rightarrow> reservation \<Rightarrow> package_snapshot \<Rightarrow> instant \<Rightarrow> bool" where
  "packageCharged d r pkg date \<longleftrightarrow>
     (\<exists>i \<in> set (db_lines d). li_stay i = Some (re_id r) \<and> li_package i = Some (pk_packageId pkg) \<and>
        (pk_basis pkg = Per_stay \<or> li_serviceDate i = date) \<and> li_corrects i = None \<and> live_line i)"

definition packageDue :: "reservation \<Rightarrow> package_snapshot \<Rightarrow> instant \<Rightarrow> bool" where
  "packageDue r pkg date \<longleftrightarrow>
     \<not> (case pk_addedOn pkg of Some a \<Rightarrow> date < toBranchDate a | None \<Rightarrow> False) \<and>
     (if pk_basis pkg = Per_stay then re_checkInDate r \<le> date \<and> date \<le> re_checkOutDate r
      else if re_isDayUse r then date = re_checkInDate r
      else re_checkInDate r \<le> date \<and> date < re_checkOutDate r)"

text \<open>\<^verbatim>\<open>billTo\<close> is looked up at the first package charged; posting charges does not change where it points.\<close>

definition postPackage :: "decimal_lib \<Rightarrow> reservation \<Rightarrow> folio \<Rightarrow> instant \<Rightarrow> nat option \<Rightarrow> package_snapshot \<Rightarrow> db \<Rightarrow> db result" where
  "postPackage D r folio date actorId pkg d =
     (if \<not> packageDue r pkg date then Inr d
      else if packageCharged d r pkg date then Inr d
      else bindr (chargePerPosting D pkg (re_adults r + re_children r)) (\<lambda>amount.
        bindr (writeChargeWithTaxes D ((plain_charge (re_branch r) (fo_id (routedFolio d r folio)) amount (pk_chargeType pkg) date actorId)
                 \<lparr>ci_stay := Some (re_id r), ci_package := Some (pk_packageId pkg)\<rparr>) d) (\<lambda>(_, d). Inr d)))"

definition postPackageCharges :: "decimal_lib \<Rightarrow> reservation \<Rightarrow> folio \<Rightarrow> instant \<Rightarrow> nat option \<Rightarrow> db \<Rightarrow> db result" where
  "postPackageCharges D r folio date actorId d = foldr_res (postPackage D r folio date actorId) (re_packages r) d"

definition postRoomChargeForDate :: "decimal_lib \<Rightarrow> reservation \<Rightarrow> folio \<Rightarrow> instant \<Rightarrow> nat option \<Rightarrow> db \<Rightarrow> (line_item option \<times> db) result" where
  "postRoomChargeForDate D r folio date actorId d =
     bindr (if re_isDayUse r \<and> \<not> dayUseCharged d (re_id r) then postDayUseCharge D r folio actorId d
            else postRoomNight D r folio date actorId d) (\<lambda>(night, d).
     bindr (postPackageCharges D r folio date actorId d) (\<lambda>d. Inr (night, d)))"

text \<open>Every elapsed night of the stay, and how many of them were posted.\<close>

definition backfillRoomCharges :: "decimal_lib \<Rightarrow> reservation \<Rightarrow> folio \<Rightarrow> instant \<Rightarrow> nat option \<Rightarrow> db \<Rightarrow> (nat \<times> db) result" where
  "backfillRoomCharges D r folio today actorId d =
     foldr_res (\<lambda>night (posted, d).
         bindr (postRoomChargeForDate D r folio night actorId d) (\<lambda>(res, d). Inr (if res \<noteq> None then Suc posted else posted, d)))
       (enumerateNights (re_checkInDate r) (if today < re_checkOutDate r then today else re_checkOutDate r)) (0, d)"

section \<open>Payments\<close>

record payment_dto =
  pd_amount :: rat
  pd_method :: payment_method
  pd_currency :: "string option"

definition openShiftOf :: "db \<Rightarrow> nat \<Rightarrow> nat \<Rightarrow> shift option" where
  "openShiftOf d b agent = List.find (\<lambda>s. sh_branch s = b \<and> sh_agent s = agent \<and> sh_closedAt s = None) (db_shifts d)"

text \<open>What was handed over, in the branch's currency, at the rate a manager set.\<close>

definition convert :: "decimal_lib \<Rightarrow> branch \<Rightarrow> payment_dto \<Rightarrow> (rat \<times> (string \<times> rat \<times> rat) option) result" where
  "convert D branch dto =
     (case map_option js_upper (pd_currency dto) of
        None \<Rightarrow> Inr (pd_amount dto, None)
      | Some cur \<Rightarrow>
          if cur = [] \<or> cur = br_currency branch then Inr (pd_amount dto, None)
          else case map_of (br_rates branch) cur of
            None \<Rightarrow> Inl (BadRequest VALIDATION_FAILED)
          | Some rate \<Rightarrow>
              (let amount = d_dp2 D (d_mul D (pd_amount dto) rate)
               in if \<not> 0 < amount then Inl (BadRequest VALIDATION_FAILED)
                  else Inr (amount, Some (cur, pd_amount dto, rate))))"

definition recordPaymentInTx ::
  "decimal_lib \<Rightarrow> folio \<Rightarrow> payment_dto \<Rightarrow> payment_purpose \<Rightarrow> nat \<Rightarrow> db \<Rightarrow> (payment \<times> db) result" where
  "recordPaymentInTx D folio dto purpose actorId d =
     (if pd_method dto = Loyalty_points then Inl (BadRequest VALIDATION_FAILED)
      else bindr (assertFolioOpen folio) (\<lambda>_.
        bindr (assertBranch d (fo_branch folio)) (\<lambda>branch.
        bindr (convert D branch dto) (\<lambda>(amount, foreign).
        let openShift = (if pd_method dto = Cash then openShiftOf d (fo_branch folio) actorId else None)
        in if pd_method dto = Cash \<and> openShift = None then Inl (Conflict SHIFT_REQUIRED)
        else let (pay, d) = insert_payment \<lparr>pa_id = 0, pa_folio = fo_id folio, pa_method = pd_method dto, pa_amount = amount,
               pa_currency = br_currency branch, pa_foreign = foreign, pa_shift = map_option sh_id openShift, pa_purpose = purpose,
               pa_recordedBy = Some actorId, pa_isVoid = False, pa_voidedBy = None, pa_deleted = False\<rparr> d
        in Inr (pay, audit (fo_branch folio) (Some actorId) ''payment.recorded'' (pa_id pay) d)))))"

definition recordPayment ::
  "decimal_lib \<Rightarrow> nat \<Rightarrow> payment_dto \<Rightarrow> payment_purpose option \<Rightarrow> nat \<Rightarrow> db \<Rightarrow> (payment \<times> db) result" where
  "recordPayment D folioId dto purpose actorId d =
     bindr (findFolioOrThrow d folioId) (\<lambda>folio.
       recordPaymentInTx D folio dto (the_default PurposePayment purpose) actorId d)"

definition recordDeposit :: "decimal_lib \<Rightarrow> nat \<Rightarrow> payment_dto \<Rightarrow> nat \<Rightarrow> instant \<Rightarrow> db \<Rightarrow> (payment \<times> db) result" where
  "recordDeposit D reservationId dto actorId now d =
     (case List.find (\<lambda>r. re_id r = reservationId \<and> \<not> re_deleted r) (db_reservations d) of
        None \<Rightarrow> Inl (NotFound NOT_FOUND)
      | Some r \<Rightarrow>
          if re_status r \<notin> BEFORE_ARRIVAL then Inl (Conflict INVALID_STATUS_TRANSITION)
          else let (folio, d) = ensurePrimaryFolio r (Some actorId) now d
               in recordPaymentInTx D folio dto PurposeDeposit actorId d)"

definition voidPayment :: "nat \<Rightarrow> nat \<Rightarrow> instant \<Rightarrow> db \<Rightarrow> (payment \<times> db) result" where
  "voidPayment paymentId actorId now d =
     (case List.find (\<lambda>p. pa_id p = paymentId \<and> \<not> pa_deleted p) (db_payments d) of
        None \<Rightarrow> Inl (NotFound NOT_FOUND)
      | Some pay \<Rightarrow>
          if pa_isVoid pay then Inl (Conflict CONFLICT)
          else if (\<exists>r \<in> set (db_refunds d). rf_refundPayment r = Some paymentId) \<or> \<not> 0 < pa_amount pay then Inl (Conflict CONFLICT)
          else bindr (findFolioOrThrow d (pa_folio pay)) (\<lambda>folio.
            if fo_status folio = Settled then Inl (Conflict CONFLICT)
            else if \<exists>r \<in> set (db_refunds d). rf_payment r = Some paymentId \<and> rf_status r \<in> {RefundPending, RefundApproved, RefundProcessed}
              then Inl (Conflict CONFLICT)
            else if (case pa_shift pay of
                       None \<Rightarrow> False
                     | Some s \<Rightarrow> (case List.find (\<lambda>x. sh_id x = s) (db_shifts d) of None \<Rightarrow> False | Some x \<Rightarrow> sh_closedAt x \<noteq> None))
              then Inl (Conflict CONFLICT)
            else let voided = pay\<lparr>pa_isVoid := True, pa_voidedBy := Some actorId\<rparr>;
                     d1 = d\<lparr>db_payments := map (\<lambda>p. if pa_id p = paymentId then p\<lparr>pa_isVoid := True, pa_voidedBy := Some actorId\<rparr> else p) (db_payments d)\<rparr>
                 in bindr (case (pa_method pay, List.find (\<lambda>t. lt_payment t = Some paymentId) (db_loyalty d)) of
                             (Loyalty_points, Some t) \<Rightarrow>
                               bindr (lockLoyaltyGuest d1 (lt_guest t)) (\<lambda>guest.
                               bindr (applyLoyaltyPoints guest \<lparr>le_type = Reversal, le_points = - lt_points t, le_branch = Some (fo_branch folio),
                                        le_earnReservation = None, le_payment = None, le_expiresAt = None, le_actor = Some actorId\<rparr> now d1) (\<lambda>(_, d). Inr d))
                           | _ \<Rightarrow> Inr d1) (\<lambda>d.
                    Inr (voided, audit (fo_branch folio) (Some actorId) ''payment.voided'' paymentId d))))"

definition recordLoyaltyPaymentInTx :: "nat \<Rightarrow> rat \<Rightarrow> nat \<Rightarrow> db \<Rightarrow> (payment \<times> db) result" where
  "recordLoyaltyPaymentInTx folioId amount actorId d =
     bindr (findFolioOrThrow d folioId) (\<lambda>folio.
     bindr (assertFolioOpen folio) (\<lambda>_.
       if to_balanceDue (computeTotals d folioId) < amount then Inl (Conflict CONFLICT)
       else bindr (assertBranch d (fo_branch folio)) (\<lambda>branch.
         let (pay, d) = insert_payment \<lparr>pa_id = 0, pa_folio = folioId, pa_method = Loyalty_points, pa_amount = amount,
               pa_currency = br_currency branch, pa_foreign = None, pa_shift = None, pa_purpose = PurposePayment,
               pa_recordedBy = Some actorId, pa_isVoid = False, pa_voidedBy = None, pa_deleted = False\<rparr> d
         in Inr (pay, audit (fo_branch folio) (Some actorId) ''payment.recorded'' (pa_id pay) d))))"

section \<open>Corrections\<close>

text \<open>Two staff correcting one line at once: the unique index lets one through, and the other gets the same answer as the check.\<close>

definition catch_unique :: "'a result \<Rightarrow> 'a result" where
  "catch_unique m = (case m of Inl UniqueViolation \<Rightarrow> Inl (Conflict CONFLICT) | r \<Rightarrow> r)"

definition corrected :: "db \<Rightarrow> nat \<Rightarrow> bool" where
  "corrected d i \<longleftrightarrow> (\<exists>x \<in> set (db_lines d). li_corrects x = Some i)"

definition taxesToReverse :: "db \<Rightarrow> line_item \<Rightarrow> line_item list" where
  "taxesToReverse d original =
     (if li_chargeType original = Tax then []
      else filter (\<lambda>t. \<not> corrected d (li_id t))
             (filter (\<lambda>t. li_parent t = Some (li_id original) \<and> li_folio t = li_folio original \<and> li_chargeType t = Tax \<and> live_line t)
                (db_lines d)))"

definition correction_line :: "line_item \<Rightarrow> rat \<Rightarrow> nat option \<Rightarrow> line_item" where
  "correction_line original reversedTax actorId = blank_line\<lparr>li_folio := li_folio original, li_amount := - li_amount original,
     li_taxAmount := - reversedTax, li_chargeType := (if li_chargeType original = Tax then Tax else Correction),
     li_taxRuleIds := (if li_chargeType original = Tax then li_taxRuleIds original else []),
     li_serviceDate := li_serviceDate original, li_outlet := li_outlet original, li_corrects := Some (li_id original),
     li_postedBy := actorId\<rparr>"

definition tax_reversal :: "nat \<Rightarrow> nat option \<Rightarrow> line_item \<Rightarrow> line_item" where
  "tax_reversal correctionId actorId t = blank_line\<lparr>li_folio := li_folio t, li_amount := - li_amount t, li_chargeType := Tax,
     li_taxRuleIds := li_taxRuleIds t, li_serviceDate := li_serviceDate t, li_outlet := li_outlet t,
     li_parent := Some correctionId, li_corrects := Some (li_id t), li_postedBy := actorId\<rparr>"

definition reverseLineItem :: "line_item \<Rightarrow> folio \<Rightarrow> nat option \<Rightarrow> db \<Rightarrow> (line_item \<times> db) result" where
  "reverseLineItem original folio actorId d =
     (if corrected d (li_id original) then Inl (Conflict CONFLICT)
      else let taxes = taxesToReverse d original;
               reversedTax = sum_list (map li_amount taxes)
      in catch_unique (
           bindr (insert_line (correction_line original reversedTax actorId) d) (\<lambda>(correction, d).
           bindr (foldr_res (\<lambda>t. add_line (tax_reversal (li_id correction) actorId t)) taxes d) (\<lambda>d.
             Inr (correction, audit (fo_branch folio) actorId ''line_item.corrected'' (li_id correction) d)))))"

text \<open>\<^verbatim>\<open>posOrder.updateMany\<close>: the outlet sale a charge came from is voided with it.\<close>

definition void_pos_orders :: "nat \<Rightarrow> nat \<Rightarrow> instant \<Rightarrow> db \<Rightarrow> db" where
  "void_pos_orders lineId actorId now d =
     d\<lparr>db_posOrders := map (\<lambda>o'. if po_lineItem o' = Some lineId \<and> po_voidedAt o' = None
         then o'\<lparr>po_voidedAt := Some now, po_voidedBy := Some actorId\<rparr> else o') (db_posOrders d)\<rparr>"

definition correctLineItem :: "nat \<Rightarrow> nat \<Rightarrow> instant \<Rightarrow> db \<Rightarrow> (line_item \<times> db) result" where
  "correctLineItem lineItemId actorId now d =
     (case List.find (\<lambda>i. li_id i = lineItemId \<and> \<not> li_deleted i) (db_lines d) of
        None \<Rightarrow> Inl (NotFound NOT_FOUND)
      | Some original \<Rightarrow>
          bindr (findFolioOrThrow d (li_folio original)) (\<lambda>folio.
          bindr (assertFolioOpen folio) (\<lambda>_.
          bindr (reverseLineItem original folio (Some actorId) d) (\<lambda>(correction, d).
            Inr (correction, void_pos_orders (li_id original) actorId now d)))))"

definition reverseChargeInTx :: "nat \<Rightarrow> nat option \<Rightarrow> db \<Rightarrow> (line_item option \<times> db) result" where
  "reverseChargeInTx lineItemId actorId d =
     (case List.find (\<lambda>i. li_id i = lineItemId \<and> live_line i) (db_lines d) of
        None \<Rightarrow> Inr (None, d)
      | Some original \<Rightarrow>
          if corrected d (li_id original) then Inr (None, d)
          else bindr (findFolioOrThrow d (li_folio original)) (\<lambda>folio.
               bindr (reverseLineItem original folio actorId d) (\<lambda>(c, d). Inr (Some c, d))))"

section \<open>Extra bills and moving charges\<close>

definition createAdditionalFolio ::
  "nat \<Rightarrow> string \<Rightarrow> string option \<Rightarrow> nat option \<Rightarrow> nat \<Rightarrow> instant \<Rightarrow> db \<Rightarrow> (folio \<times> db) result" where
  "createAdditionalFolio reservationId label payer corporate actorId now d =
     (case List.find (\<lambda>r. re_id r = reservationId \<and> \<not> re_deleted r) (db_reservations d) of
        None \<Rightarrow> Inl (NotFound NOT_FOUND)
      | Some r \<Rightarrow>
          if (case corporate of None \<Rightarrow> False | Some c \<Rightarrow> \<not> (\<exists>x \<in> set (db_corporate d). ca_id x = c \<and> ca_isActive x)) then Inl (BadRequest VALIDATION_FAILED)
          else let (folio, d) = insert_folio \<lparr>fo_id = 0, fo_branch = re_branch r, fo_reservation = Some reservationId,
                 fo_guest = re_guest r, fo_label = Some (js_trim label),
                 fo_payer = (case payer of None \<Rightarrow> None | Some p \<Rightarrow> if js_trim p = [] then None else Some (js_trim p)),
                 fo_corporate = corporate, fo_status = Open, fo_openedAt = Some now, fo_closedAt = None, fo_deleted = False\<rparr> d
          in Inr (folio, audit (re_branch r) (Some actorId) ''folio.opened'' (fo_id folio) d))"

text \<open>
  \<^verbatim>\<open>withDependents\<close>: \<open>lines\<close> are the live lines of the bill. One round of the loop collects the
  lines that hang off the frontier and were not seen yet; they are the next frontier.
\<close>

fun newItems :: "nat list \<Rightarrow> line_item list \<Rightarrow> line_item list" where
  "newItems seen [] = []"
| "newItems seen (i # is) = (if li_id i \<in> set seen then newItems seen is else i # newItems (li_id i # seen) is)"

definition hangsOff :: "nat list \<Rightarrow> line_item \<Rightarrow> bool" where
  "hangsOff frontier i \<longleftrightarrow>
     (case li_parent i of Some p \<Rightarrow> p \<in> set frontier | None \<Rightarrow> False) \<or>
     (case li_corrects i of Some c \<Rightarrow> c \<in> set frontier | None \<Rightarrow> False)"

lemma newItems_sub: "i \<in> set (newItems seen is) \<Longrightarrow> i \<in> set is \<and> li_id i \<notin> set seen"
  by (induction seen "is" rule: newItems.induct) (auto split: if_splits)

function dependentsLoop :: "line_item list \<Rightarrow> line_item list \<Rightarrow> nat list \<Rightarrow> nat list \<Rightarrow> line_item list" where
  "dependentsLoop lines result seen frontier =
     (if frontier = [] then result
      else let new = newItems seen (filter (hangsOff frontier) lines)
           in dependentsLoop lines (result @ new) (map li_id new @ seen) (map li_id new))"
  by pat_completeness auto
termination
proof (relation "measures [\<lambda>(lines, _, seen, _). card (li_id ` set lines - set seen), \<lambda>(_, _, _, frontier). length frontier]", goal_cases)
  case 1
  show ?case by simp
next
  case (2 lines result seen frontier new)
  let ?unseen = "\<lambda>s. li_id ` set lines - set s"
  show ?case
  proof (cases "new = []")
    case False
    then obtain i where "i \<in> set new" by (cases new) auto
    with 2 have "i \<in> set lines" "li_id i \<notin> set seen" using newItems_sub by fastforce+
    then have "?unseen (map li_id new @ seen) \<subset> ?unseen seen" using \<open>i \<in> set new\<close> by auto
    then have "card (?unseen (map li_id new @ seen)) < card (?unseen seen)" by (intro psubset_card_mono) simp_all
    then show ?thesis by simp
  qed (use 2 in simp)
qed

declare dependentsLoop.simps [simp del]

definition withDependents :: "db \<Rightarrow> nat \<Rightarrow> line_item list \<Rightarrow> line_item list" where
  "withDependents d folioId items =
     (let ids = js_unique (map li_id items) in dependentsLoop (linesOf d folioId) items ids ids)"

definition anchorOf :: "line_item \<Rightarrow> nat option" where
  "anchorOf i = (if li_chargeType i = Tax \<and> li_parent i \<noteq> None then li_parent i else li_corrects i)"

text \<open>Reassigning the bill of the given lines, and of the outlet orders they came from.\<close>

definition move_lines :: "nat set \<Rightarrow> nat \<Rightarrow> db \<Rightarrow> db" where
  "move_lines ids target d =
     d\<lparr>db_lines := map (\<lambda>i. if li_id i \<in> ids then i\<lparr>li_folio := target\<rparr> else i) (db_lines d),
       db_posOrders := map (\<lambda>o'. case po_lineItem o' of Some l \<Rightarrow> if l \<in> ids then o'\<lparr>po_folio := Some target\<rparr> else o' | None \<Rightarrow> o') (db_posOrders d)\<rparr>"

datatype move_kind = Split | Transfer

record move_input =
  mi_target :: nat
  mi_lines :: "nat list option"
  mi_all :: bool

definition moveCharges :: "nat \<Rightarrow> move_input \<Rightarrow> nat \<Rightarrow> move_kind \<Rightarrow> instant \<Rightarrow> db \<Rightarrow> (folio_transfer \<times> db) result" where
  "moveCharges sourceId dto actorId kind now d =
     (if sourceId = mi_target dto then Inl (BadRequest VALIDATION_FAILED)
      else let requested = the_default [] (mi_lines dto)
      in if \<not> mi_all dto \<and> requested = [] then Inl (BadRequest VALIDATION_FAILED)
      else bindr (findFolioOrThrow d sourceId) (\<lambda>source.
        bindr (findFolioOrThrow d (mi_target dto)) (\<lambda>target.
        bindr (assertFolioOpen source) (\<lambda>_.
        bindr (assertFolioOpen target) (\<lambda>_.
        if fo_branch source \<noteq> fo_branch target then Inl (BadRequest VALIDATION_FAILED)
        else if kind = Split \<and> fo_reservation source \<noteq> fo_reservation target then Inl (BadRequest VALIDATION_FAILED)
        else let selected = (if mi_all dto then linesOf d sourceId else filter (\<lambda>i. li_id i \<in> set requested) (linesOf d sourceId))
        in if mi_all dto \<and> selected = [] then Inl (BadRequest VALIDATION_FAILED)
        else if \<not> mi_all dto \<and> length selected \<noteq> length requested then Inl (BadRequest VALIDATION_FAILED)
        else let toMove = withDependents d sourceId selected; moving = set (map li_id toMove)
        in if \<exists>i \<in> set selected. case anchorOf i of None \<Rightarrow> False | Some a \<Rightarrow> a \<notin> moving then Inl (BadRequest VALIDATION_FAILED)
        else let d = move_lines moving (mi_target dto) d;
                 row = \<lparr>ft_id = db_next d, ft_source = sourceId, ft_target = mi_target dto, ft_lines = map li_id toMove,
                        ft_amount = num2 (sum_list (map li_amount toMove)), ft_approvedBy = Some actorId, ft_createdAt = now,
                        ft_reversedAt = None, ft_reversedBy = None\<rparr>;
                 d = d\<lparr>db_transfers := db_transfers d @ [row], db_next := Suc (db_next d)\<rparr>
        in Inr (row, audit (fo_branch source) (Some actorId) (if kind = Split then ''folio.split'' else ''folio.transferred'') sourceId d))))))"

definition splitFolio :: "nat \<Rightarrow> move_input \<Rightarrow> nat \<Rightarrow> instant \<Rightarrow> db \<Rightarrow> (folio_transfer \<times> db) result" where
  "splitFolio sourceId dto actorId = moveCharges sourceId dto actorId Split"

definition transferCharges :: "nat \<Rightarrow> move_input \<Rightarrow> nat \<Rightarrow> instant \<Rightarrow> db \<Rightarrow> (folio_transfer \<times> db) result" where
  "transferCharges sourceId dto actorId = moveCharges sourceId dto actorId Transfer"

definition TRANSFER_REVERSAL_WINDOW_MS :: int where
  "TRANSFER_REVERSAL_WINDOW_MS = 24 * 60 * 60 * 1000"

definition reverseTransfer :: "nat \<Rightarrow> nat \<Rightarrow> instant \<Rightarrow> db \<Rightarrow> (folio_transfer \<times> db) result" where
  "reverseTransfer transferId actorId now d =
     (case List.find (\<lambda>t. ft_id t = transferId) (db_transfers d) of
        None \<Rightarrow> Inl (NotFound NOT_FOUND)
      | Some transfer \<Rightarrow>
          if ft_reversedAt transfer \<noteq> None then Inl (Conflict CONFLICT)
          else if TRANSFER_REVERSAL_WINDOW_MS < now - ft_createdAt transfer then Inl (Conflict CONFLICT)
          else bindr (findFolioOrThrow d (ft_source transfer)) (\<lambda>source.
            bindr (findFolioOrThrow d (ft_target transfer)) (\<lambda>target.
            bindr (assertFolioOpen source) (\<lambda>_.
            bindr (assertFolioOpen target) (\<lambda>_.
            let moved = filter (\<lambda>i. li_id i \<in> set (ft_lines transfer)) (db_lines d)
            in if \<exists>i \<in> set moved. li_folio i \<noteq> ft_target transfer then Inl (Conflict CONFLICT)
            else let toReturn = withDependents d (ft_target transfer) moved;
                     d = move_lines (set (map li_id toReturn)) (ft_source transfer) d;
                     reversed = transfer\<lparr>ft_reversedAt := Some now, ft_reversedBy := Some actorId\<rparr>;
                     d = d\<lparr>db_transfers := map (\<lambda>t. if ft_id t = transferId then t\<lparr>ft_reversedAt := Some now, ft_reversedBy := Some actorId\<rparr> else t) (db_transfers d)\<rparr>
            in Inr (reversed, audit (fo_branch source) (Some actorId) ''folio.transfer_reversed'' (ft_source transfer) d))))))"

section \<open>Closing and reopening\<close>

definition closeFolio :: "nat \<Rightarrow> nat \<Rightarrow> instant \<Rightarrow> db \<Rightarrow> db result" where
  "closeFolio folioId actorId now d =
     bindr (findFolioOrThrow d folioId) (\<lambda>folio.
       if fo_status folio = Settled then Inr d
       else let balance = to_balanceDue (computeTotals d folioId)
       in if 0 < balance then Inl (Conflict FOLIO_NOT_SETTLED)
       else if balance < 0 then Inl (Conflict FOLIO_CREDIT_BALANCE)
       else Inr (audit (fo_branch folio) (Some actorId) ''folio.closed'' folioId (set_folio_status folioId Settled (Some now) d)))"

definition reopenFolio :: "nat \<Rightarrow> nat \<Rightarrow> db \<Rightarrow> db result" where
  "reopenFolio folioId actorId d =
     bindr (findFolioOrThrow d folioId) (\<lambda>folio.
       if \<not> (\<exists>x \<in> set (db_folios d). fo_id x = folioId \<and> fo_status x = Settled) then Inl (Conflict CONFLICT)
       else Inr (audit (fo_branch folio) (Some actorId) ''folio.reopened'' folioId
              (d\<lparr>db_folios := map (\<lambda>x. if fo_id x = folioId \<and> fo_status x = Settled then x\<lparr>fo_status := Open, fo_closedAt := None\<rparr> else x) (db_folios d)\<rparr>)))"

definition settleIfFullyPaid :: "folio \<Rightarrow> nat option \<Rightarrow> instant \<Rightarrow> db \<Rightarrow> bool \<times> db" where
  "settleIfFullyPaid folio actorId now d =
     (if to_balanceDue (computeTotals d (fo_id folio)) \<noteq> 0 then (False, d)
      else (True, audit (fo_branch folio) actorId ''folio.closed'' (fo_id folio) (set_folio_status (fo_id folio) Settled (Some now) d)))"

section \<open>Reads\<close>

record tax_row =
  tw_ruleId :: nat
  tw_type :: adjustment_type
  tw_rate :: rat
  tw_taxCollected :: rat
  tw_chargedBase :: rat

definition lineAmount :: "db \<Rightarrow> nat \<Rightarrow> rat option" where
  "lineAmount d i = map_option li_amount (List.find (\<lambda>x. li_id x = i) (db_lines d))"

text \<open>One tax line added to its rule's row; a rule's row is made when its first line is met.\<close>

definition addTaxItem :: "db \<Rightarrow> tax_row list \<Rightarrow> line_item \<Rightarrow> tax_row list" where
  "addTaxItem d rows i =
     (case li_taxRuleIds i of
        [] \<Rightarrow> rows
      | ruleId # _ \<Rightarrow>
          (let rule = List.find (\<lambda>r. tr_id r = ruleId) (db_taxRules d);
               base = (case li_parent i of None \<Rightarrow> 0 | Some p \<Rightarrow> the_default 0 (lineAmount d p));
               add = (\<lambda>w. w\<lparr>tw_taxCollected := tw_taxCollected w + li_amount i, tw_chargedBase := tw_chargedBase w + base\<rparr>);
               new = \<lparr>tw_ruleId = ruleId, tw_type = (case rule of Some r \<Rightarrow> tr_type r | None \<Rightarrow> Percentage),
                      tw_rate = (case rule of Some r \<Rightarrow> tr_rate r | None \<Rightarrow> 0), tw_taxCollected = 0, tw_chargedBase = 0\<rparr>
           in if \<exists>w \<in> set rows. tw_ruleId w = ruleId
              then map (\<lambda>w. if tw_ruleId w = ruleId then add w else w) rows
              else rows @ [add new]))"

definition taxableBase :: "decimal_lib \<Rightarrow> tax_row \<Rightarrow> rat" where
  "taxableBase D w = (if tw_type w = FixedAmount then d_dp2 D (tw_chargedBase w)
     else if tw_rate w = 0 then 0 else d_dp2 D (d_div D (tw_taxCollected w) (tw_rate w)))"

definition getTaxBreakdown :: "decimal_lib \<Rightarrow> nat \<Rightarrow> db \<Rightarrow> ((tax_row \<times> rat) list \<times> rat) result" where
  "getTaxBreakdown D folioId d =
     bindr (findFolioOrThrow d folioId) (\<lambda>_.
       let items = filter (\<lambda>i. li_chargeType i = Tax) (linesOf d folioId);
           rows = foldl (addTaxItem d) [] items
       in Inr (map (\<lambda>w. (w, taxableBase D w)) rows, sum_list (map tw_taxCollected rows)))"

datatype folio_filter = All | Outstanding | Overdue | InHouse | RefundDue

definition reservationOf :: "db \<Rightarrow> folio \<Rightarrow> reservation option" where
  "reservationOf d f = (case fo_reservation f of None \<Rightarrow> None | Some r \<Rightarrow> List.find (\<lambda>x. re_id x = r) (db_reservations d))"

definition folioRows :: "db \<Rightarrow> nat \<Rightarrow> folio_filter \<Rightarrow> folio list" where
  "folioRows d branchId flt =
     filter (\<lambda>f. fo_branch f = branchId \<and> \<not> fo_deleted f \<and> (flt = All \<or> fo_status f \<noteq> Settled) \<and>
         (flt = InHouse \<longrightarrow> (case reservationOf d f of None \<Rightarrow> False | Some r \<Rightarrow> re_status r = Checked_in \<and> \<not> re_deleted r)))
       (db_folios d)"

definition newestFirst :: "folio list \<Rightarrow> folio list" where
  "newestFirst fs = sort_key (\<lambda>f. case fo_openedAt f of Some t \<Rightarrow> - t | None \<Rightarrow> 0) (filter (\<lambda>f. fo_openedAt f \<noteq> None) fs) @
     filter (\<lambda>f. fo_openedAt f = None) fs"

definition FOLIO_LIST_LIMIT :: int where "FOLIO_LIST_LIMIT = 200"
definition FOLIO_LIST_MAX :: int where "FOLIO_LIST_MAX = 500"

text \<open>The branch's bills, each with its balance and what it means for the guest.\<close>

definition listFolios ::
  "tz_offset \<Rightarrow> nat \<Rightarrow> folio_filter \<Rightarrow> int option \<Rightarrow> int option \<Rightarrow> instant \<Rightarrow> db \<Rightarrow> (folio \<times> rat \<times> guest_status option) list result" where
  "listFolios tzo branchId flt limit offset now d =
     bindr (assertBranch d branchId) (\<lambda>branch.
       let take' = min (max (the_default FOLIO_LIST_LIMIT limit) 1) FOLIO_LIST_MAX;
           found = newestFirst (folioRows d branchId flt);
           folios = (if flt = All then take (nat take') (drop (nat (max (the_default 0 offset) 0)) found) else found);
           balances = balancesFor d (map fo_id folios);
           today = toBranchDate (todayInTimezone tzo (br_timezone branch) now);
           rows = map (\<lambda>f. (let b = the_default 0 (map_of balances (fo_id f))
                    in (f, b, deriveGuestStatus (map_option re_status (reservationOf d f)) b))) folios
       in Inr (case flt of
            Outstanding \<Rightarrow> filter (\<lambda>(_, b, _). 0 < b) rows
          | RefundDue \<Rightarrow> filter (\<lambda>(_, _, g). g = Some Refund_due) rows
          | Overdue \<Rightarrow> filter (\<lambda>(f, _, g). g = Some City_ledger \<and>
              (case reservationOf d f of None \<Rightarrow> False | Some r \<Rightarrow> re_checkOutDate r < today)) rows
          | _ \<Rightarrow> rows))"

end
