(* ===== verification/Pos_Pricing.thy ===== *)
theory Pos_Pricing
  imports Store
begin

text \<open>
  Pricing a basket (\<^verbatim>\<open>src/src/modules/pos/pos-pricing.ts\<close>): the menu's choices as they are stored, the
  price of an order from the menu, and what a discount takes off it.

  Sums of prices are exact: the request validation bounds every price, quantity and number of
  choices so that they fit the decimal library's twenty digits. Case folding is that of ASCII
  letters. A line's amounts are kept as numbers, before they are printed with two decimals.
\<close>

section \<open>Pricing\<close>

definition OUTLET_CHARGE_TYPES :: "outlet_category \<Rightarrow> charge_type" where
  "OUTLET_CHARGE_TYPES c =
     (case c of Restaurant \<Rightarrow> Fnb | Bar \<Rightarrow> Fnb | Room_service \<Rightarrow> Fnb | SpaOutlet \<Rightarrow> Spa | LaundryOutlet \<Rightarrow> Laundry | Retail \<Rightarrow> Misc)"

text \<open>One group's options: labels trimmed, none blank, no two alike. \<open>seen\<close> are the labels met so far.\<close>

fun normaliseOptions :: "string list \<Rightarrow> (string \<times> rat) list \<Rightarrow> (string \<times> rat) list result" where
  "normaliseOptions seen [] = Inr []"
| "normaliseOptions seen ((label, price) # os) =
     (let l = js_trim label
      in if l = [] then Inl (BadRequest VALIDATION_FAILED)
         else if js_lower l \<in> set seen then Inl (BadRequest VALIDATION_FAILED)
         else bindr (normaliseOptions (js_lower l # seen) os) (\<lambda>rest. Inr ((l, price) # rest)))"

fun normaliseGroups :: "string list \<Rightarrow> modifier_group list \<Rightarrow> modifier_group list result" where
  "normaliseGroups seen [] = Inr []"
| "normaliseGroups seen (g # gs) =
     (let name = js_trim (mg_name g)
      in if name = [] then Inl (BadRequest VALIDATION_FAILED)
         else if js_lower name \<in> set seen then Inl (BadRequest VALIDATION_FAILED)
         else bindr (normaliseOptions [] (mg_options g)) (\<lambda>os.
           bindr (normaliseGroups (js_lower name # seen) gs) (\<lambda>rest.
             Inr (g\<lparr>mg_name := name, mg_options := os\<rparr> # rest))))"

definition normaliseModifierGroups :: "modifier_group list \<Rightarrow> modifier_group list result" where
  "normaliseModifierGroups = normaliseGroups []"

record requested_line =
  rl_item :: nat
  rl_qty :: int
  rl_modifiers :: "(string \<times> string list) list option"

text \<open>The options picked of one group, each checked against the menu: what they add, and what is snapshotted.\<close>

definition pickOption :: "modifier_group \<Rightarrow> string \<Rightarrow> rat \<times> (string \<times> string \<times> rat) list \<Rightarrow> (rat \<times> (string \<times> string \<times> rat) list) result" where
  "pickOption g label acc =
     (case List.find (\<lambda>o'. fst o' = label) (mg_options g) of
        None \<Rightarrow> Inl (BadRequest VALIDATION_FAILED)
      | Some (l, price) \<Rightarrow> Inr (fst acc + price, snd acc @ [(mg_name g, l, price)]))"

definition picked :: "(string \<times> string list) list \<Rightarrow> modifier_group \<Rightarrow> string list" where
  "picked chosen g = js_unique (case List.find (\<lambda>c. fst c = mg_name g) chosen of None \<Rightarrow> [] | Some c \<Rightarrow> snd c)"

definition priceGroup ::
  "(string \<times> string list) list \<Rightarrow> modifier_group \<Rightarrow> rat \<times> (string \<times> string \<times> rat) list \<Rightarrow> (rat \<times> (string \<times> string \<times> rat) list) result" where
  "priceGroup chosen g acc =
     (if mg_required g \<and> picked chosen g = [] then Inl (BadRequest VALIDATION_FAILED)
      else if mg_selection g = SingleChoice \<and> 1 < length (picked chosen g) then Inl (BadRequest VALIDATION_FAILED)
      else foldr_res (pickOption g) (picked chosen g) acc)"

definition priceLine :: "menu_item list \<Rightarrow> requested_line \<Rightarrow> priced_line result" where
  "priceLine menu line =
     (case List.find (\<lambda>m. mn_id m = rl_item line) menu of
        None \<Rightarrow> Inl (NotFound NOT_FOUND)
      | Some item \<Rightarrow>
          if \<not> mn_isAvailable item then Inl (Conflict CONFLICT)
          else let groups = mn_modifiers item; chosen = the_default [] (rl_modifiers line)
          in if \<exists>c \<in> set chosen. fst c \<notin> mg_name ` set groups then Inl (BadRequest VALIDATION_FAILED)
          else bindr (foldr_res (priceGroup chosen) groups (mn_price item, [])) (\<lambda>(unitPrice, modifiers).
            Inr \<lparr>pl_item = mn_id item, pl_name = mn_name item, pl_qty = rl_qty line, pl_unitPrice = unitPrice,
                 pl_modifiers = modifiers, pl_lineTotal = unitPrice * of_int (rl_qty line)\<rparr>))"

definition priceOrder :: "menu_item list \<Rightarrow> requested_line list \<Rightarrow> (priced_line list \<times> rat) result" where
  "priceOrder menu requested =
     foldr_res (\<lambda>line (lines, subtotal).
         bindr (priceLine menu line) (\<lambda>l. Inr (lines @ [l], subtotal + pl_lineTotal l))) requested ([], 0)"

datatype order_discount = PercentOff rat "string option" | AmountOff rat "string option"

fun discount_reason :: "order_discount \<Rightarrow> string option" where
  "discount_reason (PercentOff _ r) = r"
| "discount_reason (AmountOff _ r) = r"

definition discountOff :: "decimal_lib \<Rightarrow> rat \<Rightarrow> order_discount option \<Rightarrow> rat result" where
  "discountOff D subtotal discount =
     (case discount of
        None \<Rightarrow> Inr 0
      | Some (PercentOff v _) \<Rightarrow>
          if 100 < v then Inl (BadRequest VALIDATION_FAILED) else Inr (d_dp2 D (d_div D (d_mul D subtotal v) 100))
      | Some (AmountOff v _) \<Rightarrow> if subtotal < v then Inl (BadRequest VALIDATION_FAILED) else Inr v)"

definition discountPct :: "decimal_lib \<Rightarrow> rat \<Rightarrow> rat \<Rightarrow> rat" where
  "discountPct D subtotal discount = (if subtotal = 0 then 0 else d_mul D (d_div D discount subtotal) 100)"

section \<open>What an order is priced at\<close>

text \<open>
  The price the menu asks for a line, and when a line can be ordered at all, each said without
  going through the choices in order.
\<close>

definition optionPrice :: "modifier_group \<Rightarrow> string \<Rightarrow> rat" where
  "optionPrice g label = the_default 0 (map_of (mg_options g) label)"

definition group_ok :: "(string \<times> string list) list \<Rightarrow> modifier_group \<Rightarrow> bool" where
  "group_ok chosen g \<longleftrightarrow>
     (mg_required g \<longrightarrow> picked chosen g \<noteq> []) \<and> (mg_selection g = SingleChoice \<longrightarrow> length (picked chosen g) \<le> 1) \<and>
     set (picked chosen g) \<subseteq> fst ` set (mg_options g)"

definition line_orderable :: "menu_item \<Rightarrow> requested_line \<Rightarrow> bool" where
  "line_orderable item line \<longleftrightarrow>
     mn_isAvailable item \<and> (\<forall>c \<in> set (the_default [] (rl_modifiers line)). fst c \<in> mg_name ` set (mn_modifiers item)) \<and>
     (\<forall>g \<in> set (mn_modifiers item). group_ok (the_default [] (rl_modifiers line)) g)"

definition unit_price :: "menu_item \<Rightarrow> requested_line \<Rightarrow> rat" where
  "unit_price item line = mn_price item +
     sum_list (map (\<lambda>g. sum_list (map (optionPrice g) (picked (the_default [] (rl_modifiers line)) g))) (mn_modifiers item))"

lemma find_fst_map_of: "List.find (\<lambda>o'. fst o' = k) xs = map_option (Pair k) (map_of xs k)"
  by (induction xs) auto

lemma pick_all:
  "foldr_res (pickOption g) ls acc =
     (if set ls \<subseteq> fst ` set (mg_options g)
      then Inr (fst acc + sum_list (map (optionPrice g) ls), snd acc @ map (\<lambda>l. (mg_name g, l, optionPrice g l)) ls)
      else Inl (BadRequest VALIDATION_FAILED))"
proof (induction ls arbitrary: acc)
  case (Cons l ls)
  show ?case
  proof (cases "map_of (mg_options g) l")
    case None
    then have "l \<notin> fst ` set (mg_options g)" by (simp add: map_of_eq_None_iff)
    with None show ?thesis by (simp add: pickOption_def find_fst_map_of)
  next
    case (Some p)
    then have "l \<in> fst ` set (mg_options g)" by (metis domI dom_map_of_conv_image_fst)
    moreover have "pickOption g l acc = Inr (fst acc + optionPrice g l, snd acc @ [(mg_name g, l, optionPrice g l)])"
      using Some by (simp add: pickOption_def find_fst_map_of optionPrice_def)
    ultimately show ?thesis by (simp add: Cons.IH ac_simps)
  qed
qed simp

lemma price_groups:
  "\<exists>ms. foldr_res (priceGroup chosen) gs acc =
     (if \<forall>g \<in> set gs. group_ok chosen g
      then Inr (fst acc + sum_list (map (\<lambda>g. sum_list (map (optionPrice g) (picked chosen g))) gs), ms)
      else Inl (BadRequest VALIDATION_FAILED))"
proof (induction gs arbitrary: acc)
  case Nil
  show ?case by (cases acc) auto
next
  case (Cons g gs)
  show ?case
  proof (cases "group_ok chosen g")
    case True
    let ?acc = "(fst acc + sum_list (map (optionPrice g) (picked chosen g)), snd acc @ map (\<lambda>l. (mg_name g, l, optionPrice g l)) (picked chosen g))"
    from True have "priceGroup chosen g acc = Inr ?acc" by (auto simp: priceGroup_def group_ok_def pick_all)
    moreover obtain ms where "foldr_res (priceGroup chosen) gs ?acc =
       (if \<forall>g \<in> set gs. group_ok chosen g
        then Inr (fst ?acc + sum_list (map (\<lambda>g. sum_list (map (optionPrice g) (picked chosen g))) gs), ms)
        else Inl (BadRequest VALIDATION_FAILED))"
      using Cons.IH[of ?acc] by blast
    ultimately show ?thesis using True by (intro exI[of _ ms]) (simp add: ac_simps)
  next
    case False
    then have "priceGroup chosen g acc = Inl (BadRequest VALIDATION_FAILED)" by (auto simp: priceGroup_def group_ok_def pick_all)
    with False show ?thesis by simp
  qed
qed

lemma price_line_eq:
  "(\<exists>l. priceLine menu line = Inr l \<and> pl_item l = rl_item line \<and> pl_qty l = rl_qty line \<and> pl_lineTotal l = t) \<longleftrightarrow>
   (\<exists>item. List.find (\<lambda>m. mn_id m = rl_item line) menu = Some item \<and> line_orderable item line \<and> t = unit_price item line * of_int (rl_qty line))"
proof (cases "List.find (\<lambda>m. mn_id m = rl_item line) menu")
  case (Some item)
  obtain ms where ms: "foldr_res (priceGroup (the_default [] (rl_modifiers line))) (mn_modifiers item) (mn_price item, []) =
     (if \<forall>g \<in> set (mn_modifiers item). group_ok (the_default [] (rl_modifiers line)) g
      then Inr (unit_price item line, ms) else Inl (BadRequest VALIDATION_FAILED))"
    using price_groups[of "the_default [] (rl_modifiers line)" "mn_modifiers item" "(mn_price item, [])"] unfolding unit_price_def fst_conv by blast
  show ?thesis
  proof (cases "line_orderable item line")
    case True
    then show ?thesis using Some find_Some_mem[OF Some] by (auto simp: priceLine_def Let_def ms line_orderable_def)
  next
    case False
    then have "\<nexists>l. priceLine menu line = Inr l" using Some by (auto simp: priceLine_def Let_def ms line_orderable_def)
    then show ?thesis using False Some by simp
  qed
qed (simp add: priceLine_def)

lemma price_fold:
  "foldr_res (\<lambda>line (lines, subtotal). bindr (priceLine menu line) (\<lambda>l. Inr (lines @ [l], subtotal + pl_lineTotal l))) req (ls, s) = Inr (lines, subtotal) \<longleftrightarrow>
   (\<exists>new. list_all2 (\<lambda>line l. priceLine menu line = Inr l) req new \<and> lines = ls @ new \<and> subtotal = s + sum_list (map pl_lineTotal new))"
proof (induction req arbitrary: ls s)
  case (Cons r req)
  show ?case
  proof (cases "priceLine menu r")
    case (Inr l)
    then show ?thesis by (auto simp: Cons.IH list_all2_Cons1 ac_simps)
  qed (auto simp: list_all2_Cons1)
qed auto

lemma price_order_eq:
  "(\<exists>lines. priceOrder menu req = Inr (lines, cost)) \<longleftrightarrow>
   (\<exists>new. list_all2 (\<lambda>line l. priceLine menu line = Inr l) req new \<and> cost = sum_list (map pl_lineTotal new))"
  by (simp add: priceOrder_def price_fold)

lemma price_line_sel: "priceLine menu r = Inr l \<Longrightarrow> pl_item l = rl_item r \<and> pl_qty l = rl_qty r"
  by (auto simp: priceLine_def Let_def res_simps dest: find_Some_mem split: option.splits if_splits)


section \<open>Choices as they are stored\<close>

lemma normaliseOptions_Inr:
  assumes "normaliseOptions seen os = Inr os'"
  shows "normaliseOptions seen os' = Inr os'" and "distinct (map (js_lower \<circ> fst) os')"
    and "set (map (js_lower \<circ> fst) os') \<inter> set seen = {}" and "map snd os' = map snd os" and "map fst os' = map (js_trim \<circ> fst) os"
proof -
  have "normaliseOptions seen os' = Inr os' \<and> distinct (map (js_lower \<circ> fst) os') \<and> set (map (js_lower \<circ> fst) os') \<inter> set seen = {} \<and>
    map snd os' = map snd os \<and> map fst os' = map (js_trim \<circ> fst) os"
    using assms
  proof (induction seen os arbitrary: os' rule: normaliseOptions.induct)
    case (2 seen label price os)
    from "2.prems" obtain rest where n: "js_trim label \<noteq> []" "js_lower (js_trim label) \<notin> set seen"
      and r: "normaliseOptions (js_lower (js_trim label) # seen) os = Inr rest" and os': "os' = (js_trim label, price) # rest"
      by (auto simp: Let_def res_simps split: if_splits)
    show ?case using "2.IH"[OF refl n r] n by (auto simp: os' Let_def)
  qed simp
  then show "normaliseOptions seen os' = Inr os'" and "distinct (map (js_lower \<circ> fst) os')"
    and "set (map (js_lower \<circ> fst) os') \<inter> set seen = {}" and "map snd os' = map snd os" and "map fst os' = map (js_trim \<circ> fst) os"
    by blast+
qed

lemma normaliseGroups_Inr:
  assumes "normaliseGroups seen gs = Inr gs'"
  shows "normaliseGroups seen gs' = Inr gs' \<and> distinct (map (js_lower \<circ> mg_name) gs') \<and> set (map (js_lower \<circ> mg_name) gs') \<inter> set seen = {} \<and>
    (\<forall>g \<in> set gs'. normaliseOptions [] (mg_options g) = Inr (mg_options g)) \<and> map mg_name gs' = map (js_trim \<circ> mg_name) gs"
  using assms
proof (induction seen gs arbitrary: gs' rule: normaliseGroups.induct)
  case (2 seen g gs)
  from "2.prems" obtain os rest where n: "js_trim (mg_name g) \<noteq> []" "js_lower (js_trim (mg_name g)) \<notin> set seen"
    and os: "normaliseOptions [] (mg_options g) = Inr os"
    and r: "normaliseGroups (js_lower (js_trim (mg_name g)) # seen) gs = Inr rest"
    and gs': "gs' = g\<lparr>mg_name := js_trim (mg_name g), mg_options := os\<rparr> # rest"
    by (auto simp: Let_def res_simps split: if_splits)
  note ih = "2.IH"[OF refl n os r]
  show ?case using ih n normaliseOptions_Inr(1)[OF os] by (auto simp: gs' Let_def)
qed simp

lemma distinct_find: "distinct (map f xs) \<Longrightarrow> x \<in> set xs \<Longrightarrow> List.find (\<lambda>y. f y = f x) xs = Some x"
  by (induction xs) auto

lemma distinct_map_comp: "distinct (map (f \<circ> g) xs) \<Longrightarrow> distinct (map g xs)"
  by (induction xs) (auto simp: image_iff)

text \<open>
  C36. The choices of a menu item are stored in a form the till can use: saving them again
  changes nothing, their names are the entered ones trimmed, and every choice and every one of
  its options is found by its own name, none hidden behind another of the same name.
\<close>

theorem stored_choices_reachable:
  assumes "normaliseModifierGroups gs = Inr stored"
  shows "normaliseModifierGroups stored = Inr stored \<and> map mg_name stored = map (js_trim \<circ> mg_name) gs \<and>
    (\<forall>g \<in> set stored. List.find (\<lambda>x. mg_name x = mg_name g) stored = Some g \<and>
       (\<forall>opt \<in> set (mg_options g). List.find (\<lambda>x. fst x = fst opt) (mg_options g) = Some opt))"
proof (intro conjI ballI)
  note n = normaliseGroups_Inr[OF assms[unfolded normaliseModifierGroups_def]]
  show "normaliseModifierGroups stored = Inr stored" "map mg_name stored = map (js_trim \<circ> mg_name) gs"
    using n by (simp_all add: normaliseModifierGroups_def)
  fix g assume g: "g \<in> set stored"
  have "distinct (map (js_lower \<circ> mg_name) stored)" using n by blast
  then show "List.find (\<lambda>x. mg_name x = mg_name g) stored = Some g" by (rule distinct_find[OF distinct_map_comp g])
  fix opt assume opt: "opt \<in> set (mg_options g)"
  have "distinct (map (js_lower \<circ> fst) (mg_options g))" using n g normaliseOptions_Inr(2) by blast
  then show "List.find (\<lambda>x. fst x = fst opt) (mg_options g) = Some opt" by (rule distinct_find[OF distinct_map_comp opt])
qed

definition ex_choices :: "modifier_group list" where
  "ex_choices = [\<lparr>mg_name = '' Size '', mg_selection = SingleChoice, mg_required = True, mg_options = [(''Small'', 0), ('' Large'', 2)]\<rparr>]"

definition ex_stored :: "modifier_group list" where
  "ex_stored = [\<lparr>mg_name = ''Size'', mg_selection = SingleChoice, mg_required = True, mg_options = [(''Small'', 0), (''Large'', 2)]\<rparr>]"

theorem stored_choices_reachable_witness:
  "normaliseModifierGroups ex_choices = Inr ex_stored \<and> normaliseModifierGroups ex_stored = Inr ex_stored"
proof -
  have "normaliseModifierGroups ex_choices = Inr ex_stored" by code_simp
  with stored_choices_reachable[OF this] show ?thesis by blast
qed

section \<open>Discounts\<close>

definition discount_value :: "order_discount \<Rightarrow> rat" where
  "discount_value x = (case x of PercentOff v _ \<Rightarrow> v | AmountOff v _ \<Rightarrow> v)"

context decimal_arith
begin

lemma mul_upper:
  assumes "0 \<le> a" and "0 \<le> b"
  shows "d_mul D a b \<le> a * b + a * b / 10 ^ 19" and "a * b - a * b / 10 ^ 19 \<le> d_mul D a b"
proof -
  have "0 \<le> a * b" using assms by simp
  then have "\<bar>a * b\<bar> = a * b" by simp
  with mul_err[of a b] show "d_mul D a b \<le> a * b + a * b / 10 ^ 19" and "a * b - a * b / 10 ^ 19 \<le> d_mul D a b"
    by linarith+
qed

lemma percent_le:
  assumes "is_money s" and "0 \<le> s" and "s \<le> 10 ^ 14" and "0 \<le> v" and "v \<le> 100"
  shows "d_dp2 D (d_div D (d_mul D s v) 100) \<le> s"
proof (rule dp2_le_money[OF assms(1)])
  let ?e = "1 / 10 ^ 19 :: rat"
  have sv: "s * v \<le> s * 100" using assms by (intro mult_left_mono) simp_all
  have "d_mul D s v \<le> s * v + s * v * ?e" using mul_upper(1)[OF assms(2,4)] by simp
  also have "\<dots> \<le> s * 100 + s * 100 * ?e" using sv by (intro add_mono mult_right_mono) simp_all
  finally have "d_mul D s v \<le> (s + s * ?e) * 100" by (simp add: algebra_simps)
  then have "d_div D (d_mul D s v) 100 \<le> (s + s * ?e) + (s + s * ?e) / 10 ^ 19"
    using mul_nonneg[OF assms(2,4)] by (intro div_upper) simp_all
  also have "\<dots> = s + s * (2 * ?e + ?e * ?e)" by (simp add: algebra_simps)
  also have "\<dots> \<le> s + 10 ^ 14 * (2 * ?e + ?e * ?e)" using assms(3) by (intro add_left_mono mult_right_mono) simp_all
  also have "\<dots> < s + 1 / 200" by simp
  finally show "d_div D (d_mul D s v) 100 < s + 1 / 200" .
qed

lemma discountOff_bounds:
  assumes "discountOff D s disc = Inr off" and "is_money s" and "0 \<le> s" and "s \<le> 10 ^ 14"
    and "\<And>x. disc = Some x \<Longrightarrow> 0 \<le> discount_value x \<and> is_money (discount_value x)"
  shows "0 \<le> off" and "off \<le> s" and "is_money off"
proof -
  have "0 \<le> off \<and> off \<le> s \<and> is_money off"
  proof (cases disc)
    case None
    with assms show ?thesis by (simp add: discountOff_def)
  next
    case (Some x)
    with assms(5) have v: "0 \<le> discount_value x" "is_money (discount_value x)" by blast+
    show ?thesis
    proof (cases x)
      case (PercentOff p r)
      with assms(1) Some have p: "p \<le> 100" "off = d_dp2 D (d_div D (d_mul D s p) 100)" by (auto simp: discountOff_def split: if_splits)
      have "0 \<le> p" using v PercentOff by (simp add: discount_value_def)
      with percent_le[OF assms(2-4) this p(1)] p(2) dp2_money show ?thesis
        using dp2_nonneg[OF div_nonneg[OF mul_nonneg[OF assms(3) \<open>0 \<le> p\<close>]], of 100] by simp
    next
      case (AmountOff p r)
      with assms(1) Some v show ?thesis by (auto simp: discountOff_def discount_value_def split: if_splits)
    qed
  qed
  then show "0 \<le> off" and "off \<le> s" and "is_money off" by blast+
qed

text \<open>The till's percentage check is exact: two decimals of limit and whole cents leave no room for the division's error.\<close>

lemma discountPct_exact:
  assumes "is_money s" and "0 < s" and "s \<le> 10 ^ 10" and "is_money off" and "0 \<le> off" and "is_money limit" and "limit \<le> 100"
    and "discountPct D s off \<le> limit"
  shows "off * 100 \<le> limit * s"
proof -
  let ?e = "1 / 10 ^ 19 :: rat"
  define q where "q = d_div D off s"
  have pq: "0 \<le> off / s" using assms by simp
  have "\<bar>off / s\<bar> = off / s" using pq by (rule abs_of_nonneg)
  with div_err[of s off] assms(2) have "off / s - off / s / 10 ^ 19 \<le> q" unfolding q_def by linarith
  then have q: "off / s * (1 - ?e) \<le> q" by (simp add: algebra_simps)
  have q0: "0 \<le> q" unfolding q_def using assms by (intro div_nonneg) simp_all
  have "q * 100 * (1 - ?e) \<le> limit"
    using mul_upper(2)[OF q0, of 100] assms(8,2) by (simp add: discountPct_def q_def[symmetric] algebra_simps)
  moreover have "off / s * (1 - ?e) * 100 * (1 - ?e) \<le> q * 100 * (1 - ?e)" using q by (intro mult_right_mono) simp_all
  ultimately have "off / s * (1 - ?e) * 100 * (1 - ?e) \<le> limit" by linarith
  then have "off / s * (1 - ?e) * 100 * (1 - ?e) * s \<le> limit * s" using assms(2) by (intro mult_right_mono) simp_all
  then have a: "off * 100 * ((1 - ?e) * (1 - ?e)) \<le> limit * s" using assms(2) by (simp add: field_simps)
  obtain k m n where k: "off = of_int k / 100" and m: "limit = of_int m / 100" and n: "s = of_int n / 100"
    using assms(1,4,6) by (metis is_money_iff)
  have "0 \<le> limit * s" using order_trans[OF _ a] assms(5) by simp
  then have b: "0 \<le> limit" using assms(2) by (simp add: zero_le_mult_iff)
  have ls: "limit * s \<le> 100 * 10 ^ 10" using assms b by (intro mult_mono) simp_all
  have off: "off * 100 \<le> 2 * 10 ^ 12"
  proof (rule ccontr)
    assume "\<not> ?thesis"
    then have "2 * 10 ^ 12 * ((1 - ?e) * (1 - ?e)) \<le> off * 100 * ((1 - ?e) * (1 - ?e))" by (intro mult_right_mono) simp_all
    with a ls show False by simp
  qed
  have "off * 100 * (1 - (1 - ?e) * (1 - ?e)) \<le> 2 * 10 ^ 12 * (1 - (1 - ?e) * (1 - ?e))" using off by (intro mult_right_mono) simp_all
  also have "\<dots> < 1 / 10 ^ 4" by simp
  finally have "off * 100 < limit * s + 1 / 10 ^ 4" using a by (simp add: algebra_simps)
  then have "(of_int (k * 10 ^ 4) :: rat) < of_int (m * n + 1)" unfolding k m n by (simp add: field_simps)
  then have "k * 10 ^ 4 \<le> m * n" by (simp only: of_int_less_iff)
  then have "(of_int (k * 10 ^ 4) :: rat) \<le> of_int (m * n)" by (simp only: of_int_le_iff)
  then show ?thesis unfolding k m n by simp
qed

end

end
