(* ===== verification/Pos.thy ===== *)
theory Pos
  imports Folios Pos_Pricing
begin

text \<open>
  The outlets' tills (\<^verbatim>\<open>src/src/modules/pos/pos.service.ts\<close>). A basket is priced from the outlet's own
  menu, less a discount, with the branch's taxes; a sale is numbered per outlet and settled to a
  guest's bill, in cash, by card, or split; a void takes a room charge back off the bill.

  Listings are in table order (the collation a listing sorts names by is the database's); the
  database's case-insensitive comparison is that of ASCII letters. A deleted menu item is
  flagged. The text of a void reason is checked and not kept.
\<close>

section \<open>Who may do what\<close>

definition POS_SUPERVISOR_ROLES :: "string list" where
  "POS_SUPERVISOR_ROLES = [''owner'', ''manager'']"

definition ALL_OUTLET_ROLES :: "string list" where
  "ALL_OUTLET_ROLES = [''owner'', ''manager'', ''front_desk'']"

definition hasRoleAt :: "jwt \<Rightarrow> nat \<Rightarrow> string list \<Rightarrow> bool" where
  "hasRoleAt actor branchId roles \<longleftrightarrow>
     (\<exists>r \<in> set (jw_roles actor). ra_role r \<in> set roles \<and> (ra_branch r = None \<or> ra_branch r = Some branchId))"

definition assertSupervisorAt :: "jwt \<Rightarrow> nat \<Rightarrow> unit result" where
  "assertSupervisorAt actor branchId = (if hasRoleAt actor branchId POS_SUPERVISOR_ROLES then Inr () else Inl (Forbidden FORBIDDEN))"

definition assertCanRingUp :: "db \<Rightarrow> jwt \<Rightarrow> outlet \<Rightarrow> unit result" where
  "assertCanRingUp d actor outlet =
     (if hasRoleAt actor (ou_branch outlet) ALL_OUTLET_ROLES then Inr ()
      else if hasRoleAt actor (ou_branch outlet) [''pos_staff'']
        then (if (jw_sub actor, ou_id outlet) \<in> set (db_userOutlets d) then Inr () else Inl (Forbidden FORBIDDEN))
      else Inl (Forbidden FORBIDDEN))"

definition assertOutletActive :: "outlet \<Rightarrow> unit result" where
  "assertOutletActive outlet = (if ou_isActive outlet then Inr () else Inl (Conflict CONFLICT))"

definition assertOutletNameFree :: "db \<Rightarrow> nat \<Rightarrow> string \<Rightarrow> nat option \<Rightarrow> unit result" where
  "assertOutletNameFree d branchId name exceptId =
     (if \<exists>o' \<in> set (db_outlets d). ou_branch o' = branchId \<and> js_lower (ou_name o') = js_lower name \<and> Some (ou_id o') \<noteq> exceptId
      then Inl (Conflict CONFLICT) else Inr ())"

definition findOutletOrThrow :: "db \<Rightarrow> nat \<Rightarrow> outlet result" where
  "findOutletOrThrow d outletId =
     (case List.find (\<lambda>o'. ou_id o' = outletId) (db_outlets d) of None \<Rightarrow> Inl (NotFound NOT_FOUND) | Some o' \<Rightarrow> Inr o')"

definition findMenuItemOrThrow :: "db \<Rightarrow> nat \<Rightarrow> menu_item result" where
  "findMenuItemOrThrow d itemId =
     (case List.find (\<lambda>m. mn_id m = itemId \<and> \<not> mn_deleted m) (db_menuItems d) of None \<Rightarrow> Inl (NotFound NOT_FOUND) | Some m \<Rightarrow> Inr m)"

definition requireText :: "string \<Rightarrow> string result" where
  "requireText value = (let t = js_trim value in if t = [] then Inl (BadRequest VALIDATION_FAILED) else Inr t)"

section \<open>Outlets and menus\<close>

record outlet_dto =
  od_name :: string
  od_category :: outlet_category
  od_sortOrder :: "int option"
  od_discountLimit :: "rat option"

text \<open>What an outlet listing shows an actor.\<close>

definition listOutlets :: "nat \<Rightarrow> jwt \<Rightarrow> db \<Rightarrow> outlet list result" where
  "listOutlets branchId actor d =
     bindr (assertBranch d branchId) (\<lambda>_.
       Inr (filter (\<lambda>o'. ou_branch o' = branchId \<and>
           (hasRoleAt actor branchId POS_SUPERVISOR_ROLES \<or> ou_isActive o') \<and>
           (hasRoleAt actor branchId ALL_OUTLET_ROLES \<or> (jw_sub actor, ou_id o') \<in> set (db_userOutlets d))) (db_outlets d)))"

definition createOutlet :: "nat \<Rightarrow> outlet_dto \<Rightarrow> nat \<Rightarrow> db \<Rightarrow> (outlet \<times> db) result" where
  "createOutlet branchId dto actorId d =
     bindr (assertBranch d branchId) (\<lambda>_.
     bindr (requireText (od_name dto)) (\<lambda>name.
     bindr (assertOutletNameFree d branchId name None) (\<lambda>_.
       let row = \<lparr>ou_id = db_next d, ou_branch = branchId, ou_name = name, ou_category = od_category dto,
             ou_chargeType = OUTLET_CHARGE_TYPES (od_category dto), ou_isActive = True, ou_sortOrder = od_sortOrder dto,
             ou_discountLimit = od_discountLimit dto\<rparr>;
           d = d\<lparr>db_outlets := db_outlets d @ [row], db_next := Suc (db_next d)\<rparr>
       in Inr (row, audit branchId (Some actorId) ''outlet.created'' (ou_id row) d))))"

record outlet_patch =
  op_name :: "string option"
  op_isActive :: "bool option"
  op_sortOrder :: "int option"
  op_discountLimit :: "rat option option"

definition patched_outlet :: "outlet_patch \<Rightarrow> string option \<Rightarrow> outlet \<Rightarrow> outlet" where
  "patched_outlet dto name o' =
     o'\<lparr>ou_name := the_default (ou_name o') name, ou_isActive := the_default (ou_isActive o') (op_isActive dto),
        ou_sortOrder := (if op_sortOrder dto = None then ou_sortOrder o' else op_sortOrder dto),
        ou_discountLimit := the_default (ou_discountLimit o') (op_discountLimit dto)\<rparr>"

text \<open>\<open>x === undefined ? undefined : requireText(x)\<close>.\<close>

definition requireOptional :: "string option \<Rightarrow> string option result" where
  "requireOptional x = (case x of None \<Rightarrow> Inr None | Some v \<Rightarrow> bindr (requireText v) (\<lambda>t. Inr (Some t)))"

definition updateOutlet :: "nat \<Rightarrow> outlet_patch \<Rightarrow> jwt \<Rightarrow> db \<Rightarrow> (outlet \<times> db) result" where
  "updateOutlet outletId dto actor d =
     bindr (findOutletOrThrow d outletId) (\<lambda>outlet.
     bindr (assertSupervisorAt actor (ou_branch outlet)) (\<lambda>_.
     bindr (requireOptional (op_name dto)) (\<lambda>name.
     bindr (case name of None \<Rightarrow> Inr () | Some n \<Rightarrow> assertOutletNameFree d (ou_branch outlet) n (Some (ou_id outlet))) (\<lambda>_.
       let d = d\<lparr>db_outlets := map (\<lambda>o'. if ou_id o' = outletId then patched_outlet dto name o' else o') (db_outlets d)\<rparr>
       in Inr (patched_outlet dto name outlet, audit (ou_branch outlet) (Some (jw_sub actor)) ''outlet.updated'' outletId d)))))"

definition listMenu :: "nat \<Rightarrow> jwt \<Rightarrow> db \<Rightarrow> (outlet \<times> string \<times> menu_item list) result" where
  "listMenu outletId actor d =
     bindr (findOutletOrThrow d outletId) (\<lambda>outlet.
     bindr (assertCanRingUp d actor outlet) (\<lambda>_.
     bindr (assertBranch d (ou_branch outlet)) (\<lambda>branch.
       Inr (outlet, br_currency branch, filter (\<lambda>m. mn_outlet m = outletId \<and> \<not> mn_deleted m) (db_menuItems d)))))"

record menu_item_dto =
  md_name :: string
  md_category :: string
  md_price :: rat
  md_isAvailable :: "bool option"
  md_sortOrder :: "int option"
  md_modifiers :: "modifier_group list option"

definition createMenuItem :: "nat \<Rightarrow> menu_item_dto \<Rightarrow> jwt \<Rightarrow> db \<Rightarrow> (menu_item \<times> db) result" where
  "createMenuItem outletId dto actor d =
     bindr (findOutletOrThrow d outletId) (\<lambda>outlet.
     bindr (assertSupervisorAt actor (ou_branch outlet)) (\<lambda>_.
     bindr (requireText (md_name dto)) (\<lambda>name.
     bindr (requireText (md_category dto)) (\<lambda>category.
     bindr (normaliseModifierGroups (the_default [] (md_modifiers dto))) (\<lambda>modifiers.
       let row = \<lparr>mn_id = db_next d, mn_branch = ou_branch outlet, mn_outlet = outletId, mn_name = name, mn_category = category,
             mn_price = num2 (md_price dto), mn_isAvailable = the_default True (md_isAvailable dto), mn_modifiers = modifiers,
             mn_sortOrder = md_sortOrder dto, mn_deleted = False\<rparr>;
           d = d\<lparr>db_menuItems := db_menuItems d @ [row], db_next := Suc (db_next d)\<rparr>
       in Inr (row, audit (ou_branch outlet) (Some (jw_sub actor)) ''menu_item.created'' (mn_id row) d))))))"

definition update_item :: "nat \<Rightarrow> (menu_item \<Rightarrow> menu_item) \<Rightarrow> db \<Rightarrow> db" where
  "update_item itemId upd d = d\<lparr>db_menuItems := map (\<lambda>m. if mn_id m = itemId then upd m else m) (db_menuItems d)\<rparr>"

record menu_item_patch =
  mp_name :: "string option"
  mp_category :: "string option"
  mp_price :: "rat option"
  mp_isAvailable :: "bool option"
  mp_sortOrder :: "int option"
  mp_modifiers :: "modifier_group list option"

definition updateMenuItem :: "nat \<Rightarrow> menu_item_patch \<Rightarrow> jwt \<Rightarrow> db \<Rightarrow> (menu_item \<times> db) result" where
  "updateMenuItem itemId dto actor d =
     bindr (findMenuItemOrThrow d itemId) (\<lambda>item.
     bindr (assertSupervisorAt actor (mn_branch item)) (\<lambda>_.
     bindr (requireOptional (mp_name dto)) (\<lambda>name.
     bindr (requireOptional (mp_category dto)) (\<lambda>category.
     bindr (case mp_modifiers dto of None \<Rightarrow> Inr None | Some gs \<Rightarrow> bindr (normaliseModifierGroups gs) (\<lambda>gs. Inr (Some gs))) (\<lambda>modifiers.
       let upd = (\<lambda>m. m\<lparr>mn_name := the_default (mn_name m) name, mn_category := the_default (mn_category m) category,
             mn_price := (case mp_price dto of None \<Rightarrow> mn_price m | Some p \<Rightarrow> num2 p),
             mn_isAvailable := the_default (mn_isAvailable m) (mp_isAvailable dto),
             mn_sortOrder := (if mp_sortOrder dto = None then mn_sortOrder m else mp_sortOrder dto),
             mn_modifiers := the_default (mn_modifiers m) modifiers\<rparr>)
       in Inr (upd item, audit (mn_branch item) (Some (jw_sub actor)) ''menu_item.updated'' itemId (update_item itemId upd d)))))))"

definition setAvailability :: "nat \<Rightarrow> bool \<Rightarrow> jwt \<Rightarrow> db \<Rightarrow> (menu_item \<times> db) result" where
  "setAvailability itemId isAvailable actor d =
     bindr (findMenuItemOrThrow d itemId) (\<lambda>item.
     bindr (findOutletOrThrow d (mn_outlet item)) (\<lambda>outlet.
     bindr (assertCanRingUp d actor outlet) (\<lambda>_.
       let upd = mn_isAvailable_update (\<lambda>_. isAvailable)
       in Inr (upd item, audit (mn_branch item) (Some (jw_sub actor)) (if isAvailable then ''menu_item.available'' else ''menu_item.unavailable'') itemId
            (update_item itemId upd d)))))"

definition deleteMenuItem :: "nat \<Rightarrow> jwt \<Rightarrow> db \<Rightarrow> (menu_item \<times> db) result" where
  "deleteMenuItem itemId actor d =
     bindr (findMenuItemOrThrow d itemId) (\<lambda>item.
     bindr (assertSupervisorAt actor (mn_branch item)) (\<lambda>_.
       let upd = mn_deleted_update (\<lambda>_. True)
       in Inr (upd item, audit (mn_branch item) (Some (jw_sub actor)) ''menu_item.deleted'' itemId (update_item itemId upd d))))"

section \<open>Selling\<close>

definition priceBasket ::
  "decimal_lib \<Rightarrow> outlet \<Rightarrow> requested_line list \<Rightarrow> order_discount option \<Rightarrow> jwt \<Rightarrow> db \<Rightarrow> (priced_line list \<times> rat \<times> rat \<times> priced_charge) result" where
  "priceBasket D outlet items discountAsked actor d =
     (let menu = filter (\<lambda>m. mn_outlet m = ou_id outlet \<and> mn_id m \<in> rl_item ` set items \<and> \<not> mn_deleted m) (db_menuItems d)
      in bindr (priceOrder menu items) (\<lambda>(lines, subtotal).
         bindr (discountOff D subtotal discountAsked) (\<lambda>discount.
         bindr (if 0 < discount \<and> \<not> hasRoleAt actor (ou_branch outlet) POS_SUPERVISOR_ROLES
                then (case ou_discountLimit outlet of
                        None \<Rightarrow> Inl (Forbidden FORBIDDEN)
                      | Some limit \<Rightarrow>
                          if limit = 0 then Inl (Forbidden FORBIDDEN)
                          else if limit < discountPct D subtotal discount then Inl (Forbidden FORBIDDEN)
                          else Inr ())
                else Inr ()) (\<lambda>_.
         bindr (previewCharge D d (ou_branch outlet) (ou_chargeType outlet) (subtotal - discount)) (\<lambda>priced.
           Inr (lines, subtotal, discount, priced))))))"

record pos_quote =
  qu_lines :: "priced_line list"
  qu_itemsTotal :: rat
  qu_discount :: rat
  qu_subtotal :: rat
  qu_taxTotal :: rat
  qu_taxIncluded :: rat
  qu_total :: rat

definition quote :: "decimal_lib \<Rightarrow> nat \<Rightarrow> requested_line list \<Rightarrow> order_discount option \<Rightarrow> jwt \<Rightarrow> db \<Rightarrow> pos_quote result" where
  "quote D outletId items discount actor d =
     bindr (findOutletOrThrow d outletId) (\<lambda>outlet.
     bindr (assertOutletActive outlet) (\<lambda>_.
     bindr (assertCanRingUp d actor outlet) (\<lambda>_.
     bindr (assertBranch d (ou_branch outlet)) (\<lambda>_.
     bindr (priceBasket D outlet items discount actor d) (\<lambda>(lines, itemsTotal, off, priced).
       Inr \<lparr>qu_lines = lines, qu_itemsTotal = itemsTotal, qu_discount = off, qu_subtotal = pc_price priced,
            qu_taxTotal = pc_addedTax priced, qu_taxIncluded = pc_includedTax priced, qu_total = pc_total priced\<rparr>)))))"

record pos_order_dto =
  cd_outlet :: nat
  cd_items :: "requested_line list"
  cd_discount :: "order_discount option"
  cd_settlement :: pos_settlement
  cd_cashAmount :: "rat option"
  cd_reservation :: "nat option"

text \<open>The table's own checks (\<^verbatim>\<open>pos_orders_amounts_non_negative\<close>, \<^verbatim>\<open>_room_settlement_links\<close>, \<^verbatim>\<open>_takings_add_up\<close>, \<^verbatim>\<open>_discount_reason\<close>) and its two unique indexes.\<close>

definition order_checks :: "pos_order \<Rightarrow> bool" where
  "order_checks o' \<longleftrightarrow>
     0 \<le> po_subtotal o' \<and> 0 \<le> po_taxTotal o' \<and> po_total o' = po_subtotal o' + po_taxTotal o' \<and>
     (if po_settlement o' = ToRoom then po_reservation o' \<noteq> None \<and> po_folio o' \<noteq> None \<and> po_lineItem o' \<noteq> None
      else po_reservation o' = None \<and> po_folio o' = None \<and> po_lineItem o' = None) \<and>
     0 \<le> po_cashAmount o' \<and> 0 \<le> po_cardAmount o' \<and>
     (if po_settlement o' = ToRoom then po_cashAmount o' = 0 \<and> po_cardAmount o' = 0 else po_cashAmount o' + po_cardAmount o' = po_total o') \<and>
     0 \<le> po_discount o' \<and> (po_discount o' = 0 \<or> po_discountReason o' \<noteq> None)"

definition insert_order :: "pos_order \<Rightarrow> db \<Rightarrow> (pos_order \<times> db) result" where
  "insert_order o' d =
     (let row = o'\<lparr>po_id := db_next d, po_subtotal := num2 (po_subtotal o'), po_taxTotal := num2 (po_taxTotal o'), po_total := num2 (po_total o'),
            po_discount := num2 (po_discount o'), po_cashAmount := num2 (po_cashAmount o'), po_cardAmount := num2 (po_cardAmount o')\<rparr>
      in if \<not> order_checks row then Inl CheckViolation
         else if \<exists>x \<in> set (db_posOrders d). po_outlet x = po_outlet row \<and> po_orderNo x = po_orderNo row then Inl UniqueViolation
         else if po_lineItem row \<noteq> None \<and> (\<exists>x \<in> set (db_posOrders d). po_lineItem x = po_lineItem row) then Inl UniqueViolation
         else Inr (row, d\<lparr>db_posOrders := db_posOrders d @ [row], db_next := Suc (db_next d)\<rparr>))"

definition nextOrderNo :: "db \<Rightarrow> nat \<Rightarrow> nat" where
  "nextOrderNo d outletId = foldr max (map po_orderNo (filter (\<lambda>o'. po_outlet o' = outletId) (db_posOrders d))) 0 + 1"

text \<open>Charging the guest's bill: the stay and bill it went on, the posted line, and the new database.\<close>

definition chargeToRoom ::
  "decimal_lib \<Rightarrow> tz_offset \<Rightarrow> outlet \<Rightarrow> branch \<Rightarrow> nat option \<Rightarrow> rat \<Rightarrow> nat \<Rightarrow> instant \<Rightarrow> db \<Rightarrow> ((nat \<times> nat \<times> line_item) \<times> db) result" where
  "chargeToRoom D tzo outlet branch reservationId amount actorId now d =
     (case List.find (\<lambda>r. Some (re_id r) = reservationId \<and> re_branch r = ou_branch outlet \<and> \<not> re_deleted r) (db_reservations d) of
        None \<Rightarrow> Inl (NotFound NOT_FOUND)
      | Some reservation \<Rightarrow>
          if re_status reservation \<noteq> Checked_in then Inl (Conflict CONFLICT)
          else let (folio, d) = ensurePrimaryFolio reservation (Some actorId) now d
          in if fo_status folio = Settled then Inl (Conflict CONFLICT)
          else bindr (postOutletCharge D folio (ou_id outlet) (ou_chargeType outlet) amount
                 (toBranchDate (todayInTimezone tzo (br_timezone branch) now)) actorId d) (\<lambda>(lineItem, d).
            case lineItem of
              None \<Rightarrow> Inl (BadRequest VALIDATION_FAILED)
            | Some l \<Rightarrow> Inr ((re_id reservation, fo_id folio, l), d)))"

text \<open>What the outlet took in cash and by card.\<close>

definition takings :: "pos_settlement \<Rightarrow> rat option \<Rightarrow> rat \<Rightarrow> (rat \<times> rat) result" where
  "takings settlement cashAsked orderTotal =
     (case settlement of
        ToRoom \<Rightarrow> Inr (0, 0)
      | ByCash \<Rightarrow> Inr (orderTotal, 0)
      | ByCard \<Rightarrow> Inr (0, orderTotal)
      | BySplit \<Rightarrow> (let cash = the_default 0 cashAsked in if \<not> cash < orderTotal then Inl (BadRequest VALIDATION_FAILED) else Inr (cash, orderTotal - cash)))"

text \<open>
  The settlement of a sale: a room charge posts its line and takes the ledger's own figures, a
  cash or split sale needs the cashier's open drawer. Answers the net, the tax, the bill it went
  on, the drawer, and the new database.
\<close>

definition settleOrder ::
  "decimal_lib \<Rightarrow> tz_offset \<Rightarrow> pos_order_dto \<Rightarrow> outlet \<Rightarrow> branch \<Rightarrow> priced_charge \<Rightarrow> nat \<Rightarrow> instant \<Rightarrow> db \<Rightarrow>
   (rat \<times> rat \<times> (nat \<times> nat \<times> nat) option \<times> nat option \<times> db) result" where
  "settleOrder D tzo dto outlet branch priced actorId now d =
     (if cd_settlement dto = ToRoom
      then bindr (chargeToRoom D tzo outlet branch (cd_reservation dto) (pc_price priced) actorId now d) (\<lambda>((r, f, l), d).
             Inr (li_amount l, li_taxAmount l, Some (r, f, li_id l), None, d))
      else if cd_settlement dto \<in> {ByCash, BySplit}
      then (case openShiftOf d (ou_branch outlet) actorId of
              None \<Rightarrow> Inl (Conflict SHIFT_REQUIRED)
            | Some s \<Rightarrow> Inr (pc_net priced, pc_taxTotal priced, None, Some (sh_id s), d))
      else Inr (pc_net priced, pc_taxTotal priced, None, None, d))"

definition new_order ::
  "pos_order_dto \<Rightarrow> outlet \<Rightarrow> nat \<Rightarrow> priced_line list \<Rightarrow> rat \<Rightarrow> string option \<Rightarrow> rat \<Rightarrow> rat \<Rightarrow> (nat \<times> nat \<times> nat) option \<Rightarrow> nat option \<Rightarrow>
   rat \<Rightarrow> rat \<Rightarrow> nat \<Rightarrow> instant \<Rightarrow> pos_order" where
  "new_order dto outlet orderNo lines discount reason net taxTotal room shiftId cash byCard actorId now =
     \<lparr>po_id = 0, po_branch = ou_branch outlet, po_outlet = ou_id outlet, po_orderNo = orderNo,
      po_settlement = cd_settlement dto, po_items = lines, po_subtotal = net, po_taxTotal = taxTotal, po_total = net + taxTotal,
      po_discount = discount, po_discountReason = reason, po_cashAmount = cash, po_cardAmount = byCard,
      po_reservation = map_option fst room, po_folio = map_option (fst \<circ> snd) room, po_lineItem = map_option (snd \<circ> snd) room,
      po_shift = shiftId, po_createdBy = Some actorId, po_createdAt = now, po_voidedAt = None, po_voidedBy = None\<rparr>"

definition discountReasonFor :: "pos_order_dto \<Rightarrow> rat \<Rightarrow> string option result" where
  "discountReasonFor dto discount =
     (if 0 < discount
      then bindr (requireText (case cd_discount dto of None \<Rightarrow> [] | Some x \<Rightarrow> the_default [] (discount_reason x))) (\<lambda>t. Inr (Some t))
      else Inr None)"

definition createOrder :: "decimal_lib \<Rightarrow> tz_offset \<Rightarrow> pos_order_dto \<Rightarrow> jwt \<Rightarrow> instant \<Rightarrow> db \<Rightarrow> (pos_order \<times> db) result" where
  "createOrder D tzo dto actor now d =
     bindr (findOutletOrThrow d (cd_outlet dto)) (\<lambda>outlet.
     bindr (assertOutletActive outlet) (\<lambda>_.
     bindr (assertCanRingUp d actor outlet) (\<lambda>_.
     bindr (assertBranch d (ou_branch outlet)) (\<lambda>branch.
     if cd_settlement dto = ToRoom \<and> cd_reservation dto = None then Inl (BadRequest VALIDATION_FAILED)
     else if cd_settlement dto \<noteq> ToRoom \<and> cd_reservation dto \<noteq> None then Inl (BadRequest VALIDATION_FAILED)
     else if cd_settlement dto \<noteq> BySplit \<and> cd_cashAmount dto \<noteq> None then Inl (BadRequest VALIDATION_FAILED)
     else let orderNo = nextOrderNo d (ou_id outlet)
     in bindr (priceBasket D outlet (cd_items dto) (cd_discount dto) actor d) (\<lambda>(lines, _, discount, priced).
     if \<not> 0 < pc_price priced then Inl (BadRequest VALIDATION_FAILED)
     else bindr (discountReasonFor dto discount) (\<lambda>reason.
     bindr (settleOrder D tzo dto outlet branch priced (jw_sub actor) now d) (\<lambda>(net, taxTotal, room, shiftId, d).
     bindr (takings (cd_settlement dto) (cd_cashAmount dto) (net + taxTotal)) (\<lambda>(cash, card).
     bindr (insert_order (new_order dto outlet orderNo lines discount reason net taxTotal room shiftId cash card (jw_sub actor) now) d) (\<lambda>(order, d).
       Inr (order, audit (ou_branch outlet) (Some (jw_sub actor)) ''pos_order.created'' (po_id order) d))))))))))"

section \<open>Voiding and takings\<close>

definition claim_void :: "nat \<Rightarrow> nat \<Rightarrow> instant \<Rightarrow> db \<Rightarrow> db result" where
  "claim_void orderId actorId now d =
     (if \<exists>o' \<in> set (db_posOrders d). po_id o' = orderId \<and> po_voidedAt o' = None
      then Inr (d\<lparr>db_posOrders := map (\<lambda>o'. if po_id o' = orderId \<and> po_voidedAt o' = None
             then o'\<lparr>po_voidedAt := Some now, po_voidedBy := Some actorId\<rparr> else o') (db_posOrders d)\<rparr>)
      else Inl (Conflict CONFLICT))"

definition voidOrder :: "nat \<Rightarrow> string \<Rightarrow> jwt \<Rightarrow> instant \<Rightarrow> db \<Rightarrow> (line_item option \<times> db) result" where
  "voidOrder orderId reason actor now d =
     (case List.find (\<lambda>o'. po_id o' = orderId) (db_posOrders d) of
        None \<Rightarrow> Inl (NotFound NOT_FOUND)
      | Some order \<Rightarrow>
          bindr (assertSupervisorAt actor (po_branch order)) (\<lambda>_.
          if 0 < po_cashAmount order \<and>
             (case po_shift order of
                None \<Rightarrow> False
              | Some s \<Rightarrow> (case List.find (\<lambda>x. sh_id x = s) (db_shifts d) of None \<Rightarrow> False | Some x \<Rightarrow> sh_closedAt x \<noteq> None))
          then Inl (Conflict CONFLICT)
          else bindr (requireText reason) (\<lambda>_.
            bindr (claim_void orderId (jw_sub actor) now d) (\<lambda>d.
            bindr (case po_lineItem order of
                     None \<Rightarrow> Inr (None, d)
                   | Some l \<Rightarrow> if corrected d l then Inr (None, d)
                               else bindr (correctLineItem l (jw_sub actor) now d) (\<lambda>(c, d). Inr (Some c, d))) (\<lambda>(correction, d).
              Inr (correction, audit (po_branch order) (Some (jw_sub actor)) ''pos_order.voided'' orderId d))))))"

record day_summary =
  ds_orderCount :: nat
  ds_voidCount :: nat
  ds_total :: rat
  ds_room :: rat
  ds_cash :: rat
  ds_card :: rat
  ds_discounts :: rat

definition summarise :: "day_summary \<Rightarrow> pos_order \<Rightarrow> day_summary" where
  "summarise s o' =
     (if po_voidedAt o' \<noteq> None then s\<lparr>ds_voidCount := ds_voidCount s + 1\<rparr>
      else s\<lparr>ds_orderCount := ds_orderCount s + 1, ds_total := ds_total s + po_total o',
             ds_room := (if po_settlement o' = ToRoom then ds_room s + po_total o' else ds_room s),
             ds_cash := ds_cash s + po_cashAmount o', ds_card := ds_card s + po_cardAmount o',
             ds_discounts := ds_discounts s + po_discount o'\<rparr>)"

definition businessDayWindow :: "tz_offset \<Rightarrow> day \<Rightarrow> string \<Rightarrow> instant \<times> instant" where
  "businessDayWindow tzo day timezone =
     (branchCutoffInstant tzo (toBranchDate day) 0 timezone, branchCutoffInstant tzo (toBranchDate day + DAY) 0 timezone)"

definition listOrders :: "tz_offset \<Rightarrow> nat \<Rightarrow> day option \<Rightarrow> jwt \<Rightarrow> instant \<Rightarrow> db \<Rightarrow> (day_summary \<times> pos_order list) result" where
  "listOrders tzo outletId date actor now d =
     bindr (findOutletOrThrow d outletId) (\<lambda>outlet.
     bindr (assertCanRingUp d actor outlet) (\<lambda>_.
     bindr (assertBranch d (ou_branch outlet)) (\<lambda>branch.
       let day = the_default (todayInTimezone tzo (br_timezone branch) now) date;
           (from, till) = businessDayWindow tzo day (br_timezone branch);
           orders = rev (sort_key po_orderNo (filter (\<lambda>o'. po_outlet o' = outletId \<and> from \<le> po_createdAt o' \<and> po_createdAt o' < till) (db_posOrders d)))
       in Inr (foldl summarise \<lparr>ds_orderCount = 0, ds_voidCount = 0, ds_total = 0, ds_room = 0, ds_cash = 0, ds_card = 0, ds_discounts = 0\<rparr> orders, orders))))"

end
