(* ===== verification/Shifts.thy ===== *)
theory Shifts
  imports Folios
begin

text \<open>
  Cash drawers (\<^verbatim>\<open>src/src/modules/shifts/shifts.service.ts\<close>). A shift is one person's drawer at
  one branch. While it is open, cash payments, cash refunds and the outlets' cash sales of that
  person carry its id; closing it works out what should be in the drawer, compares it with the
  count, and asks for an explanation when the two are too far apart. Handover issues outlive
  the shift they were raised in.

  \<open>sh_foreignCash\<close> holds the foreign notes by currency; the amounts are kept as numbers, not as
  the two-decimal text the column stores. Breakdowns by denomination are not modelled.
\<close>

section \<open>Opening\<close>

record open_shift_dto =
  os_type :: shift_type
  os_openingFloat :: rat

definition new_shift :: "nat \<Rightarrow> nat \<Rightarrow> open_shift_dto \<Rightarrow> nat \<Rightarrow> instant \<Rightarrow> shift" where
  "new_shift i branchId dto actorId now =
     \<lparr>sh_id = i, sh_branch = branchId, sh_agent = actorId, sh_type = os_type dto, sh_openedAt = now, sh_closedAt = None,
      sh_openingFloat = Some (num2 (os_openingFloat dto)), sh_systemCashTotal = None, sh_closingCashCounted = None,
      sh_variance = None, sh_foreignCash = None, sh_explanation = None, sh_handoverNotes = None\<rparr>"

definition openShift :: "nat \<Rightarrow> open_shift_dto \<Rightarrow> nat \<Rightarrow> instant \<Rightarrow> db \<Rightarrow> (shift \<times> db) result" where
  "openShift branchId dto actorId now d =
     bindr (assertBranch d branchId) (\<lambda>_.
       if openShiftOf d branchId actorId \<noteq> None then Inl (Conflict SHIFT_ALREADY_OPEN)
       else let shift = new_shift (db_next d) branchId dto actorId now;
                d = d\<lparr>db_shifts := db_shifts d @ [shift], db_next := Suc (db_next d)\<rparr>
            in Inr (shift, audit branchId (Some actorId) ''shift.opened'' (sh_id shift) d))"

section \<open>Closing\<close>

definition DEFAULT_VARIANCE_THRESHOLD :: rat where
  "DEFAULT_VARIANCE_THRESHOLD = 5"

text \<open>The three sums over the drawer: the branch's own cash, each foreign currency's notes, the outlets' cash.\<close>

definition cashAgg :: "db \<Rightarrow> nat \<Rightarrow> rat" where
  "cashAgg d s = sum_list (map pa_amount (filter (\<lambda>p. pa_shift p = Some s \<and> pa_method p = Cash \<and> \<not> pa_isVoid p \<and> pa_foreign p = None)
     (db_payments d)))"

definition foreignNotes :: "db \<Rightarrow> nat \<Rightarrow> (string \<times> rat) list" where
  "foreignNotes d s =
     (let rows = List.map_filter (\<lambda>p. if pa_shift p = Some s \<and> pa_method p = Cash \<and> \<not> pa_isVoid p
            then map_option (\<lambda>(cur, amount, _). (cur, amount)) (pa_foreign p) else None) (db_payments d)
      in map (\<lambda>cur. (cur, sum_list (map snd (filter (\<lambda>r. fst r = cur) rows)))) (sort (remdups (map fst rows))))"

definition posCashAgg :: "db \<Rightarrow> nat \<Rightarrow> rat" where
  "posCashAgg d s = sum_list (map po_cashAmount (filter (\<lambda>o'. po_shift o' = Some s \<and> po_voidedAt o' = None) (db_posOrders d)))"

definition expectedCash :: "db \<Rightarrow> shift \<Rightarrow> rat" where
  "expectedCash d s = the_default 0 (sh_openingFloat s) + (cashAgg d (sh_id s) + posCashAgg d (sh_id s))"

definition insert_issue :: "nat \<Rightarrow> string \<times> issue_priority option \<Rightarrow> db \<Rightarrow> shift_issue \<times> db" where
  "insert_issue shiftId dto d =
     (let row = \<lparr>is_id = db_next d, is_shift = shiftId, is_description = fst dto, is_priority = the_default Medium (snd dto),
            is_status = IssueOpen, is_resolution = None, is_resolvedBy = None, is_resolvedAt = None\<rparr>
      in (row, d\<lparr>db_issues := db_issues d @ [row], db_next := Suc (db_next d)\<rparr>))"

record close_shift_dto =
  cs_counted :: rat
  cs_explanation :: "string option"
  cs_handoverNotes :: "string option"
  cs_issues :: "(string \<times> issue_priority option) list"

definition closed_shift :: "db \<Rightarrow> close_shift_dto \<Rightarrow> instant \<Rightarrow> shift \<Rightarrow> shift" where
  "closed_shift d dto now s =
     s\<lparr>sh_closedAt := Some now, sh_systemCashTotal := Some (num2 (expectedCash d s)),
       sh_closingCashCounted := Some (num2 (cs_counted dto)), sh_variance := Some (num2 (cs_counted dto - expectedCash d s)),
       sh_foreignCash := (if foreignNotes d (sh_id s) = [] then None else Some (foreignNotes d (sh_id s))),
       sh_explanation := (if cs_explanation dto = None then sh_explanation s else cs_explanation dto),
       sh_handoverNotes := (if cs_handoverNotes dto = None then sh_handoverNotes s else cs_handoverNotes dto)\<rparr>"

definition closeShift :: "nat \<Rightarrow> close_shift_dto \<Rightarrow> jwt \<Rightarrow> instant \<Rightarrow> db \<Rightarrow> (shift \<times> db) result" where
  "closeShift shiftId dto actor now d =
     (case List.find (\<lambda>s. sh_id s = shiftId) (db_shifts d) of
        None \<Rightarrow> Inl (NotFound NOT_FOUND)
      | Some shift \<Rightarrow>
          if sh_closedAt shift \<noteq> None then Inl (Conflict SHIFT_ALREADY_CLOSED)
          else if sh_agent shift \<noteq> jw_sub actor \<and> \<not> isSupervisorAt actor (sh_branch shift) then Inl (Forbidden FORBIDDEN)
          else bindr (assertBranch d (sh_branch shift)) (\<lambda>branch.
            let variance = cs_counted dto - expectedCash d shift;
                threshold = the_default DEFAULT_VARIANCE_THRESHOLD (br_varianceThreshold branch)
            in if threshold < \<bar>variance\<bar> \<and> the_default [] (cs_explanation dto) = [] then Inl (BadRequest VALIDATION_FAILED)
            else let closed = closed_shift d dto now shift;
                     d1 = d\<lparr>db_shifts := map (\<lambda>s. if sh_id s = shiftId then closed_shift d dto now s else s) (db_shifts d)\<rparr>;
                     d2 = foldl (\<lambda>d i. snd (insert_issue shiftId i d)) d1 (cs_issues dto)
                 in Inr (closed, audit (sh_branch shift) (Some (jw_sub actor)) ''shift.closed'' shiftId d2)))"

section \<open>Handover\<close>

definition getCurrentShift :: "db \<Rightarrow> nat \<Rightarrow> nat \<Rightarrow> (shift \<times> shift_issue list) option" where
  "getCurrentShift d branchId actorId =
     map_option (\<lambda>s. (s, filter (\<lambda>i. is_shift i = sh_id s \<and> is_status i \<noteq> IssueResolved) (db_issues d))) (openShiftOf d branchId actorId)"

text \<open>Issues are kept in the order they were raised (\<^verbatim>\<open>createdAt asc\<close>).\<close>

definition unresolvedIssues :: "db \<Rightarrow> nat \<Rightarrow> shift_issue list" where
  "unresolvedIssues d branchId =
     filter (\<lambda>i. is_status i \<noteq> IssueResolved \<and> (\<exists>s \<in> set (db_shifts d). sh_id s = is_shift i \<and> sh_branch s = branchId)) (db_issues d)"

definition lastClosedShift :: "db \<Rightarrow> nat \<Rightarrow> shift option" where
  "lastClosedShift d branchId =
     head_opt (rev (sort_key (\<lambda>s. the_default 0 (sh_closedAt s)) (filter (\<lambda>s. sh_branch s = branchId \<and> sh_closedAt s \<noteq> None) (db_shifts d))))"

definition getHandoverContext :: "db \<Rightarrow> nat \<Rightarrow> shift option \<times> shift_issue list" where
  "getHandoverContext d branchId = (lastClosedShift d branchId, unresolvedIssues d branchId)"

definition addShiftIssue :: "nat \<Rightarrow> string \<times> issue_priority option \<Rightarrow> nat \<Rightarrow> db \<Rightarrow> (shift_issue \<times> db) result" where
  "addShiftIssue shiftId dto actorId d =
     (case List.find (\<lambda>s. sh_id s = shiftId) (db_shifts d) of
        None \<Rightarrow> Inl (NotFound NOT_FOUND)
      | Some shift \<Rightarrow>
          if sh_closedAt shift \<noteq> None then Inl (Conflict SHIFT_ALREADY_CLOSED)
          else let (issue, d) = insert_issue shiftId dto d
               in Inr (issue, audit (sh_branch shift) (Some actorId) ''shift_issue.created'' (is_id issue) d))"

text \<open>\<open>resolve\<close> is the choice between the two statuses the request may name, \<^verbatim>\<open>resolved\<close> and \<^verbatim>\<open>carried_over\<close>.\<close>

definition updated_issue :: "bool \<Rightarrow> string option \<Rightarrow> nat \<Rightarrow> instant \<Rightarrow> shift_issue \<Rightarrow> shift_issue" where
  "updated_issue resolve resolution actorId now i =
     (let i' = (case resolution of None \<Rightarrow> i | Some r \<Rightarrow> i\<lparr>is_resolution := Some r\<rparr>)
      in if resolve then i'\<lparr>is_status := IssueResolved, is_resolvedBy := Some actorId, is_resolvedAt := Some now\<rparr>
         else i'\<lparr>is_status := IssueCarriedOver\<rparr>)"

definition updateShiftIssue :: "nat \<Rightarrow> bool \<Rightarrow> string option \<Rightarrow> nat \<Rightarrow> instant \<Rightarrow> db \<Rightarrow> (shift_issue \<times> db) result" where
  "updateShiftIssue issueId resolve resolution actorId now d =
     (case List.find (\<lambda>i. is_id i = issueId) (db_issues d) of
        None \<Rightarrow> Inl (NotFound NOT_FOUND)
      | Some issue \<Rightarrow>
          if is_status issue = IssueResolved then Inl (Conflict CONFLICT)
          else case List.find (\<lambda>s. sh_id s = is_shift issue) (db_shifts d) of
                 None \<Rightarrow> Inl PlainError
               | Some shift \<Rightarrow>
                   (let d = d\<lparr>db_issues := map (\<lambda>i. if is_id i = issueId then updated_issue resolve resolution actorId now i else i) (db_issues d)\<rparr>
                    in Inr (updated_issue resolve resolution actorId now issue,
                         audit (sh_branch shift) (Some actorId) (if resolve then ''shift_issue.resolved'' else ''shift_issue.carried_over'') issueId d)))"

end
