(* ===== verification/Refunds.thy ===== *)
theory Refunds
  imports Folios
begin

text \<open>
  Money going back to a guest (\<^verbatim>\<open>src/src/modules/folios/refunds.service.ts\<close>): asked for by the desk
  up to the bill's credit, approved or turned down by a manager, paid out once as a negative
  payment. A payout that brings the bill of an ended stay to nothing closes it.
\<close>

section \<open>Constants\<close>

definition APPROVER_ROLES :: "string list" where
  "APPROVER_ROLES = [''owner'', ''manager'']"

definition OUTSTANDING :: "refund_status set" where
  "OUTSTANDING = {RefundPending, RefundApproved}"

definition ENDED_STAYS :: "reservation_status set" where
  "ENDED_STAYS = {Checked_out, Cancelled, No_show, Walked}"

definition REFUND_METHODS :: "payment_method set" where
  "REFUND_METHODS = {Cash, Card, Bank_transfer}"

section \<open>What can be refunded\<close>

definition outstandingRefunds :: "db \<Rightarrow> nat \<Rightarrow> nat option \<Rightarrow> rat" where
  "outstandingRefunds d folioId exceptId =
     sum_list (map rf_amount (filter (\<lambda>r. rf_folio r = folioId \<and> rf_status r \<in> OUTSTANDING \<and> Some (rf_id r) \<noteq> exceptId) (db_refunds d)))"

definition refundable :: "db \<Rightarrow> nat \<Rightarrow> nat option \<Rightarrow> rat \<times> rat" where
  "refundable d folioId exceptId =
     (let credit = - to_balanceDue (computeTotals d folioId);
          left = credit - outstandingRefunds d folioId exceptId
      in (credit, if 0 < left then left else 0))"

definition refundedAgainst :: "db \<Rightarrow> nat \<Rightarrow> rat" where
  "refundedAgainst d paymentId =
     sum_list (map rf_amount (filter (\<lambda>r. rf_payment r = Some paymentId \<and> rf_status r \<in> OUTSTANDING \<union> {RefundProcessed}) (db_refunds d)))"

section \<open>Asking\<close>

record refund_dto =
  rd_amount :: rat
  rd_payment :: "nat option"
  rd_method :: "payment_method option"

definition requestInTx :: "folio \<Rightarrow> refund_dto \<Rightarrow> jwt \<Rightarrow> db \<Rightarrow> (refund \<times> db) result" where
  "requestInTx folio dto actor d =
     (let folioId = fo_id folio;
          pay = (case rd_payment dto of None \<Rightarrow> None
                 | Some p \<Rightarrow> List.find (\<lambda>x. pa_id x = p \<and> pa_folio x = folioId \<and> \<not> pa_isVoid x \<and> \<not> pa_deleted x) (db_payments d))
      in if rd_payment dto \<noteq> None \<and> (case pay of None \<Rightarrow> True | Some p \<Rightarrow> \<not> 0 < pa_amount p) then Inl (BadRequest VALIDATION_FAILED)
      else case (case rd_method dto of Some m \<Rightarrow> Some m | None \<Rightarrow> map_option pa_method pay) of
        None \<Rightarrow> Inl (BadRequest VALIDATION_FAILED)
      | Some meth \<Rightarrow>
          if meth \<notin> REFUND_METHODS then Inl (BadRequest VALIDATION_FAILED)
          else let (credit, available) = refundable d folioId None
          in if available < rd_amount dto then Inl (BadRequest VALIDATION_FAILED)
          else if (case pay of None \<Rightarrow> False | Some p \<Rightarrow> pa_amount p - refundedAgainst d (pa_id p) < rd_amount dto)
            then Inl (BadRequest VALIDATION_FAILED)
          else let selfApproved = hasRoleAtBranch actor (fo_branch folio) APPROVER_ROLES;
                   row = \<lparr>rf_id = db_next d, rf_folio = folioId, rf_payment = map_option pa_id pay, rf_amount = num2 (rd_amount dto),
                     rf_status = (if selfApproved then RefundApproved else RefundPending), rf_method = meth,
                     rf_requestedBy = Some (jw_sub actor), rf_approvedBy = (if selfApproved then Some (jw_sub actor) else None),
                     rf_processedBy = None, rf_refundPayment = None\<rparr>;
                   d = d\<lparr>db_refunds := db_refunds d @ [row], db_next := Suc (db_next d)\<rparr>
               in Inr (row, audit (fo_branch folio) (Some (jw_sub actor)) ''refund.requested'' (rf_id row) d))"

definition requestRefund :: "nat \<Rightarrow> refund_dto \<Rightarrow> jwt \<Rightarrow> db \<Rightarrow> (refund \<times> db) result" where
  "requestRefund folioId dto actor d = bindr (findFolioOrThrow d folioId) (\<lambda>folio. requestInTx folio dto actor d)"

section \<open>Deciding\<close>

text \<open>The refund with its bill's branch.\<close>

definition findRefundOrThrow :: "db \<Rightarrow> nat \<Rightarrow> (refund \<times> nat) result" where
  "findRefundOrThrow d refundId =
     (case List.find (\<lambda>r. rf_id r = refundId) (db_refunds d) of
        None \<Rightarrow> Inl (NotFound NOT_FOUND)
      | Some r \<Rightarrow> (case List.find (\<lambda>f. fo_id f = rf_folio r) (db_folios d) of None \<Rightarrow> Inl PlainError | Some f \<Rightarrow> Inr (r, fo_branch f)))"

text \<open>\<^verbatim>\<open>updateMany\<close> on one refund while its status is still one of \<open>from\<close>; refused when nothing matched.\<close>

definition claim_refund :: "nat \<Rightarrow> refund_status set \<Rightarrow> (refund \<Rightarrow> refund) \<Rightarrow> db \<Rightarrow> db result" where
  "claim_refund refundId from upd d =
     (if \<exists>r \<in> set (db_refunds d). rf_id r = refundId \<and> rf_status r \<in> from
      then Inr (d\<lparr>db_refunds := map (\<lambda>r. if rf_id r = refundId \<and> rf_status r \<in> from then upd r else r) (db_refunds d)\<rparr>)
      else Inl (Conflict CONFLICT))"

definition approveRefund :: "nat \<Rightarrow> jwt \<Rightarrow> db \<Rightarrow> db result" where
  "approveRefund refundId actor d =
     bindr (findRefundOrThrow d refundId) (\<lambda>(refund, branchId).
       if rf_status refund \<noteq> RefundPending then Inl (Conflict CONFLICT)
       else if snd (refundable d (rf_folio refund) (Some (rf_id refund))) < rf_amount refund then Inl (Conflict CONFLICT)
       else bindr (claim_refund refundId {RefundPending} (\<lambda>r. r\<lparr>rf_status := RefundApproved, rf_approvedBy := Some (jw_sub actor)\<rparr>) d) (\<lambda>d.
         Inr (audit branchId (Some (jw_sub actor)) ''refund.approved'' refundId d)))"

definition rejectRefund :: "nat \<Rightarrow> jwt \<Rightarrow> db \<Rightarrow> db result" where
  "rejectRefund refundId actor d =
     bindr (findRefundOrThrow d refundId) (\<lambda>(refund, branchId).
       if rf_status refund \<notin> OUTSTANDING then Inl (Conflict CONFLICT)
       else bindr (claim_refund refundId OUTSTANDING (\<lambda>r. r\<lparr>rf_status := RefundRejected\<rparr>) d) (\<lambda>d.
         Inr (audit branchId (Some (jw_sub actor)) ''refund.rejected'' refundId d)))"

section \<open>Paying out\<close>

text \<open>The bill of a stay that is over closes when nothing is left on it.\<close>

definition settleEndedStay :: "nat \<Rightarrow> nat \<Rightarrow> instant \<Rightarrow> db \<Rightarrow> db" where
  "settleEndedStay folioId actorId now d =
     (case List.find (\<lambda>f. fo_id f = folioId) (db_folios d) of
        None \<Rightarrow> d
      | Some folio \<Rightarrow>
          (case reservationOf d folio of
             None \<Rightarrow> d
           | Some r \<Rightarrow> if re_status r \<in> ENDED_STAYS \<and> fo_status folio \<noteq> Settled
                        then snd (settleIfFullyPaid folio (Some actorId) now d) else d))"

definition payOut :: "nat \<Rightarrow> jwt \<Rightarrow> instant \<Rightarrow> db \<Rightarrow> (payment \<times> db) result" where
  "payOut refundId actor now d =
     bindr (findRefundOrThrow d refundId) (\<lambda>(refund, branchId).
       if rf_status refund \<noteq> RefundApproved then Inl (Conflict CONFLICT)
       else if - to_balanceDue (computeTotals d (rf_folio refund)) < rf_amount refund then Inl (Conflict CONFLICT)
       else bindr (assertBranch d branchId) (\<lambda>branch.
         let openShift = (if rf_method refund = Cash then openShiftOf d branchId (jw_sub actor) else None)
         in if rf_method refund = Cash \<and> openShift = None then Inl (Conflict SHIFT_REQUIRED)
         else bindr (claim_refund refundId {RefundApproved} (\<lambda>r. r\<lparr>rf_status := RefundProcessed, rf_processedBy := Some (jw_sub actor)\<rparr>) d) (\<lambda>d.
           let (pay, d) = insert_payment \<lparr>pa_id = 0, pa_folio = rf_folio refund, pa_method = rf_method refund, pa_amount = - rf_amount refund,
                 pa_currency = br_currency branch, pa_foreign = None, pa_shift = map_option sh_id openShift, pa_purpose = PurposePayment,
                 pa_recordedBy = Some (jw_sub actor), pa_isVoid = False, pa_voidedBy = None, pa_deleted = False\<rparr> d;
               d = d\<lparr>db_refunds := map (\<lambda>r. if rf_id r = refundId then r\<lparr>rf_refundPayment := Some (pa_id pay)\<rparr> else r) (db_refunds d)\<rparr>;
               d = audit branchId (Some (jw_sub actor)) ''refund.paid_out'' refundId d;
               d = d\<lparr>db_webhooks := db_webhooks d @ [(''refund.paid'', pa_id pay)]\<rparr>
           in Inr (pay, settleEndedStay (rf_folio refund) (jw_sub actor) now d))))"

end
