(* ===== verification/Folio_Ledger.thy ===== *)
theory Folio_Ledger
  imports Folios
begin

text \<open>
  What the folio handlers do to the ledger: the balance of a bill and its two computations,
  the rows a charge and a correction append, the well-formedness of the ledger, and the
  effect of every handler on every bill's balance. The properties of single bills are at the
  end; runs of requests are in the theories of the desk.
\<close>

section \<open>Balances\<close>

text \<open>The specification of a bill: what was charged less what was paid.\<close>

definition charges :: "db \<Rightarrow> nat \<Rightarrow> rat" where
  "charges d f = sum_list (map li_amount (linesOf d f))"

definition paid :: "db \<Rightarrow> nat \<Rightarrow> rat" where
  "paid d f = sum_list (map pa_amount (paymentsOf d f))"

definition balance :: "db \<Rightarrow> nat \<Rightarrow> rat" where
  "balance d f = charges d f - paid d f"

lemma totals_fold_lines:
  "foldl (\<lambda>(s, t) i. if li_chargeType i = Tax then (s, t + li_amount i) else (s + li_amount i, t)) (s, t) xs =
     (s + sum_list (map li_amount (filter (\<lambda>i. li_chargeType i \<noteq> Tax) xs)),
      t + sum_list (map li_amount (filter (\<lambda>i. li_chargeType i = Tax) xs)))"
  by (induction xs arbitrary: s t) (simp_all add: algebra_simps)

lemma totals_fold_payments:
  "foldl (\<lambda>(p, q) x. (p + pa_amount x, if pa_purpose x = PurposeDeposit then q + pa_amount x else q)) (p, q) xs =
     (p + sum_list (map pa_amount xs), q + sum_list (map pa_amount (filter (\<lambda>x. pa_purpose x = PurposeDeposit) xs)))"
  by (induction xs arbitrary: p q) (simp_all add: algebra_simps)

lemma totals_balance: "to_balanceDue (computeTotals d f) = balance d f"
  using sum_list_filter_split[of li_amount "\<lambda>i. li_chargeType i = Tax" "linesOf d f"]
  by (simp add: computeTotals_def Let_def totals_fold_lines totals_fold_payments balance_def charges_def paid_def algebra_simps)

text \<open>The grouped sums of \<^verbatim>\<open>balancesFor\<close>.\<close>

lemma map_of_groupSum:
  "the_default 0 (map_of (groupSum rows) f) = sum_list (map snd (filter (\<lambda>r. fst r = f) rows))"
proof (cases "f \<in> fst ` set rows")
  case True
  then have "map_of (groupSum rows) f = Some (sum_list (map snd (filter (\<lambda>r. fst r = f) rows)))"
    by (auto simp: groupSum_def map_of_map_restrict restrict_map_def)
  then show ?thesis by simp
next
  case False
  then have "filter (\<lambda>r. fst r = f) rows = []" by (auto simp: filter_empty_conv)
  moreover have "map_of (groupSum rows) f = None" using False by (auto simp: groupSum_def map_of_map_restrict restrict_map_def)
  ultimately show ?thesis by simp
qed

lemma map_of_addAt: "map_of (addAt g x m) f = (if f = g then Some (the_default 0 (map_of m g) + x) else map_of m f)"
proof -
  have "map_of (filter (\<lambda>e. fst e \<noteq> g) m) f = map_of m f" if "f \<noteq> g" using that by (induction m) auto
  then show ?thesis by (simp add: addAt_def)
qed

lemma foldl_addAt:
  assumes "distinct (map fst rows)"
  shows "the_default 0 (map_of (foldl (\<lambda>m (g, x). addAt g (h x) m) m rows) f) =
     the_default 0 (map_of m f) + (case map_of rows f of None \<Rightarrow> 0 | Some x \<Rightarrow> h x)"
  using assms
proof (induction rows arbitrary: m)
  case (Cons r rows)
  obtain g x where r: "r = (g, x)" by (cases r)
  have "map_of rows g = None" using Cons.prems by (auto simp: r map_of_eq_None_iff)
  then show ?case using Cons by (auto simp: r map_of_addAt)
qed simp

lemma distinct_groupSum: "distinct (map fst (groupSum rows))"
  by (simp add: groupSum_def comp_def)

lemma filter_in_ids:
  "f \<in> set ids \<Longrightarrow> filter (\<lambda>r. fst r = f) (map (\<lambda>i. (g i, h i)) (filter (\<lambda>i. g i \<in> set ids \<and> p i) xs)) =
     map (\<lambda>i. (g i, h i)) (filter (\<lambda>i. g i = f \<and> p i) xs)"
  by (induction xs) auto

lemma groupSum_ids:
  assumes "f \<in> set ids"
  shows "sum_list (map snd (filter (\<lambda>r. fst r = f) (map (\<lambda>i. (g i, h i)) (filter (\<lambda>i. g i \<in> set ids \<and> p i) xs)))) =
     sum_list (map h (filter (\<lambda>i. g i = f \<and> p i) xs))"
  by (simp add: filter_in_ids[OF assms] comp_def)

lemma balancesFor_balance:
  assumes "f \<in> set ids"
  shows "the_default 0 (map_of (balancesFor d ids) f) = balance d f"
proof -
  let ?c = "groupSum (map (\<lambda>i. (li_folio i, li_amount i)) (filter (\<lambda>i. li_folio i \<in> set ids \<and> live_line i) (db_lines d)))"
  let ?p = "groupSum (map (\<lambda>p. (pa_folio p, pa_amount p)) (filter (\<lambda>p. pa_folio p \<in> set ids \<and> live_payment p) (db_payments d)))"
  let ?m = "map (\<lambda>i. (i, 0 :: rat)) ids"
  have m: "the_default 0 (map_of ?m f) = 0" by (induction ids) auto
  have opt: "(case x of None \<Rightarrow> 0 | Some v \<Rightarrow> - v) = - the_default 0 x" "(case x of None \<Rightarrow> 0 | Some v \<Rightarrow> v) = the_default 0 x" for x :: "rat option"
    by (cases x; simp)+
  have "the_default 0 (map_of (balancesFor d ids) f) = the_default 0 (map_of ?c f) - the_default 0 (map_of ?p f)"
    unfolding balancesFor_def Let_def
    using foldl_addAt[OF distinct_groupSum, where h = uminus and f = f] foldl_addAt[OF distinct_groupSum, where h = "\<lambda>x. x" and f = f and m = ?m] m
    by (simp add: opt)
  then show ?thesis
    unfolding map_of_groupSum groupSum_ids[OF assms] by (simp add: balance_def charges_def paid_def linesOf_def paymentsOf_def)
qed

section \<open>Rows a write appends\<close>

definition stamp :: "nat \<Rightarrow> line_item \<Rightarrow> line_item" where
  "stamp n i = i\<lparr>li_id := n, li_amount := num2 (li_amount i), li_taxAmount := num2 (li_taxAmount i)\<rparr>"

fun stamped :: "nat \<Rightarrow> line_item list \<Rightarrow> line_item list" where
  "stamped n [] = []"
| "stamped n (i # is) = stamp n i # stamped (Suc n) is"

definition append_lines :: "line_item list \<Rightarrow> db \<Rightarrow> db" where
  "append_lines rows d = d\<lparr>db_lines := db_lines d @ stamped (db_next d) rows, db_next := db_next d + length rows\<rparr>"

lemma stamp_sel [simp]:
  "li_id (stamp n i) = n" "li_amount (stamp n i) = num2 (li_amount i)" "li_folio (stamp n i) = li_folio i"
  "li_chargeType (stamp n i) = li_chargeType i" "li_parent (stamp n i) = li_parent i" "li_corrects (stamp n i) = li_corrects i"
  "li_serviceDate (stamp n i) = li_serviceDate i" "li_stay (stamp n i) = li_stay i" "li_dayUse (stamp n i) = li_dayUse i"
  "li_package (stamp n i) = li_package i" "live_line (stamp n i) = live_line i" "li_taxRuleIds (stamp n i) = li_taxRuleIds i"
  "li_deleted (stamp n i) = li_deleted i" "li_isVoid (stamp n i) = li_isVoid i"
  by (simp_all add: stamp_def live_line_def)

lemma stamped_append: "stamped n (xs @ ys) = stamped n xs @ stamped (n + length xs) ys"
  by (induction xs arbitrary: n) simp_all

lemma length_stamped [simp]: "length (stamped n xs) = length xs"
  by (induction xs arbitrary: n) simp_all

lemma stamped_ids: "map li_id (stamped n xs) = [n..<n + length xs]"
  by (induction xs arbitrary: n) (simp_all add: upt_rec)

lemma mem_stamped: "i \<in> set (stamped n xs) \<Longrightarrow> \<exists>x \<in> set xs. \<exists>k. n \<le> k \<and> k < n + length xs \<and> i = stamp k x"
proof (induction xs arbitrary: n)
  case (Cons x xs)
  from Cons.prems have "i = stamp n x \<or> i \<in> set (stamped (Suc n) xs)" by simp
  then show ?case
  proof
    assume "i \<in> set (stamped (Suc n) xs)"
    from Cons.IH[OF this] obtain y k where "y \<in> set xs" "Suc n \<le> k" "k < Suc n + length xs" "i = stamp k y" by blast
    then show ?thesis by (intro bexI[of _ y] exI[of _ k]) simp_all
  qed (auto intro!: exI[of _ n])
qed simp

lemma append_lines_sel [simp]:
  "db_next (append_lines rows d) = db_next d + length rows" "db_branches (append_lines rows d) = db_branches d"
  "db_lines (append_lines rows d) = db_lines d @ stamped (db_next d) rows"
  "db_folios (append_lines rows d) = db_folios d" "db_payments (append_lines rows d) = db_payments d"
  "db_transfers (append_lines rows d) = db_transfers d" "db_refunds (append_lines rows d) = db_refunds d"
  "db_shifts (append_lines rows d) = db_shifts d" "db_posOrders (append_lines rows d) = db_posOrders d"
  "db_reservations (append_lines rows d) = db_reservations d" "db_roomTypes (append_lines rows d) = db_roomTypes d"
  "db_taxRules (append_lines rows d) = db_taxRules d" "db_guests (append_lines rows d) = db_guests d"
  "db_loyalty (append_lines rows d) = db_loyalty d" "db_program (append_lines rows d) = db_program d"
  by (simp_all add: append_lines_def)

lemma append_lines_append: "append_lines ys (append_lines xs d) = append_lines (xs @ ys) d"
  by (simp add: append_lines_def stamped_append ac_simps)

lemma append_lines_Nil [simp]: "append_lines [] d = d"
  by (simp add: append_lines_def)

lemma insert_line_append:
  assumes "insert_line i d = Inr (row, d')"
  shows "d' = append_lines [i] d" and "row = stamp (db_next d) i" and "num2 (li_amount i) \<noteq> 0"
    and "li_corrects i \<noteq> None \<Longrightarrow> x \<in> set (db_lines d) \<Longrightarrow> li_corrects x \<noteq> li_corrects i"
  using insert_line_Inr[OF assms] by (auto simp: append_lines_def stamp_def)

lemma insert_line_ok:
  assumes "num2 (li_amount i) \<noteq> 0" and "li_corrects i = None \<or> (\<forall>x \<in> set (db_lines d). li_corrects x \<noteq> li_corrects i)"
  shows "insert_line i d = Inr (stamp (db_next d) i, append_lines [i] d)"
  using assms by (auto simp: insert_line_def append_lines_def stamp_def Let_def)

lemma add_lines_append:
  assumes "foldr_res (\<lambda>t. add_line (g t)) ts d = Inr d'"
  shows "d' = append_lines (map g ts) d" and "\<And>t. t \<in> set ts \<Longrightarrow> num2 (li_amount (g t)) \<noteq> 0"
proof -
  have "d' = append_lines (map g ts) d \<and> (\<forall>t \<in> set ts. num2 (li_amount (g t)) \<noteq> 0)"
    using assms
  proof (induction ts arbitrary: d)
    case (Cons t ts)
    from Cons.prems obtain d1 where d1: "add_line (g t) d = Inr d1" "foldr_res (\<lambda>t. add_line (g t)) ts d1 = Inr d'"
      by (auto simp: res_simps)
    then obtain row where "insert_line (g t) d = Inr (row, d1)" by (auto simp: add_line_def res_simps)
    with d1(2) Cons.IH[of d1] insert_line_append[of "g t" d row d1] show ?case by (simp add: append_lines_append)
  qed simp
  then show "d' = append_lines (map g ts) d" and "\<And>t. t \<in> set ts \<Longrightarrow> num2 (li_amount (g t)) \<noteq> 0" by blast+
qed

lemma linesOf_append_lines:
  "linesOf (append_lines rows d) f = linesOf d f @ filter (\<lambda>i. li_folio i = f \<and> live_line i) (stamped (db_next d) rows)"
  by (simp add: linesOf_def)

lemma sum_stamped:
  "sum_list (map li_amount (filter (\<lambda>i. li_folio i = f \<and> live_line i) (stamped n rows))) =
     sum_list (map (\<lambda>i. num2 (li_amount i)) (filter (\<lambda>i. li_folio i = f \<and> live_line i) rows))"
  by (induction rows arbitrary: n) simp_all

text \<open>Appending rows to one bill raises its balance by their sum and no other.\<close>

lemma balance_append_lines:
  assumes "\<And>i. i \<in> set rows \<Longrightarrow> li_folio i = f0 \<and> live_line i"
  shows "balance (append_lines rows d) f = balance d f + (if f = f0 then sum_list (map (\<lambda>i. num2 (li_amount i)) rows) else 0)"
proof -
  have "filter (\<lambda>i. li_folio i = f \<and> live_line i) rows = (if f = f0 then rows else [])"
    using assms by (auto simp: filter_empty_conv filter_id_conv)
  then show ?thesis by (simp add: balance_def charges_def paid_def linesOf_append_lines sum_stamped paymentsOf_def)
qed

lemma balance_audit [simp]: "balance (audit b u a e d) f = balance d f"
  by (simp add: balance_def charges_def paid_def)

section \<open>A well-formed ledger\<close>

text \<open>
  Ids are unique and below the counter, a line refers only to lines written before it, a
  line is corrected at most once, every amount is a non-zero whole number of cents, and no
  line is void or deleted (no handler voids or deletes a line: the ledger is append-only).
\<close>

definition line_ok :: "db \<Rightarrow> line_item \<Rightarrow> bool" where
  "line_ok d i \<longleftrightarrow> live_line i \<and> li_id i < db_next d \<and> is_money (li_amount i) \<and> li_amount i \<noteq> 0 \<and>
     (case li_parent i of Some p \<Rightarrow> p < li_id i | None \<Rightarrow> True) \<and>
     (case li_corrects i of Some c \<Rightarrow> c < li_id i | None \<Rightarrow> True)"

definition ledger_ok :: "db \<Rightarrow> bool" where
  "ledger_ok d \<longleftrightarrow> distinct (map li_id (db_lines d)) \<and> list_all (line_ok d) (db_lines d) \<and>
     distinct (filter (\<lambda>c. c \<noteq> None) (map li_corrects (db_lines d)))"

lemma line_unique: "ledger_ok d \<Longrightarrow> i \<in> set (db_lines d) \<Longrightarrow> j \<in> set (db_lines d) \<Longrightarrow> li_id i = li_id j \<Longrightarrow> i = j"
  unfolding ledger_ok_def by (metis distinct_map inj_onD)

lemma line_okD: "ledger_ok d \<Longrightarrow> i \<in> set (db_lines d) \<Longrightarrow> line_ok d i"
  by (auto simp: ledger_ok_def list_all_iff)

lemma line_ok_next: "line_ok d i \<Longrightarrow> db_next d \<le> db_next d' \<Longrightarrow> line_ok d' i"
  by (auto simp: line_ok_def)

text \<open>What a row must be for the ledger to stay well formed.\<close>

lemma ledger_ok_insert:
  assumes "insert_line i d = Inr (row, d')" and "ledger_ok d"
    and "case li_parent i of Some p \<Rightarrow> p < db_next d | None \<Rightarrow> True" and "case li_corrects i of Some c \<Rightarrow> c < db_next d | None \<Rightarrow> True"
    and "live_line i"
  shows "ledger_ok d'"
proof -
  note a = insert_line_append[OF assms(1)]
  have "list_all (line_ok d') (db_lines d)" using assms(2) line_ok_next[of d _ d'] unfolding a(1) by (auto simp: ledger_ok_def list_all_iff)
  moreover have "line_ok d' (stamp (db_next d) i)" using a(3) assms(3-5) unfolding a(1) by (auto simp: line_ok_def split: option.splits)
  moreover have "db_next d \<notin> li_id ` set (db_lines d)"
    using assms(2) unfolding ledger_ok_def list_all_iff line_ok_def by auto
  moreover have "li_corrects i \<noteq> None \<Longrightarrow> li_corrects i \<notin> li_corrects ` set (db_lines d)" using a(4) by auto
  ultimately show ?thesis using assms(2) unfolding a(1) by (simp add: ledger_ok_def)
qed

lemma ledger_ok_adds:
  assumes "foldr_res (\<lambda>t. add_line (g t)) ts d = Inr d'" and "ledger_ok d"
    and "\<And>t. t \<in> set ts \<Longrightarrow> case li_parent (g t) of Some p \<Rightarrow> p < db_next d | None \<Rightarrow> True"
    and "\<And>t. t \<in> set ts \<Longrightarrow> case li_corrects (g t) of Some c \<Rightarrow> c < db_next d | None \<Rightarrow> True"
    and "\<And>t. live_line (g t)"
  shows "ledger_ok d'"
  using assms
proof (induction ts arbitrary: d)
  case (Cons t ts)
  from Cons.prems(1) obtain d1 where d1: "add_line (g t) d = Inr d1" "foldr_res (\<lambda>t. add_line (g t)) ts d1 = Inr d'"
    by (auto simp: res_simps)
  then obtain row where row: "insert_line (g t) d = Inr (row, d1)" by (auto simp: add_line_def res_simps)
  have "ledger_ok d1" using ledger_ok_insert[OF row Cons.prems(2)] Cons.prems(3-5) by simp
  moreover have "db_next d \<le> db_next d1" using insert_line_append(1)[OF row] by simp
  then have "(case li_parent (g u) of Some p \<Rightarrow> p < db_next d1 | None \<Rightarrow> True) \<and> (case li_corrects (g u) of Some c \<Rightarrow> c < db_next d1 | None \<Rightarrow> True)"
    if "u \<in> set ts" for u using Cons.prems(3,4)[of u] that by (auto split: option.splits)
  ultimately show ?case using Cons.IH[OF d1(2)] Cons.prems(5) by blast
qed simp

lemma line_ok_audit [simp]: "line_ok (audit b u a e d) = line_ok d"
  by (rule ext) (simp add: line_ok_def)

lemma ledger_ok_audit [simp]: "ledger_ok (audit b u a e d) = ledger_ok d"
  by (simp add: ledger_ok_def)

section \<open>Charges\<close>

definition charge_rows :: "charge_input \<Rightarrow> priced_charge \<Rightarrow> nat \<Rightarrow> line_item list" where
  "charge_rows inp priced n = charge_line inp priced # map (tax_line inp n) (pc_taxes priced)"

text \<open>A charge that posts appends the net line and one line per tax, and nothing else changes.\<close>

lemma writeCharge_Some:
  assumes "writeChargeWithTaxes D inp d = Inr (Some parent, d')"
  obtains priced where "priceCharge D (db_taxRules d) (ci_branch inp) (ci_chargeType inp) (ci_amount inp) 1 = Inr priced"
    and "0 < ci_amount inp" and "parent = stamp (db_next d) (charge_line inp priced)"
    and "d' = audit (ci_branch inp) (ci_actor inp) ''line_item.posted'' (db_next d) (append_lines (charge_rows inp priced (db_next d)) d)"
    and "ledger_ok d \<Longrightarrow> ledger_ok d'"
proof -
  from assms obtain priced d1 d2 where pr: "priceCharge D (db_taxRules d) (ci_branch inp) (ci_chargeType inp) (ci_amount inp) 1 = Inr priced"
    and i: "insert_line (charge_line inp priced) d = Inr (parent, d1)"
    and f: "foldr_res (\<lambda>t. add_line (tax_line inp (li_id parent) t)) (pc_taxes priced) d1 = Inr d2"
    and d': "d' = audit (ci_branch inp) (ci_actor inp) ''line_item.posted'' (li_id parent) d2" and pos: "0 < ci_amount inp"
    by (auto simp: writeChargeWithTaxes_def res_simps split: if_splits prod.splits)
  note a = insert_line_append[OF i] and b = add_lines_append(1)[OF f]
  have lid: "li_id parent = db_next d" by (simp add: a(2))
  have "d2 = append_lines (charge_rows inp priced (db_next d)) d"
    unfolding b a(1) append_lines_append by (simp add: lid charge_rows_def)
  moreover have "ledger_ok d' " if "ledger_ok d"
  proof -
    have "ledger_ok d1" by (rule ledger_ok_insert[OF i that]) (simp_all add: charge_line_def blank_line_def live_line_def)
    then have "ledger_ok d2" by (rule ledger_ok_adds[OF f]) (simp_all add: tax_line_def blank_line_def live_line_def lid a(1))
    then show ?thesis by (simp add: d')
  qed
  ultimately show thesis using that[OF pr pos a(2)] d' lid by simp
qed

lemma writeCharge_None:
  "writeChargeWithTaxes D inp d = Inr (None, d') \<longleftrightarrow> ci_amount inp = 0 \<and> d' = d"
  by (auto simp: writeChargeWithTaxes_def res_simps split: prod.splits)

lemma charge_rows_folio: "i \<in> set (charge_rows inp priced n) \<Longrightarrow> li_folio i = ci_folio inp \<and> live_line i"
  by (auto simp: charge_rows_def charge_line_def tax_line_def blank_line_def live_line_def)

text \<open>With whole cents in, whole cents come out of the tax engine.\<close>

lemma priced_money:
  assumes "decimal_arith D" and "priceCharge D rules b ct p u = Inr pc" and "is_money p"
  shows "is_money (pc_net pc)" and "\<And>t. t \<in> set (pc_taxes pc) \<Longrightarrow> is_money (cx_taxAmount t)"
proof -
  show taxes: "is_money (cx_taxAmount t)" if "t \<in> set (pc_taxes pc)" for t
    using assms(2) that decimal_arith.dp2_money[OF assms(1)]
    by (auto simp: priceCharge_def Let_def taxOf_def split: if_splits)
  have "pc_net pc = p - sumTaxes (filter cx_inclusive (pc_taxes pc))" using te.net_included[OF assms(2)] by simp
  moreover have "is_money (sumTaxes (filter cx_inclusive (pc_taxes pc)))"
    unfolding sumTaxes_def by (rule is_money_sum_list) (use taxes in auto)
  ultimately show "is_money (pc_net pc)" using is_money_diff[OF assms(3)] by simp
qed

lemma charge_rows_sum:
  assumes "decimal_arith D" and "priceCharge D rules b ct p u = Inr pc" and "is_money p"
  shows "sum_list (map (\<lambda>i. num2 (li_amount i)) (charge_rows inp pc n)) = pc_total pc"
proof -
  have "sum_list (map (\<lambda>t. num2 (cx_taxAmount t)) (pc_taxes pc)) = sumTaxes (pc_taxes pc)"
    unfolding sumTaxes_def using priced_money(2)[OF assms] by (intro arg_cong[of _ _ sum_list] map_cong) simp_all
  then show ?thesis using te.lines_add_up[OF assms(2)] priced_money(1)[OF assms]
    by (simp add: charge_rows_def charge_line_def tax_line_def comp_def)
qed

lemma writeCharge_balance:
  assumes "decimal_arith D" and "is_money (ci_amount inp)" and "writeChargeWithTaxes D inp d = Inr (Some parent, d')"
  shows "\<exists>priced. priceCharge D (db_taxRules d) (ci_branch inp) (ci_chargeType inp) (ci_amount inp) 1 = Inr priced \<and>
     balance d' f = balance d f + (if f = ci_folio inp then pc_total priced else 0)"
  using assms(3)
proof (cases rule: writeCharge_Some)
  case (1 priced)
  show ?thesis unfolding 1(4)
    using charge_rows_sum[OF assms(1) 1(1) assms(2)] 1(1)
    by (simp add: balance_append_lines[OF charge_rows_folio])
qed

section \<open>Corrections\<close>

definition reversal_rows :: "line_item \<Rightarrow> db \<Rightarrow> nat option \<Rightarrow> line_item list" where
  "reversal_rows original d actorId =
     correction_line original (sum_list (map li_amount (taxesToReverse d original))) actorId #
     map (tax_reversal (db_next d) actorId) (taxesToReverse d original)"

lemma catch_unique_Inr [simp]: "catch_unique m = Inr x \<longleftrightarrow> m = Inr x"
  by (auto simp: catch_unique_def split: sum.splits http_error.splits)

lemma reverseLineItem_Inr:
  assumes "reverseLineItem original folio actorId d = Inr (c, d')"
  shows "\<not> corrected d (li_id original)" and "c = stamp (db_next d) (hd (reversal_rows original d actorId))"
    and "d' = audit (fo_branch folio) actorId ''line_item.corrected'' (db_next d) (append_lines (reversal_rows original d actorId) d)"
    and "ledger_ok d \<Longrightarrow> li_id original < db_next d \<Longrightarrow> ledger_ok d'"
proof -
  let ?taxes = "taxesToReverse d original"
  let ?row = "correction_line original (sum_list (map li_amount ?taxes)) actorId"
  from assms obtain d1 d2 where i: "insert_line ?row d = Inr (c, d1)"
    and f: "foldr_res (\<lambda>t. add_line (tax_reversal (li_id c) actorId t)) ?taxes d1 = Inr d2"
    and d': "d' = audit (fo_branch folio) actorId ''line_item.corrected'' (li_id c) d2"
    by (auto simp: reverseLineItem_def Let_def res_simps split: if_splits prod.splits)
  note a = insert_line_append[OF i] and b = add_lines_append(1)[OF f]
  have cid: "li_id c = db_next d" by (simp add: a(2))
  show "\<not> corrected d (li_id original)" using assms by (auto simp: reverseLineItem_def split: if_splits)
  show "c = stamp (db_next d) (hd (reversal_rows original d actorId))" by (simp add: a(2) reversal_rows_def)
  show "d' = audit (fo_branch folio) actorId ''line_item.corrected'' (db_next d) (append_lines (reversal_rows original d actorId) d)"
    unfolding d' b a(1) append_lines_append by (simp add: cid a(2) reversal_rows_def)
  assume ok: "ledger_ok d" "li_id original < db_next d"
  have "ledger_ok d1" by (rule ledger_ok_insert[OF i ok(1)]) (simp_all add: correction_line_def blank_line_def live_line_def ok(2))
  then have "ledger_ok d2"
  proof (rule ledger_ok_adds[OF f])
    fix t assume "t \<in> set ?taxes"
    then have "t \<in> set (db_lines d)" by (auto simp: taxesToReverse_def split: if_splits)
    then have "li_id t < db_next d" using ok(1) by (auto simp: ledger_ok_def list_all_iff line_ok_def)
    then show "case li_corrects (tax_reversal (li_id c) actorId t) of Some x \<Rightarrow> x < db_next d1 | None \<Rightarrow> True"
      by (simp add: tax_reversal_def blank_line_def a(1))
  qed (simp_all add: tax_reversal_def blank_line_def live_line_def cid a(1))
  then show "ledger_ok d'" by (simp add: d')
qed

lemma taxesToReverse_sub:
  "t \<in> set (taxesToReverse d o') \<Longrightarrow> t \<in> set (db_lines d) \<and> li_folio t = li_folio o' \<and> live_line t \<and> \<not> corrected d (li_id t) \<and>
     li_parent t = Some (li_id o')"
  by (auto simp: taxesToReverse_def split: if_splits)

lemma reversal_rows_folio: "i \<in> set (reversal_rows original d actorId) \<Longrightarrow> li_folio i = li_folio original \<and> live_line i"
  using taxesToReverse_sub[of _ d original]
  by (auto simp: reversal_rows_def correction_line_def tax_reversal_def blank_line_def live_line_def)

lemma reversal_rows_sum:
  assumes "ledger_ok d" and "original \<in> set (db_lines d)"
  shows "sum_list (map (\<lambda>i. num2 (li_amount i)) (reversal_rows original d actorId)) =
     - (li_amount original + sum_list (map li_amount (taxesToReverse d original)))"
proof -
  have m: "is_money (li_amount x)" if "x \<in> set (db_lines d)" for x using line_okD[OF assms(1) that] by (simp add: line_ok_def)
  have "map (\<lambda>t. num2 (- li_amount t)) (taxesToReverse d original) = map (\<lambda>t. - li_amount t) (taxesToReverse d original)"
    using m taxesToReverse_sub[of _ d original] is_money_minus by (intro map_cong) auto
  then have "sum_list (map (\<lambda>t. num2 (- li_amount t)) (taxesToReverse d original)) = - sum_list (map li_amount (taxesToReverse d original))"
    by (simp only: sum_list_uminus)
  then show ?thesis using m[OF assms(2)] is_money_minus[of "li_amount original"]
    by (simp add: reversal_rows_def correction_line_def tax_reversal_def comp_def)
qed

lemma reverse_balance:
  assumes "reverseLineItem original folio actorId d = Inr (c, d')" and "ledger_ok d" and "original \<in> set (db_lines d)"
  shows "balance d' f = balance d f -
     (if f = li_folio original then li_amount original + sum_list (map li_amount (taxesToReverse d original)) else 0)"
  unfolding reverseLineItem_Inr(3)[OF assms(1)]
  using reversal_rows_sum[OF assms(2,3), of actorId]
  by (simp add: balance_append_lines[OF reversal_rows_folio])

section \<open>Families of lines\<close>

text \<open>
  A charge, its taxes, its correction and the correction's tax reversals are one family. In
  a book in order a tax line's charge and a correction's original are on the same bill as
  the line itself, and a tax reversal hangs off the correction of its tax's charge.
\<close>

definition hasLine :: "db \<Rightarrow> nat \<Rightarrow> nat \<Rightarrow> bool" where
  "hasLine d i f \<longleftrightarrow> (\<exists>x \<in> set (db_lines d). li_id x = i \<and> li_folio x = f)"

definition family_ok :: "db \<Rightarrow> bool" where
  "family_ok d \<longleftrightarrow> (\<forall>i \<in> set (db_lines d).
     (\<forall>p. li_parent i = Some p \<longrightarrow> li_chargeType i = Tax \<and> hasLine d p (li_folio i)) \<and>
     (\<forall>c. li_corrects i = Some c \<longrightarrow> hasLine d c (li_folio i)) \<and>
     (\<forall>p c. li_parent i = Some p \<longrightarrow> li_corrects i = Some c \<longrightarrow>
        (\<exists>k \<in> set (db_lines d). \<exists>t \<in> set (db_lines d). li_id k = p \<and> li_id t = c \<and> li_corrects k \<noteq> None \<and> li_parent t = li_corrects k)))"

definition book_ok :: "db \<Rightarrow> bool" where
  "book_ok d \<longleftrightarrow> ledger_ok d \<and> family_ok d"

lemma family_okD:
  assumes "family_ok d" and "i \<in> set (db_lines d)"
  shows "li_parent i = Some p \<Longrightarrow> li_chargeType i = Tax" and "li_parent i = Some p \<Longrightarrow> hasLine d p (li_folio i)"
    and "li_corrects i = Some c \<Longrightarrow> hasLine d c (li_folio i)"
    and "li_parent i = Some p \<Longrightarrow> li_corrects i = Some c \<Longrightarrow>
      \<exists>k \<in> set (db_lines d). \<exists>t \<in> set (db_lines d). li_id k = p \<and> li_id t = c \<and> li_corrects k \<noteq> None \<and> li_parent t = li_corrects k"
  using assms unfolding family_ok_def by blast+

lemma book_okD: "book_ok d \<Longrightarrow> ledger_ok d" "book_ok d \<Longrightarrow> family_ok d"
  by (simp_all add: book_ok_def)

lemma hasLine_append: "hasLine d i f \<Longrightarrow> hasLine (append_lines rows d) i f"
  by (auto simp: hasLine_def)

lemma family_ok_audit [simp]: "family_ok (audit b u a e d) = family_ok d"
  by (simp add: family_ok_def hasLine_def)

lemma book_ok_audit [simp]: "book_ok (audit b u a e d) = book_ok d"
  by (simp add: book_ok_def)

text \<open>Appended rows keep families together when each new row is itself in order.\<close>

lemma family_ok_append:
  assumes "family_ok d"
    and "\<And>i. i \<in> set (stamped (db_next d) rows) \<Longrightarrow>
      (\<forall>p. li_parent i = Some p \<longrightarrow> li_chargeType i = Tax \<and> hasLine (append_lines rows d) p (li_folio i)) \<and>
      (\<forall>c. li_corrects i = Some c \<longrightarrow> hasLine (append_lines rows d) c (li_folio i)) \<and>
      (\<forall>p c. li_parent i = Some p \<longrightarrow> li_corrects i = Some c \<longrightarrow>
        (\<exists>k \<in> set (db_lines (append_lines rows d)). \<exists>t \<in> set (db_lines (append_lines rows d)).
           li_id k = p \<and> li_id t = c \<and> li_corrects k \<noteq> None \<and> li_parent t = li_corrects k))"
  shows "family_ok (append_lines rows d)"
  unfolding family_ok_def
proof (intro ballI)
  fix i assume "i \<in> set (db_lines (append_lines rows d))"
  then consider "i \<in> set (db_lines d)" | "i \<in> set (stamped (db_next d) rows)" by auto
  then show "(\<forall>p. li_parent i = Some p \<longrightarrow> li_chargeType i = Tax \<and> hasLine (append_lines rows d) p (li_folio i)) \<and>
      (\<forall>c. li_corrects i = Some c \<longrightarrow> hasLine (append_lines rows d) c (li_folio i)) \<and>
      (\<forall>p c. li_parent i = Some p \<longrightarrow> li_corrects i = Some c \<longrightarrow>
        (\<exists>k \<in> set (db_lines (append_lines rows d)). \<exists>t \<in> set (db_lines (append_lines rows d)).
           li_id k = p \<and> li_id t = c \<and> li_corrects k \<noteq> None \<and> li_parent t = li_corrects k))"
  proof cases
    case 1
    note f = family_okD[OF assms(1) 1]
    have m: "x \<in> set (db_lines d) \<Longrightarrow> x \<in> set (db_lines (append_lines rows d))" for x by simp
    show ?thesis using f(1) f(2,3)[THEN hasLine_append] f(4) m by meson
  next
    case 2
    then show ?thesis by (rule assms(2))
  qed
qed

lemma charge_rows_family:
  assumes "family_ok d"
  shows "family_ok (append_lines (charge_rows inp priced (db_next d)) d)"
proof (rule family_ok_append[OF assms])
  let ?d = "append_lines (charge_rows inp priced (db_next d)) d"
  fix i assume "i \<in> set (stamped (db_next d) (charge_rows inp priced (db_next d)))"
  then obtain x k where x: "x \<in> set (charge_rows inp priced (db_next d))" "i = stamp k x" using mem_stamped by blast
  have p: "hasLine ?d (db_next d) (ci_folio inp)" by (auto simp: hasLine_def charge_rows_def charge_line_def)
  from x show "(\<forall>p. li_parent i = Some p \<longrightarrow> li_chargeType i = Tax \<and> hasLine ?d p (li_folio i)) \<and>
      (\<forall>c. li_corrects i = Some c \<longrightarrow> hasLine ?d c (li_folio i)) \<and>
      (\<forall>p c. li_parent i = Some p \<longrightarrow> li_corrects i = Some c \<longrightarrow>
        (\<exists>k \<in> set (db_lines ?d). \<exists>t \<in> set (db_lines ?d).
           li_id k = p \<and> li_id t = c \<and> li_corrects k \<noteq> None \<and> li_parent t = li_corrects k))"
    using p by (auto simp: charge_rows_def charge_line_def tax_line_def blank_line_def)
qed

lemma writeCharge_book_ok:
  assumes "writeChargeWithTaxes D inp d = Inr (l, d')" and "book_ok d"
  shows "book_ok d'"
proof (cases l)
  case None
  then show ?thesis using assms writeCharge_None by simp
next
  case (Some parent)
  with assms(1) have "writeChargeWithTaxes D inp d = Inr (Some parent, d')" by simp
  then show ?thesis
  proof (cases rule: writeCharge_Some)
    case (1 priced)
    then show ?thesis using assms(2) charge_rows_family[of d inp priced] unfolding book_ok_def by simp
  qed
qed

lemma reverse_book_ok:
  assumes "reverseLineItem original folio actorId d = Inr (c, d')" and "book_ok d" and "original \<in> set (db_lines d)"
  shows "book_ok d'"
proof -
  let ?rows = "reversal_rows original d actorId"
  let ?d = "append_lines ?rows d"
  have ok: "ledger_ok d" "family_ok d" using assms(2) by (simp_all add: book_ok_def)
  have o: "li_id original < db_next d" using line_okD[OF ok(1) assms(3)] by (simp add: line_ok_def)
  let ?k = "stamp (db_next d) (hd ?rows)"
  have k: "?k \<in> set (db_lines ?d)" by (simp add: reversal_rows_def)
  have "family_ok ?d"
  proof (rule family_ok_append[OF ok(2)])
    fix i assume "i \<in> set (stamped (db_next d) ?rows)"
    then obtain x n where x: "x \<in> set ?rows" "i = stamp n x" using mem_stamped by blast
    have "hasLine ?d (li_id original) (li_folio original)" using assms(3) by (auto simp: hasLine_def)
    moreover have "hasLine ?d (db_next d) (li_folio original)" using k by (auto simp: hasLine_def reversal_rows_def correction_line_def)
    moreover have "hasLine ?d (li_id t) (li_folio original) \<and> li_parent t = Some (li_id original) \<and> t \<in> set (db_lines ?d) \<and> li_folio t = li_folio original"
      if "t \<in> set (taxesToReverse d original)" for t
      using taxesToReverse_sub[OF that] by (auto simp: hasLine_def)
    moreover have "li_id ?k = db_next d" "li_corrects ?k = Some (li_id original)"
      by (simp_all add: reversal_rows_def correction_line_def)
    ultimately show "(\<forall>p. li_parent i = Some p \<longrightarrow> li_chargeType i = Tax \<and> hasLine ?d p (li_folio i)) \<and>
      (\<forall>c. li_corrects i = Some c \<longrightarrow> hasLine ?d c (li_folio i)) \<and>
      (\<forall>p c. li_parent i = Some p \<longrightarrow> li_corrects i = Some c \<longrightarrow>
        (\<exists>k \<in> set (db_lines ?d). \<exists>t \<in> set (db_lines ?d).
           li_id k = p \<and> li_id t = c \<and> li_corrects k \<noteq> None \<and> li_parent t = li_corrects k))"
    proof (cases "x = hd ?rows")
      case False
      with x obtain t where t: "t \<in> set (taxesToReverse d original)" "x = tax_reversal (db_next d) actorId t"
        by (auto simp: reversal_rows_def)
      note u = \<open>\<And>t. t \<in> set (taxesToReverse d original) \<Longrightarrow> _\<close>[OF t(1)]
      have "\<exists>k \<in> set (db_lines ?d). \<exists>t' \<in> set (db_lines ?d). li_id k = db_next d \<and> li_id t' = li_id t \<and> li_corrects k \<noteq> None \<and> li_parent t' = li_corrects k"
        using k u \<open>li_id ?k = db_next d\<close> \<open>li_corrects ?k = Some (li_id original)\<close> by (metis option.distinct(1))
      then show ?thesis using t(2) x(2) u \<open>hasLine ?d (db_next d) (li_folio original)\<close>
        by (simp add: tax_reversal_def blank_line_def del: append_lines_sel)
    qed (simp add: x(2) reversal_rows_def correction_line_def blank_line_def del: append_lines_sel)
  qed
  then show ?thesis using reverseLineItem_Inr(3,4)[OF assms(1)] ok(1) o by (simp add: book_ok_def)
qed

end
