(* ===== verification/Folio_Moves.thy ===== *)
theory Folio_Moves
  imports Folio_Ledger
begin

text \<open>
  Moving charges between bills: the closure \<^verbatim>\<open>withDependents\<close> computes, what
  \<^verbatim>\<open>moveCharges\<close> and \<^verbatim>\<open>reverseTransfer\<close> do to the balances and to the families of lines, and
  that a reversal puts every line back where it was.
\<close>

section \<open>The closure\<close>

lemma newItems_ids: "set (map li_id (newItems seen is)) \<union> set seen = set (map li_id is) \<union> set seen"
  by (induction seen "is" rule: newItems.induct) auto

lemma newItems_mem: "i \<in> set is \<Longrightarrow> li_id i \<in> set seen \<union> set (map li_id (newItems seen is))"
  using newItems_ids[of seen "is"] by auto

text \<open>
  The loop's invariant: what was seen is what was collected; everything hanging off a line
  that was seen but is no longer on the frontier was seen; and every line collected after
  the first ones hangs off one that was.
\<close>

definition loop_inv :: "line_item list \<Rightarrow> line_item list \<Rightarrow> line_item list \<Rightarrow> nat list \<Rightarrow> nat list \<Rightarrow> bool" where
  "loop_inv lines items result seen frontier \<longleftrightarrow>
     set seen = li_id ` set result \<and> set frontier \<subseteq> set seen \<and> set items \<subseteq> set result \<and>
     set result \<subseteq> set items \<union> set lines \<and>
     (\<forall>i \<in> set lines. \<forall>s \<in> set seen - set frontier. hangsOff [s] i \<longrightarrow> li_id i \<in> set seen) \<and>
     (\<forall>i \<in> set result. i \<in> set items \<or> hangsOff seen i)"

lemma hangsOff_single: "hangsOff xs i \<longleftrightarrow> (\<exists>s \<in> set xs. hangsOff [s] i)"
  by (auto simp: hangsOff_def split: option.splits)

lemma hangsOff_mono: "hangsOff xs i \<Longrightarrow> set xs \<subseteq> set ys \<Longrightarrow> hangsOff ys i"
  by (auto simp: hangsOff_def split: option.splits)

lemma loop_inv_step:
  assumes "loop_inv lines items result seen frontier"
  defines "new \<equiv> newItems seen (filter (hangsOff frontier) lines)"
  shows "loop_inv lines items (result @ new) (map li_id new @ seen) (map li_id new)"
proof -
  have sub: "i \<in> set lines \<and> hangsOff frontier i" if "i \<in> set new" for i
    using newItems_sub[of i seen "filter (hangsOff frontier) lines"] that by (auto simp: new_def)
  have cl: "li_id i \<in> set (map li_id new @ seen)"
    if i: "i \<in> set lines" and s: "s \<in> set (map li_id new @ seen) - set (map li_id new)" "hangsOff [s] i" for i s
  proof (cases "s \<in> set frontier")
    case True
    with s(2) have "hangsOff frontier i" using hangsOff_single by blast
    then show ?thesis using newItems_mem[of i "filter (hangsOff frontier) lines" seen] i by (auto simp: new_def)
  next
    case False
    with s i assms(1) show ?thesis unfolding loop_inv_def by auto
  qed
  have up: "set seen \<subseteq> set (map li_id new @ seen)" "set frontier \<subseteq> set (map li_id new @ seen)"
    using assms(1) unfolding loop_inv_def by auto
  have r: "i \<in> set items \<or> hangsOff (map li_id new @ seen) i" if "i \<in> set (result @ new)" for i
  proof (cases "i \<in> set result")
    case True
    then have "i \<in> set items \<or> hangsOff seen i" using assms(1) unfolding loop_inv_def by blast
    then show ?thesis using hangsOff_mono[OF _ up(1)] by blast
  next
    case False
    then have "hangsOff frontier i" using that sub by auto
    then show ?thesis using hangsOff_mono[OF _ up(2)] by blast
  qed
  have "set (map li_id new @ seen) = li_id ` set (result @ new)" using assms(1) unfolding loop_inv_def by auto
  moreover have "set items \<subseteq> set (result @ new)" "set (result @ new) \<subseteq> set items \<union> set lines"
    using assms(1) sub unfolding loop_inv_def by auto
  ultimately show ?thesis unfolding loop_inv_def using cl r by (intro conjI ballI impI) (simp_all only:, auto)
qed

lemma dependentsLoop_inv:
  assumes "loop_inv lines items result seen frontier"
  shows "\<exists>seen'. loop_inv lines items (dependentsLoop lines result seen frontier) seen' []"
  using assms
proof (induction lines result seen frontier rule: dependentsLoop.induct)
  case (1 lines result seen frontier)
  show ?case
  proof (cases "frontier = []")
    case True
    then show ?thesis using 1(2) by (auto simp: dependentsLoop.simps[of lines result])
  next
    case False
    then show ?thesis
      using 1(1)[OF False refl loop_inv_step[OF 1(2)]] by (simp add: dependentsLoop.simps[of lines result seen frontier] Let_def)
  qed
qed

text \<open>What \<^verbatim>\<open>withDependents\<close> promises: the given lines, closed under hanging off, and nothing more.\<close>

lemma withDependents_closure:
  fixes d f items
  defines "res \<equiv> withDependents d f items"
  defines "ids \<equiv> li_id ` set res"
  shows "set items \<subseteq> set res" and "set res \<subseteq> set items \<union> set (linesOf d f)"
    and "\<And>i p. i \<in> set (linesOf d f) \<Longrightarrow> li_parent i = Some p \<Longrightarrow> p \<in> ids \<Longrightarrow> li_id i \<in> ids"
    and "\<And>i c. i \<in> set (linesOf d f) \<Longrightarrow> li_corrects i = Some c \<Longrightarrow> c \<in> ids \<Longrightarrow> li_id i \<in> ids"
    and "\<And>i. i \<in> set res \<Longrightarrow> i \<in> set items \<or> (\<exists>p \<in> ids. li_parent i = Some p) \<or> (\<exists>c \<in> ids. li_corrects i = Some c)"
proof -
  have "loop_inv (linesOf d f) items items (js_unique (map li_id items)) (js_unique (map li_id items))"
    by (auto simp: loop_inv_def)
  then obtain seen where s: "loop_inv (linesOf d f) items res seen []"
    unfolding res_def withDependents_def Let_def using dependentsLoop_inv by blast
  then have seen: "set seen = ids" by (auto simp: loop_inv_def ids_def)
  have cl: "hangsOff [s] i \<Longrightarrow> s \<in> ids \<Longrightarrow> i \<in> set (linesOf d f) \<Longrightarrow> li_id i \<in> ids" for i s
    using s seen unfolding loop_inv_def by auto
  show "set items \<subseteq> set res" "set res \<subseteq> set items \<union> set (linesOf d f)" using s by (auto simp: loop_inv_def)
  show "i \<in> set (linesOf d f) \<Longrightarrow> li_parent i = Some p \<Longrightarrow> p \<in> ids \<Longrightarrow> li_id i \<in> ids" for i p
    using cl[of p i] by (simp add: hangsOff_def)
  show "i \<in> set (linesOf d f) \<Longrightarrow> li_corrects i = Some c \<Longrightarrow> c \<in> ids \<Longrightarrow> li_id i \<in> ids" for i c
    using cl[of c i] by (simp add: hangsOff_def)
  fix i assume "i \<in> set res"
  then have "i \<in> set items \<or> hangsOff seen i" using s by (auto simp: loop_inv_def)
  then show "i \<in> set items \<or> (\<exists>p \<in> ids. li_parent i = Some p) \<or> (\<exists>c \<in> ids. li_corrects i = Some c)"
    using seen by (auto simp: hangsOff_def split: option.splits)
qed

section \<open>Whole families move\<close>

text \<open>
  A set of line ids on one bill that is closed downwards and whose anchored members were
  selected with their anchor contains, with every line, the line it hangs off and the line
  it corrects.
\<close>

lemma upward_closed:
  assumes "book_ok d" and sub: "\<And>i. i \<in> set (db_lines d) \<Longrightarrow> li_id i \<in> M \<Longrightarrow> li_folio i = f"
    and downP: "\<And>i p. i \<in> set (db_lines d) \<Longrightarrow> li_folio i = f \<Longrightarrow> li_parent i = Some p \<Longrightarrow> p \<in> M \<Longrightarrow> li_id i \<in> M"
    and downC: "\<And>i c. i \<in> set (db_lines d) \<Longrightarrow> li_folio i = f \<Longrightarrow> li_corrects i = Some c \<Longrightarrow> c \<in> M \<Longrightarrow> li_id i \<in> M"
    and root: "\<And>i. i \<in> set (db_lines d) \<Longrightarrow> li_id i \<in> M \<Longrightarrow>
      (case anchorOf i of None \<Rightarrow> True | Some a \<Rightarrow> a \<in> M) \<or> (\<exists>p \<in> M. li_parent i = Some p) \<or> (\<exists>c \<in> M. li_corrects i = Some c)"
  shows "i \<in> set (db_lines d) \<Longrightarrow> li_id i \<in> M \<Longrightarrow> (\<forall>p. li_parent i = Some p \<longrightarrow> p \<in> M) \<and> (\<forall>c. li_corrects i = Some c \<longrightarrow> c \<in> M)"
proof (induction "li_id i" arbitrary: i rule: less_induct)
  case less
  note fam = family_okD[OF book_okD(2)[OF assms(1)] less.prems(1)]
  have ok: "line_ok d i" by (rule line_okD[OF book_okD(1)[OF assms(1)] less.prems(1)])
  have fi: "li_folio i = f" by (rule sub[OF less.prems])
  show ?case
  proof (cases "li_parent i")
    case None
    then have a: "anchorOf i = li_corrects i" by (simp add: anchorOf_def)
    have "li_corrects i = Some c \<Longrightarrow> c \<in> M" for c using root[OF less.prems] None a by fastforce
    then show ?thesis using None by simp
  next
    case p: (Some p)
    then have a: "anchorOf i = Some p" using fam(1) by (simp add: anchorOf_def)
    show ?thesis
    proof (cases "li_corrects i")
      case None
      then show ?thesis using root[OF less.prems] p a by auto
    next
      case c: (Some c)
      from fam(4)[OF p c] obtain k t x where k: "k \<in> set (db_lines d)" "li_id k = p" "li_corrects k = Some x"
        and t: "t \<in> set (db_lines d)" "li_id t = c" "li_parent t = Some x" by auto
      have lt: "p < li_id i" "c < li_id i" using ok p c by (simp_all add: line_ok_def)
      note uniq = line_unique[OF book_okD(1)[OF assms(1)]]
      have kf: "li_folio k = f" using fam(2)[OF p] uniq[OF k(1)] k(2) fi unfolding hasLine_def by metis
      have tf: "li_folio t = f" using fam(3)[OF c] uniq[OF t(1)] t(2) fi unfolding hasLine_def by metis
      have "x \<in> M" if "p \<in> M" using less.hyps[of k] k lt(1) that by simp
      then have "p \<in> M \<Longrightarrow> c \<in> M" using downP[OF t(1) tf t(3)] t(2) by simp
      moreover have "x \<in> M" if "c \<in> M" using less.hyps[of t] t lt(2) that by simp
      then have "c \<in> M \<Longrightarrow> p \<in> M" using downC[OF k(1) kf k(3)] k(2) by simp
      moreover have "p \<in> M \<or> c \<in> M" using root[OF less.prems] p c a by auto
      ultimately have "p \<in> M" "c \<in> M" by blast+
      then show ?thesis using p c by simp
    qed
  qed
qed

section \<open>Reassigning lines\<close>

lemma move_lines_sel [simp]:
  "db_next (move_lines M t d) = db_next d" "db_payments (move_lines M t d) = db_payments d"
  "db_folios (move_lines M t d) = db_folios d" "db_transfers (move_lines M t d) = db_transfers d"
  "db_lines (move_lines M t d) = map (\<lambda>i. if li_id i \<in> M then i\<lparr>li_folio := t\<rparr> else i) (db_lines d)"
  "db_refunds (move_lines M t d) = db_refunds d" "db_shifts (move_lines M t d) = db_shifts d"
  "db_reservations (move_lines M t d) = db_reservations d" "db_taxRules (move_lines M t d) = db_taxRules d"
  "db_branches (move_lines M t d) = db_branches d" "db_guests (move_lines M t d) = db_guests d" "db_loyalty (move_lines M t d) = db_loyalty d"
  by (simp_all add: move_lines_def)

definition movedSum :: "nat set \<Rightarrow> db \<Rightarrow> rat" where
  "movedSum M d = sum_list (map li_amount (filter (\<lambda>i. li_id i \<in> M \<and> live_line i) (db_lines d)))"

lemma balance_move_lines:
  assumes "\<And>i. i \<in> set (db_lines d) \<Longrightarrow> li_id i \<in> M \<Longrightarrow> li_folio i = s" and "s \<noteq> t"
  shows "balance (move_lines M t d) f = balance d f + (if f = t then movedSum M d else 0) - (if f = s then movedSum M d else 0)"
proof -
  let ?g = "\<lambda>i. if li_id i \<in> M then i\<lparr>li_folio := t\<rparr> else i"
  have "sum_list (map li_amount (filter (\<lambda>i. li_folio i = f \<and> live_line i) (map ?g xs))) =
      sum_list (map li_amount (filter (\<lambda>i. li_folio i = f \<and> live_line i) xs)) +
      (if f = t then sum_list (map li_amount (filter (\<lambda>i. li_id i \<in> M \<and> live_line i) xs)) else 0) -
      (if f = s then sum_list (map li_amount (filter (\<lambda>i. li_id i \<in> M \<and> live_line i) xs)) else 0)"
    if "\<forall>i \<in> set xs. li_id i \<in> M \<longrightarrow> li_folio i = s" for xs
    using that assms(2) by (induction xs) (auto simp: live_line_def)
  from this[of "db_lines d"] assms(1) show ?thesis
    by (auto simp: balance_def charges_def paid_def linesOf_def paymentsOf_def movedSum_def)
qed

lemma line_ok_move: "line_ok (move_lines M t d) i = line_ok d i"
  by (simp add: line_ok_def)

lemma ledger_ok_move: "ledger_ok d \<Longrightarrow> ledger_ok (move_lines M t d)"
proof -
  have "map li_id (map (\<lambda>i. if li_id i \<in> M then i\<lparr>li_folio := t\<rparr> else i) xs) = map li_id xs"
    "map li_corrects (map (\<lambda>i. if li_id i \<in> M then i\<lparr>li_folio := t\<rparr> else i) xs) = map li_corrects xs" for xs :: "line_item list"
    by (induction xs) auto
  moreover have "line_ok d (i\<lparr>li_folio := t\<rparr>) = line_ok d i" for i by (auto simp: line_ok_def live_line_def split: option.splits)
  ultimately show "ledger_ok d \<Longrightarrow> ledger_ok (move_lines M t d)"
    by (auto simp: ledger_ok_def list_all_iff line_ok_move simp del: map_map)
qed

lemma mem_move_lines:
  "x \<in> set (db_lines (move_lines M t d)) \<longleftrightarrow> (\<exists>i \<in> set (db_lines d). x = (if li_id i \<in> M then i\<lparr>li_folio := t\<rparr> else i))"
  by auto

text \<open>A family-closed set of lines moves as whole families.\<close>

lemma book_ok_move:
  assumes "book_ok d" and sub: "\<And>i. i \<in> set (db_lines d) \<Longrightarrow> li_id i \<in> M \<Longrightarrow> li_folio i = s"
    and down: "\<And>i p. i \<in> set (db_lines d) \<Longrightarrow> li_folio i = s \<Longrightarrow> li_parent i = Some p \<or> li_corrects i = Some p \<Longrightarrow> p \<in> M \<Longrightarrow> li_id i \<in> M"
    and up: "\<And>i p. i \<in> set (db_lines d) \<Longrightarrow> li_id i \<in> M \<Longrightarrow> li_parent i = Some p \<or> li_corrects i = Some p \<Longrightarrow> p \<in> M"
  shows "book_ok (move_lines M t d)"
proof -
  let ?g = "\<lambda>i. if li_id i \<in> M then i\<lparr>li_folio := t\<rparr> else i"
  let ?d = "move_lines M t d"
  have gsel: "li_id (?g i) = li_id i" "li_parent (?g i) = li_parent i" "li_corrects (?g i) = li_corrects i"
    "li_chargeType (?g i) = li_chargeType i" for i by simp_all
  have mem: "?g i \<in> set (db_lines ?d)" if "i \<in> set (db_lines d)" for i using that by auto
  note fam = book_okD(2)[OF assms(1)] and led = book_okD(1)[OF assms(1)]
  have keep: "hasLine ?d p (li_folio (?g i))"
    if i: "i \<in> set (db_lines d)" and p: "li_parent i = Some p \<or> li_corrects i = Some p" for i p
  proof -
    from p family_okD(2,3)[OF fam i] have "hasLine d p (li_folio i)" by blast
    then obtain x where x: "x \<in> set (db_lines d)" "li_id x = p" "li_folio x = li_folio i" by (auto simp: hasLine_def)
    have iff: "li_id i \<in> M \<longleftrightarrow> p \<in> M"
    proof
      assume "li_id i \<in> M"
      then show "p \<in> M" using up[OF i _ p] by blast
    next
      assume "p \<in> M"
      moreover from this have "li_folio i = s" using sub[OF x(1)] x by simp
      ultimately show "li_id i \<in> M" using down[OF i _ p] by blast
    qed
    have "li_folio (?g x) = li_folio (?g i)" using iff x by simp
    moreover have "li_id (?g x) = p" using x(2) by simp
    ultimately show ?thesis unfolding hasLine_def by (intro bexI[OF _ mem[OF x(1)]] conjI)
  qed
  have "family_ok ?d"
    unfolding family_ok_def
  proof (intro ballI)
    fix y assume "y \<in> set (db_lines ?d)"
    then obtain i where i: "i \<in> set (db_lines d)" and y: "y = ?g i" unfolding mem_move_lines by blast
    note f = family_okD[OF fam i]
    have tri: "\<exists>k \<in> set (db_lines ?d). \<exists>u \<in> set (db_lines ?d). li_id k = p \<and> li_id u = c \<and> li_corrects k \<noteq> None \<and> li_parent u = li_corrects k"
      if "li_parent i = Some p" "li_corrects i = Some c" for p c
    proof -
      from f(4)[OF that] obtain k u where k: "k \<in> set (db_lines d)" and u: "u \<in> set (db_lines d)"
        and e: "li_id k = p" "li_id u = c" "li_corrects k \<noteq> None" "li_parent u = li_corrects k" by blast
      have "li_id (?g k) = p \<and> li_id (?g u) = c \<and> li_corrects (?g k) \<noteq> None \<and> li_parent (?g u) = li_corrects (?g k)"
        unfolding gsel using e by blast
      then show ?thesis using mem[OF k] mem[OF u] by blast
    qed
    show "(\<forall>p. li_parent y = Some p \<longrightarrow> li_chargeType y = Tax \<and> hasLine ?d p (li_folio y)) \<and>
      (\<forall>c. li_corrects y = Some c \<longrightarrow> hasLine ?d c (li_folio y)) \<and>
      (\<forall>p c. li_parent y = Some p \<longrightarrow> li_corrects y = Some c \<longrightarrow>
        (\<exists>k \<in> set (db_lines ?d). \<exists>t \<in> set (db_lines ?d). li_id k = p \<and> li_id t = c \<and> li_corrects k \<noteq> None \<and> li_parent t = li_corrects k))"
    proof (intro conjI allI impI)
      fix p assume "li_parent y = Some p"
      then have p: "li_parent i = Some p" by (simp only: y gsel)
      show "li_chargeType y = Tax" unfolding y gsel by (rule f(1)[OF p])
      show "hasLine ?d p (li_folio y)" unfolding y using keep[OF i] p by blast
      fix c assume "li_corrects y = Some c"
      then have c: "li_corrects i = Some c" by (simp only: y gsel)
      show "\<exists>k \<in> set (db_lines ?d). \<exists>t \<in> set (db_lines ?d). li_id k = p \<and> li_id t = c \<and> li_corrects k \<noteq> None \<and> li_parent t = li_corrects k"
        by (rule tri[OF p c])
    next
      fix c assume "li_corrects y = Some c"
      then have "li_corrects i = Some c" by (simp only: y gsel)
      then show "hasLine ?d c (li_folio y)" unfolding y using keep[OF i] by blast
    qed
  qed
  then show ?thesis using ledger_ok_move[OF led] by (simp add: book_ok_def)
qed

section \<open>Moving and returning\<close>

lemma linesOf_mem: "ledger_ok d \<Longrightarrow> i \<in> set (linesOf d f) \<longleftrightarrow> i \<in> set (db_lines d) \<and> li_folio i = f"
  using line_okD[of d i] by (auto simp: linesOf_def line_ok_def)

lemma linesOf_distinct: "ledger_ok d \<Longrightarrow> distinct (map li_id (linesOf d f))"
  by (simp add: ledger_ok_def linesOf_def distinct_map_filter)

lemma moveCharges_Inr:
  assumes "moveCharges s dto actorId kind now d = Inr (tr, d')"
  obtains src tgt selected where "findFolioOrThrow d s = Inr src" and "findFolioOrThrow d (mi_target dto) = Inr tgt"
    and "fo_status src \<noteq> Settled" and "fo_status tgt \<noteq> Settled" and "s \<noteq> mi_target dto" and "fo_branch src = fo_branch tgt"
    and "kind = Split \<Longrightarrow> fo_reservation src = fo_reservation tgt"
    and "set selected \<subseteq> set (linesOf d s)" and "ledger_ok d \<Longrightarrow> distinct (map li_id selected)"
    and "\<And>i a. i \<in> set selected \<Longrightarrow> anchorOf i = Some a \<Longrightarrow> a \<in> li_id ` set (withDependents d s selected)"
    and "tr = \<lparr>ft_id = db_next d, ft_source = s, ft_target = mi_target dto, ft_lines = map li_id (withDependents d s selected),
            ft_amount = num2 (sum_list (map li_amount (withDependents d s selected))), ft_approvedBy = Some actorId, ft_createdAt = now,
            ft_reversedAt = None, ft_reversedBy = None\<rparr>"
    and "\<exists>b act. d' = audit b (Some actorId) act s ((move_lines (li_id ` set (withDependents d s selected)) (mi_target dto) d)
            \<lparr>db_transfers := db_transfers d @ [tr], db_next := Suc (db_next d)\<rparr>)"
proof -
  let ?sel = "if mi_all dto then linesOf d s else filter (\<lambda>i. li_id i \<in> set (the_default [] (mi_lines dto))) (linesOf d s)"
  from assms have ne: "s \<noteq> mi_target dto" by (auto simp: moveCharges_def)
  from assms obtain src where src: "findFolioOrThrow d s = Inr src"
    unfolding moveCharges_def Let_def by (cases "findFolioOrThrow d s") (simp_all split: if_splits)
  from assms src obtain tgt where tgt: "findFolioOrThrow d (mi_target dto) = Inr tgt"
    unfolding moveCharges_def Let_def by (cases "findFolioOrThrow d (mi_target dto)") (simp_all split: if_splits)
  from assms src tgt have opn: "fo_status src \<noteq> Settled" "fo_status tgt \<noteq> Settled"
    unfolding moveCharges_def Let_def by (auto simp: assertFolioOpen_def split: if_splits)
  then have 1: "findFolioOrThrow d s = Inr src" "findFolioOrThrow d (mi_target dto) = Inr tgt"
    "assertFolioOpen src = Inr ()" "assertFolioOpen tgt = Inr ()" "s \<noteq> mi_target dto"
    using src tgt ne by (simp_all add: assertFolioOpen_def)
  with assms have 2: "fo_branch src = fo_branch tgt" "kind = Split \<Longrightarrow> fo_reservation src = fo_reservation tgt"
    and anc: "\<not> (\<exists>i \<in> set ?sel. case anchorOf i of None \<Rightarrow> False | Some a \<Rightarrow> a \<notin> set (map li_id (withDependents d s ?sel)))"
    and tr: "tr = \<lparr>ft_id = db_next d, ft_source = s, ft_target = mi_target dto, ft_lines = map li_id (withDependents d s ?sel),
            ft_amount = num2 (sum_list (map li_amount (withDependents d s ?sel))), ft_approvedBy = Some actorId, ft_createdAt = now,
            ft_reversedAt = None, ft_reversedBy = None\<rparr>"
    and d': "d' = audit (fo_branch src) (Some actorId) (if kind = Split then ''folio.split'' else ''folio.transferred'') s
        ((move_lines (set (map li_id (withDependents d s ?sel))) (mi_target dto) d)\<lparr>db_transfers := db_transfers d @ [tr], db_next := Suc (db_next d)\<rparr>)"
    unfolding moveCharges_def Let_def by (simp_all split: if_splits)
  have sub: "set ?sel \<subseteq> set (linesOf d s)" by auto
  have dist: "distinct (map li_id ?sel)" if "ledger_ok d" using linesOf_distinct[OF that] by (simp add: distinct_map_filter)
  have anchors: "a \<in> li_id ` set (withDependents d s ?sel)" if "i \<in> set ?sel" "anchorOf i = Some a" for i a
    using anc that by (fastforce split: option.splits)
  have fin: "\<exists>b act. d' = audit b (Some actorId) act s ((move_lines (li_id ` set (withDependents d s ?sel)) (mi_target dto) d)
      \<lparr>db_transfers := db_transfers d @ [tr], db_next := Suc (db_next d)\<rparr>)"
    using d' unfolding set_map by blast
  show thesis by (rule that[of src tgt ?sel]) (fact src tgt opn ne 2 sub dist anchors tr fin)+
qed

text \<open>The lines a move takes: on the source bill, closed both ways.\<close>

lemma moved_set:
  assumes "book_ok d" and "set selected \<subseteq> set (linesOf d s)"
    and "\<forall>i \<in> set selected. \<forall>a. anchorOf i = Some a \<longrightarrow> a \<in> li_id ` set (withDependents d s selected)"
  defines "M \<equiv> li_id ` set (withDependents d s selected)"
  shows "\<And>i. i \<in> set (db_lines d) \<Longrightarrow> li_id i \<in> M \<Longrightarrow> li_folio i = s \<and> i \<in> set (withDependents d s selected)"
    and "\<And>i p. i \<in> set (db_lines d) \<Longrightarrow> li_folio i = s \<Longrightarrow> li_parent i = Some p \<or> li_corrects i = Some p \<Longrightarrow> p \<in> M \<Longrightarrow> li_id i \<in> M"
    and "\<And>i p. i \<in> set (db_lines d) \<Longrightarrow> li_id i \<in> M \<Longrightarrow> li_parent i = Some p \<or> li_corrects i = Some p \<Longrightarrow> p \<in> M"
proof -
  note led = book_okD(1)[OF assms(1)] and cl = withDependents_closure[where d = d and f = s and items = selected]
  have sub: "x \<in> set (db_lines d) \<and> li_folio x = s" if "x \<in> set (withDependents d s selected)" for x
    using cl(2) assms(2) that linesOf_mem[OF led] by blast
  show A: "li_folio i = s \<and> i \<in> set (withDependents d s selected)" if i: "i \<in> set (db_lines d)" "li_id i \<in> M" for i
  proof -
    from i(2) obtain x where x: "x \<in> set (withDependents d s selected)" "li_id x = li_id i" by (auto simp: M_def)
    then have "x = i" using line_unique[OF led _ i(1)] sub by blast
    then show ?thesis using sub x by blast
  qed
  show B: "li_id i \<in> M" if "i \<in> set (db_lines d)" "li_folio i = s" "li_parent i = Some p \<or> li_corrects i = Some p" "p \<in> M" for i p
    using that cl(3,4)[of i p] linesOf_mem[OF led] unfolding M_def by blast
  have root: "(case anchorOf i of None \<Rightarrow> True | Some a \<Rightarrow> a \<in> M) \<or> (\<exists>p \<in> M. li_parent i = Some p) \<or> (\<exists>c \<in> M. li_corrects i = Some c)"
    if i: "i \<in> set (db_lines d)" "li_id i \<in> M" for i
  proof -
    consider "i \<in> set selected" | "(\<exists>p \<in> M. li_parent i = Some p) \<or> (\<exists>c \<in> M. li_corrects i = Some c)"
      using cl(5)[of i] A[OF i] unfolding M_def by blast
    then show ?thesis
    proof cases
      case 1
      then show ?thesis using assms(3) unfolding M_def by (cases "anchorOf i") simp_all
    qed blast
  qed
  have up: "(\<forall>p. li_parent i = Some p \<longrightarrow> p \<in> M) \<and> (\<forall>c. li_corrects i = Some c \<longrightarrow> c \<in> M)" if "i \<in> set (db_lines d)" "li_id i \<in> M" for i
  proof (rule upward_closed[where M = M and f = s and d = d, OF assms(1)])
    show "x \<in> set (db_lines d) \<Longrightarrow> li_id x \<in> M \<Longrightarrow> li_folio x = s" for x using A by blast
    show "x \<in> set (db_lines d) \<Longrightarrow> li_folio x = s \<Longrightarrow> li_parent x = Some p \<Longrightarrow> p \<in> M \<Longrightarrow> li_id x \<in> M" for x p using B by blast
    show "x \<in> set (db_lines d) \<Longrightarrow> li_folio x = s \<Longrightarrow> li_corrects x = Some c \<Longrightarrow> c \<in> M \<Longrightarrow> li_id x \<in> M" for x c using B by blast
  qed (rule root, assumption+, rule that, rule that)
  show "p \<in> M" if "i \<in> set (db_lines d)" "li_id i \<in> M" "li_parent i = Some p \<or> li_corrects i = Some p" for i p
    using up[OF that(1,2)] that(3) by blast
qed

lemma book_ok_cong: "db_lines d' = db_lines d \<Longrightarrow> db_next d \<le> db_next d' \<Longrightarrow> book_ok d \<Longrightarrow> book_ok d'"
proof -
  assume l: "db_lines d' = db_lines d" and n: "db_next d \<le> db_next d'" and ok: "book_ok d"
  have "hasLine d' = hasLine d" by (intro ext) (simp add: hasLine_def l)
  then have "family_ok d'" using ok by (simp add: book_ok_def family_ok_def l)
  moreover have "ledger_ok d'" using ok line_ok_next[OF _ n] by (auto simp: book_ok_def ledger_ok_def list_all_iff l)
  ultimately show ?thesis by (simp add: book_ok_def)
qed

lemma balance_cong: "db_lines d' = db_lines d \<Longrightarrow> db_payments d' = db_payments d \<Longrightarrow> balance d' f = balance d f"
  by (simp add: balance_def charges_def paid_def linesOf_def paymentsOf_def)

lemma reverseTransfer_Inr:
  assumes "reverseTransfer tid actorId now d = Inr (tr', d')"
  obtains tr src tgt moved where "tr \<in> set (db_transfers d)" and "ft_id tr = tid" and "ft_reversedAt tr = None"
    and "now - ft_createdAt tr \<le> TRANSFER_REVERSAL_WINDOW_MS"
    and "findFolioOrThrow d (ft_source tr) = Inr src" and "findFolioOrThrow d (ft_target tr) = Inr tgt"
    and "fo_status src \<noteq> Settled" and "fo_status tgt \<noteq> Settled"
    and "moved = filter (\<lambda>i. li_id i \<in> set (ft_lines tr)) (db_lines d)"
    and "\<And>i. i \<in> set moved \<Longrightarrow> li_folio i = ft_target tr"
    and "\<exists>b. d' = audit b (Some actorId) ''folio.transfer_reversed'' (ft_source tr)
        ((move_lines (li_id ` set (withDependents d (ft_target tr) moved)) (ft_source tr) d)
          \<lparr>db_transfers := map (\<lambda>t. if ft_id t = tid then t\<lparr>ft_reversedAt := Some now, ft_reversedBy := Some actorId\<rparr> else t) (db_transfers d)\<rparr>)"
proof -
  from assms obtain tr where tr: "List.find (\<lambda>t. ft_id t = tid) (db_transfers d) = Some tr"
    by (auto simp: reverseTransfer_def split: option.splits)
  let ?moved = "filter (\<lambda>i. li_id i \<in> set (ft_lines tr)) (db_lines d)"
  from assms tr obtain src where src: "findFolioOrThrow d (ft_source tr) = Inr src"
    unfolding reverseTransfer_def Let_def by (cases "findFolioOrThrow d (ft_source tr)") (simp_all split: if_splits)
  from assms tr src obtain tgt where tgt: "findFolioOrThrow d (ft_target tr) = Inr tgt"
    unfolding reverseTransfer_def Let_def by (cases "findFolioOrThrow d (ft_target tr)") (simp_all split: if_splits)
  from assms tr src tgt have opn: "fo_status src \<noteq> Settled" "fo_status tgt \<noteq> Settled"
    unfolding reverseTransfer_def Let_def by (auto simp: assertFolioOpen_def split: if_splits)
  then have 1: "findFolioOrThrow d (ft_source tr) = Inr src" "findFolioOrThrow d (ft_target tr) = Inr tgt"
    "assertFolioOpen src = Inr ()" "assertFolioOpen tgt = Inr ()"
    using src tgt by (simp_all add: assertFolioOpen_def)
  with assms tr have 2: "ft_reversedAt tr = None" "\<not> TRANSFER_REVERSAL_WINDOW_MS < now - ft_createdAt tr"
    "\<not> (\<exists>i \<in> set ?moved. li_folio i \<noteq> ft_target tr)"
    "d' = audit (fo_branch src) (Some actorId) ''folio.transfer_reversed'' (ft_source tr)
        ((move_lines (set (map li_id (withDependents d (ft_target tr) ?moved))) (ft_source tr) d)
          \<lparr>db_transfers := map (\<lambda>t. if ft_id t = tid then t\<lparr>ft_reversedAt := Some now, ft_reversedBy := Some actorId\<rparr> else t) (db_transfers d)\<rparr>)"
    unfolding reverseTransfer_def Let_def by (simp_all split: if_splits)
  have mem: "tr \<in> set (db_transfers d)" "ft_id tr = tid" using find_Some_mem[OF tr] by simp_all
  have win: "now - ft_createdAt tr \<le> TRANSFER_REVERSAL_WINDOW_MS" using 2(2) by simp
  have onT: "li_folio i = ft_target tr" if "i \<in> set ?moved" for i using 2(3) that by blast
  have fin: "\<exists>b. d' = audit b (Some actorId) ''folio.transfer_reversed'' (ft_source tr)
        ((move_lines (li_id ` set (withDependents d (ft_target tr) ?moved)) (ft_source tr) d)
          \<lparr>db_transfers := map (\<lambda>t. if ft_id t = tid then t\<lparr>ft_reversedAt := Some now, ft_reversedBy := Some actorId\<rparr> else t) (db_transfers d)\<rparr>)"
    using 2(4) unfolding set_map by blast
  show thesis by (rule that[of tr src tgt ?moved]) (fact mem 2(1) win src tgt opn refl onT fin)+
qed

section \<open>What a move takes\<close>

lemma newItems_distinct: "distinct (map li_id (newItems seen is)) \<and> set (map li_id (newItems seen is)) \<inter> set seen = {}"
  by (induction seen "is" rule: newItems.induct) auto

lemma dependentsLoop_distinct:
  "distinct (map li_id result) \<Longrightarrow> set (map li_id result) \<subseteq> set seen \<Longrightarrow> distinct (map li_id (dependentsLoop lines result seen frontier))"
proof (induction lines result seen frontier rule: dependentsLoop.induct)
  case (1 lines result seen frontier)
  let ?new = "newItems seen (filter (hangsOff frontier) lines)"
  show ?case
  proof (cases "frontier = []")
    case False
    have "distinct (map li_id (result @ ?new))" using newItems_distinct[of seen "filter (hangsOff frontier) lines"] 1(2,3) by auto
    moreover have "set (map li_id (result @ ?new)) \<subseteq> set (map li_id ?new @ seen)" using 1(3) by auto
    ultimately show ?thesis using 1(1)[OF False refl] False by (simp add: dependentsLoop.simps[of lines result seen frontier] Let_def)
  qed (use 1 in \<open>simp add: dependentsLoop.simps[of lines result]\<close>)
qed

lemma withDependents_distinct: "distinct (map li_id items) \<Longrightarrow> distinct (map li_id (withDependents d f items))"
  unfolding withDependents_def Let_def by (rule dependentsLoop_distinct) simp_all

text \<open>The sum of the lines taken is the sum of the ledger's lines with their ids.\<close>

lemma movedSum_list:
  assumes "ledger_ok d" and "distinct (map li_id xs)" and "set xs \<subseteq> set (db_lines d)"
  shows "movedSum (li_id ` set xs) d = sum_list (map li_amount xs)"
proof -
  let ?F = "filter (\<lambda>i. li_id i \<in> li_id ` set xs \<and> live_line i) (db_lines d)"
  have "set ?F = set xs"
  proof -
    have "i \<in> set xs" if "i \<in> set (db_lines d)" "li_id i \<in> li_id ` set xs" for i
      using that line_unique[OF assms(1)] assms(3) by (metis imageE subsetD)
    moreover have "live_line i" if "i \<in> set xs" for i using line_okD[OF assms(1)] assms(3) that by (auto simp: line_ok_def)
    ultimately show ?thesis using assms(3) by auto
  qed
  moreover have "distinct ?F" "distinct xs" using assms(1,2) by (auto simp: ledger_ok_def distinct_map)
  ultimately show ?thesis unfolding movedSum_def by (metis sum_list_distinct_conv_sum_set)
qed

lemma moveCharges_lines:
  assumes "book_ok d" and "moveCharges s dto actorId kind now d = Inr (tr, d')"
  defines "M \<equiv> set (ft_lines tr)"
  shows "db_lines d' = db_lines (move_lines M (mi_target dto) d)" and "db_payments d' = db_payments d"
    and "db_folios d' = db_folios d" and "db_transfers d' = db_transfers d @ [tr]" and "db_next d' = Suc (db_next d)"
    and "ft_amount tr = movedSum M d" and "ft_id tr = db_next d" and "ft_source tr = s" and "ft_target tr = mi_target dto"
    and "ft_createdAt tr = now" and "ft_reversedAt tr = None"
    and "\<And>i. i \<in> set (db_lines d) \<Longrightarrow> li_id i \<in> M \<Longrightarrow> li_folio i = s"
    and "\<And>i p. i \<in> set (db_lines d) \<Longrightarrow> li_folio i = s \<Longrightarrow> li_parent i = Some p \<or> li_corrects i = Some p \<Longrightarrow> p \<in> M \<Longrightarrow> li_id i \<in> M"
    and "\<And>i p. i \<in> set (db_lines d) \<Longrightarrow> li_id i \<in> M \<Longrightarrow> li_parent i = Some p \<or> li_corrects i = Some p \<Longrightarrow> p \<in> M"
    and "s \<noteq> mi_target dto" and "M \<subseteq> li_id ` set (db_lines d)"
proof -
  obtain src tgt selected b act where sel: "set selected \<subseteq> set (linesOf d s)" "ledger_ok d \<Longrightarrow> distinct (map li_id selected)"
      "\<forall>i \<in> set selected. \<forall>a. anchorOf i = Some a \<longrightarrow> a \<in> li_id ` set (withDependents d s selected)"
    and tr: "tr = \<lparr>ft_id = db_next d, ft_source = s, ft_target = mi_target dto, ft_lines = map li_id (withDependents d s selected),
            ft_amount = num2 (sum_list (map li_amount (withDependents d s selected))), ft_approvedBy = Some actorId, ft_createdAt = now,
            ft_reversedAt = None, ft_reversedBy = None\<rparr>"
    and d': "d' = audit b (Some actorId) act s ((move_lines (li_id ` set (withDependents d s selected)) (mi_target dto) d)
            \<lparr>db_transfers := db_transfers d @ [tr], db_next := Suc (db_next d)\<rparr>)" and ne: "s \<noteq> mi_target dto"
    by (rule moveCharges_Inr[OF assms(2)]) blast
  note led = book_okD(1)[OF assms(1)]
  have M: "M = li_id ` set (withDependents d s selected)" by (simp add: M_def tr)
  have sub: "set (withDependents d s selected) \<subseteq> set (db_lines d)"
    using withDependents_closure(2)[of d s selected] sel(1) by (auto simp: linesOf_def)
  have money: "is_money (li_amount i)" if "i \<in> set (withDependents d s selected)" for i
    using line_okD[OF led] sub that by (auto simp: line_ok_def)
  show "db_lines d' = db_lines (move_lines M (mi_target dto) d)" "db_payments d' = db_payments d" "db_folios d' = db_folios d"
    "db_transfers d' = db_transfers d @ [tr]" "db_next d' = Suc (db_next d)" unfolding d' M by simp_all
  show "ft_amount tr = movedSum M d"
    using movedSum_list[OF led withDependents_distinct[OF sel(2)[OF led]] sub] is_money_sum_list[of "withDependents d s selected" li_amount] money
    by (simp add: M tr)
  show "ft_id tr = db_next d" "ft_source tr = s" "ft_target tr = mi_target dto" "ft_createdAt tr = now" "ft_reversedAt tr = None" by (simp_all add: tr)
  note ms = moved_set[OF assms(1) sel(1) sel(3)]
  show "i \<in> set (db_lines d) \<Longrightarrow> li_id i \<in> M \<Longrightarrow> li_folio i = s" for i using ms(1) unfolding M by blast
  show "i \<in> set (db_lines d) \<Longrightarrow> li_folio i = s \<Longrightarrow> li_parent i = Some p \<or> li_corrects i = Some p \<Longrightarrow> p \<in> M \<Longrightarrow> li_id i \<in> M" for i p
    using ms(2) unfolding M by blast
  show "i \<in> set (db_lines d) \<Longrightarrow> li_id i \<in> M \<Longrightarrow> li_parent i = Some p \<or> li_corrects i = Some p \<Longrightarrow> p \<in> M" for i p
    using ms(3) unfolding M by blast
  show "s \<noteq> mi_target dto" "M \<subseteq> li_id ` set (db_lines d)" using ne sub by (auto simp: M)
qed

end
