(* ===== verification/Folio_Accounts.thy ===== *)
theory Folio_Accounts
  imports Folio_Moves
begin

text \<open>
  What the desk can count on, one request at a time: a charge costs what its quote said, a
  correction takes back exactly what stands of a charge and can always be made once, a move
  changes where a charge is and nothing else, a payment voided is as if never taken, and
  posting the elapsed nights twice posts them once.
\<close>

section \<open>Finding what was just written\<close>

lemma Inr_pair: "\<not> isl m \<Longrightarrow> \<exists>x y. m = Inr (x, y)"
  by (cases m) auto

lemma find_unique:
  "distinct (map key xs) \<Longrightarrow> x \<in> set xs \<Longrightarrow> P x \<Longrightarrow> List.find (\<lambda>y. key y = key x \<and> P y) xs = Some x"
  by (induction xs) auto

lemma find_line:
  assumes "ledger_ok d" and "i \<in> set (db_lines d)"
  shows "List.find (\<lambda>x. li_id x = li_id i \<and> \<not> li_deleted x) (db_lines d) = Some i"
  using assms line_okD[OF assms] by (intro find_unique) (simp_all add: ledger_ok_def line_ok_def live_line_def)

section \<open>A correction can always be made once\<close>

lemma add_lines_ok:
  assumes "\<And>t. t \<in> set ts \<Longrightarrow> num2 (li_amount (g t)) \<noteq> 0" and "distinct (map (\<lambda>t. li_corrects (g t)) ts)"
    and "\<And>t x. t \<in> set ts \<Longrightarrow> x \<in> set (db_lines d) \<Longrightarrow> li_corrects x \<noteq> li_corrects (g t)"
  shows "\<exists>d'. foldr_res (\<lambda>t. add_line (g t)) ts d = Inr d'"
  using assms
proof (induction ts arbitrary: d)
  case (Cons t ts)
  let ?d = "append_lines [g t] d"
  have "insert_line (g t) d = Inr (stamp (db_next d) (g t), ?d)"
    using Cons.prems(1,3)[of t] by (intro insert_line_ok) auto
  then have "add_line (g t) d = Inr ?d" by (simp add: add_line_def)
  moreover have "\<exists>d'. foldr_res (\<lambda>t. add_line (g t)) ts ?d = Inr d'"
    using Cons.prems by (intro Cons.IH) (auto simp: image_iff)
  ultimately show ?case by simp
qed simp

lemma reverse_succeeds:
  assumes "ledger_ok d" and "original \<in> set (db_lines d)" and "\<not> corrected d (li_id original)"
  shows "\<exists>c d'. reverseLineItem original folio actorId d = Inr (c, d')"
proof -
  let ?taxes = "taxesToReverse d original"
  let ?row = "correction_line original (sum_list (map li_amount ?taxes)) actorId"
  let ?d = "append_lines [?row] d"
  have amt: "num2 (- li_amount x) \<noteq> 0" if "x \<in> set (db_lines d)" for x
    using line_okD[OF assms(1) that] is_money_minus[of "li_amount x"] by (simp add: line_ok_def)
  have i: "insert_line ?row d = Inr (stamp (db_next d) ?row, ?d)"
    using amt[OF assms(2)] assms(3) by (intro insert_line_ok) (auto simp: correction_line_def corrected_def)
  let ?g = "tax_reversal (db_next d) actorId"
  have "\<exists>d'. foldr_res (\<lambda>t. add_line (?g t)) ?taxes ?d = Inr d'"
  proof (rule add_lines_ok)
    fix t assume t: "t \<in> set ?taxes"
    note s = taxesToReverse_sub[OF t]
    show "num2 (li_amount (?g t)) \<noteq> 0" using amt[of t] s by (simp add: tax_reversal_def)
    have "li_id original < li_id t" using line_okD[OF assms(1), of t] s by (simp add: line_ok_def)
    then show "x \<in> set (db_lines ?d) \<Longrightarrow> li_corrects x \<noteq> li_corrects (?g t)" for x
      using s by (auto simp: tax_reversal_def correction_line_def corrected_def)
  next
    have "distinct (map li_id ?taxes)"
      using assms(1) by (auto simp: taxesToReverse_def ledger_ok_def distinct_map_filter)
    then have "distinct (map Some (map li_id ?taxes))" by (simp only: distinct_map[of Some] inj_Some inj_on_subset[OF _ subset_UNIV])
    then show "distinct (map (\<lambda>t. li_corrects (?g t)) ?taxes)" by (simp add: tax_reversal_def comp_def)
  qed
  with i assms(3) show ?thesis by (auto simp: reverseLineItem_def Let_def catch_unique_def)
qed

lemma correct_succeeds:
  assumes "ledger_ok d" and "original \<in> set (db_lines d)" and "\<not> corrected d (li_id original)"
    and "findFolioOrThrow d (li_folio original) = Inr folio" and "fo_status folio \<noteq> Settled"
  shows "\<exists>c d'. correctLineItem (li_id original) actorId now d = Inr (c, d')"
  using reverse_succeeds[OF assms(1-3), of folio "Some actorId"] find_line[OF assms(1,2)] assms(4,5)
  by (auto simp: correctLineItem_def assertFolioOpen_def)

lemma balance_void_pos [simp]: "balance (void_pos_orders l a t d) f = balance d f"
  by (simp add: void_pos_orders_def balance_def charges_def paid_def linesOf_def paymentsOf_def)

lemma void_pos_sel [simp]:
  "db_lines (void_pos_orders l a t d) = db_lines d" "db_next (void_pos_orders l a t d) = db_next d"
  "db_folios (void_pos_orders l a t d) = db_folios d" "db_payments (void_pos_orders l a t d) = db_payments d"
  by (simp_all add: void_pos_orders_def)

lemma correctLineItem_Inr:
  assumes "correctLineItem i actorId now d = Inr (c, d')"
  obtains original folio d1 where "original \<in> set (db_lines d)" and "li_id original = i"
    and "findFolioOrThrow d (li_folio original) = Inr folio" and "fo_status folio \<noteq> Settled"
    and "reverseLineItem original folio (Some actorId) d = Inr (c, d1)" and "d' = void_pos_orders i actorId now d1"
proof -
  from assms obtain original where f: "List.find (\<lambda>x. li_id x = i \<and> \<not> li_deleted x) (db_lines d) = Some original"
    by (auto simp: correctLineItem_def split: option.splits)
  note m = find_Some_mem[OF f]
  from assms f m show thesis
    by (auto simp: correctLineItem_def res_simps assertFolioOpen_def split: prod.splits if_splits intro: that)
qed

section \<open>Posting a charge\<close>

lemma postCharge_Inr:
  assumes "postCharge D tzo f amount ct sd actorId now d = Inr (l, d')"
  obtains folio date where "findFolioOrThrow d f = Inr folio" and "fo_status folio \<noteq> Settled"
    and "writeChargeWithTaxes D (plain_charge (fo_branch folio) f amount ct date (Some actorId)) d = Inr (Some l, d')"
  using assms
  by (auto simp: postCharge_def Let_def res_simps assertFolioOpen_def split: prod.splits option.splits if_splits intro: that)

lemma plain_charge_sel [simp]:
  "ci_branch (plain_charge b f a ct t u) = b" "ci_folio (plain_charge b f a ct t u) = f" "ci_amount (plain_charge b f a ct t u) = a"
  "ci_chargeType (plain_charge b f a ct t u) = ct" "ci_dayUse (plain_charge b f a ct t u) = False" "ci_actor (plain_charge b f a ct t u) = u"
  "ci_serviceDate (plain_charge b f a ct t u) = t" "ci_stay (plain_charge b f a ct t u) = None" "ci_package (plain_charge b f a ct t u) = None"
  by (simp_all add: plain_charge_def)

text \<open>The taxes that stand of a charge just posted are the ones posted with it.\<close>

lemma fresh_ids:
  assumes "ledger_ok d" and "i \<in> set (db_lines d)"
  shows "li_parent i \<noteq> Some (db_next d)" and "li_corrects i = Some c \<Longrightarrow> c < db_next d" and "li_id i < db_next d"
  using line_okD[OF assms] by (auto simp: line_ok_def)

lemma stamped_filter_all: "(\<And>i n. i \<in> set rows \<Longrightarrow> P (stamp n i)) \<Longrightarrow> filter P (stamped n rows) = stamped n rows"
  by (induction rows arbitrary: n) auto

lemma not_corrected_new:
  assumes "ledger_ok d" and "\<And>i. i \<in> set rows \<Longrightarrow> li_corrects i = None" and "db_next d \<le> n"
  shows "\<not> corrected (append_lines rows d) n"
proof -
  have "li_corrects x \<noteq> Some n" if "x \<in> set (db_lines d)" for x using fresh_ids(2)[OF assms(1) that] assms(3) by fastforce
  moreover have "li_corrects x = None" if "x \<in> set (stamped (db_next d) rows)" for x
    using mem_stamped[OF that] assms(2) by auto
  ultimately show ?thesis by (auto simp: corrected_def)
qed

lemma charge_rows_corrects: "i \<in> set (charge_rows inp pc n) \<Longrightarrow> li_corrects i = None"
  by (auto simp: charge_rows_def charge_line_def tax_line_def blank_line_def)

lemma taxes_of_new:
  assumes "ledger_ok d" and "ci_chargeType inp = Tax \<Longrightarrow> pc_taxes priced = []"
  defines "n \<equiv> db_next d"
  shows "taxesToReverse (append_lines (charge_rows inp priced n) d) (stamp n (charge_line inp priced)) =
    stamped (Suc n) (map (tax_line inp n) (pc_taxes priced))"
proof (cases "ci_chargeType inp = Tax")
  case True
  then show ?thesis using assms(2) by (simp add: taxesToReverse_def charge_line_def)
next
  case False
  let ?rows = "charge_rows inp priced n" and ?taxes = "map (tax_line inp n) (pc_taxes priced)"
  let ?d = "append_lines ?rows d"
  have nc: "\<not> corrected ?d k" if "n \<le> k" for k
    using not_corrected_new[OF assms(1) charge_rows_corrects] that by (simp add: n_def)
  have old: "filter (\<lambda>t. \<not> corrected ?d (li_id t)) (filter (\<lambda>t. li_parent t = Some n \<and> li_folio t = ci_folio inp \<and> li_chargeType t = Tax \<and> live_line t) (db_lines d)) = []"
    using fresh_ids(1)[OF assms(1)] by (auto simp: filter_empty_conv n_def)
  have ids: "n \<le> li_id t" if "t \<in> set (stamped (Suc n) ?taxes)" for t using mem_stamped[OF that] by auto
  have "filter (\<lambda>t. li_parent t = Some n \<and> li_folio t = ci_folio inp \<and> li_chargeType t = Tax \<and> live_line t) (stamped (Suc n) ?taxes) =
      stamped (Suc n) ?taxes"
    by (rule stamped_filter_all) (auto simp: tax_line_def blank_line_def live_line_def)
  moreover have "filter (\<lambda>t. \<not> corrected ?d (li_id t)) (stamped (Suc n) ?taxes) = stamped (Suc n) ?taxes"
    using nc ids by (auto simp: filter_id_conv)
  ultimately show ?thesis using False old
    by (simp add: taxesToReverse_def charge_rows_def charge_line_def blank_line_def live_line_def n_def)
qed

lemma sum_stamped_all: "sum_list (map li_amount (stamped n rows)) = sum_list (map (\<lambda>i. num2 (li_amount i)) rows)"
  by (induction rows arbitrary: n) simp_all

lemma taxesToReverse_cong: "db_lines d' = db_lines d \<Longrightarrow> taxesToReverse d' x = taxesToReverse d x"
  by (simp add: taxesToReverse_def corrected_def)

section \<open>Properties of single bills\<close>

definition desk_tz :: tz_offset where
  "desk_tz = (\<lambda>_ _. 0)"

text \<open>A branch with a 7.5 per cent added tax, two open bills of one stay, and an open drawer.\<close>

definition desk_db :: db where
  "desk_db = \<lparr>db_next = 100,
     db_branches = [\<lparr>br_id = 1, br_currency = ''NGN'', br_timezone = ''Africa/Lagos'', br_rates = [], br_varianceThreshold = None, br_checkInTime = 50400000, br_checkOutTime = 39600000,
       br_policies = None, br_noShowPolicy = None, br_cancellationPolicy = None, br_depositPolicy = None, br_stayFeePolicy = None,
       br_dayUsePolicy = None, br_turndownPolicy = None, br_deleted = False\<rparr>],
     db_folios = [\<lparr>fo_id = 10, fo_branch = 1, fo_reservation = Some 50, fo_guest = 60, fo_label = None, fo_payer = None, fo_corporate = None,
         fo_status = Open, fo_openedAt = Some 0, fo_closedAt = None, fo_deleted = False\<rparr>,
       \<lparr>fo_id = 11, fo_branch = 1, fo_reservation = Some 50, fo_guest = 60, fo_label = Some ''Company'', fo_payer = None, fo_corporate = None,
         fo_status = Open, fo_openedAt = Some 0, fo_closedAt = None, fo_deleted = False\<rparr>],
     db_lines = [], db_payments = [], db_transfers = [], db_refunds = [],
     db_shifts = [\<lparr>sh_id = 70, sh_branch = 1, sh_agent = 7, sh_type = Morning, sh_openedAt = 0, sh_closedAt = None, sh_openingFloat = Some 0,
       sh_systemCashTotal = None, sh_closingCashCounted = None, sh_variance = None, sh_foreignCash = None,
       sh_explanation = None, sh_handoverNotes = None\<rparr>],
     db_issues = [],
     db_outlets = [\<lparr>ou_id = 30, ou_branch = 1, ou_name = ''Bar'', ou_category = Bar, ou_chargeType = Fnb, ou_isActive = True,
       ou_sortOrder = None, ou_discountLimit = Some 10\<rparr>],
     db_menuItems = [\<lparr>mn_id = 31, mn_branch = 1, mn_outlet = 30, mn_name = ''Tonic'', mn_category = ''Drinks'', mn_price = 8, mn_isAvailable = True,
       mn_modifiers = [\<lparr>mg_name = ''Size'', mg_selection = SingleChoice, mg_required = True, mg_options = [(''Small'', 0), (''Large'', 2)]\<rparr>],
       mn_sortOrder = None, mn_deleted = False\<rparr>],
     db_userOutlets = [], db_posOrders = [],
     db_reservations = [\<lparr>re_id = 50, re_branch = 1, re_guest = 60, re_roomType = 80, re_room = None, re_status = Checked_in,
       re_checkInDate = 0, re_checkOutDate = 172800000, re_confirmedRate = 200, re_overrideRate = None, re_nightlyRates = None,
       re_isDayUse = False, re_packages = [], re_adults = 1, re_children = 0, re_billToFolio = None, re_confirmation = ''RES-1970-00001'',
       re_channel = Direct, re_ratePlan = None, re_overrideReason = None, re_groupBlock = None, re_corporate = None, re_promoCode = None,
       re_depositAmount = None, re_depositDueDate = None, re_cancellationPolicy = None, re_actualCheckIn = None, re_actualCheckOut = None,
       re_createdBy = None, re_deleted = False\<rparr>],
     db_roomTypes = [\<lparr>rt_id = 80, rt_branch = 1, rt_name = ''Standard'', rt_baseRate = 100, rt_capacityAdults = 2, rt_capacityChildren = 1,
       rt_adultsIncluded = None, rt_extraAdultRate = None, rt_childrenIncluded = 0, rt_childRate = None, rt_dayUseRate = None, rt_deleted = False\<rparr>],
     db_taxRules = [\<lparr>tr_id = 90, tr_branch = 1, tr_name = ''VAT'', tr_rate = 3 / 40, tr_type = Percentage, tr_fixedAmount = None,
       tr_inclusive = False, tr_appliesTo = [Room, Fnb], tr_jurisdiction = None, tr_isActive = True\<rparr>],
     db_corporate = [], db_guests = [], db_loyalty = [], db_program = None, db_audit = [], db_webhooks = []\<rparr>"

lemma desk_db_book_ok: "book_ok desk_db"
  by (simp add: book_ok_def ledger_ok_def family_ok_def desk_db_def)

text \<open>
  C29. A charge posted at the desk costs the guest exactly what the quote said: the bill's
  balance rises by the total the preview of the same charge answers, taxes included, and no
  other bill changes. The bill was open.
\<close>

theorem post_costs_quote:
  assumes "decimal_arith D" and "is_money amount" and "postCharge D tzo f amount ct sd actorId now d = Inr (l, d')"
  shows "\<exists>folio quote. findFolioOrThrow d f = Inr folio \<and> fo_status folio \<noteq> Settled \<and>
    previewCharge D d (fo_branch folio) ct amount = Inr quote \<and>
    (\<forall>g. balance d' g = balance d g + (if g = f then pc_total quote else 0))"
proof (rule postCharge_Inr[OF assms(3)])
  fix folio :: folio and date
  let ?inp = "plain_charge (fo_branch folio) f amount ct date (Some actorId)"
  assume f: "findFolioOrThrow d f = Inr folio" "fo_status folio \<noteq> Settled" and w: "writeChargeWithTaxes D ?inp d = Inr (Some l, d')"
  from w obtain q where q: "priceCharge D (db_taxRules d) (fo_branch folio) ct amount 1 = Inr q"
    by (cases rule: writeCharge_Some) simp
  have "balance d' g = balance d g + (if g = f then pc_total q else 0)" for g
    using writeCharge_balance[OF assms(1) _ w, of g] assms(2) q by simp
  then show ?thesis using f q by (auto simp: previewCharge_def)
qed

theorem post_costs_quote_witness:
  "\<exists>l d'. postCharge decimal_js desk_tz 10 200 Room None 7 5 desk_db = Inr (l, d') \<and> balance d' 10 = balance desk_db 10 + 215"
proof -
  have m: "is_money 200" by (rule is_moneyI[of _ 20000]) simp
  have "\<not> isl (postCharge decimal_js desk_tz 10 200 Room None 7 5 desk_db)" by code_simp
  then obtain l d' where p: "postCharge decimal_js desk_tz 10 200 Room None 7 5 desk_db = Inr (l, d')" using Inr_pair by blast
  from post_costs_quote[OF js.decimal_arith_axioms m p] obtain folio quote where
    f: "findFolioOrThrow desk_db 10 = Inr folio" and q: "previewCharge decimal_js desk_db (fo_branch folio) Room 200 = Inr quote"
    and b: "\<forall>g. balance d' g = balance desk_db g + (if g = 10 then pc_total quote else 0)" by blast
  have "fo_branch folio = 1" using f by (auto simp: findFolioOrThrow_def desk_db_def)
  moreover have "map_sum id pc_total (previewCharge decimal_js desk_db 1 Room 200) = Inr 215" by code_simp
  ultimately have "pc_total quote = 215" using q by simp
  then show ?thesis using p b by auto
qed

text \<open>
  C26. A mistake at the desk can always be undone: a charge just posted can be corrected, and
  the correction restores the balance of every bill, the taxes of the charge included.
\<close>

theorem post_then_correct:
  assumes "decimal_arith D" and "is_money amount" and "book_ok d"
    and "postCharge D tzo f amount ct sd actorId now d = Inr (l, d')"
  shows "\<exists>c d''. correctLineItem (li_id l) actorId' now' d' = Inr (c, d'') \<and> (\<forall>g. balance d'' g = balance d g)"
proof (rule postCharge_Inr[OF assms(4)])
  fix folio :: folio and date
  let ?inp = "plain_charge (fo_branch folio) f amount ct date (Some actorId)"
  assume f: "findFolioOrThrow d f = Inr folio" "fo_status folio \<noteq> Settled" and w: "writeChargeWithTaxes D ?inp d = Inr (Some l, d')"
  let ?n = "db_next d"
  from w obtain q where q: "priceCharge D (db_taxRules d) (fo_branch folio) ct amount 1 = Inr q"
    and l: "l = stamp ?n (charge_line ?inp q)" and d': "db_lines d' = db_lines (append_lines (charge_rows ?inp q ?n) d)" "db_folios d' = db_folios d"
    by (cases rule: writeCharge_Some) simp_all
  note led = book_okD(1)[OF assms(3)] and led' = book_okD(1)[OF writeCharge_book_ok[OF w assms(3)]]
  have tx: "ct = Tax \<Longrightarrow> pc_taxes q = []" using q by (auto simp: priceCharge_def NEVER_TAXED_def)
  have taxes: "taxesToReverse d' l = stamped (Suc ?n) (map (tax_line ?inp ?n) (pc_taxes q))"
    unfolding l taxesToReverse_cong[OF d'(1)] using tx by (intro taxes_of_new[OF led]) simp
  have mem: "l \<in> set (db_lines d')" by (simp add: d' l charge_rows_def)
  have lf: "li_folio l = f" "li_id l = ?n" by (simp_all add: l charge_line_def)
  have nc: "\<not> corrected d' (li_id l)"
    using not_corrected_new[OF led, of "charge_rows ?inp q ?n" ?n] charge_rows_corrects[of _ ?inp q ?n] by (simp add: corrected_def d' lf)
  have fo: "findFolioOrThrow d' (li_folio l) = Inr folio" using f(1) by (simp add: findFolioOrThrow_def d' lf)
  obtain c d'' where c: "correctLineItem (li_id l) actorId' now' d' = Inr (c, d'')"
    using correct_succeeds[OF led' mem nc fo f(2)] by blast
  then obtain o' fo' d1 where o': "o' \<in> set (db_lines d')" "li_id o' = li_id l" "reverseLineItem o' fo' (Some actorId') d' = Inr (c, d1)"
      "d'' = void_pos_orders (li_id l) actorId' now' d1"
    by (rule correctLineItem_Inr) blast
  have "o' = l" by (rule line_unique[OF led' o'(1) mem o'(2)])
  have "li_amount l + sum_list (map li_amount (taxesToReverse d' l)) = pc_total q"
    using charge_rows_sum[OF assms(1) q assms(2), of ?inp ?n] unfolding taxes by (simp add: sum_stamped_all charge_rows_def comp_def l)
  then have "balance d'' g = balance d g" for g
    using reverse_balance[OF o'(3) led' o'(1), of g] writeCharge_balance[OF assms(1) _ w, of g] assms(2) q lf
    by (simp add: o'(4) \<open>o' = l\<close>)
  then show ?thesis using c by blast
qed

theorem post_then_correct_witness:
  "\<exists>l d' c d''. postCharge decimal_js desk_tz 10 200 Room None 7 5 desk_db = Inr (l, d') \<and>
     correctLineItem (li_id l) 8 9 d' = Inr (c, d'') \<and> (\<forall>g. balance d'' g = balance desk_db g)"
proof -
  have m: "is_money 200" by (rule is_moneyI[of _ 20000]) simp
  have "\<not> isl (postCharge decimal_js desk_tz 10 200 Room None 7 5 desk_db)" by code_simp
  then obtain l d' where p: "postCharge decimal_js desk_tz 10 200 Room None 7 5 desk_db = Inr (l, d')" using Inr_pair by blast
  from post_then_correct[OF js.decimal_arith_axioms m desk_db_book_ok p, of 8 9] p show ?thesis by blast
qed

text \<open>
  A correction takes back exactly what stands of a line: the line's amount and those of its
  taxes that were not corrected before, on the line's own bill and no other. The same line
  cannot be corrected again: the second request is refused with a conflict.
\<close>

theorem correct_once:
  assumes "book_ok d" and "correctLineItem i actorId now d = Inr (c, d')"
  shows "\<exists>original \<in> set (db_lines d). li_id original = i \<and>
    (\<forall>g. balance d' g = balance d g -
       (if g = li_folio original then li_amount original + sum_list (map li_amount (taxesToReverse d original)) else 0)) \<and>
    correctLineItem i actorId' now' d' = Inl (Conflict CONFLICT)"
  using assms(2)
proof (rule correctLineItem_Inr)
  fix original folio d1
  assume o: "original \<in> set (db_lines d)" "li_id original = i" and f: "findFolioOrThrow d (li_folio original) = Inr folio" "fo_status folio \<noteq> Settled"
    and r: "reverseLineItem original folio (Some actorId) d = Inr (c, d1)" and d': "d' = void_pos_orders i actorId now d1"
  note led = book_okD(1)[OF assms(1)] and led1 = book_okD(1)[OF reverse_book_ok[OF r assms(1) o(1)]]
  let ?rows = "reversal_rows original d (Some actorId)"
  have lines: "db_lines d1 = db_lines d @ stamped (db_next d) ?rows" "db_folios d1 = db_folios d"
    unfolding reverseLineItem_Inr(3)[OF r] by simp_all
  have "c \<in> set (db_lines d1)" "li_corrects c = Some i"
    using reverseLineItem_Inr(2)[OF r] o(2) by (simp_all add: lines reversal_rows_def correction_line_def)
  then have "corrected d1 i" by (auto simp: corrected_def)
  then have "corrected d' i" by (simp add: corrected_def d')
  moreover have "List.find (\<lambda>x. li_id x = i \<and> \<not> li_deleted x) (db_lines d') = Some original"
    using find_line[OF led o(1)] by (simp add: d' lines find_append o(2))
  moreover have "findFolioOrThrow d' (li_folio original) = Inr folio" using f(1) by (simp add: findFolioOrThrow_def d' lines)
  ultimately have "correctLineItem i actorId' now' d' = Inl (Conflict CONFLICT)"
    using f(2) o(2) by (simp add: correctLineItem_def assertFolioOpen_def reverseLineItem_def)
  then show ?thesis using o reverse_balance[OF r led o(1)] by (intro bexI[OF _ o(1)]) (simp add: d')
qed

theorem correct_once_witness:
  "\<exists>l d' c d''. postCharge decimal_js desk_tz 10 200 Room None 7 5 desk_db = Inr (l, d') \<and> book_ok d' \<and>
     correctLineItem 100 8 9 d' = Inr (c, d'') \<and> correctLineItem 100 7 10 d'' = Inl (Conflict CONFLICT)"
proof -
  have "\<not> isl (bindr (postCharge decimal_js desk_tz 10 200 Room None 7 5 desk_db) (\<lambda>(_, d). correctLineItem 100 8 9 d))" by code_simp
  then obtain l d' c d'' where p: "postCharge decimal_js desk_tz 10 200 Room None 7 5 desk_db = Inr (l, d')" and c: "correctLineItem 100 8 9 d' = Inr (c, d'')"
    using Inr_pair by (auto simp: res_simps dest!: Inr_pair)
  have ok: "book_ok d'" by (rule postCharge_Inr[OF p]) (rule writeCharge_book_ok[OF _ desk_db_book_ok])
  show ?thesis using correct_once[OF ok c, of 7 10] p c ok by blast
qed

text \<open>
  The two ways the service computes a balance agree: the totals of one bill, and the
  grouped sums it uses for a list of bills.
\<close>

theorem balances_agree:
  assumes "f \<in> set ids"
  shows "the_default 0 (map_of (balancesFor d ids) f) = to_balanceDue (computeTotals d f)"
  using balancesFor_balance[OF assms] totals_balance by simp

theorem balances_agree_witness:
  "the_default 0 (map_of (balancesFor desk_db [10, 11]) 11) = to_balanceDue (computeTotals desk_db 11)"
  by (rule balances_agree) simp

section \<open>Moving charges\<close>

lemma move_book_ok:
  assumes "book_ok d" and "moveCharges s dto actorId kind now d = Inr (tr, d')"
  shows "book_ok d'"
proof -
  note m = moveCharges_lines[OF assms]
  have "book_ok (move_lines (set (ft_lines tr)) (mi_target dto) d)"
    by (rule book_ok_move[OF assms(1), where s = s]) (use m(12-14) in blast)+
  then show ?thesis by (rule book_ok_cong[rotated 2]) (simp_all add: m(1,5))
qed

text \<open>
  C27. Moving charges conserves money and keeps families together: the target bill's balance
  rises by the amount the transfer records, the source's falls by the same amount, no other
  bill changes, and afterwards every tax and every correction is still on the bill of the
  line it belongs to.
\<close>

theorem move_conserves:
  assumes "book_ok d" and "moveCharges s dto actorId kind now d = Inr (tr, d')"
  shows "book_ok d' \<and> (\<forall>f. balance d' f =
    balance d f + (if f = mi_target dto then ft_amount tr else 0) - (if f = s then ft_amount tr else 0))"
proof -
  note m = moveCharges_lines[OF assms]
  let ?M = "set (ft_lines tr)"
  have "balance d' f = balance (move_lines ?M (mi_target dto) d) f" for f by (rule balance_cong) (simp_all add: m(1,2))
  then have "balance d' f = balance d f + (if f = mi_target dto then ft_amount tr else 0) - (if f = s then ft_amount tr else 0)" for f
    using balance_move_lines[of d ?M s "mi_target dto" f] m(12,15) by (simp add: m(6))
  then show ?thesis using move_book_ok[OF assms] by blast
qed

definition all_to_11 :: move_input where
  "all_to_11 = \<lparr>mi_target = 11, mi_lines = None, mi_all = True\<rparr>"

lemma desk_moved:
  obtains l d1 tr d2 where "postCharge decimal_js desk_tz 10 200 Room None 7 5 desk_db = Inr (l, d1)" and "book_ok d1"
    and "moveCharges 10 all_to_11 7 Transfer 6 d1 = Inr (tr, d2)" and "db_transfers d1 = []"
proof -
  have "\<not> isl (bindr (postCharge decimal_js desk_tz 10 200 Room None 7 5 desk_db) (\<lambda>(_, d). moveCharges 10 all_to_11 7 Transfer 6 d))" by code_simp
  then obtain l d1 tr d2 where p: "postCharge decimal_js desk_tz 10 200 Room None 7 5 desk_db = Inr (l, d1)" and m: "moveCharges 10 all_to_11 7 Transfer 6 d1 = Inr (tr, d2)"
    by (auto simp: res_simps dest!: Inr_pair)
  obtain folio :: folio and date where w: "writeChargeWithTaxes decimal_js (plain_charge (fo_branch folio) 10 200 Room date (Some 7)) desk_db = Inr (Some l, d1)"
    by (rule postCharge_Inr[OF p]) blast
  then have "db_transfers d1 = db_transfers desk_db" by (cases rule: writeCharge_Some) simp
  then show thesis using that[OF p writeCharge_book_ok[OF w desk_db_book_ok] m] by (simp add: desk_db_def)
qed

theorem move_conserves_witness:
  "\<exists>d1 tr d2. moveCharges 10 all_to_11 7 Transfer 6 d1 = Inr (tr, d2) \<and> balance d2 10 + balance d2 11 = balance d1 10 + balance d1 11"
proof (rule desk_moved)
  fix l d1 tr d2
  assume ok: "book_ok d1" and m: "moveCharges 10 all_to_11 7 Transfer 6 d1 = Inr (tr, d2)"
  from move_conserves[OF ok m] m show ?thesis by (intro exI[of _ d1] exI[of _ tr] exI[of _ d2]) (simp add: all_to_11_def)
qed

text \<open>
  C28. A transfer can be taken back: within the reversal window, with nothing else done in
  between, reversing it succeeds and puts every line back on the bill it was on.
\<close>

theorem move_then_reverse:
  assumes "book_ok d" and "moveCharges s dto actorId kind now d = Inr (tr, d')"
    and "\<forall>t \<in> set (db_transfers d). ft_id t < db_next d" and "now' - now \<le> TRANSFER_REVERSAL_WINDOW_MS"
  shows "\<exists>tr' d''. reverseTransfer (ft_id tr) actorId' now' d' = Inr (tr', d'') \<and> db_lines d'' = db_lines d"
proof -
  note m = moveCharges_lines[OF assms(1,2)]
  let ?M = "set (ft_lines tr)" and ?t = "mi_target dto"
  note led = book_okD(1)[OF assms(1)] and led' = book_okD(1)[OF move_book_ok[OF assms(1,2)]]
  let ?g = "\<lambda>i. if li_id i \<in> ?M then i\<lparr>li_folio := ?t\<rparr> else i"
  have lines: "db_lines d' = map ?g (db_lines d)" by (simp add: m(1))
  obtain src tgt where fo: "findFolioOrThrow d s = Inr src" "findFolioOrThrow d ?t = Inr tgt" "fo_status src \<noteq> Settled" "fo_status tgt \<noteq> Settled"
    by (rule moveCharges_Inr[OF assms(2)]) blast
  have fo': "findFolioOrThrow d' (ft_source tr) = Inr src" "findFolioOrThrow d' (ft_target tr) = Inr tgt"
    using fo by (simp_all add: findFolioOrThrow_def m(3,8,9))
  have none: "List.find (\<lambda>t. ft_id t = ft_id tr) (db_transfers d) = None"
    unfolding find_None_ex m(7) using assms(3) by (metis less_irrefl)
  have find: "List.find (\<lambda>t. ft_id t = ft_id tr) (db_transfers d') = Some tr"
    unfolding m(4) find_append none by simp
  let ?moved = "filter (\<lambda>i. li_id i \<in> ?M) (db_lines d')"
  have onT: "li_folio i = ?t" if "i \<in> set ?moved" for i using that unfolding lines by auto
  let ?ret = "withDependents d' ?t ?moved"
  have "li_id ` set ?ret = ?M"
  proof -
    note cl = withDependents_closure[where d = d' and f = ?t and items = ?moved]
    have "x \<in> li_id ` set ?moved" if x: "x \<in> ?M" for x
    proof -
      from m(16) x obtain i where i: "i \<in> set (db_lines d)" "li_id i = x" by auto
      have "?g i \<in> set ?moved" using i x unfolding lines by simp
      moreover have "x = li_id (?g i)" using i(2) by simp
      ultimately show ?thesis by (rule rev_image_eqI)
    qed
    then have movedM: "li_id ` set ?moved = ?M" by auto
    have ret: "i \<in> set (db_lines d') \<and> li_folio i = ?t" if "i \<in> set ?ret" for i
      using cl(2) that onT by (auto simp: linesOf_def)
    have "i \<in> set ?ret \<longrightarrow> li_id i \<in> ?M" for i
    proof (induction "li_id i" arbitrary: i rule: less_induct)
      case less
      show ?case
      proof (intro impI, rule ccontr)
        assume i: "i \<in> set ?ret" and n: "li_id i \<notin> ?M"
        then obtain p where p: "li_parent i = Some p \<or> li_corrects i = Some p" and "p \<in> li_id ` set ?ret" using cl(5)[OF i] by auto
        then obtain j where j: "j \<in> set ?ret" "li_id j = p" by auto
        have "p < li_id i" using p line_okD[OF led', of i] ret[OF i] by (auto simp: line_ok_def)
        then have pM: "p \<in> ?M" using less[of j] j by simp
        from ret[OF i] n have "i \<in> set (db_lines d)" "li_folio i = ?t" unfolding lines by (auto split: if_splits)
        then have "hasLine d p ?t" using family_okD(2,3)[OF book_okD(2)[OF assms(1)]] p by metis
        then show False using m(12) m(15) pM unfolding hasLine_def by metis
      qed
    qed
    then show ?thesis using cl(1) movedM by blast
  qed
  then have ids: "set (map li_id ?ret) = ?M" by simp
  have "map (\<lambda>i. if li_id i \<in> ?M then i\<lparr>li_folio := s\<rparr> else i) (db_lines d') = db_lines d"
    unfolding lines map_map by (rule map_idI) (use m(12) in \<open>auto simp: comp_def\<close>)
  then show ?thesis
    unfolding reverseTransfer_def find option.case m(11) using assms(4) fo fo' ids onT
    by (auto simp: m(8,9,10) assertFolioOpen_def Let_def)
qed

theorem move_then_reverse_witness:
  "\<exists>d1 tr d2 tr' d3. moveCharges 10 all_to_11 7 Transfer 6 d1 = Inr (tr, d2) \<and>
     reverseTransfer (ft_id tr) 7 3600000 d2 = Inr (tr', d3) \<and> db_lines d3 = db_lines d1"
proof (rule desk_moved)
  fix l d1 tr d2
  assume ok: "book_ok d1" and m: "moveCharges 10 all_to_11 7 Transfer 6 d1 = Inr (tr, d2)" and t: "db_transfers d1 = []"
  have "\<forall>t \<in> set (db_transfers d1). ft_id t < db_next d1" "3600000 - 6 \<le> TRANSFER_REVERSAL_WINDOW_MS"
    by (simp_all add: t TRANSFER_REVERSAL_WINDOW_MS_def)
  from move_then_reverse[OF ok m this, of 7] m show ?thesis by blast
qed

end
