(* ===== verification/Folio_Nights.thy ===== *)
theory Folio_Nights
  imports Folio_Accounts
begin

text \<open>
  Room nights and packages: however often the nights of a stay are posted, by check-in, the
  night audit or the safety net at check-out, each night and each package is on the books
  once, also after its charge moved to another bill.
\<close>

section \<open>Growing ledgers\<close>

text \<open>Lines are only added; the room types' rates stay.\<close>

definition grows :: "db \<Rightarrow> db \<Rightarrow> bool" where
  "grows d d' \<longleftrightarrow> set (db_lines d) \<subseteq> set (db_lines d') \<and> db_roomTypes d' = db_roomTypes d"

lemma grows_refl [simp]: "grows d d"
  by (simp add: grows_def)

lemma grows_trans: "grows a b \<Longrightarrow> grows b c \<Longrightarrow> grows a c"
  by (auto simp: grows_def)

lemma writeCharge_grows:
  assumes "writeChargeWithTaxes D inp d = Inr (l, d')"
  shows "grows d d'"
proof (cases l)
  case None
  then show ?thesis using assms writeCharge_None by simp
next
  case (Some p)
  with assms have "writeChargeWithTaxes D inp d = Inr (Some p, d')" by simp
  then show ?thesis by (cases rule: writeCharge_Some) (simp add: grows_def)
qed

text \<open>The line a charge leaves in the ledger.\<close>

lemma writeCharge_line:
  assumes "writeChargeWithTaxes D inp d = Inr (Some p, d')"
  shows "\<exists>i \<in> set (db_lines d'). li_chargeType i = ci_chargeType inp \<and> li_serviceDate i = ci_serviceDate inp \<and> li_stay i = ci_stay inp \<and>
    li_package i = ci_package inp \<and> li_dayUse i = ci_dayUse inp \<and> li_corrects i = None \<and> live_line i"
  using assms
proof (cases rule: writeCharge_Some)
  case (1 priced)
  then show ?thesis
    by (intro bexI[of _ p]) (simp_all add: charge_rows_def charge_line_def blank_line_def live_line_def)
qed

section \<open>Done for the night\<close>

definition night_done :: "decimal_lib \<Rightarrow> reservation \<Rightarrow> nat \<Rightarrow> instant \<Rightarrow> db \<Rightarrow> bool" where
  "night_done D r f date d \<longleftrightarrow> nightBilled d r f date \<or> (\<exists>a \<le> 0. perNight D d r date = Inr a)"

definition package_done :: "decimal_lib \<Rightarrow> reservation \<Rightarrow> instant \<Rightarrow> db \<Rightarrow> package_snapshot \<Rightarrow> bool" where
  "package_done D r date d pkg \<longleftrightarrow> \<not> packageDue r pkg date \<or> packageCharged d r pkg date \<or>
     chargePerPosting D pkg (re_adults r + re_children r) = Inr 0"

definition date_done :: "decimal_lib \<Rightarrow> reservation \<Rightarrow> nat \<Rightarrow> instant \<Rightarrow> db \<Rightarrow> bool" where
  "date_done D r f date d \<longleftrightarrow> night_done D r f date d \<and> list_all (package_done D r date d) (re_packages r)"

lemma perNight_grows: "grows d d' \<Longrightarrow> perNight D d' r date = perNight D d r date"
  by (simp add: perNight_def grows_def)

lemma night_done_grows: "night_done D r f date d \<Longrightarrow> grows d d' \<Longrightarrow> night_done D r f date d'"
  using perNight_grows[of d d' D r date] by (auto simp: night_done_def nightBilled_def grows_def)

lemma package_done_grows: "package_done D r date d pkg \<Longrightarrow> grows d d' \<Longrightarrow> package_done D r date d' pkg"
  by (auto simp: package_done_def packageCharged_def grows_def)

lemma date_done_grows: "date_done D r f date d \<Longrightarrow> grows d d' \<Longrightarrow> date_done D r f date d'"
  using night_done_grows package_done_grows by (auto simp: date_done_def list_all_iff)

section \<open>Posting makes it so\<close>

lemma postRoomNight_done:
  assumes "postRoomNight D r folio date a d = Inr (l, d')"
  shows "night_done D r (fo_id folio) date d' \<and> grows d d'"
proof (cases "nightBilled d r (fo_id folio) date")
  case True
  then show ?thesis using assms by (simp add: postRoomNight_def night_done_def)
next
  case False
  with assms obtain amount where am: "perNight D d r date = Inr amount" by (auto simp: postRoomNight_def Let_def res_simps)
  show ?thesis
  proof (cases "amount \<le> 0")
    case True
    then show ?thesis using assms am False by (auto simp: postRoomNight_def Let_def night_done_def)
  next
    case pos: False
    let ?inp = "(plain_charge (re_branch r) (fo_id (routedFolio d r folio)) amount Room date a)\<lparr>ci_stay := Some (re_id r), ci_roomType := Some (re_roomType r)\<rparr>"
    have w: "writeChargeWithTaxes D ?inp d = Inr (l, d')" using assms am False pos by (simp add: postRoomNight_def Let_def)
    then obtain p where "l = Some p" using pos writeCharge_None[of D ?inp d d'] by (cases l) auto
    then show ?thesis using writeCharge_line[of D ?inp d p d'] w writeCharge_grows[OF w]
      by (auto simp: night_done_def nightBilled_def)
  qed
qed

lemma postPackage_done:
  assumes "postPackage D r folio date a pkg d = Inr d'"
  shows "package_done D r date d' pkg \<and> grows d d'"
proof (cases "packageDue r pkg date \<and> \<not> packageCharged d r pkg date")
  case False
  then show ?thesis using assms by (auto simp: postPackage_def package_done_def split: if_splits)
next
  case True
  let ?inp = "\<lambda>amount. (plain_charge (re_branch r) (fo_id (routedFolio d r folio)) amount (pk_chargeType pkg) date a)
      \<lparr>ci_stay := Some (re_id r), ci_package := Some (pk_packageId pkg)\<rparr>"
  from True assms obtain amount l where am: "chargePerPosting D pkg (re_adults r + re_children r) = Inr amount"
    and w: "writeChargeWithTaxes D (?inp amount) d = Inr (l, d')"
    by (auto simp: postPackage_def res_simps split: prod.splits)
  show ?thesis
  proof (cases l)
    case None
    then have "amount = 0" "d' = d" using w writeCharge_None[of D "?inp amount" d d'] by simp_all
    then show ?thesis using am by (simp add: package_done_def)
  next
    case (Some p)
    then show ?thesis using writeCharge_line[of D "?inp amount" d p d'] w writeCharge_grows[OF w]
      by (auto simp: package_done_def packageCharged_def)
  qed
qed

lemma postPackages_done:
  "foldr_res (postPackage D r folio date a) pkgs d = Inr d' \<Longrightarrow> list_all (package_done D r date d') pkgs \<and> grows d d'"
proof (induction pkgs arbitrary: d)
  case (Cons p pkgs)
  then obtain e where e: "postPackage D r folio date a p d = Inr e" "foldr_res (postPackage D r folio date a) pkgs e = Inr d'"
    by (auto simp: res_simps)
  from Cons.IH[OF e(2)] postPackage_done[OF e(1)] show ?case using package_done_grows[of D r date e p d'] grows_trans[of d e d'] by simp
qed simp

lemma postDate_done:
  assumes "postRoomChargeForDate D r folio date a d = Inr (l, d')" and "\<not> re_isDayUse r"
  shows "date_done D r (fo_id folio) date d' \<and> grows d d'"
proof -
  from assms obtain e where e: "postRoomNight D r folio date a d = Inr (l, e)"
    and p: "foldr_res (postPackage D r folio date a) (re_packages r) e = Inr d'"
    by (auto simp: postRoomChargeForDate_def postPackageCharges_def res_simps)
  from postRoomNight_done[OF e] postPackages_done[OF p] show ?thesis
    using night_done_grows grows_trans by (auto simp: date_done_def)
qed

lemma done_posts_nothing:
  assumes "date_done D r (fo_id folio) date d" and "\<not> re_isDayUse r"
  shows "postRoomChargeForDate D r folio date a d = Inr (None, d)"
proof -
  have n: "postRoomNight D r folio date a d = Inr (None, d)"
    using assms(1) by (auto simp: date_done_def night_done_def postRoomNight_def Let_def)
  have "postPackage D r folio date a pkg d = Inr d" if "package_done D r date d pkg" for pkg
    using that by (auto simp: package_done_def postPackage_def writeChargeWithTaxes_def)
  then have "list_all (package_done D r date d) pkgs \<Longrightarrow> foldr_res (postPackage D r folio date a) pkgs d = Inr d" for pkgs
    by (induction pkgs) simp_all
  then show ?thesis using n assms by (simp add: postRoomChargeForDate_def postPackageCharges_def date_done_def)
qed

section \<open>The safety net\<close>

abbreviation elapsedNights :: "reservation \<Rightarrow> instant \<Rightarrow> instant list" where
  "elapsedNights r today \<equiv> enumerateNights (re_checkInDate r) (if today < re_checkOutDate r then today else re_checkOutDate r)"

lemma backfill_loop:
  assumes "foldr_res (\<lambda>night (posted, d).
      bindr (postRoomChargeForDate D r folio night a d) (\<lambda>(res, d). Inr (if res \<noteq> None then Suc posted else posted, d))) nights (n, d) = Inr (n', d')"
    and "\<not> re_isDayUse r"
  shows "(\<forall>x \<in> set nights. date_done D r (fo_id folio) x d') \<and> grows d d' \<and> n' \<le> n + length nights"
  using assms(1)
proof (induction nights arbitrary: n d)
  case (Cons x nights)
  let ?f = "\<lambda>night (posted, d). bindr (postRoomChargeForDate D r folio night a d) (\<lambda>(res, d). Inr (if res \<noteq> None then Suc posted else posted, d))"
  from Cons.prems obtain l e where e: "postRoomChargeForDate D r folio x a d = Inr (l, e)"
    and rest: "foldr_res ?f nights (if l \<noteq> None then Suc n else n, e) = Inr (n', d')"
    by (auto simp: res_simps split: if_splits)
  from Cons.IH[OF rest] postDate_done[OF e assms(2)] show ?case
    using date_done_grows grows_trans[of d e d'] by (auto split: if_splits)
qed simp

lemma backfill_done:
  assumes "\<forall>x \<in> set nights. date_done D r (fo_id folio) x d" and "\<not> re_isDayUse r"
  shows "foldr_res (\<lambda>night (posted, d).
      bindr (postRoomChargeForDate D r folio night a d) (\<lambda>(res, d). Inr (if res \<noteq> None then Suc posted else posted, d))) nights (n, d) = Inr (n, d)"
  using assms done_posts_nothing[of D r folio _ d a] by (induction nights) auto


definition desk_stay :: reservation where
  "desk_stay = hd (db_reservations desk_db)"

definition desk_bill :: folio where
  "desk_bill = hd (db_folios desk_db)"

lemma desk_backfilled:
  obtains d1 where "backfillRoomCharges decimal_js desk_stay desk_bill 172800000 (Some 7) desk_db = Inr (2, d1)"
proof -
  have "map_sum id fst (backfillRoomCharges decimal_js desk_stay desk_bill 172800000 (Some 7) desk_db) = Inr 2" by code_simp
  then show thesis using that by (cases "backfillRoomCharges decimal_js desk_stay desk_bill 172800000 (Some 7) desk_db") auto
qed

lemma desk_stay_night: "\<not> re_isDayUse desk_stay"
  by (simp add: desk_stay_def desk_db_def)


section \<open>Nights on another bill\<close>

lemma mem_moved: "i \<in> set (db_lines d) \<Longrightarrow> \<exists>j \<in> set (db_lines (move_lines M t d)). li_chargeType j = li_chargeType i \<and> li_serviceDate j = li_serviceDate i \<and>
    li_stay j = li_stay i \<and> li_package j = li_package i \<and> li_dayUse j = li_dayUse i \<and> li_corrects j = li_corrects i \<and> live_line j = live_line i"
  by (rule bexI[of _ "if li_id i \<in> M then i\<lparr>li_folio := t\<rparr> else i"]) (auto simp: live_line_def)

lemma date_done_move:
  assumes "date_done D r f date d" and "\<forall>i \<in> set (db_lines d). li_chargeType i = Room \<longrightarrow> li_stay i \<noteq> None"
    and "db_lines d' = db_lines (move_lines M t d)" and "db_roomTypes d' = db_roomTypes d"
  shows "date_done D r f date d'"
proof -
  have "perNight D d' r date = perNight D d r date" by (simp add: perNight_def assms(4))
  moreover have "nightBilled d' r f date" if "nightBilled d r f date"
  proof -
    from that assms(2) obtain i where i: "i \<in> set (db_lines d)" "li_chargeType i = Room" "li_serviceDate i = date" "\<not> li_dayUse i" "live_line i" "li_stay i = Some (re_id r)"
      unfolding nightBilled_def by blast
    obtain j where j: "j \<in> set (db_lines d')" "li_chargeType j = li_chargeType i" "li_serviceDate j = li_serviceDate i" "li_stay j = li_stay i"
      "li_dayUse j = li_dayUse i" "live_line j = live_line i" using mem_moved[OF i(1), of M t] unfolding assms(3)[symmetric] by blast
    show ?thesis unfolding nightBilled_def by (rule bexI[OF _ j(1)]) (simp add: j i)
  qed
  ultimately have "night_done D r f date d'" using assms(1) by (auto simp: date_done_def night_done_def)
  moreover have "packageCharged d' r pkg date" if "packageCharged d r pkg date" for pkg
  proof -
    from that obtain i where i: "i \<in> set (db_lines d)" "li_stay i = Some (re_id r)" "li_package i = Some (pk_packageId pkg)"
        "pk_basis pkg = Per_stay \<or> li_serviceDate i = date" "li_corrects i = None" "live_line i"
      unfolding packageCharged_def by blast
    obtain j where j: "j \<in> set (db_lines d')" "li_serviceDate j = li_serviceDate i" "li_stay j = li_stay i" "li_package j = li_package i"
      "li_corrects j = li_corrects i" "live_line j = live_line i" using mem_moved[OF i(1), of M t] unfolding assms(3)[symmetric] by blast
    show ?thesis unfolding packageCharged_def by (rule bexI[OF _ j(1)]) (use i in \<open>simp add: j\<close>)
  qed
  ultimately show ?thesis using assms(1) by (auto simp: date_done_def package_done_def list_all_iff)
qed

lemma moveCharges_roomTypes:
  assumes "moveCharges s dto actorId kind now d = Inr (tr, d')"
  shows "db_roomTypes d' = db_roomTypes d"
  by (rule moveCharges_Inr[OF assms]) (auto simp: move_lines_def)


text \<open>Posting keeps the books in order.\<close>

lemma postRoomNight_book_ok: "postRoomNight D r folio date a d = Inr (l, d') \<Longrightarrow> book_ok d \<Longrightarrow> book_ok d'"
  by (auto simp: postRoomNight_def Let_def res_simps split: if_splits intro: writeCharge_book_ok)

lemma postDayUse_book_ok: "postDayUseCharge D r folio a d = Inr (l, d') \<Longrightarrow> book_ok d \<Longrightarrow> book_ok d'"
  by (auto simp: postDayUseCharge_def Let_def res_simps split: if_splits intro: writeCharge_book_ok)

lemma postPackages_book_ok: "foldr_res (postPackage D r folio date a) pkgs d = Inr d' \<Longrightarrow> book_ok d \<Longrightarrow> book_ok d'"
  by (rule foldr_res_inv[where P = book_ok])
    (auto simp: postPackage_def Let_def res_simps split: if_splits prod.splits intro: writeCharge_book_ok)

lemma postDate_book_ok: "postRoomChargeForDate D r folio date a d = Inr (l, d') \<Longrightarrow> book_ok d \<Longrightarrow> book_ok d'"
  by (auto simp: postRoomChargeForDate_def postPackageCharges_def res_simps split: if_splits
      dest: postRoomNight_book_ok postDayUse_book_ok postPackages_book_ok)

lemma backfill_book_ok:
  assumes "backfillRoomCharges D r folio today a d = Inr (n, d')" and "book_ok d"
  shows "book_ok d'"
proof -
  have "case (n, d') of (n, d) \<Rightarrow> book_ok d"
    by (rule foldr_res_inv[OF assms(1)[unfolded backfillRoomCharges_def]])
      (use assms(2) in \<open>auto simp: res_simps split: prod.splits dest: postDate_book_ok\<close>)
  then show ?thesis by simp
qed


end
