(* ===== verification/Desk_Effects.thy ===== *)
theory Desk_Effects
  imports Pos Shifts Refunds Folio_Nights
begin

text \<open>
  What each request at the desk, the till and the drawer does to the tables: the rows it adds or
  changes, and the tables it leaves alone. The invariants of the whole desk
  (\<open>Desk\<close>) are proved from these, one fact per request, without opening the handlers again.
\<close>

section \<open>Bills\<close>

lemma append_lines_more [simp]:
  "db_issues (append_lines rows d) = db_issues d" "db_outlets (append_lines rows d) = db_outlets d"
  "db_menuItems (append_lines rows d) = db_menuItems d" "db_userOutlets (append_lines rows d) = db_userOutlets d"
  "db_corporate (append_lines rows d) = db_corporate d"
  by (simp_all add: append_lines_def)

lemma findFolio_Inr: "findFolioOrThrow d f = Inr x \<Longrightarrow> x \<in> set (db_folios d) \<and> fo_id x = f"
  by (auto simp: findFolioOrThrow_def split: option.splits dest: find_Some_mem)

lemma findFolio_cong: "db_folios d' = db_folios d \<Longrightarrow> findFolioOrThrow d' f = findFolioOrThrow d f"
  by (simp add: findFolioOrThrow_def)

text \<open>A database that differs from another only in lines that were added, none a correction (and in the logs).\<close>

definition lines_only :: "db \<Rightarrow> db \<Rightarrow> bool" where
  "lines_only d d' \<longleftrightarrow> (\<exists>rows. db_lines d' = db_lines d @ rows \<and> (\<forall>i \<in> set rows. li_corrects i = None)) \<and> db_next d \<le> db_next d' \<and> db_payments d' = db_payments d \<and>
     db_folios d' = db_folios d \<and> db_shifts d' = db_shifts d \<and> db_posOrders d' = db_posOrders d \<and> db_refunds d' = db_refunds d \<and>
     db_outlets d' = db_outlets d \<and> db_issues d' = db_issues d \<and> db_reservations d' = db_reservations d \<and> db_transfers d' = db_transfers d"

lemma lines_only_refl [simp]: "lines_only d d"
  by (simp add: lines_only_def)

lemma lines_only_trans: "lines_only a b \<Longrightarrow> lines_only b c \<Longrightarrow> lines_only a c"
  by (auto simp: lines_only_def)

lemma lines_only_append: "(\<And>i. i \<in> set rows \<Longrightarrow> li_corrects i = None) \<Longrightarrow> lines_only d (audit b u a e (append_lines rows d))"
  by (auto simp: lines_only_def dest: mem_stamped)

lemma writeCharge_lines_only: "writeChargeWithTaxes D inp d = Inr (l, d') \<Longrightarrow> lines_only d d'"
proof (cases l)
  case (Some p)
  assume "writeChargeWithTaxes D inp d = Inr (l, d')"
  with Some have "writeChargeWithTaxes D inp d = Inr (Some p, d')" by simp
  then show ?thesis by (cases rule: writeCharge_Some) (simp add: lines_only_append[OF charge_rows_corrects])
qed (use writeCharge_None in simp)

lemma postCharge_lines_only: "postCharge D tzo f amount ct sd a now d = Inr (l, d') \<Longrightarrow> lines_only d d'"
  by (erule postCharge_Inr) (rule writeCharge_lines_only)

lemma postDate_lines_only: "postRoomChargeForDate D r folio date a d = Inr (l, d') \<Longrightarrow> lines_only d d'"
proof -
  assume "postRoomChargeForDate D r folio date a d = Inr (l, d')"
  then obtain d1 where n: "(if re_isDayUse r \<and> \<not> dayUseCharged d (re_id r) then postDayUseCharge D r folio a d else postRoomNight D r folio date a d) = Inr (l, d1)"
    and p: "postPackageCharges D r folio date a d1 = Inr d'" by (auto simp: postRoomChargeForDate_def res_simps split: prod.splits)
  from n have "lines_only d d1"
    by (auto simp: postDayUseCharge_def postRoomNight_def Let_def res_simps intro: writeCharge_lines_only split: if_splits)
  also have "lines_only d1 d'"
    using p unfolding postPackageCharges_def
    by (rule foldr_res_inv) (auto simp: postPackage_def res_simps intro: lines_only_trans writeCharge_lines_only split: if_splits prod.splits)
  finally (lines_only_trans) show ?thesis .
qed

lemma backfill_lines_only: "backfillRoomCharges D r folio today a d = Inr (n, d') \<Longrightarrow> lines_only d d'"
proof -
  assume b: "backfillRoomCharges D r folio today a d = Inr (n, d')"
  have "lines_only d (snd (n, d'))"
    using b unfolding backfillRoomCharges_def
  proof (rule foldr_res_inv[where P = "\<lambda>s. lines_only d (snd s)"])
    show "lines_only d (snd (0, d))" by simp
  next
    fix night s t
    assume "lines_only d (snd s)" and "(case s of (posted, d) \<Rightarrow> bindr (postRoomChargeForDate D r folio night a d)
      (\<lambda>(res, d). Inr (if res \<noteq> None then Suc posted else posted, d))) = Inr t"
    then show "lines_only d (snd t)" by (auto simp: res_simps split: prod.splits intro: lines_only_trans dest!: postDate_lines_only)
  qed
  then show ?thesis by simp
qed

lemma ensurePrimary_effect:
  assumes "ensurePrimaryFolio r a now d = (f, d')"
  shows "db_lines d' = db_lines d" "db_payments d' = db_payments d" "db_shifts d' = db_shifts d" "db_posOrders d' = db_posOrders d"
    "db_refunds d' = db_refunds d" "db_outlets d' = db_outlets d" "db_issues d' = db_issues d" "db_next d \<le> db_next d'"
    "db_taxRules d' = db_taxRules d" "db_branches d' = db_branches d" "db_reservations d' = db_reservations d" "db_program d' = db_program d" "db_transfers d' = db_transfers d"
  using assms by (auto simp: ensurePrimaryFolio_def insert_folio_def Let_def split: option.splits if_splits prod.splits)

lemma ensurePrimary_folio:
  assumes "ensurePrimaryFolio r a now d = (f, d')"
  shows "f \<in> set (db_folios d')" and "fo_deleted f = False"
    and "map fo_id (db_folios d') = map fo_id (db_folios d) \<or> map fo_id (db_folios d') = map fo_id (db_folios d) @ [db_next d] \<and> db_next d' = Suc (db_next d)"
    and "\<And>x. x \<in> set (db_folios d') \<Longrightarrow> fo_status x = Settled \<Longrightarrow> x \<in> set (db_folios d)"
proof -
  have "f \<in> set (db_folios d') \<and> fo_deleted f = False \<and>
    (map fo_id (db_folios d') = map fo_id (db_folios d) \<or> map fo_id (db_folios d') = map fo_id (db_folios d) @ [db_next d] \<and> db_next d' = Suc (db_next d)) \<and>
    (\<forall>x. x \<in> set (db_folios d') \<longrightarrow> fo_status x = Settled \<longrightarrow> x \<in> set (db_folios d))"
  proof (cases "primaryFolio d (re_id r)")
    case None
    then show ?thesis using assms by (auto simp: ensurePrimaryFolio_def insert_folio_def Let_def split: if_splits prod.splits)
  next
    case (Some e)
    note m = find_Some_mem[OF Some[unfolded primaryFolio_def]]
    show ?thesis
    proof (cases "fo_status e \<noteq> Pending \<or> re_status r \<in> BEFORE_ARRIVAL")
      case True
      then show ?thesis using assms Some m by (auto simp: ensurePrimaryFolio_def Let_def)
    next
      case False
      then have e: "f = e\<lparr>fo_status := Open, fo_openedAt := Some now\<rparr>"
        "d' = d\<lparr>db_folios := map (\<lambda>x. if fo_id x = fo_id e then x\<lparr>fo_status := Open, fo_openedAt := Some now\<rparr> else x) (db_folios d)\<rparr>"
        using assms Some by (simp_all add: ensurePrimaryFolio_def Let_def)
      have "map fo_id (db_folios d') = map fo_id (db_folios d)" unfolding e by (simp add: comp_def if_distrib[of fo_id] cong: if_cong)
      moreover have "f \<in> set (db_folios d')" using m unfolding e by force
      moreover have "x \<in> set (db_folios d)" if "x \<in> set (db_folios d')" "fo_status x = Settled" for x
        using that unfolding e by (auto split: if_splits)
      ultimately show ?thesis using m unfolding e(1) by simp
    qed
  qed
  then show "f \<in> set (db_folios d')" and "fo_deleted f = False"
    and "map fo_id (db_folios d') = map fo_id (db_folios d) \<or> map fo_id (db_folios d') = map fo_id (db_folios d) @ [db_next d] \<and> db_next d' = Suc (db_next d)"
    and "\<And>x. x \<in> set (db_folios d') \<Longrightarrow> fo_status x = Settled \<Longrightarrow> x \<in> set (db_folios d)"
    by blast+
qed

section \<open>Payments\<close>

lemma openShiftOf_Some: "openShiftOf d b a = Some s \<Longrightarrow> s \<in> set (db_shifts d) \<and> sh_branch s = b \<and> sh_agent s = a \<and> sh_closedAt s = None"
  by (auto simp: openShiftOf_def dest: find_Some_mem)

text \<open>The shift a payment is put on is an open one; only cash has one.\<close>

definition on_open_shift :: "db \<Rightarrow> nat option \<Rightarrow> bool" where
  "on_open_shift d s \<longleftrightarrow> (case s of None \<Rightarrow> True | Some i \<Rightarrow> \<exists>x \<in> set (db_shifts d). sh_id x = i \<and> sh_closedAt x = None)"

lemma on_open_shiftOf: "on_open_shift d (map_option sh_id (openShiftOf d b a))"
  by (auto simp: on_open_shift_def dest: openShiftOf_Some split: option.splits)

lemma recordPaymentInTx_effect:
  assumes "recordPaymentInTx D folio dto purpose actorId d = Inr (p, d')"
  obtains "fo_status folio \<noteq> Settled" and "pa_folio p = fo_id folio" and "pa_id p = db_next d" and "\<not> pa_isVoid p" and "\<not> pa_deleted p"
    and "is_money (pa_amount p)" and "pa_method p \<noteq> Loyalty_points" and "on_open_shift d (pa_shift p)"
    and "d' = audit (fo_branch folio) (Some actorId) ''payment.recorded'' (db_next d) (d\<lparr>db_payments := db_payments d @ [p], db_next := Suc (db_next d)\<rparr>)"
proof -
  from assms have opn: "fo_status folio \<noteq> Settled" and m: "pd_method dto \<noteq> Loyalty_points"
    by (auto simp: recordPaymentInTx_def assertFolioOpen_def split: if_splits)
  obtain branch where br: "assertBranch d (fo_branch folio) = Inr branch"
    using assms opn m by (cases "assertBranch d (fo_branch folio)") (simp_all add: recordPaymentInTx_def assertFolioOpen_def)
  obtain amount foreign where cv: "convert D branch dto = Inr (amount, foreign)"
    using assms opn m br by (cases "convert D branch dto") (auto simp: recordPaymentInTx_def assertFolioOpen_def)
  let ?shift = "if pd_method dto = Cash then openShiftOf d (fo_branch folio) actorId else None"
  have "p = \<lparr>pa_id = db_next d, pa_folio = fo_id folio, pa_method = pd_method dto, pa_amount = num2 amount,
      pa_currency = br_currency branch, pa_foreign = foreign, pa_shift = map_option sh_id ?shift, pa_purpose = purpose,
      pa_recordedBy = Some actorId, pa_isVoid = False, pa_voidedBy = None, pa_deleted = False\<rparr> \<and>
    d' = audit (fo_branch folio) (Some actorId) ''payment.recorded'' (db_next d) (d\<lparr>db_payments := db_payments d @ [p], db_next := Suc (db_next d)\<rparr>)"
    using assms opn m br cv by (auto simp: recordPaymentInTx_def assertFolioOpen_def insert_payment_def Let_def split: if_splits)
  then show thesis using opn m on_open_shiftOf[of d "fo_branch folio" actorId]
    by (intro that) (auto simp: on_open_shift_def)
qed

lemma recordPayment_effect:
  assumes "recordPayment D f dto purpose actorId d = Inr (p, d')"
  obtains folio where "findFolioOrThrow d f = Inr folio" and "recordPaymentInTx D folio dto (the_default PurposePayment purpose) actorId d = Inr (p, d')"
  using assms by (auto simp: recordPayment_def res_simps)

lemma recordDeposit_effect:
  assumes "recordDeposit D r dto actorId now d = Inr (p, d')"
  obtains res folio d1 where "ensurePrimaryFolio res (Some actorId) now d = (folio, d1)"
    and "recordPaymentInTx D folio dto PurposeDeposit actorId d1 = Inr (p, d')"
  using assms by (auto simp: recordDeposit_def split: option.splits if_splits prod.splits)

definition void_rows :: "nat \<Rightarrow> nat \<Rightarrow> payment list \<Rightarrow> payment list" where
  "void_rows i a = map (\<lambda>p. if pa_id p = i then p\<lparr>pa_isVoid := True, pa_voidedBy := Some a\<rparr> else p)"

lemma voidPayment_effect:
  assumes "voidPayment i actorId now d = Inr (v, d')"
  obtains pay folio where "pay \<in> set (db_payments d)" and "pa_id pay = i" and "\<not> pa_isVoid pay" and "\<not> pa_deleted pay" and "0 < pa_amount pay"
    and "v = pay\<lparr>pa_isVoid := True, pa_voidedBy := Some actorId\<rparr>"
    and "\<And>r. r \<in> set (db_refunds d) \<Longrightarrow> rf_refundPayment r \<noteq> Some i"
    and "\<And>r. r \<in> set (db_refunds d) \<Longrightarrow> rf_payment r = Some i \<Longrightarrow> rf_status r = RefundRejected"
    and "findFolioOrThrow d (pa_folio pay) = Inr folio" and "fo_status folio \<noteq> Settled"
    and "\<And>s x. pa_shift pay = Some s \<Longrightarrow> List.find (\<lambda>x. sh_id x = s) (db_shifts d) = Some x \<Longrightarrow> sh_closedAt x = None"
    and "db_payments d' = void_rows i actorId (db_payments d)"
    and "db_lines d' = db_lines d" "db_folios d' = db_folios d" "db_shifts d' = db_shifts d" "db_posOrders d' = db_posOrders d"
    "db_refunds d' = db_refunds d" "db_outlets d' = db_outlets d" "db_issues d' = db_issues d" "db_next d \<le> db_next d'" "db_reservations d' = db_reservations d" "db_transfers d' = db_transfers d"
proof -
  from assms obtain pay where f: "List.find (\<lambda>p. pa_id p = i \<and> \<not> pa_deleted p) (db_payments d) = Some pay"
    by (auto simp: voidPayment_def split: option.splits)
  note m = find_Some_mem[OF f]
  have g: "\<not> pa_isVoid pay" "\<not> ((\<exists>r \<in> set (db_refunds d). rf_refundPayment r = Some i) \<or> \<not> 0 < pa_amount pay)"
    using assms f by (auto simp: voidPayment_def split: if_splits)
  obtain folio where fo: "findFolioOrThrow d (pa_folio pay) = Inr folio"
    using assms f g by (cases "findFolioOrThrow d (pa_folio pay)") (simp_all add: voidPayment_def)
  have h: "fo_status folio \<noteq> Settled"
    "\<not> (\<exists>r \<in> set (db_refunds d). rf_payment r = Some i \<and> rf_status r \<in> {RefundPending, RefundApproved, RefundProcessed})"
    "\<not> (case pa_shift pay of None \<Rightarrow> False
       | Some s \<Rightarrow> (case List.find (\<lambda>x. sh_id x = s) (db_shifts d) of None \<Rightarrow> False | Some x \<Rightarrow> sh_closedAt x \<noteq> None))"
    using assms f g fo by (auto simp: voidPayment_def split: if_splits)
  let ?d1 = "d\<lparr>db_payments := void_rows i actorId (db_payments d)\<rparr>"
  obtain d2 where v: "v = pay\<lparr>pa_isVoid := True, pa_voidedBy := Some actorId\<rparr>" and d': "d' = audit (fo_branch folio) (Some actorId) ''payment.voided'' i d2"
    and l: "(case (pa_method pay, List.find (\<lambda>t. lt_payment t = Some i) (db_loyalty d)) of
        (Loyalty_points, Some t) \<Rightarrow> bindr (lockLoyaltyGuest ?d1 (lt_guest t)) (\<lambda>guest.
           bindr (applyLoyaltyPoints guest \<lparr>le_type = Reversal, le_points = - lt_points t, le_branch = Some (fo_branch folio),
                    le_earnReservation = None, le_payment = None, le_expiresAt = None, le_actor = Some actorId\<rparr> now ?d1) (\<lambda>(_, d). Inr d))
      | _ \<Rightarrow> Inr ?d1) = Inr d2"
    using assms f g fo h unfolding voidPayment_def void_rows_def Let_def
    by (auto simp: bindr_eq_Inr simp del: split_paired_All split_paired_Ex split: if_splits)
  have e: "db_payments d2 = db_payments ?d1 \<and> db_lines d2 = db_lines d \<and> db_folios d2 = db_folios d \<and> db_shifts d2 = db_shifts d \<and> db_posOrders d2 = db_posOrders d \<and>
    db_refunds d2 = db_refunds d \<and> db_outlets d2 = db_outlets d \<and> db_issues d2 = db_issues d \<and> db_next d \<le> db_next d2 \<and> db_reservations d2 = db_reservations d \<and> db_transfers d2 = db_transfers d"
    using l by (auto simp: res_simps split: payment_method.splits option.splits prod.splits elim!: applyLoyaltyPoints_Inr)
  have st: "rf_status r = RefundRejected" if "r \<in> set (db_refunds d)" "rf_payment r = Some i" for r
    using h(2) that by (cases "rf_status r") auto
  show thesis
    by (rule that[OF _ _ g(1) _ _ v _ st fo h(1)]) (use m g h(3) e d' in \<open>auto split: option.splits\<close>)
qed

section \<open>Corrections and moves\<close>

lemma void_pos_more [simp]:
  "db_shifts (void_pos_orders l a t d) = db_shifts d" "db_refunds (void_pos_orders l a t d) = db_refunds d"
  "db_outlets (void_pos_orders l a t d) = db_outlets d" "db_issues (void_pos_orders l a t d) = db_issues d"
  "db_reservations (void_pos_orders l a t d) = db_reservations d" "db_transfers (void_pos_orders l a t d) = db_transfers d"
  by (simp_all add: void_pos_orders_def)

lemma correctLineItem_effect:
  assumes "correctLineItem i actorId now d = Inr (c, d')"
  obtains original folio where "original \<in> set (db_lines d)" and "li_id original = i" and "\<not> corrected d i"
    and "findFolioOrThrow d (li_folio original) = Inr folio" and "fo_status folio \<noteq> Settled"
    and "db_lines d' = db_lines d @ stamped (db_next d) (reversal_rows original d (Some actorId))"
    and "db_posOrders d' = map (\<lambda>o'. if po_lineItem o' = Some i \<and> po_voidedAt o' = None then o'\<lparr>po_voidedAt := Some now, po_voidedBy := Some actorId\<rparr> else o') (db_posOrders d)"
    and "db_payments d' = db_payments d" "db_folios d' = db_folios d" "db_shifts d' = db_shifts d" "db_refunds d' = db_refunds d"
    "db_outlets d' = db_outlets d" "db_issues d' = db_issues d" "db_next d \<le> db_next d'" "db_reservations d' = db_reservations d" "db_transfers d' = db_transfers d"
  using assms
proof (cases rule: correctLineItem_Inr)
  case (1 original folio d1)
  note r = reverseLineItem_Inr[OF 1(5)]
  have "db_posOrders d1 = db_posOrders d" using r(3) by simp
  then show thesis
    by (intro that[OF 1(1,2) _ 1(3,4)]) (use r 1(2,6) in \<open>simp_all add: void_pos_orders_def\<close>)
qed

text \<open>A bill's closing and reopening touch only its status.\<close>

definition folios_only :: "db \<Rightarrow> db \<Rightarrow> bool" where
  "folios_only d d' \<longleftrightarrow> db_lines d' = db_lines d \<and> db_next d \<le> db_next d' \<and> db_payments d' = db_payments d \<and> db_shifts d' = db_shifts d \<and>
     db_posOrders d' = db_posOrders d \<and> db_refunds d' = db_refunds d \<and> db_outlets d' = db_outlets d \<and> db_issues d' = db_issues d \<and>
     db_reservations d' = db_reservations d \<and> db_transfers d' = db_transfers d"

lemma createFolio_effect:
  assumes "createAdditionalFolio r l p c a now d = Inr (x, d')"
  shows "folios_only d d'" and "db_folios d' = db_folios d @ [x]" and "fo_id x = db_next d" and "fo_status x = Open" and "db_next d' = Suc (db_next d)"
  using assms by (auto simp: createAdditionalFolio_def insert_folio_def folios_only_def Let_def split: option.splits if_splits prod.splits)

lemma closeFolio_effect:
  assumes "closeFolio f a now d = Inr d'"
  shows "folios_only d d'" and "d' = d \<or> balance d f = 0 \<and> db_folios d' = map (\<lambda>x. if fo_id x = f then x\<lparr>fo_status := Settled, fo_closedAt := Some now\<rparr> else x) (db_folios d)"
  using assms by (auto simp: closeFolio_def set_folio_status_def folios_only_def Let_def totals_balance res_simps split: if_splits)

lemma reopenFolio_effect:
  assumes "reopenFolio f a d = Inr d'"
  shows "folios_only d d'" and "db_folios d' = map (\<lambda>x. if fo_id x = f \<and> fo_status x = Settled then x\<lparr>fo_status := Open, fo_closedAt := None\<rparr> else x) (db_folios d)"
  using assms by (auto simp: reopenFolio_def folios_only_def res_simps split: if_splits)

lemma settle_effect:
  assumes "settleIfFullyPaid folio a now d = (b, d')"
  shows "folios_only d d'" and "d' = d \<or> balance d (fo_id folio) = 0 \<and>
    db_folios d' = map (\<lambda>x. if fo_id x = fo_id folio then x\<lparr>fo_status := Settled, fo_closedAt := Some now\<rparr> else x) (db_folios d)"
  using assms by (auto simp: settleIfFullyPaid_def set_folio_status_def folios_only_def totals_balance split: if_splits)

text \<open>A move takes lines, and the outlet orders they came from, from one open bill to another.\<close>

definition moved_by :: "nat set \<Rightarrow> nat \<Rightarrow> nat \<Rightarrow> db \<Rightarrow> db \<Rightarrow> bool" where
  "moved_by M src tgt d d' \<longleftrightarrow>
     db_lines d' = db_lines (move_lines M tgt d) \<and> db_posOrders d' = db_posOrders (move_lines M tgt d) \<and> db_next d \<le> db_next d' \<and>
     db_payments d' = db_payments d \<and> db_folios d' = db_folios d \<and> db_shifts d' = db_shifts d \<and> db_refunds d' = db_refunds d \<and>
     db_outlets d' = db_outlets d \<and> db_issues d' = db_issues d \<and> db_reservations d' = db_reservations d \<and>
     (\<exists>s t. findFolioOrThrow d src = Inr s \<and> fo_status s \<noteq> Settled \<and> findFolioOrThrow d tgt = Inr t \<and> fo_status t \<noteq> Settled) \<and>
     (\<forall>i \<in> set (db_lines d). li_id i \<in> M \<longrightarrow> li_folio i = src)"

lemma move_lines_more [simp]:
  "db_issues (move_lines M t d) = db_issues d" "db_outlets (move_lines M t d) = db_outlets d"
  by (simp_all add: move_lines_def)

lemma moveCharges_effect:
  assumes "book_ok d" and "moveCharges s dto actorId kind now d = Inr (tr, d')"
  shows "moved_by (set (ft_lines tr)) s (mi_target dto) d d'"
  using assms(2)
proof (cases rule: moveCharges_Inr)
  case (1 src tgt selected)
  have "set (ft_lines tr) = li_id ` set (withDependents d s selected)" by (simp add: 1(11))
  with 1(12) obtain b act where d': "d' = audit b (Some actorId) act s ((move_lines (set (ft_lines tr)) (mi_target dto) d)
      \<lparr>db_transfers := db_transfers d @ [tr], db_next := Suc (db_next d)\<rparr>)" by auto
  have "li_folio i = s" if "i \<in> set (db_lines d)" "li_id i \<in> set (ft_lines tr)" for i by (rule moveCharges_lines(12)[OF assms that])
  then show ?thesis using 1(1-4) by (auto simp: moved_by_def d')
qed

lemma reverseTransfer_effect:
  assumes "book_ok d" and "reverseTransfer tid actorId now d = Inr (tr, d')"
  shows "\<exists>tr0 M src tgt. tr0 \<in> set (db_transfers d) \<and> M = li_id ` set (withDependents d src (filter (\<lambda>i. li_id i \<in> set (ft_lines tr0)) (db_lines d))) \<and>
    (\<forall>i \<in> set (db_lines d). li_id i \<in> set (ft_lines tr0) \<longrightarrow> li_folio i = src) \<and> moved_by M src tgt d d' \<and> map ft_lines (db_transfers d') = map ft_lines (db_transfers d)"
  using assms(2)
proof (cases rule: reverseTransfer_Inr)
  case (1 tr0 src tgt moved)
  let ?W = "withDependents d (ft_target tr0) moved"
  from 1(11) obtain b where d': "d' = audit b (Some actorId) ''folio.transfer_reversed'' (ft_source tr0)
        ((move_lines (li_id ` set ?W) (ft_source tr0) d)
          \<lparr>db_transfers := map (\<lambda>t. if ft_id t = tid then t\<lparr>ft_reversedAt := Some now, ft_reversedBy := Some actorId\<rparr> else t) (db_transfers d)\<rparr>)"
    by blast
  have sub: "set ?W \<subseteq> set (linesOf d (ft_target tr0))"
    using withDependents_closure(2)[of d "ft_target tr0" moved] 1(9,10) line_okD[OF book_okD(1)[OF assms(1)]]
    by (auto simp: linesOf_def line_ok_def)
  have "li_folio i = ft_target tr0" if "i \<in> set (db_lines d)" "li_id i \<in> li_id ` set ?W" for i
    using that sub line_unique[OF book_okD(1)[OF assms(1)], of i] by (auto simp: linesOf_def)
  then have "moved_by (li_id ` set ?W) (ft_target tr0) (ft_source tr0) d d'" using 1(5-8) by (auto simp: moved_by_def d')
  moreover have "map ft_lines (db_transfers d') = map ft_lines (db_transfers d)" unfolding d' by (simp add: comp_def if_distrib[of ft_lines] cong: if_cong)
  ultimately show ?thesis using 1(1,9,10) by (intro exI[of _ tr0] exI[of _ "li_id ` set ?W"] exI[of _ "ft_target tr0"] exI[of _ "ft_source tr0"]) auto
qed

section \<open>Drawers\<close>

lemma openShift_effect:
  assumes "openShift b dto a now d = Inr (s, d')"
  obtains "openShiftOf d b a = None" and "s = new_shift (db_next d) b dto a now"
    and "d' = audit b (Some a) ''shift.opened'' (db_next d) (d\<lparr>db_shifts := db_shifts d @ [s], db_next := Suc (db_next d)\<rparr>)"
  using assms by (auto simp: openShift_def Let_def res_simps new_shift_def split: if_splits)

lemma insert_issues_sel:
  "db_lines (foldl (\<lambda>d i. snd (insert_issue s i d)) d xs) = db_lines d" "db_payments (foldl (\<lambda>d i. snd (insert_issue s i d)) d xs) = db_payments d"
  "db_folios (foldl (\<lambda>d i. snd (insert_issue s i d)) d xs) = db_folios d" "db_shifts (foldl (\<lambda>d i. snd (insert_issue s i d)) d xs) = db_shifts d"
  "db_posOrders (foldl (\<lambda>d i. snd (insert_issue s i d)) d xs) = db_posOrders d" "db_refunds (foldl (\<lambda>d i. snd (insert_issue s i d)) d xs) = db_refunds d"
  "db_outlets (foldl (\<lambda>d i. snd (insert_issue s i d)) d xs) = db_outlets d" "db_reservations (foldl (\<lambda>d i. snd (insert_issue s i d)) d xs) = db_reservations d"
  "db_transfers (foldl (\<lambda>d i. snd (insert_issue s i d)) d xs) = db_transfers d"
  by (induction xs arbitrary: d) (simp_all add: insert_issue_def Let_def)

lemma insert_issues_next: "db_next (foldl (\<lambda>d i. snd (insert_issue s i d)) d xs) = db_next d + length xs"
  by (induction xs arbitrary: d) (simp_all add: insert_issue_def Let_def)

lemma closeShift_effect:
  assumes "closeShift i dto actor now d = Inr (c, d')"
  obtains s branch where "s \<in> set (db_shifts d)" and "sh_id s = i" and "List.find (\<lambda>s. sh_id s = i) (db_shifts d) = Some s" and "sh_closedAt s = None"
    and "sh_agent s = jw_sub actor \<or> isSupervisorAt actor (sh_branch s)" and "assertBranch d (sh_branch s) = Inr branch"
    and "\<bar>cs_counted dto - expectedCash d s\<bar> \<le> the_default DEFAULT_VARIANCE_THRESHOLD (br_varianceThreshold branch) \<or> the_default [] (cs_explanation dto) \<noteq> []"
    and "c = closed_shift d dto now s"
    and "db_shifts d' = map (\<lambda>s. if sh_id s = i then closed_shift d dto now s else s) (db_shifts d)"
    and "db_lines d' = db_lines d" "db_payments d' = db_payments d" "db_folios d' = db_folios d" "db_posOrders d' = db_posOrders d"
    "db_refunds d' = db_refunds d" "db_outlets d' = db_outlets d" "db_next d \<le> db_next d'" "db_reservations d' = db_reservations d" "db_transfers d' = db_transfers d"
proof -
  from assms obtain s where f: "List.find (\<lambda>s. sh_id s = i) (db_shifts d) = Some s" by (auto simp: closeShift_def split: option.splits)
  note m = find_Some_mem[OF f]
  have g: "sh_closedAt s = None" "\<not> (sh_agent s \<noteq> jw_sub actor \<and> \<not> isSupervisorAt actor (sh_branch s))"
    using assms f by (auto simp: closeShift_def split: if_splits)
  obtain branch where br: "assertBranch d (sh_branch s) = Inr branch"
    using assms f g by (cases "assertBranch d (sh_branch s)") (simp_all add: closeShift_def)
  let ?d1 = "d\<lparr>db_shifts := map (\<lambda>s. if sh_id s = i then closed_shift d dto now s else s) (db_shifts d)\<rparr>"
  have h: "\<not> (the_default DEFAULT_VARIANCE_THRESHOLD (br_varianceThreshold branch) < \<bar>cs_counted dto - expectedCash d s\<bar> \<and> the_default [] (cs_explanation dto) = [])"
    "c = closed_shift d dto now s" "d' = audit (sh_branch s) (Some (jw_sub actor)) ''shift.closed'' i (foldl (\<lambda>d x. snd (insert_issue i x d)) ?d1 (cs_issues dto))"
    using assms f g br unfolding closeShift_def Let_def by (auto split: if_splits)
  have n: "db_next d \<le> db_next d'" unfolding h(3) by (simp add: insert_issues_next)
  show thesis by (rule that[OF _ _ f g(1) _ br _ h(2)]) (use m g h n in \<open>auto simp: insert_issues_sel\<close>)
qed

lemma issue_ops_effect:
  assumes "addShiftIssue s x a d = Inr (i, d') \<or> updateShiftIssue n b r a now d = Inr (i, d')"
  shows "folios_only d (d'\<lparr>db_issues := db_issues d\<rparr>)" and "db_folios d' = db_folios d"
  using assms by (auto simp: addShiftIssue_def updateShiftIssue_def insert_issue_def folios_only_def Let_def split: option.splits if_splits)

section \<open>Refunds\<close>

lemma requestInTx_effect:
  assumes "requestInTx folio dto actor d = Inr (r, d')"
  obtains "rf_id r = db_next d" and "rf_folio r = fo_id folio" and "rf_amount r = num2 (rd_amount dto)" and "rf_status r \<in> OUTSTANDING"
    and "rf_refundPayment r = None" and "rf_method r \<in> REFUND_METHODS" and "rd_amount dto \<le> snd (refundable d (fo_id folio) None)"
    and "rf_status r = RefundApproved \<longleftrightarrow> hasRoleAtBranch actor (fo_branch folio) APPROVER_ROLES"
    and "d' = audit (fo_branch folio) (Some (jw_sub actor)) ''refund.requested'' (db_next d) (d\<lparr>db_refunds := db_refunds d @ [r], db_next := Suc (db_next d)\<rparr>)"
  using assms by (auto simp: requestInTx_def Let_def OUTSTANDING_def split: if_splits option.splits prod.splits)

lemma claim_refund_Inr:
  assumes "claim_refund i from upd d = Inr d'"
  shows "d' = d\<lparr>db_refunds := map (\<lambda>r. if rf_id r = i \<and> rf_status r \<in> from then upd r else r) (db_refunds d)\<rparr>"
  using assms by (auto simp: claim_refund_def split: if_splits)

lemma findRefund_Inr:
  assumes "findRefundOrThrow d i = Inr (r, b)"
  shows "r \<in> set (db_refunds d)" and "rf_id r = i" and "List.find (\<lambda>r. rf_id r = i) (db_refunds d) = Some r"
  using assms by (auto simp: findRefundOrThrow_def split: option.splits dest: find_Some_mem)

text \<open>Everything but the refunds is as it was.\<close>

definition refunds_only :: "db \<Rightarrow> db \<Rightarrow> bool" where
  "refunds_only d d' \<longleftrightarrow> db_lines d' = db_lines d \<and> db_next d' = db_next d \<and> db_payments d' = db_payments d \<and> db_shifts d' = db_shifts d \<and>
     db_posOrders d' = db_posOrders d \<and> db_folios d' = db_folios d \<and> db_outlets d' = db_outlets d \<and> db_issues d' = db_issues d \<and>
     db_reservations d' = db_reservations d \<and> db_transfers d' = db_transfers d"

lemma approveRefund_effect:
  assumes "approveRefund i actor d = Inr d'"
  obtains r where "r \<in> set (db_refunds d)" and "rf_id r = i" and "rf_status r = RefundPending"
    and "rf_amount r \<le> snd (refundable d (rf_folio r) (Some i))" and "refunds_only d d'"
    and "db_refunds d' = map (\<lambda>r. if rf_id r = i \<and> rf_status r = RefundPending then r\<lparr>rf_status := RefundApproved, rf_approvedBy := Some (jw_sub actor)\<rparr> else r) (db_refunds d)"
proof -
  from assms obtain r b where f: "findRefundOrThrow d i = Inr (r, b)" by (auto simp: approveRefund_def res_simps)
  note m = findRefund_Inr[OF f]
  from assms f have "rf_status r = RefundPending" "rf_amount r \<le> snd (refundable d (rf_folio r) (Some i))"
    "\<exists>d1. claim_refund i {RefundPending} (\<lambda>r. r\<lparr>rf_status := RefundApproved, rf_approvedBy := Some (jw_sub actor)\<rparr>) d = Inr d1 \<and>
       d' = audit b (Some (jw_sub actor)) ''refund.approved'' i d1"
    using m by (auto simp: approveRefund_def res_simps split: if_splits)
  then show thesis using m by (intro that[of r]) (auto simp: refunds_only_def dest!: claim_refund_Inr)
qed

lemma rejectRefund_effect:
  assumes "rejectRefund i actor d = Inr d'"
  obtains r where "r \<in> set (db_refunds d)" and "rf_id r = i" and "rf_status r \<in> OUTSTANDING" and "refunds_only d d'"
    and "db_refunds d' = map (\<lambda>r. if rf_id r = i \<and> rf_status r \<in> OUTSTANDING then r\<lparr>rf_status := RefundRejected\<rparr> else r) (db_refunds d)"
proof -
  from assms obtain r b where f: "findRefundOrThrow d i = Inr (r, b)" by (auto simp: rejectRefund_def res_simps)
  note m = findRefund_Inr[OF f]
  from assms f have "rf_status r \<in> OUTSTANDING"
    "\<exists>d1. claim_refund i OUTSTANDING (\<lambda>r. r\<lparr>rf_status := RefundRejected\<rparr>) d = Inr d1 \<and> d' = audit b (Some (jw_sub actor)) ''refund.rejected'' i d1"
    using m by (auto simp: rejectRefund_def res_simps split: if_splits)
  then show thesis using m by (intro that[of r]) (auto simp: refunds_only_def dest!: claim_refund_Inr)
qed

lemma settleEnded_effect:
  shows "folios_only d (settleEndedStay f a now d)"
    and "db_folios (settleEndedStay f a now d) = db_folios d \<or> balance d f = 0 \<and>
      db_folios (settleEndedStay f a now d) = map (\<lambda>x. if fo_id x = f then x\<lparr>fo_status := Settled, fo_closedAt := Some now\<rparr> else x) (db_folios d)"
proof -
  have *: "folios_only d (settleEndedStay f a now d) \<and> (db_folios (settleEndedStay f a now d) = db_folios d \<or> balance d f = 0 \<and>
      db_folios (settleEndedStay f a now d) = map (\<lambda>x. if fo_id x = f then x\<lparr>fo_status := Settled, fo_closedAt := Some now\<rparr> else x) (db_folios d))"
  proof (cases "List.find (\<lambda>f'. fo_id f' = f) (db_folios d)")
    case (Some folio)
    have id: "fo_id folio = f" using find_Some_mem[OF Some] by simp
    obtain b d' where s: "settleIfFullyPaid folio (Some a) now d = (b, d')" by (cases "settleIfFullyPaid folio (Some a) now d")
    show ?thesis using Some settle_effect[OF s] id s by (auto simp: settleEndedStay_def folios_only_def split: option.splits)
  qed (simp add: settleEndedStay_def folios_only_def)
  then show "folios_only d (settleEndedStay f a now d)" by blast
  show "db_folios (settleEndedStay f a now d) = db_folios d \<or> balance d f = 0 \<and>
      db_folios (settleEndedStay f a now d) = map (\<lambda>x. if fo_id x = f then x\<lparr>fo_status := Settled, fo_closedAt := Some now\<rparr> else x) (db_folios d)"
    using * by blast
qed

lemma payOut_effect:
  assumes "payOut i actor now d = Inr (p, d')"
  obtains r d1 where "r \<in> set (db_refunds d)" and "rf_id r = i" and "rf_status r = RefundApproved" and "rf_amount r \<le> - balance d (rf_folio r)"
    and "pa_id p = db_next d" and "pa_folio p = rf_folio r" and "pa_amount p = num2 (- rf_amount r)" and "\<not> pa_isVoid p" and "\<not> pa_deleted p"
    and "on_open_shift d (pa_shift p)" and "pa_foreign p = None"
    and "db_payments d1 = db_payments d @ [p]" and "db_next d1 = Suc (db_next d)"
    and "db_refunds d1 = map (\<lambda>r. if rf_id r = i then (if rf_status r = RefundApproved then r\<lparr>rf_status := RefundProcessed, rf_processedBy := Some (jw_sub actor)\<rparr> else r)
           \<lparr>rf_refundPayment := Some (db_next d)\<rparr> else r) (db_refunds d)"
    and "db_lines d1 = db_lines d" "db_folios d1 = db_folios d" "db_shifts d1 = db_shifts d" "db_posOrders d1 = db_posOrders d" "db_outlets d1 = db_outlets d"
    "db_issues d1 = db_issues d" "db_reservations d1 = db_reservations d" "db_transfers d1 = db_transfers d" and "d' = settleEndedStay (rf_folio r) (jw_sub actor) now d1"
proof -
  from assms obtain r b where f: "findRefundOrThrow d i = Inr (r, b)" by (auto simp: payOut_def res_simps)
  note m = findRefund_Inr[OF f]
  have g: "rf_status r = RefundApproved" "rf_amount r \<le> - balance d (rf_folio r)"
    using assms f by (auto simp: payOut_def totals_balance split: if_splits)
  obtain branch where br: "assertBranch d b = Inr branch"
    using assms f g by (cases "assertBranch d b") (simp_all add: payOut_def totals_balance)
  let ?s = "if rf_method r = Cash then openShiftOf d b (jw_sub actor) else None"
  have s: "\<not> (rf_method r = Cash \<and> ?s = None)"
  proof
    assume "rf_method r = Cash \<and> ?s = None"
    then have "rf_method r = Cash" "openShiftOf d b (jw_sub actor) = None" by (auto split: if_splits)
    with f g br have "payOut i actor now d = Inl (Conflict SHIFT_REQUIRED)" by (simp add: payOut_def totals_balance Let_def)
    with assms show False by simp
  qed
  let ?row = "\<lparr>pa_id = db_next d, pa_folio = rf_folio r, pa_method = rf_method r, pa_amount = num2 (- rf_amount r),
      pa_currency = br_currency branch, pa_foreign = None, pa_shift = map_option sh_id ?s, pa_purpose = PurposePayment,
      pa_recordedBy = Some (jw_sub actor), pa_isVoid = False, pa_voidedBy = None, pa_deleted = False\<rparr>"
  have "\<exists>x \<in> set (db_refunds d). rf_id x = i \<and> rf_status x \<in> {RefundApproved}" using m g by blast
  then have c: "claim_refund i {RefundApproved} (\<lambda>r. r\<lparr>rf_status := RefundProcessed, rf_processedBy := Some (jw_sub actor)\<rparr>) d =
     Inr (d\<lparr>db_refunds := map (\<lambda>r. if rf_id r = i \<and> rf_status r = RefundApproved then r\<lparr>rf_status := RefundProcessed, rf_processedBy := Some (jw_sub actor)\<rparr> else r) (db_refunds d)\<rparr>)"
    by (simp add: claim_refund_def)
  let ?d1 = "(audit b (Some (jw_sub actor)) ''refund.paid_out'' i (d\<lparr>db_payments := db_payments d @ [?row], db_next := Suc (db_next d),
      db_refunds := map (\<lambda>r. if rf_id r = i then r\<lparr>rf_refundPayment := Some (db_next d)\<rparr> else r)
        (map (\<lambda>r. if rf_id r = i \<and> rf_status r = RefundApproved then r\<lparr>rf_status := RefundProcessed, rf_processedBy := Some (jw_sub actor)\<rparr> else r) (db_refunds d))\<rparr>))"
  let ?d2 = "?d1\<lparr>db_webhooks := db_webhooks ?d1 @ [(''refund.paid'', db_next d)]\<rparr>"
  have p: "p = ?row" and d': "d' = settleEndedStay (rf_folio r) (jw_sub actor) now ?d2"
    using assms f g br s c by (auto simp: payOut_def totals_balance insert_payment_def Let_def simp del: map_map cong: if_cong)
  have sh: "on_open_shift d (map_option sh_id ?s)" using on_open_shiftOf[of d b "jw_sub actor"] by (simp add: on_open_shift_def)
  show thesis
    by (rule that[of r ?d2]) (use m g p d' sh in \<open>simp_all add: comp_def cong: if_cong\<close>)
qed

section \<open>Outlets\<close>

lemma insert_order_Inr:
  assumes "insert_order x d = Inr (row, d')"
  shows "row = x\<lparr>po_id := db_next d, po_subtotal := num2 (po_subtotal x), po_taxTotal := num2 (po_taxTotal x), po_total := num2 (po_total x),
            po_discount := num2 (po_discount x), po_cashAmount := num2 (po_cashAmount x), po_cardAmount := num2 (po_cardAmount x)\<rparr>"
    and "d' = d\<lparr>db_posOrders := db_posOrders d @ [row], db_next := Suc (db_next d)\<rparr>" and "order_checks row"
    and "\<And>y. y \<in> set (db_posOrders d) \<Longrightarrow> po_outlet y \<noteq> po_outlet row \<or> po_orderNo y \<noteq> po_orderNo row"
    and "\<And>y. y \<in> set (db_posOrders d) \<Longrightarrow> po_lineItem row \<noteq> None \<Longrightarrow> po_lineItem y \<noteq> po_lineItem row"
  using assms by (auto simp: insert_order_def Let_def split: if_splits)

lemma createOrder_Inr:
  assumes "createOrder D tzo dto actor now d = Inr (ord, d')"
  obtains outlet branch lines items discount priced reason net tax room sid d1 cash byCard d2 where
    "findOutletOrThrow d (cd_outlet dto) = Inr outlet" "ou_isActive outlet" "assertCanRingUp d actor outlet = Inr ()"
    "assertBranch d (ou_branch outlet) = Inr branch"
    "priceBasket D outlet (cd_items dto) (cd_discount dto) actor d = Inr (lines, items, discount, priced)" "0 < pc_price priced"
    "discountReasonFor dto discount = Inr reason"
    "settleOrder D tzo dto outlet branch priced (jw_sub actor) now d = Inr (net, tax, room, sid, d1)"
    "takings (cd_settlement dto) (cd_cashAmount dto) (net + tax) = Inr (cash, byCard)"
    "insert_order (new_order dto outlet (nextOrderNo d (ou_id outlet)) lines discount reason net tax room sid cash byCard (jw_sub actor) now) d1 = Inr (ord, d2)"
    "d' = audit (ou_branch outlet) (Some (jw_sub actor)) ''pos_order.created'' (po_id ord) d2"
proof -
  obtain outlet where o: "findOutletOrThrow d (cd_outlet dto) = Inr outlet"
    using assms by (cases "findOutletOrThrow d (cd_outlet dto)") (simp_all add: createOrder_def)
  have act: "ou_isActive outlet" using assms o by (simp add: createOrder_def assertOutletActive_def split: if_splits)
  have ring: "assertCanRingUp d actor outlet = Inr ()"
    using assms o act by (cases "assertCanRingUp d actor outlet") (simp_all add: createOrder_def assertOutletActive_def)
  obtain branch where br: "assertBranch d (ou_branch outlet) = Inr branch"
    using assms o act ring by (cases "assertBranch d (ou_branch outlet)") (simp_all add: createOrder_def assertOutletActive_def)
  note a = o act ring br
  define rest where "rest = (\<lambda>(lines, items :: rat, discount, priced).
     if \<not> 0 < pc_price priced then Inl (BadRequest VALIDATION_FAILED)
     else bindr (discountReasonFor dto discount) (\<lambda>reason.
     bindr (settleOrder D tzo dto outlet branch priced (jw_sub actor) now d) (\<lambda>(net, taxTotal, room, shiftId, d1).
     bindr (takings (cd_settlement dto) (cd_cashAmount dto) (net + taxTotal)) (\<lambda>(cash, byCard).
     bindr (insert_order (new_order dto outlet (nextOrderNo d (ou_id outlet)) lines discount reason net taxTotal room shiftId cash byCard (jw_sub actor) now) d1) (\<lambda>(order, d2).
       Inr (order, audit (ou_branch outlet) (Some (jw_sub actor)) ''pos_order.created'' (po_id order) d2))))))"
  have "bindr (priceBasket D outlet (cd_items dto) (cd_discount dto) actor d) rest = Inr (ord, d')"
    using assms a unfolding createOrder_def rest_def by (simp add: assertOutletActive_def Let_def split: if_splits)
  then obtain lines items discount priced where b: "priceBasket D outlet (cd_items dto) (cd_discount dto) actor d = Inr (lines, items, discount, priced)"
    and r: "rest (lines, items, discount, priced) = Inr (ord, d')" by (auto simp: bindr_eq_Inr)
  have pos: "0 < pc_price priced" using r by (simp add: rest_def split: if_splits)
  obtain reason where re: "discountReasonFor dto discount = Inr reason"
    using r pos by (cases "discountReasonFor dto discount") (simp_all add: rest_def)
  obtain net tax room sid d1 where se: "settleOrder D tzo dto outlet branch priced (jw_sub actor) now d = Inr (net, tax, room, sid, d1)"
    using r pos re by (cases "settleOrder D tzo dto outlet branch priced (jw_sub actor) now d") (auto simp: rest_def)
  obtain cash byCard where t: "takings (cd_settlement dto) (cd_cashAmount dto) (net + tax) = Inr (cash, byCard)"
    using r pos re se by (cases "takings (cd_settlement dto) (cd_cashAmount dto) (net + tax)") (auto simp: rest_def)
  obtain row d2 where i: "insert_order (new_order dto outlet (nextOrderNo d (ou_id outlet)) lines discount reason net tax room sid cash byCard (jw_sub actor) now) d1 = Inr (row, d2)"
    using r pos re se t by (cases "insert_order (new_order dto outlet (nextOrderNo d (ou_id outlet)) lines discount reason net tax room sid cash byCard (jw_sub actor) now) d1") (auto simp: rest_def)
  have fin: "row = ord" "d' = audit (ou_branch outlet) (Some (jw_sub actor)) ''pos_order.created'' (po_id ord) d2"
    using r pos re se t i by (auto simp: rest_def)
  show thesis by (rule that[OF a b pos re se t i[unfolded fin(1)] fin(2)])
qed

lemma settleOrder_Inr:
  assumes "settleOrder D tzo dto outlet branch priced a now d = Inr (net, tax, room, sid, d1)"
  obtains (room) res folio d0 l where "cd_settlement dto = ToRoom" "res \<in> set (db_reservations d)" "re_status res = Checked_in"
      "ensurePrimaryFolio res (Some a) now d = (folio, d0)" "fo_status folio \<noteq> Settled"
      "postOutletCharge D folio (ou_id outlet) (ou_chargeType outlet) (pc_price priced) (toBranchDate (todayInTimezone tzo (br_timezone branch) now)) a d0 = Inr (Some l, d1)"
      "room = Some (re_id res, fo_id folio, li_id l)" "net = li_amount l" "tax = li_taxAmount l" "sid = None"
    | (paid) "cd_settlement dto \<noteq> ToRoom" "room = None" "d1 = d" "net = pc_net priced" "tax = pc_taxTotal priced" "on_open_shift d sid"
proof (cases "cd_settlement dto = ToRoom")
  case True
  then obtain r f l where c: "chargeToRoom D tzo outlet branch (cd_reservation dto) (pc_price priced) a now d = Inr ((r, f, l), d1)"
    and e: "room = Some (r, f, li_id l)" "net = li_amount l" "tax = li_taxAmount l" "sid = None"
    using assms by (auto simp: settleOrder_def res_simps)
  from c obtain res where fr: "List.find (\<lambda>r. Some (re_id r) = cd_reservation dto \<and> re_branch r = ou_branch outlet \<and> \<not> re_deleted r) (db_reservations d) = Some res"
    by (auto simp: chargeToRoom_def split: option.splits)
  obtain folio d0 where en: "ensurePrimaryFolio res (Some a) now d = (folio, d0)" by (cases "ensurePrimaryFolio res (Some a) now d")
  from c fr en have g: "re_status res = Checked_in" "fo_status folio \<noteq> Settled" by (auto simp: chargeToRoom_def split: if_splits)
  with c fr en have p: "postOutletCharge D folio (ou_id outlet) (ou_chargeType outlet) (pc_price priced) (toBranchDate (todayInTimezone tzo (br_timezone branch) now)) a d0 = Inr (Some l, d1)"
    and rf: "r = re_id res" "f = fo_id folio" by (auto simp: chargeToRoom_def res_simps split: if_splits option.splits prod.splits)
  show thesis using room[OF True _ g(1) en g(2) p] find_Some_mem[OF fr] e rf by simp
next
  case False
  then show thesis using assms on_open_shiftOf[of d "ou_branch outlet" a]
    by (intro paid) (auto simp: settleOrder_def on_open_shift_def split: option.splits if_splits)
qed

lemma claim_void_Inr:
  assumes "claim_void i a now d = Inr d'"
  shows "d' = d\<lparr>db_posOrders := map (\<lambda>x. if po_id x = i \<and> po_voidedAt x = None then x\<lparr>po_voidedAt := Some now, po_voidedBy := Some a\<rparr> else x) (db_posOrders d)\<rparr>"
  using assms by (auto simp: claim_void_def split: if_splits)

lemma voidOrder_Inr:
  assumes "voidOrder i reason actor now d = Inr (c, d')"
  obtains ord d1 d2 where "List.find (\<lambda>x. po_id x = i) (db_posOrders d) = Some ord" and "ord \<in> set (db_posOrders d)" and "po_id ord = i"
    and "hasRoleAt actor (po_branch ord) POS_SUPERVISOR_ROLES"
    and "\<And>s x. 0 < po_cashAmount ord \<Longrightarrow> po_shift ord = Some s \<Longrightarrow> List.find (\<lambda>x. sh_id x = s) (db_shifts d) = Some x \<Longrightarrow> sh_closedAt x = None"
    and "claim_void i (jw_sub actor) now d = Inr d1"
    and "c = None \<and> d2 = d1 \<and> (po_lineItem ord = None \<or> (\<exists>l. po_lineItem ord = Some l \<and> corrected d1 l)) \<or>
         (\<exists>l k. po_lineItem ord = Some l \<and> c = Some k \<and> correctLineItem l (jw_sub actor) now d1 = Inr (k, d2))"
    and "d' = audit (po_branch ord) (Some (jw_sub actor)) ''pos_order.voided'' i d2"
proof -
  from assms obtain ord where f: "List.find (\<lambda>x. po_id x = i) (db_posOrders d) = Some ord" by (auto simp: voidOrder_def split: option.splits)
  note m = find_Some_mem[OF f]
  have sup: "hasRoleAt actor (po_branch ord) POS_SUPERVISOR_ROLES" using assms f by (auto simp: voidOrder_def assertSupervisorAt_def split: if_splits)
  have sh: "\<not> (0 < po_cashAmount ord \<and> (case po_shift ord of None \<Rightarrow> False
     | Some s \<Rightarrow> (case List.find (\<lambda>x. sh_id x = s) (db_shifts d) of None \<Rightarrow> False | Some x \<Rightarrow> sh_closedAt x \<noteq> None)))"
  proof
    assume "0 < po_cashAmount ord \<and> (case po_shift ord of None \<Rightarrow> False
     | Some s \<Rightarrow> (case List.find (\<lambda>x. sh_id x = s) (db_shifts d) of None \<Rightarrow> False | Some x \<Rightarrow> sh_closedAt x \<noteq> None))"
    with f sup have "voidOrder i reason actor now d = Inl (Conflict CONFLICT)" by (simp add: voidOrder_def assertSupervisorAt_def)
    with assms show False by simp
  qed
  obtain t where t: "requireText reason = Inr t"
    using assms f sup sh by (cases "requireText reason") (simp_all add: voidOrder_def assertSupervisorAt_def)
  obtain d1 where c1: "claim_void i (jw_sub actor) now d = Inr d1"
    using assms f sup sh t by (cases "claim_void i (jw_sub actor) now d") (simp_all add: voidOrder_def assertSupervisorAt_def)
  define step where "step = (case po_lineItem ord of None \<Rightarrow> Inr (None, d1)
       | Some l \<Rightarrow> if corrected d1 l then Inr (None, d1) else bindr (correctLineItem l (jw_sub actor) now d1) (\<lambda>(c, d). Inr (Some c, d)))"
  have v: "bindr step (\<lambda>(correction, d). Inr (correction, audit (po_branch ord) (Some (jw_sub actor)) ''pos_order.voided'' i d)) = Inr (c, d')"
    using assms f sup sh t c1 by (simp add: voidOrder_def assertSupervisorAt_def step_def)
  then obtain d2 where st: "step = Inr (c, d2)" and d': "d' = audit (po_branch ord) (Some (jw_sub actor)) ''pos_order.voided'' i d2"
    by (auto simp: bindr_eq_Inr)
  have k: "c = None \<and> d2 = d1 \<and> (po_lineItem ord = None \<or> (\<exists>l. po_lineItem ord = Some l \<and> corrected d1 l)) \<or>
         (\<exists>l k. po_lineItem ord = Some l \<and> c = Some k \<and> correctLineItem l (jw_sub actor) now d1 = Inr (k, d2))"
    using st unfolding step_def by (auto simp: res_simps split: option.splits if_splits)
  show thesis by (rule that[OF f _ _ sup _ c1 k d']) (use m sh in \<open>auto split: option.splits\<close>)
qed

end
