(* ===== verification/Desk.thy ===== *)
theory Desk
  imports Desk_Effects
begin

text \<open>
  The desk, the tills and the drawers as one system: a step is any request the services of this
  development answer with success, in any order, by anyone. A request that is refused leaves the
  database as it was (every handler is one transaction), so it is no step.

  The requests reach the services through the validation of their DTOs: an amount asked for as a
  refund is positive and in whole cents. Night postings come with the reservation and the bill the
  night audit and the check-in read in the same transaction.
\<close>

inductive desk_step :: "decimal_lib \<Rightarrow> tz_offset \<Rightarrow> db \<Rightarrow> db \<Rightarrow> bool" for D tzo where
  post_charge: "postCharge D tzo f amount ct sd a now d = Inr (l, d') \<Longrightarrow> desk_step D tzo d d'"
| post_night: "postRoomChargeForDate D r folio date a' d = Inr (l', d') \<Longrightarrow> desk_step D tzo d d'"
| backfill: "backfillRoomCharges D r folio today a' d = Inr (n, d') \<Longrightarrow> desk_step D tzo d d'"
| record_payment: "recordPayment D f pdto purpose a d = Inr (p, d') \<Longrightarrow> desk_step D tzo d d'"
| record_deposit: "recordDeposit D rid pdto a now d = Inr (p, d') \<Longrightarrow> desk_step D tzo d d'"
| void_payment: "voidPayment i a now d = Inr (p, d') \<Longrightarrow> desk_step D tzo d d'"
| correct_line: "correctLineItem i a now d = Inr (l, d') \<Longrightarrow> desk_step D tzo d d'"
| create_folio: "createAdditionalFolio rid label payer corporate a now d = Inr (x, d') \<Longrightarrow> desk_step D tzo d d'"
| split_folio: "splitFolio f mv a now d = Inr (tr, d') \<Longrightarrow> desk_step D tzo d d'"
| transfer: "transferCharges f mv a now d = Inr (tr, d') \<Longrightarrow> desk_step D tzo d d'"
| reverse_transfer: "reverseTransfer i a now d = Inr (tr, d') \<Longrightarrow> desk_step D tzo d d'"
| close_folio: "closeFolio f a now d = Inr d' \<Longrightarrow> desk_step D tzo d d'"
| reopen_folio: "reopenFolio f a d = Inr d' \<Longrightarrow> desk_step D tzo d d'"
| settle_paid: "folio \<in> set (db_folios d) \<Longrightarrow> settleIfFullyPaid folio a' now d = (b, d') \<Longrightarrow> desk_step D tzo d d'"
| open_shift: "openShift br odto a now d = Inr (s, d') \<Longrightarrow> desk_step D tzo d d'"
| close_shift: "closeShift i cdto actor now d = Inr (s, d') \<Longrightarrow> desk_step D tzo d d'"
| add_issue: "addShiftIssue i idto a d = Inr (is, d') \<Longrightarrow> desk_step D tzo d d'"
| update_issue: "updateShiftIssue i b res a now d = Inr (is, d') \<Longrightarrow> desk_step D tzo d d'"
| request_refund: "requestRefund f rdto actor d = Inr (rf, d') \<Longrightarrow> is_money (rd_amount rdto) \<Longrightarrow> 0 < rd_amount rdto \<Longrightarrow> desk_step D tzo d d'"
| approve_refund: "approveRefund i actor d = Inr d' \<Longrightarrow> desk_step D tzo d d'"
| reject_refund: "rejectRefund i actor d = Inr d' \<Longrightarrow> desk_step D tzo d d'"
| pay_out: "payOut i actor now d = Inr (p, d') \<Longrightarrow> desk_step D tzo d d'"
| create_order: "createOrder D tzo dto actor now d = Inr (ord, d') \<Longrightarrow> desk_step D tzo d d'"
| void_order: "voidOrder i reason actor now d = Inr (corr, d') \<Longrightarrow> desk_step D tzo d d'"
| create_outlet: "createOutlet br oudto a d = Inr (out, d') \<Longrightarrow> desk_step D tzo d d'"
| update_outlet: "updateOutlet i opatch actor d = Inr (out, d') \<Longrightarrow> desk_step D tzo d d'"
| create_item: "createMenuItem i mdto actor d = Inr (item, d') \<Longrightarrow> desk_step D tzo d d'"
| update_item: "updateMenuItem i mpatch actor d = Inr (item, d') \<Longrightarrow> desk_step D tzo d d'"
| set_availability: "setAvailability i b actor d = Inr (item, d') \<Longrightarrow> desk_step D tzo d d'"
| delete_item: "deleteMenuItem i actor d = Inr (item, d') \<Longrightarrow> desk_step D tzo d d'"

section \<open>The menus leave the money alone\<close>

definition menu_only :: "db \<Rightarrow> db \<Rightarrow> bool" where
  "menu_only d d' \<longleftrightarrow> folios_only d (d'\<lparr>db_outlets := db_outlets d\<rparr>) \<and> db_folios d' = db_folios d"

lemma menu_ops_effect:
  "createOutlet br odto a d = Inr (out, d') \<Longrightarrow> menu_only d d'" "updateOutlet i opatch actor d = Inr (out, d') \<Longrightarrow> menu_only d d'"
  "createMenuItem i mdto actor d = Inr (item, d') \<Longrightarrow> menu_only d d'" "updateMenuItem i mpatch actor d = Inr (item, d') \<Longrightarrow> menu_only d d'"
  "setAvailability i b actor d = Inr (item, d') \<Longrightarrow> menu_only d d'" "deleteMenuItem i actor d = Inr (item, d') \<Longrightarrow> menu_only d d'"
  by (auto simp: createOutlet_def updateOutlet_def createMenuItem_def updateMenuItem_def setAvailability_def deleteMenuItem_def update_item_def
      menu_only_def folios_only_def res_simps Let_def split: option.splits)

lemma items_keep_outlets:
  "createMenuItem i mdto actor d = Inr (item, d') \<Longrightarrow> db_outlets d' = db_outlets d" "updateMenuItem i mpatch actor d = Inr (item, d') \<Longrightarrow> db_outlets d' = db_outlets d"
  "setAvailability i b actor d = Inr (item, d') \<Longrightarrow> db_outlets d' = db_outlets d" "deleteMenuItem i actor d = Inr (item, d') \<Longrightarrow> db_outlets d' = db_outlets d"
  by (auto simp: createMenuItem_def updateMenuItem_def setAvailability_def deleteMenuItem_def update_item_def res_simps Let_def split: option.splits)

section \<open>The ledger stays well formed\<close>

text \<open>
  Besides the ledger's own form: a recorded transfer names lines that exist, and with every line
  the line it hangs off and the line it corrects, so that taking it back keeps families together.
\<close>

definition closed_up :: "db \<Rightarrow> nat set \<Rightarrow> bool" where
  "closed_up d M \<longleftrightarrow> (\<forall>i \<in> set (db_lines d). li_id i \<in> M \<longrightarrow> (\<forall>p. li_parent i = Some p \<or> li_corrects i = Some p \<longrightarrow> p \<in> M))"

definition transfers_ok :: "db \<Rightarrow> bool" where
  "transfers_ok d \<longleftrightarrow> (\<forall>ls \<in> set (map ft_lines (db_transfers d)). set ls \<subseteq> li_id ` set (db_lines d) \<and> closed_up d (set ls))"

definition ledger_inv :: "db \<Rightarrow> bool" where
  "ledger_inv d \<longleftrightarrow> book_ok d \<and> transfers_ok d"

lemma ledger_book: "ledger_inv d \<Longrightarrow> book_ok d"
  by (simp add: ledger_inv_def)

lemma transfers_ok_append:
  assumes "transfers_ok d" and "ledger_ok d'" and "db_lines d' = db_lines d @ rows" and "db_transfers d' = db_transfers d"
  shows "transfers_ok d'"
  unfolding transfers_ok_def assms(4)
proof (intro ballI conjI)
  fix ls assume "ls \<in> set (map ft_lines (db_transfers d))"
  with assms(1) have ls: "set ls \<subseteq> li_id ` set (db_lines d)" "closed_up d (set ls)" by (auto simp: transfers_ok_def)
  show "set ls \<subseteq> li_id ` set (db_lines d')" using ls(1) assms(3) by auto
  have "li_id i \<notin> set ls" if "i \<in> set rows" for i using assms(2) ls(1) that unfolding ledger_ok_def assms(3) by auto
  then show "closed_up d' (set ls)" using ls(2) assms(3) by (auto simp: closed_up_def)
qed

lemma transfers_ok_moved:
  assumes "map (\<lambda>i. (li_id i, li_parent i, li_corrects i)) (db_lines d') = map (\<lambda>i. (li_id i, li_parent i, li_corrects i)) (db_lines d)"
    and "transfers_ok d" and "\<And>ls. ls \<in> set (map ft_lines (db_transfers d')) \<Longrightarrow> ls \<in> set (map ft_lines (db_transfers d)) \<or> set ls \<subseteq> li_id ` set (db_lines d) \<and> closed_up d (set ls)"
  shows "transfers_ok d'"
proof -
  let ?k = "\<lambda>i. (li_id i, li_parent i, li_corrects i)"
  have im: "?k ` set (db_lines d') = ?k ` set (db_lines d)" using arg_cong[OF assms(1), of set] by simp
  have ids: "li_id ` set (db_lines d') = li_id ` set (db_lines d)"
    using arg_cong[OF im, of "image fst"] by (simp add: image_image)
  have "closed_up d' M" if "closed_up d M" for M
    unfolding closed_up_def
  proof (intro ballI impI allI)
    fix i p assume i: "i \<in> set (db_lines d')" "li_id i \<in> M" "li_parent i = Some p \<or> li_corrects i = Some p"
    have "?k i \<in> ?k ` set (db_lines d)" using i(1) unfolding im[symmetric] by (rule imageI)
    then obtain j where j: "j \<in> set (db_lines d)" and k: "?k i = ?k j" by (rule imageE)
    have e: "li_id i = li_id j" "li_parent i = li_parent j" "li_corrects i = li_corrects j" using k by (simp_all only: prod.inject)
    show "p \<in> M" by (rule that[unfolded closed_up_def, rule_format, OF j]) (use i(2,3) in \<open>simp_all only: e\<close>)
  qed
  note up = this
  show ?thesis unfolding transfers_ok_def ids
  proof
    fix ls assume "ls \<in> set (map ft_lines (db_transfers d'))"
    then have "ls \<in> set (map ft_lines (db_transfers d)) \<or> set ls \<subseteq> li_id ` set (db_lines d) \<and> closed_up d (set ls)" by (rule assms(3))
    then have "set ls \<subseteq> li_id ` set (db_lines d) \<and> closed_up d (set ls)" using assms(2) unfolding transfers_ok_def by blast
    then show "set ls \<subseteq> li_id ` set (db_lines d) \<and> closed_up d' (set ls)" using up by blast
  qed
qed

lemma ledger_inv_cong:
  assumes "db_lines d' = db_lines d" and "db_transfers d' = db_transfers d" and "db_next d \<le> db_next d'" and "ledger_inv d"
  shows "ledger_inv d'"
  using assms transfers_ok_moved[of d' d] book_ok_cong[of d' d] by (auto simp: ledger_inv_def)

lemma ledger_inv_append:
  assumes "book_ok d'" and "db_lines d' = db_lines d @ rows" and "db_transfers d' = db_transfers d" and "ledger_inv d"
  shows "ledger_inv d'"
  using assms transfers_ok_append[of d d' rows] book_okD(1) by (auto simp: ledger_inv_def)

lemma ledger_inv_only:
  "folios_only d d' \<Longrightarrow> ledger_inv d \<Longrightarrow> ledger_inv d'" "refunds_only d d' \<Longrightarrow> ledger_inv d \<Longrightarrow> ledger_inv d'"
  "menu_only d d' \<Longrightarrow> ledger_inv d \<Longrightarrow> ledger_inv d'" "lines_only d d' \<Longrightarrow> book_ok d' \<Longrightarrow> ledger_inv d \<Longrightarrow> ledger_inv d'"
  by (auto simp: folios_only_def refunds_only_def menu_only_def lines_only_def intro: ledger_inv_cong ledger_inv_append)

lemma move_keys: "map (\<lambda>i. (li_id i, li_parent i, li_corrects i)) (db_lines (move_lines M t d)) = map (\<lambda>i. (li_id i, li_parent i, li_corrects i)) (db_lines d)"
  by simp

lemma moveCharges_ledger:
  assumes "moveCharges s mv a k now d = Inr (tr, d')" and "ledger_inv d"
  shows "ledger_inv d'"
proof -
  have ok: "book_ok d" "transfers_ok d" using assms(2) by (auto simp: ledger_inv_def)
  note m = moveCharges_lines[OF ok(1) assms(1)]
  have "closed_up d (set (ft_lines tr))" unfolding closed_up_def using m(14) by blast
  then have "transfers_ok d'" using m(16) by (intro transfers_ok_moved[OF _ ok(2)]) (auto simp: m(1,4))
  with move_book_ok[OF ok(1) assms(1)] show ?thesis by (simp add: ledger_inv_def)
qed

lemma reverseTransfer_ledger:
  assumes "reverseTransfer i a now d = Inr (tr, d')" and "ledger_inv d"
  shows "ledger_inv d'"
proof -
  have ok: "book_ok d" "transfers_ok d" using assms(2) by (auto simp: ledger_inv_def)
  obtain tr0 M src tgt where tr0: "tr0 \<in> set (db_transfers d)" and M: "M = li_id ` set (withDependents d src (filter (\<lambda>i. li_id i \<in> set (ft_lines tr0)) (db_lines d)))"
    and src: "\<forall>i \<in> set (db_lines d). li_id i \<in> set (ft_lines tr0) \<longrightarrow> li_folio i = src" and mb: "moved_by M src tgt d d'"
    and ft: "map ft_lines (db_transfers d') = map ft_lines (db_transfers d)" using reverseTransfer_effect[OF ok(1) assms(1)] by blast
  let ?sel = "filter (\<lambda>i. li_id i \<in> set (ft_lines tr0)) (db_lines d)"
  have cl: "closed_up d (set (ft_lines tr0))" using ok(2) tr0 unfolding transfers_ok_def set_map by blast
  have sub: "set ?sel \<subseteq> set (linesOf d src)" using src linesOf_mem[OF book_okD(1)[OF ok(1)]] by auto
  have "a \<in> li_id ` set (withDependents d src ?sel)" if i: "i \<in> set ?sel" "anchorOf i = Some a" for i a
  proof -
    have pc: "li_parent i = Some a \<or> li_corrects i = Some a" using i(2) by (auto simp: anchorOf_def split: if_splits)
    then have a: "a \<in> set (ft_lines tr0)" using cl i(1) unfolding closed_up_def set_filter by blast
    have "i \<in> set (db_lines d)" using i(1) by simp
    then have "hasLine d a (li_folio i)" using pc family_okD(2,3)[OF book_okD(2)[OF ok(1)], of i] by blast
    then obtain j where "j \<in> set ?sel" "li_id j = a" using a by (auto simp: hasLine_def)
    then show ?thesis using withDependents_closure(1)[of ?sel d src] by blast
  qed
  then have anc: "\<forall>i \<in> set ?sel. \<forall>a. anchorOf i = Some a \<longrightarrow> a \<in> li_id ` set (withDependents d src ?sel)" by blast
  note ms = moved_set[OF ok(1) sub anc, folded M]
  have bm: "book_ok (move_lines M tgt d)" by (rule book_ok_move[OF ok(1), where s = src]) (use ms in blast)+
  have "book_ok d'" using mb by (intro book_ok_cong[OF _ _ bm]) (auto simp: moved_by_def)
  moreover have "transfers_ok d'" using mb ft move_keys[of M tgt d] by (intro transfers_ok_moved[OF _ ok(2)]) (simp_all only: moved_by_def, blast)
  ultimately show ?thesis by (simp add: ledger_inv_def)
qed

lemma corrected_book_ok: "correctLineItem i a now d = Inr (c, d') \<Longrightarrow> book_ok d \<Longrightarrow> book_ok d'"
proof (erule correctLineItem_Inr)
  fix original :: line_item and folio d1
  assume "book_ok d" "original \<in> set (db_lines d)" "reverseLineItem original folio (Some a) d = Inr (c, d1)" "d' = void_pos_orders i a now d1"
  then have "book_ok d1" "d' = void_pos_orders i a now d1" using reverse_book_ok by blast+
  then show "book_ok d'" by (intro book_ok_cong[of d' d1]) simp_all
qed

lemma recordPaymentInTx_ledger: "recordPaymentInTx D folio dto pu a d = Inr (p, d') \<Longrightarrow> ledger_inv d \<Longrightarrow> ledger_inv d'"
  by (erule recordPaymentInTx_effect) (auto intro: ledger_inv_cong)

lemma correct_ledger: "correctLineItem i a now d = Inr (c, d') \<Longrightarrow> ledger_inv d \<Longrightarrow> ledger_inv d'"
proof -
  assume c: "correctLineItem i a now d = Inr (c, d')" and ok: "ledger_inv d"
  from c show ?thesis
    by (rule correctLineItem_effect) (rule ledger_inv_append, use corrected_book_ok[OF c] ok in \<open>simp_all add: ledger_inv_def\<close>)
qed

lemma settleOrder_ledger:
  assumes "settleOrder D tzo dto outlet branch priced a now d = Inr (net, tax, room, sid, d1)" and "ledger_inv d"
  shows "ledger_inv d1"
  using assms(1)
proof (cases rule: settleOrder_Inr)
  case (room res folio d0 l)
  note e = ensurePrimary_effect[OF room(4)]
  have 0: "ledger_inv d0" using e assms(2) by (auto intro: ledger_inv_cong)
  have w: "writeChargeWithTaxes D ((plain_charge (fo_branch folio) (fo_id folio) (pc_price priced) (ou_chargeType outlet)
      (toBranchDate (todayInTimezone tzo (br_timezone branch) now)) (Some a))\<lparr>ci_outlet := Some (ou_id outlet)\<rparr>) d0 = Inr (Some l, d1)"
    using room(6) by (simp add: postOutletCharge_def)
  show ?thesis using writeCharge_book_ok[OF w] writeCharge_lines_only[OF w] 0 by (intro ledger_inv_only(4)[of d0 d1]) (simp_all add: ledger_inv_def)
qed (use assms(2) in simp)

lemma createOrder_ledger: "createOrder D tzo dto actor now d = Inr (ord, d') \<Longrightarrow> ledger_inv d \<Longrightarrow> ledger_inv d'"
  by (erule createOrder_Inr) (auto dest!: settleOrder_ledger insert_order_Inr(2) intro: ledger_inv_cong)

lemma voidOrder_ledger: "voidOrder i reason actor now d = Inr (c, d') \<Longrightarrow> ledger_inv d \<Longrightarrow> ledger_inv d'"
proof (erule voidOrder_Inr)
  fix ord d1 d2
  assume ok: "ledger_inv d" and c: "claim_void i (jw_sub actor) now d = Inr d1"
    and k: "c = None \<and> d2 = d1 \<and> (po_lineItem ord = None \<or> (\<exists>l. po_lineItem ord = Some l \<and> corrected d1 l)) \<or>
         (\<exists>l k. po_lineItem ord = Some l \<and> c = Some k \<and> correctLineItem l (jw_sub actor) now d1 = Inr (k, d2))"
    and d': "d' = audit (po_branch ord) (Some (jw_sub actor)) ''pos_order.voided'' i d2"
  have "ledger_inv d1" using ok by (rule ledger_inv_cong[rotated 3]) (simp_all add: claim_void_Inr[OF c])
  then have "ledger_inv d2" using k by (auto intro: correct_ledger)
  then show "ledger_inv d'" by (rule ledger_inv_cong[rotated 3]) (simp_all add: d')
qed

lemma payOut_ledger: "payOut i actor now d = Inr (p, d') \<Longrightarrow> ledger_inv d \<Longrightarrow> ledger_inv d'"
proof (erule payOut_effect)
  fix r d1
  assume "ledger_inv d" "db_lines d1 = db_lines d" "db_transfers d1 = db_transfers d" "db_next d1 = Suc (db_next d)"
    and d': "d' = settleEndedStay (rf_folio r) (jw_sub actor) now d1"
  then have "ledger_inv d1" by (auto intro: ledger_inv_cong)
  then show "ledger_inv d'" unfolding d' using settleEnded_effect(1) by (rule ledger_inv_only(1)[rotated])
qed

lemma writes_ledger:
  "postCharge D tzo f amount ct sd a now d = Inr (l, d') \<Longrightarrow> ledger_inv d \<Longrightarrow> ledger_inv d'"
  "postRoomChargeForDate D r folio date a' d = Inr (l', d') \<Longrightarrow> ledger_inv d \<Longrightarrow> ledger_inv d'"
  "backfillRoomCharges D r folio today a' d = Inr (n, d') \<Longrightarrow> ledger_inv d \<Longrightarrow> ledger_inv d'"
proof -
  have k: "ledger_inv d'" if "lines_only d d'" "book_ok d \<Longrightarrow> book_ok d'" "ledger_inv d"
    by (rule ledger_inv_only(4)[OF that(1) that(2) that(3)]) (use that(3) in \<open>simp add: ledger_inv_def\<close>)
  show "postCharge D tzo f amount ct sd a now d = Inr (l, d') \<Longrightarrow> ledger_inv d \<Longrightarrow> ledger_inv d'"
    by (rule k[OF postCharge_lines_only]) (auto elim: postCharge_Inr dest: writeCharge_book_ok)
  show "postRoomChargeForDate D r folio date a' d = Inr (l', d') \<Longrightarrow> ledger_inv d \<Longrightarrow> ledger_inv d'"
    by (rule k[OF postDate_lines_only]) (auto dest: postDate_book_ok)
  show "backfillRoomCharges D r folio today a' d = Inr (n, d') \<Longrightarrow> ledger_inv d \<Longrightarrow> ledger_inv d'"
    by (rule k[OF backfill_lines_only]) (auto dest: backfill_book_ok)
qed

lemma payments_ledger:
  "recordPayment D f pdto purpose a d = Inr (p, d') \<Longrightarrow> ledger_inv d \<Longrightarrow> ledger_inv d'"
  "recordDeposit D rid pdto a now d = Inr (p, d') \<Longrightarrow> ledger_inv d \<Longrightarrow> ledger_inv d'"
  "voidPayment i a now d = Inr (p, d') \<Longrightarrow> ledger_inv d \<Longrightarrow> ledger_inv d'"
proof -
  show "recordPayment D f pdto purpose a d = Inr (p, d') \<Longrightarrow> ledger_inv d \<Longrightarrow> ledger_inv d'"
    by (erule recordPayment_effect) (rule recordPaymentInTx_ledger)
  show "recordDeposit D rid pdto a now d = Inr (p, d') \<Longrightarrow> ledger_inv d \<Longrightarrow> ledger_inv d'"
  proof (erule recordDeposit_effect)
    fix res folio d1
    assume ok: "ledger_inv d" and e: "ensurePrimaryFolio res (Some a) now d = (folio, d1)" and r: "recordPaymentInTx D folio pdto PurposeDeposit a d1 = Inr (p, d')"
    note e = ensurePrimary_effect[OF e]
    have "ledger_inv d1" by (rule ledger_inv_cong[OF e(1) e(13) e(8) ok])
    then show "ledger_inv d'" by (rule recordPaymentInTx_ledger[OF r])
  qed
  show "voidPayment i a now d = Inr (p, d') \<Longrightarrow> ledger_inv d \<Longrightarrow> ledger_inv d'"
    by (erule voidPayment_effect) (rule ledger_inv_cong)
qed

lemma bills_ledger:
  "createAdditionalFolio rid label payer corporate a now d = Inr (x, d') \<Longrightarrow> ledger_inv d \<Longrightarrow> ledger_inv d'"
  "splitFolio f mv a now d = Inr (tr, d') \<Longrightarrow> ledger_inv d \<Longrightarrow> ledger_inv d'" "transferCharges f mv a now d = Inr (tr, d') \<Longrightarrow> ledger_inv d \<Longrightarrow> ledger_inv d'"
  "closeFolio f a now d = Inr d' \<Longrightarrow> ledger_inv d \<Longrightarrow> ledger_inv d'" "reopenFolio f a d = Inr d' \<Longrightarrow> ledger_inv d \<Longrightarrow> ledger_inv d'"
  "settleIfFullyPaid folio a' now d = (b, d') \<Longrightarrow> ledger_inv d \<Longrightarrow> ledger_inv d'"
  unfolding splitFolio_def transferCharges_def
  by (fact ledger_inv_only(1)[OF createFolio_effect(1)] moveCharges_ledger ledger_inv_only(1)[OF closeFolio_effect(1)]
      ledger_inv_only(1)[OF reopenFolio_effect(1)] ledger_inv_only(1)[OF settle_effect(1)])+

lemma drawers_ledger:
  "openShift br odto a now d = Inr (s, d') \<Longrightarrow> ledger_inv d \<Longrightarrow> ledger_inv d'" "closeShift i cdto actor now d = Inr (s, d') \<Longrightarrow> ledger_inv d \<Longrightarrow> ledger_inv d'"
  "addShiftIssue i idto a d = Inr (is, d') \<Longrightarrow> ledger_inv d \<Longrightarrow> ledger_inv d'" "updateShiftIssue i b res a now d = Inr (is, d') \<Longrightarrow> ledger_inv d \<Longrightarrow> ledger_inv d'"
proof -
  show "openShift br odto a now d = Inr (s, d') \<Longrightarrow> ledger_inv d \<Longrightarrow> ledger_inv d'"
    by (erule openShift_effect) (auto intro: ledger_inv_cong)
  show "closeShift i cdto actor now d = Inr (s, d') \<Longrightarrow> ledger_inv d \<Longrightarrow> ledger_inv d'"
    by (erule closeShift_effect) (rule ledger_inv_cong)
  have k: "ledger_inv d'" if "folios_only d (d'\<lparr>db_issues := db_issues d\<rparr>)" "ledger_inv d"
    using that by (intro ledger_inv_cong[of d' d]) (auto simp: folios_only_def)
  show "addShiftIssue i idto a d = Inr (is, d') \<Longrightarrow> ledger_inv d \<Longrightarrow> ledger_inv d'" by (rule k) (rule issue_ops_effect, blast)
  show "updateShiftIssue i b res a now d = Inr (is, d') \<Longrightarrow> ledger_inv d \<Longrightarrow> ledger_inv d'" by (rule k) (rule issue_ops_effect, blast)
qed

lemma refunds_ledger:
  "requestRefund f rdto actor d = Inr (rf, d') \<Longrightarrow> ledger_inv d \<Longrightarrow> ledger_inv d'" "approveRefund i actor d = Inr d' \<Longrightarrow> ledger_inv d \<Longrightarrow> ledger_inv d'"
  "rejectRefund i actor d = Inr d' \<Longrightarrow> ledger_inv d \<Longrightarrow> ledger_inv d'"
proof -
  show "requestRefund f rdto actor d = Inr (rf, d') \<Longrightarrow> ledger_inv d \<Longrightarrow> ledger_inv d'"
    by (auto simp: requestRefund_def res_simps elim!: requestInTx_effect intro: ledger_inv_cong)
  show "approveRefund i actor d = Inr d' \<Longrightarrow> ledger_inv d \<Longrightarrow> ledger_inv d'" by (erule approveRefund_effect) (rule ledger_inv_only(2))
  show "rejectRefund i actor d = Inr d' \<Longrightarrow> ledger_inv d \<Longrightarrow> ledger_inv d'" by (erule rejectRefund_effect) (rule ledger_inv_only(2))
qed

lemmas ledger_steps = writes_ledger payments_ledger correct_ledger bills_ledger reverseTransfer_ledger drawers_ledger refunds_ledger payOut_ledger
  createOrder_ledger voidOrder_ledger menu_ops_effect[THEN ledger_inv_only(3)]

lemma step_ledger: "desk_step D tzo d d' \<Longrightarrow> ledger_inv d \<Longrightarrow> ledger_inv d'"
  by (induction rule: desk_step.induct) (erule (1) ledger_steps)+

interpretation ledger: step_invariant "desk_step D tzo" ledger_inv for D tzo
  by unfold_locales (rule step_ledger)

end
