(* ===== verification/Desk_Drawers.thy ===== *)
theory Desk_Drawers
  imports Desk
begin

text \<open>
  What the drawers promise over any run of the desk: nobody has two open drawers at a branch, and
  a drawer once counted stands. The cash the system expected at the count is still the cash its
  payments, refunds and outlet sales add up to, whatever is done afterwards.
\<close>

section \<open>The invariant\<close>

definition cash_rows :: "db \<Rightarrow> bool" where
  "cash_rows d \<longleftrightarrow> (\<forall>p \<in> set (db_payments d). is_money (pa_amount p) \<and> pa_id p < db_next d) \<and> distinct (map pa_id (db_payments d)) \<and>
     (\<forall>x \<in> set (db_posOrders d). is_money (po_cashAmount x) \<and> order_checks x \<and> po_id x < db_next d) \<and> distinct (map po_id (db_posOrders d))"

definition shift_rows :: "db \<Rightarrow> bool" where
  "shift_rows d \<longleftrightarrow> distinct (map sh_id (db_shifts d)) \<and> (\<forall>s \<in> set (db_shifts d). sh_id s < db_next d \<and> is_money (the_default 0 (sh_openingFloat s)))"

definition one_open_drawer :: "db \<Rightarrow> bool" where
  "one_open_drawer d \<longleftrightarrow> (\<forall>s \<in> set (db_shifts d). \<forall>t \<in> set (db_shifts d).
     sh_closedAt s = None \<and> sh_closedAt t = None \<and> sh_branch s = sh_branch t \<and> sh_agent s = sh_agent t \<longrightarrow> s = t)"

definition counts_stand :: "db \<Rightarrow> bool" where
  "counts_stand d \<longleftrightarrow> (\<forall>s \<in> set (db_shifts d). sh_closedAt s \<noteq> None \<longrightarrow> sh_systemCashTotal s = Some (expectedCash d s))"

definition drawers_inv :: "db \<Rightarrow> bool" where
  "drawers_inv d \<longleftrightarrow> cash_rows d \<and> shift_rows d \<and> one_open_drawer d \<and> counts_stand d"

lemma drawers_invD:
  assumes "drawers_inv d"
  shows "cash_rows d" "shift_rows d" "one_open_drawer d" "counts_stand d"
  using assms by (simp_all add: drawers_inv_def)

section \<open>What a payment or a sale does to a drawer\<close>

text \<open>The cash a payment or an order puts into a drawer.\<close>

definition pay_cash :: "nat \<Rightarrow> payment \<Rightarrow> rat" where
  "pay_cash s p = (if pa_shift p = Some s \<and> pa_method p = Cash \<and> \<not> pa_isVoid p \<and> pa_foreign p = None then pa_amount p else 0)"

definition order_cash :: "nat \<Rightarrow> pos_order \<Rightarrow> rat" where
  "order_cash s x = (if po_shift x = Some s \<and> po_voidedAt x = None then po_cashAmount x else 0)"

lemma cashAgg_sum: "cashAgg d s = sum_list (map (pay_cash s) (db_payments d))"
  unfolding cashAgg_def pay_cash_def by (simp add: sum_list_map_filter')

lemma posCashAgg_sum: "posCashAgg d s = sum_list (map (order_cash s) (db_posOrders d))"
  unfolding posCashAgg_def order_cash_def by (simp add: sum_list_map_filter')

lemma expected_money:
  assumes "cash_rows d" and "is_money (the_default 0 (sh_openingFloat s))"
  shows "is_money (expectedCash d s)"
proof -
  have "is_money (cashAgg d (sh_id s))" unfolding cashAgg_sum
    using assms(1) by (intro is_money_sum_list) (auto simp: pay_cash_def cash_rows_def)
  moreover have "is_money (posCashAgg d (sh_id s))" unfolding posCashAgg_sum
    using assms(1) by (intro is_money_sum_list) (auto simp: order_cash_def cash_rows_def)
  ultimately show ?thesis using assms(2) by (auto simp: expectedCash_def intro: is_money_add)
qed

lemma shift_unique: "shift_rows d \<Longrightarrow> s \<in> set (db_shifts d) \<Longrightarrow> t \<in> set (db_shifts d) \<Longrightarrow> sh_id s = sh_id t \<Longrightarrow> s = t"
  unfolding shift_rows_def by (metis distinct_map inj_onD)

lemma find_shift: "shift_rows d \<Longrightarrow> s \<in> set (db_shifts d) \<Longrightarrow> List.find (\<lambda>x. sh_id x = sh_id s) (db_shifts d) = Some s"
  unfolding shift_rows_def using find_unique[of sh_id "db_shifts d" s "\<lambda>_. True"] by simp

lemma open_not_closed:
  assumes "shift_rows d" and "on_open_shift d i" and "s \<in> set (db_shifts d)" and "sh_closedAt s \<noteq> None"
  shows "i \<noteq> Some (sh_id s)"
proof
  assume "i = Some (sh_id s)"
  with assms(2) obtain x where "x \<in> set (db_shifts d)" "sh_id x = sh_id s" "sh_closedAt x = None" by (auto simp: on_open_shift_def)
  with shift_unique[OF assms(1) this(1) assms(3)] assms(4) show False by simp
qed

text \<open>The rule every step uses: the drawers are the same rows, and the closed ones hold the same cash.\<close>

lemma drawers_keep:
  assumes "drawers_inv d" and "db_shifts d' = db_shifts d" and "db_next d \<le> db_next d'" and "cash_rows d'"
    and "\<And>s. s \<in> set (db_shifts d) \<Longrightarrow> sh_closedAt s \<noteq> None \<Longrightarrow> cashAgg d' (sh_id s) = cashAgg d (sh_id s)"
    and "\<And>s. s \<in> set (db_shifts d) \<Longrightarrow> sh_closedAt s \<noteq> None \<Longrightarrow> posCashAgg d' (sh_id s) = posCashAgg d (sh_id s)"
  shows "drawers_inv d'"
proof -
  have "shift_rows d'" using assms(1-3) by (auto simp: drawers_inv_def shift_rows_def intro: less_le_trans)
  moreover have "counts_stand d'" using assms(1,2,5,6) by (simp add: drawers_inv_def counts_stand_def expectedCash_def)
  ultimately show ?thesis using assms(1,2,4) by (simp add: drawers_inv_def one_open_drawer_def)
qed

lemma cash_rows_cong:
  "db_payments d' = db_payments d \<Longrightarrow> db_posOrders d' = db_posOrders d \<Longrightarrow> db_next d \<le> db_next d' \<Longrightarrow> cash_rows d \<Longrightarrow> cash_rows d'"
  by (auto simp: cash_rows_def intro: less_le_trans)

lemma drawers_same:
  assumes "db_shifts d' = db_shifts d" and "db_payments d' = db_payments d" and "db_posOrders d' = db_posOrders d" and "db_next d \<le> db_next d'"
    and "drawers_inv d"
  shows "drawers_inv d'"
  using assms by (intro drawers_keep[OF assms(5,1,4) cash_rows_cong]) (auto simp: cashAgg_def posCashAgg_def drawers_inv_def)

lemma drawers_only:
  "folios_only d d' \<Longrightarrow> drawers_inv d \<Longrightarrow> drawers_inv d'" "refunds_only d d' \<Longrightarrow> drawers_inv d \<Longrightarrow> drawers_inv d'"
  "menu_only d d' \<Longrightarrow> drawers_inv d \<Longrightarrow> drawers_inv d'" "lines_only d d' \<Longrightarrow> drawers_inv d \<Longrightarrow> drawers_inv d'"
  by (auto simp: folios_only_def refunds_only_def menu_only_def lines_only_def intro: drawers_same)

lemma drawers_payment:
  assumes "drawers_inv d" and "db_payments d' = db_payments d @ [p]" and "db_shifts d' = db_shifts d" and "db_posOrders d' = db_posOrders d"
    and "db_next d' = Suc (db_next d)" and "pa_id p = db_next d" and "is_money (pa_amount p)" and "on_open_shift d (pa_shift p)"
  shows "drawers_inv d'"
proof (rule drawers_keep[OF assms(1,3)])
  note ok = drawers_invD[OF assms(1)]
  show "cash_rows d'" using ok(1) assms(2,4,5,6,7) by (auto simp: cash_rows_def)
  fix s assume s: "s \<in> set (db_shifts d)" "sh_closedAt s \<noteq> None"
  have "pay_cash (sh_id s) p = 0" using open_not_closed[OF ok(2) assms(8) s] by (simp add: pay_cash_def)
  then show "cashAgg d' (sh_id s) = cashAgg d (sh_id s)" by (simp add: cashAgg_sum assms(2))
  show "posCashAgg d' (sh_id s) = posCashAgg d (sh_id s)" by (simp add: posCashAgg_def assms(4))
qed (simp add: assms(5))

lemma recordPaymentInTx_drawers:
  assumes "recordPaymentInTx D folio dto pu a d = Inr (p, d')" and "drawers_inv d"
  shows "drawers_inv d'"
  using assms(1) by (rule recordPaymentInTx_effect) (rule drawers_payment[OF assms(2)], auto)

lemma drawers_order:
  assumes "drawers_inv d" and "db_posOrders d' = db_posOrders d @ [x]" and "db_shifts d' = db_shifts d" and "db_payments d' = db_payments d"
    and "po_id x < db_next d'" and "db_next d \<le> po_id x" and "is_money (po_cashAmount x)" and "order_checks x" and "on_open_shift d (po_shift x)"
  shows "drawers_inv d'"
proof (rule drawers_keep[OF assms(1,3)])
  note ok = drawers_invD[OF assms(1)]
  show n: "db_next d \<le> db_next d'" using assms(5,6) by simp
  show "cash_rows d'" using ok(1) assms(2,4-8) n unfolding cash_rows_def by (auto intro: less_le_trans)
  fix s assume s: "s \<in> set (db_shifts d)" "sh_closedAt s \<noteq> None"
  have "order_cash (sh_id s) x = 0" using open_not_closed[OF ok(2) assms(9) s] by (simp add: order_cash_def)
  then show "posCashAgg d' (sh_id s) = posCashAgg d (sh_id s)" by (simp add: posCashAgg_sum assms(2))
  show "cashAgg d' (sh_id s) = cashAgg d (sh_id s)" by (simp add: cashAgg_def assms(4))
qed

lemma order_checks_void [simp]: "order_checks (x\<lparr>po_voidedAt := t, po_voidedBy := u\<rparr>) = order_checks x"
  by (simp add: order_checks_def)

text \<open>Voiding outlet sales: those it voids had no cash, or went into a drawer that is still open.\<close>

lemma drawers_void_orders:
  assumes "drawers_inv d" and "db_posOrders d' = map (\<lambda>x. if P x then x\<lparr>po_voidedAt := Some t, po_voidedBy := u\<rparr> else x) (db_posOrders d)"
    and "db_shifts d' = db_shifts d" and "db_payments d' = db_payments d" and "db_next d \<le> db_next d'"
    and "\<And>x. x \<in> set (db_posOrders d) \<Longrightarrow> P x \<Longrightarrow> po_cashAmount x = 0 \<or> (\<forall>s \<in> set (db_shifts d). sh_closedAt s \<noteq> None \<longrightarrow> po_shift x \<noteq> Some (sh_id s))"
  shows "drawers_inv d'"
proof (rule drawers_keep[OF assms(1,3,5)])
  let ?g = "\<lambda>x. if P x then x\<lparr>po_voidedAt := Some t, po_voidedBy := u\<rparr> else x"
  note ok = drawers_invD[OF assms(1)]
  have "map po_id (db_posOrders d') = map po_id (db_posOrders d)" unfolding assms(2) by simp
  then have "distinct (map po_id (db_posOrders d'))" using ok(1) unfolding cash_rows_def by metis
  then show "cash_rows d'" using ok(1) assms(4,5) unfolding cash_rows_def assms(2) by (auto intro: less_le_trans)
  fix s assume s: "s \<in> set (db_shifts d)" "sh_closedAt s \<noteq> None"
  have "order_cash (sh_id s) (?g x) = order_cash (sh_id s) x" if "x \<in> set (db_posOrders d)" for x
    using assms(6)[OF that] s by (cases "P x") (auto simp: order_cash_def)
  then show "posCashAgg d' (sh_id s) = posCashAgg d (sh_id s)" unfolding posCashAgg_sum assms(2) map_map by (intro arg_cong[of _ _ sum_list] map_cong) simp_all
  show "cashAgg d' (sh_id s) = cashAgg d (sh_id s)" by (simp add: cashAgg_def assms(4))
qed

section \<open>Every step keeps it\<close>

lemma voidPayment_drawers:
  assumes "voidPayment i a now d = Inr (v, d')" and "drawers_inv d"
  shows "drawers_inv d'"
  using assms(1)
proof (rule voidPayment_effect)
  fix pay folio
  assume pay: "pay \<in> set (db_payments d)" "pa_id pay = i"
    and sh: "\<And>s x. pa_shift pay = Some s \<Longrightarrow> List.find (\<lambda>x. sh_id x = s) (db_shifts d) = Some x \<Longrightarrow> sh_closedAt x = None"
    and e: "db_payments d' = void_rows i a (db_payments d)" "db_shifts d' = db_shifts d" "db_posOrders d' = db_posOrders d" "db_next d \<le> db_next d'"
  note ok = drawers_invD[OF assms(2)]
  have uniq: "p = pay" if "p \<in> set (db_payments d)" "pa_id p = i" for p
    using ok(1) pay that unfolding cash_rows_def by (metis distinct_map inj_onD)
  let ?v = "\<lambda>p. if pa_id p = i then p\<lparr>pa_isVoid := True, pa_voidedBy := Some a\<rparr> else p"
  show "drawers_inv d'"
  proof (rule drawers_keep[OF assms(2) e(2,4)])
    have "map pa_id (map ?v (db_payments d)) = map pa_id (db_payments d)" by simp
    then have "distinct (map pa_id (db_payments d'))" using ok(1) unfolding e(1) void_rows_def cash_rows_def by metis
    then show "cash_rows d'" using ok(1) e(3,4) unfolding cash_rows_def e(1) void_rows_def by (auto intro: less_le_trans)
    fix s assume s: "s \<in> set (db_shifts d)" "sh_closedAt s \<noteq> None"
    have "pa_shift pay \<noteq> Some (sh_id s)" using sh[OF _ find_shift[OF ok(2) s(1)]] s(2) by auto
    then have "pay_cash (sh_id s) (?v p) = pay_cash (sh_id s) p" if "p \<in> set (db_payments d)" for p
      using uniq[OF that] by (auto simp: pay_cash_def)
    then show "cashAgg d' (sh_id s) = cashAgg d (sh_id s)"
      unfolding cashAgg_sum e(1) void_rows_def map_map by (intro arg_cong[of _ _ sum_list] map_cong) simp_all
    show "posCashAgg d' (sh_id s) = posCashAgg d (sh_id s)" by (simp add: posCashAgg_def e(3))
  qed
qed

lemma cash_zero_of_line: "order_checks x \<Longrightarrow> po_lineItem x \<noteq> None \<Longrightarrow> po_cashAmount x = 0"
  by (auto simp: order_checks_def split: if_splits)

lemma correct_drawers:
  assumes "correctLineItem i a now d = Inr (c, d')" and "drawers_inv d"
  shows "drawers_inv d'"
  using assms(1)
proof (rule correctLineItem_effect)
  assume e: "db_posOrders d' = map (\<lambda>o'. if po_lineItem o' = Some i \<and> po_voidedAt o' = None then o'\<lparr>po_voidedAt := Some now, po_voidedBy := Some a\<rparr> else o') (db_posOrders d)"
    "db_shifts d' = db_shifts d" "db_payments d' = db_payments d" "db_next d \<le> db_next d'"
  show "drawers_inv d'"
  proof (rule drawers_void_orders[OF assms(2) e])
    fix x assume "x \<in> set (db_posOrders d)" "po_lineItem x = Some i \<and> po_voidedAt x = None"
    then have "order_checks x" "po_lineItem x \<noteq> None" using drawers_invD(1)[OF assms(2)] by (simp_all add: cash_rows_def)
    then show "po_cashAmount x = 0 \<or> (\<forall>s \<in> set (db_shifts d). sh_closedAt s \<noteq> None \<longrightarrow> po_shift x \<noteq> Some (sh_id s))"
      using cash_zero_of_line by blast
  qed
qed

lemma voidOrder_drawers:
  assumes "voidOrder i reason actor now d = Inr (c, d')" and "drawers_inv d"
  shows "drawers_inv d'"
  using assms(1)
proof (rule voidOrder_Inr)
  fix ord d1 d2
  assume ord: "ord \<in> set (db_posOrders d)" "po_id ord = i"
    and sh: "\<And>s x. 0 < po_cashAmount ord \<Longrightarrow> po_shift ord = Some s \<Longrightarrow> List.find (\<lambda>x. sh_id x = s) (db_shifts d) = Some x \<Longrightarrow> sh_closedAt x = None"
    and c: "claim_void i (jw_sub actor) now d = Inr d1"
    and k: "c = None \<and> d2 = d1 \<and> (po_lineItem ord = None \<or> (\<exists>l. po_lineItem ord = Some l \<and> corrected d1 l)) \<or>
         (\<exists>l k. po_lineItem ord = Some l \<and> c = Some k \<and> correctLineItem l (jw_sub actor) now d1 = Inr (k, d2))"
    and d': "d' = audit (po_branch ord) (Some (jw_sub actor)) ''pos_order.voided'' i d2"
  note ok = drawers_invD[OF assms(2)] and d1 = claim_void_Inr[OF c]
  have "drawers_inv d1"
  proof (rule drawers_void_orders[OF assms(2), where P = "\<lambda>x. po_id x = i \<and> po_voidedAt x = None" and t = now and u = "Some (jw_sub actor)"])
    fix x assume x: "x \<in> set (db_posOrders d)" "po_id x = i \<and> po_voidedAt x = None"
    have "x = ord" using ok(1) ord x unfolding cash_rows_def by (metis distinct_map inj_onD)
    moreover have "0 \<le> po_cashAmount ord" using ok(1) ord(1) by (auto simp: cash_rows_def order_checks_def)
    moreover have "po_shift ord \<noteq> Some (sh_id s)" if "0 < po_cashAmount ord" "s \<in> set (db_shifts d)" "sh_closedAt s \<noteq> None" for s
      using sh[OF that(1) _ find_shift[OF ok(2) that(2)]] that(3) by auto
    ultimately show "po_cashAmount x = 0 \<or> (\<forall>s \<in> set (db_shifts d). sh_closedAt s \<noteq> None \<longrightarrow> po_shift x \<noteq> Some (sh_id s))"
      by (cases "po_cashAmount ord = 0") auto
  qed (simp_all add: d1)
  then have "drawers_inv d2" using k by (auto intro: correct_drawers)
  then show "drawers_inv d'" unfolding d' by (rule drawers_same[rotated 4]) simp_all
qed

lemma payOut_drawers:
  assumes "payOut i actor now d = Inr (p, d')" and "drawers_inv d"
  shows "drawers_inv d'"
  using assms(1)
proof (rule payOut_effect)
  fix r d1
  assume e: "db_payments d1 = db_payments d @ [p]" "db_shifts d1 = db_shifts d" "db_posOrders d1 = db_posOrders d" "db_next d1 = Suc (db_next d)"
    "pa_id p = db_next d" and am: "pa_amount p = num2 (- rf_amount r)" and sh: "on_open_shift d (pa_shift p)"
    and d': "d' = settleEndedStay (rf_folio r) (jw_sub actor) now d1"
  have "drawers_inv d1" by (rule drawers_payment[OF assms(2) e _ sh]) (simp add: am)
  then show "drawers_inv d'" unfolding d' using settleEnded_effect(1) by (rule drawers_only(1)[rotated])
qed

lemma createOrder_drawers:
  assumes "createOrder D tzo dto actor now d = Inr (ord, d')" and "drawers_inv d"
  shows "drawers_inv d'"
  using assms(1)
proof (rule createOrder_Inr)
  fix outlet branch lines discount priced reason net tax room sid d1 cash byCard d2
  assume se: "settleOrder D tzo dto outlet branch priced (jw_sub actor) now d = Inr (net, tax, room, sid, d1)"
    and i: "insert_order (new_order dto outlet (nextOrderNo d (ou_id outlet)) lines discount reason net tax room sid cash byCard (jw_sub actor) now) d1 = Inr (ord, d2)"
    and d': "d' = audit (ou_branch outlet) (Some (jw_sub actor)) ''pos_order.created'' (po_id ord) d2"
  note row = insert_order_Inr[OF i]
  have 1: "drawers_inv d1 \<and> on_open_shift d1 sid"
    using se
  proof (cases rule: settleOrder_Inr)
    case (room res folio d0 l)
    note e = ensurePrimary_effect[OF room(4)]
    have "drawers_inv d0" using e assms(2) by (intro drawers_same[of d0 d]) simp_all
    moreover have "lines_only d0 d1" using room(6) unfolding postOutletCharge_def by (rule writeCharge_lines_only)
    ultimately show ?thesis using room(10) by (auto simp: on_open_shift_def intro: drawers_only(4))
  qed (use assms(2) in simp)
  have "drawers_inv d2"
  proof (rule drawers_order[OF conjunct1[OF 1]])
    show "on_open_shift d1 (po_shift ord)" using 1 by (simp add: row(1) new_order_def)
    show "is_money (po_cashAmount ord)" by (simp add: row(1))
    show "po_id ord < db_next d2" "db_next d1 \<le> po_id ord" "db_posOrders d2 = db_posOrders d1 @ [ord]" "db_shifts d2 = db_shifts d1" "db_payments d2 = db_payments d1"
      unfolding row(2) by (simp_all add: row(1))
  qed (rule row(3))
  then show "drawers_inv d'" unfolding d' by (rule drawers_same[rotated 4]) simp_all
qed

lemma openShift_drawers:
  assumes "openShift b dto a now d = Inr (s, d')" and "drawers_inv d"
  shows "drawers_inv d'"
  using assms(1)
proof (rule openShift_effect)
  assume none: "openShiftOf d b a = None" and s: "s = new_shift (db_next d) b dto a now"
    and d': "d' = audit b (Some a) ''shift.opened'' (db_next d) (d\<lparr>db_shifts := db_shifts d @ [s], db_next := Suc (db_next d)\<rparr>)"
  note ok = drawers_invD[OF assms(2)]
  have sel: "sh_id s = db_next d" "sh_branch s = b" "sh_agent s = a" "sh_closedAt s = None" "is_money (the_default 0 (sh_openingFloat s))" by (simp_all add: s new_shift_def)
  have noopen: "\<not> (sh_branch t = b \<and> sh_agent t = a \<and> sh_closedAt t = None)" if "t \<in> set (db_shifts d)" for t
    using none that by (auto simp: openShiftOf_def find_None_ex)
  have "cash_rows d'" by (rule cash_rows_cong[OF _ _ _ ok(1)]) (simp_all add: d')
  moreover have "shift_rows d'" using ok(2) sel unfolding shift_rows_def d' by (auto simp: image_iff)
  moreover have "one_open_drawer d'" unfolding one_open_drawer_def
  proof (intro ballI impI)
    fix x y assume m: "x \<in> set (db_shifts d')" "y \<in> set (db_shifts d')"
      and h: "sh_closedAt x = None \<and> sh_closedAt y = None \<and> sh_branch x = sh_branch y \<and> sh_agent x = sh_agent y"
    from m consider "x = s" "y = s" | "x \<in> set (db_shifts d)" "y = s" | "x = s" "y \<in> set (db_shifts d)" | "x \<in> set (db_shifts d)" "y \<in> set (db_shifts d)"
      unfolding d' by (simp add: disj_commute) blast
    then show "x = y"
    proof cases
      case 2
      then show ?thesis using noopen[of x] h sel by simp
    next
      case 3
      then show ?thesis using noopen[of y] h sel by simp
    next
      case 4
      then show ?thesis using ok(3) h unfolding one_open_drawer_def by blast
    qed simp
  qed
  moreover have "counts_stand d'" using ok(4) sel unfolding counts_stand_def d' by (auto simp: expectedCash_def cashAgg_def posCashAgg_def)
  ultimately show "drawers_inv d'" by (simp add: drawers_inv_def)
qed

lemma closed_shift_sel [simp]:
  "sh_id (closed_shift d dto now s) = sh_id s" "sh_branch (closed_shift d dto now s) = sh_branch s" "sh_agent (closed_shift d dto now s) = sh_agent s"
  "sh_openingFloat (closed_shift d dto now s) = sh_openingFloat s" "sh_closedAt (closed_shift d dto now s) = Some now"
  "sh_systemCashTotal (closed_shift d dto now s) = Some (num2 (expectedCash d s))"
  by (simp_all add: closed_shift_def)

lemma closeShift_drawers:
  assumes "closeShift i dto actor now d = Inr (c, d')" and "drawers_inv d"
  shows "drawers_inv d'"
  using assms(1)
proof (rule closeShift_effect)
  assume e: "db_shifts d' = map (\<lambda>s. if sh_id s = i then closed_shift d dto now s else s) (db_shifts d)" "db_payments d' = db_payments d"
    "db_posOrders d' = db_posOrders d" "db_next d \<le> db_next d'"
  note ok = drawers_invD[OF assms(2)]
  let ?g = "\<lambda>s. if sh_id s = i then closed_shift d dto now s else s"
  have ex: "expectedCash d' (?g s) = expectedCash d s" for s by (simp add: expectedCash_def cashAgg_def posCashAgg_def e(2,3))
  have mo: "num2 (expectedCash d s) = expectedCash d s" if "s \<in> set (db_shifts d)" for s
    using ok(2) that by (intro num2_money expected_money[OF ok(1)]) (simp add: shift_rows_def)
  have "map sh_id (db_shifts d') = map sh_id (db_shifts d)" unfolding e(1) by simp
  then have "distinct (map sh_id (db_shifts d'))" using ok(2) unfolding shift_rows_def by metis
  then have "shift_rows d'" using ok(2) e(4) unfolding shift_rows_def e(1) by (auto intro: less_le_trans)
  moreover have "counts_stand d'" unfolding counts_stand_def
  proof (intro ballI impI)
    fix x assume "x \<in> set (db_shifts d')" and c: "sh_closedAt x \<noteq> None"
    then obtain s where s: "s \<in> set (db_shifts d)" "x = ?g s" unfolding e(1) by auto
    show "sh_systemCashTotal x = Some (expectedCash d' x)"
      using s ex[of s] mo[OF s(1)] c ok(4) by (cases "sh_id s = i") (simp_all add: counts_stand_def)
  qed
  moreover have "one_open_drawer d'" unfolding one_open_drawer_def
  proof (intro ballI impI)
    fix x y assume m: "x \<in> set (db_shifts d')" "y \<in> set (db_shifts d')"
      and h: "sh_closedAt x = None \<and> sh_closedAt y = None \<and> sh_branch x = sh_branch y \<and> sh_agent x = sh_agent y"
    then have "x \<in> set (db_shifts d)" "y \<in> set (db_shifts d)" unfolding e(1) by (auto split: if_splits)
    then show "x = y" using ok(3) h unfolding one_open_drawer_def by blast
  qed
  ultimately show "drawers_inv d'" using cash_rows_cong[OF e(2,3,4) ok(1)] by (simp add: drawers_inv_def)
qed

lemma payments_drawers:
  "recordPayment D f pdto purpose a d = Inr (p, d') \<Longrightarrow> drawers_inv d \<Longrightarrow> drawers_inv d'"
  "recordDeposit D rid pdto a now d = Inr (p, d') \<Longrightarrow> drawers_inv d \<Longrightarrow> drawers_inv d'"
proof -
  show "recordPayment D f pdto purpose a d = Inr (p, d') \<Longrightarrow> drawers_inv d \<Longrightarrow> drawers_inv d'"
    by (erule recordPayment_effect) (rule recordPaymentInTx_drawers)
  show "recordDeposit D rid pdto a now d = Inr (p, d') \<Longrightarrow> drawers_inv d \<Longrightarrow> drawers_inv d'"
  proof (erule recordDeposit_effect)
    fix res folio d1
    assume ok: "drawers_inv d" and e: "ensurePrimaryFolio res (Some a) now d = (folio, d1)" and r: "recordPaymentInTx D folio pdto PurposeDeposit a d1 = Inr (p, d')"
    note e = ensurePrimary_effect[OF e]
    have "drawers_inv d1" by (rule drawers_same[OF e(3) e(2) e(4) e(8) ok])
    then show "drawers_inv d'" by (rule recordPaymentInTx_drawers[OF r])
  qed
qed

lemma bills_drawers:
  "book_ok d \<Longrightarrow> splitFolio f mv a now d = Inr (tr, d') \<Longrightarrow> drawers_inv d \<Longrightarrow> drawers_inv d'"
  "book_ok d \<Longrightarrow> transferCharges f mv a now d = Inr (tr, d') \<Longrightarrow> drawers_inv d \<Longrightarrow> drawers_inv d'"
  "book_ok d \<Longrightarrow> reverseTransfer i a now d = Inr (tr, d') \<Longrightarrow> drawers_inv d \<Longrightarrow> drawers_inv d'"
proof -
  have k: "drawers_inv d'" if m: "moved_by M src tgt d d'" and ok: "drawers_inv d" for M src tgt
  proof (rule drawers_keep[OF ok])
    note okD = drawers_invD[OF ok]
    let ?g = "\<lambda>o'. case po_lineItem o' of Some l \<Rightarrow> if l \<in> M then o'\<lparr>po_folio := Some tgt\<rparr> else o' | None \<Rightarrow> o'"
    have e: "db_shifts d' = db_shifts d" "db_payments d' = db_payments d" "db_next d \<le> db_next d'" "db_posOrders d' = map ?g (db_posOrders d)"
      using m by (simp_all add: moved_by_def move_lines_def)
    show "db_shifts d' = db_shifts d" "db_next d \<le> db_next d'" by (rule e)+
    have g: "po_id (?g x) = po_id x" "po_cashAmount (?g x) = po_cashAmount x" "order_checks x \<Longrightarrow> order_checks (?g x)" "order_cash s (?g x) = order_cash s x" for x s
      by (auto simp: order_checks_def order_cash_def split: option.splits if_splits)
    have "map po_id (db_posOrders d') = map po_id (db_posOrders d)" unfolding e(4) map_map comp_def g ..
    then have "distinct (map po_id (db_posOrders d'))" using okD(1) unfolding cash_rows_def by metis
    then show "cash_rows d'" using okD(1) e(3) g(1-3) unfolding cash_rows_def e(2,4) by (auto simp del: option.case_distrib split del: option.splits intro: less_le_trans)
    show "cashAgg d' (sh_id s) = cashAgg d (sh_id s)" for s by (simp add: cashAgg_def e(2))
    show "posCashAgg d' (sh_id s) = posCashAgg d (sh_id s)" for s unfolding posCashAgg_sum e(4) map_map comp_def g ..
  qed
  show "book_ok d \<Longrightarrow> splitFolio f mv a now d = Inr (tr, d') \<Longrightarrow> drawers_inv d \<Longrightarrow> drawers_inv d'"
    unfolding splitFolio_def by (rule k[OF moveCharges_effect])
  show "book_ok d \<Longrightarrow> transferCharges f mv a now d = Inr (tr, d') \<Longrightarrow> drawers_inv d \<Longrightarrow> drawers_inv d'"
    unfolding transferCharges_def by (rule k[OF moveCharges_effect])
  show "book_ok d \<Longrightarrow> reverseTransfer i a now d = Inr (tr, d') \<Longrightarrow> drawers_inv d \<Longrightarrow> drawers_inv d'"
    using reverseTransfer_effect k by blast
qed

lemma issues_drawers:
  "addShiftIssue i idto a d = Inr (is, d') \<Longrightarrow> drawers_inv d \<Longrightarrow> drawers_inv d'" "updateShiftIssue i b res a now d = Inr (is, d') \<Longrightarrow> drawers_inv d \<Longrightarrow> drawers_inv d'"
proof -
  have k: "drawers_inv d'" if "folios_only d (d'\<lparr>db_issues := db_issues d\<rparr>)" "drawers_inv d"
    using that by (intro drawers_same[of d' d]) (auto simp: folios_only_def)
  show "addShiftIssue i idto a d = Inr (is, d') \<Longrightarrow> drawers_inv d \<Longrightarrow> drawers_inv d'" by (rule k) (rule issue_ops_effect, blast)
  show "updateShiftIssue i b res a now d = Inr (is, d') \<Longrightarrow> drawers_inv d \<Longrightarrow> drawers_inv d'" by (rule k) (rule issue_ops_effect, blast)
qed

lemma refund_requests_drawers:
  "requestRefund f rdto actor d = Inr (rf, d') \<Longrightarrow> drawers_inv d \<Longrightarrow> drawers_inv d'" "approveRefund i actor d = Inr d' \<Longrightarrow> drawers_inv d \<Longrightarrow> drawers_inv d'"
  "rejectRefund i actor d = Inr d' \<Longrightarrow> drawers_inv d \<Longrightarrow> drawers_inv d'"
proof -
  show "requestRefund f rdto actor d = Inr (rf, d') \<Longrightarrow> drawers_inv d \<Longrightarrow> drawers_inv d'"
    by (auto simp: requestRefund_def res_simps elim!: requestInTx_effect intro: drawers_same)
  show "approveRefund i actor d = Inr d' \<Longrightarrow> drawers_inv d \<Longrightarrow> drawers_inv d'" by (erule approveRefund_effect) (rule drawers_only(2))
  show "rejectRefund i actor d = Inr d' \<Longrightarrow> drawers_inv d \<Longrightarrow> drawers_inv d'" by (erule rejectRefund_effect) (rule drawers_only(2))
qed

lemmas drawer_steps = postCharge_lines_only[THEN drawers_only(4)] postDate_lines_only[THEN drawers_only(4)] backfill_lines_only[THEN drawers_only(4)]
  payments_drawers voidPayment_drawers correct_drawers createFolio_effect(1)[THEN drawers_only(1)] closeFolio_effect(1)[THEN drawers_only(1)]
  reopenFolio_effect(1)[THEN drawers_only(1)] settle_effect(1)[THEN drawers_only(1)] openShift_drawers closeShift_drawers issues_drawers
  refund_requests_drawers payOut_drawers createOrder_drawers voidOrder_drawers menu_ops_effect[THEN drawers_only(3)]

lemma step_drawers: "desk_step D tzo d d' \<Longrightarrow> book_ok d \<Longrightarrow> drawers_inv d \<Longrightarrow> drawers_inv d'"
  by (induction rule: desk_step.induct) ((erule (1) drawer_steps) | (erule (2) bills_drawers[rotated]))+

interpretation drawers: step_invariant "desk_step D tzo" "\<lambda>d. ledger_inv d \<and> drawers_inv d" for D tzo
  by unfold_locales (blast intro: step_ledger step_drawers ledger_book)

text \<open>A drawer that is opened, takes a cash payment and a cash sale, and is counted.\<close>

definition desk_manager :: jwt where
  "desk_manager = \<lparr>jw_sub = 7, jw_tenant = 1, jw_roles = [\<lparr>ra_branch = None, ra_role = ''manager''\<rparr>], jw_apiKey = None\<rparr>"

definition cash_100 :: payment_dto where
  "cash_100 = \<lparr>pd_amount = 100, pd_method = Cash, pd_currency = None\<rparr>"

definition count_100 :: close_shift_dto where
  "count_100 = \<lparr>cs_counted = 100, cs_explanation = None, cs_handoverNotes = None, cs_issues = []\<rparr>"

lemma desk_db_ledger: "ledger_inv desk_db"
  using desk_db_book_ok by (simp add: ledger_inv_def transfers_ok_def desk_db_def)

lemma desk_db_drawers: "drawers_inv desk_db"
  by (simp add: drawers_inv_def cash_rows_def shift_rows_def one_open_drawer_def counts_stand_def desk_db_def)

text \<open>
  C37. A counted drawer stands. Over any run of the desk, in any order and by anyone: nobody has
  two open drawers at one branch, and for every closed drawer the cash the system recorded at
  the count is what its float, its cash payments, the refunds paid out of it and the outlets'
  cash sales into it still come to, however many payments, voids, corrections, refunds and
  sales were made since.
\<close>

theorem counted_drawer_stands:
  assumes "(desk_step D tzo)\<^sup>*\<^sup>* d d'" and "ledger_inv d" and "drawers_inv d"
  shows "(\<forall>s \<in> set (db_shifts d'). sh_closedAt s \<noteq> None \<longrightarrow> sh_systemCashTotal s = Some (expectedCash d' s)) \<and>
    (\<forall>s \<in> set (db_shifts d'). \<forall>t \<in> set (db_shifts d').
       sh_closedAt s = None \<and> sh_closedAt t = None \<and> sh_branch s = sh_branch t \<and> sh_agent s = sh_agent t \<longrightarrow> s = t)"
proof -
  have "ledger_inv d' \<and> drawers_inv d'" by (rule drawers.run_keeps[OF assms(1)]) (use assms(2,3) in blast)
  then show ?thesis by (simp add: drawers_inv_def counts_stand_def one_open_drawer_def)
qed

theorem counted_drawer_stands_witness:
  "\<exists>d'. (desk_step decimal_js desk_tz)\<^sup>*\<^sup>* desk_db d' \<and>
     (\<exists>s \<in> set (db_shifts d'). sh_id s = 70 \<and> sh_closedAt s \<noteq> None \<and> sh_systemCashTotal s = Some (expectedCash d' s))"
proof -
  have "\<not> isl (bindr (recordPayment decimal_js 10 cash_100 None 7 desk_db) (\<lambda>(p, d). closeShift 70 count_100 desk_manager 5 d))" by code_simp
  then obtain c d2 where 2: "bindr (recordPayment decimal_js 10 cash_100 None 7 desk_db) (\<lambda>(p, d). closeShift 70 count_100 desk_manager 5 d) = Inr (c, d2)"
    using Inr_pair by blast
  then obtain p d1 where r: "recordPayment decimal_js 10 cash_100 None 7 desk_db = Inr (p, d1)" and c: "closeShift 70 count_100 desk_manager 5 d1 = Inr (c, d2)"
    by (auto simp: res_simps)
  have run: "(desk_step decimal_js desk_tz)\<^sup>*\<^sup>* desk_db d2" using record_payment[OF r] close_shift[OF c] by (meson r_into_rtranclp rtranclp_trans)
  have "\<exists>s \<in> set (db_shifts d2). sh_id s = 70 \<and> sh_closedAt s \<noteq> None"
    using c
  proof (rule closeShift_effect)
    fix s assume "s \<in> set (db_shifts d1)" "sh_id s = 70"
      "db_shifts d2 = map (\<lambda>s. if sh_id s = 70 then closed_shift d1 count_100 5 s else s) (db_shifts d1)"
    then show ?thesis by (intro bexI[of _ "closed_shift d1 count_100 5 s"]) (auto intro!: image_eqI[of _ _ s])
  qed
  then show ?thesis using run counted_drawer_stands[OF run desk_db_ledger desk_db_drawers] by blast
qed

end
