(* ===== verification/Desk_Orders.thy ===== *)
theory Desk_Orders
  imports Desk_Drawers
begin

text \<open>
  What the outlets' ledger and the guests' bills promise each other over any run of the desk: an
  order charged to a room stays on the bill its charge is on, and it is void exactly when the
  charge has been taken back.
\<close>

section \<open>The invariant\<close>

definition order_follows :: "db \<Rightarrow> pos_order \<Rightarrow> bool" where
  "order_follows d x \<longleftrightarrow> (case po_lineItem x of None \<Rightarrow> True
     | Some l \<Rightarrow> (\<exists>i \<in> set (db_lines d). li_id i = l \<and> po_folio x = Some (li_folio i) \<and> li_chargeType i \<noteq> Tax) \<and> (po_voidedAt x \<noteq> None \<longleftrightarrow> corrected d l))"

definition numbered :: "pos_order list \<Rightarrow> bool" where
  "numbered xs \<longleftrightarrow> distinct (map (\<lambda>x. (po_outlet x, po_orderNo x)) xs) \<and> distinct (filter (\<lambda>l. l \<noteq> None) (map po_lineItem xs))"

definition orders_inv :: "db \<Rightarrow> bool" where
  "orders_inv d \<longleftrightarrow> (\<forall>x \<in> set (db_posOrders d). order_follows d x) \<and> numbered (db_posOrders d) \<and> (\<forall>x \<in> set (db_outlets d). ou_chargeType x \<noteq> Tax)"

lemma orders_invD:
  assumes "orders_inv d"
  shows "\<And>x. x \<in> set (db_posOrders d) \<Longrightarrow> order_follows d x" "numbered (db_posOrders d)" "\<And>x. x \<in> set (db_outlets d) \<Longrightarrow> ou_chargeType x \<noteq> Tax"
  using assms by (simp_all add: orders_inv_def)

section \<open>Steps that leave orders and charges as they are\<close>

lemma corrected_append: "db_lines d' = db_lines d @ rows \<Longrightarrow> corrected d' l \<longleftrightarrow> corrected d l \<or> (\<exists>i \<in> set rows. li_corrects i = Some l)"
  by (auto simp: corrected_def)

lemma follows_lines_only: "lines_only d d' \<Longrightarrow> order_follows d x \<Longrightarrow> order_follows d' x"
proof -
  assume l: "lines_only d d'" and f: "order_follows d x"
  from l obtain rows where r: "db_lines d' = db_lines d @ rows" "\<forall>i \<in> set rows. li_corrects i = None" by (auto simp: lines_only_def)
  then have "corrected d' c = corrected d c" for c by (auto simp: corrected_append[OF r(1)])
  then show ?thesis using f r(1) by (auto simp: order_follows_def split: option.splits)
qed

lemma orders_lines_only: "lines_only d d' \<Longrightarrow> orders_inv d \<Longrightarrow> orders_inv d'"
  using follows_lines_only by (auto simp: orders_inv_def lines_only_def)

lemma follows_cong: "db_lines d' = db_lines d \<Longrightarrow> order_follows d' x = order_follows d x"
  by (cases "po_lineItem x") (simp_all add: order_follows_def corrected_def)

lemma orders_same:
  assumes "db_lines d' = db_lines d" and "db_posOrders d' = db_posOrders d" and "db_outlets d' = db_outlets d" and "orders_inv d"
  shows "orders_inv d'"
  using assms follows_cong[OF assms(1)] by (simp add: orders_inv_def)

lemma orders_only: "folios_only d d' \<Longrightarrow> orders_inv d \<Longrightarrow> orders_inv d'" "refunds_only d d' \<Longrightarrow> orders_inv d \<Longrightarrow> orders_inv d'"
  by (auto simp: folios_only_def refunds_only_def intro: orders_same)

lemma outlets_orders:
  "createOutlet br odto a d = Inr (out, d') \<Longrightarrow> orders_inv d \<Longrightarrow> orders_inv d'" "updateOutlet i opatch actor d = Inr (out, d') \<Longrightarrow> orders_inv d \<Longrightarrow> orders_inv d'"
proof -
  have k: "orders_inv d'" if "menu_only d d'" "orders_inv d" "\<forall>x \<in> set (db_outlets d'). ou_chargeType x \<noteq> Tax"
  proof -
    have "orders_inv (d'\<lparr>db_outlets := db_outlets d\<rparr>)" using that(1,2) by (auto simp: menu_only_def folios_only_def intro: orders_same)
    moreover have "order_follows (d'\<lparr>db_outlets := db_outlets d\<rparr>) x = order_follows d' x" for x by (rule follows_cong) simp
    ultimately show ?thesis using that(3) by (simp add: orders_inv_def)
  qed
  have ct: "OUTLET_CHARGE_TYPES c \<noteq> Tax" for c by (cases c) (simp_all add: OUTLET_CHARGE_TYPES_def)
  show "createOutlet br odto a d = Inr (out, d') \<Longrightarrow> orders_inv d \<Longrightarrow> orders_inv d'"
    by (rule k[OF menu_ops_effect(1)]) (auto simp: createOutlet_def res_simps Let_def orders_inv_def ct)
  show "updateOutlet i opatch actor d = Inr (out, d') \<Longrightarrow> orders_inv d \<Longrightarrow> orders_inv d'"
    by (rule k[OF menu_ops_effect(2)]) (auto simp: updateOutlet_def res_simps Let_def orders_inv_def patched_outlet_def)
qed

lemma items_orders:
  "createMenuItem i mdto actor d = Inr (item, d') \<Longrightarrow> orders_inv d \<Longrightarrow> orders_inv d'" "updateMenuItem i mpatch actor d = Inr (item, d') \<Longrightarrow> orders_inv d \<Longrightarrow> orders_inv d'"
  "setAvailability i b actor d = Inr (item, d') \<Longrightarrow> orders_inv d \<Longrightarrow> orders_inv d'" "deleteMenuItem i actor d = Inr (item, d') \<Longrightarrow> orders_inv d \<Longrightarrow> orders_inv d'"
proof -
  have k: "orders_inv d'" if "menu_only d d'" "db_outlets d' = db_outlets d" "orders_inv d"
    using that by (auto simp: menu_only_def folios_only_def intro: orders_same)
  show "createMenuItem i mdto actor d = Inr (item, d') \<Longrightarrow> orders_inv d \<Longrightarrow> orders_inv d'" by (rule k[OF menu_ops_effect(3) items_keep_outlets(1)])
  show "updateMenuItem i mpatch actor d = Inr (item, d') \<Longrightarrow> orders_inv d \<Longrightarrow> orders_inv d'" by (rule k[OF menu_ops_effect(4) items_keep_outlets(2)])
  show "setAvailability i b actor d = Inr (item, d') \<Longrightarrow> orders_inv d \<Longrightarrow> orders_inv d'" by (rule k[OF menu_ops_effect(5) items_keep_outlets(3)])
  show "deleteMenuItem i actor d = Inr (item, d') \<Longrightarrow> orders_inv d \<Longrightarrow> orders_inv d'" by (rule k[OF menu_ops_effect(6) items_keep_outlets(4)])
qed

text \<open>A step that changes orders in place: their numbers and charges stay.\<close>

lemma orders_map:
  assumes "orders_inv d" and "db_outlets d' = db_outlets d" and "db_posOrders d' = map g (db_posOrders d)"
    and "\<And>x. x \<in> set (db_posOrders d) \<Longrightarrow> order_follows d' (g x)"
    and "\<And>x. po_outlet (g x) = po_outlet x \<and> po_orderNo (g x) = po_orderNo x \<and> po_lineItem (g x) = po_lineItem x"
  shows "orders_inv d'"
proof -
  have "map (\<lambda>x. (po_outlet x, po_orderNo x)) (db_posOrders d') = map (\<lambda>x. (po_outlet x, po_orderNo x)) (db_posOrders d)"
    "map po_lineItem (db_posOrders d') = map po_lineItem (db_posOrders d)" by (simp_all add: assms(3,5))
  then have "numbered (db_posOrders d')" using orders_invD(2)[OF assms(1)] unfolding numbered_def by simp
  moreover have "\<forall>x \<in> set (db_posOrders d'). order_follows d' x" using assms(4) unfolding assms(3) by auto
  ultimately show ?thesis using orders_invD(3)[OF assms(1)] by (simp add: orders_inv_def assms(2))
qed

section \<open>Corrections and moves\<close>

text \<open>Taking one charge back, with its taxes, and voiding the order it came from.\<close>

lemma taken_back_orders:
  assumes "book_ok d" and "orders_inv d" and "\<not> corrected d i" and "db_lines d' = db_lines d @ new" and "db_outlets d' = db_outlets d"
    and new: "\<forall>x \<in> set new. li_corrects x = Some i \<or> (\<exists>t \<in> set (taxesToReverse d original). li_corrects x = Some (li_id t))"
    and one: "\<exists>x \<in> set new. li_corrects x = Some i"
    and p: "db_posOrders d' = map (\<lambda>x. if po_lineItem x = Some i \<and> po_voidedAt x = None then x\<lparr>po_voidedAt := Some now, po_voidedBy := Some a\<rparr> else x) (db_posOrders d)"
  shows "orders_inv d'"
proof (rule orders_map[OF assms(2,5) p])
  let ?g = "\<lambda>x. if po_lineItem x = Some i \<and> po_voidedAt x = None then x\<lparr>po_voidedAt := Some now, po_voidedBy := Some a\<rparr> else x"
  note led = book_okD(1)[OF assms(1)] and inv = orders_invD[OF assms(2)]
  have cor: "corrected d' k \<longleftrightarrow> corrected d k \<or> k = i" if k: "j \<in> set (db_lines d)" "li_id j = k" "li_chargeType j \<noteq> Tax" for j k
  proof -
    have tx: "li_id t \<noteq> k" if t: "t \<in> set (taxesToReverse d original)" for t
    proof
      assume "li_id t = k"
      then have "t = j" using k(2) by (intro line_unique[OF led conjunct1[OF taxesToReverse_sub[OF t]] k(1)]) simp
      then show False using t k(3) by (auto simp: taxesToReverse_def split: if_splits)
    qed
    have "k = i" if "x \<in> set new" "li_corrects x = Some k" for x using bspec[OF new that(1)] that(2) tx by auto
    with one show ?thesis unfolding corrected_append[OF assms(4)] by blast
  qed
  fix x assume x: "x \<in> set (db_posOrders d)"
  show "order_follows d' (?g x)"
  proof (cases "po_lineItem x")
    case None
    then show ?thesis by (simp add: order_follows_def)
  next
    case (Some k)
    with inv(1)[OF x] obtain j where j: "j \<in> set (db_lines d)" "li_id j = k" "po_folio x = Some (li_folio j)" "li_chargeType j \<noteq> Tax"
      and v: "po_voidedAt x \<noteq> None \<longleftrightarrow> corrected d k" by (auto simp: order_follows_def)
    have "\<exists>i \<in> set (db_lines d'). li_id i = k \<and> po_folio x = Some (li_folio i) \<and> li_chargeType i \<noteq> Tax" using j assms(4) by auto
    then show ?thesis using v cor[OF j(1,2,4)] assms(3) Some unfolding order_follows_def by (cases "k = i") auto
  qed
qed simp

lemma reversal_rows_corrects:
  assumes "li_id original = i"
  shows "\<forall>x \<in> set (stamped n (reversal_rows original d u)). li_corrects x = Some i \<or> (\<exists>t \<in> set (taxesToReverse d original). li_corrects x = Some (li_id t))"
    and "\<exists>x \<in> set (stamped n (reversal_rows original d u)). li_corrects x = Some i"
proof -
  show "\<forall>x \<in> set (stamped n (reversal_rows original d u)). li_corrects x = Some i \<or> (\<exists>t \<in> set (taxesToReverse d original). li_corrects x = Some (li_id t))"
  proof
    fix x assume "x \<in> set (stamped n (reversal_rows original d u))"
    from mem_stamped[OF this] assms show "li_corrects x = Some i \<or> (\<exists>t \<in> set (taxesToReverse d original). li_corrects x = Some (li_id t))"
      by (auto simp: reversal_rows_def correction_line_def tax_reversal_def)
  qed
  show "\<exists>x \<in> set (stamped n (reversal_rows original d u)). li_corrects x = Some i"
    using assms by (simp add: reversal_rows_def correction_line_def)
qed

lemma correct_orders:
  assumes "correctLineItem i a now d = Inr (c, d')" and "book_ok d" and "orders_inv d"
  shows "orders_inv d'"
  using assms(1)
proof (rule correctLineItem_effect)
  fix original :: line_item
  assume o: "li_id original = i" "\<not> corrected d i" and l: "db_lines d' = db_lines d @ stamped (db_next d) (reversal_rows original d (Some a))"
    and p: "db_posOrders d' = map (\<lambda>x. if po_lineItem x = Some i \<and> po_voidedAt x = None then x\<lparr>po_voidedAt := Some now, po_voidedBy := Some a\<rparr> else x) (db_posOrders d)"
    and ou: "db_outlets d' = db_outlets d"
  show "orders_inv d'" by (rule taken_back_orders[OF assms(2,3) o(2) l ou reversal_rows_corrects[OF o(1)] p])
qed

lemma moved_orders:
  assumes "moved_by M src tgt d d'" and "book_ok d" and "orders_inv d"
  shows "orders_inv d'"
proof -
  note inv = orders_invD[OF assms(3)]
  let ?g = "\<lambda>x. case po_lineItem x of Some l \<Rightarrow> if l \<in> M then x\<lparr>po_folio := Some tgt\<rparr> else x | None \<Rightarrow> x"
  let ?h = "\<lambda>i. if li_id i \<in> M then i\<lparr>li_folio := tgt\<rparr> else i"
  have e: "db_posOrders d' = map ?g (db_posOrders d)" "db_lines d' = map ?h (db_lines d)" "db_outlets d' = db_outlets d"
    using assms(1) by (simp_all add: moved_by_def move_lines_def)
  have cor: "corrected d' l = corrected d l" for l unfolding corrected_def e(2) set_map bex_simps by simp
  show ?thesis
  proof (rule orders_map[OF assms(3) e(3,1)])
    fix x assume x: "x \<in> set (db_posOrders d)"
    show "order_follows d' (?g x)"
    proof (cases "po_lineItem x")
      case None
      then show ?thesis by (simp add: order_follows_def)
    next
      case (Some k)
      with inv(1)[OF x] obtain j where j: "j \<in> set (db_lines d)" "li_id j = k" "po_folio x = Some (li_folio j)" "li_chargeType j \<noteq> Tax"
        and v: "po_voidedAt x \<noteq> None \<longleftrightarrow> corrected d k" by (auto simp: order_follows_def)
      have "?h j \<in> set (db_lines d')" "li_id (?h j) = k" "li_chargeType (?h j) \<noteq> Tax" using j by (auto simp: e(2))
      moreover have "po_folio (?g x) = Some (li_folio (?h j))" "po_lineItem (?g x) = Some k" "po_voidedAt (?g x) = po_voidedAt x" using Some j by simp_all
      ultimately show ?thesis using v cor unfolding order_follows_def by auto
    qed
  qed (simp split: option.splits)
qed

section \<open>Selling and voiding\<close>

lemma findOutlet_Inr: "findOutletOrThrow d i = Inr x \<Longrightarrow> x \<in> set (db_outlets d) \<and> ou_id x = i"
  by (auto simp: findOutletOrThrow_def split: option.splits dest: find_Some_mem)

text \<open>The line a room charge posts: on the guest's bill, not a tax, and not corrected.\<close>

lemma posted_line:
  assumes "writeChargeWithTaxes D inp d = Inr (Some l, d')" and "ledger_ok d"
  shows "l \<in> set (db_lines d')" and "li_folio l = ci_folio inp" and "li_chargeType l = ci_chargeType inp" and "li_id l = db_next d" and "\<not> corrected d' (li_id l)"
proof -
  have "l \<in> set (db_lines d') \<and> li_folio l = ci_folio inp \<and> li_chargeType l = ci_chargeType inp \<and> li_id l = db_next d \<and> \<not> corrected d' (li_id l)"
    using assms(1)
  proof (cases rule: writeCharge_Some)
    case (1 priced)
    have "\<not> corrected (append_lines (charge_rows inp priced (db_next d)) d) (db_next d)"
      by (rule not_corrected_new[OF assms(2)]) (auto dest: charge_rows_corrects)
    then have "\<not> corrected d' (db_next d)" by (simp add: 1(4) corrected_def)
    then show ?thesis by (simp add: 1(3,4) charge_rows_def charge_line_def)
  qed
  then show "l \<in> set (db_lines d')" and "li_folio l = ci_folio inp" and "li_chargeType l = ci_chargeType inp" and "li_id l = db_next d" and "\<not> corrected d' (li_id l)"
    by blast+
qed

lemma createOrder_orders:
  assumes "createOrder D tzo dto actor now d = Inr (ord, d')" and "book_ok d" and "orders_inv d"
  shows "orders_inv d'"
  using assms(1)
proof (rule createOrder_Inr)
  fix outlet branch lines discount priced reason net tax room sid d1 cash byCard d2
  assume o: "findOutletOrThrow d (cd_outlet dto) = Inr outlet"
    and se: "settleOrder D tzo dto outlet branch priced (jw_sub actor) now d = Inr (net, tax, room, sid, d1)"
    and i: "insert_order (new_order dto outlet (nextOrderNo d (ou_id outlet)) lines discount reason net tax room sid cash byCard (jw_sub actor) now) d1 = Inr (ord, d2)"
    and d': "d' = audit (ou_branch outlet) (Some (jw_sub actor)) ''pos_order.created'' (po_id ord) d2"
  note row = insert_order_Inr[OF i]
  have ct: "ou_chargeType outlet \<noteq> Tax" using orders_invD(3)[OF assms(3)] findOutlet_Inr[OF o] by blast
  have sel: "po_voidedAt ord = None" "po_lineItem ord = map_option (snd \<circ> snd) room" "po_folio ord = map_option (fst \<circ> snd) room"
    by (simp_all add: row(1) new_order_def)
  have 1: "orders_inv d1 \<and> order_follows d1 ord"
    using se
  proof (cases rule: settleOrder_Inr)
    case (room res folio d0 l)
    note e = ensurePrimary_effect[OF room(4)]
    have 0: "orders_inv d0" "book_ok d0" using e assms(2,3) by (auto intro: orders_same book_ok_cong)
    note w = room(6)[unfolded postOutletCharge_def]
    note p = posted_line[OF w book_okD(1)[OF 0(2)]]
    have "order_follows d1 ord" using p ct room(7) sel by (auto simp: order_follows_def plain_charge_def)
    then show ?thesis using orders_lines_only[OF writeCharge_lines_only[OF w] 0(1)] by blast
  next
    case paid
    then show ?thesis using assms(3) sel by (simp add: order_follows_def)
  qed
  have "orders_inv d2"
  proof -
    have f: "order_follows d2 x = order_follows d1 x" for x by (rule follows_cong) (simp add: row(2))
    have "numbered (db_posOrders d1 @ [ord])"
      using orders_invD(2)[OF conjunct1[OF 1]] row(4,5) unfolding numbered_def by (fastforce simp: image_iff)
    then show ?thesis using 1 f by (auto simp: orders_inv_def row(2))
  qed
  then show "orders_inv d'" unfolding d' by (rule orders_same[rotated 3]) simp_all
qed

lemma voidOrder_orders:
  assumes "voidOrder i reason actor now d = Inr (c, d')" and "book_ok d" and "cash_rows d" and "orders_inv d"
  shows "orders_inv d'"
  using assms(1)
proof (rule voidOrder_Inr)
  fix ord d1 d2
  assume ord: "ord \<in> set (db_posOrders d)" "po_id ord = i" and c: "claim_void i (jw_sub actor) now d = Inr d1"
    and k: "c = None \<and> d2 = d1 \<and> (po_lineItem ord = None \<or> (\<exists>l. po_lineItem ord = Some l \<and> corrected d1 l)) \<or>
         (\<exists>l k. po_lineItem ord = Some l \<and> c = Some k \<and> correctLineItem l (jw_sub actor) now d1 = Inr (k, d2))"
    and d': "d' = audit (po_branch ord) (Some (jw_sub actor)) ''pos_order.voided'' i d2"
  note d1 = claim_void_Inr[OF c] and inv = orders_invD[OF assms(4)]
  let ?g = "\<lambda>x. if po_id x = i \<and> po_voidedAt x = None then x\<lparr>po_voidedAt := Some now, po_voidedBy := Some (jw_sub actor)\<rparr> else x"
  have uniq: "x = ord" if "x \<in> set (db_posOrders d)" "po_id x = i" for x
    using assms(3) ord that unfolding cash_rows_def by (metis distinct_map inj_onD)
  have "\<exists>x \<in> set (db_posOrders d). po_id x = i \<and> po_voidedAt x = None" using c by (auto simp: claim_void_def split: if_splits)
  then have unv: "po_voidedAt ord = None" using uniq by blast
  have lines: "db_lines d1 = db_lines d" by (simp add: d1)
  have f1: "order_follows d1 x = order_follows d x" for x by (rule follows_cong[OF lines])
  show "orders_inv d'"
  proof (cases "po_lineItem ord")
    case None
    with k have "d2 = d1" by auto
    have "orders_inv d1"
    proof (rule orders_map[OF assms(4)])
      show "db_posOrders d1 = map ?g (db_posOrders d)" "db_outlets d1 = db_outlets d" by (simp_all add: d1)
      fix x assume x: "x \<in> set (db_posOrders d)"
      show "order_follows d1 (?g x)"
      proof (cases "po_id x = i")
        case True
        then have "po_lineItem x = None" using uniq[OF x] None by simp
        then show ?thesis by (simp add: order_follows_def)
      qed (use inv(1)[OF x] f1 in simp)
    qed simp
    then show ?thesis unfolding d' \<open>d2 = d1\<close> by (rule orders_same[rotated 3]) simp_all
  next
    case (Some l)
    have nc: "\<not> corrected d l" using inv(1)[OF ord(1)] Some unv by (simp add: order_follows_def)
    then have "\<not> corrected d1 l" by (simp add: corrected_def lines)
    with k Some obtain cor where cl: "correctLineItem l (jw_sub actor) now d1 = Inr (cor, d2)" by auto
    let ?h = "\<lambda>x. if po_lineItem x = Some l \<and> po_voidedAt x = None then x\<lparr>po_voidedAt := Some now, po_voidedBy := Some (jw_sub actor)\<rparr> else x"
    have "orders_inv d2" using cl
    proof (rule correctLineItem_effect)
      fix original :: line_item
      assume o: "li_id original = l" and ls: "db_lines d2 = db_lines d1 @ stamped (db_next d1) (reversal_rows original d1 (Some (jw_sub actor)))"
        and p: "db_posOrders d2 = map ?h (db_posOrders d1)" and ou: "db_outlets d2 = db_outlets d1"
      have "?h (?g x) = ?h x" if x: "x \<in> set (db_posOrders d)" for x
        using uniq[OF x] Some unv by (cases "po_id x = i") auto
      then have p': "db_posOrders d2 = map ?h (db_posOrders d)" unfolding p d1 by simp
      note rc = reversal_rows_corrects[OF o, of "db_next d1" d1 "Some (jw_sub actor)", unfolded taxesToReverse_cong[OF lines]]
      show "orders_inv d2"
        by (rule taken_back_orders[OF assms(2,4) nc ls[unfolded lines] _ rc p']) (simp add: ou d1)
    qed
    then show ?thesis unfolding d' by (rule orders_same[rotated 3]) simp_all
  qed
qed

section \<open>Every step keeps it\<close>

lemma recordPaymentInTx_orders: "recordPaymentInTx D folio dto pu a d = Inr (p, d') \<Longrightarrow> orders_inv d \<Longrightarrow> orders_inv d'"
  by (erule recordPaymentInTx_effect) (auto intro: orders_same)

lemma payments_orders:
  "recordPayment D f pdto purpose a d = Inr (p, d') \<Longrightarrow> orders_inv d \<Longrightarrow> orders_inv d'"
  "recordDeposit D rid pdto a now d = Inr (p, d') \<Longrightarrow> orders_inv d \<Longrightarrow> orders_inv d'"
  "voidPayment i a now d = Inr (p, d') \<Longrightarrow> orders_inv d \<Longrightarrow> orders_inv d'"
proof -
  show "recordPayment D f pdto purpose a d = Inr (p, d') \<Longrightarrow> orders_inv d \<Longrightarrow> orders_inv d'"
    by (erule recordPayment_effect) (rule recordPaymentInTx_orders)
  show "recordDeposit D rid pdto a now d = Inr (p, d') \<Longrightarrow> orders_inv d \<Longrightarrow> orders_inv d'"
  proof (erule recordDeposit_effect)
    fix res folio d1
    assume ok: "orders_inv d" and e: "ensurePrimaryFolio res (Some a) now d = (folio, d1)" and r: "recordPaymentInTx D folio pdto PurposeDeposit a d1 = Inr (p, d')"
    note e = ensurePrimary_effect[OF e]
    have "orders_inv d1" by (rule orders_same[OF e(1) e(4) e(6) ok])
    then show "orders_inv d'" by (rule recordPaymentInTx_orders[OF r])
  qed
  show "voidPayment i a now d = Inr (p, d') \<Longrightarrow> orders_inv d \<Longrightarrow> orders_inv d'" by (erule voidPayment_effect) (rule orders_same)
qed

lemma moves_orders:
  "splitFolio f mv a now d = Inr (tr, d') \<Longrightarrow> book_ok d \<Longrightarrow> orders_inv d \<Longrightarrow> orders_inv d'"
  "transferCharges f mv a now d = Inr (tr, d') \<Longrightarrow> book_ok d \<Longrightarrow> orders_inv d \<Longrightarrow> orders_inv d'"
  "reverseTransfer i a now d = Inr (tr, d') \<Longrightarrow> book_ok d \<Longrightarrow> orders_inv d \<Longrightarrow> orders_inv d'"
proof -
  show "splitFolio f mv a now d = Inr (tr, d') \<Longrightarrow> book_ok d \<Longrightarrow> orders_inv d \<Longrightarrow> orders_inv d'"
    "transferCharges f mv a now d = Inr (tr, d') \<Longrightarrow> book_ok d \<Longrightarrow> orders_inv d \<Longrightarrow> orders_inv d'"
    unfolding splitFolio_def transferCharges_def using moved_orders moveCharges_effect by blast+
  assume "reverseTransfer i a now d = Inr (tr, d')" and ok: "book_ok d" "orders_inv d"
  from reverseTransfer_effect[OF ok(1) this(1)] obtain M src tgt where "moved_by M src tgt d d'" by blast
  then show "orders_inv d'" by (rule moved_orders[OF _ ok])
qed

lemma drawers_orders:
  "openShift br odto a now d = Inr (s, d') \<Longrightarrow> orders_inv d \<Longrightarrow> orders_inv d'" "closeShift i cdto actor now d = Inr (s, d') \<Longrightarrow> orders_inv d \<Longrightarrow> orders_inv d'"
  "addShiftIssue i idto a d = Inr (is, d') \<Longrightarrow> orders_inv d \<Longrightarrow> orders_inv d'" "updateShiftIssue i b res a now d = Inr (is, d') \<Longrightarrow> orders_inv d \<Longrightarrow> orders_inv d'"
proof -
  show "openShift br odto a now d = Inr (s, d') \<Longrightarrow> orders_inv d \<Longrightarrow> orders_inv d'" by (erule openShift_effect) (auto intro: orders_same)
  show "closeShift i cdto actor now d = Inr (s, d') \<Longrightarrow> orders_inv d \<Longrightarrow> orders_inv d'" by (erule closeShift_effect) (rule orders_same)
  have k: "orders_inv d'" if "folios_only d (d'\<lparr>db_issues := db_issues d\<rparr>)" "orders_inv d"
    using that by (intro orders_same[of d' d]) (auto simp: folios_only_def)
  show "addShiftIssue i idto a d = Inr (is, d') \<Longrightarrow> orders_inv d \<Longrightarrow> orders_inv d'" by (rule k) (rule issue_ops_effect, blast)
  show "updateShiftIssue i b res a now d = Inr (is, d') \<Longrightarrow> orders_inv d \<Longrightarrow> orders_inv d'" by (rule k) (rule issue_ops_effect, blast)
qed

lemma refunds_orders:
  "requestRefund f rdto actor d = Inr (rf, d') \<Longrightarrow> orders_inv d \<Longrightarrow> orders_inv d'" "approveRefund i actor d = Inr d' \<Longrightarrow> orders_inv d \<Longrightarrow> orders_inv d'"
  "rejectRefund i actor d = Inr d' \<Longrightarrow> orders_inv d \<Longrightarrow> orders_inv d'" "payOut i actor now d = Inr (p, d') \<Longrightarrow> orders_inv d \<Longrightarrow> orders_inv d'"
proof -
  show "requestRefund f rdto actor d = Inr (rf, d') \<Longrightarrow> orders_inv d \<Longrightarrow> orders_inv d'"
    by (auto simp: requestRefund_def res_simps elim!: requestInTx_effect intro: orders_same)
  show "approveRefund i actor d = Inr d' \<Longrightarrow> orders_inv d \<Longrightarrow> orders_inv d'" by (erule approveRefund_effect) (rule orders_only(2))
  show "rejectRefund i actor d = Inr d' \<Longrightarrow> orders_inv d \<Longrightarrow> orders_inv d'" by (erule rejectRefund_effect) (rule orders_only(2))
  show "payOut i actor now d = Inr (p, d') \<Longrightarrow> orders_inv d \<Longrightarrow> orders_inv d'"
  proof (erule payOut_effect)
    fix r d1
    assume "orders_inv d" "db_lines d1 = db_lines d" "db_posOrders d1 = db_posOrders d" "db_outlets d1 = db_outlets d"
      and d': "d' = settleEndedStay (rf_folio r) (jw_sub actor) now d1"
    then have "orders_inv d1" by (auto intro: orders_same)
    then show "orders_inv d'" unfolding d' using settleEnded_effect(1) by (rule orders_only(1)[rotated])
  qed
qed

lemmas order_steps = postCharge_lines_only[THEN orders_lines_only] postDate_lines_only[THEN orders_lines_only] backfill_lines_only[THEN orders_lines_only]
  payments_orders createFolio_effect(1)[THEN orders_only(1)] closeFolio_effect(1)[THEN orders_only(1)] reopenFolio_effect(1)[THEN orders_only(1)]
  settle_effect(1)[THEN orders_only(1)] drawers_orders refunds_orders outlets_orders items_orders

lemma step_orders: "desk_step D tzo d d' \<Longrightarrow> book_ok d \<Longrightarrow> cash_rows d \<Longrightarrow> orders_inv d \<Longrightarrow> orders_inv d'"
  by (induction rule: desk_step.induct)
    ((erule (1) order_steps) | (erule (2) correct_orders createOrder_orders moves_orders) | (erule (3) voidOrder_orders))+

interpretation orders: step_invariant "desk_step D tzo" "\<lambda>d. ledger_inv d \<and> drawers_inv d \<and> orders_inv d" for D tzo
  by unfold_locales (blast intro: step_ledger step_drawers step_orders ledger_book drawers_invD(1))

definition desk_drink :: pos_order_dto where
  "desk_drink = \<lparr>cd_outlet = 30, cd_items = [\<lparr>rl_item = 31, rl_qty = 2, rl_modifiers = Some [(''Size'', [''Large''])]\<rparr>], cd_discount = None,
     cd_settlement = ToRoom, cd_cashAmount = None, cd_reservation = Some 50\<rparr>"

lemma desk_db_orders: "orders_inv desk_db"
  by (simp add: orders_inv_def numbered_def desk_db_def)

text \<open>
  C38. The outlets' ledger and the guests' bills agree. Over any run of the desk, in any order and
  by anyone: every order charged to a room has its charge in the ledger, on the very bill the
  order names, also after the charge was moved to another bill or moved back; and the order is
  void exactly when its charge has been taken back, whether it was voided at the till or the
  charge was corrected on the bill. No two orders of an outlet have the same number.
\<close>

theorem room_order_follows_charge:
  assumes "(desk_step D tzo)\<^sup>*\<^sup>* d d'" and "ledger_inv d" and "drawers_inv d" and "orders_inv d"
  shows "(\<forall>x \<in> set (db_posOrders d'). \<forall>l. po_lineItem x = Some l \<longrightarrow>
       (\<exists>i \<in> set (db_lines d'). li_id i = l \<and> po_folio x = Some (li_folio i)) \<and> (po_voidedAt x \<noteq> None \<longleftrightarrow> corrected d' l)) \<and>
     distinct (map (\<lambda>x. (po_outlet x, po_orderNo x)) (db_posOrders d'))"
proof (intro conjI[rotated] ballI allI impI)
  have "orders_inv d'" using orders.run_keeps[OF assms(1)] assms(2-4) by blast
  note inv = orders_invD[OF this]
  show "distinct (map (\<lambda>x. (po_outlet x, po_orderNo x)) (db_posOrders d'))" using inv(2) by (simp add: numbered_def)
  fix x l assume "x \<in> set (db_posOrders d')" "po_lineItem x = Some l"
  with inv(1)[of x] show "\<exists>i \<in> set (db_lines d'). li_id i = l \<and> po_folio x = Some (li_folio i)" "po_voidedAt x \<noteq> None \<longleftrightarrow> corrected d' l"
    by (auto simp: order_follows_def)
qed

theorem room_order_follows_charge_witness:
  "\<exists>x d'. (desk_step decimal_js desk_tz)\<^sup>*\<^sup>* desk_db d' \<and> x \<in> set (db_posOrders d') \<and>
     (\<exists>l. po_lineItem x = Some l \<and> (po_voidedAt x \<noteq> None \<longleftrightarrow> corrected d' l))"
proof -
  have "\<not> isl (createOrder decimal_js desk_tz desk_drink desk_manager 5 desk_db)" by code_simp
  then obtain ord d1 where c: "createOrder decimal_js desk_tz desk_drink desk_manager 5 desk_db = Inr (ord, d1)" using Inr_pair by blast
  have run: "(desk_step decimal_js desk_tz)\<^sup>*\<^sup>* desk_db d1" using create_order[OF c] by (rule r_into_rtranclp)
  have "ord \<in> set (db_posOrders d1) \<and> po_lineItem ord \<noteq> None"
    using c
  proof (rule createOrder_Inr)
    fix outlet branch lines discount priced reason net tax room sid d0 cash byCard d2
    assume "insert_order (new_order desk_drink outlet (nextOrderNo desk_db (ou_id outlet)) lines discount reason net tax room sid cash byCard (jw_sub desk_manager) 5) d0 = Inr (ord, d2)"
      and "d1 = audit (ou_branch outlet) (Some (jw_sub desk_manager)) ''pos_order.created'' (po_id ord) d2"
    then show ?thesis using insert_order_Inr(2,3) insert_order_Inr(1)
      by (fastforce simp: order_checks_def new_order_def desk_drink_def)
  qed
  then obtain l where "ord \<in> set (db_posOrders d1)" "po_lineItem ord = Some l" by auto
  then show ?thesis using run room_order_follows_charge[OF run desk_db_ledger desk_db_drawers desk_db_orders] by blast
qed

end
