(* ===== verification/Desk_Refunds.thy ===== *)
theory Desk_Refunds
  imports Desk_Orders
begin

text \<open>
  What the refund workflow promises over any run of the desk: a refund moves only along its life
  cycle, the money of a refund leaves once, and never more than the guest is owed.
\<close>

section \<open>The life cycle\<close>

text \<open>The workflow as the service describes it: asked for, approved or turned down, paid out.\<close>

inductive refund_move :: "refund_status \<Rightarrow> refund_status \<Rightarrow> bool" where
  approved: "refund_move RefundPending RefundApproved"
| turned_down: "s \<in> {RefundPending, RefundApproved} \<Longrightarrow> refund_move s RefundRejected"
| paid_out: "refund_move RefundApproved RefundProcessed"

inductive_simps refund_move_simps [simp]: "refund_move s t"

definition same_refund :: "refund \<Rightarrow> refund \<Rightarrow> bool" where
  "same_refund r r' \<longleftrightarrow> rf_id r' = rf_id r \<and> rf_folio r' = rf_folio r \<and> rf_amount r' = rf_amount r \<and> rf_method r' = rf_method r \<and> rf_payment r' = rf_payment r"

definition evolves :: "db \<Rightarrow> db \<Rightarrow> bool" where
  "evolves d d' \<longleftrightarrow> (\<forall>r \<in> set (db_refunds d). \<exists>r' \<in> set (db_refunds d'). same_refund r r' \<and> refund_move\<^sup>*\<^sup>* (rf_status r) (rf_status r'))"

lemma evolves_same: "db_refunds d' = db_refunds d \<Longrightarrow> evolves d d'"
  by (auto simp: evolves_def same_refund_def)

lemma evolves_trans: "evolves a b \<Longrightarrow> evolves b c \<Longrightarrow> evolves a c"
  unfolding evolves_def same_refund_def by (metis rtranclp_trans)

lemma evolves_map:
  assumes "db_refunds d' = map g (db_refunds d) @ new"
    and "\<And>r. r \<in> set (db_refunds d) \<Longrightarrow> same_refund r (g r) \<and> (rf_status (g r) = rf_status r \<or> refund_move (rf_status r) (rf_status (g r)))"
  shows "evolves d d'"
  unfolding evolves_def
proof
  fix r assume r: "r \<in> set (db_refunds d)"
  then have "g r \<in> set (db_refunds d')" by (simp add: assms(1))
  moreover have "refund_move\<^sup>*\<^sup>* (rf_status r) (rf_status (g r))" using assms(2)[OF r] by (metis r_into_rtranclp rtranclp.rtrancl_refl)
  ultimately show "\<exists>r' \<in> set (db_refunds d'). same_refund r r' \<and> refund_move\<^sup>*\<^sup>* (rf_status r) (rf_status r')" using assms(2)[OF r] by blast
qed

section \<open>One payment for every refund paid out\<close>

definition payout_of :: "db \<Rightarrow> refund \<Rightarrow> nat \<Rightarrow> bool" where
  "payout_of d r p \<longleftrightarrow> (\<exists>q \<in> set (db_payments d). pa_id q = p \<and> pa_folio q = rf_folio r \<and> pa_amount q = - rf_amount r \<and> live_payment q)"

definition refund_ok :: "db \<Rightarrow> refund \<Rightarrow> bool" where
  "refund_ok d r \<longleftrightarrow> rf_id r < db_next d \<and> 0 < rf_amount r \<and> is_money (rf_amount r) \<and>
     (case rf_refundPayment r of None \<Rightarrow> rf_status r \<noteq> RefundProcessed | Some p \<Rightarrow> rf_status r = RefundProcessed \<and> payout_of d r p)"

definition own_payouts :: "refund list \<Rightarrow> bool" where
  "own_payouts rs \<longleftrightarrow> (\<forall>x \<in> set rs. \<forall>y \<in> set rs. rf_refundPayment x \<noteq> None \<and> rf_refundPayment x = rf_refundPayment y \<longrightarrow> rf_id x = rf_id y)"

definition refunds_inv :: "db \<Rightarrow> bool" where
  "refunds_inv d \<longleftrightarrow> distinct (map rf_id (db_refunds d)) \<and> (\<forall>r \<in> set (db_refunds d). refund_ok d r) \<and>
     own_payouts (db_refunds d)"

lemma own_payouts_snoc:
  assumes "own_payouts rs" and "rf_refundPayment r = None"
  shows "own_payouts (rs @ [r])"
  unfolding own_payouts_def
proof (intro ballI impI)
  fix x y assume m: "x \<in> set (rs @ [r])" "y \<in> set (rs @ [r])" and h: "rf_refundPayment x \<noteq> None \<and> rf_refundPayment x = rf_refundPayment y"
  have old: "z \<in> set rs" if "z \<in> set (rs @ [r])" "rf_refundPayment z \<noteq> None" for z using that assms(2) by (cases "z = r") simp_all
  have "x \<in> set rs" by (rule old) (use m h in blast)+
  moreover have "y \<in> set rs" by (rule old[OF m(2)]) (use h in metis)
  ultimately have "x \<in> set rs" "y \<in> set rs" .
  then show "rf_id x = rf_id y" using assms(1) h unfolding own_payouts_def by blast
qed

lemma payout_append: "payout_of d r p \<Longrightarrow> db_payments d' = db_payments d @ new \<Longrightarrow> payout_of d' r p"
  by (auto simp: payout_of_def)

lemma refund_ok_append: "refund_ok d r \<Longrightarrow> db_payments d' = db_payments d @ new \<Longrightarrow> db_next d \<le> db_next d' \<Longrightarrow> refund_ok d' r"
  by (auto simp: refund_ok_def split: option.splits intro: payout_append)

lemma refunds_append:
  assumes "refunds_inv d" and "db_refunds d' = db_refunds d" and "db_payments d' = db_payments d @ new" and "db_next d \<le> db_next d'"
  shows "refunds_inv d'"
  using assms refund_ok_append[of d _ d' new] by (auto simp: refunds_inv_def)

lemma refunds_same:
  assumes "db_refunds d' = db_refunds d" and "db_payments d' = db_payments d" and "db_next d \<le> db_next d'" and "refunds_inv d"
  shows "refunds_inv d'"
  using refunds_append[of d d' "[]"] assms by simp

lemma refunds_cong:
  "folios_only d d' \<Longrightarrow> refunds_inv d \<Longrightarrow> refunds_inv d'" "menu_only d d' \<Longrightarrow> refunds_inv d \<Longrightarrow> refunds_inv d'" "lines_only d d' \<Longrightarrow> refunds_inv d \<Longrightarrow> refunds_inv d'"
  by (auto simp: folios_only_def menu_only_def lines_only_def intro: refunds_same)

lemma refund_unique: "refunds_inv d \<Longrightarrow> r \<in> set (db_refunds d) \<Longrightarrow> x \<in> set (db_refunds d) \<Longrightarrow> rf_id r = rf_id x \<Longrightarrow> r = x"
  unfolding refunds_inv_def by (metis distinct_map inj_onD)

text \<open>Changing refunds in place without touching their payouts.\<close>

lemma refunds_map:
  assumes "refunds_inv d" and "refunds_only d d'" and "db_refunds d' = map g (db_refunds d)"
    and "\<And>r. r \<in> set (db_refunds d) \<Longrightarrow> same_refund r (g r) \<and> rf_refundPayment (g r) = rf_refundPayment r \<and>
       (rf_status (g r) = RefundProcessed \<longleftrightarrow> rf_status r = RefundProcessed)"
  shows "refunds_inv d'"
proof -
  have keys: "map rf_id (db_refunds d') = map rf_id (db_refunds d)"
    using assms(4) by (simp add: assms(3) same_refund_def)
  have own: "own_payouts (db_refunds d')" unfolding own_payouts_def assms(3) set_map ball_simps
  proof (intro ballI impI)
    fix x y assume x: "x \<in> set (db_refunds d)" and y: "y \<in> set (db_refunds d)"
      and h: "rf_refundPayment (g x) \<noteq> None \<and> rf_refundPayment (g x) = rf_refundPayment (g y)"
    have e: "rf_refundPayment (g x) = rf_refundPayment x" "rf_refundPayment (g y) = rf_refundPayment y" "rf_id (g x) = rf_id x" "rf_id (g y) = rf_id y"
      using assms(4)[OF x] assms(4)[OF y] by (simp_all add: same_refund_def)
    have "own_payouts (db_refunds d)" using assms(1) by (simp add: refunds_inv_def)
    then show "rf_id (g x) = rf_id (g y)" using h x y unfolding e own_payouts_def by blast
  qed
  have "refund_ok d' (g r)" if "r \<in> set (db_refunds d)" for r
  proof -
    have "refund_ok d r" using assms(1) that by (simp add: refunds_inv_def)
    then show ?thesis using assms(4)[OF that] assms(2) by (auto simp: refund_ok_def same_refund_def payout_of_def refunds_only_def split: option.splits)
  qed
  then have "\<forall>r \<in> set (db_refunds d'). refund_ok d' r" unfolding assms(3) by auto
  then show ?thesis using assms(1) own unfolding refunds_inv_def keys by blast
qed

lemma approve_refunds:
  assumes "approveRefund i actor d = Inr d'" and "refunds_inv d"
  shows "refunds_inv d'" and "evolves d d'"
proof -
  let ?g = "\<lambda>r. if rf_id r = i \<and> rf_status r = RefundPending then r\<lparr>rf_status := RefundApproved, rf_approvedBy := Some (jw_sub actor)\<rparr> else r"
  have e: "refunds_only d d'" "db_refunds d' = map ?g (db_refunds d)" using assms(1) by (auto elim: approveRefund_effect)
  show "refunds_inv d'" by (rule refunds_map[OF assms(2) e]) (simp add: same_refund_def)
  show "evolves d d'" by (rule evolves_map[where g = ?g and new = "[]"]) (auto simp: e(2) same_refund_def)
qed

lemma reject_refunds:
  assumes "rejectRefund i actor d = Inr d'" and "refunds_inv d"
  shows "refunds_inv d'" and "evolves d d'"
proof -
  let ?g = "\<lambda>r. if rf_id r = i \<and> rf_status r \<in> OUTSTANDING then r\<lparr>rf_status := RefundRejected\<rparr> else r"
  have e: "refunds_only d d'" "db_refunds d' = map ?g (db_refunds d)" using assms(1) by (auto elim: rejectRefund_effect)
  show "refunds_inv d'" by (rule refunds_map[OF assms(2) e]) (auto simp: same_refund_def OUTSTANDING_def)
  show "evolves d d'" by (rule evolves_map[where g = ?g and new = "[]"]) (auto simp: e(2) same_refund_def OUTSTANDING_def)
qed

lemma request_refunds:
  assumes "requestRefund f rdto actor d = Inr (r, d')" and "is_money (rd_amount rdto)" and "0 < rd_amount rdto" and "refunds_inv d"
  shows "refunds_inv d'" and "evolves d d'"
proof -
  from assms(1) obtain folio where q: "requestInTx folio rdto actor d = Inr (r, d')" by (auto simp: requestRefund_def res_simps)
  have e: "rf_id r = db_next d \<and> rf_amount r = rd_amount rdto \<and> rf_status r \<noteq> RefundProcessed \<and> rf_refundPayment r = None \<and>
    db_refunds d' = db_refunds d @ [r] \<and> db_payments d' = db_payments d \<and> db_next d' = Suc (db_next d)"
    using q
  proof (rule requestInTx_effect)
    assume f: "rf_id r = db_next d" "rf_amount r = num2 (rd_amount rdto)" "rf_status r \<in> OUTSTANDING" "rf_refundPayment r = None"
      and d': "d' = audit (fo_branch folio) (Some (jw_sub actor)) ''refund.requested'' (db_next d) (d\<lparr>db_refunds := db_refunds d @ [r], db_next := Suc (db_next d)\<rparr>)"
    have "rf_status r \<noteq> RefundProcessed" using f(3) unfolding OUTSTANDING_def by auto
    moreover have "rf_amount r = rd_amount rdto" unfolding f(2) by (rule num2_money[OF assms(2)])
    moreover have "db_refunds d' = db_refunds d @ [r]" "db_payments d' = db_payments d" "db_next d' = Suc (db_next d)" unfolding d' by simp_all
    ultimately show ?thesis using f(1,4) by blast
  qed
  have old: "refund_ok d x" if "x \<in> set (db_refunds d)" for x using assms(4) that unfolding refunds_inv_def by blast
  have ok: "refund_ok d' x" if "x \<in> set (db_refunds d)" for x
    by (rule refund_ok_append[OF old[OF that], where new = "[]"]) (simp_all add: e)
  have "rf_id r \<noteq> rf_id x" if "x \<in> set (db_refunds d)" for x using old[OF that] e by (simp add: refund_ok_def)
  then have "rf_id r \<notin> rf_id ` set (db_refunds d)" by blast
  moreover have "distinct (map rf_id (db_refunds d))" using assms(4) unfolding refunds_inv_def by blast
  ultimately have dis: "distinct (map rf_id (db_refunds d @ [r]))" by simp
  have l: "db_refunds d' = db_refunds d @ [r]" "rf_refundPayment r = None" using e by blast+
  have "refund_ok d' r" using e assms(2,3) by (simp add: refund_ok_def)
  then have oks: "\<forall>x \<in> set (db_refunds d @ [r]). refund_ok d' x" using ok by simp
  have "own_payouts (db_refunds d)" using assms(4) unfolding refunds_inv_def by blast
  then have "own_payouts (db_refunds d @ [r])" using l(2) by (rule own_payouts_snoc)
  then show "refunds_inv d'" using dis oks unfolding refunds_inv_def l(1) by blast
  show "evolves d d'" by (rule evolves_map[where g = id and new = "[r]"]) (simp_all add: e same_refund_def)
qed

lemma payOut_refunds:
  assumes "payOut i actor now d = Inr (p, d')" and "refunds_inv d" and "cash_rows d"
  shows "refunds_inv d'" and "evolves d d'"
proof -
  have "refunds_inv d' \<and> evolves d d'" using assms(1)
  proof (rule payOut_effect)
    fix r d1
    assume r: "r \<in> set (db_refunds d)" "rf_id r = i" "rf_status r = RefundApproved"
      and p: "pa_id p = db_next d" "pa_folio p = rf_folio r" "pa_amount p = num2 (- rf_amount r)" "\<not> pa_isVoid p" "\<not> pa_deleted p"
      and e: "db_payments d1 = db_payments d @ [p]" "db_next d1 = Suc (db_next d)"
      and rf: "db_refunds d1 = map (\<lambda>r. if rf_id r = i then (if rf_status r = RefundApproved then r\<lparr>rf_status := RefundProcessed, rf_processedBy := Some (jw_sub actor)\<rparr> else r)
           \<lparr>rf_refundPayment := Some (db_next d)\<rparr> else r) (db_refunds d)"
      and d': "d' = settleEndedStay (rf_folio r) (jw_sub actor) now d1"
    let ?r = "r\<lparr>rf_status := RefundProcessed, rf_processedBy := Some (jw_sub actor), rf_refundPayment := Some (db_next d)\<rparr>"
    let ?g = "\<lambda>x. if rf_id x = i then ?r else x"
    have uniq: "x = r" if "x \<in> set (db_refunds d)" "rf_id x = i" for x by (rule refund_unique[OF assms(2) that(1) r(1)]) (simp add: that(2) r(2))
    have rf': "db_refunds d1 = map ?g (db_refunds d)" unfolding rf using r(3) uniq by (intro map_cong) auto
    have old: "refund_ok d x" if "x \<in> set (db_refunds d)" for x using assms(2) that unfolding refunds_inv_def by blast
    have none: "rf_refundPayment r = None" using old[OF r(1)] r(3) by (auto simp: refund_ok_def split: option.splits)
    have am: "pa_amount p = - rf_amount r" using p(3) old[OF r(1)] is_money_minus[of "rf_amount r"] by (simp add: refund_ok_def)
    have rok: "refund_ok d1 ?r" using old[OF r(1)] p am by (auto simp: refund_ok_def payout_of_def e live_payment_def)
    have ok: "\<forall>x \<in> set (db_refunds d1). refund_ok d1 x"
      unfolding rf' using rok refund_ok_append[OF old e(1)] e(2) by auto
    have fresh: "rf_refundPayment x \<noteq> Some (db_next d)" if x: "x \<in> set (db_refunds d)" for x
    proof
      assume s: "rf_refundPayment x = Some (db_next d)"
      then obtain q where "q \<in> set (db_payments d)" "pa_id q = db_next d" using old[OF x] by (auto simp: refund_ok_def payout_of_def)
      then show False using assms(3) by (auto simp: cash_rows_def)
    qed
    have ids: "map rf_id (db_refunds d1) = map rf_id (db_refunds d)" unfolding rf' using r(2) by simp
    have "own_payouts (db_refunds d1)" unfolding own_payouts_def rf' set_map ball_simps
    proof (intro ballI impI)
      fix x y assume x: "x \<in> set (db_refunds d)" and y: "y \<in> set (db_refunds d)"
        and h: "rf_refundPayment (?g x) \<noteq> None \<and> rf_refundPayment (?g x) = rf_refundPayment (?g y)"
      have g: "rf_id (?g z) = rf_id z" for z using r(2) by simp
      have "rf_id x = rf_id y"
      proof (cases "rf_id x = i"; cases "rf_id y = i")
        assume "rf_id x \<noteq> i" "rf_id y \<noteq> i"
        then show ?thesis using h x y assms(2) unfolding refunds_inv_def own_payouts_def by auto
      qed (use h fresh[OF x] fresh[OF y] in auto)
      then show "rf_id (?g x) = rf_id (?g y)" unfolding g .
    qed
    then have inv: "refunds_inv d1" using ok assms(2) ids unfolding refunds_inv_def by metis
    have ev: "evolves d d1"
    proof (rule evolves_map[where g = ?g and new = "[]"])
      fix x assume "x \<in> set (db_refunds d)"
      then show "same_refund x (?g x) \<and> (rf_status (?g x) = rf_status x \<or> refund_move (rf_status x) (rf_status (?g x)))"
        using uniq[of x] r(2,3) by (cases "rf_id x = i") (simp_all add: same_refund_def)
    qed (simp add: rf')
    have "refunds_inv d'" unfolding d' by (rule refunds_cong(1)[OF settleEnded_effect(1) inv])
    moreover have "evolves d1 d'" unfolding d' using settleEnded_effect(1)[of d1] by (intro evolves_same) (simp add: folios_only_def)
    ultimately show ?thesis using evolves_trans[OF ev] by blast
  qed
  then show "refunds_inv d'" and "evolves d d'" by blast+
qed

section \<open>Every step keeps it\<close>

lemma payments_append_refunds:
  "recordPaymentInTx D folio dto pu a d = Inr (p, d') \<Longrightarrow> refunds_inv d \<Longrightarrow> refunds_inv d' \<and> evolves d d'"
  by (erule recordPaymentInTx_effect) (auto intro: refunds_append evolves_same)

lemma void_refunds:
  assumes "voidPayment i a now d = Inr (p, d')" and "refunds_inv d"
  shows "refunds_inv d' \<and> evolves d d'"
  using assms(1)
proof (rule voidPayment_effect)
  assume v: "\<And>r. r \<in> set (db_refunds d) \<Longrightarrow> rf_refundPayment r \<noteq> Some i" and p: "db_payments d' = void_rows i a (db_payments d)"
    and e: "db_refunds d' = db_refunds d" "db_next d \<le> db_next d'"
  have "refund_ok d' r" if r: "r \<in> set (db_refunds d)" for r
  proof -
    have ok: "refund_ok d r" using assms(2) r unfolding refunds_inv_def by blast
    have "payout_of d' r q" if "rf_refundPayment r = Some q" "payout_of d r q" for q
    proof -
      have "q \<noteq> i" using v[OF r] that(1) by auto
      then show ?thesis using that(2) unfolding payout_of_def p void_rows_def by force
    qed
    then show ?thesis using ok e(2) by (auto simp: refund_ok_def split: option.splits)
  qed
  then show ?thesis using assms(2) evolves_same[OF e(1)] unfolding refunds_inv_def e(1) by blast
qed

lemma payments_refunds:
  "recordPayment D f pdto purpose a d = Inr (p, d') \<Longrightarrow> refunds_inv d \<Longrightarrow> refunds_inv d' \<and> evolves d d'"
  "recordDeposit D rid pdto a now d = Inr (p, d') \<Longrightarrow> refunds_inv d \<Longrightarrow> refunds_inv d' \<and> evolves d d'"
proof -
  show "recordPayment D f pdto purpose a d = Inr (p, d') \<Longrightarrow> refunds_inv d \<Longrightarrow> refunds_inv d' \<and> evolves d d'"
    by (erule recordPayment_effect) (rule payments_append_refunds)
  show "recordDeposit D rid pdto a now d = Inr (p, d') \<Longrightarrow> refunds_inv d \<Longrightarrow> refunds_inv d' \<and> evolves d d'"
  proof (erule recordDeposit_effect)
    fix res folio d1
    assume ok: "refunds_inv d" and e: "ensurePrimaryFolio res (Some a) now d = (folio, d1)" and r: "recordPaymentInTx D folio pdto PurposeDeposit a d1 = Inr (p, d')"
    note e = ensurePrimary_effect[OF e]
    show ?thesis using payments_append_refunds[OF r refunds_same[OF e(5) e(2) e(8) ok]] evolves_trans[OF evolves_same[OF e(5)]] by blast
  qed
qed

lemma kept_refunds:
  assumes "db_refunds d' = db_refunds d" and "db_payments d' = db_payments d" and "db_next d \<le> db_next d'" and "refunds_inv d"
  shows "refunds_inv d' \<and> evolves d d'"
  using refunds_same[OF assms] evolves_same[OF assms(1)] by blast

lemma only_refunds:
  "folios_only d d' \<Longrightarrow> refunds_inv d \<Longrightarrow> refunds_inv d' \<and> evolves d d'" "menu_only d d' \<Longrightarrow> refunds_inv d \<Longrightarrow> refunds_inv d' \<and> evolves d d'"
  "lines_only d d' \<Longrightarrow> refunds_inv d \<Longrightarrow> refunds_inv d' \<and> evolves d d'" "moved_by M s t d d' \<Longrightarrow> refunds_inv d \<Longrightarrow> refunds_inv d' \<and> evolves d d'"
  by (rule kept_refunds; simp add: folios_only_def menu_only_def lines_only_def moved_by_def)+

lemma correct_refunds: "correctLineItem i a now d = Inr (c, d') \<Longrightarrow> refunds_inv d \<Longrightarrow> refunds_inv d' \<and> evolves d d'"
  by (erule correctLineItem_effect) (rule kept_refunds)

lemma orders_refunds:
  "createOrder D tzo dto actor now d = Inr (ord, d') \<Longrightarrow> refunds_inv d \<Longrightarrow> refunds_inv d' \<and> evolves d d'"
  "voidOrder i reason actor now d = Inr (corr, d') \<Longrightarrow> refunds_inv d \<Longrightarrow> refunds_inv d' \<and> evolves d d'"
proof -
  assume ok: "refunds_inv d"
  show "refunds_inv d' \<and> evolves d d'" if "createOrder D tzo dto actor now d = Inr (ord, d')"
    using that
  proof (rule createOrder_Inr)
    fix outlet branch lines discount priced reason net tax room sid d1 cash byCard d2
    assume se: "settleOrder D tzo dto outlet branch priced (jw_sub actor) now d = Inr (net, tax, room, sid, d1)"
      and i: "insert_order (new_order dto outlet (nextOrderNo d (ou_id outlet)) lines discount reason net tax room sid cash byCard (jw_sub actor) now) d1 = Inr (ord, d2)"
      and d': "d' = audit (ou_branch outlet) (Some (jw_sub actor)) ''pos_order.created'' (po_id ord) d2"
    have "db_refunds d1 = db_refunds d \<and> db_payments d1 = db_payments d \<and> db_next d \<le> db_next d1"
      using se
    proof (cases rule: settleOrder_Inr)
      case (room res folio d0 l)
      from writeCharge_lines_only[OF room(6)[unfolded postOutletCharge_def]] ensurePrimary_effect[OF room(4)]
      show ?thesis by (simp add: lines_only_def)
    qed simp
    then show ?thesis using ok by (intro kept_refunds) (simp_all add: d' insert_order_Inr(2)[OF i])
  qed
  show "refunds_inv d' \<and> evolves d d'" if "voidOrder i reason actor now d = Inr (corr, d')"
    using that
  proof (rule voidOrder_Inr)
    fix ord d1 d2
    assume c: "claim_void i (jw_sub actor) now d = Inr d1" and d': "d' = audit (po_branch ord) (Some (jw_sub actor)) ''pos_order.voided'' i d2"
      and k: "corr = None \<and> d2 = d1 \<and> (po_lineItem ord = None \<or> (\<exists>l. po_lineItem ord = Some l \<and> corrected d1 l)) \<or>
         (\<exists>l k. po_lineItem ord = Some l \<and> corr = Some k \<and> correctLineItem l (jw_sub actor) now d1 = Inr (k, d2))"
    have "db_refunds d2 = db_refunds d1 \<and> db_payments d2 = db_payments d1 \<and> db_next d1 \<le> db_next d2"
      using k by (auto elim: correctLineItem_effect)
    then show ?thesis using ok claim_void_Inr[OF c] by (intro kept_refunds) (simp_all add: d')
  qed
qed

lemma moves_refunds:
  "splitFolio f mv a now d = Inr (tr, d') \<Longrightarrow> book_ok d \<Longrightarrow> refunds_inv d \<Longrightarrow> refunds_inv d' \<and> evolves d d'"
  "transferCharges f mv a now d = Inr (tr, d') \<Longrightarrow> book_ok d \<Longrightarrow> refunds_inv d \<Longrightarrow> refunds_inv d' \<and> evolves d d'"
  "reverseTransfer i a now d = Inr (tr, d') \<Longrightarrow> book_ok d \<Longrightarrow> refunds_inv d \<Longrightarrow> refunds_inv d' \<and> evolves d d'"
proof -
  show "splitFolio f mv a now d = Inr (tr, d') \<Longrightarrow> book_ok d \<Longrightarrow> refunds_inv d \<Longrightarrow> refunds_inv d' \<and> evolves d d'"
    "transferCharges f mv a now d = Inr (tr, d') \<Longrightarrow> book_ok d \<Longrightarrow> refunds_inv d \<Longrightarrow> refunds_inv d' \<and> evolves d d'"
    unfolding splitFolio_def transferCharges_def by (rule only_refunds(4)[OF moveCharges_effect], assumption+)+
  assume "reverseTransfer i a now d = Inr (tr, d')" and ok: "book_ok d" "refunds_inv d"
  from reverseTransfer_effect[OF ok(1) this(1)] obtain M src tgt where "moved_by M src tgt d d'" by blast
  then show "refunds_inv d' \<and> evolves d d'" by (rule only_refunds(4)[OF _ ok(2)])
qed

lemma shifts_refunds:
  "openShift br odto a now d = Inr (s, d') \<Longrightarrow> refunds_inv d \<Longrightarrow> refunds_inv d' \<and> evolves d d'" "closeShift i cdto actor now d = Inr (s, d') \<Longrightarrow> refunds_inv d \<Longrightarrow> refunds_inv d' \<and> evolves d d'"
  "addShiftIssue i idto a d = Inr (is, d') \<Longrightarrow> refunds_inv d \<Longrightarrow> refunds_inv d' \<and> evolves d d'" "updateShiftIssue i b res a now d = Inr (is, d') \<Longrightarrow> refunds_inv d \<Longrightarrow> refunds_inv d' \<and> evolves d d'"
proof -
  show "openShift br odto a now d = Inr (s, d') \<Longrightarrow> refunds_inv d \<Longrightarrow> refunds_inv d' \<and> evolves d d'" by (erule openShift_effect) (rule kept_refunds, simp_all)
  show "closeShift i cdto actor now d = Inr (s, d') \<Longrightarrow> refunds_inv d \<Longrightarrow> refunds_inv d' \<and> evolves d d'" by (erule closeShift_effect) (rule kept_refunds)
  have k: "refunds_inv d' \<and> evolves d d'" if "folios_only d (d'\<lparr>db_issues := db_issues d\<rparr>)" "refunds_inv d"
    using that by (intro kept_refunds) (simp_all add: folios_only_def)
  show "addShiftIssue i idto a d = Inr (is, d') \<Longrightarrow> refunds_inv d \<Longrightarrow> refunds_inv d' \<and> evolves d d'" by (rule k) (rule issue_ops_effect, blast)
  show "updateShiftIssue i b res a now d = Inr (is, d') \<Longrightarrow> refunds_inv d \<Longrightarrow> refunds_inv d' \<and> evolves d d'" by (rule k) (rule issue_ops_effect, blast)
qed

lemmas refund_steps = postCharge_lines_only[THEN only_refunds(3)] postDate_lines_only[THEN only_refunds(3)] backfill_lines_only[THEN only_refunds(3)]
  payments_refunds void_refunds correct_refunds createFolio_effect(1)[THEN only_refunds(1)] closeFolio_effect(1)[THEN only_refunds(1)] reopenFolio_effect(1)[THEN only_refunds(1)]
  settle_effect(1)[THEN only_refunds(1)] shifts_refunds orders_refunds menu_ops_effect[THEN only_refunds(2)]

lemma step_refunds: "desk_step D tzo d d' \<Longrightarrow> book_ok d \<Longrightarrow> cash_rows d \<Longrightarrow> refunds_inv d \<Longrightarrow> refunds_inv d' \<and> evolves d d'"
  by (induction rule: desk_step.induct)
    ((erule (1) refund_steps) | (erule (2) moves_refunds) | (blast intro: approve_refunds reject_refunds request_refunds payOut_refunds))+

interpretation refunds: step_invariant "desk_step D tzo" "\<lambda>d. ledger_inv d \<and> drawers_inv d \<and> refunds_inv d" for D tzo
  by unfold_locales (blast intro: step_ledger step_drawers step_refunds[THEN conjunct1] ledger_book drawers_invD(1))

lemma run_evolves:
  assumes "(desk_step D tzo)\<^sup>*\<^sup>* d d'" and "ledger_inv d" and "drawers_inv d" and "refunds_inv d"
  shows "evolves d d'"
  using assms(1)
proof (induction rule: rtranclp_induct)
  case (step x y)
  have "ledger_inv x \<and> drawers_inv x \<and> refunds_inv x" using refunds.run_keeps[OF step.hyps(1)] assms(2-4) by blast
  then have "evolves x y" using step_refunds[OF step.hyps(2)] by (blast intro: ledger_book drawers_invD(1))
  with step.IH show ?case by (rule evolves_trans)
qed (simp add: evolves_same)

section \<open>What the workflow promises\<close>

lemma refund_move_end: "refund_move\<^sup>*\<^sup>* s t \<Longrightarrow> s \<in> {RefundRejected, RefundProcessed} \<Longrightarrow> t = s"
  by (induction rule: rtranclp_induct) auto

text \<open>
  A guest who paid 100 by card with nothing to pay yet, and gets 40 of it back; the manager who
  asks approves it in the same breath.
\<close>

definition desk_clerk :: jwt where
  "desk_clerk = desk_manager\<lparr>jw_roles := [\<lparr>ra_branch = Some 1, ra_role = ''front_desk''\<rparr>]\<rparr>"

definition card_100 :: payment_dto where
  "card_100 = cash_100\<lparr>pd_method := Card\<rparr>"

definition refund_40 :: refund_dto where
  "refund_40 = \<lparr>rd_amount = 40, rd_payment = None, rd_method = Some Card\<rparr>"

definition prepaid_db :: "(refund \<times> db) result" where
  "prepaid_db = bindr (recordPayment decimal_js 10 card_100 None 7 desk_db) (\<lambda>(p, d). requestRefund 10 refund_40 desk_clerk d)"

lemma desk_db_refunds: "refunds_inv desk_db"
  by (simp add: refunds_inv_def own_payouts_def desk_db_def)

lemma refund_40_ok: "is_money (rd_amount refund_40)" "0 < rd_amount refund_40"
  by (simp_all add: refund_40_def is_moneyI[of _ 4000])

lemma prepaid_run: "prepaid_db = Inr (r, d) \<Longrightarrow> (desk_step decimal_js desk_tz)\<^sup>*\<^sup>* desk_db d"
proof -
  assume "prepaid_db = Inr (r, d)"
  then obtain p d1 where "recordPayment decimal_js 10 card_100 None 7 desk_db = Inr (p, d1)" "requestRefund 10 refund_40 desk_clerk d1 = Inr (r, d)"
    by (auto simp: prepaid_db_def res_simps)
  then have "desk_step decimal_js desk_tz desk_db d1" "desk_step decimal_js desk_tz d1 d" using refund_40_ok by (blast intro: record_payment request_refund)+
  then show ?thesis by (meson r_into_rtranclp rtranclp_trans)
qed

lemma prepaid_paid: "prepaid_db = Inr (r, d) \<Longrightarrow> ledger_inv d \<and> drawers_inv d \<and> refunds_inv d"
  using refunds.run_keeps[OF prepaid_run] desk_db_ledger desk_db_drawers desk_db_refunds by blast

lemma map_sum_Inr: "map_sum id f m = Inr y \<Longrightarrow> \<exists>x. m = Inr x \<and> f x = y"
  by (cases m) auto

lemma prepaid_evaluates:
  "\<exists>r d d1 p d2. prepaid_db = Inr (r, d) \<and> rf_status r = RefundPending \<and> approveRefund 101 desk_manager d = Inr d1 \<and> payOut 101 desk_manager 5 d1 = Inr (p, d2) \<and>
     r \<in> set (db_refunds d) \<and> rf_id r = 101"
proof -
  have 1: "map_sum id (\<lambda>(r, d). (rf_status r, rf_id r, map rf_id (db_refunds d))) prepaid_db = Inr (RefundPending, 101, [101])" by code_simp
  obtain r d where p: "prepaid_db = Inr (r, d)" "rf_status r = RefundPending" "rf_id r = 101" using map_sum_Inr[OF 1] by auto
  have "r \<in> set (db_refunds d)"
    using p(1) by (auto simp: prepaid_db_def requestRefund_def res_simps elim!: requestInTx_effect)
  moreover have "\<not> isl (bindr prepaid_db (\<lambda>(r, d). bindr (approveRefund 101 desk_manager d) (\<lambda>d. payOut 101 desk_manager 5 d)))" by code_simp
  then obtain d1 p' d2 where "approveRefund 101 desk_manager d = Inr d1" "payOut 101 desk_manager 5 d1 = Inr (p', d2)"
    unfolding p(1) by (cases "approveRefund 101 desk_manager d"; cases "payOut 101 desk_manager 5 (projr (approveRefund 101 desk_manager d))") auto
  ultimately show ?thesis using p by blast
qed

text \<open>
  C40. The refund workflow is the state machine it is described as. Over any run of the desk, a
  refund only ever goes from asked for to approved, from approved to paid out, or from either of
  the first two to turned down; it keeps its amount, its bill, its method and the payment it is
  taken against, and once it is paid out or turned down it stays so.
\<close>

theorem refund_lifecycle:
  assumes "(desk_step D tzo)\<^sup>*\<^sup>* d d'" and "ledger_inv d" and "drawers_inv d" and "refunds_inv d" and "r \<in> set (db_refunds d)"
  shows "\<exists>r' \<in> set (db_refunds d'). rf_id r' = rf_id r \<and> rf_amount r' = rf_amount r \<and> rf_folio r' = rf_folio r \<and> rf_method r' = rf_method r \<and> rf_payment r' = rf_payment r \<and>
     refund_move\<^sup>*\<^sup>* (rf_status r) (rf_status r') \<and> (rf_status r \<in> {RefundRejected, RefundProcessed} \<longrightarrow> rf_status r' = rf_status r)"
proof -
  obtain r' where "r' \<in> set (db_refunds d')" "same_refund r r'" "refund_move\<^sup>*\<^sup>* (rf_status r) (rf_status r')"
    using run_evolves[OF assms(1-4)] assms(5) unfolding evolves_def by blast
  then show ?thesis using refund_move_end unfolding same_refund_def by blast
qed

theorem refund_lifecycle_witness:
  "\<exists>r d d'. prepaid_db = Inr (r, d) \<and> (desk_step decimal_js desk_tz)\<^sup>*\<^sup>* d d' \<and>
     (\<exists>r' \<in> set (db_refunds d'). rf_id r' = 101 \<and> rf_amount r' = rf_amount r \<and> refund_move\<^sup>*\<^sup>* RefundPending (rf_status r'))"
proof -
  obtain r d d1 p d2 where w: "prepaid_db = Inr (r, d)" "rf_status r = RefundPending" "approveRefund 101 desk_manager d = Inr d1" "payOut 101 desk_manager 5 d1 = Inr (p, d2)"
    "r \<in> set (db_refunds d)" "rf_id r = 101" using prepaid_evaluates by blast
  have run: "(desk_step decimal_js desk_tz)\<^sup>*\<^sup>* d d2" using approve_refund[OF w(3)] pay_out[OF w(4)] by (meson r_into_rtranclp rtranclp_trans)
  from refund_lifecycle[OF run _ _ _ w(5)] prepaid_paid[OF w(1)] w show ?thesis using run by auto
qed

text \<open>
  C39. The money of a refund leaves once. Over any run of the desk, a refund is paid out exactly
  when it names a payment; that payment stands on the refund's own bill for minus the refund's
  amount, nothing the desk does afterwards voids it, and no other refund names it.
\<close>

theorem refund_paid_once:
  assumes "(desk_step D tzo)\<^sup>*\<^sup>* d d'" and "ledger_inv d" and "drawers_inv d" and "refunds_inv d"
  shows "\<forall>r \<in> set (db_refunds d'). (rf_status r = RefundProcessed \<longleftrightarrow> rf_refundPayment r \<noteq> None) \<and>
    (\<forall>p. rf_refundPayment r = Some p \<longrightarrow>
       (\<exists>q \<in> set (db_payments d'). pa_id q = p \<and> pa_folio q = rf_folio r \<and> pa_amount q = - rf_amount r \<and> live_payment q) \<and>
       (\<forall>x \<in> set (db_refunds d'). rf_refundPayment x = Some p \<longrightarrow> rf_id x = rf_id r))"
proof
  fix r assume r: "r \<in> set (db_refunds d')"
  have inv: "refunds_inv d'" using refunds.run_keeps[OF assms(1)] assms(2-4) by blast
  then have ok: "refund_ok d' r" and own: "own_payouts (db_refunds d')" using r unfolding refunds_inv_def by blast+
  have once: "rf_id x = rf_id r" if "x \<in> set (db_refunds d')" "rf_refundPayment x = Some p" "rf_refundPayment r = Some p" for x p
    by (rule own[unfolded own_payouts_def, rule_format, OF that(1) r]) (simp add: that(2,3))
  show "(rf_status r = RefundProcessed \<longleftrightarrow> rf_refundPayment r \<noteq> None) \<and>
    (\<forall>p. rf_refundPayment r = Some p \<longrightarrow>
       (\<exists>q \<in> set (db_payments d'). pa_id q = p \<and> pa_folio q = rf_folio r \<and> pa_amount q = - rf_amount r \<and> live_payment q) \<and>
       (\<forall>x \<in> set (db_refunds d'). rf_refundPayment x = Some p \<longrightarrow> rf_id x = rf_id r))"
    using ok once unfolding refund_ok_def payout_of_def by (cases "rf_refundPayment r") simp_all
qed

theorem refund_paid_once_witness:
  "\<exists>d'. (desk_step decimal_js desk_tz)\<^sup>*\<^sup>* desk_db d' \<and>
     (\<exists>r \<in> set (db_refunds d'). rf_id r = 101 \<and> rf_status r = RefundProcessed \<and>
        (\<exists>q \<in> set (db_payments d'). rf_refundPayment r = Some (pa_id q) \<and> pa_amount q = - rf_amount r \<and> live_payment q))"
proof -
  obtain r d d1 p d2 where w: "prepaid_db = Inr (r, d)" "approveRefund 101 desk_manager d = Inr d1" "payOut 101 desk_manager 5 d1 = Inr (p, d2)"
    using prepaid_evaluates by blast
  have run: "(desk_step decimal_js desk_tz)\<^sup>*\<^sup>* desk_db d2" using prepaid_run[OF w(1)] approve_refund[OF w(2)] pay_out[OF w(3)] by (meson rtranclp.rtrancl_into_rtrancl)
  have 1: "map_sum id (\<lambda>(p, d). map (\<lambda>r. (rf_id r, rf_status r)) (db_refunds d)) (bindr prepaid_db (\<lambda>(r, d). bindr (approveRefund 101 desk_manager d) (payOut 101 desk_manager 5))) = Inr [(101, RefundProcessed)]"
    by code_simp
  then have "map (\<lambda>r. (rf_id r, rf_status r)) (db_refunds d2) = [(101, RefundProcessed)]" unfolding w(1) by (simp add: w(2,3))
  then obtain x where x: "x \<in> set (db_refunds d2)" "rf_id x = 101" "rf_status x = RefundProcessed" by (auto simp: map_eq_Cons_conv)
  note once = bspec[OF refund_paid_once[OF run desk_db_ledger desk_db_drawers desk_db_refunds] x(1)]
  then obtain q where "rf_refundPayment x = Some q" using x(3) by auto
  with once have "\<exists>q \<in> set (db_payments d2). rf_refundPayment x = Some (pa_id q) \<and> pa_amount q = - rf_amount x \<and> live_payment q" by blast
  then show ?thesis using run x by blast
qed

end
