(* ===== verification/Staff.thy ===== *)
theory Staff
  imports Access Dates
begin

text \<open>
  Staff accounts (\<^verbatim>\<open>src/src/modules/users/users.service.ts\<close>) and the acceptance of an
  invitation (\<^verbatim>\<open>acceptInvite\<close> of \<^verbatim>\<open>src/src/modules/auth/auth.service.ts\<close>): who holds which
  role where, pending invitations, deactivation, and the outlets a person works at. The
  store of one tenant is \<open>staff_db\<close>; each handler checks every rule before it writes.

  \<open>bcompare\<close> stands for \<^verbatim>\<open>bcrypt.compare\<close> and \<open>secret\<close> for the random secret of a new
  invitation. E-mails, sessions and refresh tokens are not modelled.
\<close>

section \<open>State\<close>

record staff_user =
  su_id :: nat
  su_email :: string
  su_name :: string
  su_hash :: string
  su_deletedAt :: "instant option"

record assignment =
  as_user :: nat
  as_role :: nat
  as_branch :: "nat option"

record invite =
  iv_id :: nat
  iv_email :: string
  iv_token :: string
  iv_role :: nat
  iv_branch :: "nat option"
  iv_by :: nat
  iv_expiresAt :: instant
  iv_acceptedAt :: "instant option"

record user_outlet =
  uo_user :: nat
  uo_outlet :: nat
  uo_branch :: nat

record staff_db =
  sd_tenant :: nat
  sd_open :: bool
  sd_roles :: "role_grant list"
  sd_branches :: "nat list"
  sd_users :: "staff_user list"
  sd_assign :: "assignment list"
  sd_invites :: "invite list"
  sd_outlets :: "(nat \<times> nat) list"
  sd_userOutlets :: "user_outlet list"
  sd_emailIndex :: "(string \<times> nat) list"
  sd_audit :: "(nat \<times> string) list"

definition sd_log :: "nat \<Rightarrow> string \<Rightarrow> staff_db \<Rightarrow> staff_db" where
  "sd_log actor action s = s\<lparr>sd_audit := sd_audit s @ [(actor, action)]\<rparr>"

definition roleById :: "staff_db \<Rightarrow> nat \<Rightarrow> role_grant option" where
  "roleById s i = List.find (\<lambda>r. rg_id r = i) (sd_roles s)"

text \<open>The name an assignment's role has; every assignment refers to a role (a foreign key).\<close>

definition roleName :: "staff_db \<Rightarrow> nat \<Rightarrow> string" where
  "roleName s i = (case roleById s i of None \<Rightarrow> '''' | Some r \<Rightarrow> rg_name r)"

definition heldRoles :: "staff_db \<Rightarrow> nat \<Rightarrow> role_assignment list" where
  "heldRoles s userId =
     map (\<lambda>a. \<lparr>ra_branch = as_branch a, ra_role = roleName s (as_role a)\<rparr>)
       (filter (\<lambda>a. as_user a = userId) (sd_assign s))"

text \<open>
  A request carries the roles its account holds now: \<^verbatim>\<open>AccountStatusService\<close> re-reads them,
  and \<^verbatim>\<open>patchStaff\<close> makes it forget what it had cached.
\<close>

definition actor_of :: "staff_db \<Rightarrow> nat \<Rightarrow> jwt" where
  "actor_of s u = \<lparr>jw_sub = u, jw_tenant = sd_tenant s, jw_roles = heldRoles s u, jw_apiKey = None\<rparr>"

definition assertBranch :: "staff_db \<Rightarrow> nat \<Rightarrow> unit result" where
  "assertBranch s branchId = (if branchId \<notin> set (sd_branches s) then Inl (NotFound NOT_FOUND) else Inr ())"

section \<open>Outlets\<close>

definition assertMayAssignOutlets :: "jwt \<Rightarrow> nat \<Rightarrow> role_assignment list \<Rightarrow> nat \<Rightarrow> unit result" where
  "assertMayAssignOutlets actor userId held branchId =
     (if \<not> managesBranch actor (Some branchId) then Inl (Forbidden FORBIDDEN)
      else if userId \<noteq> jw_sub actor \<and> \<not> isOwner actor \<and>
              (\<exists>r \<in> set held. ra_role r = ''owner'' \<or> ra_role r = ''manager'') then Inl (Forbidden FORBIDDEN)
      else Inr ())"

text \<open>
  The check counts distinct ids, the insert writes one row per id given: an id given twice
  breaks the unique index on person and outlet.
\<close>

definition replaceOutlets :: "nat \<Rightarrow> nat \<Rightarrow> nat list \<Rightarrow> staff_db \<Rightarrow> staff_db result" where
  "replaceOutlets userId branchId outletIds s =
     (if outletIds \<noteq> [] \<and>
         length (filter (\<lambda>(i, b). i \<in> set outletIds \<and> b = branchId) (sd_outlets s)) \<noteq> length (remdups outletIds)
      then Inl (BadRequest VALIDATION_FAILED)
      else if \<not> distinct outletIds then Inl UniqueViolation
      else Inr (s\<lparr>sd_userOutlets :=
             filter (\<lambda>r. \<not> (uo_user r = userId \<and> uo_branch r = branchId)) (sd_userOutlets s) @
             map (\<lambda>i. \<lparr>uo_user = userId, uo_outlet = i, uo_branch = branchId\<rparr>) outletIds\<rparr>))"

definition setUserOutlets :: "nat \<Rightarrow> nat \<Rightarrow> nat \<Rightarrow> nat list \<Rightarrow> staff_db \<Rightarrow> staff_db result" where
  "setUserOutlets actor userId branchId outletIds s =
     (case List.find (\<lambda>u. su_id u = userId \<and> su_deletedAt u = None) (sd_users s) of
        None \<Rightarrow> Inl (NotFound NOT_FOUND)
      | Some _ \<Rightarrow>
          bindr (assertMayAssignOutlets (actor_of s actor) userId (heldRoles s userId) branchId) (\<lambda>_.
          bindr (replaceOutlets userId branchId outletIds s) (\<lambda>s.
            Inr (sd_log actor ''staff.outlets_set'' s))))"

text \<open>What the asker may see of somebody's outlets.\<close>

definition getUserOutlets :: "nat \<Rightarrow> nat \<Rightarrow> staff_db \<Rightarrow> user_outlet list" where
  "getUserOutlets actor userId s =
     filter (\<lambda>r. managesBranch (actor_of s actor) (Some (uo_branch r)))
       (filter (\<lambda>r. uo_user r = userId) (sd_userOutlets s))"

section \<open>Role, account and outlet changes\<close>

record patch_staff_dto =
  ps_roleId :: "nat option"
  ps_branchId :: "nat option"
  ps_outletIds :: "nat list option"
  ps_active :: "bool option"

text \<open>The check of a role change: the role's name, when the request names a role.\<close>

definition check_role_change :: "staff_db \<Rightarrow> nat \<Rightarrow> nat \<Rightarrow> patch_staff_dto \<Rightarrow> unit result" where
  "check_role_change s actor userId dto =
     (case ps_roleId dto of
        None \<Rightarrow> Inr ()
      | Some rid \<Rightarrow>
          (case roleById s rid of
             None \<Rightarrow> Inl (BadRequest NOT_FOUND)
           | Some role \<Rightarrow>
               (case whyCannotChangeRoleAt (actor_of s actor) userId (heldRoles s userId) (ps_branchId dto) of
                  Some _ \<Rightarrow> Inl (Forbidden FORBIDDEN)
                | None \<Rightarrow>
                    bindr (assertMayGrant (actor_of s actor) (rg_name role) (ps_branchId dto)) (\<lambda>_.
                      case ps_branchId dto of None \<Rightarrow> Inr () | Some b \<Rightarrow> assertBranch s b))))"

definition set_active :: "nat \<Rightarrow> bool \<Rightarrow> instant \<Rightarrow> staff_db \<Rightarrow> staff_db" where
  "set_active userId active now s =
     s\<lparr>sd_users := map (\<lambda>u. if su_id u = userId
         then u\<lparr>su_deletedAt := (if active then None else Some (the_default now (su_deletedAt u)))\<rparr> else u) (sd_users s)\<rparr>"

definition replace_assignment :: "nat \<Rightarrow> nat \<Rightarrow> nat option \<Rightarrow> staff_db \<Rightarrow> staff_db" where
  "replace_assignment userId roleId branchId s =
     s\<lparr>sd_assign := filter (\<lambda>a. \<not> (as_user a = userId \<and> as_branch a = branchId)) (sd_assign s) @
         [\<lparr>as_user = userId, as_role = roleId, as_branch = branchId\<rparr>]\<rparr>"

definition patchStaff :: "nat \<Rightarrow> nat \<Rightarrow> patch_staff_dto \<Rightarrow> instant \<Rightarrow> staff_db \<Rightarrow> staff_db result" where
  "patchStaff actor userId dto now s =
     (if ps_roleId dto = None \<and> ps_outletIds dto = None \<and> ps_active dto = None then Inl (BadRequest VALIDATION_FAILED)
      else if ps_outletIds dto \<noteq> None \<and> ps_branchId dto = None then Inl (BadRequest VALIDATION_FAILED)
      else case List.find (\<lambda>u. su_id u = userId) (sd_users s) of
        None \<Rightarrow> Inl (NotFound NOT_FOUND)
      | Some _ \<Rightarrow>
          bindr (if ps_active dto \<noteq> None then assertMayManageAccount (actor_of s actor) userId (heldRoles s userId) else Inr ()) (\<lambda>_.
          bindr (check_role_change s actor userId dto) (\<lambda>_.
          bindr (case (ps_outletIds dto, ps_branchId dto) of
                   (Some _, Some b) \<Rightarrow> assertMayAssignOutlets (actor_of s actor) userId (heldRoles s userId) b
                 | _ \<Rightarrow> Inr ()) (\<lambda>_.
          (let s = (case ps_active dto of None \<Rightarrow> s | Some active \<Rightarrow> set_active userId active now s);
               s = (case ps_roleId dto of None \<Rightarrow> s | Some rid \<Rightarrow> replace_assignment userId rid (ps_branchId dto) s)
           in bindr (case (ps_outletIds dto, ps_branchId dto) of
                       (Some os, Some b) \<Rightarrow> replaceOutlets userId b os s
                     | _ \<Rightarrow> Inr s) (\<lambda>s.
              Inr (sd_log actor ''staff.updated'' s)))))))"

section \<open>Invitations\<close>

definition INVITE_TTL_HOURS :: int where "INVITE_TTL_HOURS = 72"

definition fresh_invite :: "staff_db \<Rightarrow> nat" where
  "fresh_invite s = Suc (Max (insert 0 (set (map iv_id (sd_invites s)))))"

text \<open>One row of the request: the pending invitation for the same target is replaced.\<close>

definition invite_one :: "(nat \<Rightarrow> string) \<Rightarrow> nat \<Rightarrow> nat \<Rightarrow> instant \<Rightarrow> string \<times> nat \<Rightarrow> staff_db \<Rightarrow> staff_db" where
  "invite_one secret actor branchId now row s =
     (case row of (email, rid) \<Rightarrow>
        let kept = filter (\<lambda>v. \<not> (iv_email v = email \<and> iv_role v = rid \<and> iv_branch v = Some branchId \<and> iv_acceptedAt v = None))
                     (sd_invites s);
            i = fresh_invite s
        in s\<lparr>sd_invites := kept @ [\<lparr>iv_id = i, iv_email = email, iv_token = secret i, iv_role = rid,
               iv_branch = Some branchId, iv_by = actor,
               iv_expiresAt = now + INVITE_TTL_HOURS * 3600000, iv_acceptedAt = None\<rparr>]\<rparr>)"

fun grant_all :: "jwt \<Rightarrow> nat \<Rightarrow> role_grant list \<Rightarrow> unit result" where
  "grant_all actor branchId [] = Inr ()"
| "grant_all actor branchId (r # rs) =
     bindr (assertMayGrant actor (rg_name r) (Some branchId)) (\<lambda>_. grant_all actor branchId rs)"

definition bulkInvite :: "(nat \<Rightarrow> string) \<Rightarrow> nat \<Rightarrow> nat \<Rightarrow> (string \<times> nat) list \<Rightarrow> instant \<Rightarrow> staff_db \<Rightarrow> staff_db result" where
  "bulkInvite secret actor branchId invites now s =
     bindr (assertBranch s branchId) (\<lambda>_.
       let roleIds = js_unique (map snd invites);
           roles = filter (\<lambda>r. rg_id r \<in> set roleIds) (sd_roles s)
       in if length roles \<noteq> length roleIds then Inl (BadRequest NOT_FOUND)
       else bindr (grant_all (actor_of s actor) branchId roles) (\<lambda>_.
         if \<exists>u \<in> set (sd_users s). su_email u \<in> set (map fst invites) \<and> su_deletedAt u \<noteq> None then Inl (Conflict CONFLICT)
         else Inr (sd_log actor ''staff.bulk_invite'' (fold (invite_one secret actor branchId now) invites s))))"

definition cancelInvite :: "nat \<Rightarrow> nat \<Rightarrow> staff_db \<Rightarrow> staff_db result" where
  "cancelInvite actor inviteId s =
     (case List.find (\<lambda>v. iv_id v = inviteId \<and> iv_acceptedAt v = None) (sd_invites s) of
        None \<Rightarrow> Inl (NotFound NOT_FOUND)
      | Some v \<Rightarrow>
          bindr (assertMayGrant (actor_of s actor) (roleName s (iv_role v)) (iv_branch v)) (\<lambda>_.
            Inr (sd_log actor ''staff.invite_cancelled''
              (s\<lparr>sd_invites := filter (\<lambda>w. iv_id w \<noteq> iv_id v) (sd_invites s)\<rparr>))))"

text \<open>\<^verbatim>\<open>/^(?=.*[a-z])(?=.*[A-Z])(?=.*\\d).{8,}$/\<close>, of a password on one line.\<close>

definition STRONG_PASSWORD :: "string \<Rightarrow> bool" where
  "STRONG_PASSWORD p \<longleftrightarrow> 8 \<le> length p \<and>
     (\<exists>c \<in> set p. CHR ''a'' \<le> c \<and> c \<le> CHR ''z'') \<and>
     (\<exists>c \<in> set p. CHR ''A'' \<le> c \<and> c \<le> CHR ''Z'') \<and>
     (\<exists>c \<in> set p. CHR ''0'' \<le> c \<and> c \<le> CHR ''9'') \<and>
     CHR 0x0A \<notin> set p \<and> CHR 0x0D \<notin> set p"

definition attachInvitedRole :: "nat \<Rightarrow> invite \<Rightarrow> instant \<Rightarrow> staff_db \<Rightarrow> staff_db" where
  "attachInvitedRole userId v now s =
     (let row = \<lparr>as_user = userId, as_role = iv_role v, as_branch = iv_branch v\<rparr>;
          s = (if row \<in> set (sd_assign s) then s else s\<lparr>sd_assign := sd_assign s @ [row]\<rparr>)
      in sd_log userId ''auth.accept_invite''
           (s\<lparr>sd_invites := map (\<lambda>w. if iv_id w = iv_id v then w\<lparr>iv_acceptedAt := Some now\<rparr> else w) (sd_invites s)\<rparr>))"

definition fresh_user :: "staff_db \<Rightarrow> nat" where
  "fresh_user s = Suc (Max (insert 0 (set (map su_id (sd_users s)) \<union> set (map as_user (sd_assign s)))))"

definition create_user :: "(string \<Rightarrow> string) \<Rightarrow> invite \<Rightarrow> string \<Rightarrow> string \<Rightarrow> staff_db \<Rightarrow> staff_db" where
  "create_user bhash v name password s =
     s\<lparr>sd_users := sd_users s @ [\<lparr>su_id = fresh_user s, su_email = iv_email v, su_name = js_trim name,
          su_hash = bhash password, su_deletedAt = None\<rparr>],
       sd_emailIndex := sd_emailIndex s @ [(iv_email v, sd_tenant s)]\<rparr>"

definition acceptInvite ::
  "(string \<Rightarrow> string) \<Rightarrow> (string \<Rightarrow> string \<Rightarrow> bool) \<Rightarrow> string \<Rightarrow> string option \<Rightarrow> string \<Rightarrow> instant \<Rightarrow> staff_db \<Rightarrow> staff_db result" where
  "acceptInvite bhash bcompare token name password now s =
     (case List.find (\<lambda>v. iv_token v = token) (sd_invites s) of
        None \<Rightarrow> Inl (BadRequest INVITE_INVALID)
      | Some v \<Rightarrow>
          if iv_acceptedAt v \<noteq> None \<or> iv_expiresAt v < now then Inl (BadRequest INVITE_INVALID)
          else if \<not> sd_open s then Inl (Forbidden TENANT_SUSPENDED)
          else case List.find (\<lambda>u. su_email u = iv_email v) (sd_users s) of
            Some u \<Rightarrow>
              if su_deletedAt u \<noteq> None then Inl (Conflict CONFLICT)
              else if \<not> bcompare password (su_hash u) then Inl (Unauthorized INVALID_CREDENTIALS)
              else Inr (attachInvitedRole (su_id u) v now s)
          | None \<Rightarrow>
              if (case name of None \<Rightarrow> True | Some n \<Rightarrow> length (js_trim n) < 2) then Inl (BadRequest VALIDATION_FAILED)
              else if \<not> STRONG_PASSWORD password then Inl (BadRequest VALIDATION_FAILED)
              else case map_of (sd_emailIndex s) (iv_email v) of
                Some t \<Rightarrow> if t \<noteq> sd_tenant s then Inl (Conflict EMAIL_TAKEN) else Inl UniqueViolation
              | None \<Rightarrow>
                  Inr (attachInvitedRole (fresh_user s) v now (create_user bhash v (the name) password s)))"

section \<open>Runs\<close>

text \<open>One request that changes the store, by the person it names; accepting an invitation needs no account.\<close>

inductive staff_step :: "staff_db \<Rightarrow> nat option \<Rightarrow> staff_db \<Rightarrow> bool" where
  patched: "patchStaff actor u dto now s = Inr s' \<Longrightarrow> staff_step s (Some actor) s'"
| invited: "bulkInvite secret actor b rows now s = Inr s' \<Longrightarrow> staff_step s (Some actor) s'"
| withdrawn: "cancelInvite actor i s = Inr s' \<Longrightarrow> staff_step s (Some actor) s'"
| outlets: "setUserOutlets actor u b os s = Inr s' \<Longrightarrow> staff_step s (Some actor) s'"
| accepted: "acceptInvite bhash bcompare token name password now s = Inr s' \<Longrightarrow> staff_step s None s'"

inductive staff_reach :: "(nat \<Rightarrow> bool) \<Rightarrow> staff_db \<Rightarrow> staff_db \<Rightarrow> bool" for by_whom s where
  stay: "staff_reach by_whom s s"
| step: "staff_reach by_whom s t \<Longrightarrow> staff_step t who t' \<Longrightarrow> (case who of None \<Rightarrow> True | Some a \<Rightarrow> by_whom a) \<Longrightarrow>
    staff_reach by_whom s t'"

inductive_cases staff_stepE: "staff_step s who s'"

text \<open>Assignments and pending invitations whose role satisfies a predicate on names.\<close>

definition holds :: "(string \<Rightarrow> bool) \<Rightarrow> staff_db \<Rightarrow> assignment set" where
  "holds P s = {a \<in> set (sd_assign s). P (roleName s (as_role a))}"

definition offers :: "(string \<Rightarrow> bool) \<Rightarrow> staff_db \<Rightarrow> (nat \<times> nat option) set" where
  "offers P s = {(iv_role v, iv_branch v) |v. v \<in> set (sd_invites s) \<and> iv_acceptedAt v = None \<and> P (roleName s (iv_role v))}"

definition senior :: "string \<Rightarrow> bool" where
  "senior r \<longleftrightarrow> r \<in> set SENIOR_ROLES"

section \<open>What a request leaves alone\<close>

lemma sd_log_sel [simp]:
  "sd_roles (sd_log a x s) = sd_roles s" "sd_assign (sd_log a x s) = sd_assign s"
  "sd_invites (sd_log a x s) = sd_invites s" "sd_users (sd_log a x s) = sd_users s"
  "sd_userOutlets (sd_log a x s) = sd_userOutlets s" "sd_outlets (sd_log a x s) = sd_outlets s"
  by (simp_all add: sd_log_def)

lemma roleName_cong: "sd_roles s' = sd_roles s \<Longrightarrow> roleName s' = roleName s"
  by (rule ext) (simp add: roleName_def roleById_def)

lemma set_active_sel [simp]:
  "sd_roles (set_active u a n s) = sd_roles s" "sd_assign (set_active u a n s) = sd_assign s"
  "sd_invites (set_active u a n s) = sd_invites s" "sd_userOutlets (set_active u a n s) = sd_userOutlets s"
  "sd_outlets (set_active u a n s) = sd_outlets s"
  by (simp_all add: set_active_def)

lemma replace_assignment_sel [simp]:
  "sd_roles (replace_assignment u r b s) = sd_roles s"
  "sd_invites (replace_assignment u r b s) = sd_invites s" "sd_users (replace_assignment u r b s) = sd_users s"
  "sd_userOutlets (replace_assignment u r b s) = sd_userOutlets s" "sd_outlets (replace_assignment u r b s) = sd_outlets s"
  "set (sd_assign (replace_assignment u r b s)) =
     insert \<lparr>as_user = u, as_role = r, as_branch = b\<rparr> {a \<in> set (sd_assign s). \<not> (as_user a = u \<and> as_branch a = b)}"
  by (auto simp: replace_assignment_def)

lemma replaceOutlets_Inr:
  assumes "replaceOutlets u b os s = Inr s'"
  shows "s' = s\<lparr>sd_userOutlets := filter (\<lambda>r. \<not> (uo_user r = u \<and> uo_branch r = b)) (sd_userOutlets s) @
           map (\<lambda>i. \<lparr>uo_user = u, uo_outlet = i, uo_branch = b\<rparr>) os\<rparr>"
    and "distinct os"
  using assms by (auto simp: replaceOutlets_def split: if_splits)

lemma patchStaff_Inr:
  assumes "patchStaff actor u dto now s = Inr s'"
  shows "check_role_change s actor u dto = Inr ()" and "sd_roles s' = sd_roles s" and "sd_invites s' = sd_invites s"
    and "sd_assign s' = (case ps_roleId dto of None \<Rightarrow> sd_assign s
           | Some r \<Rightarrow> sd_assign (replace_assignment u r (ps_branchId dto) s))"
  using assms
  by (auto simp: patchStaff_def Let_def res_simps replace_assignment_def dest!: replaceOutlets_Inr(1)
      split: if_splits option.splits)

lemma check_role_change_Inr:
  assumes "check_role_change s actor u dto = Inr ()" and "ps_roleId dto = Some rid"
  shows "whyCannotChangeRoleAt (actor_of s actor) u (heldRoles s u) (ps_branchId dto) = None"
    and "whyCannotGrant (actor_of s actor) (roleName s rid) (ps_branchId dto) = None"
  using assms by (auto simp: check_role_change_def res_simps assertMayGrant_Inr roleName_def split: option.splits)

lemma mem_heldRoles:
  "a \<in> set (sd_assign s) \<Longrightarrow> \<lparr>ra_branch = as_branch a, ra_role = roleName s (as_role a)\<rparr> \<in> set (heldRoles s (as_user a))"
  by (auto simp: heldRoles_def)

lemma isOwner_actor_of: "isOwner (actor_of s u) \<longleftrightarrow> (\<exists>a \<in> holds (\<lambda>r. r = ''owner'') s. as_user a = u)"
  by (auto simp: isOwner_def actor_of_def heldRoles_def holds_def)

lemma invite_one_sel:
  "sd_roles (invite_one f a b n row s) = sd_roles s" "sd_assign (invite_one f a b n row s) = sd_assign s"
  "v \<in> set (sd_invites (invite_one f a b n row s)) \<Longrightarrow>
     v \<in> set (sd_invites s) \<or> iv_role v = snd row \<and> iv_branch v = Some b"
  by (auto simp: invite_one_def Let_def split: prod.splits)

lemma invite_fold:
  "sd_roles (fold (invite_one f a b n) rows s) = sd_roles s \<and> sd_assign (fold (invite_one f a b n) rows s) = sd_assign s \<and>
   (\<forall>v \<in> set (sd_invites (fold (invite_one f a b n) rows s)).
      v \<in> set (sd_invites s) \<or> iv_role v \<in> set (map snd rows) \<and> iv_branch v = Some b)"
proof (induction rows arbitrary: s)
  case (Cons row rows)
  show ?case using Cons[of "invite_one f a b n row s"] invite_one_sel(1,2)[of f a b n row s]
      invite_one_sel(3)[of _ f a b n row s] by fastforce
qed simp

lemma grant_all_Inr:
  "grant_all actor b rs = Inr () \<Longrightarrow> r \<in> set rs \<Longrightarrow> whyCannotGrant actor (rg_name r) (Some b) = None"
  by (induction rs) (auto simp: res_simps assertMayGrant_Inr)

lemma roles_all_present:
  assumes "distinct (map rg_id rs)" and "length (filter (\<lambda>r. rg_id r \<in> set ids) rs) = length ids"
    and "distinct ids" and "i \<in> set ids"
  shows "\<exists>r. List.find (\<lambda>r. rg_id r = i) rs = Some r \<and> r \<in> set (filter (\<lambda>r. rg_id r \<in> set ids) rs)"
proof -
  let ?f = "filter (\<lambda>r. rg_id r \<in> set ids) rs"
  have "distinct (map rg_id ?f)" using assms(1) by (rule distinct_map_filter)
  then have "card (rg_id ` set ?f) = length ids" using assms(2) distinct_card by fastforce
  moreover have "rg_id ` set ?f \<subseteq> set ids" by auto
  moreover have "card (set ids) = length ids" using assms(3) by (rule distinct_card)
  ultimately have "rg_id ` set ?f = set ids" by (metis card_subset_eq List.finite_set)
  with assms(4) obtain r0 where r0: "r0 \<in> set rs" "rg_id r0 = i" by force
  then obtain r where r: "List.find (\<lambda>r. rg_id r = i) rs = Some r"
    by (cases "List.find (\<lambda>r. rg_id r = i) rs") (auto simp: find_None_iff)
  from find_Some_mem[OF r] assms(4) have "r \<in> set ?f" by simp
  with r show ?thesis by blast
qed

text \<open>A bulk invitation offers only roles its maker may grant.\<close>

lemma bulkInvite_Inr:
  assumes "bulkInvite f actor b rows now s = Inr s'" and "distinct (map rg_id (sd_roles s))"
  shows "sd_roles s' = sd_roles s" and "sd_assign s' = sd_assign s"
    and "\<And>v. v \<in> set (sd_invites s') \<Longrightarrow> v \<in> set (sd_invites s) \<or>
           whyCannotGrant (actor_of s actor) (roleName s (iv_role v)) (iv_branch v) = None"
proof -
  let ?ids = "js_unique (map snd rows)"
  from assms(1) have len: "length (filter (\<lambda>r. rg_id r \<in> set ?ids) (sd_roles s)) = length ?ids"
    and g: "grant_all (actor_of s actor) b (filter (\<lambda>r. rg_id r \<in> set ?ids) (sd_roles s)) = Inr ()"
    and s': "s' = sd_log actor ''staff.bulk_invite'' (fold (invite_one f actor b now) rows s)"
    by (auto simp: bulkInvite_def Let_def res_simps split: if_splits)
  show "sd_roles s' = sd_roles s" "sd_assign s' = sd_assign s" using invite_fold[of f actor b now rows s] s' by simp_all
  fix v assume v: "v \<in> set (sd_invites s')"
  show "v \<in> set (sd_invites s) \<or> whyCannotGrant (actor_of s actor) (roleName s (iv_role v)) (iv_branch v) = None"
  proof (cases "v \<in> set (sd_invites s)")
    case False
    with v s' invite_fold[of f actor b now rows s] have "iv_role v \<in> set ?ids" and b: "iv_branch v = Some b" by auto
    from roles_all_present[OF assms(2) len distinct_js_unique this(1)] obtain r where
      "roleById s (iv_role v) = Some r" "r \<in> set (filter (\<lambda>r. rg_id r \<in> set ?ids) (sd_roles s))"
      by (auto simp: roleById_def)
    with grant_all_Inr[OF g this(2)] b show ?thesis by (simp add: roleName_def)
  qed simp
qed

lemma attachInvitedRole_sel:
  "sd_roles (attachInvitedRole u v n s) = sd_roles s"
  "set (sd_assign (attachInvitedRole u v n s)) = insert \<lparr>as_user = u, as_role = iv_role v, as_branch = iv_branch v\<rparr> (set (sd_assign s))"
  "sd_invites (attachInvitedRole u v n s) = map (\<lambda>w. if iv_id w = iv_id v then w\<lparr>iv_acceptedAt := Some n\<rparr> else w) (sd_invites s)"
  by (auto simp: attachInvitedRole_def Let_def)

lemma acceptInvite_Inr:
  assumes "acceptInvite bh bc tok name pw now s = Inr s'"
  obtains v u where "v \<in> set (sd_invites s)" and "iv_acceptedAt v = None" and "sd_roles s' = sd_roles s"
    and "set (sd_assign s') = insert \<lparr>as_user = u, as_role = iv_role v, as_branch = iv_branch v\<rparr> (set (sd_assign s))"
    and "sd_invites s' = map (\<lambda>w. if iv_id w = iv_id v then w\<lparr>iv_acceptedAt := Some now\<rparr> else w) (sd_invites s)"
proof -
  from assms obtain v where v: "List.find (\<lambda>v. iv_token v = tok) (sd_invites s) = Some v" "iv_acceptedAt v = None"
    by (auto simp: acceptInvite_def split: option.splits if_splits)
  with assms obtain u t where "s' = attachInvitedRole u v now t" "sd_roles t = sd_roles s"
      "sd_assign t = sd_assign s" "sd_invites t = sd_invites s"
    by (auto simp: acceptInvite_def create_user_def split: option.splits if_splits)
  with v that[of v u] find_Some_mem[OF v(1)] show thesis by (simp add: attachInvitedRole_sel)
qed

section \<open>Roles that cannot be handed out\<close>

text \<open>
  A class \<open>P\<close> of roles is protected from the people satisfying \<open>ok\<close> when none of them may
  grant a role of the class, nor change the role of somebody who holds one. The two
  instances are the owner's role, protected from everybody, and the senior roles, protected
  from everybody but the owner.
\<close>

locale protected_roles =
  fixes P :: "string \<Rightarrow> bool" and ok :: "jwt \<Rightarrow> bool"
  assumes no_grant: "ok a \<Longrightarrow> whyCannotGrant a r b = None \<Longrightarrow> \<not> P r"
    and no_change: "ok a \<Longrightarrow> whyCannotChangeRoleAt a u held b = None \<Longrightarrow> x \<in> set held \<Longrightarrow> \<not> P (ra_role x)"
begin

lemma patchStaff_holds:
  assumes "patchStaff actor u dto now s = Inr s'" and "ok (actor_of s actor)"
  shows "holds P s' = holds P s"
proof (cases "ps_roleId dto")
  case None
  then show ?thesis using patchStaff_Inr[OF assms(1)] roleName_cong[of s' s] by (simp add: holds_def)
next
  case (Some rid)
  let ?b = "ps_branchId dto"
  note p = patchStaff_Inr[OF assms(1)]
  note c = check_role_change_Inr[OF p(1) Some]
  have "\<not> P (roleName s rid)" using no_grant[OF assms(2) c(2)] .
  moreover have "\<not> P (roleName s (as_role a))" if "a \<in> set (sd_assign s)" "as_user a = u" for a
    using no_change[OF assms(2) c(1), of "\<lparr>ra_branch = as_branch a, ra_role = roleName s (as_role a)\<rparr>"]
      mem_heldRoles[OF that(1)] that(2) by simp
  ultimately show ?thesis using p(2,4) roleName_cong[OF p(2)] Some by (auto simp: holds_def)
qed

lemma step:
  assumes "staff_step s who s'" and "\<And>a. who = Some a \<Longrightarrow> ok (actor_of s a)"
    and "distinct (map rg_id (sd_roles s))"
  shows "sd_roles s' = sd_roles s \<and> holds P s \<subseteq> holds P s' \<and> offers P s' \<subseteq> offers P s \<and>
     (\<forall>a \<in> holds P s' - holds P s. (as_role a, as_branch a) \<in> offers P s)"
  using assms(1)
proof (cases rule: staff_step.cases)
  case (patched actor u dto now)
  note p = patchStaff_Inr[OF patched(2)]
  from assms(2)[OF patched(1)] patchStaff_holds[OF patched(2)] p(2,3) roleName_cong[OF p(2)]
  show ?thesis by (simp add: offers_def)
next
  case (invited secret actor b rows now)
  note i = bulkInvite_Inr[OF invited(2) assms(3)]
  have "iv_acceptedAt v = None \<Longrightarrow> P (roleName s (iv_role v)) \<Longrightarrow> v \<in> set (sd_invites s)" if "v \<in> set (sd_invites s')" for v
    using i(3)[OF that] no_grant[OF assms(2)[OF invited(1)]] by blast
  then have "offers P s' \<subseteq> offers P s" unfolding offers_def using roleName_cong[OF i(1)] by auto
  moreover have "holds P s' = holds P s" using i(1,2) roleName_cong[OF i(1)] by (simp add: holds_def)
  ultimately show ?thesis using i(1) by simp
next
  case (withdrawn actor i)
  then have "sd_roles s' = sd_roles s" "sd_assign s' = sd_assign s" "set (sd_invites s') \<subseteq> set (sd_invites s)"
    by (auto simp: cancelInvite_def res_simps split: option.splits)
  then show ?thesis using roleName_cong[of s' s] by (auto simp: holds_def offers_def)
next
  case (outlets actor u b os)
  then have "sd_roles s' = sd_roles s" "sd_assign s' = sd_assign s" "sd_invites s' = sd_invites s"
    by (auto simp: setUserOutlets_def res_simps dest!: replaceOutlets_Inr(1) split: option.splits)
  then show ?thesis using roleName_cong[of s' s] by (simp add: holds_def offers_def)
next
  case (accepted bhash bcompare token name password now)
  from accepted(2) obtain v u where v: "v \<in> set (sd_invites s)" "iv_acceptedAt v = None" and r: "sd_roles s' = sd_roles s"
    and a: "set (sd_assign s') = insert \<lparr>as_user = u, as_role = iv_role v, as_branch = iv_branch v\<rparr> (set (sd_assign s))"
    and w: "sd_invites s' = map (\<lambda>w. if iv_id w = iv_id v then w\<lparr>iv_acceptedAt := Some now\<rparr> else w) (sd_invites s)"
    by (rule acceptInvite_Inr)
  have "offers P s' \<subseteq> offers P s" unfolding offers_def roleName_cong[OF r] w by auto
  moreover have "(as_role x, as_branch x) \<in> offers P s" if "x \<in> holds P s' - holds P s" for x
    using that v a roleName_cong[OF r] by (auto simp: holds_def offers_def)
  ultimately show ?thesis using r a roleName_cong[OF r] by (auto simp: holds_def)
qed

end

interpretation owner_role: protected_roles "\<lambda>r. r = ''owner''" "\<lambda>_. True"
proof (unfold_locales, goal_cases)
  case (1 a r b)
  then show ?case by (simp add: whyCannotGrant_None)
next
  case (2 a u held b x)
  then show ?case using changeable_no_owner by blast
qed

interpretation senior_roles: protected_roles senior "\<lambda>a. \<not> isOwner a"
proof (unfold_locales, goal_cases)
  case (1 a r b)
  then show ?case by (simp add: whyCannotGrant_None senior_def SENIOR_ROLES_def)
next
  case (2 a u held b x)
  then show ?case using changeable_no_senior senior_def by blast
qed

lemma owners_fixed:
  assumes "staff_reach by_whom s t" and "distinct (map rg_id (sd_roles s))" and "offers (\<lambda>r. r = ''owner'') s = {}"
  shows "sd_roles t = sd_roles s \<and> offers (\<lambda>r. r = ''owner'') t = {} \<and>
     holds (\<lambda>r. r = ''owner'') t = holds (\<lambda>r. r = ''owner'') s"
  using assms(1)
proof (induction rule: staff_reach.induct)
  case (step t who t')
  then show ?case using owner_role.step[OF step(2)] assms(2) by auto
qed (simp add: assms(3))

section \<open>Examples\<close>

text \<open>A branch manager (5) and the owner (1); the manager invites somebody to the front desk.\<close>

definition ex_staff :: staff_db where
  "ex_staff = \<lparr>sd_tenant = 1, sd_open = True,
     sd_roles = [\<lparr>rg_id = 1, rg_name = ''owner'', rg_isSystem = True, rg_permissions = []\<rparr>,
                 \<lparr>rg_id = 2, rg_name = ''manager'', rg_isSystem = True, rg_permissions = []\<rparr>,
                 \<lparr>rg_id = 3, rg_name = ''front_desk'', rg_isSystem = True, rg_permissions = []\<rparr>],
     sd_branches = [3],
     sd_users = [\<lparr>su_id = 1, su_email = ''o'', su_name = ''Ola'', su_hash = ''x'', su_deletedAt = None\<rparr>,
                 \<lparr>su_id = 5, su_email = ''m'', su_name = ''Mo'', su_hash = ''y'', su_deletedAt = None\<rparr>,
                 \<lparr>su_id = 6, su_email = ''f'', su_name = ''Fay'', su_hash = ''z'', su_deletedAt = None\<rparr>],
     sd_assign = [\<lparr>as_user = 1, as_role = 1, as_branch = None\<rparr>, \<lparr>as_user = 5, as_role = 2, as_branch = Some 3\<rparr>,
                  \<lparr>as_user = 6, as_role = 3, as_branch = Some 3\<rparr>],
     sd_invites = [], sd_outlets = [(20, 3)], sd_userOutlets = [], sd_emailIndex = [], sd_audit = []\<rparr>"

definition ex_staff_invited :: staff_db where
  "ex_staff_invited = sd_log 5 ''staff.bulk_invite'' (invite_one (\<lambda>_. ''s'') 5 3 0 (''n'', 3) ex_staff)"

lemma ex_staff_ok:
  "\<not> isOwner (actor_of ex_staff 5)" "distinct (map rg_id (sd_roles ex_staff))" "offers (\<lambda>r. r = ''owner'') ex_staff = {}"
  by (simp_all add: isOwner_def actor_of_def heldRoles_def roleName_def roleById_def ex_staff_def offers_def)

section \<open>Properties\<close>

text \<open>
  C18. No way up without the owner. Over any run of role changes, invitations, withdrawals,
  outlet changes and acceptances, made by people none of whom is an owner at the start (and
  with no pending invitation to be the owner, which no one can make), the owner assignments
  stay exactly as they were, no owner or manager assignment is taken away, and a new
  manager appears only by accepting an invitation with that role and branch that was
  already pending at the start.
\<close>

theorem no_escalation:
  assumes "staff_reach by_whom s t" and "\<And>u. by_whom u \<Longrightarrow> \<not> isOwner (actor_of s u)"
    and "distinct (map rg_id (sd_roles s))" and "offers (\<lambda>r. r = ''owner'') s = {}"
  shows "holds (\<lambda>r. r = ''owner'') t = holds (\<lambda>r. r = ''owner'') s \<and> holds senior s \<subseteq> holds senior t \<and>
     (\<forall>a \<in> holds senior t - holds senior s. (as_role a, as_branch a) \<in> offers senior s)"
proof -
  from assms(1) have "holds senior s \<subseteq> holds senior t \<and> offers senior t \<subseteq> offers senior s \<and>
     (\<forall>a \<in> holds senior t - holds senior s. (as_role a, as_branch a) \<in> offers senior s)"
  proof (induction rule: staff_reach.induct)
    case (step t who t')
    note o = owners_fixed[OF step(1) assms(3,4)]
    have "\<not> isOwner (actor_of t a)" if "who = Some a" for a
      using assms(2)[of a] step(3) that o by (simp add: isOwner_actor_of)
    from senior_roles.step[OF step(2) this] o assms(3) step.IH show ?case by auto
  qed simp
  with owners_fixed[OF assms(1,3,4)] show ?thesis by blast
qed

theorem no_escalation_witness:
  "holds senior ex_staff_invited - holds senior ex_staff \<subseteq> {a. (as_role a, as_branch a) \<in> offers senior ex_staff}"
proof -
  have "bulkInvite (\<lambda>_. ''s'') 5 3 [(''n'', 3)] 0 ex_staff = Inr ex_staff_invited"
    by (simp add: bulkInvite_def assertBranch_def assertMayGrant_def whyCannotGrant_def isOwner_def managesBranch_def
        actor_of_def heldRoles_def roleName_def roleById_def SENIOR_ROLES_def ex_staff_invited_def ex_staff_def js_unique_def)
  then have "staff_reach (\<lambda>u. u = 5) ex_staff ex_staff_invited"
    by (intro staff_reach.step[OF staff_reach.stay, where who = "Some 5"] staff_step.invited) simp_all
  then show ?thesis
    using no_escalation[of "\<lambda>u. u = 5" ex_staff ex_staff_invited] ex_staff_ok by blast
qed

text \<open>
  One role per person and scope: a successful role change leaves the person exactly the
  new role at that scope, and every other assignment in the tenant as it was.
\<close>

theorem patchStaff_role:
  assumes "patchStaff actor u dto now s = Inr s'" and "ps_roleId dto = Some r"
  shows "{a \<in> set (sd_assign s'). as_user a = u \<and> as_branch a = ps_branchId dto} =
           {\<lparr>as_user = u, as_role = r, as_branch = ps_branchId dto\<rparr>} \<and>
         {a \<in> set (sd_assign s'). \<not> (as_user a = u \<and> as_branch a = ps_branchId dto)} =
           {a \<in> set (sd_assign s). \<not> (as_user a = u \<and> as_branch a = ps_branchId dto)} \<and>
         u \<noteq> actor"
proof -
  note p = patchStaff_Inr[OF assms(1)]
  have "u \<noteq> actor" using check_role_change_Inr(1)[OF p(1) assms(2)]
    by (auto simp: whyCannotChangeRoleAt_def actor_of_def)
  then show ?thesis using p(4) assms(2) by auto
qed

definition ex_patch :: patch_staff_dto where
  "ex_patch = \<lparr>ps_roleId = Some 2, ps_branchId = Some 3, ps_outletIds = Some [20], ps_active = None\<rparr>"

theorem patchStaff_role_witness:
  "\<exists>s'. patchStaff 1 6 ex_patch 0 ex_staff = Inr s' \<and>
     {a \<in> set (sd_assign s'). as_user a = 6 \<and> as_branch a = Some 3} = {\<lparr>as_user = 6, as_role = 2, as_branch = Some 3\<rparr>}"
proof -
  have "\<exists>s'. patchStaff 1 6 ex_patch 0 ex_staff = Inr s'"
    by (simp add: patchStaff_def check_role_change_def replaceOutlets_def replace_assignment_def assertMayAssignOutlets_def
        assertBranch_def assertMayGrant_def whyCannotGrant_def whyCannotChangeRoleAt_def isOwner_def managesBranch_def
        actor_of_def heldRoles_def roleName_def roleById_def SENIOR_ROLES_def ex_staff_def ex_patch_def)
  then obtain s' where "patchStaff 1 6 ex_patch 0 ex_staff = Inr s'" by blast
  with patchStaff_role[OF this, of 2] show ?thesis by (auto simp: ex_patch_def)
qed

end
