(* ===== verification/Roles.thy ===== *)
theory Roles
  imports Staff
begin

text \<open>
  Roles a tenant invents (\<^verbatim>\<open>createRole\<close>, \<^verbatim>\<open>updateRole\<close>, \<^verbatim>\<open>deleteRole\<close> of
  \<^verbatim>\<open>src/src/modules/auth/auth.service.ts\<close>), over the staff store. The guards know the
  built-in roles by name, so what keeps a custom role from passing as one is how its name is
  checked; \<open>roles_ok\<close> says so, and holds along every run of role and staff requests.
\<close>

section \<open>Handlers\<close>

definition SYSTEM_ROLE_NAMES :: "string list" where
  "SYSTEM_ROLE_NAMES = [''owner'', ''manager'', ''front_desk'', ''housekeeper'', ''accountant'', ''pos_staff'']"

text \<open>\<^verbatim>\<open>clean.toLowerCase().replace(/ /g, '_')\<close>\<close>

definition role_key :: "string \<Rightarrow> string" where
  "role_key clean = map (\<lambda>c. if c = CHR '' '' then CHR ''_'' else c) (js_lower clean)"

definition assertRoleName :: "string \<Rightarrow> string result" where
  "assertRoleName name =
     (let clean = squeeze (js_trim name)
      in if length clean < 2 \<or> 60 < length clean then Inl (BadRequest VALIDATION_FAILED)
         else if role_key clean \<in> set SYSTEM_ROLE_NAMES then Inl (BadRequest VALIDATION_FAILED)
         else Inr clean)"

definition assertCustomRole :: "staff_db \<Rightarrow> nat \<Rightarrow> role_grant result" where
  "assertCustomRole s roleId =
     (case roleById s roleId of
        None \<Rightarrow> Inl (NotFound NOT_FOUND)
      | Some r \<Rightarrow> if rg_isSystem r then Inl (BadRequest VALIDATION_FAILED) else Inr r)"

definition clashes :: "string \<Rightarrow> role_grant \<Rightarrow> bool" where
  "clashes cleanName r \<longleftrightarrow> js_lower (rg_name r) = js_lower cleanName"

definition fresh_role :: "staff_db \<Rightarrow> nat" where
  "fresh_role s = Suc (Max (insert 0 (set (map rg_id (sd_roles s)))))"

definition createRole :: "nat \<Rightarrow> string \<Rightarrow> json option \<Rightarrow> staff_db \<Rightarrow> (role_grant \<times> staff_db) result" where
  "createRole actor name rawPermissions s =
     bindr (assertRoleName name) (\<lambda>cleanName.
     bindr (parsePermissions rawPermissions) (\<lambda>permissions.
       if \<exists>r \<in> set (sd_roles s). clashes cleanName r then Inl (Conflict CONFLICT)
       else let created = \<lparr>rg_id = fresh_role s, rg_name = cleanName, rg_isSystem = False, rg_permissions = permissions\<rparr>
            in Inr (created, sd_log actor ''role.created'' (s\<lparr>sd_roles := sd_roles s @ [created]\<rparr>))))"

text \<open>A name that was not sent, or did not change, is not checked against the others.\<close>

definition updateRole :: "nat \<Rightarrow> nat \<Rightarrow> string option \<Rightarrow> json option \<Rightarrow> staff_db \<Rightarrow> (role_grant \<times> staff_db) result" where
  "updateRole actor roleId name permissions s =
     bindr (case name of None \<Rightarrow> Inr None | Some n \<Rightarrow> bindr (assertRoleName n) (\<lambda>c. Inr (Some c))) (\<lambda>cleanName.
     bindr (case permissions of None \<Rightarrow> Inr None | Some p \<Rightarrow> bindr (parsePermissions (Some p)) (\<lambda>m. Inr (Some m))) (\<lambda>permissions.
     bindr (assertCustomRole s roleId) (\<lambda>existing.
       if (case cleanName of
             None \<Rightarrow> False
           | Some c \<Rightarrow> c \<noteq> rg_name existing \<and> (\<exists>r \<in> set (sd_roles s). clashes c r \<and> rg_id r \<noteq> roleId))
       then Inl (Conflict CONFLICT)
       else let updated = existing\<lparr>rg_name := the_default (rg_name existing) cleanName,
                  rg_permissions := the_default (rg_permissions existing) permissions\<rparr>
            in Inr (updated, sd_log actor ''role.updated''
                 (s\<lparr>sd_roles := map (\<lambda>r. if rg_id r = roleId then updated else r) (sd_roles s)\<rparr>)))))"

definition updateRolePermissions :: "nat \<Rightarrow> nat \<Rightarrow> json \<Rightarrow> staff_db \<Rightarrow> (role_grant \<times> staff_db) result" where
  "updateRolePermissions actor roleId permissions s = updateRole actor roleId None (Some permissions) s"

definition deleteRole :: "nat \<Rightarrow> nat \<Rightarrow> staff_db \<Rightarrow> staff_db result" where
  "deleteRole actor roleId s =
     bindr (assertCustomRole s roleId) (\<lambda>role.
       if (\<exists>a \<in> set (sd_assign s). as_role a = roleId) \<or>
          (\<exists>v \<in> set (sd_invites s). iv_role v = roleId \<and> iv_acceptedAt v = None)
       then Inl (Conflict CONFLICT)
       else Inr (sd_log actor ''role.deleted'' (s\<lparr>sd_roles := filter (\<lambda>r. rg_id r \<noteq> roleId) (sd_roles s)\<rparr>)))"

section \<open>Runs\<close>

inductive role_step :: "staff_db \<Rightarrow> staff_db \<Rightarrow> bool" where
  created: "createRole actor name perms s = Inr (r, s') \<Longrightarrow> role_step s s'"
| updated: "updateRole actor i name perms s = Inr (r, s') \<Longrightarrow> role_step s s'"
| deleted: "deleteRole actor i s = Inr s' \<Longrightarrow> role_step s s'"
| staff: "staff_step s who s' \<Longrightarrow> role_step s s'"

definition roles_ok :: "staff_db \<Rightarrow> bool" where
  "roles_ok s \<longleftrightarrow> distinct (map rg_id (sd_roles s)) \<and> distinct (map (js_lower \<circ> rg_name) (sd_roles s)) \<and>
     (\<forall>r \<in> set (sd_roles s). \<not> rg_isSystem r \<longrightarrow> role_key (rg_name r) \<notin> set SYSTEM_ROLE_NAMES)"

lemma assertRoleName_Inr: "assertRoleName n = Inr c \<Longrightarrow> role_key c \<notin> set SYSTEM_ROLE_NAMES"
  by (auto simp: assertRoleName_def Let_def split: if_splits)

lemma fresh_role_new: "fresh_role s \<notin> rg_id ` set (sd_roles s)"
proof
  assume "fresh_role s \<in> rg_id ` set (sd_roles s)"
  then have "fresh_role s \<le> Max (insert 0 (set (map rg_id (sd_roles s))))" by (intro Max_ge) auto
  then show False by (simp add: fresh_role_def)
qed

lemma assertCustomRole_Inr: "assertCustomRole s i = Inr r \<Longrightarrow> r \<in> set (sd_roles s) \<and> rg_id r = i \<and> \<not> rg_isSystem r"
  by (auto simp: assertCustomRole_def roleById_def dest!: find_Some_mem split: option.splits if_splits)

lemma createRole_Inr:
  assumes "createRole actor n p s = Inr (r, s')"
  shows "sd_roles s' = sd_roles s @ [r]" and "rg_id r = fresh_role s" and "\<not> rg_isSystem r"
    and "role_key (rg_name r) \<notin> set SYSTEM_ROLE_NAMES" and "\<And>q. q \<in> set (sd_roles s) \<Longrightarrow> js_lower (rg_name q) \<noteq> js_lower (rg_name r)"
    and "sd_assign s' = sd_assign s" and "sd_invites s' = sd_invites s"
  using assms by (auto simp: createRole_def bindr_eq_Inr Let_def clashes_def dest!: assertRoleName_Inr split: if_splits)

lemma createRole_ok:
  assumes "createRole actor n p s = Inr (r, s')" and "roles_ok s"
  shows "roles_ok s'"
proof -
  note c = createRole_Inr[OF assms(1)]
  have "js_lower (rg_name r) \<notin> (js_lower \<circ> rg_name) ` set (sd_roles s)" using c(5) by (metis comp_apply imageE)
  then show ?thesis using assms(2) c(2-4) fresh_role_new[of s] unfolding roles_ok_def c(1) by auto
qed

text \<open>Replacing one role by another whose name no third role has.\<close>

lemma distinct_replace:
  assumes "distinct (map g xs)" and "distinct (map f xs)" and "\<And>x. x \<in> set xs \<Longrightarrow> f x \<noteq> i \<Longrightarrow> g x \<noteq> g new"
  shows "distinct (map g (map (\<lambda>x. if f x = i then new else x) xs))"
  using assms unfolding distinct_conv_nth by (auto simp: nth_map) (metis nth_mem)+

lemma updateRole_Inr:
  assumes "updateRole actor i n p s = Inr (new, s')" and "roles_ok s"
  shows "sd_roles s' = map (\<lambda>q. if rg_id q = i then new else q) (sd_roles s)" and "rg_id new = i" and "\<not> rg_isSystem new"
    and "\<And>q. q \<in> set (sd_roles s) \<Longrightarrow> rg_id q = i \<Longrightarrow> \<not> rg_isSystem q"
    and "role_key (rg_name new) \<notin> set SYSTEM_ROLE_NAMES"
    and "\<And>q. q \<in> set (sd_roles s) \<Longrightarrow> rg_id q \<noteq> i \<Longrightarrow> js_lower (rg_name q) \<noteq> js_lower (rg_name new)"
    and "sd_assign s' = sd_assign s" and "sd_invites s' = sd_invites s"
proof -
  from assms(1) obtain cn cp old where cn: "(case n of None \<Rightarrow> Inr None | Some n \<Rightarrow> bindr (assertRoleName n) (\<lambda>c. Inr (Some c))) = (Inr cn :: _ result)"
    and old: "assertCustomRole s i = Inr old"
    and free: "\<not> (case cn of None \<Rightarrow> False | Some c \<Rightarrow> c \<noteq> rg_name old \<and> (\<exists>q \<in> set (sd_roles s). clashes c q \<and> rg_id q \<noteq> i))"
    and new: "new = old\<lparr>rg_name := the_default (rg_name old) cn, rg_permissions := the_default (rg_permissions old) cp\<rparr>"
    and s': "s' = sd_log actor ''role.updated'' (s\<lparr>sd_roles := map (\<lambda>q. if rg_id q = i then new else q) (sd_roles s)\<rparr>)"
    unfolding updateRole_def bindr_eq_Inr Let_def by (auto split: if_splits)
  note o = assertCustomRole_Inr[OF old]
  have apart: "js_lower (rg_name q) \<noteq> js_lower (rg_name old)" if "q \<in> set (sd_roles s)" "rg_id q \<noteq> i" for q
    using assms(2) o that unfolding roles_ok_def by (auto simp: distinct_map inj_on_def)
  have key: "role_key (rg_name old) \<notin> set SYSTEM_ROLE_NAMES" using o assms(2) by (simp add: roles_ok_def)
  show "sd_roles s' = map (\<lambda>q. if rg_id q = i then new else q) (sd_roles s)" "rg_id new = i" "\<not> rg_isSystem new"
    "sd_assign s' = sd_assign s" "sd_invites s' = sd_invites s"
    using o by (simp_all add: s' new)
  show "\<not> rg_isSystem q" if "q \<in> set (sd_roles s)" "rg_id q = i" for q
    using assms(2) o that unfolding roles_ok_def by (auto simp: distinct_map inj_on_def)
  show "role_key (rg_name new) \<notin> set SYSTEM_ROLE_NAMES"
    using key cn unfolding new by (cases cn) (auto simp: bindr_eq_Inr dest: assertRoleName_Inr split: option.splits)
  show "js_lower (rg_name q) \<noteq> js_lower (rg_name new)" if "q \<in> set (sd_roles s)" "rg_id q \<noteq> i" for q
    using apart[OF that] free that unfolding new by (cases cn) (auto simp: clashes_def)
qed

lemma updateRole_ok:
  assumes "updateRole actor i n p s = Inr (new, s')" and "roles_ok s"
  shows "roles_ok s'"
proof -
  note u = updateRole_Inr[OF assms]
  have ids: "map rg_id (sd_roles s') = map rg_id (sd_roles s)" unfolding u(1) using u(2) by simp
  have "distinct (map (js_lower \<circ> rg_name) (sd_roles s'))" unfolding u(1)
    by (rule distinct_replace[where f = rg_id]) (use assms(2) u(6) in \<open>auto simp: roles_ok_def\<close>)
  moreover have "\<forall>q \<in> set (sd_roles s'). \<not> rg_isSystem q \<longrightarrow> role_key (rg_name q) \<notin> set SYSTEM_ROLE_NAMES"
    using assms(2) u(5) unfolding u(1) roles_ok_def by auto
  ultimately show ?thesis using ids assms(2) unfolding roles_ok_def by metis
qed

lemma deleteRole_Inr:
  assumes "deleteRole actor i s = Inr s'"
  shows "sd_roles s' = filter (\<lambda>r. rg_id r \<noteq> i) (sd_roles s)" and "sd_assign s' = sd_assign s" and "sd_invites s' = sd_invites s"
    and "\<exists>r. roleById s i = Some r \<and> \<not> rg_isSystem r"
    and "\<And>a. a \<in> set (sd_assign s) \<Longrightarrow> as_role a \<noteq> i" and "\<And>v. v \<in> set (sd_invites s) \<Longrightarrow> iv_acceptedAt v = None \<Longrightarrow> iv_role v \<noteq> i"
  using assms by (auto simp: deleteRole_def bindr_eq_Inr assertCustomRole_def split: if_splits option.splits)

section \<open>Roles in use\<close>

text \<open>Every role somebody holds, or is invited to, exists.\<close>

definition roles_used :: "staff_db \<Rightarrow> bool" where
  "roles_used s \<longleftrightarrow> (\<forall>a \<in> set (sd_assign s). as_role a \<in> rg_id ` set (sd_roles s)) \<and>
     (\<forall>v \<in> set (sd_invites s). iv_acceptedAt v = None \<longrightarrow> iv_role v \<in> rg_id ` set (sd_roles s))"

lemma roleById_mem: "roleById s i = Some r \<Longrightarrow> i \<in> rg_id ` set (sd_roles s)"
  unfolding roleById_def by (auto dest!: find_Some_mem)

lemma patchStaff_used:
  assumes "patchStaff actor u dto n s = Inr s'" and "roles_used s"
  shows "roles_used s' \<and> sd_roles s' = sd_roles s"
proof (cases "ps_roleId dto")
  case None
  with patchStaff_Inr[OF assms(1)] assms(2) show ?thesis by (simp add: roles_used_def)
next
  case (Some rid)
  with patchStaff_Inr(1)[OF assms(1)] obtain r where "roleById s rid = Some r" by (auto simp: check_role_change_def split: option.splits)
  with patchStaff_Inr[OF assms(1)] assms(2) Some show ?thesis by (auto simp: roles_used_def dest: roleById_mem)
qed

lemma bulkInvite_used:
  assumes "bulkInvite f actor b rows n s = Inr s'" and "roles_used s" and "distinct (map rg_id (sd_roles s))"
  shows "roles_used s' \<and> sd_roles s' = sd_roles s"
proof -
  let ?ids = "js_unique (map snd rows)"
  from assms(1) have len: "length (filter (\<lambda>r. rg_id r \<in> set ?ids) (sd_roles s)) = length ?ids"
    and s': "s' = sd_log actor ''staff.bulk_invite'' (fold (invite_one f actor b n) rows s)"
    by (auto simp: bulkInvite_def Let_def res_simps split: if_splits)
  have "i \<in> rg_id ` set (sd_roles s)" if "i \<in> set (map snd rows)" for i
  proof -
    have "i \<in> set ?ids" using that by (simp add: set_js_unique)
    from roles_all_present[OF assms(3) len distinct_js_unique this] obtain r where "List.find (\<lambda>r. rg_id r = i) (sd_roles s) = Some r" by blast
    from find_Some_mem[OF this] show ?thesis by auto
  qed
  with invite_fold[of f actor b n rows s] assms(2) show ?thesis unfolding s' roles_used_def by (auto simp del: set_map)
qed

lemma acceptInvite_used:
  assumes "acceptInvite bh bc tok name pw n s = Inr s'" and "roles_used s"
  shows "roles_used s' \<and> sd_roles s' = sd_roles s"
  using assms(1) by (rule acceptInvite_Inr) (use assms(2) in \<open>auto simp: roles_used_def\<close>)

lemma staff_step_used: "staff_step s who s' \<Longrightarrow> roles_used s \<Longrightarrow> distinct (map rg_id (sd_roles s)) \<Longrightarrow> roles_used s' \<and> sd_roles s' = sd_roles s"
proof (induction rule: staff_step.induct)
  case (withdrawn actor i s s')
  then show ?case by (auto simp: cancelInvite_def bindr_eq_Inr roles_used_def split: option.splits)
next
  case (outlets actor u b os s s')
  then show ?case by (auto simp: setUserOutlets_def bindr_eq_Inr roles_used_def dest!: replaceOutlets_Inr(1) split: option.splits)
qed (auto dest: patchStaff_used bulkInvite_used acceptInvite_used)

lemma role_step_ok:
  assumes "role_step s s'" and "roles_ok s" and "roles_used s"
  shows "roles_ok s' \<and> roles_used s' \<and> filter rg_isSystem (sd_roles s') = filter rg_isSystem (sd_roles s)"
  using assms
proof (induction rule: role_step.induct)
  case (created actor name perms s r s')
  with createRole_Inr[OF created(1)] createRole_ok show ?case by (auto simp: roles_used_def)
next
  case (updated actor i name perms s new s')
  note u = updateRole_Inr[OF updated(1,2)]
  have "map rg_id (sd_roles s') = map rg_id (sd_roles s)" unfolding u(1) using u(2) by simp
  then have "rg_id ` set (sd_roles s') = rg_id ` set (sd_roles s)" by (metis list.set_map)
  moreover have "filter rg_isSystem (map (\<lambda>q. if rg_id q = i then new else q) rs) = filter rg_isSystem rs" if "set rs \<subseteq> set (sd_roles s)" for rs
    using that u(3,4) by (induction rs) auto
  ultimately show ?case using updated updateRole_ok u(7,8) unfolding roles_used_def u(1) by simp
next
  case (deleted actor i s s')
  note d = deleteRole_Inr[OF deleted(1)]
  have "filter rg_isSystem (filter (\<lambda>r. rg_id r \<noteq> i) rs) = filter rg_isSystem rs" if "set rs \<subseteq> set (sd_roles s)" for rs
    using that d(4) deleted(2) unfolding roles_ok_def roleById_def
    by (induction rs) (auto simp: distinct_map inj_on_def dest!: find_Some_mem)
  moreover have ids: "rg_id ` set (sd_roles s') = rg_id ` set (sd_roles s) - {i}" unfolding d(1) by auto
  have "roles_used s'" using deleted(3) d(2,3,5,6) unfolding roles_used_def ids by simp
  moreover have "roles_ok s'" using deleted(2) unfolding roles_ok_def d(1) by (auto simp: distinct_map_filter)
  ultimately show ?case unfolding d(1) by simp
next
  case (staff s who s')
  with staff_step_used[OF staff(1)] show ?case by (simp add: roles_ok_def)
qed

text \<open>
  C23. A custom role never passes as a built-in one: over any run of role and staff requests no two roles
  have the same name up to letter case, no role a tenant made has a name the guards know,
  the built-in roles stand as they were, and no role that somebody holds or is invited to
  disappears.
\<close>

theorem custom_roles_apart:
  assumes "role_step\<^sup>*\<^sup>* s s'" and "roles_ok s" and "roles_used s"
  shows "distinct (map (js_lower \<circ> rg_name) (sd_roles s')) \<and>
    (\<forall>r \<in> set (sd_roles s'). rg_name r \<in> set SYSTEM_ROLE_NAMES \<longrightarrow> rg_isSystem r) \<and>
    filter rg_isSystem (sd_roles s') = filter rg_isSystem (sd_roles s) \<and> roles_used s'"
proof -
  have "roles_ok s' \<and> roles_used s' \<and> filter rg_isSystem (sd_roles s') = filter rg_isSystem (sd_roles s)"
    using assms(1) by (induction rule: rtranclp_induct) (use assms(2,3) in \<open>auto dest: role_step_ok\<close>)
  moreover have "role_key n = n" if "n \<in> set SYSTEM_ROLE_NAMES" for n
  proof -
    have "\<forall>n \<in> set SYSTEM_ROLE_NAMES. role_key n = n" by code_simp
    with that show ?thesis by blast
  qed
  ultimately show ?thesis unfolding roles_ok_def by metis
qed

definition ex_roles_db :: staff_db where
  "ex_roles_db = \<lparr>sd_tenant = 1, sd_open = True,
     sd_roles = [\<lparr>rg_id = 1, rg_name = ''owner'', rg_isSystem = True, rg_permissions = []\<rparr>], sd_branches = [], sd_users = [],
     sd_assign = [\<lparr>as_user = 7, as_role = 1, as_branch = None\<rparr>], sd_invites = [], sd_outlets = [], sd_userOutlets = [], sd_emailIndex = [], sd_audit = []\<rparr>"

theorem custom_roles_apart_witness:
  "\<exists>r s. createRole 7 ''Night  auditor'' None ex_roles_db = Inr (r, s) \<and> rg_name r = ''Night auditor'' \<and>
     distinct (map (js_lower \<circ> rg_name) (sd_roles s)) \<and> roles_used s"
proof -
  have ok: "roles_ok ex_roles_db" "roles_used ex_roles_db" by (simp_all add: roles_ok_def roles_used_def ex_roles_db_def)
  have "map_sum id (\<lambda>(r, _). rg_name r) (createRole 7 ''Night  auditor'' None ex_roles_db) = Inr ''Night auditor''" by code_simp
  then obtain r s where c: "createRole 7 ''Night  auditor'' None ex_roles_db = Inr (r, s)" "rg_name r = ''Night auditor''"
    by (cases "createRole 7 ''Night  auditor'' None ex_roles_db") auto
  from custom_roles_apart[OF r_into_rtranclp[of role_step, OF role_step.created[OF c(1)]] ok] c show ?thesis by blast
qed

end
