(* ===== verification/Totp.thy ===== *)
theory Totp
  imports Prelude "HOL-Library.Word"
begin

unbundle bit_operations_syntax

text \<open>
  Time-based one-time passwords and recovery codes
  (\<^verbatim>\<open>src/src/modules/auth/totp.ts\<close>). A \<^verbatim>\<open>Buffer\<close> is a list of 8-bit words. The
  accumulators of the base-32 coder are JavaScript numbers on which only the 32-bit operators
  act, so they are 32-bit words that lose their high bits as the program's do.

  \<open>hmac\<close> stands for \<^verbatim>\<open>createHmac('sha1', key).update(message).digest()\<close>, of key and message,
  and \<open>sha256\<close> for the hexadecimal digest of a text. White space and letter case are those
  of Latin-1 and ASCII.

  The round trip of the coder is proved over the streams of bits both sides carry: what has
  been written and the bits still held are together the bits read so far.
\<close>

type_synonym buffer = "8 word list"

section \<open>Base 32\<close>

definition TOTP_STEP_SECONDS :: int where "TOTP_STEP_SECONDS = 30"
definition TOTP_DIGITS :: nat where "TOTP_DIGITS = 6"
definition TOTP_WINDOW :: int where "TOTP_WINDOW = 1"

definition BASE32_ALPHABET :: string where
  "BASE32_ALPHABET = ''ABCDEFGHIJKLMNOPQRSTUVWXYZ234567''"

text \<open>The inner loop of the encoder: five bits at a time while there are five.\<close>

fun emit_fives :: "nat \<Rightarrow> 32 word \<Rightarrow> string \<Rightarrow> nat \<times> string" where
  "emit_fives bits value out =
     (if 5 \<le> bits
      then emit_fives (bits - 5) value (out @ [BASE32_ALPHABET ! unat (drop_bit (bits - 5) value AND 31)])
      else (bits, out))"

declare emit_fives.simps [simp del]

fun encode_bytes :: "buffer \<Rightarrow> nat \<Rightarrow> 32 word \<Rightarrow> string \<Rightarrow> nat \<times> 32 word \<times> string" where
  "encode_bytes [] bits value out = (bits, value, out)"
| "encode_bytes (byte # bytes) bits value out =
     (let value = push_bit 8 value OR ucast byte; (bits, out) = emit_fives (bits + 8) value out
      in encode_bytes bytes bits value out)"

definition base32Encode :: "buffer \<Rightarrow> string" where
  "base32Encode bytes =
     (let (bits, value, out) = encode_bytes bytes 0 0 []
      in if 0 < bits then out @ [BASE32_ALPHABET ! unat (push_bit (5 - bits) value AND 31)] else out)"

definition indexOf :: "string \<Rightarrow> char \<Rightarrow> nat option" where
  "indexOf s c = (if c \<in> set s then Some (length (takeWhile (\<lambda>x. x \<noteq> c) s)) else None)"

fun decode_chars :: "string \<Rightarrow> nat \<Rightarrow> 32 word \<Rightarrow> buffer \<Rightarrow> buffer result" where
  "decode_chars [] bits value out = Inr out"
| "decode_chars (c # cs) bits value out =
     (case indexOf BASE32_ALPHABET c of
        None \<Rightarrow> Inl PlainError
      | Some index \<Rightarrow>
          let value = push_bit 5 value OR of_nat index; bits = bits + 5
          in if 8 \<le> bits then decode_chars cs (bits - 8) value (out @ [ucast (drop_bit (bits - 8) value AND 255)])
             else decode_chars cs bits value out)"

definition base32Decode :: "string \<Rightarrow> buffer result" where
  "base32Decode text =
     decode_chars (filter (\<lambda>c. \<not> (is_space c \<or> c = CHR ''='' \<or> c = CHR ''-'')) (js_upper text)) 0 0 []"

section \<open>Codes\<close>

text \<open>\<^verbatim>\<open>writeBigUInt64BE\<close>, of a counter that fits.\<close>

definition counter_bytes :: "int \<Rightarrow> buffer" where
  "counter_bytes counter = map (\<lambda>i. word_of_int (drop_bit (8 * i) counter)) (rev [0..<8])"

fun decimal_digits :: "nat \<Rightarrow> nat \<Rightarrow> string" where
  "decimal_digits 0 n = []"
| "decimal_digits (Suc k) n = decimal_digits k (n div 10) @ [char_of (48 + n mod 10)]"

text \<open>
  \<^verbatim>\<open>String(binary % 10 ** digits).padStart(digits, '0')\<close> writes exactly \<open>digits\<close> digits of a
  number below that power of ten. A negative counter does not fit the message
  (\<^verbatim>\<open>ERR_OUT_OF_RANGE\<close>).
\<close>

definition hotp :: "(buffer \<Rightarrow> buffer \<Rightarrow> buffer) \<Rightarrow> buffer \<Rightarrow> int \<Rightarrow> string result" where
  "hotp hmac secret counter =
     (if counter < 0 \<or> 2 ^ 64 \<le> counter then Inl PlainError
      else let mac = hmac secret (counter_bytes counter);
               offset = unat (last mac AND 0x0f);
               byte = (\<lambda>i. ucast (mac ! (offset + i)) :: 32 word);
               binary = push_bit 24 (byte 0 AND 0x7f) OR push_bit 16 (byte 1) OR push_bit 8 (byte 2) OR byte 3
           in Inr (decimal_digits TOTP_DIGITS (unat binary mod 10 ^ TOTP_DIGITS)))"

text \<open>Division by a thousand and by thirty of a whole number of milliseconds, rounded down.\<close>

definition stepAt :: "int \<Rightarrow> int" where
  "stepAt timeMs = timeMs div (1000 * TOTP_STEP_SECONDS)"

definition totp :: "(buffer \<Rightarrow> buffer \<Rightarrow> buffer) \<Rightarrow> string \<Rightarrow> int \<Rightarrow> string result" where
  "totp hmac secretBase32 timeMs =
     bindr (base32Decode secretBase32) (\<lambda>secret. hotp hmac secret (stepAt timeMs))"

definition six_digits :: "string \<Rightarrow> bool" where
  "six_digits s \<longleftrightarrow> length s = 6 \<and> (\<forall>c \<in> set s. is_digit c)"

definition strip_spaces :: "string \<Rightarrow> string" where
  "strip_spaces = filter (\<lambda>c. \<not> is_space c)"

text \<open>The loop over the window; \<^verbatim>\<open>timingSafeEqual\<close> refuses buffers of different lengths.\<close>

fun match_steps :: "(int \<Rightarrow> string result) \<Rightarrow> string \<Rightarrow> int option \<Rightarrow> int list \<Rightarrow> int option result" where
  "match_steps code clean lastUsedStep [] = Inr None"
| "match_steps code clean lastUsedStep (step # steps) =
     (if (case lastUsedStep of None \<Rightarrow> False | Some l \<Rightarrow> step \<le> l) then match_steps code clean lastUsedStep steps
      else bindr (code step) (\<lambda>expected.
        if length expected \<noteq> length clean then Inl PlainError
        else if expected = clean then Inr (Some step)
        else match_steps code clean lastUsedStep steps))"

definition verifyTotp ::
  "(buffer \<Rightarrow> buffer \<Rightarrow> buffer) \<Rightarrow> string \<Rightarrow> string \<Rightarrow> int \<Rightarrow> int option \<Rightarrow> int option result" where
  "verifyTotp hmac secretBase32 code nowMs lastUsedStep =
     (let clean = strip_spaces code
      in if \<not> six_digits clean then Inr None
         else bindr (base32Decode secretBase32) (\<lambda>secret.
           let current = stepAt nowMs
           in match_steps (hotp hmac secret) clean lastUsedStep (map ((+) current) [-TOTP_WINDOW..TOTP_WINDOW])))"

section \<open>Recovery codes\<close>

definition RECOVERY_ALPHABET :: string where
  "RECOVERY_ALPHABET = ''abcdefghjkmnpqrstuvwxyz23456789''"

definition RECOVERY_CODE_COUNT :: nat where "RECOVERY_CODE_COUNT = 10"

text \<open>\<open>rnd i j\<close> is what \<^verbatim>\<open>randomInt(RECOVERY_ALPHABET.length)\<close> returns for letter \<open>j\<close> of code \<open>i\<close>.\<close>

definition generateRecoveryCodes :: "(nat \<Rightarrow> nat \<Rightarrow> nat) \<Rightarrow> string list" where
  "generateRecoveryCodes rnd =
     map (\<lambda>i. let chars = map (\<lambda>j. RECOVERY_ALPHABET ! rnd i j) [0..<10]
              in take 5 chars @ ''-'' @ drop 5 chars) [0..<RECOVERY_CODE_COUNT]"

definition normaliseRecoveryCode :: "string \<Rightarrow> string" where
  "normaliseRecoveryCode code = filter (\<lambda>c. \<not> (is_space c \<or> c = CHR ''-'')) (js_lower code)"

definition hashRecoveryCode :: "(string \<Rightarrow> string) \<Rightarrow> string \<Rightarrow> string" where
  "hashRecoveryCode sha256 code = sha256 (normaliseRecoveryCode code)"

definition looksLikeRecoveryCode :: "string \<Rightarrow> bool" where
  "looksLikeRecoveryCode code \<longleftrightarrow>
     length (normaliseRecoveryCode code) = 10 \<and>
     (\<forall>c \<in> set (normaliseRecoveryCode code). is_digit c \<or> CHR ''a'' \<le> c \<and> c \<le> CHR ''z'')"

section \<open>The round trip of a secret\<close>

text \<open>The lowest \<open>n\<close> bits of a word, highest first.\<close>

definition low_bits :: "nat \<Rightarrow> 'a::len word \<Rightarrow> bool list" where
  "low_bits n w = map (bit w) (rev [0..<n])"

lemma length_low_bits [simp]: "length (low_bits n w) = n"
  by (simp add: low_bits_def)

lemma low_bits_nth: "i < n \<Longrightarrow> low_bits n w ! i = bit w (n - Suc i)"
  by (simp add: low_bits_def rev_nth)

lemma low_bits_split:
  assumes "k \<le> n"
  shows "low_bits n w = low_bits (n - k) (drop_bit k w) @ low_bits k w"
  using assms by (intro nth_equalityI) (auto simp: low_bits_nth nth_append bit_simps)

lemma low_bits_shift:
  assumes "n + k \<le> LENGTH('a::len)" and "\<And>i. k \<le> i \<Longrightarrow> \<not> bit c i"
  shows "low_bits (n + k) (push_bit k w OR c :: 'a word) = low_bits n w @ low_bits k c"
  using assms by (intro nth_equalityI) (auto simp: low_bits_nth nth_append bit_simps add.commute)

text \<open>The bits of a byte and of a letter.\<close>

definition byte_bits :: "8 word \<Rightarrow> bool list" where
  "byte_bits = low_bits 8"

definition letter_bits :: "char \<Rightarrow> bool list" where
  "letter_bits c = low_bits 5 (of_nat (the (indexOf BASE32_ALPHABET c)) :: 32 word)"

lemma byte_bits_inj: "byte_bits a = byte_bits b \<Longrightarrow> a = b"
proof (rule bit_word_eqI)
  fix n assume e: "byte_bits a = byte_bits b" and "n < LENGTH(8)"
  then have "low_bits 8 a ! (7 - n) = low_bits 8 b ! (7 - n)" by (simp add: byte_bits_def)
  with \<open>n < LENGTH(8)\<close> show "bit a n = bit b n" by (simp add: low_bits_nth)
qed

lemma length_byte_bits [simp]: "length (byte_bits b) = 8"
  by (simp add: byte_bits_def)

lemma length_concat_bytes [simp]: "length (concat (map byte_bits bs)) = 8 * length bs"
  by (induction bs) auto

lemma concat_bytes_inj: "concat (map byte_bits as) = concat (map byte_bits bs) \<Longrightarrow> length as = length bs \<Longrightarrow> as = bs"
proof (induction as arbitrary: bs)
  case (Cons a as)
  then obtain b bs' where "bs = b # bs'" by (cases bs) auto
  with Cons show ?case by (auto dest: byte_bits_inj)
qed simp

lemma indexOf_nth: "distinct s \<Longrightarrow> i < length s \<Longrightarrow> indexOf s (s ! i) = Some i"
proof (induction s arbitrary: i)
  case (Cons a s)
  then show ?case by (cases i) (auto simp: indexOf_def split: if_splits)
qed simp

lemma alphabet: "distinct BASE32_ALPHABET" "length BASE32_ALPHABET = 32"
  by code_simp+

lemma and31_less: "unat (x AND 31 :: 32 word) < 32"
proof -
  have "x AND 31 = take_bit 5 x" by (simp add: take_bit_eq_mask mask_eq_exp_minus_1)
  then show ?thesis using take_bit_nat_less_exp[of 5 "unat x"] by (simp add: unsigned_take_bit_eq)
qed

lemma low_bits_and31: "low_bits 5 (x AND 31 :: 32 word) = low_bits 5 x"
proof -
  have "x AND 31 = take_bit 5 x" by (simp add: take_bit_eq_mask mask_eq_exp_minus_1)
  then show ?thesis by (auto intro!: nth_equalityI simp: low_bits_nth bit_simps)
qed

lemma letter_bits_five: "letter_bits (BASE32_ALPHABET ! unat (x AND 31 :: 32 word)) = low_bits 5 x"
  using indexOf_nth[OF alphabet(1), of "unat (x AND 31)"] and31_less[of x] low_bits_and31[of x]
  by (simp add: letter_bits_def alphabet(2))

lemma letter_in: "BASE32_ALPHABET ! unat (x AND 31 :: 32 word) \<in> set BASE32_ALPHABET"
  using and31_less[of x] by (simp add: alphabet)

abbreviation stream :: "string \<Rightarrow> bool list" where
  "stream cs \<equiv> concat (map letter_bits cs)"

lemma emit_fives_stream:
  "emit_fives bits v out = (b, out') \<Longrightarrow>
     b < 5 \<and> stream out' @ low_bits b v = stream out @ low_bits bits v \<and> set out' \<subseteq> set out \<union> set BASE32_ALPHABET"
proof (induction bits v out rule: emit_fives.induct)
  case (1 bits v out)
  show ?case
  proof (cases "5 \<le> bits")
    case True
    let ?l = "BASE32_ALPHABET ! unat (drop_bit (bits - 5) v AND 31)"
    have "low_bits bits v = letter_bits ?l @ low_bits (bits - 5) v"
      using low_bits_split[of "bits - 5" bits v] True by (simp add: letter_bits_five)
    moreover from True "1.prems" have "emit_fives (bits - 5) v (out @ [?l]) = (b, out')" by (simp add: emit_fives.simps[of bits])
    ultimately show ?thesis using "1.IH"[OF True] letter_in by fastforce
  next
    case False
    with "1.prems" show ?thesis by (simp add: emit_fives.simps[of bits])
  qed
qed

lemma encode_bytes_stream:
  "encode_bytes bs bits v out = (b, v', out') \<Longrightarrow> bits < 5 \<Longrightarrow>
     b < 5 \<and> stream out' @ low_bits b v' = stream out @ low_bits bits v @ concat (map byte_bits bs) \<and>
     set out' \<subseteq> set out \<union> set BASE32_ALPHABET"
proof (induction bs arbitrary: bits v out)
  case (Cons x bs)
  let ?v = "push_bit 8 v OR ucast x :: 32 word"
  obtain b1 out1 where e: "emit_fives (bits + 8) ?v out = (b1, out1)" by force
  have "low_bits (bits + 8) ?v = low_bits bits v @ byte_bits x"
    unfolding byte_bits_def using Cons.prems(2)
    by (subst low_bits_shift) (auto simp: bit_simps low_bits_def dest: bit_imp_le_length)
  with emit_fives_stream[OF e] Cons.IH[of b1 ?v out1] Cons.prems e show ?case by auto
qed simp

lemma base32Encode_stream:
  "\<exists>z < 5. stream (base32Encode bs) = concat (map byte_bits bs) @ replicate z False" and
  base32Encode_letters: "set (base32Encode bs) \<subseteq> set BASE32_ALPHABET"
proof -
  obtain b v out where e: "encode_bytes bs 0 0 [] = (b, v, out)" by (metis surj_pair)
  from encode_bytes_stream[OF e] have b: "b < 5" and s: "stream out @ low_bits b v = concat (map byte_bits bs)"
    and l: "set out \<subseteq> set BASE32_ALPHABET" by (simp_all add: low_bits_def)
  have "low_bits 5 (push_bit (5 - b) v) = low_bits b v @ replicate (5 - b) False"
    using b by (intro nth_equalityI) (auto simp: low_bits_nth nth_append bit_simps)
  then show "\<exists>z < 5. stream (base32Encode bs) = concat (map byte_bits bs) @ replicate z False"
    using b s by (cases "b = 0") (auto simp: base32Encode_def e letter_bits_five low_bits_def intro!: exI[of _ "5 - b"])
  show "set (base32Encode bs) \<subseteq> set BASE32_ALPHABET"
    using l letter_in by (auto simp: base32Encode_def e)
qed

lemma indexOf_letter: "c \<in> set BASE32_ALPHABET \<Longrightarrow> \<exists>i < 32. indexOf BASE32_ALPHABET c = Some i"
  using alphabet by (auto simp: in_set_conv_nth indexOf_nth)

lemma byte_bits_low: "byte_bits (ucast (x AND 255 :: 32 word)) = low_bits 8 x"
proof -
  have "x AND 255 = take_bit 8 x" by (simp add: take_bit_eq_mask mask_eq_exp_minus_1)
  then show ?thesis by (auto intro!: nth_equalityI simp: byte_bits_def low_bits_nth bit_simps)
qed

lemma decode_chars_stream:
  "set cs \<subseteq> set BASE32_ALPHABET \<Longrightarrow> bits < 8 \<Longrightarrow>
     \<exists>out' r. decode_chars cs bits v out = Inr out' \<and> length r < 8 \<and>
       concat (map byte_bits out') @ r = concat (map byte_bits out) @ low_bits bits v @ stream cs"
proof (induction cs arbitrary: bits v out)
  case (Cons c cs)
  then obtain i where i: "i < 32" "indexOf BASE32_ALPHABET c = Some i" using indexOf_letter[of c] by auto
  let ?v = "push_bit 5 v OR of_nat i :: 32 word"
  have "\<not> bit (of_nat i :: 32 word) k" if "5 \<le> k" for k
  proof -
    have "i div 2 ^ k = 0" using i(1) that power_increasing[of 5 k "2::nat"] by (intro div_less) simp
    then have "\<not> bit i k" by (simp add: bit_iff_odd)
    then show ?thesis by (simp add: bit_simps)
  qed
  then have more: "low_bits (bits + 5) ?v = low_bits bits v @ letter_bits c"
    using Cons.prems(2) i(2) by (subst low_bits_shift) (auto simp: letter_bits_def)
  show ?case
  proof (cases "8 \<le> bits + 5")
    case True
    let ?w = "ucast (drop_bit (bits + 5 - 8) ?v AND 255) :: 8 word"
    have "byte_bits ?w = low_bits 8 (drop_bit (bits + 5 - 8) ?v)" by (rule byte_bits_low)
    then have "low_bits (bits + 5) ?v = byte_bits ?w @ low_bits (bits + 5 - 8) ?v"
      using low_bits_split[of "bits + 5 - 8" "bits + 5" ?v] True by simp
    with more have m: "byte_bits ?w @ low_bits (bits + 5 - 8) ?v = low_bits bits v @ letter_bits c" by simp
    have "set cs \<subseteq> set BASE32_ALPHABET" "bits + 5 - 8 < 8" using Cons.prems by auto
    from Cons.IH[OF this, of ?v "out @ [?w]"] obtain out' r where ih: "decode_chars cs (bits + 5 - 8) ?v (out @ [?w]) = Inr out'"
      "length r < 8" "concat (map byte_bits out') @ r = concat (map byte_bits out) @ byte_bits ?w @ low_bits (bits + 5 - 8) ?v @ stream cs"
      by auto
    have "decode_chars (c # cs) bits v out = Inr out'" using ih(1) True i(2) by (simp only: decode_chars.simps Let_def option.case if_True)
    moreover have "concat (map byte_bits out') @ r = concat (map byte_bits out) @ low_bits bits v @ stream (c # cs)"
      using ih(3) arg_cong[OF m, of "\<lambda>l. l @ stream cs"] by (simp only: append_assoc list.map concat.simps)
    ultimately show ?thesis using ih(2) by blast
  next
    case False
    with more Cons.IH[of "bits + 5" ?v out] Cons.prems i show ?thesis by (auto simp: Let_def)
  qed
qed (auto intro: exI[of _ "low_bits bits v"])

lemma clean_letter: "\<forall>c \<in> set BASE32_ALPHABET. upper_char c = c \<and> \<not> is_space c \<and> c \<noteq> CHR ''='' \<and> c \<noteq> CHR ''-''"
  by code_simp

lemma clean_letters:
  "set cs \<subseteq> set BASE32_ALPHABET \<Longrightarrow>
     filter (\<lambda>c. \<not> is_space c \<and> c \<noteq> CHR ''='' \<and> c \<noteq> CHR ''-'') (js_upper cs) = cs"
proof (induction cs)
  case (Cons c cs)
  then show ?case using clean_letter by (auto simp: js_upper_def)
qed (simp add: js_upper_def)

text \<open>
  C24. Writing a secret in base 32 and reading it back gives the same bytes, whatever they are: no byte is
  lost although the accumulators of both loops overflow their 32 bits.
\<close>

theorem base32_roundtrip: "base32Decode (base32Encode bytes) = Inr bytes"
proof -
  let ?e = "base32Encode bytes"
  obtain z where z: "z < 5" "stream ?e = concat (map byte_bits bytes) @ replicate z False"
    using base32Encode_stream by blast
  obtain out r where d: "base32Decode ?e = Inr out" and r: "length r < 8" "concat (map byte_bits out) @ r = stream ?e"
    using decode_chars_stream[OF base32Encode_letters, of 0 bytes 0 "[]"]
    by (auto simp: base32Decode_def clean_letters[OF base32Encode_letters] low_bits_def)
  from r(2) z(2) have e: "concat (map byte_bits out) @ r = concat (map byte_bits bytes) @ replicate z False" by simp
  from arg_cong[OF e, of length] r(1) z(1) have l: "length out = length bytes" by simp
  with e have "concat (map byte_bits out) = concat (map byte_bits bytes)"
    by (simp add: append_eq_append_conv)
  with l have "out = bytes" by (intro concat_bytes_inj)
  with d show ?thesis by simp
qed

section \<open>What a code proves\<close>

lemma digit_char: "is_digit (char_of (48 + n mod 10 :: nat))"
proof -
  have "of_char (char_of (48 + n mod 10) :: char) = 48 + n mod 10"
    using of_char_of[of "48 + n mod 10"] by (simp add: mod_less)
  then show ?thesis by (simp add: is_digit_def less_eq_char_def)
qed

lemma decimal_digits_shape: "length (decimal_digits k n) = k \<and> (\<forall>c \<in> set (decimal_digits k n). is_digit c)"
  by (induction k n rule: decimal_digits.induct) (auto simp: digit_char)

lemma hotp_six_digits: "hotp hmac secret step = Inr code \<Longrightarrow> six_digits code"
  using decimal_digits_shape[of 6] by (auto simp: hotp_def Let_def TOTP_DIGITS_def six_digits_def split: if_splits)

definition after :: "int option \<Rightarrow> int \<Rightarrow> bool" where
  "after lastUsedStep step \<longleftrightarrow> (case lastUsedStep of None \<Rightarrow> True | Some l \<Rightarrow> l < step)"

lemma match_steps_find:
  assumes "\<And>s. s \<in> set steps \<Longrightarrow> \<exists>e. code s = Inr e \<and> length e = length clean"
  shows "match_steps code clean l steps = Inr (List.find (\<lambda>s. after l s \<and> code s = Inr clean) steps)"
  using assms
proof (induction steps)
  case (Cons s steps)
  from Cons.prems obtain e where "code s = Inr e" "length e = length clean" by auto
  with Cons show ?case by (auto simp: after_def split: option.splits)
qed simp

lemma match_steps_Some:
  "match_steps code clean l steps = Inr (Some s) \<Longrightarrow> s \<in> set steps \<and> after l s \<and> code s = Inr clean"
  by (induction steps) (auto simp: after_def res_simps split: if_splits option.splits)

lemma verifyTotp_Some:
  assumes "verifyTotp hmac secret code now l = Inr (Some s)"
  shows "after l s" and "\<bar>s - stepAt now\<bar> \<le> TOTP_WINDOW"
    and "\<exists>k. base32Decode secret = Inr k \<and> hotp hmac k s = Inr (strip_spaces code)"
  using assms by (auto simp: verifyTotp_def Let_def res_simps TOTP_WINDOW_def dest!: match_steps_Some split: if_splits)

text \<open>
  Away from the ends of the counter the answer is the first unspent step of the window whose
  code was typed: no path of the loop throws.
\<close>

lemma verifyTotp_exact:
  assumes "base32Decode secret = Inr k" and "six_digits (strip_spaces code)" and "1 \<le> stepAt now" and "stepAt now < 2 ^ 64 - 1"
  shows "verifyTotp hmac secret code now l =
    Inr (List.find (\<lambda>s. after l s \<and> hotp hmac k s = Inr (strip_spaces code)) [stepAt now - 1, stepAt now, stepAt now + 1])"
proof -
  have w: "map ((+) (stepAt now)) [- TOTP_WINDOW..TOTP_WINDOW] = [stepAt now - 1, stepAt now, stepAt now + 1]"
    by (simp add: TOTP_WINDOW_def upto.simps)
  have "\<exists>e. hotp hmac k s = Inr e \<and> length e = length (strip_spaces code)" if "s \<in> set [stepAt now - 1, stepAt now, stepAt now + 1]" for s
    using that assms(2-4) decimal_digits_shape[of 6] by (auto simp: hotp_def Let_def TOTP_DIGITS_def six_digits_def)
  then show ?thesis using assms(1,2) by (simp only: verifyTotp_def Let_def w not_True_eq_False if_False bindr_Inr match_steps_find)
qed

end
