(* ===== verification/Sessions.thy ===== *)
theory Sessions
  imports Roles Totp
begin

text \<open>
  Sign-in: accounts, sessions, two-step sign-in and passwords
  (\<^verbatim>\<open>src/src/modules/auth/auth.service.ts\<close>, \<^verbatim>\<open>mfa.service.ts\<close>, \<^verbatim>\<open>password.service.ts\<close>). The
  state is the part of the database these handlers touch; every row carries its tenant, and a
  handler inside \<^verbatim>\<open>withTenant\<close> sees that tenant's rows only.

  The environment \<open>auth_env\<close> holds what is outside the repository: \<^verbatim>\<open>bcrypt\<close>, the digests of
  \<^verbatim>\<open>node:crypto\<close>, the cipher behind \<^verbatim>\<open>EncryptionService\<close>, the JWT library and the mail
  transport. A signed token is a text; reading one gives the payload it was signed with, if
  the key fits and it has not expired.

  Identifiers and the \<^verbatim>\<open>jti\<close> of a refresh token are drawn from one counter, as \<^verbatim>\<open>randomUUID\<close>
  never repeats itself; the random bytes of a secret are arguments.
  A handler returns an error and no state when its transaction is rolled back. The second
  factor commits what it records before its caller decides, so those handlers return an outcome
  together with a state.
\<close>

section \<open>State\<close>

datatype tenant_status = Trial | Active | Suspended | TenantCancelled

record tenant_row =
  tn_id :: nat
  tn_subdomain :: string
  tn_groupName :: string
  tn_status :: tenant_status
  tn_isDemo :: bool
  tn_demoExpiresAt :: "instant option"

record account =
  ac_id :: nat
  ac_tenant :: nat
  ac_email :: string
  ac_passwordHash :: "string option"
  ac_name :: string
  ac_emailVerified :: bool
  ac_lastLoginAt :: "instant option"
  ac_deletedAt :: "instant option"
  ac_mfaSecret :: "string option"
  ac_mfaEnabledAt :: "instant option"
  ac_mfaLastUsedStep :: "int option"
  ac_mfaFailedAttempts :: nat
  ac_mfaLockedUntil :: "instant option"
  ac_mfaRecoveryCodes :: "string list"

record refresh_token =
  rt_id :: nat
  rt_tenant :: nat
  rt_user :: nat
  rt_tokenHash :: string
  rt_sessionId :: "nat option"
  rt_expiresAt :: instant
  rt_revokedAt :: "instant option"

record password_reset_token =
  pr_id :: nat
  pr_tenant :: nat
  pr_user :: nat
  pr_tokenHash :: string
  pr_expiresAt :: instant
  pr_usedAt :: "instant option"
  pr_createdBy :: "nat option"
  pr_createdAt :: instant

record auth_db =
  ax_tenants :: "tenant_row list"
  ax_roles :: "(nat \<times> string) list"
  ax_users :: "account list"
  ax_assign :: "(nat \<times> role_assignment) list"
  ax_emailIndex :: "(string \<times> nat \<times> nat) list"
  ax_refresh :: "refresh_token list"
  ax_resets :: "password_reset_token list"
  ax_mail :: "(string \<times> string) list"
  ax_audit :: "(nat \<times> nat option \<times> string \<times> nat) list"
  ax_next :: nat

datatype token_key = AccessKey | RefreshKey

text \<open>The payloads, one constructor per \<^verbatim>\<open>tokenType\<close>.\<close>

datatype token_payload =
    AccessPayload nat nat string "role_assignment list"
  | RefreshPayload nat nat "nat option"
  | MfaChallengePayload nat nat
  | EmailVerifyPayload nat nat

record auth_env =
  en_bhash :: "string \<Rightarrow> string"
  en_bcompare :: "string \<Rightarrow> string \<Rightarrow> bool"
  en_sha256 :: "string \<Rightarrow> string"
  en_hmac :: "buffer \<Rightarrow> buffer \<Rightarrow> buffer"
  en_encrypt :: "string \<Rightarrow> string"
  en_decrypt :: "string \<Rightarrow> string result"
  en_sign :: "token_key \<Rightarrow> token_payload \<Rightarrow> instant \<Rightarrow> int \<Rightarrow> string"
  en_verify :: "token_key \<Rightarrow> bool \<Rightarrow> string \<Rightarrow> instant \<Rightarrow> token_payload option"
  en_exp :: "string \<Rightarrow> int"
  en_accessTtl :: int
  en_refreshTtl :: int
  en_uuid :: "nat \<Rightarrow> string"
  en_webBase :: string
  en_delivers :: bool
  en_accepts :: "string \<Rightarrow> bool"

definition ax_log :: "nat \<Rightarrow> nat option \<Rightarrow> string \<Rightarrow> nat \<Rightarrow> auth_db \<Rightarrow> auth_db" where
  "ax_log tenantId userId action entityId s = s\<lparr>ax_audit := ax_audit s @ [(tenantId, userId, action, entityId)]\<rparr>"

definition upd_user :: "nat \<Rightarrow> (account \<Rightarrow> account) \<Rightarrow> auth_db \<Rightarrow> auth_db" where
  "upd_user i f s = s\<lparr>ax_users := map (\<lambda>u. if ac_id u = i then f u else u) (ax_users s)\<rparr>"

text \<open>\<^verbatim>\<open>tx.user.findFirst({ where: { id, deletedAt: null } })\<close>\<close>

definition liveUser :: "auth_db \<Rightarrow> nat \<Rightarrow> nat \<Rightarrow> account option" where
  "liveUser s tenantId userId =
     List.find (\<lambda>u. ac_tenant u = tenantId \<and> ac_id u = userId \<and> ac_deletedAt u = None) (ax_users s)"

definition indexed :: "auth_db \<Rightarrow> string \<Rightarrow> (nat \<times> nat) option" where
  "indexed s email = map_of (ax_emailIndex s) email"

definition OPEN_TENANT_STATUSES :: "tenant_status list" where
  "OPEN_TENANT_STATUSES = [Trial, Active]"

definition isTenantOpen :: "tenant_status option \<Rightarrow> bool" where
  "isTenantOpen status = (case status of None \<Rightarrow> False | Some x \<Rightarrow> x \<in> set OPEN_TENANT_STATUSES)"

definition assertTenantOpen :: "auth_db \<Rightarrow> nat \<Rightarrow> unit result" where
  "assertTenantOpen s tenantId =
     (if isTenantOpen (map_option tn_status (List.find (\<lambda>t. tn_id t = tenantId) (ax_tenants s)))
      then Inr () else Inl (Forbidden TENANT_SUSPENDED))"

definition webUrl :: "auth_env \<Rightarrow> string \<Rightarrow> string" where
  "webUrl E path =
     rev (dropWhile (\<lambda>c. c = CHR ''/'') (rev (en_webBase E))) @
     (if take 1 path = ''/'' then path else ''/'' @ path)"

text \<open>An e-mail about an account: whether it left.\<close>

definition send :: "auth_env \<Rightarrow> string \<Rightarrow> string \<Rightarrow> auth_db \<Rightarrow> bool \<times> auth_db" where
  "send E to body s =
     (if \<not> en_delivers E then (False, s)
      else if en_accepts E to then (True, s\<lparr>ax_mail := ax_mail s @ [(to, body)]\<rparr>)
      else (False, s))"

section \<open>Signing up\<close>

definition slug_char :: "char \<Rightarrow> bool" where
  "slug_char c \<longleftrightarrow> is_digit c \<or> CHR ''a'' \<le> c \<and> c \<le> CHR ''z''"

text \<open>\<^verbatim>\<open>replace(/[^a-z0-9]+/g, '-')\<close>: a run of other characters becomes one hyphen.\<close>

fun hyphenate :: "string \<Rightarrow> string" where
  "hyphenate [] = []"
| "hyphenate (c # cs) =
     (if slug_char c then c # hyphenate cs
      else case cs of
        [] \<Rightarrow> ''-''
      | d # _ \<Rightarrow> if slug_char d then CHR ''-'' # hyphenate cs else hyphenate cs)"

definition trim_hyphens :: "string \<Rightarrow> string" where
  "trim_hyphens s = rev (dropWhile (\<lambda>c. c = CHR ''-'') (rev (dropWhile (\<lambda>c. c = CHR ''-'') s)))"

definition slugify :: "string \<Rightarrow> string" where
  "slugify input = trim_hyphens (hyphenate (js_trim (js_lower input)))"

text \<open>Five candidates, then a last one that is not looked up; \<open>rnd\<close> are the random suffixes.\<close>

fun first_free :: "(nat \<Rightarrow> string) \<Rightarrow> string \<Rightarrow> string list \<Rightarrow> nat list \<Rightarrow> string" where
  "first_free rnd base taken [] = base @ ''-'' @ rnd 5"
| "first_free rnd base taken (attempt # attempts) =
     (let candidate = (if attempt = 0 then base else base @ ''-'' @ rnd attempt)
      in if candidate \<notin> set taken then candidate else first_free rnd base taken attempts)"

definition generateUniqueSubdomain :: "(nat \<Rightarrow> string) \<Rightarrow> string \<Rightarrow> auth_db \<Rightarrow> string" where
  "generateUniqueSubdomain rnd groupName s =
     (let cut = take 50 (slugify groupName); base = (if cut = [] then ''tenant'' else cut)
      in first_free rnd base (map tn_subdomain (ax_tenants s)) [0..<5])"

definition verificationToken :: "auth_env \<Rightarrow> nat \<Rightarrow> nat \<Rightarrow> instant \<Rightarrow> string" where
  "verificationToken E userId tenantId now = en_sign E AccessKey (EmailVerifyPayload userId tenantId) now (72 * 3600)"

definition verificationLink :: "auth_env \<Rightarrow> string \<Rightarrow> string" where
  "verificationLink E token = webUrl E (''/verify-email?token='' @ token)"

definition DEMO_TENANT_TTL_DAYS :: int where "DEMO_TENANT_TTL_DAYS = 30"

definition demoExpiryFromNow :: "instant \<Rightarrow> instant" where
  "demoExpiryFromNow now = now + DEMO_TENANT_TTL_DAYS * DAY"

record register_dto =
  rd_groupName :: string
  rd_name :: string
  rd_email :: string
  rd_password :: string
  rd_isDemo :: "bool option"

definition new_account :: "nat \<Rightarrow> nat \<Rightarrow> string \<Rightarrow> string \<Rightarrow> string \<Rightarrow> bool \<Rightarrow> account" where
  "new_account i tenantId email passwordHash name verified =
     \<lparr>ac_id = i, ac_tenant = tenantId, ac_email = email, ac_passwordHash = Some passwordHash, ac_name = name,
      ac_emailVerified = verified, ac_lastLoginAt = None, ac_deletedAt = None,
      ac_mfaSecret = None, ac_mfaEnabledAt = None, ac_mfaLastUsedStep = None, ac_mfaFailedAttempts = 0,
      ac_mfaLockedUntil = None, ac_mfaRecoveryCodes = []\<rparr>"

record registered =
  sg_tenantId :: nat
  sg_userId :: nat
  sg_subdomain :: string
  sg_verificationToken :: "string option"
  sg_emailed :: bool

definition register :: "auth_env \<Rightarrow> (nat \<Rightarrow> string) \<Rightarrow> register_dto \<Rightarrow> instant \<Rightarrow> auth_db \<Rightarrow> (registered \<times> auth_db) result" where
  "register E rnd dto now s =
     (if indexed s (rd_email dto) \<noteq> None then Inl (Conflict EMAIL_TAKEN)
      else let passwordHash = en_bhash E (rd_password dto);
               subdomain = generateUniqueSubdomain rnd (rd_groupName dto) s;
               tenantId = ax_next s; userId = Suc tenantId;
               demo = the_default False (rd_isDemo dto)
      in if subdomain \<in> set (map tn_subdomain (ax_tenants s)) then Inl UniqueViolation
      else let
        s = s\<lparr>ax_next := Suc userId,
              ax_tenants := ax_tenants s @ [\<lparr>tn_id = tenantId, tn_subdomain = subdomain, tn_groupName = rd_groupName dto,
                tn_status = Trial, tn_isDemo = demo, tn_demoExpiresAt = (if demo then Some (demoExpiryFromNow now) else None)\<rparr>],
              ax_roles := ax_roles s @ map (Pair tenantId) SYSTEM_ROLE_NAMES,
              ax_users := ax_users s @ [new_account userId tenantId (rd_email dto) passwordHash (rd_name dto) False],
              ax_assign := ax_assign s @ [(userId, \<lparr>ra_branch = None, ra_role = ''owner''\<rparr>)],
              ax_emailIndex := ax_emailIndex s @ [(rd_email dto, tenantId, userId)]\<rparr>;
        s = ax_log tenantId (Some userId) ''auth.register'' tenantId s;
        token = verificationToken E userId tenantId now;
        (emailed, s) = send E (rd_email dto) (verificationLink E token) s
      in Inr (\<lparr>sg_tenantId = tenantId, sg_userId = userId, sg_subdomain = subdomain,
               sg_verificationToken = (if en_delivers E then None else Some token), sg_emailed = emailed\<rparr>, s))"

definition unverifiedUser :: "auth_db \<Rightarrow> string \<Rightarrow> account option" where
  "unverifiedUser s email =
     (case indexed s email of
        None \<Rightarrow> None
      | Some (tenantId, userId) \<Rightarrow>
          (case liveUser s tenantId userId of
             None \<Rightarrow> None
           | Some u \<Rightarrow> if ac_emailVerified u then None else Some u))"

definition emailVerificationLink :: "auth_env \<Rightarrow> string \<Rightarrow> instant \<Rightarrow> auth_db \<Rightarrow> auth_db" where
  "emailVerificationLink E email now s =
     (case unverifiedUser s email of
        None \<Rightarrow> s
      | Some u \<Rightarrow> snd (send E (ac_email u) (verificationLink E (verificationToken E (ac_id u) (ac_tenant u) now)) s))"

definition DUMMY_HASH :: string where
  "DUMMY_HASH = ''$2b$12$C6UzMDM.H6dfI/f/IKcEeO7ZBpDLhAuxrTNqtC1sTEIOhKkBUeRlq''"

text \<open>The token, when no e-mail can carry it; the mail goes out after the answer.\<close>

definition resendVerification ::
  "auth_env \<Rightarrow> string \<Rightarrow> string option \<Rightarrow> instant \<Rightarrow> auth_db \<Rightarrow> (bool \<times> string option) \<times> auth_db" where
  "resendVerification E email password now s =
     (if en_delivers E then ((True, None), emailVerificationLink E email now s)
      else case unverifiedUser s email of
        None \<Rightarrow> ((False, None), s)
      | Some u \<Rightarrow>
          if the_default '''' password = '''' \<or>
             \<not> en_bcompare E (the_default '''' password) (the_default DUMMY_HASH (ac_passwordHash u))
          then ((False, None), s)
          else ((False, Some (verificationToken E (ac_id u) (ac_tenant u) now)), s))"

definition verifyEmail :: "auth_env \<Rightarrow> string \<Rightarrow> instant \<Rightarrow> auth_db \<Rightarrow> auth_db result" where
  "verifyEmail E token now s =
     (case en_verify E AccessKey False token now of
        Some (EmailVerifyPayload sub tenantId) \<Rightarrow>
          (case liveUser s tenantId sub of
             None \<Rightarrow> Inl (BadRequest TOKEN_INVALID)
           | Some u \<Rightarrow>
               if ac_emailVerified u then Inr s
               else Inr (ax_log tenantId (Some (ac_id u)) ''auth.verify_email'' (ac_id u)
                      (upd_user (ac_id u) (\<lambda>u. u\<lparr>ac_emailVerified := True\<rparr>) s)))
      | _ \<Rightarrow> Inl (BadRequest TOKEN_INVALID))"

section \<open>Sessions\<close>

record login_result =
  lr_accessToken :: string
  lr_refreshToken :: string
  lr_userId :: nat
  lr_tenantId :: nat
  lr_roles :: "role_assignment list"

definition hashToken :: "auth_env \<Rightarrow> string \<Rightarrow> string" where
  "hashToken E token = en_sha256 E token"

definition loadRolesClaim :: "auth_db \<Rightarrow> nat \<Rightarrow> role_assignment list" where
  "loadRolesClaim s userId = map snd (filter (\<lambda>a. fst a = userId) (ax_assign s))"

text \<open>
  The row of a refresh token expires with the token, read back from its \<^verbatim>\<open>exp\<close>; the digest is
  a unique column. \<open>sessionId\<close> is the sign-in a renewal continues; a new sign-in draws its own.
\<close>

definition buildLoginResult ::
  "auth_env \<Rightarrow> account \<Rightarrow> role_assignment list \<Rightarrow> nat option \<Rightarrow> instant \<Rightarrow> auth_db \<Rightarrow> (login_result \<times> auth_db) result" where
  "buildLoginResult E u roles sessionId now s =
     (let sid = the_default (ax_next s) sessionId; jti = Suc (ax_next s); i = Suc jti;
          accessToken = en_sign E AccessKey (AccessPayload (ac_id u) (ac_tenant u) (ac_email u) roles) now (en_accessTtl E);
          refreshToken = en_sign E RefreshKey (RefreshPayload (ac_id u) (ac_tenant u) (Some jti)) now (en_refreshTtl E);
          hash = hashToken E refreshToken
      in if hash \<in> set (map rt_tokenHash (ax_refresh s)) then Inl UniqueViolation
         else Inr (\<lparr>lr_accessToken = accessToken, lr_refreshToken = refreshToken, lr_userId = ac_id u,
                    lr_tenantId = ac_tenant u, lr_roles = roles\<rparr>,
                   s\<lparr>ax_next := Suc i,
                     ax_refresh := ax_refresh s @ [\<lparr>rt_id = i, rt_tenant = ac_tenant u, rt_user = ac_id u,
                       rt_tokenHash = hash, rt_sessionId = Some sid, rt_expiresAt = en_exp E refreshToken * 1000,
                       rt_revokedAt = None\<rparr>]\<rparr>))"

definition startSession :: "auth_env \<Rightarrow> account \<Rightarrow> instant \<Rightarrow> auth_db \<Rightarrow> (login_result \<times> auth_db) result" where
  "startSession E u now s = buildLoginResult E u (loadRolesClaim s (ac_id u)) None now s"

datatype login_outcome = SignedIn login_result | MfaRequired string

definition MFA_CHALLENGE_SECONDS :: int where "MFA_CHALLENGE_SECONDS = 300"

definition login :: "auth_env \<Rightarrow> string \<Rightarrow> string \<Rightarrow> instant \<Rightarrow> auth_db \<Rightarrow> (login_outcome \<times> auth_db) result" where
  "login E email password now s =
     (case indexed s email of
        None \<Rightarrow> Inl (Unauthorized INVALID_CREDENTIALS)
      | Some (tenantId, _) \<Rightarrow>
          (case List.find (\<lambda>u. ac_tenant u = tenantId \<and> ac_email u = email \<and> ac_deletedAt u = None) (ax_users s) of
             None \<Rightarrow> Inl (Unauthorized INVALID_CREDENTIALS)
           | Some u \<Rightarrow>
               if \<not> en_bcompare E password (the_default DUMMY_HASH (ac_passwordHash u)) then Inl (Unauthorized INVALID_CREDENTIALS)
               else if \<not> ac_emailVerified u then Inl (Forbidden EMAIL_NOT_VERIFIED)
               else bindr (assertTenantOpen s tenantId) (\<lambda>_.
                 if ac_mfaEnabledAt u \<noteq> None
                 then Inr (MfaRequired (en_sign E RefreshKey (MfaChallengePayload (ac_id u) (ac_tenant u)) now MFA_CHALLENGE_SECONDS),
                           ax_log tenantId (Some (ac_id u)) ''auth.mfa_challenged'' (ac_id u) s)
                 else let roles = loadRolesClaim s (ac_id u);
                          s = upd_user (ac_id u) (\<lambda>u. u\<lparr>ac_lastLoginAt := Some now\<rparr>) s;
                          s = ax_log tenantId (Some (ac_id u)) ''auth.login'' (ac_id u) s
                      in bindr (buildLoginResult E u roles None now s) (\<lambda>(r, s). Inr (SignedIn r, s)))))"

text \<open>Renewing: the token's row must be live; it is retired and its successor continues the sign-in.\<close>

definition revoke :: "(refresh_token \<Rightarrow> bool) \<Rightarrow> instant \<Rightarrow> auth_db \<Rightarrow> auth_db" where
  "revoke which now s =
     s\<lparr>ax_refresh := map (\<lambda>r. if rt_revokedAt r = None \<and> which r then r\<lparr>rt_revokedAt := Some now\<rparr> else r) (ax_refresh s)\<rparr>"

definition tokenRow :: "auth_env \<Rightarrow> nat \<Rightarrow> string \<Rightarrow> auth_db \<Rightarrow> refresh_token option" where
  "tokenRow E tenantId token s =
     List.find (\<lambda>r. rt_tenant r = tenantId \<and> rt_tokenHash r = hashToken E token) (ax_refresh s)"

definition refresh :: "auth_env \<Rightarrow> string \<Rightarrow> instant \<Rightarrow> auth_db \<Rightarrow> (login_result \<times> auth_db) result" where
  "refresh E token now s =
     (case en_verify E RefreshKey False token now of
        Some (RefreshPayload sub tenantId _) \<Rightarrow>
          (case tokenRow E tenantId token s of
             None \<Rightarrow> Inl (Unauthorized TOKEN_INVALID)
           | Some session \<Rightarrow>
               if rt_revokedAt session \<noteq> None \<or> rt_expiresAt session \<le> now \<or> rt_user session \<noteq> sub
               then Inl (Unauthorized TOKEN_INVALID)
               else let s = revoke (\<lambda>r. rt_id r = rt_id session) now s
               in case liveUser s tenantId sub of
                 None \<Rightarrow> Inl (Unauthorized TOKEN_INVALID)
               | Some u \<Rightarrow>
                   if \<not> ac_emailVerified u then Inl (Unauthorized TOKEN_INVALID)
                   else bindr (assertTenantOpen s tenantId) (\<lambda>_.
                     buildLoginResult E u (loadRolesClaim s (ac_id u))
                       (Some (the_default (rt_id session) (rt_sessionId session))) now s))
      | _ \<Rightarrow> Inl (Unauthorized TOKEN_INVALID))"

definition logout :: "auth_env \<Rightarrow> string \<Rightarrow> instant \<Rightarrow> auth_db \<Rightarrow> auth_db" where
  "logout E token now s =
     (case en_verify E RefreshKey True token now of
        Some (RefreshPayload sub tenantId _) \<Rightarrow>
          (case tokenRow E tenantId token s of
             None \<Rightarrow> s
           | Some row \<Rightarrow>
               let ends = (\<lambda>r. rt_tenant r = tenantId \<and>
                     (rt_id r = rt_id row \<or> rt_sessionId row \<noteq> None \<and> rt_sessionId r = rt_sessionId row));
                   count = length (filter (\<lambda>r. rt_revokedAt r = None \<and> ends r) (ax_refresh s));
                   s = revoke ends now s
               in if 0 < count then ax_log tenantId (Some sub) ''auth.logout'' sub s else s)
      | _ \<Rightarrow> s)"

text \<open>Sessions that ended or expired more than a week ago go, tenant by tenant.\<close>

definition stale :: "instant \<Rightarrow> refresh_token \<Rightarrow> bool" where
  "stale cutoff r \<longleftrightarrow> rt_expiresAt r < cutoff \<or> (case rt_revokedAt r of None \<Rightarrow> False | Some t \<Rightarrow> t < cutoff)"

fun prune_tenants :: "instant \<Rightarrow> nat list \<Rightarrow> nat \<times> auth_db \<Rightarrow> nat \<times> auth_db" where
  "prune_tenants cutoff [] acc = acc"
| "prune_tenants cutoff (t # ts) (pruned, s) =
     (let gone = filter (\<lambda>r. rt_tenant r = t \<and> stale cutoff r) (ax_refresh s)
      in prune_tenants cutoff ts (pruned + length gone,
           s\<lparr>ax_refresh := filter (\<lambda>r. \<not> (rt_tenant r = t \<and> stale cutoff r)) (ax_refresh s)\<rparr>))"

definition pruneEndedSessions :: "instant \<Rightarrow> auth_db \<Rightarrow> nat \<times> auth_db" where
  "pruneEndedSessions now s = prune_tenants (now - 7 * DAY) (map tn_id (ax_tenants s)) (0, s)"

text \<open>
  Someone new accepting an invitation: the account, its index row, the role, a session. The
  checks before are those of \<open>acceptInvite\<close> in the staff model; the password is strong and the name is given.
\<close>

definition joinByInvite ::
  "auth_env \<Rightarrow> nat \<Rightarrow> string \<Rightarrow> string \<Rightarrow> string \<Rightarrow> role_assignment \<Rightarrow> instant \<Rightarrow> auth_db \<Rightarrow> (login_result \<times> auth_db) result" where
  "joinByInvite E tenantId email name password role now s =
     bindr (assertTenantOpen s tenantId) (\<lambda>_.
       case indexed s email of
         Some (t, _) \<Rightarrow> if t \<noteq> tenantId then Inl (Conflict EMAIL_TAKEN) else Inl UniqueViolation
       | None \<Rightarrow>
        let u = new_account (ax_next s) tenantId email (en_bhash E password) (js_trim name) True;
            s = s\<lparr>ax_next := Suc (ax_next s), ax_users := ax_users s @ [u],
                  ax_emailIndex := ax_emailIndex s @ [(email, tenantId, ac_id u)],
                  ax_assign := ax_assign s @ [(ac_id u, role)]\<rparr>
        in startSession E u now (ax_log tenantId (Some (ac_id u)) ''auth.accept_invite'' (ac_id u) s))"

text \<open>Switching an account off ends its sessions; switching it on again restores none.\<close>

definition setAccountActive :: "nat \<Rightarrow> bool \<Rightarrow> instant \<Rightarrow> auth_db \<Rightarrow> auth_db" where
  "setAccountActive userId active now s =
     (let s = upd_user userId (\<lambda>u. u\<lparr>ac_deletedAt := (if active then None else Some (the_default now (ac_deletedAt u)))\<rparr>) s
      in if active then s else revoke (\<lambda>r. rt_user r = userId) now s)"

section \<open>Two-step sign-in\<close>

definition MFA_MAX_FAILED_ATTEMPTS :: nat where "MFA_MAX_FAILED_ATTEMPTS = 5"
definition MFA_LOCK_MINUTES :: int where "MFA_LOCK_MINUTES = 15"

datatype factor_method = TotpCode | RecoveryCode
datatype second_factor = Accepted factor_method int | Refused "instant option" int

record mfa_status =
  ms_enabled :: bool
  ms_enabledAt :: "instant option"
  ms_pendingSetup :: bool
  ms_recoveryCodesLeft :: nat

definition toStatus :: "account \<Rightarrow> mfa_status" where
  "toStatus u = \<lparr>ms_enabled = (ac_mfaEnabledAt u \<noteq> None), ms_enabledAt = ac_mfaEnabledAt u,
     ms_pendingSetup = (ac_mfaEnabledAt u = None \<and> ac_mfaSecret u \<noteq> None),
     ms_recoveryCodesLeft = (if ac_mfaEnabledAt u \<noteq> None then length (ac_mfaRecoveryCodes u) else 0)\<rparr>"

definition loadUser :: "auth_db \<Rightarrow> nat \<Rightarrow> nat \<Rightarrow> account result" where
  "loadUser s tenantId userId =
     (case liveUser s tenantId userId of None \<Rightarrow> Inl (NotFound NOT_FOUND) | Some u \<Rightarrow> Inr u)"

definition clearedMfa :: "account \<Rightarrow> account" where
  "clearedMfa u = u\<lparr>ac_mfaSecret := None, ac_mfaEnabledAt := None, ac_mfaLastUsedStep := None,
     ac_mfaFailedAttempts := 0, ac_mfaLockedUntil := None, ac_mfaRecoveryCodes := []\<rparr>"

text \<open>\<open>bytes\<close> are the twenty random bytes of the new secret.\<close>

definition beginSetup :: "auth_env \<Rightarrow> nat \<Rightarrow> nat \<Rightarrow> buffer \<Rightarrow> auth_db \<Rightarrow> (string \<times> auth_db) result" where
  "beginSetup E tenantId userId bytes s =
     bindr (loadUser s tenantId userId) (\<lambda>u.
       if ac_mfaEnabledAt u \<noteq> None then Inl (Conflict CONFLICT)
       else let secret = base32Encode bytes
            in Inr (secret, upd_user userId (\<lambda>u. u\<lparr>ac_mfaSecret := Some (en_encrypt E secret),
                 ac_mfaLastUsedStep := None, ac_mfaFailedAttempts := 0, ac_mfaLockedUntil := None\<rparr>) s))"

definition enable :: "auth_env \<Rightarrow> nat \<Rightarrow> nat \<Rightarrow> string \<Rightarrow> (nat \<Rightarrow> nat \<Rightarrow> nat) \<Rightarrow> instant \<Rightarrow> auth_db \<Rightarrow> (string list \<times> auth_db) result" where
  "enable E tenantId userId code rnd now s =
     bindr (loadUser s tenantId userId) (\<lambda>u.
       if ac_mfaEnabledAt u \<noteq> None then Inl (Conflict CONFLICT)
       else case ac_mfaSecret u of
         None \<Rightarrow> Inl (BadRequest VALIDATION_FAILED)
       | Some stored \<Rightarrow>
           bindr (en_decrypt E stored) (\<lambda>secret.
           bindr (verifyTotp (en_hmac E) secret code now None) (\<lambda>step.
             case step of
               None \<Rightarrow> Inl (Unauthorized MFA_INVALID_CODE)
             | Some st \<Rightarrow>
                 let recoveryCodes = generateRecoveryCodes rnd;
                     s = upd_user userId (\<lambda>u. u\<lparr>ac_mfaEnabledAt := Some now, ac_mfaLastUsedStep := Some st,
                           ac_mfaFailedAttempts := 0, ac_mfaLockedUntil := None,
                           ac_mfaRecoveryCodes := map (hashRecoveryCode (en_sha256 E)) recoveryCodes\<rparr>) s
                 in Inr (recoveryCodes, ax_log tenantId (Some userId) ''auth.mfa_enabled'' userId s))))"

text \<open>
  The two ways a code is accepted. Each is a conditional update: it counts only if the row
  still says the step, or the recovery code, is unused.
\<close>

definition accept_code :: "auth_env \<Rightarrow> nat \<Rightarrow> account \<Rightarrow> string \<Rightarrow> string \<Rightarrow> instant \<Rightarrow> auth_db \<Rightarrow> (second_factor \<times> auth_db) option result" where
  "accept_code E tenantId u stored trimmed now s =
     (let left = int (length (ac_mfaRecoveryCodes u))
      in if six_digits (strip_spaces trimmed)
      then bindr (en_decrypt E stored) (\<lambda>secret.
           bindr (verifyTotp (en_hmac E) secret trimmed now (ac_mfaLastUsedStep u)) (\<lambda>step.
             case step of
               None \<Rightarrow> Inr None
             | Some st \<Rightarrow>
                 if (case ac_mfaLastUsedStep u of None \<Rightarrow> True | Some l \<Rightarrow> l < st)
                 then Inr (Some (Accepted TotpCode left, upd_user (ac_id u) (\<lambda>u. u\<lparr>ac_mfaLastUsedStep := Some st,
                        ac_mfaFailedAttempts := 0, ac_mfaLockedUntil := None\<rparr>) s))
                 else Inr None))
      else if looksLikeRecoveryCode trimmed
      then let hash = hashRecoveryCode (en_sha256 E) trimmed
           in if hash \<in> set (ac_mfaRecoveryCodes u)
              then Inr (Some (Accepted RecoveryCode (left - 1),
                     ax_log tenantId (Some (ac_id u)) ''auth.mfa_recovery_code_used'' (ac_id u)
                       (upd_user (ac_id u) (\<lambda>u. u\<lparr>ac_mfaRecoveryCodes := filter (\<lambda>h. h \<noteq> hash) (ac_mfaRecoveryCodes u),
                          ac_mfaFailedAttempts := 0, ac_mfaLockedUntil := None\<rparr>) s)))
              else Inr None
      else Inr None)"

definition refuse_code :: "nat \<Rightarrow> account \<Rightarrow> instant \<Rightarrow> auth_db \<Rightarrow> second_factor \<times> auth_db" where
  "refuse_code tenantId u now s =
     (let failures = Suc (ac_mfaFailedAttempts u)
      in if MFA_MAX_FAILED_ATTEMPTS \<le> failures
      then let lockedUntil = now + MFA_LOCK_MINUTES * 60000
           in (Refused (Some lockedUntil) 0,
               ax_log tenantId (Some (ac_id u)) ''auth.mfa_locked'' (ac_id u)
                 (upd_user (ac_id u) (\<lambda>u. u\<lparr>ac_mfaFailedAttempts := 0, ac_mfaLockedUntil := Some lockedUntil\<rparr>) s))
      else (Refused None (int MFA_MAX_FAILED_ATTEMPTS - int failures),
            ax_log tenantId (Some (ac_id u)) ''auth.mfa_failed'' (ac_id u)
              (upd_user (ac_id u) (\<lambda>u. u\<lparr>ac_mfaFailedAttempts := failures\<rparr>) s)))"

definition locked_at :: "account \<Rightarrow> instant \<Rightarrow> bool" where
  "locked_at u now \<longleftrightarrow> (case ac_mfaLockedUntil u of None \<Rightarrow> False | Some l \<Rightarrow> now < l)"

definition checkSecondFactor :: "auth_env \<Rightarrow> nat \<Rightarrow> nat \<Rightarrow> string \<Rightarrow> instant \<Rightarrow> auth_db \<Rightarrow> (second_factor \<times> auth_db) result" where
  "checkSecondFactor E tenantId userId code now s =
     bindr (loadUser s tenantId userId) (\<lambda>u.
       case ac_mfaSecret u of
         None \<Rightarrow> Inr (Refused None 0, s)
       | Some stored \<Rightarrow>
           if ac_mfaEnabledAt u = None then Inr (Refused None 0, s)
           else if locked_at u now then Inr (Refused (ac_mfaLockedUntil u) 0, s)
           else bindr (accept_code E tenantId u stored (js_trim code) now s) (\<lambda>accepted.
             case accepted of Some done' \<Rightarrow> Inr done' | None \<Rightarrow> Inr (refuse_code tenantId u now s)))"

definition failureFor :: "instant option \<Rightarrow> http_error" where
  "failureFor lockedUntil = (if lockedUntil \<noteq> None then TooManyRequests MFA_LOCKED else Unauthorized MFA_INVALID_CODE)"

definition requireSecondFactor :: "auth_env \<Rightarrow> nat \<Rightarrow> nat \<Rightarrow> string \<Rightarrow> instant \<Rightarrow> auth_db \<Rightarrow> unit result \<times> auth_db" where
  "requireSecondFactor E tenantId userId code now s =
     (case checkSecondFactor E tenantId userId code now s of
        Inl e \<Rightarrow> (Inl e, s)
      | Inr (Refused lockedUntil _, s) \<Rightarrow> (Inl (failureFor lockedUntil), s)
      | Inr (Accepted _ _, s) \<Rightarrow> (Inr (), s))"

text \<open>The second half of a sign-in.\<close>

definition verifyMfaLogin ::
  "auth_env \<Rightarrow> string \<Rightarrow> string \<Rightarrow> instant \<Rightarrow> auth_db \<Rightarrow> (login_result \<times> factor_method \<times> int) result \<times> auth_db" where
  "verifyMfaLogin E challengeToken code now s =
     (case en_verify E RefreshKey False challengeToken now of
        Some (MfaChallengePayload sub tenantId) \<Rightarrow>
          (case checkSecondFactor E tenantId sub code now s of
             Inl e \<Rightarrow> (Inl e, s)
           | Inr (Refused lockedUntil _, s) \<Rightarrow> (Inl (failureFor lockedUntil), s)
           | Inr (Accepted how left, s) \<Rightarrow>
               (case (case liveUser s tenantId sub of
                        None \<Rightarrow> Inl (Unauthorized TOKEN_INVALID)
                      | Some u \<Rightarrow>
                          if \<not> ac_emailVerified u \<or> ac_mfaEnabledAt u = None then Inl (Unauthorized TOKEN_INVALID)
                          else bindr (assertTenantOpen s tenantId) (\<lambda>_.
                            let roles = loadRolesClaim s (ac_id u);
                                s = upd_user (ac_id u) (\<lambda>u. u\<lparr>ac_lastLoginAt := Some now\<rparr>) s;
                                s = ax_log tenantId (Some (ac_id u)) ''auth.login'' (ac_id u) s
                            in buildLoginResult E u roles None now s)) of
                  Inl e \<Rightarrow> (Inl e, s)
                | Inr (r, s) \<Rightarrow> (Inr (r, how, left), s)))
      | _ \<Rightarrow> (Inl (Unauthorized TOKEN_INVALID), s))"

definition assertPassword :: "auth_env \<Rightarrow> nat \<Rightarrow> nat \<Rightarrow> string \<Rightarrow> auth_db \<Rightarrow> unit result" where
  "assertPassword E tenantId userId password s =
     bindr (loadUser s tenantId userId) (\<lambda>u.
       case ac_passwordHash u of
         None \<Rightarrow> Inl (Unauthorized INVALID_CREDENTIALS)
       | Some h \<Rightarrow> if h = '''' \<or> \<not> en_bcompare E password h then Inl (Unauthorized INVALID_CREDENTIALS) else Inr ())"

definition disable :: "auth_env \<Rightarrow> nat \<Rightarrow> nat \<Rightarrow> string \<Rightarrow> string \<Rightarrow> instant \<Rightarrow> auth_db \<Rightarrow> unit result \<times> auth_db" where
  "disable E tenantId userId password code now s =
     (case assertPassword E tenantId userId password s of
        Inl e \<Rightarrow> (Inl e, s)
      | Inr _ \<Rightarrow>
          (case requireSecondFactor E tenantId userId code now s of
             (Inl e, s) \<Rightarrow> (Inl e, s)
           | (Inr _, s) \<Rightarrow>
               (Inr (), ax_log tenantId (Some userId) ''auth.mfa_disabled'' userId (upd_user userId clearedMfa s))))"

definition regenerateRecoveryCodes ::
  "auth_env \<Rightarrow> nat \<Rightarrow> nat \<Rightarrow> string \<Rightarrow> (nat \<Rightarrow> nat \<Rightarrow> nat) \<Rightarrow> instant \<Rightarrow> auth_db \<Rightarrow> string list result \<times> auth_db" where
  "regenerateRecoveryCodes E tenantId userId code rnd now s =
     (case requireSecondFactor E tenantId userId code now s of
        (Inl e, s) \<Rightarrow> (Inl e, s)
      | (Inr _, s) \<Rightarrow>
          let recoveryCodes = generateRecoveryCodes rnd
          in (Inr recoveryCodes, ax_log tenantId (Some userId) ''auth.mfa_recovery_codes_regenerated'' userId
                (upd_user userId (\<lambda>u. u\<lparr>ac_mfaRecoveryCodes := map (hashRecoveryCode (en_sha256 E)) recoveryCodes\<rparr>) s)))"

definition resetForUser :: "nat \<Rightarrow> jwt \<Rightarrow> nat \<Rightarrow> auth_db \<Rightarrow> auth_db result" where
  "resetForUser tenantId actor targetUserId s =
     (if \<not> (\<exists>r \<in> set (jw_roles actor). ra_role r = ''owner'') then Inl (Forbidden FORBIDDEN)
      else if jw_sub actor = targetUserId then Inl (BadRequest VALIDATION_FAILED)
      else case List.find (\<lambda>u. ac_tenant u = tenantId \<and> ac_id u = targetUserId) (ax_users s) of
        None \<Rightarrow> Inl (NotFound NOT_FOUND)
      | Some u \<Rightarrow>
          if ac_mfaEnabledAt u = None \<and> ac_mfaSecret u = None then Inr s
          else Inr (ax_log tenantId (Some (jw_sub actor)) ''auth.mfa_reset'' targetUserId (upd_user targetUserId clearedMfa s)))"

section \<open>Passwords\<close>

definition SELF_SERVICE_MINUTES :: int where "SELF_SERVICE_MINUTES = 60"
definition HANDED_OVER_MINUTES :: int where "HANDED_OVER_MINUTES = 24 * 60"
definition RESEND_GAP_MS :: int where "RESEND_GAP_MS = 60000"

definition use_links :: "nat \<Rightarrow> instant \<Rightarrow> auth_db \<Rightarrow> auth_db" where
  "use_links userId now s =
     s\<lparr>ax_resets := map (\<lambda>p. if pr_user p = userId \<and> pr_usedAt p = None then p\<lparr>pr_usedAt := Some now\<rparr> else p) (ax_resets s)\<rparr>"

text \<open>\<open>secret\<close> is the hexadecimal text of the new link's random bytes.\<close>

definition issue ::
  "auth_env \<Rightarrow> account \<Rightarrow> int \<Rightarrow> nat option \<Rightarrow> string \<Rightarrow> instant \<Rightarrow> auth_db \<Rightarrow> (string \<times> auth_db) result" where
  "issue E u validForMinutes createdBy secret now s =
     (let s = use_links (ac_id u) now s; hash = en_sha256 E secret
      in if hash \<in> set (map pr_tokenHash (ax_resets s)) then Inl UniqueViolation
         else Inr (webUrl E (''/reset-password?token='' @ en_uuid E (ac_tenant u) @ ''.'' @ secret),
           s\<lparr>ax_next := Suc (ax_next s),
             ax_resets := ax_resets s @ [\<lparr>pr_id = ax_next s, pr_tenant = ac_tenant u, pr_user = ac_id u, pr_tokenHash = hash,
               pr_expiresAt = now + validForMinutes * 60000, pr_usedAt = None, pr_createdBy = createdBy, pr_createdAt = now\<rparr>]\<rparr>))"

definition endEverything :: "nat \<Rightarrow> instant \<Rightarrow> auth_db \<Rightarrow> auth_db" where
  "endEverything userId now s = use_links userId now (revoke (\<lambda>r. rt_user r = userId) now s)"

definition sendResetLink :: "auth_env \<Rightarrow> string \<Rightarrow> string \<Rightarrow> instant \<Rightarrow> auth_db \<Rightarrow> auth_db result" where
  "sendResetLink E email secret now s =
     (case indexed s email of
        None \<Rightarrow> Inr s
      | Some (tenantId, userId) \<Rightarrow>
          (case liveUser s tenantId userId of
             None \<Rightarrow> Inr s
           | Some u \<Rightarrow>
               if \<exists>p \<in> set (ax_resets s). pr_user p = ac_id u \<and> pr_createdBy p = None \<and> now - RESEND_GAP_MS < pr_createdAt p
               then Inr s
               else bindr (issue E u SELF_SERVICE_MINUTES None secret now s) (\<lambda>(link, s).
                 Inr (snd (send E (ac_email u) link
                   (ax_log (ac_tenant u) (Some (ac_id u)) ''auth.password_reset_requested'' (ac_id u) s))))))"

definition forgot :: "auth_env \<Rightarrow> string \<Rightarrow> string \<Rightarrow> instant \<Rightarrow> auth_db \<Rightarrow> bool \<times> auth_db" where
  "forgot E email secret now s =
     (if \<not> en_delivers E then (False, s)
      else (True, case sendResetLink E email secret now s of Inl _ \<Rightarrow> s | Inr s \<Rightarrow> s))"

definition createLink :: "auth_env \<Rightarrow> jwt \<Rightarrow> nat \<Rightarrow> string \<Rightarrow> instant \<Rightarrow> auth_db \<Rightarrow> ((string \<times> bool \<times> instant) \<times> auth_db) result" where
  "createLink E actor userId secret now s =
     (case liveUser s (jw_tenant actor) userId of
        None \<Rightarrow> Inl (NotFound NOT_FOUND)
      | Some u \<Rightarrow>
          bindr (assertMayManageAccount actor userId (loadRolesClaim s userId)) (\<lambda>_.
          bindr (issue E u HANDED_OVER_MINUTES (Some (jw_sub actor)) secret now s) (\<lambda>(link, s).
            let s = ax_log (jw_tenant actor) (Some (jw_sub actor)) ''auth.password_reset_link_created'' (ac_id u) s;
                (emailed, s) = send E (ac_email u) link s
            in Inr ((link, emailed, now + HANDED_OVER_MINUTES * 60000), s))))"

definition is_uuid :: "string \<Rightarrow> bool" where
  "is_uuid s \<longleftrightarrow> length s = 36 \<and>
     (\<forall>i \<in> set [0..<36].
        if i \<in> {8, 13, 18, 23} then s ! i = CHR ''-''
        else is_digit (s ! i) \<or> CHR ''a'' \<le> lower_char (s ! i) \<and> lower_char (s ! i) \<le> CHR ''f'')"

text \<open>\<^verbatim>\<open><tenantId>.<secret>\<close> of an invitation or a reset link; the tenant half is read as a UUID.\<close>

definition split_token :: "string \<Rightarrow> string \<times> string" where
  "split_token token =
     (let dot = length (takeWhile (\<lambda>c. c \<noteq> CHR ''.'') token)
      in if 0 < dot \<and> CHR ''.'' \<in> set token then (take dot token, drop (dot + 1) token) else ([], []))"

definition parseInviteToken :: "string \<Rightarrow> (string \<times> string) result" where
  "parseInviteToken publicToken =
     (let (tenantId, secret) = split_token publicToken
      in if \<not> is_uuid tenantId \<or> length secret < 32 then Inl (BadRequest INVITE_INVALID) else Inr (tenantId, secret))"

definition resetRow :: "auth_env \<Rightarrow> string \<Rightarrow> auth_db \<Rightarrow> password_reset_token option" where
  "resetRow E publicToken s =
     (let (tenantId, secret) = split_token publicToken
      in List.find (\<lambda>p. en_uuid E (pr_tenant p) = js_lower tenantId \<and> pr_tokenHash p = en_sha256 E secret) (ax_resets s))"

definition reset :: "auth_env \<Rightarrow> string \<Rightarrow> string \<Rightarrow> instant \<Rightarrow> auth_db \<Rightarrow> auth_db result" where
  "reset E publicToken password now s =
     (let (tenantId, secret) = split_token publicToken
      in if \<not> is_uuid tenantId \<or> length secret < 32 then Inl (BadRequest TOKEN_INVALID)
      else let passwordHash = en_bhash E password
      in case resetRow E publicToken s of
        None \<Rightarrow> Inl (BadRequest TOKEN_INVALID)
      | Some row \<Rightarrow>
          if pr_usedAt row \<noteq> None \<or> pr_expiresAt row \<le> now then Inl (BadRequest TOKEN_INVALID)
          else let s = s\<lparr>ax_resets := map (\<lambda>p. if pr_id p = pr_id row \<and> pr_usedAt p = None
                           then p\<lparr>pr_usedAt := Some now\<rparr> else p) (ax_resets s)\<rparr>
          in case liveUser s (pr_tenant row) (pr_user row) of
            None \<Rightarrow> Inl (BadRequest TOKEN_INVALID)
          | Some u \<Rightarrow>
              let s = upd_user (ac_id u) (\<lambda>u. u\<lparr>ac_passwordHash := Some passwordHash,
                        ac_emailVerified := (pr_createdBy row = None \<or> ac_emailVerified u)\<rparr>) s
              in Inr (ax_log (pr_tenant row) (Some (ac_id u)) ''auth.password_reset'' (ac_id u) (endEverything (ac_id u) now s)))"

definition changePassword ::
  "auth_env \<Rightarrow> jwt \<Rightarrow> string \<Rightarrow> string \<Rightarrow> instant \<Rightarrow> auth_db \<Rightarrow> (login_result \<times> auth_db) result" where
  "changePassword E actor currentPassword newPassword now s =
     (let passwordHash = en_bhash E newPassword
      in case liveUser s (jw_tenant actor) (jw_sub actor) of
        None \<Rightarrow> Inl (Unauthorized TOKEN_INVALID)
      | Some u \<Rightarrow>
          (case ac_passwordHash u of
             None \<Rightarrow> Inl (BadRequest INVALID_CREDENTIALS)
           | Some h \<Rightarrow>
               if h = '''' \<or> \<not> en_bcompare E currentPassword h then Inl (BadRequest INVALID_CREDENTIALS)
               else if en_bcompare E newPassword h then Inl (BadRequest VALIDATION_FAILED)
               else let s = upd_user (ac_id u) (\<lambda>u. u\<lparr>ac_passwordHash := Some passwordHash\<rparr>) s;
                        s = endEverything (ac_id u) now s;
                        s = ax_log (jw_tenant actor) (Some (ac_id u)) ''auth.password_changed'' (ac_id u) s
                    in startSession E (u\<lparr>ac_passwordHash := Some passwordHash\<rparr>) now s))"

end
