(* ===== verification/Session_Effects.thy ===== *)
theory Session_Effects
  imports Sessions
begin

text \<open>
  What each handler of \<open>Sessions\<close> does to the session table and to the accounts, one lemma per
  handler. The session table is followed through \<open>carried\<close>: a row of the new state is a row of the
  old one, perhaps retired, or was made for a token signed during the step. Accounts are
  followed through \<open>accounts_from\<close>. A handler that issues no token is \<open>calm\<close>; one that does is
  calm up to the point where it calls \<open>buildLoginResult\<close>.
\<close>

section \<open>What the table operations change\<close>

lemma ax_log_sel [simp]:
  "ax_refresh (ax_log t u a e s) = ax_refresh s" "ax_users (ax_log t u a e s) = ax_users s"
  "ax_next (ax_log t u a e s) = ax_next s" "ax_tenants (ax_log t u a e s) = ax_tenants s"
  "ax_resets (ax_log t u a e s) = ax_resets s" "ax_assign (ax_log t u a e s) = ax_assign s"
  by (simp_all add: ax_log_def)

lemma upd_user_sel [simp]:
  "ax_refresh (upd_user i f s) = ax_refresh s" "ax_next (upd_user i f s) = ax_next s"
  "ax_tenants (upd_user i f s) = ax_tenants s" "ax_resets (upd_user i f s) = ax_resets s" "ax_assign (upd_user i f s) = ax_assign s"
  "ax_users (upd_user i f s) = map (\<lambda>u. if ac_id u = i then f u else u) (ax_users s)"
  by (simp_all add: upd_user_def)

lemma revoke_sel [simp]:
  "ax_users (revoke w n s) = ax_users s" "ax_next (revoke w n s) = ax_next s" "ax_tenants (revoke w n s) = ax_tenants s"
  "ax_resets (revoke w n s) = ax_resets s" "ax_assign (revoke w n s) = ax_assign s"
  "ax_refresh (revoke w n s) = map (\<lambda>r. if rt_revokedAt r = None \<and> w r then r\<lparr>rt_revokedAt := Some n\<rparr> else r) (ax_refresh s)"
  by (simp_all add: revoke_def)

lemma use_links_sel [simp]:
  "ax_users (use_links i n s) = ax_users s" "ax_next (use_links i n s) = ax_next s" "ax_refresh (use_links i n s) = ax_refresh s"
  "ax_tenants (use_links i n s) = ax_tenants s"
  by (simp_all add: use_links_def)

lemma send_sel [simp]:
  "ax_users (snd (send E to b s)) = ax_users s" "ax_next (snd (send E to b s)) = ax_next s"
  "ax_refresh (snd (send E to b s)) = ax_refresh s"
  by (simp_all add: send_def)

lemma issue_Inr:
  "issue E u m c x n s = Inr (l, s') \<Longrightarrow>
     ax_users s' = ax_users s \<and> ax_refresh s' = ax_refresh s \<and> ax_next s' = Suc (ax_next s)"
  by (auto simp: issue_def Let_def split: if_splits)

section \<open>The session table\<close>

text \<open>A row keeps everything but may be retired, once.\<close>

definition aged :: "refresh_token \<Rightarrow> refresh_token \<Rightarrow> bool" where
  "aged r r' \<longleftrightarrow> r' = r \<or> rt_revokedAt r = None \<and> (\<exists>t. r' = r\<lparr>rt_revokedAt := Some t\<rparr>)"

lemma aged_refl [simp]: "aged r r"
  by (simp add: aged_def)

lemma aged_trans: "aged a b \<Longrightarrow> aged b c \<Longrightarrow> aged a c"
  by (auto simp: aged_def)

lemma agedD: "aged r r' \<Longrightarrow> rt_tokenHash r' = rt_tokenHash r \<and> rt_user r' = rt_user r \<and> (rt_revokedAt r \<noteq> None \<longrightarrow> rt_revokedAt r' \<noteq> None)"
  by (auto simp: aged_def)

text \<open>The digest of the token signed for number \<open>j\<close>.\<close>

definition minted :: "auth_env \<Rightarrow> nat \<Rightarrow> nat \<Rightarrow> refresh_token \<Rightarrow> bool" where
  "minted E lo hi r \<longleftrightarrow> (\<exists>u t j n. lo \<le> j \<and> j < hi \<and>
     rt_tokenHash r = hashToken E (en_sign E RefreshKey (RefreshPayload u t (Some j)) n (en_refreshTtl E)))"

lemma minted_mono: "minted E lo hi r \<Longrightarrow> lo' \<le> lo \<Longrightarrow> hi \<le> hi' \<Longrightarrow> minted E lo' hi' r"
  unfolding minted_def by (meson le_trans less_le_trans)

lemma minted_aged: "minted E lo hi r \<Longrightarrow> aged r r' \<Longrightarrow> minted E lo hi r'"
  unfolding minted_def using agedD by metis

definition carried :: "auth_env \<Rightarrow> auth_db \<Rightarrow> auth_db \<Rightarrow> bool" where
  "carried E s s' \<longleftrightarrow> ax_next s \<le> ax_next s' \<and>
     (\<forall>r' \<in> set (ax_refresh s'). (\<exists>r \<in> set (ax_refresh s). aged r r') \<or> minted E (ax_next s) (ax_next s') r') \<and>
     (distinct (map rt_tokenHash (ax_refresh s)) \<longrightarrow> distinct (map rt_tokenHash (ax_refresh s')))"

lemma carried_trans:
  assumes "carried E a b" and "carried E b c"
  shows "carried E a c"
  unfolding carried_def
proof (intro conjI ballI impI)
  fix r assume r: "r \<in> set (ax_refresh c)"
  with assms(2) consider (old) q where "q \<in> set (ax_refresh b)" "aged q r" | (new) "minted E (ax_next b) (ax_next c) r"
    unfolding carried_def by blast
  then show "(\<exists>q \<in> set (ax_refresh a). aged q r) \<or> minted E (ax_next a) (ax_next c) r"
  proof cases
    case old
    with assms show ?thesis unfolding carried_def by (meson aged_trans minted_aged minted_mono order_refl)
  next
    case new
    with assms show ?thesis unfolding carried_def by (meson minted_mono order_refl)
  qed
qed (use assms in \<open>auto simp: carried_def\<close>)

lemma buildLoginResult_Inr:
  assumes "buildLoginResult E u roles sid n s = Inr (r, s')"
  obtains row where "ax_refresh s' = ax_refresh s @ [row]" "minted E (ax_next s) (ax_next s') row"
    "rt_tokenHash row \<notin> set (map rt_tokenHash (ax_refresh s))" "rt_user row = ac_id u" "rt_tenant row = ac_tenant u"
    "rt_sessionId row = Some (the_default (ax_next s) sid)" "ax_users s' = ax_users s" "ax_next s \<le> ax_next s'" "lr_userId r = ac_id u"
proof -
  define row where "row = last (ax_refresh s')"
  have "minted E (ax_next s) (ax_next s') row"
    unfolding minted_def using assms
    by (intro exI[of _ "ac_id u"] exI[of _ "ac_tenant u"] exI[of _ "Suc (ax_next s)"] exI[of _ n])
      (auto simp: buildLoginResult_def Let_def row_def split: if_splits)
  then show ?thesis
    using assms by (intro that[of row]) (auto simp: buildLoginResult_def Let_def row_def split: if_splits)
qed

lemma buildLoginResult_carried: "buildLoginResult E u roles sid n s = Inr (r, s') \<Longrightarrow> carried E s s'"
  by (erule buildLoginResult_Inr) (auto simp: carried_def intro: aged_refl)

lemma prune_tenants_sub:
  "prune_tenants c ts (k, s) = (m, s') \<Longrightarrow> ax_next s' = ax_next s \<and> ax_users s' = ax_users s \<and>
     (\<exists>p. ax_refresh s' = filter p (ax_refresh s))"
proof (induction ts arbitrary: k s)
  case (Cons t ts)
  then show ?case by (fastforce simp: Let_def filter_filter)
qed (auto intro: exI[of _ "\<lambda>_. True"])

section \<open>Accounts\<close>

text \<open>While two-step sign-in stays on, the secret stands and the last step used never goes back.\<close>

definition not_before :: "int option \<Rightarrow> int option \<Rightarrow> bool" where
  "not_before a b \<longleftrightarrow> (case a of None \<Rightarrow> True | Some l \<Rightarrow> (case b of None \<Rightarrow> False | Some l' \<Rightarrow> l \<le> l'))"

lemma not_before_trans: "not_before a b \<Longrightarrow> not_before b c \<Longrightarrow> not_before a c"
  by (auto simp: not_before_def split: option.splits)

lemma not_before_refl [simp]: "not_before a a"
  by (auto simp: not_before_def split: option.splits)

definition later :: "account \<Rightarrow> account \<Rightarrow> bool" where
  "later u u' \<longleftrightarrow> (ac_mfaEnabledAt u \<noteq> None \<longrightarrow>
     ac_mfaEnabledAt u' \<noteq> None \<and> ac_mfaSecret u' = ac_mfaSecret u \<and>
     not_before (ac_mfaLastUsedStep u) (ac_mfaLastUsedStep u'))"

definition becomes :: "nat set \<Rightarrow> account \<Rightarrow> account \<Rightarrow> bool" where
  "becomes X u u' \<longleftrightarrow> ac_id u' = ac_id u \<and> (ac_id u \<notin> X \<longrightarrow> later u u')"

definition accounts_from :: "nat set \<Rightarrow> auth_db \<Rightarrow> auth_db \<Rightarrow> bool" where
  "accounts_from X s s' \<longleftrightarrow> (\<exists>us ws. ax_users s' = us @ ws \<and> list_all2 (becomes X) (ax_users s) us \<and>
     distinct (map ac_id ws) \<and> (\<forall>w \<in> set ws. ax_next s \<le> ac_id w \<and> ac_id w < ax_next s'))"

text \<open>Identifiers of accounts are distinct and were drawn.\<close>

definition accounts_ok :: "auth_db \<Rightarrow> bool" where
  "accounts_ok s \<longleftrightarrow> distinct (map ac_id (ax_users s)) \<and> (\<forall>u \<in> set (ax_users s). ac_id u < ax_next s)"

definition calm :: "nat set \<Rightarrow> auth_db \<Rightarrow> auth_db \<Rightarrow> bool" where
  "calm X s s' \<longleftrightarrow> ax_next s \<le> ax_next s' \<and>
     (\<forall>r' \<in> set (ax_refresh s'). \<exists>r \<in> set (ax_refresh s). aged r r') \<and>
     (distinct (map rt_tokenHash (ax_refresh s)) \<longrightarrow> distinct (map rt_tokenHash (ax_refresh s'))) \<and>
     accounts_from X s s'"

lemma becomes_refl [simp]: "becomes X u u"
  by (simp add: becomes_def later_def)

lemma later_trans: "later u v \<Longrightarrow> later v w \<Longrightarrow> later u w"
  unfolding later_def using not_before_trans by auto

lemma becomes_trans: "becomes X u v \<Longrightarrow> becomes Y v w \<Longrightarrow> becomes (X \<union> Y) u w"
  unfolding becomes_def by (auto intro: later_trans)

lemma list_all2_ids: "list_all2 (becomes X) us us' \<Longrightarrow> map ac_id us' = map ac_id us"
  by (induction rule: list_all2_induct) (auto simp: becomes_def)

lemma accounts_from_refl [simp]: "ax_users s' = ax_users s \<Longrightarrow> accounts_from X s s'"
  unfolding accounts_from_def by (intro exI[of _ "ax_users s"] exI[of _ "[]"]) (simp add: list_all2_refl)

lemma accounts_from_trans:
  assumes "accounts_from X a b" and "accounts_from Y b c" and "ax_next a \<le> ax_next b" and "ax_next b \<le> ax_next c"
  shows "accounts_from (X \<union> Y) a c"
proof -
  obtain us ws where b: "ax_users b = us @ ws" "list_all2 (becomes X) (ax_users a) us"
    "distinct (map ac_id ws)" "\<forall>w \<in> set ws. ax_next a \<le> ac_id w \<and> ac_id w < ax_next b"
    using assms(1) unfolding accounts_from_def by blast
  obtain us' ws' where c: "ax_users c = us' @ ws'" "list_all2 (becomes Y) (us @ ws) us'"
    "distinct (map ac_id ws')" "\<forall>w \<in> set ws'. ax_next b \<le> ac_id w \<and> ac_id w < ax_next c"
    using assms(2) b(1) unfolding accounts_from_def by auto
  then obtain vs xs where v: "us' = vs @ xs" "list_all2 (becomes Y) us vs" "list_all2 (becomes Y) ws xs"
    by (auto simp: list_all2_append1)
  have "list_all2 (becomes (X \<union> Y)) (ax_users a) vs"
    using list_all2_trans[OF becomes_trans b(2) v(2)] by simp
  moreover have ids: "map ac_id xs = map ac_id ws" using v(3) by (rule list_all2_ids)
  then have dx: "distinct (map ac_id xs)" using b(3) by simp
  from ids have "ac_id ` set xs = ac_id ` set ws" by (metis list.set_map)
  then have x: "ax_next a \<le> ac_id w \<and> ac_id w < ax_next b" if "w \<in> set xs" for w
    using b(4) that by (metis imageE image_eqI)
  then have "\<forall>w \<in> set (xs @ ws'). ax_next a \<le> ac_id w \<and> ac_id w < ax_next c" using c(4) assms(3,4) by fastforce
  moreover have "ac_id ` set xs \<inter> ac_id ` set ws' = {}" using x c(4) by fastforce
  ultimately show ?thesis unfolding accounts_from_def using c(1) v(1) c(3) dx
    by - (rule exI[of _ vs], rule exI[of _ "xs @ ws'"], auto)
qed

lemma calm_trans: "calm X a b \<Longrightarrow> calm Y b c \<Longrightarrow> calm (X \<union> Y) a c"
  unfolding calm_def using aged_trans accounts_from_trans by (meson order_trans)

lemma calm_then: "calm X a b \<Longrightarrow> calm X b c \<Longrightarrow> calm X a c"
  using calm_trans[of X a b X c] by simp

lemma calm_refl [simp]: "calm X s s"
  unfolding calm_def using aged_refl by (metis accounts_from_refl order_refl)

lemma calm_carried: "calm X s s' \<Longrightarrow> carried E s s'"
  by (auto simp: calm_def carried_def)

lemma calm_upd:
  assumes "ax_refresh s' = ax_refresh s" and "ax_next s \<le> ax_next s'"
    and "ax_users s' = map (\<lambda>u. if ac_id u = i then f u else u) (ax_users s)"
    and "\<And>u. u \<in> set (ax_users s) \<Longrightarrow> ac_id u = i \<Longrightarrow> becomes X u (f u)"
  shows "calm X s s'"
proof -
  have "list_all2 (becomes X) (ax_users s) (ax_users s')"
    using assms(3,4) by (auto simp: list.rel_map intro!: list.rel_refl_strong)
  then have "accounts_from X s s'" unfolding accounts_from_def by (intro exI[of _ "ax_users s'"] exI[of _ "[]"]) simp
  then show ?thesis unfolding calm_def using assms(1,2) aged_refl by metis
qed

lemma calm_upd_user:
  assumes "\<And>u. u \<in> set (ax_users s) \<Longrightarrow> ac_id u = i \<Longrightarrow> becomes X u (f u)"
  shows "calm X s (upd_user i f s)" and "calm X s (ax_log t a b e (upd_user i f s))"
  using assms by (auto intro!: calm_upd[where i = i and f = f])

lemma calm_tables:
  assumes "ax_users s' = ax_users s" and "ax_next s \<le> ax_next s'" and "ax_refresh s' = ax_refresh s"
  shows "calm X s s'"
  unfolding calm_def using assms aged_refl by (metis accounts_from_refl)

lemma calm_revoke: "calm X s (revoke w n s)"
proof -
  have "map rt_tokenHash (ax_refresh (revoke w n s)) = map rt_tokenHash (ax_refresh s)" by simp
  then show ?thesis unfolding calm_def by (auto simp: aged_def simp del: map_map intro: bexI)
qed

lemma becomes_plain:
  "ac_id u' = ac_id u \<Longrightarrow> ac_mfaEnabledAt u' = ac_mfaEnabledAt u \<Longrightarrow> ac_mfaSecret u' = ac_mfaSecret u \<Longrightarrow>
   ac_mfaLastUsedStep u' = ac_mfaLastUsedStep u \<Longrightarrow> becomes X u u'"
  by (simp add: becomes_def later_def)

lemma accounts_ok_from: "accounts_ok s \<Longrightarrow> accounts_from X s s' \<Longrightarrow> ax_next s \<le> ax_next s' \<Longrightarrow> accounts_ok s'"
  unfolding accounts_ok_def accounts_from_def
  by (auto dest!: list_all2_ids simp: image_iff) (metis (no_types, opaque_lifting) imageE image_eqI leD list.set_map less_le_trans)+

section \<open>What each handler does\<close>

text \<open>Handlers that issue no token.\<close>

lemma liveUser_Some: "liveUser s t i = Some u \<Longrightarrow> u \<in> set (ax_users s) \<and> ac_id u = i \<and> ac_tenant u = t"
  unfolding liveUser_def by (drule find_Some_mem) auto

lemma loadUser_Inr: "loadUser s t i = Inr u \<Longrightarrow> u \<in> set (ax_users s) \<and> ac_id u = i \<and> ac_tenant u = t"
  by (auto simp: loadUser_def dest: liveUser_Some split: option.splits)

lemma only_account: "accounts_ok s \<Longrightarrow> u \<in> set (ax_users s) \<Longrightarrow> v \<in> set (ax_users s) \<Longrightarrow> ac_id v = ac_id u \<Longrightarrow> v = u"
  by (auto simp: accounts_ok_def distinct_map dest: inj_onD)

lemma register_calm: "register E rnd dto n s = Inr (r, s') \<Longrightarrow> calm X s s'"
proof -
  assume "register E rnd dto n s = Inr (r, s')"
  then obtain u where "ax_users s' = ax_users s @ [u]" "ac_id u = Suc (ax_next s)" "ax_next s' = Suc (Suc (ax_next s))" "ax_refresh s' = ax_refresh s"
    by (auto simp: register_def Let_def new_account_def send_def split: if_splits prod.splits)
  moreover from this have "accounts_from X s s'"
    unfolding accounts_from_def by - (rule exI[of _ "ax_users s"], rule exI[of _ "[u]"], simp add: list_all2_refl)
  ultimately show ?thesis unfolding calm_def by (auto intro: aged_refl)
qed

lemma resendVerification_calm: "resendVerification E e p n s = (a, s') \<Longrightarrow> calm X s s'"
  by (rule calm_tables) (auto simp: resendVerification_def emailVerificationLink_def split: if_splits option.splits)

lemma verifyEmail_calm: "verifyEmail E t n s = Inr s' \<Longrightarrow> calm X s s'"
  by (auto simp: verifyEmail_def intro!: calm_upd_user becomes_plain split: option.splits token_payload.splits if_splits)

lemma login_challenge_calm: "login E e p n s = Inr (MfaRequired t, s') \<Longrightarrow> calm X s s'"
  by (rule calm_tables) (auto simp: login_def res_simps Let_def split: option.splits if_splits)

lemma logout_calm: "calm X s (logout E t n s)"
proof -
  have "calm X s (ax_log a b c d (revoke w n s))" for a b c d w
    by (rule calm_then[OF calm_revoke[of X s w n] calm_tables]) simp_all
  then show ?thesis by (auto simp: logout_def Let_def calm_revoke split: option.splits token_payload.splits)
qed

lemma pruneEndedSessions_calm: "pruneEndedSessions n s = (k, s') \<Longrightarrow> calm X s s'"
  unfolding pruneEndedSessions_def by (drule prune_tenants_sub) (auto simp: calm_def distinct_map_filter intro: aged_refl)

lemma setAccountActive_calm: "calm X s (setAccountActive i a n s)"
proof -
  have "calm X s (upd_user i (\<lambda>u. u\<lparr>ac_deletedAt := f u\<rparr>) s)" for f
    by (rule calm_upd[where i = i]) (auto intro: becomes_plain)
  then show ?thesis by (auto simp: setAccountActive_def Let_def simp del: upd_user_sel intro: calm_then[OF _ calm_revoke])
qed

lemma calm_off:
  assumes "accounts_ok s" and "loadUser s t i = Inr u" and "ac_mfaEnabledAt u = None" and "\<And>v. ac_id (f v) = ac_id v"
  shows "calm X s (upd_user i f s)" and "calm X s (ax_log t' a b e (upd_user i f s))"
proof -
  have "becomes X v (f v)" if "v \<in> set (ax_users s)" "ac_id v = i" for v
    using loadUser_Inr[OF assms(2)] only_account[OF assms(1), of u v] assms(3,4) that by (auto simp: becomes_def later_def)
  then show "calm X s (upd_user i f s)" and "calm X s (ax_log t' a b e (upd_user i f s))" by (auto intro: calm_upd_user)
qed

lemma beginSetup_calm: "accounts_ok s \<Longrightarrow> beginSetup E t i b s = Inr (x, s') \<Longrightarrow> calm X s s'"
  by (auto simp: beginSetup_def res_simps Let_def intro!: calm_off split: if_splits)

lemma enable_calm: "accounts_ok s \<Longrightarrow> enable E t i c rnd n s = Inr (x, s') \<Longrightarrow> calm X s s'"
  by (auto simp: enable_def res_simps Let_def intro!: calm_off split: if_splits option.splits)

text \<open>The two ways a code is accepted.\<close>

lemma accept_code_Some:
  assumes "accept_code E t u x c n s = Inr (Some (f, s'))"
  obtains (by_app) secret st where "f = Accepted TotpCode (int (length (ac_mfaRecoveryCodes u)))" "en_decrypt E x = Inr secret"
      "verifyTotp (en_hmac E) secret c n (ac_mfaLastUsedStep u) = Inr (Some st)"
      "s' = upd_user (ac_id u) (\<lambda>u. u\<lparr>ac_mfaLastUsedStep := Some st, ac_mfaFailedAttempts := 0, ac_mfaLockedUntil := None\<rparr>) s"
  | (by_recovery) h m a e where "f = Accepted RecoveryCode m" "h \<in> set (ac_mfaRecoveryCodes u)"
      "s' = ax_log t a e (ac_id u) (upd_user (ac_id u) (\<lambda>u. u\<lparr>ac_mfaRecoveryCodes := filter (\<lambda>k. k \<noteq> h) (ac_mfaRecoveryCodes u),
         ac_mfaFailedAttempts := 0, ac_mfaLockedUntil := None\<rparr>) s)"
  using assms by (auto simp: accept_code_def res_simps Let_def split: if_splits option.splits)

lemma checkSecondFactor_Inr:
  assumes "checkSecondFactor E t i c n s = Inr (f, s')"
  obtains (untried) u where "s' = s" "\<exists>l. f = Refused l 0" "liveUser s t i = Some u"
      "ac_mfaSecret u = None \<or> ac_mfaEnabledAt u = None \<or> locked_at u n"
  | (accepted) u x where "liveUser s t i = Some u" "ac_mfaSecret u = Some x" "ac_mfaEnabledAt u \<noteq> None" "\<not> locked_at u n"
      "accept_code E t u x (js_trim c) n s = Inr (Some (f, s'))"
  | (wrong) u x where "liveUser s t i = Some u" "ac_mfaSecret u = Some x" "ac_mfaEnabledAt u \<noteq> None" "\<not> locked_at u n"
      "accept_code E t u x (js_trim c) n s = Inr None" "refuse_code t u n s = (f, s')"
proof -
  from assms obtain u where u: "liveUser s t i = Some u"
    by (auto simp: checkSecondFactor_def loadUser_def res_simps split: option.splits)
  show thesis
  proof (cases "ac_mfaSecret u = None \<or> ac_mfaEnabledAt u = None \<or> locked_at u n")
    case True
    with assms u show ?thesis by (intro untried[of u]) (auto simp: checkSecondFactor_def loadUser_def split: option.splits if_splits)
  next
    case False
    then obtain x where x: "ac_mfaSecret u = Some x" by auto
    with False assms u obtain a where "accept_code E t u x (js_trim c) n s = Inr a"
      "(case a of Some d \<Rightarrow> Inr d | None \<Rightarrow> Inr (refuse_code t u n s)) = (Inr (f, s') :: (second_factor \<times> auth_db) result)"
      by (auto simp: checkSecondFactor_def loadUser_def bindr_eq_Inr)
    with u x False show ?thesis using accepted wrong by (cases a) auto
  qed
qed

lemma accept_code_calm:
  assumes "accounts_ok s" and "u \<in> set (ax_users s)" and "accept_code E t u x c n s = Inr (Some (f, s'))"
  shows "calm X s s'"
  using assms(3)
proof (cases rule: accept_code_Some)
  case (by_app secret st)
  have "becomes X v (v\<lparr>ac_mfaLastUsedStep := Some st, ac_mfaFailedAttempts := 0, ac_mfaLockedUntil := None\<rparr>)"
    if "v \<in> set (ax_users s)" "ac_id v = ac_id u" for v
    using only_account[OF assms(1,2) that] verifyTotp_Some(1)[OF by_app(3)]
    by (auto simp: becomes_def later_def not_before_def after_def split: option.splits)
  with by_app(4) show ?thesis by (auto intro: calm_upd_user)
next
  case (by_recovery h m a e)
  then show ?thesis by (auto intro!: calm_upd_user becomes_plain)
qed

lemma refuse_code_calm: "refuse_code t u n s = (f, s') \<Longrightarrow> calm X s s'"
  by (auto simp: refuse_code_def Let_def intro!: calm_upd_user becomes_plain split: if_splits)

lemma checkSecondFactor_calm: "accounts_ok s \<Longrightarrow> checkSecondFactor E t i c n s = Inr (f, s') \<Longrightarrow> calm X s s'"
  by (erule checkSecondFactor_Inr) (auto dest: liveUser_Some accept_code_calm refuse_code_calm)

lemma checkSecondFactor_rows: "checkSecondFactor E t i c n s = Inr (f, s') \<Longrightarrow> ax_refresh s' = ax_refresh s"
  by (erule checkSecondFactor_Inr; (erule accept_code_Some)?) (auto simp: refuse_code_def Let_def split: if_splits)

lemma requireSecondFactor_calm: "accounts_ok s \<Longrightarrow> requireSecondFactor E t i c n s = (r, s') \<Longrightarrow> calm X s s'"
  by (auto simp: requireSecondFactor_def dest: checkSecondFactor_calm split: sum.splits second_factor.splits prod.splits)

lemma disable_calm: "accounts_ok s \<Longrightarrow> disable E t i p c n s = (r, s') \<Longrightarrow> calm {i} s s'"
proof -
  have "calm {i} a (ax_log t u x e (upd_user i clearedMfa a))" for a u x e
    by (auto intro!: calm_upd_user simp: clearedMfa_def becomes_def)
  then show "accounts_ok s \<Longrightarrow> disable E t i p c n s = (r, s') \<Longrightarrow> calm {i} s s'"
    by (auto simp: disable_def dest!: requireSecondFactor_calm[where X = "{i}"] intro: calm_then split: sum.splits prod.splits)
qed

lemma regenerateRecoveryCodes_calm: "accounts_ok s \<Longrightarrow> regenerateRecoveryCodes E t i c rnd n s = (r, s') \<Longrightarrow> calm X s s'"
proof -
  have "calm X a (ax_log t u x e (upd_user i (\<lambda>u. u\<lparr>ac_mfaRecoveryCodes := k\<rparr>) a))" for a u x e k
    by (auto intro!: calm_upd_user becomes_plain)
  then show "accounts_ok s \<Longrightarrow> regenerateRecoveryCodes E t i c rnd n s = (r, s') \<Longrightarrow> calm X s s'"
    by (auto simp: regenerateRecoveryCodes_def Let_def dest!: requireSecondFactor_calm[where X = X] intro: calm_then split: sum.splits prod.splits)
qed

lemma resetForUser_calm: "resetForUser t actor i s = Inr s' \<Longrightarrow> calm {i} s s'"
  by (auto simp: resetForUser_def clearedMfa_def becomes_def intro!: calm_upd_user split: if_splits option.splits)

lemma sendResetLink_calm: "sendResetLink E e x n s = Inr s' \<Longrightarrow> calm X s s'"
  by (rule calm_tables) (auto simp: sendResetLink_def res_simps dest!: issue_Inr split: option.splits if_splits)

lemma forgot_calm: "forgot E e x n s = (b, s') \<Longrightarrow> calm X s s'"
  by (auto simp: forgot_def dest: sendResetLink_calm split: if_splits sum.splits)

lemma createLink_calm: "createLink E actor i x n s = Inr (y, s') \<Longrightarrow> calm X s s'"
  by (rule calm_tables) (auto simp: createLink_def res_simps Let_def send_def dest!: issue_Inr split: option.splits if_splits prod.splits)

lemma endEverything_calm: "calm X s (endEverything i n s)"
  unfolding endEverything_def by (rule calm_then[OF calm_revoke[of X s "\<lambda>r. rt_user r = i" n] calm_tables]) simp_all

lemma reset_Inr:
  assumes "reset E link pw n s = Inr s'"
  obtains row where "resetRow E link s = Some row" "pr_usedAt row = None" "n < pr_expiresAt row"
    "ax_refresh s' = ax_refresh (endEverything (pr_user row) n s)" "calm X s s'"
proof -
  let ?claim = "\<lambda>row. s\<lparr>ax_resets := map (\<lambda>p. if pr_id p = pr_id row \<and> pr_usedAt p = None then p\<lparr>pr_usedAt := Some n\<rparr> else p) (ax_resets s)\<rparr>"
  let ?new = "\<lambda>row u. u\<lparr>ac_passwordHash := Some (en_bhash E pw), ac_emailVerified := (pr_createdBy row = None \<or> ac_emailVerified u)\<rparr>"
  from assms obtain row u where row: "resetRow E link s = Some row"
    "pr_usedAt row = None" "n < pr_expiresAt row" and u: "liveUser (?claim row) (pr_tenant row) (pr_user row) = Some u"
    and s': "s' = ax_log (pr_tenant row) (Some (ac_id u)) ''auth.password_reset'' (ac_id u)
      (endEverything (ac_id u) n (upd_user (ac_id u) (?new row) (?claim row)))"
    by (auto simp: reset_def Let_def split_beta split: if_splits option.splits)
  from liveUser_Some[OF u] have i: "ac_id u = pr_user row" by simp
  have c1: "calm X s (?claim row)" by (intro calm_tables) simp_all
  have c2: "calm X (?claim row) (upd_user (ac_id u) (?new row) (?claim row))" by (intro calm_upd_user becomes_plain) simp_all
  have "calm X (endEverything (ac_id u) n (upd_user (ac_id u) (?new row) (?claim row))) s'"
    unfolding s' by (intro calm_tables) simp_all
  from calm_then[OF calm_then[OF calm_then[OF c1 c2] endEverything_calm] this] have "calm X s s'" .
  then show thesis using row i by (intro that[of row]) (simp_all add: s' endEverything_def)
qed

text \<open>Handlers that issue one: what they checked, and what they did before.\<close>

lemma login_SignedIn:
  assumes "login E e p n s = Inr (SignedIn r, s')"
  obtains u roles s1 where "u \<in> set (ax_users s)" "ac_mfaEnabledAt u = None" "calm {} s s1"
    "ax_refresh s1 = ax_refresh s" "ax_next s1 = ax_next s" "buildLoginResult E u roles None n s1 = Inr (r, s')"
proof -
  from assms obtain t u where u: "List.find (\<lambda>u. ac_tenant u = t \<and> ac_email u = e \<and> ac_deletedAt u = None) (ax_users s) = Some u"
    "ac_mfaEnabledAt u = None" "buildLoginResult E u (loadRolesClaim s (ac_id u)) None n (ax_log t (Some (ac_id u)) ''auth.login'' (ac_id u)
      (upd_user (ac_id u) (\<lambda>u. u\<lparr>ac_lastLoginAt := Some n\<rparr>) s)) = Inr (r, s')"
    by (auto simp: login_def bindr_eq_Inr Let_def split: option.splits if_splits)
  show thesis by (rule that[OF _ u(2) _ _ _ u(3)]) (use find_Some_mem[OF u(1)] in \<open>auto intro!: calm_upd_user becomes_plain\<close>)
qed

lemma refresh_Inr:
  assumes "refresh E tok n s = Inr (r, s')"
  obtains t row u roles where "tokenRow E t tok s = Some row" "rt_revokedAt row = None" "rt_user row = ac_id u" "rt_tenant row = t"
    "ac_tenant u = t" "u \<in> set (ax_users s)" "n < rt_expiresAt row"
    "buildLoginResult E u roles (Some (the_default (rt_id row) (rt_sessionId row))) n (revoke (\<lambda>r. rt_id r = rt_id row) n s) = Inr (r, s')"
proof -
  from assms obtain sub t j row u where a: "tokenRow E t tok s = Some row" "rt_revokedAt row = None" "rt_user row = sub"
    "liveUser (revoke (\<lambda>r. rt_id r = rt_id row) n s) t sub = Some u" "n < rt_expiresAt row"
    "buildLoginResult E u (loadRolesClaim (revoke (\<lambda>r. rt_id r = rt_id row) n s) (ac_id u)) (Some (the_default (rt_id row) (rt_sessionId row))) n
       (revoke (\<lambda>r. rt_id r = rt_id row) n s) = Inr (r, s')"
    by (auto simp: refresh_def bindr_eq_Inr Let_def split: option.splits token_payload.splits if_splits)
  have "rt_tenant row = t" using a(1) unfolding tokenRow_def by (auto dest: find_Some_mem)
  with a liveUser_Some[OF a(4)] show thesis by (intro that[OF a(1,2) _ _ _ _ a(5,6)]) auto
qed

lemma joinByInvite_Inr:
  assumes "joinByInvite E t e name pw role n s = Inr (r, s')"
  obtains u roles s1 where "ac_id u = ax_next s" "calm {} s s1" "ax_refresh s1 = ax_refresh s" "buildLoginResult E u roles None n s1 = Inr (r, s')"
proof -
  define u where "u = new_account (ax_next s) t e (en_bhash E pw) (js_trim name) True"
  define s1 where "s1 = ax_log t (Some (ac_id u)) ''auth.accept_invite'' (ac_id u) (s\<lparr>ax_next := Suc (ax_next s), ax_users := ax_users s @ [u],
      ax_emailIndex := ax_emailIndex s @ [(e, t, ac_id u)], ax_assign := ax_assign s @ [(ac_id u, role)]\<rparr>)"
  have i: "ac_id u = ax_next s" by (simp add: u_def new_account_def)
  then have "accounts_from {} s s1"
    unfolding accounts_from_def by - (rule exI[of _ "ax_users s"], rule exI[of _ "[u]"], simp add: s1_def list_all2_refl)
  then have "calm {} s s1" unfolding calm_def by (auto simp: s1_def intro: aged_refl)
  moreover have "startSession E u n s1 = Inr (r, s')"
    using assms by (auto simp: joinByInvite_def bindr_eq_Inr Let_def u_def s1_def split: option.splits if_splits)
  ultimately show thesis using i by (intro that[OF i]) (simp_all add: startSession_def s1_def)
qed

lemma changePassword_Inr:
  assumes "changePassword E actor old new n s = Inr (r, s')"
  obtains u v h roles s1 where "liveUser s (jw_tenant actor) (jw_sub actor) = Some u" "ac_passwordHash u = Some h" "en_bcompare E old h"
    "ac_id v = jw_sub actor" "calm {} s s1" "ax_next s1 = ax_next s"
    "ax_refresh s1 = ax_refresh (endEverything (jw_sub actor) n s)" "buildLoginResult E v roles None n s1 = Inr (r, s')"
proof -
  from assms obtain u h where u: "liveUser s (jw_tenant actor) (jw_sub actor) = Some u" "ac_passwordHash u = Some h" "en_bcompare E old h"
    and b: "startSession E (u\<lparr>ac_passwordHash := Some (en_bhash E new)\<rparr>) n (ax_log (jw_tenant actor) (Some (ac_id u)) ''auth.password_changed'' (ac_id u)
      (endEverything (ac_id u) n (upd_user (ac_id u) (\<lambda>u. u\<lparr>ac_passwordHash := Some (en_bhash E new)\<rparr>) s))) = Inr (r, s')"
      (is "startSession E ?v n ?s1 = _")
    by (auto simp: changePassword_def Let_def split: option.splits if_splits)
  have i: "ac_id u = jw_sub actor" using liveUser_Some[OF u(1)] by simp
  have "calm {} s (upd_user (ac_id u) (\<lambda>u. u\<lparr>ac_passwordHash := Some (en_bhash E new)\<rparr>) s)" by (intro calm_upd_user becomes_plain) simp_all
  from calm_then[OF calm_then[OF this endEverything_calm] calm_tables] have "calm {} s ?s1" by simp
  then show thesis using b i
    by (intro that[OF u, of ?v ?s1]) (simp_all add: startSession_def endEverything_def)
qed

lemma verifyMfaLogin_cases:
  assumes "verifyMfaLogin E tok code n s = (res, s')" and "accounts_ok s"
  obtains (quiet) "calm {} s s'"
  | (in') u t how left s0 s1 roles r where "checkSecondFactor E t (ac_id u) code n s = Inr (Accepted how left, s0)" "ac_tenant u = t"
      "calm {} s s1" "ax_refresh s1 = ax_refresh s" "buildLoginResult E u roles None n s1 = Inr (r, s')"
proof (cases "\<exists>sub t how left s0. en_verify E RefreshKey False tok n = Some (MfaChallengePayload sub t) \<and>
    checkSecondFactor E t sub code n s = Inr (Accepted how left, s0)")
  case False
  with assms(1) have "s' = s \<or> (\<exists>t sub f. checkSecondFactor E t sub code n s = Inr (f, s'))"
    by (auto simp: verifyMfaLogin_def split: option.splits token_payload.splits sum.splits second_factor.splits prod.splits)
  then show thesis using quiet checkSecondFactor_calm[OF assms(2)] by auto
next
  case True
  then obtain sub t how left s0 where c: "en_verify E RefreshKey False tok n = Some (MfaChallengePayload sub t)"
    "checkSecondFactor E t sub code n s = Inr (Accepted how left, s0)" by blast
  let ?go = "\<lambda>u. buildLoginResult E u (loadRolesClaim s0 (ac_id u)) None n (ax_log t (Some (ac_id u)) ''auth.login'' (ac_id u)
      (upd_user (ac_id u) (\<lambda>u. u\<lparr>ac_lastLoginAt := Some n\<rparr>) s0))"
  from assms(1) c have "s' = s0 \<or> (\<exists>u r. liveUser s0 t sub = Some u \<and> ?go u = Inr (r, s'))"
    by (auto simp: verifyMfaLogin_def bindr_eq_Inr Let_def split: option.splits sum.splits prod.splits if_splits)
  then show thesis
  proof (elim disjE exE conjE)
    assume "s' = s0" then show thesis using quiet checkSecondFactor_calm[OF assms(2) c(2)] by simp
  next
    fix u r assume u: "liveUser s0 t sub = Some u" and g: "?go u = Inr (r, s')"
    have "calm {} s (ax_log t (Some (ac_id u)) ''auth.login'' (ac_id u) (upd_user (ac_id u) (\<lambda>u. u\<lparr>ac_lastLoginAt := Some n\<rparr>) s0))"
      by (rule calm_then[OF checkSecondFactor_calm[OF assms(2) c(2)]]) (auto intro!: calm_upd_user becomes_plain)
    moreover have "ax_refresh s0 = ax_refresh s" using c(2) by (rule checkSecondFactor_rows)
    ultimately show thesis using in'[OF _ _ _ _ g, of t how left s0] c(2) liveUser_Some[OF u] by simp
  qed
qed

end
