(* ===== verification/Session_Safety.thy ===== *)
theory Session_Safety
  imports Session_Effects
begin

text \<open>
  Safety of sign-in: what any interleaving of the handlers of \<open>Sessions\<close> can do to sessions
  and to an account's second factor. \<open>auth_step\<close> is one request, labelled with what it did;
  a run is any sequence of them.
\<close>

section \<open>Steps\<close>

datatype auth_event =
    SignedUp | EmailVerified | LoggedIn nat | SecondStep | Renewed string | SignedOut | Pruned | JoinedByInvite
  | Switched nat | SetupBegun nat | MfaEnabled nat | MfaDisabled nat | CodesRenewed nat | MfaReset nat | CodeChecked nat
  | LinkSent | LinkMade | PasswordReset | PasswordChanged nat

inductive auth_step :: "auth_env \<Rightarrow> auth_db \<Rightarrow> auth_event \<Rightarrow> auth_db \<Rightarrow> bool" for E where
  registered: "register E rnd dto now s = Inr (r, s') \<Longrightarrow> auth_step E s SignedUp s'"
| resent: "resendVerification E email pw now s = (a, s') \<Longrightarrow> auth_step E s LinkSent s'"
| verified: "verifyEmail E tok now s = Inr s' \<Longrightarrow> auth_step E s EmailVerified s'"
| logged_in: "login E email pw now s = Inr (SignedIn r, s') \<Longrightarrow> auth_step E s (LoggedIn (lr_userId r)) s'"
| challenged: "login E email pw now s = Inr (MfaRequired tok, s') \<Longrightarrow> auth_step E s LinkSent s'"
| second: "verifyMfaLogin E tok code now s = (res, s') \<Longrightarrow> auth_step E s SecondStep s'"
| renewed: "refresh E tok now s = Inr (r, s') \<Longrightarrow> auth_step E s (Renewed tok) s'"
| signed_out: "logout E tok now s = s' \<Longrightarrow> auth_step E s SignedOut s'"
| pruned: "pruneEndedSessions now s = (n, s') \<Longrightarrow> auth_step E s Pruned s'"
| joined: "joinByInvite E t email name pw role now s = Inr (r, s') \<Longrightarrow> auth_step E s JoinedByInvite s'"
| switched: "setAccountActive i active now s = s' \<Longrightarrow> auth_step E s (Switched i) s'"
| setup_begun: "beginSetup E t i bytes s = Inr (secret, s') \<Longrightarrow> auth_step E s (SetupBegun i) s'"
| mfa_enabled: "enable E t i code rnd now s = Inr (codes, s') \<Longrightarrow> auth_step E s (MfaEnabled i) s'"
| mfa_disabled: "disable E t i pw code now s = (res, s') \<Longrightarrow> auth_step E s (MfaDisabled i) s'"
| codes_renewed: "regenerateRecoveryCodes E t i code rnd now s = (res2, s') \<Longrightarrow> auth_step E s (CodesRenewed i) s'"
| mfa_reset: "resetForUser t actor i s = Inr s' \<Longrightarrow> auth_step E s (MfaReset i) s'"
| code_checked: "checkSecondFactor E t i code now s = Inr (f, s') \<Longrightarrow> auth_step E s (CodeChecked i) s'"
| link_sent: "forgot E email secret now s = (b, s') \<Longrightarrow> auth_step E s LinkSent s'"
| link_made: "createLink E actor i secret now s = Inr (x, s') \<Longrightarrow> auth_step E s LinkMade s'"
| password_reset: "reset E link pw now s = Inr s' \<Longrightarrow> auth_step E s PasswordReset s'"
| password_changed: "changePassword E actor old new now s = Inr (r, s') \<Longrightarrow> auth_step E s (PasswordChanged (jw_sub actor)) s'"

inductive auth_run :: "auth_env \<Rightarrow> (auth_event \<Rightarrow> bool) \<Rightarrow> auth_db \<Rightarrow> auth_db \<Rightarrow> bool" for E allowed s where
  start: "auth_run E allowed s s"
| more: "auth_run E allowed s t \<Longrightarrow> auth_step E t ev t' \<Longrightarrow> allowed ev \<Longrightarrow> auth_run E allowed s t'"

section \<open>One step\<close>

text \<open>On what ground a session may be given to an account.\<close>

definition admitted :: "auth_env \<Rightarrow> auth_db \<Rightarrow> auth_event \<Rightarrow> nat \<Rightarrow> nat \<Rightarrow> nat option \<Rightarrow> bool" where
  "admitted E s ev t i sid \<longleftrightarrow>
     (\<exists>u \<in> set (ax_users s). ac_id u = i \<and> ac_mfaEnabledAt u = None \<and> ev = LoggedIn i) \<or>
     (ev = JoinedByInvite \<and> i = ax_next s) \<or>
     (ev = SecondStep \<and> (\<exists>code n how left s0. checkSecondFactor E t i code n s = Inr (Accepted how left, s0))) \<or>
     (\<exists>tok. \<exists>row \<in> set (ax_refresh s). ev = Renewed tok \<and> rt_tokenHash row = hashToken E tok \<and> rt_revokedAt row = None \<and>
        rt_user row = i \<and> sid = Some (the_default (rt_id row) (rt_sessionId row))) \<or>
     (ev = PasswordChanged i \<and> (\<exists>u \<in> set (ax_users s). ac_id u = i \<and> (\<exists>pw h. ac_passwordHash u = Some h \<and> en_bcompare E pw h)))"

text \<open>A step issues no token, or exactly one, to an account it admitted.\<close>

lemma auth_step_effect:
  assumes "auth_step E s ev s'" and "accounts_ok s"
  obtains (quiet) X where "calm X s s'" "\<And>i. i \<in> X \<Longrightarrow> ev = MfaDisabled i \<or> ev = MfaReset i"
  | (issued) s1 u roles sid n r where "calm {} s s1" "buildLoginResult E u roles sid n s1 = Inr (r, s')"
      "admitted E s ev (ac_tenant u) (ac_id u) sid"
  using assms(1)
proof cases
  case (logged_in e p n r)
  from logged_in(2) obtain u roles s1 where "u \<in> set (ax_users s)" "ac_mfaEnabledAt u = None" "calm {} s s1"
    "buildLoginResult E u roles None n s1 = Inr (r, s')" by (rule login_SignedIn)
  with logged_in(1) show thesis by (intro issued) (auto simp: admitted_def elim: buildLoginResult_Inr)
next
  case (second tok code n res)
  from second(2) assms(2) show thesis
  proof (cases rule: verifyMfaLogin_cases)
    case (in' u t how left s0 s1 roles r)
    then have "admitted E s SecondStep (ac_tenant u) (ac_id u) None" unfolding admitted_def by blast
    with second(1) in' show thesis by (intro issued[of s1 u roles None n r]) simp_all
  qed (use quiet in auto)
next
  case (renewed tok n r)
  from renewed(2) obtain t row u roles where a: "tokenRow E t tok s = Some row" "rt_revokedAt row = None" "rt_user row = ac_id u"
    "buildLoginResult E u roles (Some (the_default (rt_id row) (rt_sessionId row))) n (revoke (\<lambda>r. rt_id r = rt_id row) n s) = Inr (r, s')"
    by (rule refresh_Inr)
  from a(1) have "row \<in> set (ax_refresh s) \<and> rt_tokenHash row = hashToken E tok" unfolding tokenRow_def by (auto dest: find_Some_mem)
  with a renewed(1) show thesis by (intro issued[OF calm_revoke a(4)]) (auto simp: admitted_def)
next
  case (joined t e name pw role n r)
  from joined(2) show thesis
    by (rule joinByInvite_Inr) (use joined(1) in \<open>auto simp: admitted_def intro: issued\<close>)
next
  case (password_changed actor old new n r)
  from password_changed(2) obtain u v h roles s1 where a: "liveUser s (jw_tenant actor) (jw_sub actor) = Some u" "ac_passwordHash u = Some h"
    "en_bcompare E old h" "ac_id v = jw_sub actor" "calm {} s s1" "buildLoginResult E v roles None n s1 = Inr (r, s')"
    by (rule changePassword_Inr)
  with password_changed(1) liveUser_Some[OF a(1)] show thesis by (intro issued[OF a(5,6)]) (auto simp: admitted_def)
next
  case (mfa_disabled t i p c n res)
  with disable_calm[OF assms(2)] show thesis by (intro quiet[of "{i}"]) auto
next
  case (mfa_reset t actor i)
  with resetForUser_calm show thesis by (intro quiet[of "{i}"]) auto
next
  case (password_reset link pw n)
  from password_reset(2) show thesis by (rule reset_Inr[where X = "{}"]) (auto intro: quiet)
qed (use assms(2) in \<open>auto intro!: quiet[of "{}"] intro: register_calm resendVerification_calm verifyEmail_calm login_challenge_calm
    logout_calm pruneEndedSessions_calm setAccountActive_calm beginSetup_calm enable_calm regenerateRecoveryCodes_calm
    checkSecondFactor_calm forgot_calm createLink_calm\<close>)

lemma auth_step_carried: "auth_step E s ev s' \<Longrightarrow> accounts_ok s \<Longrightarrow> carried E s s'"
  by (erule auth_step_effect) (auto intro: calm_carried carried_trans[OF calm_carried buildLoginResult_carried])

lemma auth_step_accounts:
  assumes "auth_step E s ev s'" and "accounts_ok s"
  shows "accounts_ok s'" and "\<exists>X. accounts_from X s s' \<and> (\<forall>i \<in> X. ev = MfaDisabled i \<or> ev = MfaReset i)"
proof -
  have "\<exists>X. accounts_from X s s' \<and> (\<forall>i \<in> X. ev = MfaDisabled i \<or> ev = MfaReset i) \<and> ax_next s \<le> ax_next s'"
    using assms
  proof (cases rule: auth_step_effect)
    case (quiet X)
    then show ?thesis by (auto simp: calm_def)
  next
    case (issued s1 u roles sid n r)
    from issued(2) obtain "ax_users s' = ax_users s1" "ax_next s1 \<le> ax_next s'" by (rule buildLoginResult_Inr)
    with issued(1) have "accounts_from ({} \<union> {}) s s'" "ax_next s \<le> ax_next s'"
      unfolding calm_def by (auto intro: accounts_from_trans[where b = s1, of "{}" s "{}", simplified] accounts_from_refl)
    then show ?thesis by (intro exI[of _ "{}"]) simp
  qed
  then show "accounts_ok s'" and "\<exists>X. accounts_from X s s' \<and> (\<forall>i \<in> X. ev = MfaDisabled i \<or> ev = MfaReset i)"
    using accounts_ok_from[OF assms(2)] by blast+
qed

section \<open>Runs\<close>

text \<open>
  Every digest in the session table belongs to a token signed for a number already drawn, and
  no two rows share one. Tokens signed for different numbers have different digests: this is
  what signing with a unique \<^verbatim>\<open>jti\<close> and SHA-256 are relied on for.
\<close>

definition sessions_ok :: "auth_env \<Rightarrow> auth_db \<Rightarrow> bool" where
  "sessions_ok E s \<longleftrightarrow> accounts_ok s \<and> distinct (map rt_tokenHash (ax_refresh s)) \<and> (\<forall>r \<in> set (ax_refresh s). minted E 0 (ax_next s) r)"

definition distinct_tokens :: "auth_env \<Rightarrow> bool" where
  "distinct_tokens E \<longleftrightarrow> (\<forall>u t j n u' t' j' n'.
     hashToken E (en_sign E RefreshKey (RefreshPayload u t (Some j)) n (en_refreshTtl E)) =
     hashToken E (en_sign E RefreshKey (RefreshPayload u' t' (Some j')) n' (en_refreshTtl E)) \<longrightarrow> j = j')"

lemma auth_step_sessions_ok: "auth_step E s ev s' \<Longrightarrow> sessions_ok E s \<Longrightarrow> sessions_ok E s'"
  unfolding sessions_ok_def using auth_step_carried[of E s ev s'] auth_step_accounts(1)[of E s ev s']
  by (auto simp: carried_def) (meson le0 minted_aged minted_mono order_refl)

lemma auth_run_sessions_ok: "auth_run E al s s' \<Longrightarrow> sessions_ok E s \<Longrightarrow> sessions_ok E s'"
  by (induction rule: auth_run.induct) (auto intro: auth_step_sessions_ok)

lemma auth_run_carried: "auth_run E al s s' \<Longrightarrow> sessions_ok E s \<Longrightarrow> carried E s s'"
proof (induction rule: auth_run.induct)
  case (more t ev t')
  then have "sessions_ok E t" by (auto intro: auth_run_sessions_ok)
  then show ?case using more auth_step_carried carried_trans unfolding sessions_ok_def by blast
qed (auto simp: carried_def intro: aged_refl)

text \<open>No live row answers to the token.\<close>

definition ended :: "auth_env \<Rightarrow> string \<Rightarrow> auth_db \<Rightarrow> bool" where
  "ended E tok s \<longleftrightarrow> (\<forall>r \<in> set (ax_refresh s). rt_tokenHash r = hashToken E tok \<longrightarrow> rt_revokedAt r \<noteq> None)"

lemma ended_refused: "ended E tok s \<Longrightarrow> refresh E tok n s = Inl (Unauthorized TOKEN_INVALID)"
  by (auto simp: ended_def refresh_def tokenRow_def dest: find_Some_mem split: option.splits token_payload.splits)

lemma ended_carried:
  assumes "ended E tok s" and "carried E s s'" and "distinct_tokens E" and "minted E 0 (ax_next s) row" and "rt_tokenHash row = hashToken E tok"
  shows "ended E tok s'"
  unfolding ended_def
proof (intro ballI impI)
  fix r assume r: "r \<in> set (ax_refresh s')" "rt_tokenHash r = hashToken E tok"
  have "\<not> minted E (ax_next s) (ax_next s') r"
    using assms(3-5) r(2) unfolding minted_def distinct_tokens_def by (metis not_less)
  with assms(2) r(1) obtain q where "q \<in> set (ax_refresh s)" "aged q r" unfolding carried_def by blast
  with assms(1) r(2) show "rt_revokedAt r \<noteq> None" unfolding ended_def by (metis agedD)
qed

section \<open>Ended sessions\<close>

lemma same_row: "distinct (map rt_tokenHash rs) \<Longrightarrow> q \<in> set rs \<Longrightarrow> r \<in> set rs \<Longrightarrow> rt_tokenHash q = rt_tokenHash r \<Longrightarrow> q = r"
  by (auto simp: distinct_map inj_on_def)

lemma revoke_ended:
  assumes "distinct (map rt_tokenHash (ax_refresh s))" and "row \<in> set (ax_refresh s)" and "w row" and "rt_tokenHash row = hashToken E tok"
  shows "ended E tok (revoke w n s)"
  unfolding ended_def
proof (intro ballI impI)
  fix r assume "r \<in> set (ax_refresh (revoke w n s))" "rt_tokenHash r = hashToken E tok"
  then obtain q where q: "q \<in> set (ax_refresh s)" "rt_tokenHash q = hashToken E tok"
    and r: "r = (if rt_revokedAt q = None \<and> w q then q\<lparr>rt_revokedAt := Some n\<rparr> else q)" by auto
  have "q = row" using same_row[OF assms(1) q(1) assms(2)] assms(4) q(2) by simp
  with r assms(3) show "rt_revokedAt r \<noteq> None" by auto
qed

lemma revoke_hashes: "rt_tokenHash ` set (ax_refresh (revoke w n s)) = rt_tokenHash ` set (ax_refresh s)"
proof -
  have "map rt_tokenHash (ax_refresh (revoke w n s)) = map rt_tokenHash (ax_refresh s)" by simp
  then show ?thesis by (metis list.set_map)
qed

lemma built_ended:
  assumes "ended E tok s" and "hashToken E tok \<in> rt_tokenHash ` set (ax_refresh s)" and "buildLoginResult E u roles sid n s = Inr (r, s')"
  shows "ended E tok s'"
  using assms(3) by (rule buildLoginResult_Inr) (use assms(1,2) in \<open>auto simp: ended_def\<close>)

text \<open>
  The five ways a session ends: its token is renewed, somebody signs out of the same sign-in,
  the person changes the password, a reset link of theirs is used, the account is switched off.
\<close>

inductive ends_session :: "auth_env \<Rightarrow> refresh_token \<Rightarrow> auth_db \<Rightarrow> auth_db \<Rightarrow> bool" for E row s where
  by_renewal: "refresh E tok n s = Inr (r, s') \<Longrightarrow> hashToken E tok = rt_tokenHash row \<Longrightarrow> ends_session E row s s'"
| by_sign_out: "en_verify E RefreshKey True tok n = Some (RefreshPayload sub t j) \<Longrightarrow> tokenRow E t tok s = Some row' \<Longrightarrow>
    rt_tenant row = t \<Longrightarrow> row' = row \<or> rt_sessionId row' \<noteq> None \<and> rt_sessionId row = rt_sessionId row' \<Longrightarrow>
    ends_session E row s (logout E tok n s)"
| by_change: "changePassword E actor old new n s = Inr (r, s') \<Longrightarrow> rt_user row = jw_sub actor \<Longrightarrow> ends_session E row s s'"
| by_reset: "reset E link pw n s = Inr s' \<Longrightarrow> resetRow E link s = Some p \<Longrightarrow> rt_user row = pr_user p \<Longrightarrow> ends_session E row s s'"
| by_switch: "ends_session E row s (setAccountActive (rt_user row) False n s)"

lemma ends_session_step: "ends_session E row s s' \<Longrightarrow> \<exists>ev. auth_step E s ev s'"
  by (cases rule: ends_session.cases) (auto intro: auth_step.intros)

lemma ends_session_ended:
  assumes "ends_session E row s s'" and "distinct (map rt_tokenHash (ax_refresh s))" and "row \<in> set (ax_refresh s)"
    and "rt_tokenHash row = hashToken E tok"
  shows "ended E tok s'"
proof -
  have there: "hashToken E tok \<in> rt_tokenHash ` set (ax_refresh (revoke w n s))" for w n
    unfolding revoke_hashes using imageI[OF assms(3), of rt_tokenHash] assms(4) by simp
  have cong: "ended E tok b" if "ax_refresh b = ax_refresh (revoke w n s)" "w row" for w n b
    using revoke_ended[where w = w and n = n, OF assms(2,3) that(2) assms(4)] that(1) by (simp only: ended_def)
  from assms(1) show ?thesis
  proof cases
    case (by_renewal tk n r)
    then obtain t q u roles where q: "tokenRow E t tk s = Some q"
      "buildLoginResult E u roles (Some (the_default (rt_id q) (rt_sessionId q))) n (revoke (\<lambda>r. rt_id r = rt_id q) n s) = Inr (r, s')"
      by (elim refresh_Inr)
    have "q \<in> set (ax_refresh s) \<and> rt_tokenHash q = hashToken E tk" using q(1) unfolding tokenRow_def by (auto dest: find_Some_mem)
    then have "q = row" using by_renewal(2) same_row[OF assms(2) _ assms(3)] by simp
    then have "ended E tok (revoke (\<lambda>r. rt_id r = rt_id q) n s)" using cong[where w = "\<lambda>r. rt_id r = rt_id q", OF refl] by blast
    from built_ended[OF this there q(2)] show ?thesis .
  next
    case (by_sign_out tk n sub t j row')
    let ?w = "\<lambda>r. rt_tenant r = t \<and> (rt_id r = rt_id row' \<or> rt_sessionId row' \<noteq> None \<and> rt_sessionId r = rt_sessionId row')"
    have "ax_refresh (logout E tk n s) = ax_refresh (revoke ?w n s)" using by_sign_out(2,3) by (simp add: logout_def Let_def)
    moreover have "?w row" using by_sign_out(4,5) by auto
    ultimately show ?thesis unfolding by_sign_out(1) using cong[of _ ?w n] by blast
  next
    case (by_change actor old new n r)
    let ?w = "\<lambda>r. rt_user r = jw_sub actor"
    from by_change(1) obtain v roles s0 where s0: "ax_refresh s0 = ax_refresh (revoke ?w n s)" "buildLoginResult E v roles None n s0 = Inr (r, s')"
      by (rule changePassword_Inr) (simp add: endEverything_def)
    have "ended E tok s0" using cong[of s0 ?w n] s0(1) by_change(2) by blast
    from built_ended[OF this _ s0(2)] show ?thesis using there[of ?w n] by (simp only: s0(1))
  next
    case (by_reset link pw n p)
    let ?w = "\<lambda>r. rt_user r = pr_user p"
    from by_reset(1) have "ax_refresh s' = ax_refresh (revoke ?w n s)"
      by (rule reset_Inr[where X = "{}"]) (use by_reset(2) in \<open>simp add: endEverything_def\<close>)
    then show ?thesis using cong[of s' ?w n] by_reset(3) by blast
  next
    case (by_switch n)
    let ?w = "\<lambda>r. rt_user r = rt_user row"
    have "ax_refresh s' = ax_refresh (revoke ?w n s)" unfolding by_switch by (simp add: setAccountActive_def Let_def)
    then show ?thesis using cong[of s' ?w n] by blast
  qed
qed

text \<open>
  C5. A session that has ended stays ended: once its token was renewed, or its sign-in signed out of, or
  its owner's password changed or reset, or the account switched off, that refresh token is
  refused at every later moment, whatever requests happen in between, provided
  tokens signed for different numbers have different digests.
\<close>

theorem ended_session_refused:
  assumes "distinct_tokens E" and "sessions_ok E s" and "row \<in> set (ax_refresh s)" and "rt_tokenHash row = hashToken E tok"
    and "ends_session E row s s1" and "auth_run E (\<lambda>_. True) s1 s2"
  shows "refresh E tok n s2 = Inl (Unauthorized TOKEN_INVALID)"
proof -
  from ends_session_step[OF assms(5)] obtain ev where st: "auth_step E s ev s1" by blast
  have ok: "sessions_ok E s1" using auth_step_sessions_ok[OF st assms(2)] .
  have "minted E 0 (ax_next s) row" using assms(2,3) by (simp add: sessions_ok_def)
  moreover have "ax_next s \<le> ax_next s1" using auth_step_carried[OF st] assms(2) by (simp add: sessions_ok_def carried_def)
  ultimately have "minted E 0 (ax_next s1) row" by (auto intro: minted_mono)
  moreover have "ended E tok s1" using ends_session_ended[OF assms(5) _ assms(3,4)] assms(2) by (simp add: sessions_ok_def)
  ultimately have "ended E tok s2" using ended_carried[OF _ auth_run_carried[OF assms(6) ok] assms(1) _ assms(4)] by blast
  then show ?thesis by (rule ended_refused)
qed

section \<open>The second factor\<close>


lemma accounts_from_later:
  assumes "accounts_ok s" and "accounts_from X s s'" and "ac_id u \<notin> X" and "u \<in> set (ax_users s)" and "u' \<in> set (ax_users s')" and "ac_id u' = ac_id u"
  shows "later u u'"
proof -
  obtain us ws where s': "ax_users s' = us @ ws" "list_all2 (becomes X) (ax_users s) us" "\<forall>w \<in> set ws. ax_next s \<le> ac_id w"
    using assms(2) unfolding accounts_from_def by blast
  have "ac_id u < ax_next s" using assms(1,4) by (simp add: accounts_ok_def)
  with s'(1,3) assms(5,6) have "u' \<in> set us" by fastforce
  then obtain v where v: "v \<in> set (ax_users s)" "becomes X v u'" using s'(2) by (metis in_set_conv_nth list_all2_conv_all_nth)
  then have "v = u" using only_account[OF assms(1,4)] assms(6) by (simp add: becomes_def)
  with v(2) assms(3) show ?thesis by (simp add: becomes_def)
qed

lemma accounts_from_mono: "accounts_from X s s' \<Longrightarrow> X \<subseteq> Y \<Longrightarrow> accounts_from Y s s'"
proof -
  assume a: "accounts_from X s s'" "X \<subseteq> Y"
  have "list_all2 (becomes Y) us vs" if "list_all2 (becomes X) us vs" for us vs
    using that by (rule list_all2_mono) (use a(2) in \<open>auto simp: becomes_def\<close>)
  with a(1) show "accounts_from Y s s'" unfolding accounts_from_def by blast
qed

lemma auth_run_accounts:
  assumes "auth_run E (\<lambda>ev. ev \<noteq> MfaDisabled i \<and> ev \<noteq> MfaReset i) s s'" and "accounts_ok s"
  shows "accounts_ok s' \<and> ax_next s \<le> ax_next s' \<and> accounts_from (- {i}) s s'"
  using assms
proof (induction rule: auth_run.induct)
  case (more t ev t')
  from auth_step_accounts(2)[OF more(2)] more obtain X where X: "accounts_from X t t'" "i \<notin> X" by blast
  have n: "ax_next t \<le> ax_next t'" using auth_step_carried[OF more(2)] more by (simp add: carried_def)
  have "accounts_from (- {i}) t t'" using X by (auto intro: accounts_from_mono)
  with more n have "accounts_from (- {i}) s t'" using accounts_from_trans[of "- {i}" s t "- {i}" t'] by simp
  with n more auth_step_accounts(1)[OF more(2)] show ?case by simp
qed simp

lemma liveUser_upd:
  assumes "liveUser s t i = Some u" and "\<And>v. ac_id (f v) = ac_id v \<and> ac_tenant (f v) = ac_tenant v \<and> ac_deletedAt (f v) = ac_deletedAt v"
  shows "liveUser (upd_user i f s) t i = Some (f u)"
proof -
  have "List.find (\<lambda>u. ac_tenant u = t \<and> ac_id u = i \<and> ac_deletedAt u = None) (map (\<lambda>u. if ac_id u = i then f u else u) us) = Some (f u)"
    if "List.find (\<lambda>u. ac_tenant u = t \<and> ac_id u = i \<and> ac_deletedAt u = None) us = Some u" for us
    using that by (induction us) (use assms(2) in \<open>auto split: if_splits\<close>)
  with assms(1) show ?thesis by (simp add: liveUser_def)
qed

text \<open>An accepted code of the app: the step it belongs to is recorded.\<close>

lemma accepted_step:
  assumes "checkSecondFactor E t i c n s = Inr (Accepted TotpCode k, s')"
  obtains u secret key st where "liveUser s t i = Some u" "ac_mfaEnabledAt u \<noteq> None" "after (ac_mfaLastUsedStep u) st"
    "bindr (case ac_mfaSecret u of None \<Rightarrow> Inl PlainError | Some x \<Rightarrow> en_decrypt E x) base32Decode = Inr key"
    "hotp (en_hmac E) key st = Inr (strip_spaces (js_trim c))"
    "liveUser s' t i = Some (u\<lparr>ac_mfaLastUsedStep := Some st, ac_mfaFailedAttempts := 0, ac_mfaLockedUntil := None\<rparr>)"
  using assms
proof (cases rule: checkSecondFactor_Inr)
  case (accepted u x)
  from accepted(5) show thesis
  proof (cases rule: accept_code_Some)
    case (by_app secret st)
    have i: "ac_id u = i" using liveUser_Some[OF accepted(1)] by simp
    from verifyTotp_Some(3)[OF by_app(3)] obtain key where k: "base32Decode secret = Inr key" "hotp (en_hmac E) key st = Inr (strip_spaces (js_trim c))"
      by blast
    show thesis
      using that[OF accepted(1,3) verifyTotp_Some(1)[OF by_app(3)] _ k(2)] accepted(1,2) by_app(2,4) k(1) i liveUser_upd[OF accepted(1)]
      by simp
  qed auto
next
  case (wrong u x)
  then show thesis by (auto simp: refuse_code_def Let_def split: if_splits)
qed auto

text \<open>
  C7. No time step is accepted twice: while two-step sign-in stays on, a code accepted later belongs to a
  later step of the same secret than the one accepted before, whatever happens in between.
\<close>

theorem code_works_once:
  assumes "accounts_ok s" and "checkSecondFactor E t i c n s = Inr (Accepted TotpCode k, s1)"
    and "auth_run E (\<lambda>ev. ev \<noteq> MfaDisabled i \<and> ev \<noteq> MfaReset i) s1 s2"
    and "checkSecondFactor E t i c' n' s2 = Inr (Accepted TotpCode k', s3)"
  shows "\<exists>key a b. a < b \<and> hotp (en_hmac E) key a = Inr (strip_spaces (js_trim c)) \<and> hotp (en_hmac E) key b = Inr (strip_spaces (js_trim c')) \<and>
    map_option ac_mfaLastUsedStep (liveUser s1 t i) = Some (Some a) \<and> map_option ac_mfaLastUsedStep (liveUser s3 t i) = Some (Some b)"
proof -
  from assms(2) obtain u secret key a where u: "ac_mfaEnabledAt u \<noteq> None" "hotp (en_hmac E) key a = Inr (strip_spaces (js_trim c))"
    "bindr (case ac_mfaSecret u of None \<Rightarrow> Inl PlainError | Some x \<Rightarrow> en_decrypt E x) base32Decode = Inr key"
    "liveUser s1 t i = Some (u\<lparr>ac_mfaLastUsedStep := Some a, ac_mfaFailedAttempts := 0, ac_mfaLockedUntil := None\<rparr>)" (is "_ = Some ?u1")
    by (rule accepted_step)
  from assms(4) obtain v key' b where v: "liveUser s2 t i = Some v" "after (ac_mfaLastUsedStep v) b"
    "bindr (case ac_mfaSecret v of None \<Rightarrow> Inl PlainError | Some x \<Rightarrow> en_decrypt E x) base32Decode = Inr key'"
    "hotp (en_hmac E) key' b = Inr (strip_spaces (js_trim c'))"
    "map_option ac_mfaLastUsedStep (liveUser s3 t i) = Some (Some b)" by (rule accepted_step) simp
  have ok1: "accounts_ok s1"
    using checkSecondFactor_calm[OF assms(1,2), of "{}"] accounts_ok_from[OF assms(1)] by (auto simp: calm_def)
  have "later ?u1 v"
    using accounts_from_later[OF ok1, of "- {i}" s2 ?u1 v] auth_run_accounts[OF assms(3) ok1] liveUser_Some[OF u(4)] liveUser_Some[OF v(1)] by simp
  with u(1) have "ac_mfaSecret v = ac_mfaSecret u" "not_before (Some a) (ac_mfaLastUsedStep v)" by (simp_all add: later_def)
  then have "key' = key" "a < b" using u(3) v(2,3) by (auto simp: not_before_def after_def split: option.splits)
  with u v show ?thesis by auto
qed

section \<open>Guessing\<close>

text \<open>The wrong codes of a series of attempts that were held against the secret.\<close>

fun wrong_guesses :: "auth_env \<Rightarrow> nat \<Rightarrow> nat \<Rightarrow> (string \<times> instant) list \<Rightarrow> auth_db \<Rightarrow> nat" where
  "wrong_guesses E t i [] s = 0"
| "wrong_guesses E t i ((c, n) # tries) s =
     (case liveUser s t i of
        None \<Rightarrow> 0
      | Some u \<Rightarrow>
          (case checkSecondFactor E t i c n s of
             Inr (Refused _ _, s') \<Rightarrow>
               (if ac_mfaSecret u = None \<or> ac_mfaEnabledAt u = None \<or> locked_at u n then 0 else 1) + wrong_guesses E t i tries s'
           | _ \<Rightarrow> 0))"

lemma refused_state:
  assumes "checkSecondFactor E t i c n s = Inr (Refused l a, s')" and "liveUser s t i = Some u"
  shows "if ac_mfaSecret u = None \<or> ac_mfaEnabledAt u = None \<or> locked_at u n then s' = s
    else if 4 \<le> ac_mfaFailedAttempts u
    then liveUser s' t i = Some (u\<lparr>ac_mfaFailedAttempts := 0, ac_mfaLockedUntil := Some (n + 900000)\<rparr>)
    else liveUser s' t i = Some (u\<lparr>ac_mfaFailedAttempts := Suc (ac_mfaFailedAttempts u)\<rparr>)"
  using assms(1)
proof (cases rule: checkSecondFactor_Inr)
  case (untried v)
  with assms(2) show ?thesis by simp
next
  case (accepted v x)
  from accepted(5) show ?thesis by (cases rule: accept_code_Some) auto
next
  case (wrong v x)
  with assms(2) have "v = u" "ac_id u = i" using liveUser_Some[OF assms(2)] by auto
  with wrong liveUser_upd[OF assms(2)] show ?thesis
    by (auto simp: refuse_code_def Let_def MFA_MAX_FAILED_ATTEMPTS_def MFA_LOCK_MINUTES_def liveUser_def split: if_splits)
qed

text \<open>How many more codes the account will look at before it locks.\<close>

definition tries_left :: "account \<Rightarrow> instant \<Rightarrow> nat" where
  "tries_left u until = (if (case ac_mfaLockedUntil u of None \<Rightarrow> False | Some l \<Rightarrow> until \<le> l) then 0
     else max 1 (5 - ac_mfaFailedAttempts u))"

lemma wrong_guesses_left:
  "liveUser s t i = Some u \<Longrightarrow> \<forall>(c, n) \<in> set tries. t0 \<le> n \<and> n < t0 + 900000 \<Longrightarrow>
     wrong_guesses E t i tries s \<le> tries_left u (t0 + 900000)"
proof (induction tries arbitrary: s u)
  case (Cons w tries)
  obtain c n where w: "w = (c, n)" by (cases w)
  have n: "t0 \<le> n" "n < t0 + 900000" using Cons.prems(2) w by auto
  show ?case
  proof (cases "checkSecondFactor E t i c n s")
    case (Inr a)
    obtain f s' where a: "a = (f, s')" by (cases a)
    show ?thesis
    proof (cases f)
      case (Refused l k)
      note st = refused_state[OF Inr[unfolded a Refused] Cons.prems(1)]
      have ih: "liveUser s' t i = Some v \<Longrightarrow> wrong_guesses E t i tries s' \<le> tries_left v (t0 + 900000)" for v
        using Cons.IH Cons.prems(2) by simp
      show ?thesis
      proof (cases "ac_mfaSecret u = None \<or> ac_mfaEnabledAt u = None \<or> locked_at u n")
        case True
        with st ih[of u] Cons.prems(1) show ?thesis by (simp add: w Inr a Refused)
      next
        case False
        then have "\<not> (case ac_mfaLockedUntil u of None \<Rightarrow> False | Some l \<Rightarrow> t0 + 900000 \<le> l)"
          using n by (auto simp: locked_at_def split: option.splits)
        then have u: "tries_left u (t0 + 900000) = max 1 (5 - ac_mfaFailedAttempts u)"
          and u': "tries_left (u\<lparr>ac_mfaFailedAttempts := k\<rparr>) (t0 + 900000) = max 1 (5 - k)" for k by (simp_all add: tries_left_def)
        show ?thesis
        proof (cases "4 \<le> ac_mfaFailedAttempts u")
          case True
          with st False ih n show ?thesis by (simp add: w Inr a Refused Cons.prems(1) u) (simp add: tries_left_def)
        next
          case few: False
          with st False have "liveUser s' t i = Some (u\<lparr>ac_mfaFailedAttempts := Suc (ac_mfaFailedAttempts u)\<rparr>)" by simp
          from ih[OF this] have "wrong_guesses E t i tries s' \<le> 4 - ac_mfaFailedAttempts u" using few by (simp add: u')
          with few False show ?thesis by (auto simp: w Inr a Refused Cons.prems(1) u)
        qed
      qed
    qed (simp add: w Inr a Cons.prems(1))
  qed (simp add: w Cons.prems(1))
qed simp


section \<open>An example\<close>

text \<open>
  A front desk with one account. Tokens are told apart by their length, the code of every
  step is \<open>000000\<close>, and digests and ciphers leave a text as it is.
\<close>

definition lab_env :: auth_env where
  "lab_env = \<lparr>en_bhash = (\<lambda>p. p), en_bcompare = (=), en_sha256 = (\<lambda>t. t), en_hmac = (\<lambda>_ _. replicate 20 0),
     en_encrypt = (\<lambda>t. t), en_decrypt = Inr,
     en_sign = (\<lambda>_ p _ _. case p of RefreshPayload _ _ (Some j) \<Rightarrow> replicate j CHR ''r'' | MfaChallengePayload _ _ \<Rightarrow> ''m'' | _ \<Rightarrow> ''a''),
     en_verify = (\<lambda>_ _ t _. if t = ''m'' then Some (MfaChallengePayload 1 0) else Some (RefreshPayload 1 0 None)),
     en_exp = (\<lambda>_. 1000000), en_accessTtl = 900, en_refreshTtl = 604800,
     en_uuid = (\<lambda>_. ''''), en_webBase = '''', en_delivers = False, en_accepts = (\<lambda>_. False)\<rparr>"

definition lab_user :: account where
  "lab_user = (new_account 1 0 ''a@b.c'' ''pw'' ''Ada'' True)\<lparr>ac_mfaSecret := Some '''', ac_mfaEnabledAt := Some 0\<rparr>"

definition lab_db :: auth_db where
  "lab_db = \<lparr>ax_tenants = [\<lparr>tn_id = 0, tn_subdomain = ''x'', tn_groupName = ''X'', tn_status = Active, tn_isDemo = False, tn_demoExpiresAt = None\<rparr>],
     ax_roles = [], ax_users = [lab_user], ax_assign = [], ax_emailIndex = [(''a@b.c'', 0, 1)],
     ax_refresh = [\<lparr>rt_id = 2, rt_tenant = 0, rt_user = 1, rt_tokenHash = ''rrr'', rt_sessionId = Some 2, rt_expiresAt = 1000000000, rt_revokedAt = None\<rparr>],
     ax_resets = [], ax_mail = [], ax_audit = [], ax_next = 5\<rparr>"

lemmas lab_defs = lab_db_def lab_env_def lab_user_def new_account_def

lemma lab_distinct_tokens: "distinct_tokens lab_env"
  by (auto simp: distinct_tokens_def hashToken_def lab_env_def dest: arg_cong[where f = length])

lemma lab_sessions_ok: "sessions_ok lab_env lab_db"
proof -
  have "minted lab_env 0 5 (hd (ax_refresh lab_db))"
    unfolding minted_def by (rule exI[of _ 1], rule exI[of _ 0], rule exI[of _ 3]) (simp add: lab_defs hashToken_def numeral_3_eq_3)
  then show ?thesis by (simp add: sessions_ok_def accounts_ok_def lab_db_def lab_user_def new_account_def)
qed

theorem ended_session_refused_witness:
  "refresh lab_env ''rrr'' 7 (logout lab_env ''rrr'' 5 lab_db) = Inl (Unauthorized TOKEN_INVALID)"
proof -
  let ?row = "hd (ax_refresh lab_db)"
  have row: "?row \<in> set (ax_refresh lab_db)" "rt_tokenHash ?row = hashToken lab_env ''rrr''" by (simp_all add: lab_defs hashToken_def)
  have "tokenRow lab_env 0 ''rrr'' lab_db = Some ?row" by (simp add: tokenRow_def lab_defs hashToken_def)
  then have "ends_session lab_env ?row lab_db (logout lab_env ''rrr'' 5 lab_db)"
    by (intro by_sign_out[where sub = 1 and t = 0 and j = None]) (auto simp: lab_defs)
  from ended_session_refused[OF lab_distinct_tokens lab_sessions_ok row this auth_run.start] show ?thesis .
qed

definition lab_step :: "int \<Rightarrow> auth_db" where
  "lab_step k = upd_user 1 (\<lambda>u. u\<lparr>ac_mfaLastUsedStep := Some k, ac_mfaFailedAttempts := 0, ac_mfaLockedUntil := None\<rparr>) lab_db"

lemma lab_hotp: "0 \<le> k \<Longrightarrow> k < 2 ^ 64 \<Longrightarrow> hotp (\<lambda>_ _. replicate 20 0) key k = Inr ''000000''"
proof -
  have "decimal_digits 6 0 = ''000000''" by code_simp
  then show "0 \<le> k \<Longrightarrow> k < 2 ^ 64 \<Longrightarrow> hotp (\<lambda>_ _. replicate 20 0) key k = Inr ''000000''"
    by (simp add: hotp_def Let_def TOTP_DIGITS_def)
qed

lemma lab_text: "js_trim ''000000'' = ''000000''" "strip_spaces ''000000'' = ''000000''" "six_digits ''000000''" "base32Decode '''' = Inr []"
  by code_simp+

lemma lab_totp: "verifyTotp (\<lambda>_ _. replicate 20 0) '''' ''000000'' 100000 l = Inr (List.find (after l) [2, 3, 4])"
  using verifyTotp_exact[OF lab_text(4), of "''000000''" 100000 "\<lambda>_ _. replicate 20 0" l]
  by (simp add: lab_text stepAt_def TOTP_STEP_SECONDS_def lab_hotp)

lemma lab_codes:
  "checkSecondFactor lab_env 0 1 ''000000'' 100000 lab_db = Inr (Accepted TotpCode 0, lab_step 2)"
  "checkSecondFactor lab_env 0 1 ''000000'' 100000 (lab_step 2) = Inr (Accepted TotpCode 0, lab_step 3)"
  by (simp_all add: checkSecondFactor_def loadUser_def liveUser_def accept_code_def Let_def locked_at_def lab_text lab_totp after_def lab_defs
      lab_step_def upd_user_def)

theorem code_works_once_witness:
  "\<exists>key a b. a < b \<and> hotp (en_hmac lab_env) key a = Inr (strip_spaces (js_trim ''000000'')) \<and>
     hotp (en_hmac lab_env) key b = Inr (strip_spaces (js_trim ''000000'')) \<and>
     map_option ac_mfaLastUsedStep (liveUser (lab_step 2) 0 1) = Some (Some a) \<and>
     map_option ac_mfaLastUsedStep (liveUser (lab_step 3) 0 1) = Some (Some b)"
proof -
  have "accounts_ok lab_db" using lab_sessions_ok by (simp add: sessions_ok_def)
  from code_works_once[OF this lab_codes(1) auth_run.start lab_codes(2)] show ?thesis .
qed


text \<open>The account signs in with its code.\<close>

definition lab_in :: auth_db where
  "lab_in = snd (verifyMfaLogin lab_env ''m'' ''000000'' 100000 lab_db)"

lemma lab_new_row:
  "length (ax_refresh lab_in) = 2" "rt_user (ax_refresh lab_in ! 1) = 1" "rt_tenant (ax_refresh lab_in ! 1) = 0"
  "rt_tokenHash (ax_refresh lab_in ! 1) \<noteq> ''rrr''"
proof -
  have "en_verify lab_env RefreshKey False ''m'' 100000 = Some (MfaChallengePayload 1 0)" by (simp add: lab_env_def)
  then show "length (ax_refresh lab_in) = 2" "rt_user (ax_refresh lab_in ! 1) = 1" "rt_tenant (ax_refresh lab_in ! 1) = 0"
    "rt_tokenHash (ax_refresh lab_in ! 1) \<noteq> ''rrr''"
    by (simp_all add: lab_in_def verifyMfaLogin_def lab_codes del: One_nat_def)
      (simp_all add: lab_step_def lab_defs liveUser_def upd_user_def assertTenantOpen_def isTenantOpen_def OPEN_TENANT_STATUSES_def
        buildLoginResult_def Let_def ax_log_def hashToken_def eval_nat_numeral)
qed


end
