(* ===== verification/Account_Access.thy ===== *)
theory Account_Access
  imports Sessions
begin

text \<open>
  Who a request comes from: the guard that signs it in (\<^verbatim>\<open>common/guards/jwt-auth.guard.ts\<close>), the
  remembered answers about accounts it asks (\<^verbatim>\<open>common/auth/account-status.service.ts\<close>), and the API
  keys (\<^verbatim>\<open>common/auth/api-key-auth.service.ts\<close> and the keys of
  \<^verbatim>\<open>modules/integrations/integrations.service.ts\<close>). The verdict on the access token's signature is
  an argument of the guard; the digest and the texts of ids are fields of \<open>auth_env\<close>.
\<close>

section \<open>Account status\<close>

definition ACCOUNT_STATUS_TTL_MS :: int where "ACCOUNT_STATUS_TTL_MS = 30000"
definition SWEEP_ABOVE :: nat where "SWEEP_ABOVE = 5000"

datatype account_state = AccountOpen | AccountClosed | AccountSuspended

record open_entry =
  oe_until :: instant
  oe_tenant :: nat
  oe_roles :: "role_assignment list"

text \<open>A JavaScript \<^verbatim>\<open>Map\<close>, one entry per user id.\<close>

type_synonym open_map = "(nat \<times> open_entry) list"

definition map_delete :: "nat \<Rightarrow> open_map \<Rightarrow> open_map" where
  "map_delete k m = filter (\<lambda>e. fst e \<noteq> k) m"

definition map_set :: "nat \<Rightarrow> open_entry \<Rightarrow> open_map \<Rightarrow> open_map" where
  "map_set k v m = (if k \<in> fst ` set m then map (\<lambda>e. if fst e = k then (k, v) else e) m else m @ [(k, v)])"

definition sweep :: "instant \<Rightarrow> open_map \<Rightarrow> open_map" where
  "sweep now m = filter (\<lambda>e. now < oe_until (snd e)) m"

definition current_read :: "auth_db \<Rightarrow> nat \<Rightarrow> nat \<Rightarrow> instant \<Rightarrow> open_map \<Rightarrow> (account_state \<times> role_assignment list option) \<times> open_map" where
  "current_read s sub tenantId now m =
     (let roles = (if liveUser s tenantId sub = None then None else Some (loadRolesClaim s sub));
          status = map_option tn_status (List.find (\<lambda>t. tn_id t = tenantId) (ax_tenants s))
      in case roles of
           None \<Rightarrow> ((AccountClosed, None), map_delete sub m)
         | Some held \<Rightarrow>
             if \<not> isTenantOpen status then ((AccountSuspended, None), map_delete sub m)
             else let m = (if SWEEP_ABOVE \<le> length m then sweep now m else m);
                      m = map_set sub \<lparr>oe_until = now + ACCOUNT_STATUS_TTL_MS, oe_tenant = tenantId, oe_roles = held\<rparr> m
                  in ((AccountOpen, Some held), m))"

text \<open>The account's state and, while it is open, the roles held; \<open>s\<close> are the tables as they are now.\<close>

definition current :: "auth_db \<Rightarrow> nat \<Rightarrow> nat \<Rightarrow> instant \<Rightarrow> open_map \<Rightarrow> (account_state \<times> role_assignment list option) \<times> open_map" where
  "current s sub tenantId now m =
     (case map_of m sub of
        Some known \<Rightarrow> if now < oe_until known then ((AccountOpen, Some (oe_roles known)), m) else current_read s sub tenantId now m
      | None \<Rightarrow> current_read s sub tenantId now m)"

definition forget :: "nat \<Rightarrow> open_map \<Rightarrow> open_map" where
  "forget userId m = map_delete userId m"

definition forgetTenant :: "nat \<Rightarrow> open_map \<Rightarrow> open_map" where
  "forgetTenant tenantId m = filter (\<lambda>e. oe_tenant (snd e) \<noteq> tenantId) m"

section \<open>API keys\<close>

record api_key =
  ky_id :: nat
  ky_tenant :: nat
  ky_name :: string
  ky_prefix :: string
  ky_hash :: string
  ky_scopes :: "string list"
  ky_branch :: "nat option"
  ky_createdBy :: nat
  ky_lastUsedAt :: "instant option"
  ky_revokedAt :: "instant option"

record key_table =
  kt_keys :: "api_key list"
  kt_branches :: "nat list"
  kt_audit :: "(nat \<times> string \<times> nat) list"
  kt_next :: nat

definition LAST_USED_GRANULARITY_MS :: int where "LAST_USED_GRANULARITY_MS = 60000"

definition hashApiKey :: "auth_env \<Rightarrow> string \<Rightarrow> string" where
  "hashApiKey E rawKey = en_sha256 E rawKey"

text \<open>\<^verbatim>\<open>/^rk_[0-9a-f]{48}$/\<close>\<close>

definition key_format :: "string \<Rightarrow> bool" where
  "key_format k \<longleftrightarrow> take 3 k = ''rk_'' \<and> length k = 51 \<and> list_all (\<lambda>c. is_digit c \<or> CHR ''a'' \<le> c \<and> c \<le> CHR ''f'') (drop 3 k)"

text \<open>\<^verbatim>\<open>/^Bearer\s+(rk_\S*)$/i\<close> of the authorization header, else the trimmed \<^verbatim>\<open>X-API-Key\<close>.\<close>

definition bearer_key :: "string \<Rightarrow> string option" where
  "bearer_key h =
     (let rest = drop 6 h; key = dropWhile is_space rest
      in if js_lower (take 6 h) = ''bearer'' \<and> key \<noteq> rest \<and> js_lower (take 3 key) = ''rk_'' \<and> list_all (\<lambda>c. \<not> is_space c) key
         then Some key else None)"

definition presentedApiKey :: "string option \<Rightarrow> string option \<Rightarrow> string option" where
  "presentedApiKey authorization xApiKey =
     (case bearer_key (the_default [] authorization) of
        Some k \<Rightarrow> Some k
      | None \<Rightarrow> (case map_option js_trim xApiKey of None \<Rightarrow> None | Some h \<Rightarrow> if h = [] then None else Some h))"

definition authenticate :: "auth_env \<Rightarrow> auth_db \<Rightarrow> string \<Rightarrow> string \<Rightarrow> instant \<Rightarrow> key_table \<Rightarrow> (nat \<times> api_key_principal) option \<times> key_table" where
  "authenticate E s tenantId rawKey now k =
     (if \<not> is_uuid tenantId \<or> \<not> key_format rawKey then (None, k)
      else case List.find (\<lambda>t. en_uuid E (tn_id t) = js_lower tenantId) (ax_tenants s) of
        None \<Rightarrow> (None, k)
      | Some t \<Rightarrow>
          if tn_status t \<noteq> Trial \<and> tn_status t \<noteq> Active then (None, k)
          else (case List.find (\<lambda>x. ky_tenant x = tn_id t \<and> ky_hash x = hashApiKey E rawKey \<and> ky_revokedAt x = None) (kt_keys k) of
                  None \<Rightarrow> (None, k)
                | Some key \<Rightarrow>
                    (Some (tn_id t, \<lparr>ak_id = ky_id key, ak_scopes = ky_scopes key, ak_branch = ky_branch key\<rparr>),
                     k\<lparr>kt_keys := map (\<lambda>x. if ky_id x = ky_id key \<and>
                          (case ky_lastUsedAt x of None \<Rightarrow> True | Some u \<Rightarrow> u < now - LAST_USED_GRANULARITY_MS)
                        then x\<lparr>ky_lastUsedAt := Some now\<rparr> else x) (kt_keys k)\<rparr>)))"

definition key_branch :: "key_table \<Rightarrow> nat option \<Rightarrow> unit result" where
  "key_branch k b = (case b of None \<Rightarrow> Inr () | Some i \<Rightarrow> if i \<in> set (kt_branches k) then Inr () else Inl (NotFound NOT_FOUND))"

text \<open>\<open>bytes\<close> is the hexadecimal text of the new key's random bytes; the digest is a unique column.\<close>

definition createApiKey :: "auth_env \<Rightarrow> nat \<Rightarrow> string \<Rightarrow> string list \<Rightarrow> nat option \<Rightarrow> string \<Rightarrow> nat \<Rightarrow> key_table \<Rightarrow> ((api_key \<times> string) \<times> key_table) result" where
  "createApiKey E tenantId name scopes branchId bytes actorId k =
     bindr (key_branch k branchId) (\<lambda>_.
       let rawKey = ''rk_'' @ bytes;
           key = \<lparr>ky_id = kt_next k, ky_tenant = tenantId, ky_name = js_trim name, ky_prefix = take 10 rawKey, ky_hash = hashApiKey E rawKey,
             ky_scopes = js_unique scopes, ky_branch = branchId, ky_createdBy = actorId, ky_lastUsedAt = None, ky_revokedAt = None\<rparr>
       in if ky_hash key \<in> set (map ky_hash (kt_keys k)) then Inl UniqueViolation
          else Inr ((key, rawKey), k\<lparr>kt_keys := kt_keys k @ [key], kt_next := Suc (kt_next k),
                 kt_audit := kt_audit k @ [(actorId, ''api_key.created'', ky_id key)]\<rparr>))"

record key_patch =
  kp_name :: "string option"
  kp_scopes :: "string list option"
  kp_branch :: "nat option option"

definition findKey :: "key_table \<Rightarrow> nat \<Rightarrow> nat \<Rightarrow> api_key option" where
  "findKey k tenantId keyId = List.find (\<lambda>x. ky_id x = keyId \<and> ky_tenant x = tenantId) (kt_keys k)"

definition updateApiKey :: "nat \<Rightarrow> nat \<Rightarrow> key_patch \<Rightarrow> nat \<Rightarrow> key_table \<Rightarrow> (api_key \<times> key_table) result" where
  "updateApiKey tenantId keyId dto actorId k =
     (case findKey k tenantId keyId of
        None \<Rightarrow> Inl (NotFound NOT_FOUND)
      | Some key \<Rightarrow>
          if ky_revokedAt key \<noteq> None then Inl (BadRequest VALIDATION_FAILED)
          else bindr (key_branch k (the_default None (kp_branch dto))) (\<lambda>_.
            let u = key\<lparr>ky_name := the_default (ky_name key) (map_option js_trim (kp_name dto)),
                        ky_scopes := the_default (ky_scopes key) (map_option js_unique (kp_scopes dto)),
                        ky_branch := the_default (ky_branch key) (kp_branch dto)\<rparr>
            in Inr (u, k\<lparr>kt_keys := map (\<lambda>x. if ky_id x = keyId then u else x) (kt_keys k),
                         kt_audit := kt_audit k @ [(actorId, ''api_key.updated'', keyId)]\<rparr>)))"

definition revokeApiKey :: "nat \<Rightarrow> nat \<Rightarrow> nat \<Rightarrow> instant \<Rightarrow> key_table \<Rightarrow> key_table result" where
  "revokeApiKey tenantId keyId actorId now k =
     (case findKey k tenantId keyId of
        None \<Rightarrow> Inl (NotFound NOT_FOUND)
      | Some key \<Rightarrow>
          if ky_revokedAt key \<noteq> None then Inr k
          else Inr (k\<lparr>kt_keys := map (\<lambda>x. if ky_id x = keyId then x\<lparr>ky_revokedAt := Some now\<rparr> else x) (kt_keys k),
                      kt_audit := kt_audit k @ [(actorId, ''api_key.revoked'', keyId)]\<rparr>))"

section \<open>The guard\<close>

record sign_in =
  si_public :: bool
  si_authorization :: "string option"
  si_apiKey :: "string option"
  si_tenantHeader :: "string option"
  si_token :: "jwt option"

definition signInWithApiKey :: "auth_env \<Rightarrow> auth_db \<Rightarrow> string option \<Rightarrow> string \<Rightarrow> instant \<Rightarrow> key_table \<Rightarrow> jwt result \<times> key_table" where
  "signInWithApiKey E s tenantHeader rawKey now k =
     (case tenantHeader of
        None \<Rightarrow> (Inl (BadRequest TENANT_HEADER_MISSING), k)
      | Some tenantId \<Rightarrow>
          if tenantId = [] then (Inl (BadRequest TENANT_HEADER_MISSING), k)
          else (case authenticate E s tenantId rawKey now k of
                  (None, k) \<Rightarrow> (Inl (Unauthorized UNAUTHORIZED), k)
                | (Some (t, key), k) \<Rightarrow> (Inr \<lparr>jw_sub = ak_id key, jw_tenant = t, jw_roles = [], jw_apiKey = Some key\<rparr>, k)))"

text \<open>
  \<^verbatim>\<open>canActivate\<close>: who the request acts as; \<open>Inr None\<close> is a public route. A token that does not verify is refused.
\<close>

definition jwt_canActivate :: "auth_env \<Rightarrow> auth_db \<Rightarrow> sign_in \<Rightarrow> instant \<Rightarrow> open_map \<times> key_table \<Rightarrow> jwt option result \<times> open_map \<times> key_table" where
  "jwt_canActivate E s rq now mk =
     (let (m, k) = mk in
      if si_public rq then (Inr None, m, k)
      else case presentedApiKey (si_authorization rq) (si_apiKey rq) of
        Some rawKey \<Rightarrow> (let (r, k) = signInWithApiKey E s (si_tenantHeader rq) rawKey now k in (bindr r (\<lambda>u. Inr (Some u)), m, k))
      | None \<Rightarrow>
          (case si_token rq of
             None \<Rightarrow> (Inl (Unauthorized UNAUTHORIZED), m, k)
           | Some user \<Rightarrow>
               (let ((state, roles), m) = current s (jw_sub user) (jw_tenant user) now m
                in if state = AccountSuspended then (Inl (Forbidden TENANT_SUSPENDED), m, k)
                   else if state \<noteq> AccountOpen then (Inl (Unauthorized UNAUTHORIZED), m, k)
                   else (Inr (Some (user\<lparr>jw_roles := the_default (jw_roles user) roles\<rparr>)), m, k))))"

section \<open>What a signed-in request rests on\<close>

definition tenantOpen :: "auth_db \<Rightarrow> nat \<Rightarrow> bool" where
  "tenantOpen s tenantId = isTenantOpen (map_option tn_status (List.find (\<lambda>t. tn_id t = tenantId) (ax_tenants s)))"

text \<open>
  The requests a server has seen, each with its time and the tables as they were: \<open>T\<close> gives the
  tenant of every account, which the server's own tokens carry. Accounts and tenants are
  forgotten at any moment, and the keys change at will.
\<close>

inductive access_run :: "auth_env \<Rightarrow> (nat \<Rightarrow> nat) \<Rightarrow> (instant \<times> auth_db) list \<Rightarrow> open_map \<times> key_table \<Rightarrow> bool" for E T where
  start: "access_run E T [] ([], k)"
| asked: "access_run E T seen mk \<Longrightarrow> (\<And>u. si_token rq = Some u \<Longrightarrow> jw_tenant u = T (jw_sub u)) \<Longrightarrow>
    jwt_canActivate E s rq now mk = (r, mk') \<Longrightarrow> access_run E T (seen @ [(now, s)]) mk'"
| forgot: "access_run E T seen (m, k) \<Longrightarrow> access_run E T seen (forget u m, k)"
| forgotTenant: "access_run E T seen (m, k) \<Longrightarrow> access_run E T seen (forgetTenant t m, k)"
| keys: "access_run E T seen (m, k) \<Longrightarrow> access_run E T seen (m, k')"

definition backed :: "(nat \<Rightarrow> nat) \<Rightarrow> (instant \<times> auth_db) list \<Rightarrow> nat \<times> open_entry \<Rightarrow> bool" where
  "backed T seen e \<longleftrightarrow> (\<exists>(t, s) \<in> set seen. oe_until (snd e) = t + ACCOUNT_STATUS_TTL_MS \<and>
     liveUser s (T (fst e)) (fst e) \<noteq> None \<and> tenantOpen s (T (fst e)) \<and> oe_roles (snd e) = loadRolesClaim s (fst e))"

lemma backed_mono: "backed T seen e \<Longrightarrow> backed T (seen @ later_on) e"
  by (auto simp: backed_def)

lemma map_delete_sub: "set (map_delete k m) \<subseteq> set m"
  by (auto simp: map_delete_def)

lemma map_set_sub: "set (map_set k v m) \<subseteq> insert (k, v) (set m)"
  by (auto simp: map_set_def)

lemma current_read_cases:
  assumes "current_read s u t now m = ((st, roles), m')"
  obtains "st \<noteq> AccountOpen" and "set m' \<subseteq> set m"
  | "st = AccountOpen" and "roles = Some (loadRolesClaim s u)" and "liveUser s t u \<noteq> None" and "tenantOpen s t"
    and "set m' \<subseteq> insert (u, \<lparr>oe_until = now + ACCOUNT_STATUS_TTL_MS, oe_tenant = t, oe_roles = loadRolesClaim s u\<rparr>) (set m)"
proof (cases "liveUser s t u = None \<or> \<not> tenantOpen s t")
  case True
  then have "st \<noteq> AccountOpen \<and> m' = map_delete u m"
    using assms by (auto simp: current_read_def tenantOpen_def Let_def split: if_splits)
  then show thesis using that(1) map_delete_sub by simp
next
  case False
  let ?e = "\<lparr>oe_until = now + ACCOUNT_STATUS_TTL_MS, oe_tenant = t, oe_roles = loadRolesClaim s u\<rparr>"
  let ?m = "if SWEEP_ABOVE \<le> length m then sweep now m else m"
  have e: "st = AccountOpen" "roles = Some (loadRolesClaim s u)" "m' = map_set u ?e ?m"
    using assms False by (auto simp: current_read_def tenantOpen_def Let_def)
  have "set ?m \<subseteq> set m" by (auto simp: sweep_def)
  then have "set m' \<subseteq> insert (u, ?e) (set m)" using map_set_sub[of u ?e ?m] e(3) by blast
  with e False show thesis by (intro that(2)) auto
qed

lemma current_backed:
  assumes "current s u (T u) now m = (ans, m')" and "\<forall>e \<in> set m. backed T seen e"
  shows "\<forall>e \<in> set m'. backed T (seen @ [(now, s)]) e"
proof -
  have old: "\<forall>e \<in> set m. backed T (seen @ [(now, s)]) e" using assms(2) backed_mono by blast
  consider "m' = m" | "current_read s u (T u) now m = (ans, m')" using assms(1) by (auto simp: current_def split: option.splits if_splits)
  then show ?thesis
  proof cases
    case 2
    obtain st roles where a: "ans = (st, roles)" by (cases ans)
    from 2[unfolded a] show ?thesis
    proof (cases rule: current_read_cases)
      case 2
      have "backed T (seen @ [(now, s)]) (u, \<lparr>oe_until = now + ACCOUNT_STATUS_TTL_MS, oe_tenant = T u, oe_roles = loadRolesClaim s u\<rparr>)"
        using 2(3,4) by (auto simp: backed_def)
      with 2(5) old show ?thesis by blast
    qed (use old in blast)
  qed (use old in simp)
qed

lemma access_run_backed: "access_run E T seen mk \<Longrightarrow> \<forall>e \<in> set (fst mk). backed T seen e"
proof (induction rule: access_run.induct)
  case (asked seen mk rq s now r mk')
  have old: "\<forall>e \<in> set (fst mk). backed T (seen @ [(now, s)]) e" using asked(4) backed_mono by blast
  consider "fst mk' = fst mk" | u where "si_token rq = Some u" "snd (current s (jw_sub u) (jw_tenant u) now (fst mk)) = fst mk'"
    using asked(3) by (auto simp: jwt_canActivate_def Let_def split_beta split: if_splits option.splits)
  then show ?case
  proof cases
    case (2 u)
    then obtain ans where "current s (jw_sub u) (T (jw_sub u)) now (fst mk) = (ans, fst mk')" using asked(2) by (metis prod.collapse)
    then show ?thesis using current_backed asked(4) by blast
  qed (use old in simp)
qed (auto simp: forget_def map_delete_def forgetTenant_def)

lemma current_open:
  assumes "current s u (T u) now m = ((AccountOpen, roles), m')" and "\<forall>e \<in> set m. backed T seen e"
  shows "\<exists>(t, s') \<in> set ((now, s) # seen). now < t + ACCOUNT_STATUS_TTL_MS \<and> liveUser s' (T u) u \<noteq> None \<and> tenantOpen s' (T u) \<and>
    roles = Some (loadRolesClaim s' u)"
proof -
  consider e where "map_of m u = Some e" "now < oe_until e" "roles = Some (oe_roles e)" | "current_read s u (T u) now m = ((AccountOpen, roles), m')"
    using assms(1) by (auto simp: current_def split: option.splits if_splits)
  then show ?thesis
  proof cases
    case (1 e)
    have "backed T seen (u, e)" using assms(2) map_of_SomeD[OF 1(1)] by blast
    then obtain t s' where "(t, s') \<in> set seen" "oe_until e = t + ACCOUNT_STATUS_TTL_MS" "liveUser s' (T u) u \<noteq> None" "tenantOpen s' (T u)"
      "oe_roles e = loadRolesClaim s' u" by (auto simp: backed_def)
    with 1(2,3) show ?thesis by (intro bexI[of _ "(t, s')"]) auto
  next
    case 2
    then show ?thesis by (cases rule: current_read_cases) (auto simp: ACCOUNT_STATUS_TTL_MS_def)
  qed
qed

lemma signInWithApiKey_Inr:
  assumes "signInWithApiKey E s h rawKey now k = (Inr user, k')"
  shows "\<exists>key \<in> set (kt_keys k). ky_hash key = hashApiKey E rawKey \<and> ky_revokedAt key = None \<and> jw_roles user = [] \<and>
    jw_tenant user = ky_tenant key \<and> jw_apiKey user = Some \<lparr>ak_id = ky_id key, ak_scopes = ky_scopes key, ak_branch = ky_branch key\<rparr> \<and>
    (\<exists>t \<in> set (ax_tenants s). tn_id t = ky_tenant key \<and> tn_status t \<in> {Trial, Active})"
proof -
  from assms obtain tid t key where "authenticate E s tid rawKey now k = (Some (t, key), k')"
    and u: "user = \<lparr>jw_sub = ak_id key, jw_tenant = t, jw_roles = [], jw_apiKey = Some key\<rparr>"
    by (auto simp: signInWithApiKey_def split: option.splits if_splits prod.splits)
  then obtain x y where x: "List.find (\<lambda>t. en_uuid E (tn_id t) = js_lower tid) (ax_tenants s) = Some x" "tn_status x \<in> {Trial, Active}" "t = tn_id x"
    and y: "List.find (\<lambda>z. ky_tenant z = tn_id x \<and> ky_hash z = hashApiKey E rawKey \<and> ky_revokedAt z = None) (kt_keys k) = Some y"
      "key = \<lparr>ak_id = ky_id y, ak_scopes = ky_scopes y, ak_branch = ky_branch y\<rparr>"
    by (auto simp: authenticate_def split: option.splits if_splits)
  from find_Some_mem[OF x(1)] find_Some_mem[OF y(1)] x y(2) u show ?thesis by (intro bexI[of _ y]) auto
qed

text \<open>
  C19. Whoever a request acts as is real and recent. A person signed in by a token has an open account in an
  open organisation, and acts with exactly the roles the tables gave at a reading less than
  thirty seconds old; a key that signs a request in is in the table, not revoked, of an organisation
  open now, and acts with that key's scopes and branch and no roles.
\<close>

theorem signed_in_recently:
  assumes "access_run E T seen (m, k)" and "\<And>u. si_token rq = Some u \<Longrightarrow> jw_tenant u = T (jw_sub u)"
    and "jwt_canActivate E s rq now (m, k) = (Inr (Some user), mk')"
  shows "case presentedApiKey (si_authorization rq) (si_apiKey rq) of
      None \<Rightarrow> \<exists>(t, s') \<in> set ((now, s) # seen). now < t + ACCOUNT_STATUS_TTL_MS \<and> liveUser s' (jw_tenant user) (jw_sub user) \<noteq> None \<and>
        tenantOpen s' (jw_tenant user) \<and> jw_roles user = loadRolesClaim s' (jw_sub user)
    | Some rawKey \<Rightarrow> \<exists>key \<in> set (kt_keys k). ky_hash key = hashApiKey E rawKey \<and> ky_revokedAt key = None \<and> jw_roles user = [] \<and>
        jw_tenant user = ky_tenant key \<and> jw_apiKey user = Some \<lparr>ak_id = ky_id key, ak_scopes = ky_scopes key, ak_branch = ky_branch key\<rparr> \<and>
        (\<exists>t \<in> set (ax_tenants s). tn_id t = ky_tenant key \<and> tn_status t \<in> {Trial, Active})"
proof (cases "presentedApiKey (si_authorization rq) (si_apiKey rq)")
  case None
  with assms(3) obtain u roles m' where u: "si_token rq = Some u" and c: "current s (jw_sub u) (jw_tenant u) now m = ((AccountOpen, roles), m')"
    and user: "user = u\<lparr>jw_roles := the_default (jw_roles u) roles\<rparr>"
    by (auto simp: jwt_canActivate_def Let_def split: if_splits option.splits prod.splits account_state.splits)
  have t: "jw_tenant u = T (jw_sub u)" using assms(2) u by blast
  have b: "\<forall>e \<in> set m. backed T seen e" using access_run_backed[OF assms(1)] by simp
  from current_open[OF c[unfolded t] b] show ?thesis using None user t by fastforce
next
  case (Some rawKey)
  with assms(3) obtain k' where "signInWithApiKey E s (si_tenantHeader rq) rawKey now k = (Inr user, k')"
    by (auto simp: jwt_canActivate_def Let_def bindr_eq_Inr split: if_splits prod.splits)
  from signInWithApiKey_Inr[OF this] Some show ?thesis by simp
qed

section \<open>An example\<close>

text \<open>An account that is switched off between two requests, and what the remembered answer still lets through.\<close>

definition door_env :: auth_env where
  "door_env = \<lparr>en_bhash = (\<lambda>p. p), en_bcompare = (=), en_sha256 = (\<lambda>t. t), en_hmac = (\<lambda>_ _. []), en_encrypt = (\<lambda>t. t), en_decrypt = Inr,
     en_sign = (\<lambda>_ _ _ _. ''''), en_verify = (\<lambda>_ _ _ _. None), en_exp = (\<lambda>_. 0), en_accessTtl = 900, en_refreshTtl = 604800,
     en_uuid = (\<lambda>_. ''''), en_webBase = '''', en_delivers = False, en_accepts = (\<lambda>_. False)\<rparr>"

definition door_db :: auth_db where
  "door_db = \<lparr>ax_tenants = [\<lparr>tn_id = 0, tn_subdomain = ''x'', tn_groupName = ''X'', tn_status = Active, tn_isDemo = False, tn_demoExpiresAt = None\<rparr>],
     ax_roles = [], ax_users = [new_account 1 0 ''a@b.c'' ''pw'' ''Ada'' True], ax_assign = [(1, \<lparr>ra_branch = Some 4, ra_role = ''front_desk''\<rparr>)],
     ax_emailIndex = [], ax_refresh = [], ax_resets = [], ax_mail = [], ax_audit = [], ax_next = 5\<rparr>"

definition door_rq :: sign_in where
  "door_rq = \<lparr>si_public = False, si_authorization = Some ''Bearer x'', si_apiKey = None, si_tenantHeader = None,
     si_token = Some \<lparr>jw_sub = 1, jw_tenant = 0, jw_roles = [\<lparr>ra_branch = None, ra_role = ''owner''\<rparr>], jw_apiKey = None\<rparr>\<rparr>"

definition door_keys :: key_table where
  "door_keys = \<lparr>kt_keys = [], kt_branches = [], kt_audit = [], kt_next = 0\<rparr>"

definition door_first :: "jwt option result \<times> open_map \<times> key_table" where
  "door_first = jwt_canActivate door_env door_db door_rq 0 ([], door_keys)"

definition door_second :: "instant \<Rightarrow> jwt option result \<times> open_map \<times> key_table" where
  "door_second now = jwt_canActivate door_env (setAccountActive 1 False 10000 door_db) door_rq now (snd door_first)"

theorem signed_in_recently_witness:
  "\<exists>user. fst (door_second 20000) = Inr (Some user) \<and> jw_roles user = loadRolesClaim door_db (jw_sub user) \<and>
     fst (door_second 40000) = Inl (Unauthorized UNAUTHORIZED)"
proof -
  have none: "presentedApiKey (si_authorization door_rq) (si_apiKey door_rq) = None" by code_simp
  have tok: "jw_tenant u = (\<lambda>_. 0) (jw_sub u)" if "si_token door_rq = Some u" for u using that by (auto simp: door_rq_def)
  obtain r m k where f: "door_first = (r, m, k)" by (cases door_first)
  have run: "access_run door_env (\<lambda>_. 0) [(0, door_db)] (m, k)"
    using access_run.asked[OF access_run.start tok f[unfolded door_first_def]] by simp
  have "(case fst (door_second 20000) of Inr (Some user) \<Rightarrow> (jw_sub user, jw_tenant user) = (1, 0) | _ \<Rightarrow> False)" by code_simp
  then obtain user mk where u: "door_second 20000 = (Inr (Some user), mk)" "jw_sub user = 1" "jw_tenant user = 0"
    by (cases "door_second 20000") (auto split: sum.splits option.splits)
  have gone: "liveUser (setAccountActive 1 False 10000 door_db) 0 1 = None" by code_simp
  from signed_in_recently[OF run tok u(1)[unfolded door_second_def f snd_conv]] none u(2,3) gone
  have "jw_roles user = loadRolesClaim door_db (jw_sub user)" by simp
  moreover have "fst (door_second 40000) = Inl (Unauthorized UNAUTHORIZED)" by code_simp
  ultimately show ?thesis using u(1) by auto
qed

end
