(* ===== verification/Folio_Rounds.thy ===== *)
theory Folio_Rounds
  imports Folio_Moves
begin

text \<open>
  How long the search of \<^verbatim>\<open>withDependents\<close> runs (\<^verbatim>\<open>src/src/modules/folios/folios.service.ts\<close>).
  Each round of its loop is a query; \<open>dependentsWithin\<close> is the same loop with a budget of
  rounds, which gives up with \<open>None\<close>. Nothing in the schema keeps the links between lines
  from forming a circle; the set of lines seen does.
\<close>

fun dependentsWithin :: "nat \<Rightarrow> line_item list \<Rightarrow> line_item list \<Rightarrow> nat list \<Rightarrow> nat list \<Rightarrow> line_item list option" where
  "dependentsWithin 0 lines result seen frontier = None"
| "dependentsWithin (Suc n) lines result seen frontier =
     (if frontier = [] then Some result
      else let new = newItems seen (filter (hangsOff frontier) lines)
           in dependentsWithin n lines (result @ new) (map li_id new @ seen) (map li_id new))"

abbreviation unseen :: "line_item list \<Rightarrow> nat list \<Rightarrow> nat set" where
  "unseen lines seen \<equiv> li_id ` set lines - set seen"

lemma unseen_less:
  assumes "new = newItems seen (filter (hangsOff frontier) lines)" and "new \<noteq> []"
  shows "card (unseen lines (map li_id new @ seen)) < card (unseen lines seen)"
proof -
  obtain i where i: "i \<in> set new" using assms(2) by (cases new) auto
  then have "i \<in> set lines" "li_id i \<notin> set seen" using newItems_sub assms(1) by fastforce+
  with i have "unseen lines (map li_id new @ seen) \<subset> unseen lines seen" by auto
  then show ?thesis by (intro psubset_card_mono) simp_all
qed

lemma dependentsWithin_enough:
  "card (unseen lines seen) + 2 \<le> n \<Longrightarrow> dependentsWithin n lines result seen frontier = Some (dependentsLoop lines result seen frontier)"
proof (induction n arbitrary: result seen frontier)
  case (Suc n)
  let ?new = "newItems seen (filter (hangsOff frontier) lines)"
  show ?case
  proof (cases "frontier = [] \<or> ?new = []")
    case True
    from Suc.prems obtain m where "n = Suc m" by (cases n) auto
    with True show ?thesis by (auto simp: dependentsLoop.simps[of lines result seen] dependentsLoop.simps[of lines _ _ "[]"])
  next
    case False
    with unseen_less[OF refl, of seen frontier lines] Suc.prems
    have "card (unseen lines (map li_id ?new @ seen)) + 2 \<le> n" by simp
    from Suc.IH[OF this] False show ?thesis by (simp add: dependentsLoop.simps[of lines result seen frontier] Let_def)
  qed
qed simp

text \<open>
  C25. Looking for the lines that hang off a selection ends: with at most two queries more than the bill has
  lines the loop is done and has its answer, whatever the lines refer to, circles included.
\<close>

theorem withDependents_ends:
  "dependentsWithin (length (linesOf d folioId) + 2) (linesOf d folioId) items (js_unique (map li_id items)) (js_unique (map li_id items)) =
     Some (withDependents d folioId items)"
proof -
  have "card (unseen (linesOf d folioId) (js_unique (map li_id items))) \<le> card (li_id ` set (linesOf d folioId))" by (intro card_mono) auto
  also have "\<dots> \<le> length (linesOf d folioId)" by (metis card_length length_map list.set_map)
  finally have "card (unseen (linesOf d folioId) (js_unique (map li_id items))) + 2 \<le> length (linesOf d folioId) + 2" by simp
  from dependentsWithin_enough[OF this] show ?thesis unfolding withDependents_def Let_def .
qed

end
