(* ===== verification/House.thy ===== *)
theory House
  imports Folios
begin

text \<open>
  The tables of the house beside those of the money handlers (\<^verbatim>\<open>src/prisma/schema.prisma\<close>):
  rooms and their blocks, group blocks, overbooking, restrictions and allotments, packages and
  rate plans with the trail of the prices they gave, housekeeping tasks, the records of no-shows
  and walked guests, registration cards, messages queued to guests, notes on guests, and the night audit's log. A
  \<open>house\<close> is a \<open>db\<close> with these tables; every new row's id is drawn from \<open>db_next\<close>.

  Texts nobody computes with (descriptions, the body of a message, the fields of a card) and
  time stamps nobody reads are not kept.
\<close>

section \<open>Rows\<close>

datatype occupancy_status = Vacant | Occupied
datatype cleanliness_status = Dirty | Cleaning | Clean | Inspected
datatype held_status = Out_of_order | Held_blocked
datatype block_reason = Maintenance | Renovation | Vip_hold | Other_reason
datatype group_status = Active | Released | Block_cancelled
datatype rate_type = Base | Seasonal | Weekend | Corporate | Negotiated | Promotional
datatype hk_status = Task_pending | In_progress | Done | Skipped
datatype audit_status = Running | Completed | Failed

record building =
  bu_id :: nat
  bu_branch :: nat
  bu_name :: "string option"

record floor_row =
  fl_id :: nat
  fl_building :: nat
  fl_number :: int
  fl_label :: "string option"

record room =
  rm_id :: nat
  rm_branch :: nat
  rm_roomType :: nat
  rm_floor :: nat
  rm_number :: string
  rm_occupancy :: occupancy_status
  rm_cleanliness :: cleanliness_status
  rm_held :: "held_status option"
  rm_heldUntil :: "instant option"
  rm_view :: "string option"
  rm_notes :: "string option"
  rm_statusBy :: "nat option"
  rm_deleted :: bool

record room_block =
  rb_id :: nat
  rb_room :: nat
  rb_reason :: block_reason
  rb_from :: instant
  rb_to :: instant
  rb_createdBy :: "nat option"

record group_block =
  gb_id :: nat
  gb_branch :: nat
  gb_roomType :: nat
  gb_name :: string
  gb_size :: int
  gb_rate :: rat
  gb_cutoff :: instant
  gb_status :: group_status
  gb_arrival :: "instant option"
  gb_departure :: "instant option"
  gb_contactName :: "string option"

record overbooking_config =
  oc_id :: nat
  oc_branch :: nat
  oc_roomType :: "nat option"
  oc_enabled :: bool
  oc_maxPct :: "rat option"
  oc_alertPct :: "rat option"
  oc_validFrom :: "instant option"
  oc_validTo :: "instant option"

record restriction =
  rs_id :: nat
  rs_branch :: nat
  rs_roomType :: "nat option"
  rs_start :: instant
  rs_end :: instant
  rs_minLOS :: "int option"
  rs_maxLOS :: "int option"
  rs_closedToArrival :: bool
  rs_stopSell :: bool

record allotment =
  al_id :: nat
  al_branch :: nat
  al_roomType :: nat
  al_channel :: reservation_channel
  al_from :: instant
  al_to :: instant
  al_rooms :: int

record package_row =
  pkg_id :: nat
  pkg_branch :: nat
  pkg_name :: string
  pkg_price :: rat
  pkg_basis :: package_basis
  pkg_chargeType :: charge_type
  pkg_roomTypes :: "nat list"
  pkg_showOnline :: bool
  pkg_isActive :: bool
  pkg_deleted :: bool

record rate_plan =
  rp_id :: nat
  rp_branch :: nat
  rp_roomType :: "nat option"
  rp_name :: string
  rp_type :: rate_type
  rp_amount :: rat
  rp_adjustment :: "adjustment_type option"
  rp_tier :: int
  rp_isOverride :: bool
  rp_validFrom :: "instant option"
  rp_validTo :: "instant option"
  rp_minLOS :: "int option"
  rp_promoCode :: "string option"
  rp_isActive :: bool
  rp_createdAt :: instant

text \<open>A row of the resolver's trail: the night it priced, and the price.\<close>

record rate_log =
  rl_id :: nat
  rl_branch :: nat
  rl_reservation :: "nat option"
  rl_roomType :: nat
  rl_night :: day
  rl_rate :: rat
  rl_trigger :: string
  rl_user :: "nat option"

record no_show_record =
  ns_id :: nat
  ns_reservation :: nat
  ns_penaltyType :: penalty_type
  ns_penaltyAmount :: "rat option"
  ns_waived :: bool
  ns_waivedBy :: "nat option"
  ns_refundAmount :: "rat option"
  ns_markedBy :: "nat option"
  ns_penaltyLine :: "nat option"

record walk_record =
  wr_id :: nat
  wr_reservation :: nat
  wr_property :: string
  wr_transport :: bool
  wr_transportCost :: "rat option"
  wr_compensation :: "string option"
  wr_approvedBy :: "nat option"

record hk_task =
  hk_id :: nat
  hk_branch :: nat
  hk_room :: nat
  hk_assignee :: "nat option"
  hk_date :: instant
  hk_status :: hk_status
  hk_priority :: "int option"
  hk_trigger :: "string option"
  hk_reservation :: "nat option"
  hk_completedBy :: "nat option"

record audit_log =
  na_id :: nat
  na_branch :: nat
  na_date :: instant
  na_triggeredBy :: "nat option"
  na_triggeredAt :: instant
  na_status :: audit_status
  na_foliosProcessed :: nat
  na_chargesPosted :: nat
  na_totalPosted :: rat
  na_errors :: "nat list"

record house =
  ho_db :: db
  ho_buildings :: "building list"
  ho_floors :: "floor_row list"
  ho_rooms :: "room list"
  ho_blocks :: "room_block list"
  ho_groups :: "group_block list"
  ho_overbooking :: "overbooking_config list"
  ho_restrictions :: "restriction list"
  ho_allotments :: "allotment list"
  ho_packages :: "package_row list"
  ho_plans :: "rate_plan list"
  ho_rateLog :: "rate_log list"
  ho_noShows :: "no_show_record list"
  ho_walks :: "walk_record list"
  ho_tasks :: "hk_task list"
  ho_cards :: "nat list"
  ho_mails :: "(nat \<times> string) list"
  ho_notes :: "nat list"
  ho_audits :: "audit_log list"
  ho_staff :: "(nat \<times> nat option) list"
  ho_seq :: nat

abbreviation ho_stays :: "house \<Rightarrow> reservation list" where
  "ho_stays h \<equiv> db_reservations (ho_db h)"

section \<open>Working on the money tables\<close>

definition fresh :: "house \<Rightarrow> nat" where
  "fresh h = db_next (ho_db h)"

definition bump :: "house \<Rightarrow> house" where
  "bump h = ho_db_update (\<lambda>d. d\<lparr>db_next := Suc (db_next d)\<rparr>) h"

definition on_db :: "(db \<Rightarrow> ('a \<times> db) result) \<Rightarrow> house \<Rightarrow> ('a \<times> house) result" where
  "on_db f h = bindr (f (ho_db h)) (\<lambda>(x, d). Inr (x, h\<lparr>ho_db := d\<rparr>))"

definition log_action :: "nat \<Rightarrow> nat option \<Rightarrow> string \<Rightarrow> nat \<Rightarrow> house \<Rightarrow> house" where
  "log_action b u action e h = h\<lparr>ho_db := audit b u action e (ho_db h)\<rparr>"

text \<open>An action of the whole organisation, logged at no branch.\<close>

definition log_tenant :: "nat option \<Rightarrow> string \<Rightarrow> nat \<Rightarrow> house \<Rightarrow> house" where
  "log_tenant u action e h = ho_db_update (\<lambda>d. d\<lparr>db_audit := db_audit d @ [\<lparr>au_branch = None, au_user = u, au_action = action, au_entity = e\<rparr>]\<rparr>) h"

text \<open>\<^verbatim>\<open>propertyService.assertBranch\<close> and \<^verbatim>\<open>assertRoomType\<close>\<close>

definition branchOf :: "house \<Rightarrow> nat \<Rightarrow> branch result" where
  "branchOf h b = assertBranch (ho_db h) b"

definition assertRoomType :: "house \<Rightarrow> nat \<Rightarrow> nat \<Rightarrow> room_type result" where
  "assertRoomType h b rt =
     (case List.find (\<lambda>x. rt_id x = rt \<and> rt_branch x = b \<and> \<not> rt_deleted x) (db_roomTypes (ho_db h)) of
        None \<Rightarrow> Inl (NotFound NOT_FOUND) | Some x \<Rightarrow> Inr x)"

definition branchToday :: "tz_offset \<Rightarrow> branch \<Rightarrow> instant \<Rightarrow> instant" where
  "branchToday tzo br now = toBranchDate (todayInTimezone tzo (br_timezone br) now)"

text \<open>A message to the guest, as \<^verbatim>\<open>logAutomatedInTx\<close> queues it: the stay and what caused it.\<close>

definition mail :: "nat \<Rightarrow> string \<Rightarrow> house \<Rightarrow> house" where
  "mail r trigger h = h\<lparr>ho_mails := ho_mails h @ [(r, trigger)]\<rparr>"

text \<open>The private \<^verbatim>\<open>audit\<close> of \<^verbatim>\<open>reservations.service.ts\<close>, with the events a stay's change is (\<^verbatim>\<open>RESERVATION_ACTION_EVENTS\<close>).\<close>

definition RESERVATION_ACTION_EVENTS :: "string \<Rightarrow> string list" where
  "RESERVATION_ACTION_EVENTS action =
     the_default [] (map_of
       [(''reservation.created'', [''reservation.created'']),
        (''reservation.walk_in'', [''reservation.created'', ''reservation.checked_in'']),
        (''reservation.checked_in'', [''reservation.checked_in'']),
        (''reservation.checked_out'', [''reservation.checked_out'']),
        (''reservation.cancelled'', [''reservation.cancelled'']),
        (''reservation.no_show'', [''reservation.no_show'']),
        (''reservation.reinstated'', [''reservation.updated'']),
        (''reservation.modified'', [''reservation.updated'']),
        (''reservation.extended'', [''reservation.updated'']),
        (''reservation.rate_overridden'', [''reservation.updated'']),
        (''reservation.promoted'', [''reservation.updated'']),
        (''reservation.walked'', [''reservation.walked'']),
        (''reservation.room_moved'', [''reservation.room_moved''])] action)"

definition stayAudit :: "nat \<Rightarrow> nat option \<Rightarrow> string \<Rightarrow> nat \<Rightarrow> house \<Rightarrow> house" where
  "stayAudit b u action r h =
     (let h = log_action b u action r h
      in ho_db_update (\<lambda>d. d\<lparr>db_webhooks := db_webhooks d @ map (\<lambda>e. (e, r)) (RESERVATION_ACTION_EVENTS action)\<rparr>) h)"

section \<open>What these leave alone\<close>

lemma bump_sel [row_simps, simp]:
  "ho_rooms (bump h) = ho_rooms h" "ho_blocks (bump h) = ho_blocks h" "ho_groups (bump h) = ho_groups h"
  "ho_overbooking (bump h) = ho_overbooking h" "ho_restrictions (bump h) = ho_restrictions h"
  "ho_allotments (bump h) = ho_allotments h" "ho_tasks (bump h) = ho_tasks h" "ho_noShows (bump h) = ho_noShows h"
  "ho_rateLog (bump h) = ho_rateLog h" "ho_plans (bump h) = ho_plans h" "ho_packages (bump h) = ho_packages h"
  "ho_audits (bump h) = ho_audits h" "ho_seq (bump h) = ho_seq h" "ho_cards (bump h) = ho_cards h" "ho_mails (bump h) = ho_mails h"
  "db_reservations (ho_db (bump h)) = ho_stays h" "db_branches (ho_db (bump h)) = db_branches (ho_db h)"
  "db_roomTypes (ho_db (bump h)) = db_roomTypes (ho_db h)" "db_folios (ho_db (bump h)) = db_folios (ho_db h)"
  "db_lines (ho_db (bump h)) = db_lines (ho_db h)" "db_payments (ho_db (bump h)) = db_payments (ho_db h)"
  "db_taxRules (ho_db (bump h)) = db_taxRules (ho_db h)" "db_next (ho_db (bump h)) = Suc (fresh h)"
  by (simp_all add: bump_def fresh_def)

lemma log_action_sel [row_simps, simp]:
  "ho_rooms (log_action b u a e h) = ho_rooms h" "ho_blocks (log_action b u a e h) = ho_blocks h" "ho_groups (log_action b u a e h) = ho_groups h"
  "ho_overbooking (log_action b u a e h) = ho_overbooking h" "ho_restrictions (log_action b u a e h) = ho_restrictions h"
  "ho_allotments (log_action b u a e h) = ho_allotments h" "ho_tasks (log_action b u a e h) = ho_tasks h" "ho_noShows (log_action b u a e h) = ho_noShows h"
  "ho_rateLog (log_action b u a e h) = ho_rateLog h" "ho_plans (log_action b u a e h) = ho_plans h" "ho_packages (log_action b u a e h) = ho_packages h"
  "ho_audits (log_action b u a e h) = ho_audits h" "ho_seq (log_action b u a e h) = ho_seq h" "ho_cards (log_action b u a e h) = ho_cards h"
  "ho_mails (log_action b u a e h) = ho_mails h"
  "db_reservations (ho_db (log_action b u a e h)) = ho_stays h" "db_branches (ho_db (log_action b u a e h)) = db_branches (ho_db h)"
  "db_roomTypes (ho_db (log_action b u a e h)) = db_roomTypes (ho_db h)" "db_folios (ho_db (log_action b u a e h)) = db_folios (ho_db h)"
  "db_lines (ho_db (log_action b u a e h)) = db_lines (ho_db h)" "db_payments (ho_db (log_action b u a e h)) = db_payments (ho_db h)"
  "db_taxRules (ho_db (log_action b u a e h)) = db_taxRules (ho_db h)" "db_next (ho_db (log_action b u a e h)) = db_next (ho_db h)"
  "fresh (log_action b u a e h) = fresh h"
  by (simp_all add: log_action_def fresh_def)

lemma stayAudit_sel [row_simps, simp]:
  "ho_rooms (stayAudit b u a e h) = ho_rooms h" "ho_blocks (stayAudit b u a e h) = ho_blocks h" "ho_groups (stayAudit b u a e h) = ho_groups h"
  "ho_overbooking (stayAudit b u a e h) = ho_overbooking h" "ho_restrictions (stayAudit b u a e h) = ho_restrictions h"
  "ho_allotments (stayAudit b u a e h) = ho_allotments h" "ho_tasks (stayAudit b u a e h) = ho_tasks h" "ho_noShows (stayAudit b u a e h) = ho_noShows h"
  "ho_audits (stayAudit b u a e h) = ho_audits h" "ho_seq (stayAudit b u a e h) = ho_seq h"
  "db_reservations (ho_db (stayAudit b u a e h)) = ho_stays h" "db_branches (ho_db (stayAudit b u a e h)) = db_branches (ho_db h)"
  "db_roomTypes (ho_db (stayAudit b u a e h)) = db_roomTypes (ho_db h)" "db_folios (ho_db (stayAudit b u a e h)) = db_folios (ho_db h)"
  "db_lines (ho_db (stayAudit b u a e h)) = db_lines (ho_db h)" "db_payments (ho_db (stayAudit b u a e h)) = db_payments (ho_db h)"
  "db_next (ho_db (stayAudit b u a e h)) = db_next (ho_db h)"
  by (simp_all add: stayAudit_def Let_def)

lemma mail_sel [row_simps, simp]:
  "ho_db (mail r t h) = ho_db h" "ho_rooms (mail r t h) = ho_rooms h" "ho_blocks (mail r t h) = ho_blocks h" "ho_groups (mail r t h) = ho_groups h"
  "ho_overbooking (mail r t h) = ho_overbooking h" "ho_restrictions (mail r t h) = ho_restrictions h"
  "ho_allotments (mail r t h) = ho_allotments h" "ho_tasks (mail r t h) = ho_tasks h" "ho_noShows (mail r t h) = ho_noShows h"
  "ho_audits (mail r t h) = ho_audits h" "ho_seq (mail r t h) = ho_seq h"
  by (simp_all add: mail_def)

lemma on_db_Inr: "on_db f h = Inr (x, h') \<longleftrightarrow> (\<exists>d. f (ho_db h) = Inr (x, d) \<and> h' = h\<lparr>ho_db := d\<rparr>)"
  by (auto simp: on_db_def res_simps split: prod.splits)

end
