(* ===== verification/Rates.thy ===== *)
theory Rates
  imports House "HOL-Library.Multiset"
begin

text \<open>
  What a stay costs (\<^verbatim>\<open>rate-resolver/rate-resolver.service.ts\<close>, \<^verbatim>\<open>rate-resolver/packages.service.ts\<close>):
  the upkeep of rate plans and packages, the price of one night
  under the plans in force, and the price of a whole stay with its trail.

  A night is priced by a negotiated plan the guest's company has, or by the promotional plan of
  the code given, or by the cascade: the room type's base rate adjusted by one plan of each tier,
  the tiers in order. The order in which the database returns plans is the order of the table.
\<close>

section \<open>Weekends and extra guests\<close>

definition DEFAULT_WEEKEND_NIGHTS :: "int list" where
  "DEFAULT_WEEKEND_NIGHTS = [5, 6]"

definition weekendNightsFor :: "json option \<Rightarrow> int list" where
  "weekendNightsFor policies =
     (case jget (jfields policies) ''weekendNights'' of
        Some (JArr raw) \<Rightarrow>
          (let days = List.map_filter (\<lambda>v. case v of JNum n \<Rightarrow> if of_int \<lfloor>n\<rfloor> = n \<and> 0 \<le> n \<and> n \<le> 6 then Some \<lfloor>n\<rfloor> else None | _ \<Rightarrow> None) raw
           in if days \<noteq> [] then js_unique days else DEFAULT_WEEKEND_NIGHTS)
      | _ \<Rightarrow> DEFAULT_WEEKEND_NIGHTS)"

text \<open>\<^verbatim>\<open>getUTCDay\<close>: the first of January 1970 was a Thursday.\<close>

definition utcDay :: "instant \<Rightarrow> int" where
  "utcDay t = (day_key t + 4) mod 7"

definition occupancySurcharge :: "room_type \<Rightarrow> (int \<times> int) option \<Rightarrow> rat" where
  "occupancySurcharge rt occupancy =
     (case occupancy of
        None \<Rightarrow> 0
      | Some (adults, children) \<Rightarrow>
          (let extraAdults = (if rt_adultsIncluded rt = None \<or> rt_extraAdultRate rt = None then 0
                              else max 0 (adults - the_default 0 (rt_adultsIncluded rt)));
               extraChildren = (if rt_childRate rt = None then 0 else max 0 (children - rt_childrenIncluded rt))
           in the_default 0 (rt_extraAdultRate rt) * of_int extraAdults + the_default 0 (rt_childRate rt) * of_int extraChildren))"

section \<open>Rate plans\<close>

definition CASCADE_TIER_BY_TYPE :: "rate_type \<Rightarrow> int" where
  "CASCADE_TIER_BY_TYPE t = (case t of Base \<Rightarrow> 1 | Seasonal \<Rightarrow> 2 | Weekend \<Rightarrow> 3 | Corporate \<Rightarrow> 4 | _ \<Rightarrow> 0)"

definition OVERRIDE_TYPES :: "rate_type set" where
  "OVERRIDE_TYPES = {Negotiated, Promotional}"

definition MAX_STAY_NIGHTS :: int where
  "MAX_STAY_NIGHTS = 92"

record rate_plan_dto =
  rq_roomType :: "nat option"
  rq_name :: string
  rq_type :: rate_type
  rq_amount :: rat
  rq_adjustment :: "adjustment_type option"
  rq_validFrom :: "day option"
  rq_validTo :: "day option"
  rq_minLOS :: "int option"
  rq_promoCode :: "string option"

definition no_text :: "string option \<Rightarrow> bool" where
  "no_text t \<longleftrightarrow> t = None \<or> t = Some []"

definition createRatePlan :: "nat \<Rightarrow> rate_plan_dto \<Rightarrow> instant \<Rightarrow> house \<Rightarrow> (rate_plan \<times> house) result" where
  "createRatePlan branchId dto now h =
     bindr (branchOf h branchId) (\<lambda>_.
     bindr (case rq_roomType dto of None \<Rightarrow> Inr () | Some rt \<Rightarrow> bindr (assertRoomType h branchId rt) (\<lambda>_. Inr ())) (\<lambda>_.
     let isOverride = rq_type dto \<in> OVERRIDE_TYPES;
         bad = Inl (BadRequest VALIDATION_FAILED)
     in if isOverride \<and> rq_adjustment dto \<noteq> None then bad
     else if \<not> isOverride \<and> rq_adjustment dto = None then bad
     else if rq_type dto = Promotional \<and> no_text (rq_promoCode dto) then bad
     else if isOverride \<and> rq_amount dto \<le> 0 then bad
     else if rq_adjustment dto = Some Percentage \<and> (rq_amount dto \<le> - 100 \<or> rq_amount dto > 1000) then bad
     else if (case (rq_validFrom dto, rq_validTo dto) of (Some f, Some t) \<Rightarrow> t < f | _ \<Rightarrow> False) then bad
     else let row = \<lparr>rp_id = fresh h, rp_branch = branchId, rp_roomType = rq_roomType dto, rp_name = rq_name dto, rp_type = rq_type dto,
                rp_amount = num2 (rq_amount dto), rp_adjustment = (if isOverride then None else rq_adjustment dto),
                rp_tier = CASCADE_TIER_BY_TYPE (rq_type dto), rp_isOverride = isOverride,
                rp_validFrom = map_option toBranchDate (rq_validFrom dto), rp_validTo = map_option toBranchDate (rq_validTo dto),
                rp_minLOS = rq_minLOS dto, rp_promoCode = (if rq_type dto = Promotional then rq_promoCode dto else None),
                rp_isActive = True, rp_createdAt = now\<rparr>
          in Inr (row, (bump h)\<lparr>ho_plans := ho_plans h @ [row]\<rparr>)))"

definition updateRatePlan :: "nat \<Rightarrow> bool option \<Rightarrow> house \<Rightarrow> (rate_plan \<times> house) result" where
  "updateRatePlan planId isActive h =
     (case List.find (\<lambda>p. rp_id p = planId) (ho_plans h) of
        None \<Rightarrow> Inl (NotFound NOT_FOUND)
      | Some plan \<Rightarrow>
          (let upd = (\<lambda>p. case isActive of None \<Rightarrow> p | Some b \<Rightarrow> p\<lparr>rp_isActive := b\<rparr>)
           in Inr (upd plan, h\<lparr>ho_plans := map (\<lambda>p. if rp_id p = planId then upd p else p) (ho_plans h)\<rparr>)))"

definition listRatePlans :: "nat \<Rightarrow> house \<Rightarrow> rate_plan list result" where
  "listRatePlans branchId h =
     bindr (branchOf h branchId) (\<lambda>_.
       Inr (sort_key rp_tier (sort_key rp_name (filter (\<lambda>p. rp_branch p = branchId) (ho_plans h)))))"

section \<open>The price of a night\<close>

record cascade_step =
  cs_tier :: int
  cs_plan :: nat
  cs_before :: rat
  cs_adjustment :: rat
  cs_after :: rat

record night_resolution =
  nr_night :: instant
  nr_rate :: rat
  nr_isOverride :: bool
  nr_overridePlan :: "nat option"
  nr_cascade :: "cascade_step list"

definition applicable :: "int list \<Rightarrow> instant \<Rightarrow> rate_plan \<Rightarrow> bool" where
  "applicable weekendNights date p \<longleftrightarrow>
     (case rp_validFrom p of None \<Rightarrow> True | Some f \<Rightarrow> f \<le> date) \<and> (case rp_validTo p of None \<Rightarrow> True | Some t \<Rightarrow> date \<le> t) \<and>
     (rp_type p \<noteq> Weekend \<or> utcDay date \<in> set weekendNights)"

text \<open>The loop that keeps one plan a tier: \<open>beats plan existing\<close> is its test, \<open>byTier\<close> its map.\<close>

definition beats :: "rate_plan \<Rightarrow> rate_plan \<Rightarrow> bool" where
  "beats plan existing \<longleftrightarrow>
     (rp_roomType plan \<noteq> None \<and> rp_roomType existing = None) \<or>
     ((rp_roomType plan \<noteq> None) = (rp_roomType existing \<noteq> None) \<and> rp_createdAt plan > rp_createdAt existing)"

fun putTier :: "rate_plan \<Rightarrow> rate_plan list \<Rightarrow> rate_plan list" where
  "putTier plan [] = [plan]"
| "putTier plan (e # es) = (if rp_tier e = rp_tier plan then (if beats plan e then plan else e) # es else e # putTier plan es)"

definition byTier :: "rate_plan list \<Rightarrow> rate_plan list" where
  "byTier plans = foldl (\<lambda>m p. putTier p m) [] plans"

fun cascadeFrom :: "decimal_lib \<Rightarrow> rat \<Rightarrow> rate_plan list \<Rightarrow> rat \<times> cascade_step list" where
  "cascadeFrom D running [] = (running, [])"
| "cascadeFrom D running (plan # plans) =
     (let adjustment = (if rp_adjustment plan = Some Percentage then d_dp2 D (d_div D (running * rp_amount plan) 100) else rp_amount plan);
          after = d_dp2 D (running + adjustment);
          (final, steps) = cascadeFrom D after plans
      in (final, \<lparr>cs_tier = rp_tier plan, cs_plan = rp_id plan, cs_before = running, cs_adjustment = adjustment, cs_after = after\<rparr> # steps))"

definition negotiatedFor :: "nat option \<Rightarrow> rate_plan list \<Rightarrow> rate_plan option" where
  "negotiatedFor corporatePlan plans =
     (case corporatePlan of None \<Rightarrow> None | Some c \<Rightarrow> List.find (\<lambda>p. rp_type p = Negotiated \<and> rp_id p = c) plans)"

definition promotionalFor :: "string option \<Rightarrow> rate_plan list \<Rightarrow> rate_plan option" where
  "promotionalFor promoCode plans =
     (if no_text promoCode then None else List.find (\<lambda>p. rp_type p = Promotional \<and> rp_promoCode p = promoCode) plans)"

definition resolveNight ::
  "decimal_lib \<Rightarrow> room_type \<Rightarrow> rate_plan list \<Rightarrow> string option \<Rightarrow> nat option \<Rightarrow> int list \<Rightarrow> instant \<Rightarrow> night_resolution" where
  "resolveNight D rt plans promoCode corporatePlan weekendNights date =
     (let app = filter (applicable weekendNights date) plans;
          overridePlans = filter rp_isOverride app;
          winner = (case negotiatedFor corporatePlan overridePlans of Some p \<Rightarrow> Some p | None \<Rightarrow> promotionalFor promoCode overridePlans)
      in case winner of
           Some p \<Rightarrow> \<lparr>nr_night = date, nr_rate = rp_amount p, nr_isOverride = True, nr_overridePlan = Some (rp_id p), nr_cascade = []\<rparr>
         | None \<Rightarrow>
             (let applied = sort_key rp_tier (byTier (filter (\<lambda>p. \<not> rp_isOverride p) app));
                  (final, steps) = cascadeFrom D (rt_baseRate rt) applied
              in \<lparr>nr_night = date, nr_rate = final, nr_isOverride = False, nr_overridePlan = None, nr_cascade = steps\<rparr>))"

section \<open>The price of a stay\<close>

record deal =
  dl_promoCode :: "string option"
  dl_corporate :: "nat option"
  dl_occupancy :: "(int \<times> int) option"

record priced_night =
  pn_date :: day
  pn_rate :: string
  pn_isOverride :: bool
  pn_plan :: "nat option"

record stay_resolution =
  sr_nightlyRate :: rat
  sr_subtotal :: rat
  sr_taxTotal :: rat
  sr_taxIncluded :: rat
  sr_totalWithTax :: rat
  sr_surcharge :: rat
  sr_ratePlan :: "nat option"
  sr_perNight :: "priced_night list"
  sr_logIds :: "nat list"

definition planOf :: "night_resolution \<Rightarrow> nat option" where
  "planOf n = (case nr_overridePlan n of Some p \<Rightarrow> Some p | None \<Rightarrow> map_option cs_plan (last_opt (nr_cascade n)))"

text \<open>The company of the deal, when it is an active account, and the plan it has agreed.\<close>

definition companyOf :: "house \<Rightarrow> deal \<Rightarrow> corporate_account option" where
  "companyOf h opts =
     (case dl_corporate opts of None \<Rightarrow> None | Some c \<Rightarrow> List.find (\<lambda>a. ca_id a = c \<and> ca_isActive a) (db_corporate (ho_db h)))"

definition eligiblePlans :: "house \<Rightarrow> nat \<Rightarrow> nat \<Rightarrow> instant \<Rightarrow> instant \<Rightarrow> bool \<Rightarrow> rate_plan list" where
  "eligiblePlans h branchId roomTypeId checkIn checkOut isCorporate =
     filter (\<lambda>p. isCorporate \<or> rp_type p \<noteq> Corporate)
       (filter (\<lambda>p. rp_branch p = branchId \<and> rp_isActive p \<and> (rp_roomType p = Some roomTypeId \<or> rp_roomType p = None) \<and>
            (case rp_validFrom p of None \<Rightarrow> True | Some f \<Rightarrow> f \<le> checkOut) \<and> (case rp_validTo p of None \<Rightarrow> True | Some t \<Rightarrow> checkIn \<le> t) \<and>
            (case rp_minLOS p of None \<Rightarrow> True | Some n \<Rightarrow> n \<le> round_days (checkOut - checkIn))) (ho_plans h))"

definition stayNightsPriced :: "decimal_lib \<Rightarrow> house \<Rightarrow> nat \<Rightarrow> room_type \<Rightarrow> instant \<Rightarrow> instant \<Rightarrow> deal \<Rightarrow> night_resolution list" where
  "stayNightsPriced D h branchId rt checkIn checkOut opts =
     (let company = companyOf h opts;
          eligible = eligiblePlans h branchId (rt_id rt) checkIn checkOut (company \<noteq> None);
          branch = List.find (\<lambda>b. br_id b = branchId) (db_branches (ho_db h));
          weekendNights = weekendNightsFor (case branch of None \<Rightarrow> None | Some b \<Rightarrow> br_policies b);
          surcharge = occupancySurcharge rt (dl_occupancy opts);
          corporatePlan = (case company of None \<Rightarrow> None | Some a \<Rightarrow> ca_ratePlan a)
      in map (\<lambda>date. let night = resolveNight D rt eligible (dl_promoCode opts) corporatePlan weekendNights date
                     in if surcharge = 0 then night else night\<lparr>nr_rate := nr_rate night + surcharge\<rparr>)
           (enumerateNights checkIn checkOut))"

fun writeRateLog :: "nat \<Rightarrow> nat option \<Rightarrow> nat \<Rightarrow> string \<Rightarrow> nat option \<Rightarrow> night_resolution list \<Rightarrow> house \<Rightarrow> nat list \<times> house" where
  "writeRateLog b r rt trigger user [] h = ([], h)"
| "writeRateLog b r rt trigger user (n # ns) h =
     (let row = \<lparr>rl_id = fresh h, rl_branch = b, rl_reservation = r, rl_roomType = rt, rl_night = day_key (nr_night n), rl_rate = nr_rate n,
            rl_trigger = trigger, rl_user = user\<rparr>;
          (ids, h') = writeRateLog b r rt trigger user ns ((bump h)\<lparr>ho_rateLog := ho_rateLog h @ [row]\<rparr>)
      in (fresh h # ids, h'))"

record resolve_context =
  rc_trigger :: string
  rc_user :: "nat option"
  rc_reservation :: "nat option"
  rc_persist :: bool

definition resolveStay ::
  "decimal_lib \<Rightarrow> nat \<Rightarrow> room_type \<Rightarrow> instant \<Rightarrow> instant \<Rightarrow> deal \<Rightarrow> resolve_context \<Rightarrow> house \<Rightarrow> (stay_resolution \<times> house) result" where
  "resolveStay D branchId rt checkIn checkOut opts ctx h =
     (let stayLength = round_days (checkOut - checkIn)
      in if stayLength > MAX_STAY_NIGHTS then Inl (BadRequest VALIDATION_FAILED)
      else let perNight = stayNightsPriced D h branchId rt checkIn checkOut opts
      in if \<exists>n \<in> set perNight. nr_rate n \<le> 0 then Inl (BadRequest VALIDATION_FAILED)
      else let (ids, h') = (if rc_persist ctx then writeRateLog branchId (rc_reservation ctx) (rt_id rt) (rc_trigger ctx) (rc_user ctx) perNight h else ([], h));
               subtotal = sum_list (map nr_rate perNight)
      in bindr (priceCharge D (db_taxRules (ho_db h)) branchId Room subtotal (int (length perNight))) (\<lambda>priced.
         Inr (\<lparr>sr_nightlyRate = (if stayLength \<noteq> 0 then d_dp2 D (d_div D subtotal (of_int stayLength)) else 0),
               sr_subtotal = subtotal, sr_taxTotal = pc_addedTax priced, sr_taxIncluded = pc_includedTax priced, sr_totalWithTax = pc_total priced,
               sr_surcharge = occupancySurcharge rt (dl_occupancy opts),
               sr_ratePlan = (case perNight of [] \<Rightarrow> None | n # _ \<Rightarrow> planOf n),
               sr_perNight = map (\<lambda>n. \<lparr>pn_date = day_key (nr_night n), pn_rate = d_toFixed2 D (nr_rate n), pn_isOverride = nr_isOverride n, pn_plan = planOf n\<rparr>) perNight,
               sr_logIds = ids\<rparr>, h')))"

text \<open>\<^verbatim>\<open>nightlyRatesOf\<close> of \<^verbatim>\<open>reservations.service.ts\<close>: each night's price as the stay keeps it.\<close>

definition nightlyRatesOf :: "stay_resolution \<Rightarrow> nightly_json" where
  "nightlyRatesOf resolved = Some (map (\<lambda>n. (Some (pn_date n), Some (JStr (pn_rate n)))) (sr_perNight resolved))"

definition linkAuditLogsToReservation :: "nat list \<Rightarrow> nat \<Rightarrow> house \<Rightarrow> house" where
  "linkAuditLogsToReservation ids r h =
     (if ids = [] then h
      else h\<lparr>ho_rateLog := map (\<lambda>l. if rl_id l \<in> set ids then l\<lparr>rl_reservation := Some r\<rparr> else l) (ho_rateLog h)\<rparr>)"

record quote_dto =
  qu_roomType :: nat
  qu_checkIn :: day
  qu_checkOut :: day
  qu_promoCode :: "string option"
  qu_corporate :: "nat option"
  qu_adults :: "int option"
  qu_children :: "int option"

definition calculateQuote :: "decimal_lib \<Rightarrow> nat \<Rightarrow> quote_dto \<Rightarrow> nat option \<Rightarrow> bool \<Rightarrow> house \<Rightarrow> (stay_resolution \<times> house) result" where
  "calculateQuote D branchId dto userId persist h =
     bindr (branchOf h branchId) (\<lambda>_.
     bindr (assertRoomType h branchId (qu_roomType dto)) (\<lambda>rt.
       let checkIn = toBranchDate (qu_checkIn dto); checkOut = toBranchDate (qu_checkOut dto)
       in if checkOut \<le> checkIn then Inl (BadRequest VALIDATION_FAILED)
       else resolveStay D branchId rt checkIn checkOut
              \<lparr>dl_promoCode = qu_promoCode dto, dl_corporate = qu_corporate dto,
               dl_occupancy = (case qu_adults dto of Some a \<Rightarrow> if a \<noteq> 0 then Some (a, the_default 0 (qu_children dto)) else None | None \<Rightarrow> None)\<rparr>
              \<lparr>rc_trigger = ''booking_create'', rc_user = userId, rc_reservation = None, rc_persist = persist\<rparr> h))"

section \<open>Packages\<close>

record package_dto =
  pq_name :: string
  pq_price :: rat
  pq_basis :: package_basis
  pq_chargeType :: charge_type
  pq_roomTypes :: "nat list option"
  pq_showOnline :: "bool option"

record package_patch =
  pp_name :: "string option"
  pp_price :: "rat option"
  pp_basis :: "package_basis option"
  pp_chargeType :: "charge_type option"
  pp_roomTypes :: "nat list option"
  pp_showOnline :: "bool option"
  pp_isActive :: "bool option"

definition assertPackageRoomTypes :: "house \<Rightarrow> nat \<Rightarrow> nat list \<Rightarrow> unit result" where
  "assertPackageRoomTypes h branchId ids =
     (if ids = [] then Inr ()
      else if length (filter (\<lambda>x. rt_id x \<in> set ids \<and> rt_branch x = branchId \<and> \<not> rt_deleted x) (db_roomTypes (ho_db h))) \<noteq> length (js_unique ids)
      then Inl (BadRequest VALIDATION_FAILED) else Inr ())"

definition createPackage :: "nat \<Rightarrow> package_dto \<Rightarrow> nat \<Rightarrow> house \<Rightarrow> (package_row \<times> house) result" where
  "createPackage branchId dto actorId h =
     bindr (branchOf h branchId) (\<lambda>_.
     bindr (assertPackageRoomTypes h branchId (the_default [] (pq_roomTypes dto))) (\<lambda>_.
       let row = \<lparr>pkg_id = fresh h, pkg_branch = branchId, pkg_name = js_trim (pq_name dto), pkg_price = num2 (pq_price dto), pkg_basis = pq_basis dto,
             pkg_chargeType = pq_chargeType dto, pkg_roomTypes = the_default [] (pq_roomTypes dto), pkg_showOnline = the_default True (pq_showOnline dto),
             pkg_isActive = True, pkg_deleted = False\<rparr>
       in Inr (row, log_action branchId (Some actorId) ''package.created'' (pkg_id row) ((bump h)\<lparr>ho_packages := ho_packages h @ [row]\<rparr>))))"

definition findPackage :: "house \<Rightarrow> nat \<Rightarrow> package_row result" where
  "findPackage h i = (case List.find (\<lambda>p. pkg_id p = i \<and> \<not> pkg_deleted p) (ho_packages h) of None \<Rightarrow> Inl (NotFound NOT_FOUND) | Some p \<Rightarrow> Inr p)"

definition patchPackage :: "package_patch \<Rightarrow> package_row \<Rightarrow> package_row" where
  "patchPackage dto p = p\<lparr>pkg_name := (case pp_name dto of None \<Rightarrow> pkg_name p | Some n \<Rightarrow> js_trim n),
     pkg_price := (case pp_price dto of None \<Rightarrow> pkg_price p | Some x \<Rightarrow> num2 x), pkg_basis := the_default (pkg_basis p) (pp_basis dto),
     pkg_chargeType := the_default (pkg_chargeType p) (pp_chargeType dto), pkg_roomTypes := the_default (pkg_roomTypes p) (pp_roomTypes dto),
     pkg_showOnline := the_default (pkg_showOnline p) (pp_showOnline dto), pkg_isActive := the_default (pkg_isActive p) (pp_isActive dto)\<rparr>"

definition updatePackage :: "nat \<Rightarrow> package_patch \<Rightarrow> nat \<Rightarrow> house \<Rightarrow> (package_row \<times> house) result" where
  "updatePackage packageId dto actorId h =
     bindr (findPackage h packageId) (\<lambda>existing.
     bindr (case pp_roomTypes dto of None \<Rightarrow> Inr () | Some ids \<Rightarrow> assertPackageRoomTypes h (pkg_branch existing) ids) (\<lambda>_.
       Inr (patchPackage dto existing,
            log_action (pkg_branch existing) (Some actorId) ''package.updated'' packageId
              (h\<lparr>ho_packages := map (\<lambda>p. if pkg_id p = packageId then patchPackage dto p else p) (ho_packages h)\<rparr>))))"

definition removePackage :: "nat \<Rightarrow> nat \<Rightarrow> house \<Rightarrow> house result" where
  "removePackage packageId actorId h =
     bindr (findPackage h packageId) (\<lambda>existing.
       Inr (log_action (pkg_branch existing) (Some actorId) ''package.removed'' packageId
              (h\<lparr>ho_packages := map (\<lambda>p. if pkg_id p = packageId then p\<lparr>pkg_deleted := True, pkg_isActive := False\<rparr> else p) (ho_packages h)\<rparr>)))"

definition onOffer :: "house \<Rightarrow> nat \<Rightarrow> nat \<Rightarrow> package_row option" where
  "onOffer h branchId i = List.find (\<lambda>p. pkg_id p = i \<and> pkg_branch p = branchId \<and> \<not> pkg_deleted p \<and> pkg_isActive p) (ho_packages h)"

definition snapshotOf :: "decimal_lib \<Rightarrow> package_row \<Rightarrow> package_snapshot" where
  "snapshotOf D p = \<lparr>pk_packageId = pkg_id p, pk_price = d_toFixed2 D (pkg_price p), pk_basis = pkg_basis p, pk_chargeType = pkg_chargeType p, pk_addedOn = None\<rparr>"

definition snapshotsFor :: "decimal_lib \<Rightarrow> house \<Rightarrow> nat \<Rightarrow> nat \<Rightarrow> nat list \<Rightarrow> bool \<Rightarrow> package_snapshot list result" where
  "snapshotsFor D h branchId roomTypeId packageIds online =
     (let ids = js_unique packageIds;
          refused = (\<lambda>i. case onOffer h branchId i of
                None \<Rightarrow> True
              | Some p \<Rightarrow> online \<and> \<not> pkg_showOnline p \<or> pkg_roomTypes p \<noteq> [] \<and> roomTypeId \<notin> set (pkg_roomTypes p))
      in if \<exists>i \<in> set ids. refused i then Inl (BadRequest VALIDATION_FAILED)
      else Inr (map (snapshotOf D) (List.map_filter (onOffer h branchId) ids)))"

record packages_quote =
  pz_lines :: "(nat \<times> rat \<times> rat \<times> rat) list"
  pz_subtotal :: rat
  pz_taxTotal :: rat
  pz_total :: rat

fun quotePackages :: "decimal_lib \<Rightarrow> house \<Rightarrow> nat \<Rightarrow> int \<Rightarrow> int \<Rightarrow> package_snapshot list \<Rightarrow> packages_quote \<Rightarrow> packages_quote result" where
  "quotePackages D h b nights guests [] q = Inr q"
| "quotePackages D h b nights guests (pkg # pkgs) q =
     bindr (packageTotal D pkg nights guests) (\<lambda>amount.
     bindr (priceCharge D (db_taxRules (ho_db h)) b (pk_chargeType pkg) amount (postingsFor pkg nights)) (\<lambda>priced.
       quotePackages D h b nights guests pkgs
         \<lparr>pz_lines = pz_lines q @ [(pk_packageId pkg, amount, pc_addedTax priced, pc_total priced)], pz_subtotal = pz_subtotal q + amount,
          pz_taxTotal = pz_taxTotal q + pc_addedTax priced, pz_total = pz_total q + pc_total priced\<rparr>))"

definition quoteForStay :: "decimal_lib \<Rightarrow> nat \<Rightarrow> nat \<Rightarrow> nat list \<Rightarrow> int \<Rightarrow> int \<Rightarrow> bool \<Rightarrow> house \<Rightarrow> packages_quote result" where
  "quoteForStay D branchId roomTypeId packageIds nights guests online h =
     bindr (snapshotsFor D h branchId roomTypeId packageIds online) (\<lambda>snapshots.
       quotePackages D h branchId nights guests snapshots \<lparr>pz_lines = [], pz_subtotal = 0, pz_taxTotal = 0, pz_total = 0\<rparr>)"

section \<open>A night keeps its price\<close>

text \<open>The columns prices come from hold whole cents.\<close>

definition in_cents :: "room_type \<Rightarrow> house \<Rightarrow> bool" where
  "in_cents rt h \<longleftrightarrow> is_money (rt_baseRate rt) \<and> is_money (the_default 0 (rt_extraAdultRate rt)) \<and> is_money (the_default 0 (rt_childRate rt)) \<and>
     list_all (\<lambda>p. is_money (rp_amount p)) (ho_plans h)"

lemma surcharge_money: "in_cents rt h \<Longrightarrow> is_money (occupancySurcharge rt occ)"
  by (auto simp: in_cents_def occupancySurcharge_def Let_def split: option.splits intro!: is_money_add is_money_mult_int)

lemma cascade_money: "decimal_arith D \<Longrightarrow> is_money running \<Longrightarrow> is_money (fst (cascadeFrom D running plans))"
proof (induction plans arbitrary: running)
  case (Cons p ps)
  note m = decimal_arith.dp2_money[OF Cons.prems(1)]
  show ?case by (simp add: Let_def case_prod_beta Cons.IH[OF Cons.prems(1) m])
qed simp

lemma negotiatedFor_mem: "negotiatedFor c ps = Some p \<Longrightarrow> p \<in> set ps"
  by (auto simp: negotiatedFor_def split: option.splits dest: find_Some_mem)

lemma promotionalFor_mem: "promotionalFor c ps = Some p \<Longrightarrow> p \<in> set ps"
  by (auto simp: promotionalFor_def split: if_splits dest: find_Some_mem)

lemma resolveNight_money:
  assumes "decimal_arith D" and "is_money (rt_baseRate rt)" and "\<And>p. p \<in> set plans \<Longrightarrow> is_money (rp_amount p)"
  shows "is_money (nr_rate (resolveNight D rt plans promo corp wk date))"
  using assms(3) cascade_money[OF assms(1,2)]
  by (auto simp: resolveNight_def Let_def case_prod_beta split: option.splits dest!: negotiatedFor_mem promotionalFor_mem)

lemma resolveNight_night [simp]: "nr_night (resolveNight D rt plans promo corp wk date) = date"
  by (auto simp: resolveNight_def Let_def case_prod_beta split: option.splits)

text \<open>The nights of a stay, each priced on its own.\<close>

lemma stayNightsPriced_map:
  obtains g where "stayNightsPriced D h b rt ci co opts = map g (enumerateNights ci co)" and "\<And>d. nr_night (g d) = d"
    and "decimal_arith D \<Longrightarrow> in_cents rt h \<Longrightarrow> (\<And>d. is_money (nr_rate (g d)))"
proof -
  define company where "company = companyOf h opts"
  define el where "el = eligiblePlans h b (rt_id rt) ci co (company \<noteq> None)"
  define wk where "wk = weekendNightsFor (case List.find (\<lambda>x. br_id x = b) (db_branches (ho_db h)) of None \<Rightarrow> None | Some x \<Rightarrow> br_policies x)"
  define s where "s = occupancySurcharge rt (dl_occupancy opts)"
  define g where "g = (\<lambda>date. let night = resolveNight D rt el (dl_promoCode opts) (case company of None \<Rightarrow> None | Some a \<Rightarrow> ca_ratePlan a) wk date
     in if s = 0 then night else night\<lparr>nr_rate := nr_rate night + s\<rparr>)"
  have "stayNightsPriced D h b rt ci co opts = map g (enumerateNights ci co)"
    unfolding stayNightsPriced_def g_def s_def wk_def el_def company_def Let_def ..
  moreover have "nr_night (g d) = d" for d by (simp add: g_def Let_def)
  moreover have "is_money (nr_rate (g d))" if "decimal_arith D" "in_cents rt h" for d
  proof -
    have "is_money (nr_rate (resolveNight D rt el (dl_promoCode opts) (case company of None \<Rightarrow> None | Some a \<Rightarrow> ca_ratePlan a) wk d))"
      using that by (intro resolveNight_money) (auto simp: in_cents_def list_all_iff el_def eligiblePlans_def)
    then show ?thesis using surcharge_money[OF that(2)] by (auto simp: g_def s_def Let_def intro: is_money_add)
  qed
  ultimately show ?thesis by (rule that)
qed

lemma resolveStay_Inr:
  assumes "resolveStay D b rt ci co opts ctx h = Inr (sr, h')"
  obtains "round_days (co - ci) \<le> MAX_STAY_NIGHTS" and "\<forall>n \<in> set (stayNightsPriced D h b rt ci co opts). 0 < nr_rate n"
    and "sr_subtotal sr = sum_list (map nr_rate (stayNightsPriced D h b rt ci co opts))"
    and "sr_perNight sr = map (\<lambda>n. \<lparr>pn_date = day_key (nr_night n), pn_rate = d_toFixed2 D (nr_rate n), pn_isOverride = nr_isOverride n, pn_plan = planOf n\<rparr>)
           (stayNightsPriced D h b rt ci co opts)"
    and "(sr_logIds sr, h') = (if rc_persist ctx then writeRateLog b (rc_reservation ctx) (rt_id rt) (rc_trigger ctx) (rc_user ctx) (stayNightsPriced D h b rt ci co opts) h else ([], h))"
  using assms by (auto simp: resolveStay_def Let_def res_simps not_le split: if_splits prod.splits)

lemma find_dated: "distinct xs \<Longrightarrow> x \<in> set xs \<Longrightarrow> List.find (\<lambda>n. fst n = Some x) (map (\<lambda>j. (Some j, f j)) xs) = Some (Some x, f x)"
  by (induction xs) auto

text \<open>
  C10. What a stay is quoted is what it is billed. When the resolver prices a stay, every one of
  its nights has a price above zero, the prices add up to the stay's total, and the
  night-by-night list the stay keeps reads back, when the night is posted to the bill, as
  exactly that night's price to the cent.
\<close>

theorem quoted_is_billed:
  assumes "decimal_arith D" and "in_cents rt h"
    and "resolveStay D b rt (toBranchDate ci) (toBranchDate co) opts ctx h = Inr (sr, h')"
  shows "\<exists>rates. length rates = nat (co - ci) \<and> list_all (\<lambda>r. 0 < r) rates \<and> sum_list rates = sr_subtotal sr \<and>
     (\<forall>i < length rates. nightlyRateFor D (nightlyRatesOf sr) (toBranchDate (ci + int i)) = Inr (Some (rates ! i)))"
proof -
  from stayNightsPriced_map obtain g
    where g: "stayNightsPriced D h b rt (toBranchDate ci) (toBranchDate co) opts = map g (enumerateNights (toBranchDate ci) (toBranchDate co))"
      and night: "\<And>d. nr_night (g d) = d" and cents: "\<And>d. is_money (nr_rate (g d))" using assms(1,2) by metis
  let ?days = "[ci..co - 1]" let ?r = "\<lambda>d. nr_rate (g (toBranchDate d))"
  have p: "stayNightsPriced D h b rt (toBranchDate ci) (toBranchDate co) opts = map (g \<circ> toBranchDate) ?days"
    unfolding g by (simp add: enumerateNights_dates)
  from assms(3) have pos: "\<forall>d \<in> set ?days. 0 < ?r d" and sub: "sr_subtotal sr = sum_list (map ?r ?days)"
    and nights: "nightlyRatesOf sr = Some (map (\<lambda>d. (Some d, Some (JStr (d_toFixed2 D (?r d))))) ?days)"
    by (auto elim!: resolveStay_Inr simp: p night nightlyRatesOf_def comp_def)
  have "nightlyRateFor D (nightlyRatesOf sr) (toBranchDate (ci + int i)) = Inr (Some (map ?r ?days ! i))" if i: "i < length ?days" for i
  proof -
    have "ci + int i \<in> set ?days" and "?days ! i = ci + int i" using i by auto
    then show ?thesis using decimal_arith.parse_toFixed[OF assms(1) cents] i
      by (simp add: nightlyRateFor_def nights find_dated)
  qed
  then show ?thesis using pos sub by (intro exI[of _ "map ?r ?days"]) (auto simp: list_all_iff)
qed

text \<open>Three nights from a Thursday at 100, weekends 15 % dearer; two adults where the rate covers one, the second at 20.\<close>

definition inn_type :: room_type where
  "inn_type = \<lparr>rt_id = 80, rt_branch = 1, rt_name = ''Standard'', rt_baseRate = 100, rt_capacityAdults = 3, rt_capacityChildren = 1,
     rt_adultsIncluded = Some 1, rt_extraAdultRate = Some 20, rt_childrenIncluded = 0, rt_childRate = None, rt_dayUseRate = Some 45, rt_deleted = False\<rparr>"

definition inn_weekend :: rate_plan where
  "inn_weekend = \<lparr>rp_id = 90, rp_branch = 1, rp_roomType = None, rp_name = ''Weekend'', rp_type = Weekend, rp_amount = 15,
     rp_adjustment = Some Percentage, rp_tier = 3, rp_isOverride = False, rp_validFrom = None, rp_validTo = None, rp_minLOS = None,
     rp_promoCode = None, rp_isActive = True, rp_createdAt = 5\<rparr>"

definition inn_promo :: rate_plan where
  "inn_promo = \<lparr>rp_id = 91, rp_branch = 1, rp_roomType = Some 80, rp_name = ''Opening'', rp_type = Promotional, rp_amount = 70,
     rp_adjustment = None, rp_tier = 0, rp_isOverride = True, rp_validFrom = Some (toBranchDate 1), rp_validTo = None, rp_minLOS = None,
     rp_promoCode = Some ''OPEN'', rp_isActive = True, rp_createdAt = 6\<rparr>"

definition inn_branch :: branch where
  "inn_branch = \<lparr>br_id = 1, br_currency = ''NGN'', br_timezone = ''UTC'', br_rates = [], br_varianceThreshold = None,
     br_checkInTime = 50400000, br_checkOutTime = 39600000, br_policies = None, br_noShowPolicy = None, br_cancellationPolicy = None,
     br_depositPolicy = None, br_stayFeePolicy = None, br_dayUsePolicy = None, br_turndownPolicy = None, br_deleted = False\<rparr>"

definition inn_room :: "nat \<Rightarrow> string \<Rightarrow> room" where
  "inn_room i number = \<lparr>rm_id = i, rm_branch = 1, rm_roomType = 80, rm_floor = 1, rm_number = number, rm_occupancy = Vacant, rm_cleanliness = Clean,
     rm_held = None, rm_heldUntil = None, rm_view = None, rm_notes = None, rm_statusBy = None, rm_deleted = False\<rparr>"

definition inn_guest :: "nat \<Rightarrow> string \<Rightarrow> guest_profile" where
  "inn_guest i name = \<lparr>gu_id = i, gu_name = name, gu_email = None, gu_phone = None, gu_phoneDigits = None, gu_vipLevel = None,
     gu_points = 0, gu_tier = None, gu_enrolledAt = None, gu_deleted = False\<rparr>"

definition inn :: house where
  "inn = \<lparr>ho_db = \<lparr>db_next = 100, db_branches = [inn_branch], db_folios = [], db_lines = [], db_payments = [], db_transfers = [], db_refunds = [],
       db_shifts = [], db_issues = [], db_outlets = [], db_menuItems = [], db_userOutlets = [], db_posOrders = [], db_reservations = [],
       db_roomTypes = [inn_type], db_taxRules = [], db_corporate = [], db_guests = [inn_guest 60 ''Ada'', inn_guest 61 ''Bayo''],
       db_loyalty = [], db_program = None, db_audit = [], db_webhooks = []\<rparr>,
     ho_buildings = [], ho_floors = [], ho_rooms = [inn_room 70 ''101'', inn_room 71 ''102''], ho_blocks = [], ho_groups = [], ho_overbooking = [], ho_restrictions = [], ho_allotments = [],
     ho_packages = [], ho_plans = [inn_weekend, inn_promo], ho_rateLog = [], ho_noShows = [], ho_walks = [], ho_tasks = [], ho_cards = [], ho_mails = [], ho_notes = [],
     ho_audits = [], ho_staff = [(9, None)], ho_seq = 0\<rparr>"

definition inn_deal :: deal where
  "inn_deal = \<lparr>dl_promoCode = None, dl_corporate = None, dl_occupancy = Some (2, 0)\<rparr>"

definition inn_asks :: resolve_context where
  "inn_asks = \<lparr>rc_trigger = ''booking_create'', rc_user = None, rc_reservation = None, rc_persist = False\<rparr>"

theorem quoted_is_billed_witness:
  "\<exists>sr. resolveStay decimal_js 1 inn_type (toBranchDate 0) (toBranchDate 3) inn_deal inn_asks inn = Inr (sr, inn) \<and>
     (\<exists>rates. length rates = nat (3 - 0) \<and> list_all (\<lambda>r. 0 < r) rates \<and> sum_list rates = sr_subtotal sr \<and>
       (\<forall>i < length rates. nightlyRateFor decimal_js (nightlyRatesOf sr) (toBranchDate (0 + int i)) = Inr (Some (rates ! i))))"
proof -
  have "map_sum id (\<lambda>(s, _). sr_subtotal s) (resolveStay decimal_js 1 inn_type (toBranchDate 0) (toBranchDate 3) inn_deal inn_asks inn) = Inr 390"
    by code_simp
  then obtain sr h where r: "resolveStay decimal_js 1 inn_type (toBranchDate 0) (toBranchDate 3) inn_deal inn_asks inn = Inr (sr, h)"
    by (cases "resolveStay decimal_js 1 inn_type (toBranchDate 0) (toBranchDate 3) inn_deal inn_asks inn") auto
  have "h = inn" using r by (rule resolveStay_Inr) (simp add: inn_asks_def)
  moreover have "in_cents inn_type inn" by code_simp
  ultimately show ?thesis using quoted_is_billed[OF js.decimal_arith_axioms _ r] r by blast
qed

section \<open>One price, whatever order the plans come in\<close>

lemma beats_trans: "beats p q \<Longrightarrow> beats q r \<Longrightarrow> beats p r"
  by (auto simp: beats_def simp del: not_None_eq)

lemma beats_irrefl [simp]: "\<not> beats p p"
  by (cases "rp_roomType p") (simp_all add: beats_def)

text \<open>The map holds one plan of every tier seen, one that no plan of its tier beats.\<close>

definition best_of :: "rate_plan list \<Rightarrow> rate_plan list \<Rightarrow> bool" where
  "best_of ps m \<longleftrightarrow> distinct (map rp_tier m) \<and> (\<forall>e \<in> set m. e \<in> set ps \<and> (\<forall>q \<in> set ps. rp_tier q = rp_tier e \<longrightarrow> \<not> beats q e)) \<and>
     (\<forall>p \<in> set ps. \<exists>e \<in> set m. rp_tier e = rp_tier p)"

lemma putTier_tiers: "set (map rp_tier (putTier p m)) = insert (rp_tier p) (set (map rp_tier m))"
  by (induction m) auto

lemma putTier_distinct: "distinct (map rp_tier m) \<Longrightarrow> distinct (map rp_tier (putTier p m))"
proof (induction m)
  case (Cons e es)
  then show ?case using putTier_tiers[of p es] by auto
qed simp

lemma putTier_mem:
  assumes "x \<in> set (putTier p m)" and "distinct (map rp_tier m)"
  shows "x \<in> set m \<and> (rp_tier x = rp_tier p \<longrightarrow> \<not> beats p x) \<or> x = p \<and> (\<forall>e \<in> set m. rp_tier e = rp_tier p \<longrightarrow> beats p e)"
  using assms
proof (induction m)
  case (Cons e es)
  show ?case
  proof (cases "rp_tier e = rp_tier p")
    case True
    then have "rp_tier y \<noteq> rp_tier p" if "y \<in> set es" for y using Cons.prems(2) that by (metis distinct.simps(2) image_eqI list.set_map list.simps(9))
    then show ?thesis using Cons.prems(1) True by (auto split: if_splits)
  next
    case False
    then show ?thesis using Cons by auto
  qed
qed simp

lemma best_of_put:
  assumes "best_of ps m"
  shows "best_of (ps @ [p]) (putTier p m)"
proof -
  have d: "distinct (map rp_tier m)" and mem: "\<And>e. e \<in> set m \<Longrightarrow> e \<in> set ps"
    and top: "\<And>e q. e \<in> set m \<Longrightarrow> q \<in> set ps \<Longrightarrow> rp_tier q = rp_tier e \<Longrightarrow> \<not> beats q e"
    and seen: "\<And>q. q \<in> set ps \<Longrightarrow> \<exists>e \<in> set m. rp_tier e = rp_tier q"
    using assms unfolding best_of_def by blast+
  have "x \<in> set (ps @ [p]) \<and> (\<forall>q \<in> set (ps @ [p]). rp_tier q = rp_tier x \<longrightarrow> \<not> beats q x)" if x: "x \<in> set (putTier p m)" for x
    using putTier_mem[OF x d]
  proof
    assume "x \<in> set m \<and> (rp_tier x = rp_tier p \<longrightarrow> \<not> beats p x)"
    then show ?thesis using mem[of x] top[of x] by auto
  next
    assume xp: "x = p \<and> (\<forall>e \<in> set m. rp_tier e = rp_tier p \<longrightarrow> beats p e)"
    have "\<not> beats q p" if q: "q \<in> set ps" "rp_tier q = rp_tier p" for q
    proof -
      from seen[OF q(1)] obtain e where e: "e \<in> set m" "rp_tier e = rp_tier q" by blast
      have "\<not> beats q e" using top[OF e(1) q(1)] e(2) by simp
      moreover have "beats p e" using xp e q(2) by simp
      ultimately show ?thesis using beats_trans[of q p e] by blast
    qed
    then show ?thesis using xp by auto
  qed
  moreover have "\<exists>e \<in> set (putTier p m). rp_tier e = rp_tier q" if q: "q \<in> set (ps @ [p])" for q
  proof -
    have "rp_tier q \<in> insert (rp_tier p) (set (map rp_tier m))" using q seen[of q] by (auto simp: image_iff) metis
    then have "rp_tier q \<in> set (map rp_tier (putTier p m))" unfolding putTier_tiers .
    then show ?thesis by auto
  qed
  ultimately show ?thesis unfolding best_of_def using putTier_distinct[OF d] by blast
qed

lemma byTier_best: "best_of ps (byTier ps)"
proof (induction ps rule: rev_induct)
  case Nil
  show ?case by (simp add: best_of_def byTier_def)
next
  case (snoc p ps)
  show ?case using best_of_put[OF snoc.IH] by (simp add: byTier_def)
qed

text \<open>
  Plans that can be told apart: ids are unique, two cascade plans of one tier that are equally
  specific were made at different moments, and no two promotional plans share a code.
\<close>

definition told_apart :: "rate_plan list \<Rightarrow> bool" where
  "told_apart ps \<longleftrightarrow> distinct (map rp_id ps) \<and>
     (\<forall>p \<in> set ps. \<forall>q \<in> set ps. p \<noteq> q \<longrightarrow>
        (rp_tier p = rp_tier q \<and> \<not> rp_isOverride p \<and> \<not> rp_isOverride q \<and> (rp_roomType p = None) = (rp_roomType q = None) \<longrightarrow> rp_createdAt p \<noteq> rp_createdAt q) \<and>
        (rp_type p = Promotional \<and> rp_type q = Promotional \<longrightarrow> rp_promoCode p \<noteq> rp_promoCode q))"

lemma byTier_set:
  assumes "told_apart ps" and "set qs \<subseteq> set ps" and "\<And>p. p \<in> set qs \<Longrightarrow> \<not> rp_isOverride p"
  shows "set (byTier qs) = {p \<in> set qs. \<forall>q \<in> set qs. rp_tier q = rp_tier p \<longrightarrow> \<not> beats q p}"
proof
  show "set (byTier qs) \<subseteq> {p \<in> set qs. \<forall>q \<in> set qs. rp_tier q = rp_tier p \<longrightarrow> \<not> beats q p}"
    using byTier_best[of qs] unfolding best_of_def by blast
next
  show "{p \<in> set qs. \<forall>q \<in> set qs. rp_tier q = rp_tier p \<longrightarrow> \<not> beats q p} \<subseteq> set (byTier qs)"
  proof
    fix p assume "p \<in> {p \<in> set qs. \<forall>q \<in> set qs. rp_tier q = rp_tier p \<longrightarrow> \<not> beats q p}"
    then have p: "p \<in> set qs" and unbeaten: "\<And>q. q \<in> set qs \<Longrightarrow> rp_tier q = rp_tier p \<Longrightarrow> \<not> beats q p" by auto
    from byTier_best[of qs] p obtain e where e: "e \<in> set (byTier qs)" "rp_tier e = rp_tier p" "e \<in> set qs" "\<not> beats p e"
      unfolding best_of_def by metis
    have "\<not> beats e p" using unbeaten[OF e(3,2)] .
    with e(4) have "(rp_roomType p = None) = (rp_roomType e = None)" and "rp_createdAt p = rp_createdAt e" by (auto simp: beats_def)
    with assms p e have "p = e" unfolding told_apart_def by (metis subsetD)
    then show "p \<in> set (byTier qs)" using e(1) by simp
  qed
qed

lemma distinct_told_apart: "told_apart ps \<Longrightarrow> distinct ps"
  by (auto simp: told_apart_def distinct_map)

lemma told_apart_mset: "told_apart ps \<Longrightarrow> mset ps = mset qs \<Longrightarrow> told_apart qs"
  unfolding told_apart_def by (metis mset_map mset_eq_imp_distinct_iff set_mset_mset)

lemma find_only:
  assumes "set xs = set ys" and "\<And>x y. x \<in> set xs \<Longrightarrow> y \<in> set xs \<Longrightarrow> P x \<Longrightarrow> P y \<Longrightarrow> x = y"
  shows "List.find P xs = List.find P ys"
proof (cases "List.find P xs")
  case None
  then show ?thesis using assms(1) by (simp add: find_None_ex) (metis find_None_ex)
next
  case (Some x)
  then have x: "x \<in> set xs" "P x" by (auto dest: find_Some_mem)
  then obtain y where y: "List.find P ys = Some y" using assms(1) by (cases "List.find P ys") (auto simp: find_None_ex)
  then show ?thesis using assms x Some find_Some_mem[OF y] by metis
qed

lemma sort_tiers_unique:
  assumes "set xs = set ys" and "distinct (map rp_tier xs)" and "distinct (map rp_tier ys)"
  shows "sort_key rp_tier xs = sort_key rp_tier ys"
proof -
  have "mset xs = mset ys" using assms by (simp add: set_eq_iff_mset_eq_distinct distinct_map)
  then show ?thesis using assms(2) by (intro sort_key_inj_key_eq) (auto simp: distinct_map)
qed

lemma byTier_distinct: "distinct (map rp_tier (byTier ps))"
  using byTier_best[of ps] unfolding best_of_def by blast

text \<open>
  C11. The price of a night does not depend on the order in which the database returns the
  plans: whenever the plans can be told apart, any two orders give the same price, the same
  winning plan and the same cascade.
\<close>

theorem night_price_order_free:
  assumes "told_apart plans" and "mset plans = mset plans'"
  shows "resolveNight D rt plans promo corp wk date = resolveNight D rt plans' promo corp wk date"
proof -
  let ?a = "filter (applicable wk date)" let ?o = "filter rp_isOverride" let ?c = "filter (\<lambda>p. \<not> rp_isOverride p)"
  have s: "set plans = set plans'" using assms(2) by (metis set_mset_mset)
  note ta = assms(1)[unfolded told_apart_def]
  have n: "negotiatedFor corp (?o (?a plans)) = negotiatedFor corp (?o (?a plans'))"
    unfolding negotiatedFor_def using s ta by (cases corp) (auto intro!: find_only simp: distinct_map inj_on_def)
  have p: "promotionalFor promo (?o (?a plans)) = promotionalFor promo (?o (?a plans'))"
    unfolding promotionalFor_def using s ta by (auto intro!: find_only) metis
  have b: "set (byTier (?c (?a qs))) = {p \<in> set (?c (?a qs)). \<forall>q \<in> set (?c (?a qs)). rp_tier q = rp_tier p \<longrightarrow> \<not> beats q p}" if "told_apart qs" for qs
    by (rule byTier_set[OF that]) auto
  have "sort_key rp_tier (byTier (?c (?a plans))) = sort_key rp_tier (byTier (?c (?a plans')))"
    by (rule sort_tiers_unique[OF _ byTier_distinct byTier_distinct])
      (simp only: b[OF assms(1)] b[OF told_apart_mset[OF assms]] set_filter s)
  then show ?thesis unfolding resolveNight_def Let_def n p by (rule arg_cong)
qed

theorem night_price_order_free_witness:
  "resolveNight decimal_js inn_type [inn_weekend, inn_promo] (Some ''OPEN'') None [5, 6] (toBranchDate 2)
     = resolveNight decimal_js inn_type [inn_promo, inn_weekend] (Some ''OPEN'') None [5, 6] (toBranchDate 2)"
proof -
  have "told_apart [inn_weekend, inn_promo]" by code_simp
  moreover have "mset [inn_weekend, inn_promo] = mset [inn_promo, inn_weekend]" by simp
  ultimately show ?thesis by (rule night_price_order_free)
qed

section \<open>The shape of a plan\<close>

text \<open>
  What a stored plan is: an override (negotiated or promotional) has a price above zero, no
  adjustment and, when promotional, a code; a cascade plan has an adjustment and its type's tier,
  and its percentage neither frees the night nor multiplies it by more than eleven; its dates are in order.
\<close>

definition plan_shape :: "rate_plan \<Rightarrow> bool" where
  "plan_shape p \<longleftrightarrow> rp_isOverride p = (rp_type p \<in> {Negotiated, Promotional}) \<and> rp_tier p = CASCADE_TIER_BY_TYPE (rp_type p) \<and>
     (if rp_isOverride p then 0 < rp_amount p \<and> rp_adjustment p = None else rp_adjustment p \<noteq> None \<and> rp_tier p \<in> {1..4}) \<and>
     (rp_adjustment p = Some Percentage \<longrightarrow> - 100 < rp_amount p \<and> rp_amount p \<le> 1000) \<and>
     (if rp_type p = Promotional then \<not> no_text (rp_promoCode p) else rp_promoCode p = None) \<and>
     (case (rp_validFrom p, rp_validTo p) of (Some f, Some t) \<Rightarrow> f \<le> t | _ \<Rightarrow> True)"

definition plans_typed :: "house \<Rightarrow> bool" where
  "plans_typed h \<longleftrightarrow> list_all plan_shape (ho_plans h)"

text \<open>What staff do to the plans; the request's amount has at most two decimals (\<^verbatim>\<open>maxDecimalPlaces: 2\<close>).\<close>

inductive plan_step :: "house \<Rightarrow> house \<Rightarrow> bool" where
  created: "is_money (rq_amount dto) \<Longrightarrow> createRatePlan b dto now h = Inr (p, h') \<Longrightarrow> plan_step h h'"
| updated: "updateRatePlan i a h = Inr (p, h') \<Longrightarrow> plan_step h h'"

lemma createRatePlan_Inr:
  assumes "createRatePlan b dto now h = Inr (p, h')"
  obtains "rq_type dto \<in> OVERRIDE_TYPES \<longleftrightarrow> rq_adjustment dto = None" and "rq_type dto = Promotional \<longrightarrow> \<not> no_text (rq_promoCode dto)"
    and "rq_type dto \<in> OVERRIDE_TYPES \<longrightarrow> 0 < rq_amount dto" and "rq_adjustment dto = Some Percentage \<longrightarrow> - 100 < rq_amount dto \<and> rq_amount dto \<le> 1000"
    and "\<not> (case (rq_validFrom dto, rq_validTo dto) of (Some f, Some t) \<Rightarrow> t < f | _ \<Rightarrow> False)" and "ho_plans h' = ho_plans h @ [p]"
    and "rp_type p = rq_type dto" and "rp_amount p = num2 (rq_amount dto)" and "rp_adjustment p = rq_adjustment dto" and "rp_tier p = CASCADE_TIER_BY_TYPE (rq_type dto)"
    and "rp_isOverride p = (rq_type dto \<in> OVERRIDE_TYPES)" and "rp_validFrom p = map_option toBranchDate (rq_validFrom dto)" and "rp_validTo p = map_option toBranchDate (rq_validTo dto)"
    and "rp_promoCode p = (if rq_type dto = Promotional then rq_promoCode dto else None)"
  using assms unfolding createRatePlan_def Let_def
  by (auto simp: res_simps not_le split: if_split_asm intro!: that)

lemma createRatePlan_shape:
  assumes "is_money (rq_amount dto)" and "createRatePlan b dto now h = Inr (p, h')"
  shows "plan_shape p \<and> ho_plans h' = ho_plans h @ [p]"
  using assms(2)
proof (rule createRatePlan_Inr, goal_cases)
  case 1
  have "(case (rp_validFrom p, rp_validTo p) of (Some f, Some t) \<Rightarrow> f \<le> t | _ \<Rightarrow> True)"
    using 1(5,12,13) by (cases "rq_validFrom dto"; cases "rq_validTo dto") (simp_all add: toBranchDate_def DAY_def)
  moreover have "rp_amount p = rq_amount dto" using 1(8) assms(1) by simp
  ultimately show ?case using 1(1-4,6,7,9-11,14)
    by (cases "rq_type dto") (auto simp: plan_shape_def OVERRIDE_TYPES_def CASCADE_TIER_BY_TYPE_def)
qed

lemma plan_step_typed: "plan_step h h' \<Longrightarrow> plans_typed h \<Longrightarrow> plans_typed h'"
proof (induction rule: plan_step.induct)
  case (created dto b now h p h')
  then show ?case using createRatePlan_shape[OF created(1,2)] by (simp add: plans_typed_def)
next
  case (updated i a h p h')
  have "plan_shape (case a of None \<Rightarrow> x | Some b \<Rightarrow> x\<lparr>rp_isActive := b\<rparr>) = plan_shape x" for x :: rate_plan
    by (cases a) (simp_all add: plan_shape_def)
  with updated show ?case by (auto simp: updateRatePlan_def Let_def plans_typed_def list_all_iff split: option.splits if_splits)
qed

interpretation plans: step_invariant plan_step plans_typed
  by unfold_locales (rule plan_step_typed)

text \<open>
  C12. Every rate plan in the table has the shape of its kind, after any run of requests
  that create, retire or reinstate plans: an override names a price above zero, a cascade plan an
  adjustment that leaves a price, only a promotional plan has a code and it always has one, and the dates are in order.
\<close>

theorem stored_plans_typed:
  assumes "plan_step\<^sup>*\<^sup>* h h'" and "plans_typed h"
  shows "list_all plan_shape (ho_plans h')"
  using plans.run_keeps[OF assms] unfolding plans_typed_def .

definition inn_plan_dto :: rate_plan_dto where
  "inn_plan_dto = \<lparr>rq_roomType = Some 80, rq_name = ''Harmattan'', rq_type = Seasonal, rq_amount = - 10, rq_adjustment = Some Percentage,
     rq_validFrom = Some 10, rq_validTo = Some 20, rq_minLOS = Some 2, rq_promoCode = None\<rparr>"

theorem stored_plans_typed_witness:
  "\<exists>h'. plan_step\<^sup>*\<^sup>* inn h' \<and> length (ho_plans h') = 3 \<and> list_all plan_shape (ho_plans h')"
proof -
  have "map_sum id (\<lambda>(p, h). length (ho_plans h)) (createRatePlan 1 inn_plan_dto 7 inn) = Inr 3" by code_simp
  then obtain p h' where c: "createRatePlan 1 inn_plan_dto 7 inn = Inr (p, h')" "length (ho_plans h') = 3"
    by (cases "createRatePlan 1 inn_plan_dto 7 inn") auto
  have "is_money (rq_amount inn_plan_dto)" by code_simp
  then have step: "plan_step\<^sup>*\<^sup>* inn h'" using plan_step.created[OF _ c(1)] by blast
  have "plans_typed inn" by code_simp
  with stored_plans_typed[OF step] step c(2) show ?thesis by blast
qed

end
