(* ===== verification/Inventory.thy ===== *)
theory Inventory
  imports Rates
begin

text \<open>
  What is left to sell (\<^verbatim>\<open>reservations/reservations.service.ts\<close>, its availability half), and the
  rules that hold rooms back: overbooking (\<^verbatim>\<open>property/property.service.ts\<close>), restrictions and channel
  allotments (\<^verbatim>\<open>revenue-management\<close>), and group blocks (\<^verbatim>\<open>sales-events/group-blocks.service.ts\<close>).

  Availability is counted per night: the rooms of the type in service and not blocked, raised by
  the overbooking percentage where one governs the night, less the stays that hold a room that
  night and the rooms group blocks still keep. The percentage is computed with JavaScript numbers;
  \<open>dbl\<close> is their rounding (to 53 significant bits, ties to even; the values here are
  nowhere near the ends of the range).
\<close>

section \<open>JavaScript numbers\<close>

function bits :: "int \<Rightarrow> int" where
  "bits n = (if n \<le> 0 then 0 else 1 + bits (n div 2))"
  by pat_completeness auto
termination
  by (relation "measure nat") auto

declare bits.simps [simp del]

definition pow2 :: "int \<Rightarrow> rat" where
  "pow2 e = (if 0 \<le> e then 2 ^ nat e else 1 / 2 ^ nat (- e))"

definition log2_floor :: "rat \<Rightarrow> int" where
  "log2_floor q =
     (let (a, b) = quotient_of q;
          e = bits a - bits b
      in if pow2 e \<le> q then e else e - 1)"

definition round_even :: "rat \<Rightarrow> int" where
  "round_even x = (let f = \<lfloor>x\<rfloor>; r = x - of_int f in if r < 1 / 2 \<or> r = 1 / 2 \<and> even f then f else f + 1)"

definition dbl :: "rat \<Rightarrow> rat" where
  "dbl x = (if x = 0 then 0 else let e = log2_floor \<bar>x\<bar> - 52 in of_int (round_even (x / pow2 e)) * pow2 e)"

section \<open>Rooms in service\<close>

definition SELLABLE_ROOM :: "room \<Rightarrow> bool" where
  "SELLABLE_ROOM r \<longleftrightarrow> rm_held r = None \<or> rm_heldUntil r \<noteq> None"

definition poolRoom :: "nat \<Rightarrow> nat \<Rightarrow> room \<Rightarrow> bool" where
  "poolRoom b rt r \<longleftrightarrow> rm_branch r = b \<and> rm_roomType r = rt \<and> \<not> rm_deleted r \<and> SELLABLE_ROOM r"

definition sellableRooms :: "house \<Rightarrow> nat \<Rightarrow> nat \<Rightarrow> (nat \<times> instant option) list" where
  "sellableRooms h b rt = map (\<lambda>r. (rm_id r, if rm_held r \<noteq> None then rm_heldUntil r else None)) (filter (poolRoom b rt) (ho_rooms h))"

definition inServiceOn :: "(nat \<times> instant option) list \<Rightarrow> instant \<Rightarrow> nat set" where
  "inServiceOn pool night = set (map fst (filter (\<lambda>(_, backFrom). case backFrom of None \<Rightarrow> True | Some d \<Rightarrow> d \<le> night) pool))"

definition blocksBetween :: "house \<Rightarrow> nat \<Rightarrow> nat \<Rightarrow> instant \<Rightarrow> instant \<Rightarrow> room_block list" where
  "blocksBetween h b rt from till =
     filter (\<lambda>k. (\<exists>r \<in> set (ho_rooms h). rm_id r = rb_room k \<and> poolRoom b rt r) \<and> rb_from k < till \<and> from \<le> rb_to k) (ho_blocks h)"

definition blockedOn :: "room_block list \<Rightarrow> nat set \<Rightarrow> instant \<Rightarrow> nat set" where
  "blockedOn blocks inService night =
     set (map rb_room (filter (\<lambda>k. rb_room k \<in> inService \<and> rb_from k \<le> night \<and> night \<le> rb_to k) blocks))"

section \<open>Overbooking\<close>

definition governs :: "instant \<Rightarrow> overbooking_config \<Rightarrow> bool" where
  "governs night c \<longleftrightarrow> oc_enabled c \<and> (case oc_validFrom c of None \<Rightarrow> True | Some f \<Rightarrow> f \<le> night) \<and> (case oc_validTo c of None \<Rightarrow> True | Some t \<Rightarrow> night \<le> t)"

definition overbookingConfigFor :: "overbooking_config option \<Rightarrow> overbooking_config option \<Rightarrow> instant \<Rightarrow> overbooking_config option" where
  "overbookingConfigFor roomTypeConfig branchConfig night =
     (case roomTypeConfig of
        Some c \<Rightarrow> if governs night c then Some c
                  else (case branchConfig of Some b \<Rightarrow> if governs night b then Some b else None | None \<Rightarrow> None)
      | None \<Rightarrow> (case branchConfig of Some b \<Rightarrow> if governs night b then Some b else None | None \<Rightarrow> None))"

definition governing :: "house \<Rightarrow> nat \<Rightarrow> nat \<Rightarrow> instant \<Rightarrow> overbooking_config option" where
  "governing h b rt night =
     (let configs = filter (\<lambda>c. oc_branch c = b \<and> (oc_roomType c = Some rt \<or> oc_roomType c = None)) (ho_overbooking h)
      in overbookingConfigFor (List.find (\<lambda>c. oc_roomType c = Some rt) configs) (List.find (\<lambda>c. oc_roomType c = None) configs) night)"

text \<open>\<^verbatim>\<open>Math.floor(net * (1 + Number(pct ?? 0) / 100))\<close>\<close>

definition ceilingCapacity :: "int \<Rightarrow> overbooking_config option \<Rightarrow> int" where
  "ceilingCapacity net config =
     (case config of
        None \<Rightarrow> net
      | Some c \<Rightarrow> \<lfloor>dbl (of_int net * dbl (1 + dbl (dbl (the_default 0 (oc_maxPct c)) / 100)))\<rfloor>)"

record overbooking_dto =
  oq_roomType :: "nat option"
  oq_enabled :: "bool option"
  oq_maxPct :: "rat option"
  oq_alertPct :: "rat option"
  oq_validFrom :: "day option option"
  oq_validTo :: "day option option"

definition patchOverbooking :: "overbooking_dto \<Rightarrow> overbooking_config \<Rightarrow> overbooking_config" where
  "patchOverbooking dto c = c\<lparr>oc_enabled := the_default (oc_enabled c) (oq_enabled dto),
     oc_maxPct := (case oq_maxPct dto of None \<Rightarrow> oc_maxPct c | Some p \<Rightarrow> Some (num2 p)),
     oc_alertPct := (case oq_alertPct dto of None \<Rightarrow> oc_alertPct c | Some p \<Rightarrow> Some (num2 p)),
     oc_validFrom := (case oq_validFrom dto of None \<Rightarrow> oc_validFrom c | Some d \<Rightarrow> map_option toBranchDate d),
     oc_validTo := (case oq_validTo dto of None \<Rightarrow> oc_validTo c | Some d \<Rightarrow> map_option toBranchDate d)\<rparr>"

definition updateOverbookingConfig :: "nat \<Rightarrow> overbooking_dto \<Rightarrow> nat \<Rightarrow> house \<Rightarrow> (overbooking_config \<times> house) result" where
  "updateOverbookingConfig b dto actorId h =
     bindr (branchOf h b) (\<lambda>_.
     bindr (case oq_roomType dto of None \<Rightarrow> Inr () | Some rt \<Rightarrow> bindr (assertRoomType h b rt) (\<lambda>_. Inr ())) (\<lambda>_.
       case List.find (\<lambda>c. oc_branch c = b \<and> oc_roomType c = oq_roomType dto) (ho_overbooking h) of
         Some existing \<Rightarrow>
           Inr (patchOverbooking dto existing,
                log_action b (Some actorId) ''branch.overbooking_config_updated'' (oc_id existing)
                  (h\<lparr>ho_overbooking := map (\<lambda>c. if oc_id c = oc_id existing then patchOverbooking dto c else c) (ho_overbooking h)\<rparr>))
       | None \<Rightarrow>
           (let row = patchOverbooking dto \<lparr>oc_id = fresh h, oc_branch = b, oc_roomType = oq_roomType dto, oc_enabled = False, oc_maxPct = None,
                   oc_alertPct = None, oc_validFrom = None, oc_validTo = None\<rparr>
            in Inr (row, log_action b (Some actorId) ''branch.overbooking_config_updated'' (oc_id row)
                  ((bump h)\<lparr>ho_overbooking := ho_overbooking h @ [row]\<rparr>)))))"

section \<open>Stays that hold a room\<close>

definition HOLDING_STATUSES :: "reservation_status set" where
  "HOLDING_STATUSES = {Confirmed, Checked_in}"

text \<open>31 December 9999.\<close>

definition OPEN_ENDED :: instant where
  "OPEN_ENDED = toBranchDate 2932896"

definition overdue :: "tz_offset \<Rightarrow> branch option \<Rightarrow> instant \<Rightarrow> reservation \<Rightarrow> bool" where
  "overdue tzo br now r \<longleftrightarrow>
     (case br of None \<Rightarrow> False
      | Some b \<Rightarrow> re_status r = Checked_in \<and> hasPassedBranchCutoff tzo (re_checkOutDate r) (timeOfDay (br_checkOutTime b)) (br_timezone b) now)"

definition holdingStays :: "tz_offset \<Rightarrow> house \<Rightarrow> nat \<Rightarrow> nat \<Rightarrow> instant \<Rightarrow> instant \<Rightarrow> nat option \<Rightarrow> instant \<Rightarrow> (instant \<times> instant) list" where
  "holdingStays tzo h b rt from till except now =
     (let stays = filter (\<lambda>r. re_branch r = b \<and> re_roomType r = rt \<and> \<not> re_deleted r \<and> re_status r \<in> HOLDING_STATUSES \<and>
                      re_checkInDate r < till \<and> (from < re_checkOutDate r \<or> re_status r = Checked_in) \<and> except \<noteq> Some (re_id r)) (ho_stays h);
          mayBeOverdue = (\<exists>r \<in> set stays. re_status r = Checked_in \<and> re_checkOutDate r \<le> now + DAY);
          branch = (if mayBeOverdue then List.find (\<lambda>x. br_id x = b) (db_branches (ho_db h)) else None)
      in filter (\<lambda>s. from < snd s)
           (map (\<lambda>r. (re_checkInDate r, if overdue tzo branch now r then OPEN_ENDED else re_checkOutDate r)) stays))"

definition heldBy :: "(instant \<times> instant) list \<Rightarrow> instant \<Rightarrow> nat" where
  "heldBy stays night = length (filter (\<lambda>(i, out). i \<le> night \<and> night < out) stays)"

section \<open>Rooms group blocks keep\<close>

definition PICKUP_STATUSES :: "reservation_status set" where
  "PICKUP_STATUSES = {Confirmed, Checked_in, Checked_out}"

definition pickupOf :: "house \<Rightarrow> nat \<Rightarrow> nat" where
  "pickupOf h g = length (filter (\<lambda>r. re_groupBlock r = Some g \<and> \<not> re_deleted r \<and> re_status r \<in> PICKUP_STATUSES) (ho_stays h))"

definition bookedTonight :: "house \<Rightarrow> nat \<Rightarrow> instant \<Rightarrow> nat" where
  "bookedTonight h g night =
     length (filter (\<lambda>r. re_groupBlock r = Some g \<and> \<not> re_deleted r \<and> re_status r \<in> HOLDING_STATUSES \<and>
       re_checkInDate r \<le> night \<and> night < re_checkOutDate r) (ho_stays h))"

definition holdingBlocks :: "tz_offset \<Rightarrow> house \<Rightarrow> nat \<Rightarrow> nat \<Rightarrow> instant \<Rightarrow> instant \<Rightarrow> nat option \<Rightarrow> instant \<Rightarrow> group_block list" where
  "holdingBlocks tzo h b rt from till into now =
     (let tz = (case List.find (\<lambda>x. br_id x = b) (db_branches (ho_db h)) of None \<Rightarrow> ''UTC'' | Some x \<Rightarrow> br_timezone x);
          today = toBranchDate (todayInTimezone tzo tz now)
      in filter (\<lambda>g. today \<le> gb_cutoff g)
           (filter (\<lambda>g. gb_branch g = b \<and> gb_roomType g = rt \<and> gb_status g = Active \<and>
              (case gb_arrival g of None \<Rightarrow> False | Some a \<Rightarrow> a < till) \<and> (case gb_departure g of None \<Rightarrow> False | Some d \<Rightarrow> from < d) \<and>
              into \<noteq> Some (gb_id g)) (ho_groups h)))"

definition keptBy :: "house \<Rightarrow> instant \<Rightarrow> group_block \<Rightarrow> int" where
  "keptBy h night g =
     (case (gb_arrival g, gb_departure g) of
        (Some a, Some d) \<Rightarrow>
          if night < a \<or> d \<le> night then 0
          else max 0 (min (gb_size g - int (bookedTonight h (gb_id g) night)) (gb_size g - int (pickupOf h (gb_id g))))
      | _ \<Rightarrow> 0)"

definition groupBlockHolds :: "tz_offset \<Rightarrow> house \<Rightarrow> nat \<Rightarrow> nat \<Rightarrow> instant \<Rightarrow> instant \<Rightarrow> nat option \<Rightarrow> instant \<Rightarrow> instant \<Rightarrow> int" where
  "groupBlockHolds tzo h b rt from till into now night = sum_list (map (keptBy h night) (holdingBlocks tzo h b rt from till into now))"

section \<open>Availability\<close>

definition netCapacity :: "house \<Rightarrow> nat \<Rightarrow> nat \<Rightarrow> instant \<Rightarrow> instant \<Rightarrow> instant \<Rightarrow> int" where
  "netCapacity h b rt from till night =
     (let inService = inServiceOn (sellableRooms h b rt) night
      in int (card inService) - int (card (blockedOn (blocksBetween h b rt from till) inService night)))"

definition computeAvailabilityPerNight ::
  "tz_offset \<Rightarrow> house \<Rightarrow> nat \<Rightarrow> nat \<Rightarrow> instant \<Rightarrow> instant \<Rightarrow> nat option \<Rightarrow> nat option \<Rightarrow> instant \<Rightarrow> (day \<times> int) list" where
  "computeAvailabilityPerNight tzo h b rt from till except into now =
     (let stays = holdingStays tzo h b rt from till except now
      in map (\<lambda>night.
           let capacity = ceilingCapacity (netCapacity h b rt from till night) (governing h b rt night)
           in (day_key night, max 0 (capacity - int (heldBy stays night) - groupBlockHolds tzo h b rt from till into now night)))
         (enumerateNights from till))"

definition MAX_AVAILABILITY_RANGE_DAYS :: int where
  "MAX_AVAILABILITY_RANGE_DAYS = MAX_STAY_NIGHTS"

definition assertValidRange :: "instant \<Rightarrow> instant \<Rightarrow> unit result" where
  "assertValidRange from till =
     (if till \<le> from then Inl (BadRequest VALIDATION_FAILED)
      else if round_days (till - from) > MAX_AVAILABILITY_RANGE_DAYS then Inl (BadRequest VALIDATION_FAILED) else Inr ())"

definition assertAvailableForStay ::
  "tz_offset \<Rightarrow> house \<Rightarrow> nat \<Rightarrow> nat \<Rightarrow> instant \<Rightarrow> instant \<Rightarrow> nat option \<Rightarrow> nat option \<Rightarrow> instant \<Rightarrow> unit result" where
  "assertAvailableForStay tzo h b rt checkIn checkOut except into now =
     (if \<exists>n \<in> set (computeAvailabilityPerNight tzo h b rt checkIn checkOut except into now). snd n < 1
      then Inl (Conflict RESERVATION_NOT_AVAILABLE) else Inr ())"

definition assertDayUseAvailable :: "house \<Rightarrow> nat \<Rightarrow> nat \<Rightarrow> instant \<Rightarrow> unit result" where
  "assertDayUseAvailable h b rt day =
     (let inService = inServiceOn (sellableRooms h b rt) day;
          blocked = set (map rb_room (filter (\<lambda>k. rb_room k \<in> inService \<and> rb_from k \<le> day \<and> day \<le> rb_to k) (ho_blocks h)));
          rooms = int (card inService) - int (card blocked);
          here = filter (\<lambda>r. re_branch r = b \<and> re_roomType r = rt \<and> \<not> re_deleted r \<and> re_status r \<in> {Confirmed, Checked_in}) (ho_stays h);
          throughTheDay = length (filter (\<lambda>r. \<not> re_isDayUse r \<and> re_checkInDate r < day \<and> day < re_checkOutDate r) here);
          arriving = length (filter (\<lambda>r. \<not> re_isDayUse r \<and> re_checkInDate r = day) here);
          dayUses = length (filter (\<lambda>r. re_isDayUse r \<and> day \<le> re_checkInDate r \<and> re_checkInDate r < day + DAY) here)
      in if rooms - int throughTheDay - int arriving - int dayUses \<le> 0 then Inl (Conflict RESERVATION_NOT_AVAILABLE) else Inr ())"

definition getAvailability :: "tz_offset \<Rightarrow> nat \<Rightarrow> nat \<Rightarrow> day \<Rightarrow> day \<Rightarrow> instant \<Rightarrow> house \<Rightarrow> (day \<times> int) list result" where
  "getAvailability tzo b rt from till now h =
     bindr (assertValidRange (toBranchDate from) (toBranchDate till)) (\<lambda>_.
     bindr (branchOf h b) (\<lambda>_. Inr (computeAvailabilityPerNight tzo h b rt (toBranchDate from) (toBranchDate till) None None now)))"

definition activeTypes :: "house \<Rightarrow> nat \<Rightarrow> room_type list" where
  "activeTypes h b = sort_key rt_name (filter (\<lambda>x. rt_branch x = b \<and> \<not> rt_deleted x) (db_roomTypes (ho_db h)))"

definition getAvailabilityForRange :: "tz_offset \<Rightarrow> nat \<Rightarrow> instant \<Rightarrow> instant \<Rightarrow> instant \<Rightarrow> house \<Rightarrow> (nat \<times> (day \<times> int) list) list result" where
  "getAvailabilityForRange tzo b from till now h =
     bindr (assertValidRange from till) (\<lambda>_. bindr (branchOf h b) (\<lambda>_.
       Inr (map (\<lambda>x. (rt_id x, computeAvailabilityPerNight tzo h b (rt_id x) from till None None now)) (activeTypes h b))))"

text \<open>\<^verbatim>\<open>Date.UTC(year, month, 1)\<close>, months counted from zero and running over into the next year.\<close>

definition firstOfMonth :: "int \<Rightarrow> int \<Rightarrow> instant" where
  "firstOfMonth y m = toBranchDate (if m < 12 then dayFromYear y + monthStart y m else dayFromYear (y + 1))"

definition getAvailabilityCalendar :: "tz_offset \<Rightarrow> nat \<Rightarrow> int \<Rightarrow> int \<Rightarrow> instant \<Rightarrow> house \<Rightarrow> (nat \<times> (day \<times> int) list) list result" where
  "getAvailabilityCalendar tzo b year month now h =
     bindr (branchOf h b) (\<lambda>_.
       Inr (map (\<lambda>x. (rt_id x, computeAvailabilityPerNight tzo h b (rt_id x) (firstOfMonth year (month - 1)) (firstOfMonth year month) None None now))
         (activeTypes h b)))"

record exposure =
  ex_date :: day
  ex_physicalPool :: int
  ex_netCapacity :: int
  ex_ceilingCapacity :: int
  ex_reserved :: int
  ex_isOverbooked :: bool
  ex_isAlerting :: bool

definition exposureOn :: "tz_offset \<Rightarrow> house \<Rightarrow> nat \<Rightarrow> nat \<Rightarrow> instant \<Rightarrow> instant \<Rightarrow> instant \<Rightarrow> instant \<Rightarrow> exposure" where
  "exposureOn tzo h b rt from till now night =
     (let reserved = int (heldBy (holdingStays tzo h b rt from till None now) night);
          net = netCapacity h b rt from till night;
          config = governing h b rt night;
          alertThreshold = (case config of None \<Rightarrow> None
             | Some c \<Rightarrow> (case oc_alertPct c of None \<Rightarrow> None | Some p \<Rightarrow> Some \<lfloor>dbl (of_int net * dbl (dbl p / 100))\<rfloor>))
      in \<lparr>ex_date = day_key night, ex_physicalPool = int (card (inServiceOn (sellableRooms h b rt) night)), ex_netCapacity = net,
          ex_ceilingCapacity = ceilingCapacity net config, ex_reserved = reserved, ex_isOverbooked = reserved > net,
          ex_isAlerting = (case alertThreshold of None \<Rightarrow> False | Some t \<Rightarrow> t \<le> reserved)\<rparr>)"

definition getOverbookingExposure :: "tz_offset \<Rightarrow> nat \<Rightarrow> int \<Rightarrow> int \<Rightarrow> instant \<Rightarrow> house \<Rightarrow> (nat \<times> exposure list) list result" where
  "getOverbookingExposure tzo b year month now h =
     (let from = firstOfMonth year (month - 1); till = firstOfMonth year month
      in bindr (branchOf h b) (\<lambda>_.
        Inr (map (\<lambda>x. (rt_id x, map (exposureOn tzo h b (rt_id x) from till now) (enumerateNights from till))) (activeTypes h b))))"

section \<open>Group blocks\<close>

definition assertGroupBlockOpen :: "house \<Rightarrow> nat \<Rightarrow> nat \<Rightarrow> nat \<Rightarrow> group_block result" where
  "assertGroupBlockOpen h g b rt =
     (case List.find (\<lambda>x. gb_id x = g \<and> gb_branch x = b) (ho_groups h) of
        None \<Rightarrow> Inl (NotFound NOT_FOUND)
      | Some block \<Rightarrow>
          if gb_status block \<noteq> Active then Inl (Conflict CONFLICT)
          else if gb_roomType block \<noteq> rt then Inl (BadRequest VALIDATION_FAILED)
          else if gb_size block \<le> int (pickupOf h g) then Inl (Conflict CONFLICT)
          else Inr block)"

definition assertStaysInGroupBlock :: "house \<Rightarrow> nat \<Rightarrow> nat \<Rightarrow> instant \<Rightarrow> instant \<Rightarrow> unit result" where
  "assertStaysInGroupBlock h g rt checkIn checkOut =
     (case List.find (\<lambda>x. gb_id x = g) (ho_groups h) of
        None \<Rightarrow> Inr ()
      | Some block \<Rightarrow>
          if gb_roomType block \<noteq> rt then Inl (BadRequest VALIDATION_FAILED)
          else if outsideGroupBlock (gb_arrival block) (gb_departure block) (day_key checkIn) (day_key checkOut) then Inl (BadRequest VALIDATION_FAILED)
          else Inr ())"

definition MAX_BLOCK_NIGHTS :: int where
  "MAX_BLOCK_NIGHTS = 92"

record group_dto =
  gq_roomType :: nat
  gq_name :: string
  gq_size :: int
  gq_rate :: rat
  gq_arrival :: day
  gq_departure :: day
  gq_cutoff :: day
  gq_contactName :: "string option"

definition trimmed :: "string option \<Rightarrow> string option" where
  "trimmed t = (case t of None \<Rightarrow> None | Some s \<Rightarrow> if js_trim s = [] then None else Some (js_trim s))"

definition createBlock :: "tz_offset \<Rightarrow> nat \<Rightarrow> group_dto \<Rightarrow> nat \<Rightarrow> instant \<Rightarrow> house \<Rightarrow> (group_block \<times> house) result" where
  "createBlock tzo b dto actorId now h =
     (let arrival = toBranchDate (gq_arrival dto); departure = toBranchDate (gq_departure dto); cutoff = toBranchDate (gq_cutoff dto);
          invalid = Inl (BadRequest VALIDATION_FAILED)
      in if departure \<le> arrival then invalid
      else if departure - arrival > MAX_BLOCK_NIGHTS * DAY then invalid
      else if cutoff > arrival then invalid
      else bindr (branchOf h b) (\<lambda>br.
        if cutoff < branchToday tzo br now then invalid
        else bindr (assertRoomType h b (gq_roomType dto)) (\<lambda>rt.
          if \<exists>n \<in> set (computeAvailabilityPerNight tzo h b (rt_id rt) arrival departure None None now). snd n < gq_size dto
          then Inl (Conflict RESERVATION_NOT_AVAILABLE)
          else let row = \<lparr>gb_id = fresh h, gb_branch = b, gb_roomType = rt_id rt, gb_name = js_trim (gq_name dto), gb_size = gq_size dto,
                     gb_rate = num2 (gq_rate dto), gb_cutoff = cutoff, gb_status = Active, gb_arrival = Some arrival, gb_departure = Some departure,
                     gb_contactName = trimmed (gq_contactName dto)\<rparr>
               in Inr (row, log_action b (Some actorId) ''group_block.created'' (gb_id row) ((bump h)\<lparr>ho_groups := ho_groups h @ [row]\<rparr>)))))"

definition MANAGER_ROLES :: "string list" where
  "MANAGER_ROLES = [''owner'', ''manager'']"

definition releaseBlock :: "nat \<Rightarrow> jwt \<Rightarrow> house \<Rightarrow> house result" where
  "releaseBlock g actor h =
     (case List.find (\<lambda>x. gb_id x = g) (ho_groups h) of
        None \<Rightarrow> Inl (NotFound NOT_FOUND)
      | Some block \<Rightarrow>
          bindr (assertRoleAtBranch actor (gb_branch block) MANAGER_ROLES) (\<lambda>_.
          if gb_status block \<noteq> Active then Inl (Conflict CONFLICT)
          else bindr (branchOf h (gb_branch block)) (\<lambda>_.
            Inr (log_action (gb_branch block) (Some (jw_sub actor)) ''group_block.released'' g
              (h\<lparr>ho_groups := map (\<lambda>x. if gb_id x = g then x\<lparr>gb_status := Released\<rparr> else x) (ho_groups h)\<rparr>)))))"

section \<open>Restrictions\<close>

record restriction_dto =
  rd_roomType :: "nat option"
  rd_start :: day
  rd_end :: day
  rd_minLOS :: "int option"
  rd_maxLOS :: "int option"
  rd_closedToArrival :: "bool option"
  rd_stopSell :: "bool option"

text \<open>A stored or given length of stay that counts: \<^verbatim>\<open>r.minLOS &&\<close> is false for 0 as for none.\<close>

definition los :: "int option \<Rightarrow> int option" where
  "los n = (if n = Some 0 then None else n)"

definition createRestriction :: "nat \<Rightarrow> restriction_dto \<Rightarrow> nat \<Rightarrow> house \<Rightarrow> (restriction \<times> house) result" where
  "createRestriction b dto actorId h =
     (let startDate = toBranchDate (rd_start dto); endDate = toBranchDate (rd_end dto)
      in if \<not> startDate < endDate then Inl (BadRequest VALIDATION_FAILED)
      else if (case (los (rd_minLOS dto), los (rd_maxLOS dto)) of (Some m, Some x) \<Rightarrow> x < m | _ \<Rightarrow> False) then Inl (BadRequest VALIDATION_FAILED)
      else if los (rd_minLOS dto) = None \<and> los (rd_maxLOS dto) = None \<and> rd_closedToArrival dto \<noteq> Some True \<and> rd_stopSell dto \<noteq> Some True then Inl (BadRequest VALIDATION_FAILED)
      else bindr (case rd_roomType dto of None \<Rightarrow> Inr () | Some rt \<Rightarrow> bindr (assertRoomType h b rt) (\<lambda>_. Inr ())) (\<lambda>_.
        if \<exists>r \<in> set (ho_restrictions h). rs_branch r = b \<and> rs_roomType r = rd_roomType dto \<and> rs_start r < endDate \<and> startDate < rs_end r
        then Inl (Conflict CONFLICT)
        else let row = \<lparr>rs_id = fresh h, rs_branch = b, rs_roomType = rd_roomType dto, rs_start = startDate, rs_end = endDate,
                   rs_minLOS = rd_minLOS dto, rs_maxLOS = rd_maxLOS dto, rs_closedToArrival = the_default False (rd_closedToArrival dto),
                   rs_stopSell = the_default False (rd_stopSell dto)\<rparr>
             in Inr (row, log_action b (Some actorId) ''availability_restriction.created'' (rs_id row)
                  ((bump h)\<lparr>ho_restrictions := ho_restrictions h @ [row]\<rparr>))))"

definition deleteRestriction :: "nat \<Rightarrow> nat option \<Rightarrow> house \<Rightarrow> house result" where
  "deleteRestriction i actorId h =
     (case List.find (\<lambda>r. rs_id r = i) (ho_restrictions h) of
        None \<Rightarrow> Inl (NotFound NOT_FOUND)
      | Some r \<Rightarrow> Inr (log_action (rs_branch r) actorId ''availability_restriction.removed'' i
                    (h\<lparr>ho_restrictions := filter (\<lambda>r. rs_id r \<noteq> i) (ho_restrictions h)\<rparr>)))"

definition restrictionsOn :: "house \<Rightarrow> nat \<Rightarrow> nat \<Rightarrow> instant \<Rightarrow> instant \<Rightarrow> restriction list" where
  "restrictionsOn h b rt checkIn checkOut =
     filter (\<lambda>r. rs_branch r = b \<and> (rs_roomType r = None \<or> rs_roomType r = Some rt) \<and> rs_start r < checkOut \<and> checkIn < rs_end r) (ho_restrictions h)"

definition violates :: "instant \<Rightarrow> int \<Rightarrow> restriction \<Rightarrow> bool" where
  "violates checkIn stayLength r \<longleftrightarrow> rs_stopSell r \<or> rs_closedToArrival r \<and> rs_start r \<le> checkIn \<and> checkIn < rs_end r \<or>
     (case los (rs_minLOS r) of None \<Rightarrow> False | Some m \<Rightarrow> stayLength < m) \<or> (case los (rs_maxLOS r) of None \<Rightarrow> False | Some m \<Rightarrow> m < stayLength)"

definition assertNoViolation :: "house \<Rightarrow> nat \<Rightarrow> nat \<Rightarrow> instant \<Rightarrow> instant \<Rightarrow> unit result" where
  "assertNoViolation h b rt checkIn checkOut =
     (if \<exists>r \<in> set (restrictionsOn h b rt checkIn checkOut). violates checkIn (round_days (checkOut - checkIn)) r
      then Inl (Conflict RESERVATION_NOT_AVAILABLE) else Inr ())"

definition assertExtensionAllowed :: "house \<Rightarrow> nat \<Rightarrow> nat \<Rightarrow> instant \<Rightarrow> instant \<Rightarrow> instant \<Rightarrow> unit result" where
  "assertExtensionAllowed h b rt checkIn oldOut newOut =
     (if \<exists>r \<in> set (restrictionsOn h b rt checkIn newOut).
           rs_stopSell r \<and> rs_start r < newOut \<and> oldOut < rs_end r \<or>
           (case los (rs_maxLOS r) of None \<Rightarrow> False | Some m \<Rightarrow> m < round_days (newOut - checkIn))
      then Inl (Conflict RESERVATION_NOT_AVAILABLE) else Inr ())"

section \<open>Channel allotments\<close>

record allotment_dto =
  aq_roomType :: nat
  aq_channel :: reservation_channel
  aq_from :: day
  aq_to :: day
  aq_rooms :: int

definition createAllotment :: "nat \<Rightarrow> allotment_dto \<Rightarrow> nat \<Rightarrow> house \<Rightarrow> (allotment \<times> house) result" where
  "createAllotment b dto actorId h =
     bindr (branchOf h b) (\<lambda>_. bindr (assertRoomType h b (aq_roomType dto)) (\<lambda>_.
       if aq_to dto < aq_from dto then Inl (BadRequest VALIDATION_FAILED)
       else let row = \<lparr>al_id = fresh h, al_branch = b, al_roomType = aq_roomType dto, al_channel = aq_channel dto,
                  al_from = toBranchDate (aq_from dto), al_to = toBranchDate (aq_to dto), al_rooms = aq_rooms dto\<rparr>
            in Inr (row, log_action b (Some actorId) ''channel_allotment.created'' (al_id row) ((bump h)\<lparr>ho_allotments := ho_allotments h @ [row]\<rparr>))))"

definition updateAllotment :: "nat \<Rightarrow> day option \<Rightarrow> day option \<Rightarrow> int option \<Rightarrow> nat \<Rightarrow> house \<Rightarrow> (allotment \<times> house) result" where
  "updateAllotment i fromDate toDate rooms actorId h =
     (case List.find (\<lambda>a. al_id a = i) (ho_allotments h) of
        None \<Rightarrow> Inl (NotFound NOT_FOUND)
      | Some existing \<Rightarrow>
          (let from = the_default (day_key (al_from existing)) fromDate; till = the_default (day_key (al_to existing)) toDate;
               upd = (\<lambda>a. a\<lparr>al_from := toBranchDate from, al_to := toBranchDate till, al_rooms := the_default (al_rooms a) rooms\<rparr>)
           in if till < from then Inl (BadRequest VALIDATION_FAILED)
              else Inr (upd existing, log_action (al_branch existing) (Some actorId) ''channel_allotment.updated'' i
                     (h\<lparr>ho_allotments := map (\<lambda>a. if al_id a = i then upd a else a) (ho_allotments h)\<rparr>))))"

definition removeAllotment :: "nat \<Rightarrow> nat \<Rightarrow> house \<Rightarrow> house result" where
  "removeAllotment i actorId h =
     (case List.find (\<lambda>a. al_id a = i) (ho_allotments h) of
        None \<Rightarrow> Inl (NotFound NOT_FOUND)
      | Some existing \<Rightarrow> Inr (log_action (al_branch existing) (Some actorId) ''channel_allotment.removed'' i
                    (h\<lparr>ho_allotments := filter (\<lambda>a. al_id a \<noteq> i) (ho_allotments h)\<rparr>)))"

text \<open>Each night an allotment covers: the night, the smallest covering allotment, and what the channel has sold.\<close>

definition coveredNights :: "house \<Rightarrow> nat \<Rightarrow> nat \<Rightarrow> reservation_channel \<Rightarrow> instant \<Rightarrow> instant \<Rightarrow> nat option \<Rightarrow> (instant \<times> int \<times> int) list" where
  "coveredNights h b rt channel from till except =
     (let allotments = filter (\<lambda>a. al_branch a = b \<and> al_roomType a = rt \<and> al_channel a = channel \<and> al_from a < till \<and> from \<le> al_to a) (ho_allotments h);
          stays = filter (\<lambda>r. re_branch r = b \<and> re_roomType r = rt \<and> re_channel r = channel \<and> \<not> re_deleted r \<and> \<not> re_isDayUse r \<and>
                    re_status r \<in> {Confirmed, Checked_in} \<and> re_checkInDate r < till \<and> from < re_checkOutDate r \<and> except \<noteq> Some (re_id r)) (ho_stays h)
      in List.map_filter (\<lambda>night.
           case filter (\<lambda>a. al_from a \<le> night \<and> night \<le> al_to a) allotments of
             [] \<Rightarrow> None
           | covering \<Rightarrow> Some (night, Min (set (map al_rooms covering)),
                 int (length (filter (\<lambda>r. re_checkInDate r \<le> night \<and> night < re_checkOutDate r) stays))))
         (enumerateNights from till))"

definition assertWithinAllotment :: "house \<Rightarrow> nat \<Rightarrow> nat \<Rightarrow> reservation_channel \<Rightarrow> instant \<Rightarrow> instant \<Rightarrow> nat option \<Rightarrow> unit result" where
  "assertWithinAllotment h b rt channel from till except =
     (if \<exists>(night, limit, sold) \<in> set (coveredNights h b rt channel from till except). limit < sold + 1
      then Inl (Conflict RESERVATION_NOT_AVAILABLE) else Inr ())"

definition remainingByNight :: "house \<Rightarrow> nat \<Rightarrow> nat \<Rightarrow> reservation_channel \<Rightarrow> instant \<Rightarrow> instant \<Rightarrow> (day \<times> int) list" where
  "remainingByNight h b rt channel from till =
     map (\<lambda>(night, limit, sold). (day_key night, max 0 (limit - sold))) (coveredNights h b rt channel from till None)"

section \<open>A ceiling one room short\<close>

text \<open>
  The ceiling is computed with binary fractions: 1.15 is a little less than fifteen per cent
  over, so a hundred rooms that may be overbooked by 15 % are sold up to 114, not 115.
\<close>

definition fifteen_over :: overbooking_config where
  "fifteen_over = \<lparr>oc_id = 1, oc_branch = 1, oc_roomType = None, oc_enabled = True, oc_maxPct = Some 15, oc_alertPct = None, oc_validFrom = None, oc_validTo = None\<rparr>"

theorem overbooking_ceiling_one_short:
  "ceilingCapacity 100 (Some fifteen_over) = 114 \<and> \<lfloor>(100 :: rat) * (1 + 15 / 100)\<rfloor> = 115"
  by code_simp

end
