(* ===== verification/Rooms.thy ===== *)
theory Rooms
  imports Inventory
begin

text \<open>
  The rooms of a branch (\<^verbatim>\<open>property/rooms.service.ts\<close>, and the buildings and floors of
  \<^verbatim>\<open>property/property.service.ts\<close>): room types, numbering and bringing rooms back, editing and removing
  them, the three axes of a room's status, holds with a release date, and blocks. Photos are
  stored outside the database and are not modelled.
\<close>

section \<open>Buildings and floors\<close>

definition createBuilding :: "nat \<Rightarrow> string \<Rightarrow> nat \<Rightarrow> house \<Rightarrow> (building \<times> house) result" where
  "createBuilding b name actorId h =
     bindr (branchOf h b) (\<lambda>_.
       let row = \<lparr>bu_id = fresh h, bu_branch = b, bu_name = Some name\<rparr>
       in Inr (row, log_action b (Some actorId) ''building.created'' (bu_id row) ((bump h)\<lparr>ho_buildings := ho_buildings h @ [row]\<rparr>)))"

definition insert_floor :: "nat \<Rightarrow> int \<Rightarrow> string option \<Rightarrow> house \<Rightarrow> floor_row \<times> house" where
  "insert_floor bu number label h =
     (let row = \<lparr>fl_id = fresh h, fl_building = bu, fl_number = number, fl_label = label\<rparr>
      in (row, (bump h)\<lparr>ho_floors := ho_floors h @ [row]\<rparr>))"

definition createFloor :: "nat \<Rightarrow> int \<Rightarrow> string option \<Rightarrow> nat \<Rightarrow> house \<Rightarrow> (floor_row \<times> house) result" where
  "createFloor bu number label actorId h =
     (case List.find (\<lambda>x. bu_id x = bu) (ho_buildings h) of
        None \<Rightarrow> Inl (NotFound NOT_FOUND)
      | Some _ \<Rightarrow> (let (row, h) = insert_floor bu number label h in Inr (row, log_tenant (Some actorId) ''floor.created'' (fl_id row) h)))"

definition findOrCreateDefaultBuilding :: "nat \<Rightarrow> house \<Rightarrow> building \<times> house" where
  "findOrCreateDefaultBuilding b h =
     (case List.find (\<lambda>x. bu_branch x = b \<and> bu_name x = None) (ho_buildings h) of
        Some x \<Rightarrow> (x, h)
      | None \<Rightarrow> (let row = \<lparr>bu_id = fresh h, bu_branch = b, bu_name = None\<rparr> in (row, (bump h)\<lparr>ho_buildings := ho_buildings h @ [row]\<rparr>)))"

definition findOrCreateDefaultFloor :: "nat \<Rightarrow> house \<Rightarrow> floor_row \<times> house" where
  "findOrCreateDefaultFloor b h =
     (let (building, h) = findOrCreateDefaultBuilding b h
      in case List.find (\<lambda>x. fl_building x = bu_id building \<and> fl_label x = None) (ho_floors h) of
           Some x \<Rightarrow> (x, h)
         | None \<Rightarrow> insert_floor (bu_id building) 0 None h)"

definition createBranchFloor :: "nat \<Rightarrow> int \<Rightarrow> string option \<Rightarrow> nat \<Rightarrow> house \<Rightarrow> (floor_row \<times> house) result" where
  "createBranchFloor b number label actorId h =
     bindr (branchOf h b) (\<lambda>_.
       let (building, h) = findOrCreateDefaultBuilding b h;
           (row, h) = insert_floor (bu_id building) number label h
       in Inr (row, log_tenant (Some actorId) ''floor.created'' (fl_id row) h))"

definition renameBuilding :: "nat \<Rightarrow> string \<Rightarrow> nat \<Rightarrow> house \<Rightarrow> house result" where
  "renameBuilding bu name actorId h =
     (case List.find (\<lambda>x. bu_id x = bu) (ho_buildings h) of
        None \<Rightarrow> Inl (NotFound NOT_FOUND)
      | Some x \<Rightarrow> Inr (log_action (bu_branch x) (Some actorId) ''building.renamed'' bu
          (h\<lparr>ho_buildings := map (\<lambda>x. if bu_id x = bu then x\<lparr>bu_name := Some (js_trim name)\<rparr> else x) (ho_buildings h)\<rparr>)))"

definition updateFloor :: "nat \<Rightarrow> int option \<Rightarrow> string option \<Rightarrow> nat \<Rightarrow> house \<Rightarrow> house result" where
  "updateFloor fl number label actorId h =
     (case List.find (\<lambda>x. fl_id x = fl) (ho_floors h) of
        None \<Rightarrow> Inl (NotFound NOT_FOUND)
      | Some _ \<Rightarrow> Inr (log_tenant (Some actorId) ''floor.updated'' fl
          (h\<lparr>ho_floors := map (\<lambda>x. if fl_id x = fl then x\<lparr>fl_number := the_default (fl_number x) number,
               fl_label := (case label of None \<Rightarrow> fl_label x | Some _ \<Rightarrow> trimmed label)\<rparr> else x) (ho_floors h)\<rparr>)))"

definition floorAt :: "house \<Rightarrow> nat \<Rightarrow> nat \<Rightarrow> floor_row option" where
  "floorAt h b fl =
     List.find (\<lambda>x. fl_id x = fl \<and> (\<exists>y \<in> set (ho_buildings h). bu_id y = fl_building x \<and> bu_branch y = b)) (ho_floors h)"

section \<open>Room types\<close>

record room_type_dto =
  tq_name :: string
  tq_baseRate :: rat
  tq_adults :: int
  tq_children :: int
  tq_adultsIncluded :: "int option"
  tq_extraAdultRate :: "rat option"
  tq_childrenIncluded :: "int option"
  tq_childRate :: "rat option"
  tq_dayUseRate :: "rat option"

definition createRoomType :: "nat \<Rightarrow> room_type_dto \<Rightarrow> nat \<Rightarrow> house \<Rightarrow> (room_type \<times> house) result" where
  "createRoomType b dto actorId h =
     bindr (branchOf h b) (\<lambda>_.
       let row = \<lparr>rt_id = fresh h, rt_branch = b, rt_name = tq_name dto, rt_baseRate = num2 (tq_baseRate dto), rt_capacityAdults = tq_adults dto,
             rt_capacityChildren = tq_children dto, rt_adultsIncluded = tq_adultsIncluded dto, rt_extraAdultRate = map_option num2 (tq_extraAdultRate dto),
             rt_childrenIncluded = the_default 0 (tq_childrenIncluded dto), rt_childRate = map_option num2 (tq_childRate dto),
             rt_dayUseRate = map_option num2 (tq_dayUseRate dto), rt_deleted = False\<rparr>
       in Inr (row, log_action b (Some actorId) ''room_type.created'' (rt_id row)
            (ho_db_update (\<lambda>d. d\<lparr>db_roomTypes := db_roomTypes d @ [row]\<rparr>) (bump h))))"

text \<open>In a patch, \<open>None\<close> leaves a column and \<open>Some None\<close> empties it.\<close>

record room_type_patch =
  tp_name :: "string option"
  tp_baseRate :: "rat option"
  tp_capacity :: "(int \<times> int) option"
  tp_adultsIncluded :: "int option option"
  tp_extraAdultRate :: "rat option option"
  tp_childrenIncluded :: "int option"
  tp_childRate :: "rat option option"
  tp_dayUseRate :: "rat option option"

definition patchRoomType :: "room_type_patch \<Rightarrow> room_type \<Rightarrow> room_type" where
  "patchRoomType dto x = x\<lparr>rt_name := the_default (rt_name x) (tp_name dto),
     rt_baseRate := (case tp_baseRate dto of None \<Rightarrow> rt_baseRate x | Some r \<Rightarrow> num2 r),
     rt_capacityAdults := (case tp_capacity dto of None \<Rightarrow> rt_capacityAdults x | Some c \<Rightarrow> fst c),
     rt_capacityChildren := (case tp_capacity dto of None \<Rightarrow> rt_capacityChildren x | Some c \<Rightarrow> snd c),
     rt_adultsIncluded := the_default (rt_adultsIncluded x) (tp_adultsIncluded dto),
     rt_extraAdultRate := (case tp_extraAdultRate dto of None \<Rightarrow> rt_extraAdultRate x | Some r \<Rightarrow> map_option num2 r),
     rt_childrenIncluded := the_default (rt_childrenIncluded x) (tp_childrenIncluded dto),
     rt_childRate := (case tp_childRate dto of None \<Rightarrow> rt_childRate x | Some r \<Rightarrow> map_option num2 r),
     rt_dayUseRate := (case tp_dayUseRate dto of None \<Rightarrow> rt_dayUseRate x | Some r \<Rightarrow> map_option num2 r)\<rparr>"

definition updateRoomType :: "nat \<Rightarrow> room_type_patch \<Rightarrow> nat \<Rightarrow> house \<Rightarrow> (room_type \<times> house) result" where
  "updateRoomType rt dto actorId h =
     (case List.find (\<lambda>x. rt_id x = rt \<and> \<not> rt_deleted x) (db_roomTypes (ho_db h)) of
        None \<Rightarrow> Inl (NotFound NOT_FOUND)
      | Some x \<Rightarrow> Inr (patchRoomType dto x, log_action (rt_branch x) (Some actorId) ''room_type.updated'' rt
          (ho_db_update (\<lambda>d. d\<lparr>db_roomTypes := map (\<lambda>x. if rt_id x = rt then patchRoomType dto x else x) (db_roomTypes d)\<rparr>) h)))"

section \<open>Adding rooms\<close>

record bulk_rooms_dto =
  bq_roomType :: nat
  bq_floor :: "nat option"
  bq_range :: "(string option \<times> int \<times> int) option"
  bq_numbers :: "string list option"
  bq_view :: "string option"

definition show_number :: "int \<Rightarrow> string" where
  "show_number n = (if n < 0 then CHR ''-'' # show_nat (nat (- n)) else show_nat (nat n))"

definition expandNumbers :: "bulk_rooms_dto \<Rightarrow> string list result" where
  "expandNumbers dto =
     bindr (case bq_range dto of
         None \<Rightarrow> Inr []
       | Some (prefix, from, till) \<Rightarrow>
           if till < from then Inl (BadRequest VALIDATION_FAILED)
           else if till - from + 1 > 500 then Inl (BadRequest VALIDATION_FAILED)
           else Inr (map (\<lambda>n. the_default [] prefix @ show_number n) [from..till]))
     (\<lambda>ranged.
       let unique = js_unique (ranged @ filter (\<lambda>n. n \<noteq> []) (map js_trim (the_default [] (bq_numbers dto))))
       in if unique = [] then Inl (BadRequest VALIDATION_FAILED) else Inr unique)"

definition broughtBack :: "nat \<Rightarrow> nat \<Rightarrow> string option \<Rightarrow> nat \<Rightarrow> room \<Rightarrow> room" where
  "broughtBack rt fl view actorId r = r\<lparr>rm_deleted := False, rm_roomType := rt, rm_floor := fl, rm_view := view, rm_occupancy := Vacant,
     rm_cleanliness := Dirty, rm_held := None, rm_statusBy := Some actorId\<rparr>"

fun new_rooms :: "nat \<Rightarrow> nat \<Rightarrow> nat \<Rightarrow> string option \<Rightarrow> string list \<Rightarrow> house \<Rightarrow> house" where
  "new_rooms b rt fl view [] h = h"
| "new_rooms b rt fl view (n # ns) h =
     new_rooms b rt fl view ns ((bump h)\<lparr>ho_rooms := ho_rooms h @
       [\<lparr>rm_id = fresh h, rm_branch = b, rm_roomType = rt, rm_floor = fl, rm_number = n, rm_occupancy = Vacant, rm_cleanliness = Clean, rm_held = None,
         rm_heldUntil = None, rm_view = view, rm_notes = None, rm_statusBy = None, rm_deleted = False\<rparr>]\<rparr>)"

definition bulkCreateRooms :: "nat \<Rightarrow> bulk_rooms_dto \<Rightarrow> nat \<Rightarrow> house \<Rightarrow> (room list \<times> house) result" where
  "bulkCreateRooms b dto actorId h =
     bindr (expandNumbers dto) (\<lambda>numbers.
     bindr (branchOf h b) (\<lambda>_.
     bindr (assertRoomType h b (bq_roomType dto)) (\<lambda>rt.
     bindr (case bq_floor dto of
         Some fl \<Rightarrow> (case floorAt h b fl of None \<Rightarrow> Inl (NotFound NOT_FOUND) | Some _ \<Rightarrow> Inr (fl, h))
       | None \<Rightarrow> (let (fl, h) = findOrCreateDefaultFloor b h in Inr (fl_id fl, h))) (\<lambda>(fl, h).
       let clashes = filter (\<lambda>r. rm_branch r = b \<and> rm_number r \<in> set numbers) (ho_rooms h)
       in if \<exists>r \<in> set clashes. \<not> rm_deleted r then Inl (Conflict ROOM_NUMBERS_TAKEN)
       else let restored = map rm_number clashes;
                h = h\<lparr>ho_rooms := map (\<lambda>r. if rm_branch r = b \<and> rm_number r \<in> set numbers then broughtBack (bq_roomType dto) fl (bq_view dto) actorId r else r) (ho_rooms h)\<rparr>;
                h = new_rooms b (bq_roomType dto) fl (bq_view dto) (filter (\<lambda>n. n \<notin> set restored) numbers) h;
                h = log_action b (Some actorId) ''room.bulk_created'' (bq_roomType dto) h
            in Inr (sort_key rm_number (filter (\<lambda>r. rm_branch r = b \<and> rm_number r \<in> set numbers) (ho_rooms h)), h)))))"

section \<open>Editing and removing rooms\<close>

definition findRoom :: "house \<Rightarrow> nat \<Rightarrow> room result" where
  "findRoom h i = (case List.find (\<lambda>r. rm_id r = i \<and> \<not> rm_deleted r) (ho_rooms h) of None \<Rightarrow> Inl (NotFound NOT_FOUND) | Some r \<Rightarrow> Inr r)"

definition set_room :: "nat \<Rightarrow> (room \<Rightarrow> room) \<Rightarrow> house \<Rightarrow> house" where
  "set_room i f h = h\<lparr>ho_rooms := map (\<lambda>r. if rm_id r = i then f r else r) (ho_rooms h)\<rparr>"

text \<open>
  The nights from today each stay of the type needs; the map the code builds counts a night as
  often as it occurs here, and it refuses when the largest count is more than the rooms left.
\<close>

definition neededNights :: "house \<Rightarrow> nat \<Rightarrow> nat \<Rightarrow> instant \<Rightarrow> instant list" where
  "neededNights h b rt today =
     concat (map (\<lambda>r. enumerateNights (if re_checkInDate r > today then re_checkInDate r else today)
                        (if re_status r = Checked_in \<and> re_checkOutDate r \<le> today then today + DAY else re_checkOutDate r))
       (filter (\<lambda>r. re_branch r = b \<and> re_roomType r = rt \<and> \<not> re_deleted r \<and>
          (re_status r \<in> {Confirmed, Checked_in} \<and> today < re_checkOutDate r \<or> re_status r = Checked_in)) (ho_stays h)))"

definition assertTypeCanSpareARoom :: "tz_offset \<Rightarrow> house \<Rightarrow> nat \<Rightarrow> nat \<Rightarrow> instant \<Rightarrow> unit result" where
  "assertTypeCanSpareARoom tzo h b rt now =
     bindr (branchOf h b) (\<lambda>br.
       let rooms = length (filter (\<lambda>r. rm_branch r = b \<and> rm_roomType r = rt \<and> \<not> rm_deleted r) (ho_rooms h));
           keys = map day_key (neededNights h b rt (branchToday tzo br now))
       in if \<exists>k \<in> set keys. int (count_list keys k) > int rooms - 1 then Inl (Conflict CONFLICT) else Inr ())"

record room_patch =
  ru_number :: "string option"
  ru_type :: "nat option"
  ru_floor :: "nat option"
  ru_view :: "string option"
  ru_notes :: "string option"

definition updateRoom :: "tz_offset \<Rightarrow> nat \<Rightarrow> room_patch \<Rightarrow> nat \<Rightarrow> instant \<Rightarrow> house \<Rightarrow> (room \<times> house) result" where
  "updateRoom tzo i dto actorId now h =
     bindr (findRoom h i) (\<lambda>room.
     let number = trimmed (ru_number dto)
     in bindr (case number of
           Some n \<Rightarrow> if n \<noteq> rm_number room \<and> (\<exists>r \<in> set (ho_rooms h). rm_branch r = rm_branch room \<and> rm_number r = n \<and> rm_id r \<noteq> i)
                     then Inl (Conflict ROOM_NUMBERS_TAKEN) else Inr ()
         | None \<Rightarrow> Inr ()) (\<lambda>_.
     bindr (case ru_type dto of
           Some rt \<Rightarrow> if rt = rm_roomType room then Inr ()
                      else bindr (assertRoomType h (rm_branch room) rt) (\<lambda>_.
                        if rm_occupancy room = Occupied then Inl (Conflict CONFLICT)
                        else assertTypeCanSpareARoom tzo h (rm_branch room) (rm_roomType room) now)
         | None \<Rightarrow> Inr ()) (\<lambda>_.
     bindr (case ru_floor dto of
           Some fl \<Rightarrow> if fl \<noteq> rm_floor room \<and> floorAt h (rm_branch room) fl = None then Inl (NotFound NOT_FOUND) else Inr ()
         | None \<Rightarrow> Inr ()) (\<lambda>_.
     let upd = (\<lambda>r. r\<lparr>rm_number := the_default (rm_number r) number, rm_roomType := the_default (rm_roomType r) (ru_type dto),
             rm_floor := the_default (rm_floor r) (ru_floor dto), rm_view := (case ru_view dto of None \<Rightarrow> rm_view r | Some _ \<Rightarrow> trimmed (ru_view dto)),
             rm_notes := (case ru_notes dto of None \<Rightarrow> rm_notes r | Some _ \<Rightarrow> trimmed (ru_notes dto))\<rparr>)
     in if upd room = room then Inr (room, h)
        else Inr (upd room, log_action (rm_branch room) (Some actorId) ''room.updated'' i (set_room i upd h))))))"

definition removeRoom :: "tz_offset \<Rightarrow> nat \<Rightarrow> nat \<Rightarrow> instant \<Rightarrow> house \<Rightarrow> house result" where
  "removeRoom tzo i actorId now h =
     bindr (findRoom h i) (\<lambda>room.
     if rm_occupancy room = Occupied then Inl (Conflict CONFLICT)
     else bindr (assertTypeCanSpareARoom tzo h (rm_branch room) (rm_roomType room) now) (\<lambda>_.
       Inr (log_action (rm_branch room) (Some actorId) ''room.removed'' i (set_room i (\<lambda>r. r\<lparr>rm_deleted := True\<rparr>) h))))"

section \<open>Room status\<close>

definition CLEANLINESS_TRANSITIONS :: "cleanliness_status \<Rightarrow> cleanliness_status list" where
  "CLEANLINESS_TRANSITIONS from = (case from of Dirty \<Rightarrow> [Cleaning] | Cleaning \<Rightarrow> [Clean, Dirty] | Clean \<Rightarrow> [Inspected, Dirty] | Inspected \<Rightarrow> [Dirty])"

record status_dto =
  sq_occupancy :: "occupancy_status option"
  sq_cleanliness :: "cleanliness_status option"
  sq_held :: "held_status option option"
  sq_heldUntil :: "day option option"

definition roomSupervisor :: "jwt \<Rightarrow> nat \<Rightarrow> bool" where
  "roomSupervisor actor b \<longleftrightarrow> (\<exists>r \<in> set (jw_roles actor). ra_role r \<in> {''owner'', ''manager''} \<and> (ra_branch r = None \<or> ra_branch r = Some b))"

definition heldUntilAfter :: "status_dto \<Rightarrow> held_status option \<Rightarrow> instant option \<Rightarrow> instant option" where
  "heldUntilAfter dto heldAfter old =
     (case sq_heldUntil dto of
        Some (Some d) \<Rightarrow> Some (toBranchDate d)
      | Some None \<Rightarrow> None
      | None \<Rightarrow> if heldAfter = None then None else old)"

definition changeStatus :: "tz_offset \<Rightarrow> nat \<Rightarrow> status_dto \<Rightarrow> jwt \<Rightarrow> instant \<Rightarrow> house \<Rightarrow> (room \<times> house) result" where
  "changeStatus tzo i dto actor now h =
     (if sq_occupancy dto = None \<and> sq_cleanliness dto = None \<and> sq_held dto = None \<and> sq_heldUntil dto = None then Inl (BadRequest VALIDATION_FAILED)
      else bindr (findRoom h i) (\<lambda>room.
        let isSupervisor = roomSupervisor actor (rm_branch room);
            heldAfter = the_default (rm_held room) (sq_held dto)
        in if sq_occupancy dto \<noteq> None \<and> \<not> isSupervisor then Inl (Forbidden FORBIDDEN)
        else if (case sq_cleanliness dto of None \<Rightarrow> False | Some c \<Rightarrow> rm_cleanliness room \<noteq> c \<and> c \<notin> set (CLEANLINESS_TRANSITIONS (rm_cleanliness room)))
        then Inl (Conflict INVALID_STATUS_TRANSITION)
        else if sq_cleanliness dto = Some Inspected \<and> \<not> isSupervisor then Inl (Forbidden FORBIDDEN)
        else if (sq_held dto \<noteq> None \<or> sq_heldUntil dto \<noteq> None) \<and> \<not> isSupervisor then Inl (Forbidden FORBIDDEN)
        else bindr (case sq_heldUntil dto of
              Some (Some d) \<Rightarrow> if heldAfter = None then Inl (BadRequest VALIDATION_FAILED)
                 else bindr (branchOf h (rm_branch room)) (\<lambda>br.
                   if d \<le> todayInTimezone tzo (br_timezone br) now then Inl (BadRequest VALIDATION_FAILED) else Inr ())
            | _ \<Rightarrow> Inr ()) (\<lambda>_.
          let upd = (\<lambda>r. r\<lparr>rm_occupancy := the_default (rm_occupancy r) (sq_occupancy dto), rm_cleanliness := the_default (rm_cleanliness r) (sq_cleanliness dto),
                rm_held := the_default (rm_held r) (sq_held dto), rm_heldUntil := heldUntilAfter dto heldAfter (rm_heldUntil r), rm_statusBy := Some (jw_sub actor)\<rparr>)
          in Inr (upd room, log_action (rm_branch room) (Some (jw_sub actor)) ''room.status_changed'' i (set_room i upd h)))))"

definition holdDue :: "tz_offset \<Rightarrow> house \<Rightarrow> instant \<Rightarrow> room \<Rightarrow> bool" where
  "holdDue tzo h now r \<longleftrightarrow> \<not> rm_deleted r \<and> rm_held r \<noteq> None \<and>
     (case (rm_heldUntil r, List.find (\<lambda>b. br_id b = rm_branch r) (db_branches (ho_db h))) of
        (Some u, Some b) \<Rightarrow> u \<le> branchToday tzo b now | _ \<Rightarrow> False)"

definition releaseDueHolds :: "tz_offset \<Rightarrow> instant \<Rightarrow> house \<Rightarrow> nat \<times> house" where
  "releaseDueHolds tzo now h =
     (let due = filter (holdDue tzo h now) (ho_rooms h)
      in (length due, foldl (\<lambda>h r. log_action (rm_branch r) None ''room.hold_released'' (rm_id r)
             (set_room (rm_id r) (\<lambda>x. x\<lparr>rm_held := None, rm_heldUntil := None, rm_statusBy := None\<rparr>) h)) h due))"

definition applyReservationOccupancy :: "nat \<Rightarrow> occupancy_status \<Rightarrow> cleanliness_status option \<Rightarrow> nat option \<Rightarrow> house \<Rightarrow> house result" where
  "applyReservationOccupancy i occ clean actorId h =
     bindr (findRoom h i) (\<lambda>room.
       Inr (log_action (rm_branch room) actorId ''room.status_changed'' i
         (set_room i (\<lambda>r. r\<lparr>rm_occupancy := occ, rm_cleanliness := the_default (rm_cleanliness r) clean, rm_statusBy := actorId\<rparr>) h)))"

section \<open>Blocks\<close>

definition stayLeaves :: "instant \<Rightarrow> reservation \<Rightarrow> instant" where
  "stayLeaves today r = (if re_status r = Checked_in \<and> re_checkOutDate r < today then today + DAY else re_checkOutDate r)"

definition blockRoom :: "tz_offset \<Rightarrow> nat \<Rightarrow> block_reason \<Rightarrow> day \<Rightarrow> day \<Rightarrow> nat \<Rightarrow> instant \<Rightarrow> house \<Rightarrow> (room_block \<times> house) result" where
  "blockRoom tzo i reason fromDay toDay actorId now h =
     (let from = toBranchDate fromDay; till = toBranchDate toDay
      in if till < from then Inl (BadRequest VALIDATION_FAILED)
      else bindr (findRoom h i) (\<lambda>room.
        if \<exists>k \<in> set (ho_blocks h). rb_room k = i \<and> rb_from k \<le> till \<and> from \<le> rb_to k then Inl (Conflict CONFLICT)
        else bindr (branchOf h (rm_branch room)) (\<lambda>br.
          if \<exists>r \<in> set (ho_stays h). re_room r = Some i \<and> \<not> re_deleted r \<and> re_status r \<in> {Checked_in, Confirmed} \<and> re_checkInDate r \<le> till \<and>
               from < stayLeaves (branchToday tzo br now) r then Inl (Conflict CONFLICT)
          else let row = \<lparr>rb_id = fresh h, rb_room = i, rb_reason = reason, rb_from = from, rb_to = till, rb_createdBy = Some actorId\<rparr>
               in Inr (row, log_action (rm_branch room) (Some actorId) ''room.blocked'' (rb_id row) ((bump h)\<lparr>ho_blocks := ho_blocks h @ [row]\<rparr>)))))"

definition listActiveBlocks :: "tz_offset \<Rightarrow> nat \<Rightarrow> instant \<Rightarrow> house \<Rightarrow> room_block list result" where
  "listActiveBlocks tzo b now h =
     bindr (branchOf h b) (\<lambda>br.
       Inr (sort_key rb_from (filter (\<lambda>k. (\<exists>r \<in> set (ho_rooms h). rm_id r = rb_room k \<and> rm_branch r = b \<and> \<not> rm_deleted r) \<and> branchToday tzo br now \<le> rb_to k) (ho_blocks h))))"

definition unblockRoom :: "tz_offset \<Rightarrow> nat \<Rightarrow> nat \<Rightarrow> instant \<Rightarrow> house \<Rightarrow> house result" where
  "unblockRoom tzo k actorId now h =
     (case List.find (\<lambda>x. rb_id x = k) (ho_blocks h) of
        None \<Rightarrow> Inl (NotFound NOT_FOUND)
      | Some block \<Rightarrow>
          (case List.find (\<lambda>r. rm_id r = rb_room block) (ho_rooms h) of
             None \<Rightarrow> Inl PlainError
           | Some room \<Rightarrow>
               bindr (branchOf h (rm_branch room)) (\<lambda>br.
               let t = branchToday tzo br now
               in if rb_to block < t then Inl (Conflict INVALID_STATUS_TRANSITION)
               else if t \<le> rb_from block
               then Inr (log_action (rm_branch room) (Some actorId) ''room.block_cancelled'' k (h\<lparr>ho_blocks := filter (\<lambda>x. rb_id x \<noteq> k) (ho_blocks h)\<rparr>))
               else Inr (log_action (rm_branch room) (Some actorId) ''room.unblocked'' k
                      (h\<lparr>ho_blocks := map (\<lambda>x. if rb_id x = k then x\<lparr>rb_to := t - DAY\<rparr> else x) (ho_blocks h)\<rparr>)))))"

section \<open>What these leave alone\<close>

lemma set_room_sel [row_simps, simp]:
  "ho_db (set_room i f h) = ho_db h" "ho_blocks (set_room i f h) = ho_blocks h" "ho_groups (set_room i f h) = ho_groups h"
  "ho_overbooking (set_room i f h) = ho_overbooking h" "ho_restrictions (set_room i f h) = ho_restrictions h" "ho_allotments (set_room i f h) = ho_allotments h"
  "ho_tasks (set_room i f h) = ho_tasks h" "ho_noShows (set_room i f h) = ho_noShows h" "ho_audits (set_room i f h) = ho_audits h" "ho_seq (set_room i f h) = ho_seq h"
  "ho_rooms (set_room i f h) = map (\<lambda>r. if rm_id r = i then f r else r) (ho_rooms h)"
  by (simp_all add: set_room_def)

lemma findRoom_Inr: "findRoom h i = Inr r \<Longrightarrow> r \<in> set (ho_rooms h) \<and> rm_id r = i \<and> \<not> rm_deleted r"
  by (auto simp: findRoom_def split: option.splits dest: find_Some_mem)

section \<open>Blocks never overlap\<close>

definition is_date :: "instant \<Rightarrow> bool" where
  "is_date t \<longleftrightarrow> t mod DAY = 0"

lemma is_date_toBranchDate [simp]: "is_date (toBranchDate d)"
  by (simp add: is_date_def toBranchDate_def)

lemma is_date_branchToday [simp]: "is_date (branchToday tzo br now)"
  by (simp add: branchToday_def)

lemma is_date_less: "is_date a \<Longrightarrow> is_date b \<Longrightarrow> a < b \<Longrightarrow> a \<le> b - DAY"
proof -
  assume "is_date a" "is_date b" "a < b"
  then have "DAY dvd b - a" and "0 < b - a" by (auto simp: is_date_def)
  then have "DAY \<le> b - a" by (rule zdvd_imp_le)
  then show ?thesis by simp
qed

lemma is_date_minus [simp]: "is_date (t - DAY) = is_date t" "is_date (t + DAY) = is_date t"
  by (simp_all add: is_date_def)

definition block_ok :: "room_block \<Rightarrow> bool" where
  "block_ok k \<longleftrightarrow> is_date (rb_from k) \<and> is_date (rb_to k) \<and> rb_from k \<le> rb_to k"

definition apart :: "room_block \<Rightarrow> room_block \<Rightarrow> bool" where
  "apart j k \<longleftrightarrow> (rb_room j = rb_room k \<longrightarrow> rb_to j < rb_from k \<or> rb_to k < rb_from j)"

definition blocks_ok :: "house \<Rightarrow> bool" where
  "blocks_ok h \<longleftrightarrow> list_all block_ok (ho_blocks h) \<and> distinct (map rb_id (ho_blocks h)) \<and> sorted_wrt apart (ho_blocks h) \<and> (\<forall>k \<in> set (ho_blocks h). rb_id k < fresh h)"

inductive block_step :: "tz_offset \<Rightarrow> house \<Rightarrow> house \<Rightarrow> bool" for tzo where
  blocked: "blockRoom tzo i reason f t a now h = Inr (k, h') \<Longrightarrow> block_step tzo h h'"
| unblocked: "unblockRoom tzo k a now h = Inr h' \<Longrightarrow> block_step tzo h h'"

lemma blockRoom_Inr:
  assumes "blockRoom tzo i reason f t a now h = Inr (k, h')"
  shows "ho_blocks h' = ho_blocks h @ [k]" and "fresh h' = Suc (fresh h)" and "rb_id k = fresh h" and "rb_room k = i" and "block_ok k"
    and "\<forall>j \<in> set (ho_blocks h). apart j k"
  using assms by (auto simp: blockRoom_def Let_def res_simps block_ok_def apart_def fresh_def split: if_split_asm)

lemma blockRoom_ok:
  assumes "blockRoom tzo i reason f t a now h = Inr (k, h')" and "blocks_ok h"
  shows "blocks_ok h'"
  using assms(2) blockRoom_Inr(3-6)[OF assms(1)] unfolding blocks_ok_def blockRoom_Inr(1,2)[OF assms(1)]
  by (auto simp: sorted_wrt_append less_Suc_eq)

lemma sorted_wrt_map_mono:
  assumes "sorted_wrt P xs" and "\<And>x y. x \<in> set xs \<Longrightarrow> y \<in> set xs \<Longrightarrow> P x y \<Longrightarrow> P (f x) (f y)"
  shows "sorted_wrt P (map f xs)"
  using assms by (induction xs) auto

lemma unblockRoom_ok:
  assumes "unblockRoom tzo k a now h = Inr h'" and "blocks_ok h"
  shows "blocks_ok h'"
proof -
  from assms(1) obtain block br t where b: "List.find (\<lambda>x. rb_id x = k) (ho_blocks h) = Some block" and t: "t = branchToday tzo br now" "t \<le> rb_to block"
    and h: "fresh h' = fresh h" "ho_blocks h' = (if t \<le> rb_from block then filter (\<lambda>x. rb_id x \<noteq> k) (ho_blocks h) else map (\<lambda>x. if rb_id x = k then x\<lparr>rb_to := t - DAY\<rparr> else x) (ho_blocks h))"
    by (auto simp: unblockRoom_def Let_def res_simps not_less fresh_def split: option.splits if_splits)
  show ?thesis
  proof (cases "t \<le> rb_from block")
    case True
    then show ?thesis using assms(2) unfolding blocks_ok_def h by (auto simp: list_all_iff distinct_map intro: sorted_wrt_filter inj_on_subset)
  next
    case False
    have mem: "block \<in> set (ho_blocks h)" "rb_id block = k" using find_Some_mem[OF b] by auto
    have only: "x = block" if "x \<in> set (ho_blocks h)" "rb_id x = k" for x
      using assms(2) that mem unfolding blocks_ok_def by (auto simp: distinct_map dest: inj_onD)
    define g where "g = (\<lambda>x :: room_block. if rb_id x = k then x\<lparr>rb_to := t - DAY\<rparr> else x)"
    have shorter: "rb_to (g x) \<le> rb_to x" "rb_from (g x) = rb_from x" "rb_id (g x) = rb_id x" "rb_room (g x) = rb_room x" if "x \<in> set (ho_blocks h)" for x
      using only[OF that] t by (auto simp: g_def DAY_def)
    have "block_ok (g x)" if "x \<in> set (ho_blocks h)" for x
      using assms(2) that only[OF that] False is_date_less[of "rb_from x" t] t(1) unfolding blocks_ok_def by (auto simp: g_def list_all_iff block_ok_def)
    moreover have "sorted_wrt apart (map g (ho_blocks h))"
    proof (rule sorted_wrt_map_mono)
      show "sorted_wrt apart (ho_blocks h)" using assms(2) unfolding blocks_ok_def by blast
      show "apart (g x) (g y)" if "x \<in> set (ho_blocks h)" "y \<in> set (ho_blocks h)" "apart x y" for x y
        using that shorter[OF that(1)] shorter[OF that(2)] unfolding apart_def by linarith
    qed
    moreover have "map rb_id (map g (ho_blocks h)) = map rb_id (ho_blocks h)" using shorter(3) by simp
    moreover have "ho_blocks h' = map g (ho_blocks h)" using False unfolding h g_def by simp
    ultimately show ?thesis using assms(2) shorter(3) unfolding blocks_ok_def h(1) by (simp only: list_all_iff set_map) auto
  qed
qed

lemma block_step_ok: "block_step tzo h h' \<Longrightarrow> blocks_ok h \<Longrightarrow> blocks_ok h'"
  by (induction rule: block_step.induct) (auto intro: blockRoom_ok unblockRoom_ok)

interpretation blocks: step_invariant "block_step tzo" blocks_ok for tzo
  by unfold_locales (rule block_step_ok)

text \<open>
  C13. Over any run of blocking and unblocking, at whatever moments, no two blocks of one room
  share a day and no block ends before it starts: ending a block early never leaves it with
  an end before its own start.
\<close>

theorem room_blocks_disjoint:
  assumes "(block_step tzo)\<^sup>*\<^sup>* h h'" and "blocks_ok h"
  shows "list_all (\<lambda>k. rb_from k \<le> rb_to k) (ho_blocks h') \<and>
     (\<forall>i < length (ho_blocks h'). \<forall>j < i. rb_room (ho_blocks h' ! j) = rb_room (ho_blocks h' ! i) \<longrightarrow>
        rb_to (ho_blocks h' ! j) < rb_from (ho_blocks h' ! i) \<or> rb_to (ho_blocks h' ! i) < rb_from (ho_blocks h' ! j))"
  using blocks.run_keeps[OF assms] unfolding blocks_ok_def
  by (auto simp: list_all_iff block_ok_def apart_def sorted_wrt_iff_nth_less)

theorem room_blocks_disjoint_witness:
  "\<exists>h'. (block_step (\<lambda>_ _. 0))\<^sup>*\<^sup>* inn h' \<and> map rb_to (ho_blocks h') = [toBranchDate 4, toBranchDate 11] \<and> list_all (\<lambda>k. rb_from k \<le> rb_to k) (ho_blocks h')"
proof -
  let ?tz = "\<lambda>_ _. 0 :: int" let ?go = "bindr (blockRoom ?tz 70 Maintenance 2 9 5 0 inn) (\<lambda>(k, h). bindr (unblockRoom ?tz (rb_id k) 5 (toBranchDate 5 + 7) h) (blockRoom ?tz 70 Renovation 10 11 5 (toBranchDate 5)))"
  have "map_sum id (\<lambda>(k, h). map rb_to (ho_blocks h)) ?go = Inr [toBranchDate 4, toBranchDate 11]" by code_simp
  then obtain k1 h1 h2 k3 h3 where s: "blockRoom ?tz 70 Maintenance 2 9 5 0 inn = Inr (k1, h1)" "unblockRoom ?tz (rb_id k1) 5 (toBranchDate 5 + 7) h1 = Inr h2"
    "blockRoom ?tz 70 Renovation 10 11 5 (toBranchDate 5) h2 = Inr (k3, h3)" and r: "map rb_to (ho_blocks h3) = [toBranchDate 4, toBranchDate 11]"
    by (cases ?go) (auto simp: res_simps)
  have run: "(block_step ?tz)\<^sup>*\<^sup>* inn h3"
    using block_step.blocked[OF s(1)] block_step.unblocked[OF s(2)] block_step.blocked[OF s(3)] by (meson r_into_rtranclp rtranclp_trans)
  have "blocks_ok inn" by code_simp
  from room_blocks_disjoint[OF run this] have l: "list_all (\<lambda>k. rb_from k \<le> rb_to k) (ho_blocks h3)" by (rule conjunct1)
  show ?thesis by (intro exI[of _ h3] conjI run r l)
qed

section \<open>A release date that outlives its hold\<close>

text \<open>
  Bringing a removed room back clears its hold but not the hold's release date. Held again later
  without a date, the room still carries the old one: it counts as in service that same
  night, and the hourly sweep puts it back on sale.
\<close>

definition inn_manager :: jwt where
  "inn_manager = \<lparr>jw_sub = 9, jw_tenant = 1, jw_roles = [\<lparr>ra_branch = None, ra_role = ''manager''\<rparr>], jw_apiKey = None\<rparr>"

definition hold_request :: "day option option \<Rightarrow> status_dto" where
  "hold_request till = \<lparr>sq_occupancy = None, sq_cleanliness = None, sq_held = Some (Some Out_of_order), sq_heldUntil = till\<rparr>"

theorem restored_room_keeps_release_date:
  "map_sum id (\<lambda>h. (map rm_heldUntil (filter (\<lambda>r. rm_id r = 70) (ho_rooms h)), 70 \<in> inServiceOn (sellableRooms h 1 80) (toBranchDate 20),
       fst (releaseDueHolds (\<lambda>_ _. 0) (toBranchDate 20) h)))
     (bindr (changeStatus (\<lambda>_ _. 0) 70 (hold_request (Some (Some 10))) inn_manager (toBranchDate 1) inn) (\<lambda>(_, h).
      bindr (removeRoom (\<lambda>_ _. 0) 70 9 (toBranchDate 2) h) (\<lambda>h.
      bindr (bulkCreateRooms 1 \<lparr>bq_roomType = 80, bq_floor = None, bq_range = None, bq_numbers = Some [''101''], bq_view = None\<rparr> 9 h) (\<lambda>(_, h).
      bindr (changeStatus (\<lambda>_ _. 0) 70 (hold_request None) inn_manager (toBranchDate 20) h) (\<lambda>(_, h). Inr h)))))
   = Inr ([Some (toBranchDate 10)], True, 1)"
  by code_simp

end
