(* ===== verification/Housekeeping.thy ===== *)
theory Housekeeping
  imports Rooms
begin

text \<open>
  Housekeeping (\<^verbatim>\<open>housekeeping/housekeeping.service.ts\<close>, \<^verbatim>\<open>housekeeping/turndown.ts\<close>): the tasks of the board, who may start and
  finish them, and the room's cleanliness they move along the ladder
  dirty, cleaning, clean, inspected. The notes of a task are not kept.
\<close>

section \<open>Turndown\<close>

datatype turndown_scope = Turndown_all | Turndown_vip

definition TURNDOWN :: string where
  "TURNDOWN = ''turndown''"

definition turndownScopeFor :: "json option \<Rightarrow> turndown_scope option" where
  "turndownScopeFor stored =
     (case jstring (jget (jfields stored) ''scope'') of
        Some s \<Rightarrow> if s = ''all'' then Some Turndown_all else if s = ''vip'' then Some Turndown_vip else None
      | None \<Rightarrow> None)"

definition wantsTurndown :: "turndown_scope option \<Rightarrow> int option \<Rightarrow> bool" where
  "wantsTurndown scope vipLevel \<longleftrightarrow> scope = Some Turndown_all \<or> scope = Some Turndown_vip \<and> 1 \<le> the_default 0 vipLevel"

section \<open>The room's cleanliness\<close>

definition transitionRoomCleanliness :: "nat \<Rightarrow> cleanliness_status \<Rightarrow> nat option \<Rightarrow> house \<Rightarrow> house result" where
  "transitionRoomCleanliness i till actorId h =
     bindr (findRoom h i) (\<lambda>room.
       let from = rm_cleanliness room
       in if from \<noteq> till \<and> till \<notin> set (CLEANLINESS_TRANSITIONS from) then Inl (Conflict INVALID_STATUS_TRANSITION)
       else if from = till then Inr h
       else Inr (log_action (rm_branch room) actorId ''room.status_changed'' i
              (set_room i (\<lambda>r. r\<lparr>rm_cleanliness := till, rm_statusBy := actorId\<rparr>) h)))"

section \<open>Tasks\<close>

record task_opts =
  to_room :: nat
  to_priority :: "int option"
  to_trigger :: string
  to_reservation :: "nat option"
  to_date :: instant
  to_actor :: "nat option"

definition insert_task :: "nat \<Rightarrow> task_opts \<Rightarrow> house \<Rightarrow> hk_task \<times> house" where
  "insert_task b opts h =
     (let row = \<lparr>hk_id = fresh h, hk_branch = b, hk_room = to_room opts, hk_assignee = None, hk_date = to_date opts, hk_status = Task_pending,
           hk_priority = to_priority opts, hk_trigger = Some (to_trigger opts), hk_reservation = to_reservation opts, hk_completedBy = None\<rparr>
      in (row, (bump h)\<lparr>ho_tasks := ho_tasks h @ [row]\<rparr>))"

definition createTaskInTx :: "nat \<Rightarrow> task_opts \<Rightarrow> house \<Rightarrow> (hk_task \<times> house) result" where
  "createTaskInTx b opts h =
     (let room = (if to_trigger opts = TURNDOWN then None else List.find (\<lambda>r. rm_id r = to_room opts \<and> \<not> rm_deleted r) (ho_rooms h))
      in bindr (case room of
             None \<Rightarrow> Inr h
           | Some r \<Rightarrow> if rm_cleanliness r \<in> {Clean, Inspected} then transitionRoomCleanliness (to_room opts) Dirty (to_actor opts) h else Inr h) (\<lambda>h.
         let (task, h) = insert_task b opts h
         in Inr (task, log_action b (to_actor opts) ''housekeeping.task_created'' (hk_id task) h)))"

definition waitingTask :: "house \<Rightarrow> nat \<Rightarrow> bool \<Rightarrow> bool" where
  "waitingTask h i turndown \<longleftrightarrow> (\<exists>t \<in> set (ho_tasks h). hk_room t = i \<and> hk_status t \<in> {Task_pending, In_progress} \<and> (hk_trigger t = Some TURNDOWN) = turndown)"

definition createTask :: "tz_offset \<Rightarrow> nat \<Rightarrow> nat \<Rightarrow> int option \<Rightarrow> bool \<Rightarrow> nat \<Rightarrow> instant \<Rightarrow> house \<Rightarrow> (hk_task \<times> house) result" where
  "createTask tzo b i priority turndown actorId now h =
     bindr (branchOf h b) (\<lambda>br.
     case List.find (\<lambda>r. rm_id r = i \<and> rm_branch r = b \<and> \<not> rm_deleted r) (ho_rooms h) of
       None \<Rightarrow> Inl (NotFound NOT_FOUND)
     | Some room \<Rightarrow>
         if waitingTask h (rm_id room) turndown then Inl (Conflict CONFLICT)
         else createTaskInTx b \<lparr>to_room = i, to_priority = priority, to_trigger = (if turndown then TURNDOWN else ''manual''), to_reservation = None,
                to_date = branchToday tzo br now, to_actor = Some actorId\<rparr> h)"

definition ensureStayoverTaskInTx :: "nat \<Rightarrow> nat \<Rightarrow> nat \<Rightarrow> instant \<Rightarrow> house \<Rightarrow> (bool \<times> house) result" where
  "ensureStayoverTaskInTx b i r taskDate h =
     (if waitingTask h i False then Inr (False, h)
      else bindr (createTaskInTx b \<lparr>to_room = i, to_priority = Some 3, to_trigger = ''stayover'', to_reservation = Some r, to_date = taskDate, to_actor = None\<rparr> h)
             (\<lambda>(_, h). Inr (True, h)))"

definition ensureTurndownTaskInTx :: "nat \<Rightarrow> nat \<Rightarrow> nat \<Rightarrow> instant \<Rightarrow> house \<Rightarrow> (bool \<times> house) result" where
  "ensureTurndownTaskInTx b i r taskDate h =
     (if \<exists>t \<in> set (ho_tasks h). hk_room t = i \<and> hk_date t = taskDate \<and> hk_trigger t = Some TURNDOWN then Inr (False, h)
      else bindr (createTaskInTx b \<lparr>to_room = i, to_priority = Some 3, to_trigger = TURNDOWN, to_reservation = Some r, to_date = taskDate, to_actor = None\<rparr> h)
             (\<lambda>(_, h). Inr (True, h)))"

definition set_task :: "nat \<Rightarrow> (hk_task \<Rightarrow> hk_task) \<Rightarrow> house \<Rightarrow> house" where
  "set_task i f h = h\<lparr>ho_tasks := map (\<lambda>t. if hk_id t = i then f t else t) (ho_tasks h)\<rparr>"

definition supersedeStayoverTasksInTx :: "nat \<Rightarrow> nat \<Rightarrow> nat option \<Rightarrow> house \<Rightarrow> nat \<times> house" where
  "supersedeStayoverTasksInTx b i actorId h =
     (let waiting = filter (\<lambda>t. hk_room t = i \<and> hk_status t = Task_pending \<and> hk_trigger t \<in> {Some ''stayover'', Some TURNDOWN}) (ho_tasks h)
      in (length waiting,
          foldl (\<lambda>h t. log_action b actorId ''housekeeping.task_superseded'' (hk_id t) (set_task (hk_id t) (\<lambda>t. t\<lparr>hk_status := Skipped\<rparr>) h)) h waiting))"

definition findTaskOrThrow :: "house \<Rightarrow> nat \<Rightarrow> hk_task result" where
  "findTaskOrThrow h i = (case List.find (\<lambda>t. hk_id t = i) (ho_tasks h) of None \<Rightarrow> Inl (NotFound NOT_FOUND) | Some t \<Rightarrow> Inr t)"

definition assignTask :: "nat \<Rightarrow> nat \<Rightarrow> jwt \<Rightarrow> house \<Rightarrow> house result" where
  "assignTask i assignee actor h =
     bindr (findTaskOrThrow h i) (\<lambda>task.
     if \<not> roomSupervisor actor (hk_branch task) then Inl (Forbidden FORBIDDEN)
     else if hk_status task = Done \<or> hk_status task = Skipped then Inl (Conflict INVALID_STATUS_TRANSITION)
     else if \<not> (\<exists>(u, b) \<in> set (ho_staff h). u = assignee \<and> (b = None \<or> b = Some (hk_branch task))) then Inl (BadRequest VALIDATION_FAILED)
     else Inr (log_action (hk_branch task) (Some (jw_sub actor)) ''housekeeping.task_assigned'' i (set_task i (\<lambda>t. t\<lparr>hk_assignee := Some assignee\<rparr>) h)))"

definition startTask :: "nat \<Rightarrow> nat \<Rightarrow> house \<Rightarrow> house result" where
  "startTask i actorId h =
     bindr (findTaskOrThrow h i) (\<lambda>task.
     if hk_status task \<noteq> Task_pending then Inl (Conflict INVALID_STATUS_TRANSITION)
     else if hk_assignee task \<noteq> None \<and> hk_assignee task \<noteq> Some actorId then Inl (Forbidden FORBIDDEN)
     else bindr (if hk_trigger task \<noteq> Some TURNDOWN then transitionRoomCleanliness (hk_room task) Cleaning (Some actorId) h else Inr h) (\<lambda>h.
       Inr (log_action (hk_branch task) (Some actorId) ''housekeeping.task_started'' i
         (set_task i (\<lambda>t. t\<lparr>hk_status := In_progress, hk_assignee := Some (the_default actorId (hk_assignee task))\<rparr>) h))))"

definition completeTask :: "nat \<Rightarrow> nat \<Rightarrow> house \<Rightarrow> house result" where
  "completeTask i actorId h =
     bindr (findTaskOrThrow h i) (\<lambda>task.
     if hk_status task \<noteq> In_progress then Inl (Conflict INVALID_STATUS_TRANSITION)
     else if hk_assignee task \<noteq> None \<and> hk_assignee task \<noteq> Some actorId then Inl (Forbidden FORBIDDEN)
     else bindr (if hk_trigger task \<noteq> Some TURNDOWN then transitionRoomCleanliness (hk_room task) Clean (Some actorId) h else Inr h) (\<lambda>h.
       Inr (log_action (hk_branch task) (Some actorId) ''housekeeping.task_completed'' i
         (set_task i (\<lambda>t. t\<lparr>hk_status := Done, hk_completedBy := Some actorId\<rparr>) h))))"

definition reportIssue :: "nat \<Rightarrow> nat \<Rightarrow> house \<Rightarrow> house result" where
  "reportIssue i actorId h =
     bindr (findTaskOrThrow h i) (\<lambda>task.
     if hk_status task = Done then Inl (Conflict INVALID_STATUS_TRANSITION)
     else bindr (if hk_status task = In_progress \<and> hk_trigger task \<noteq> Some TURNDOWN then transitionRoomCleanliness (hk_room task) Dirty (Some actorId) h else Inr h) (\<lambda>h.
       Inr (log_action (hk_branch task) (Some actorId) ''housekeeping.issue_reported'' i (set_task i (\<lambda>t. t\<lparr>hk_status := Skipped\<rparr>) h))))"

record task_query =
  tk_status :: "hk_status option"
  tk_assignee :: "nat option"
  tk_from :: "day option"
  tk_to :: "day option"
  tk_limit :: "int option"

text \<open>The board: newest day first, urgent before normal (a task without a priority last), then in the order they were raised.\<close>

definition listTasks :: "nat \<Rightarrow> task_query \<Rightarrow> house \<Rightarrow> hk_task list result" where
  "listTasks b q h =
     bindr (branchOf h b) (\<lambda>_.
       let mine = filter (\<lambda>t. hk_branch t = b \<and> (tk_status q = None \<or> tk_status q = Some (hk_status t)) \<and>
             (tk_assignee q = None \<or> hk_assignee t = tk_assignee q) \<and>
             (case tk_from q of None \<Rightarrow> True | Some d \<Rightarrow> toBranchDate d \<le> hk_date t) \<and>
             (case tk_to q of None \<Rightarrow> True | Some d \<Rightarrow> hk_date t \<le> toBranchDate d)) (ho_tasks h);
           ranked = sort_key (\<lambda>t. - hk_date t) (sort_key (\<lambda>t. case hk_priority t of Some p \<Rightarrow> p | None \<Rightarrow> 32768) mine)
       in Inr (take (nat (min (max (the_default 500 (tk_limit q)) 1) 1000)) ranked))"

section \<open>Rooms and tasks by id\<close>

definition roomOf :: "house \<Rightarrow> nat \<Rightarrow> room option" where
  "roomOf h i = List.find (\<lambda>r. rm_id r = i) (ho_rooms h)"

lemma roomOf_cong: "ho_rooms h' = ho_rooms h \<Longrightarrow> roomOf h' i = roomOf h i"
  by (simp add: roomOf_def)

lemma roomOf_map:
  assumes "ho_rooms h' = map f (ho_rooms h)" and "\<And>r. rm_id (f r) = rm_id r"
  shows "roomOf h' i = map_option f (roomOf h i)"
  unfolding roomOf_def assms(1) by (rule find_map_inv) (simp add: assms(2))

lemma findRoom_cong: "ho_rooms h' = ho_rooms h \<Longrightarrow> findRoom h' i = findRoom h i"
  by (simp add: findRoom_def)

lemma findRoom_set_room:
  assumes "findRoom h i = Inr r" and "\<And>x. rm_id (f x) = rm_id x \<and> rm_deleted (f x) = rm_deleted x"
  shows "findRoom (set_room i f h) i = Inr (f r)"
proof -
  have "List.find (\<lambda>r. rm_id r = i \<and> \<not> rm_deleted r) (map (\<lambda>r. if rm_id r = i then f r else r) (ho_rooms h))
      = map_option (\<lambda>r. if rm_id r = i then f r else r) (List.find (\<lambda>r. rm_id r = i \<and> \<not> rm_deleted r) (ho_rooms h))"
    by (rule find_map_inv) (simp add: assms(2))
  then show ?thesis using assms(1) findRoom_Inr[OF assms(1)] by (auto simp: findRoom_def split: option.splits)
qed

lemma findTask_set_task:
  assumes "findTaskOrThrow h i = Inr t" and "\<And>x. hk_id (f x) = hk_id x"
  shows "findTaskOrThrow (set_task i f h) i = Inr (f t)"
proof -
  have "List.find (\<lambda>t. hk_id t = i) (map (\<lambda>t. if hk_id t = i then f t else t) (ho_tasks h))
      = map_option (\<lambda>t. if hk_id t = i then f t else t) (List.find (\<lambda>t. hk_id t = i) (ho_tasks h))"
    by (rule find_map_inv) (simp add: assms(2))
  then show ?thesis using assms(1) by (auto simp: findTaskOrThrow_def set_task_def split: option.splits dest: find_Some_mem)
qed

lemma findTask_cong: "ho_tasks h' = ho_tasks h \<Longrightarrow> findTaskOrThrow h' i = findTaskOrThrow h i"
  by (simp add: findTaskOrThrow_def)

lemma set_task_sel [row_simps, simp]:
  "ho_db (set_task i f h) = ho_db h" "ho_rooms (set_task i f h) = ho_rooms h" "ho_blocks (set_task i f h) = ho_blocks h" "ho_groups (set_task i f h) = ho_groups h"
  "ho_overbooking (set_task i f h) = ho_overbooking h" "ho_restrictions (set_task i f h) = ho_restrictions h" "ho_allotments (set_task i f h) = ho_allotments h"
  "ho_noShows (set_task i f h) = ho_noShows h" "ho_audits (set_task i f h) = ho_audits h" "ho_seq (set_task i f h) = ho_seq h"
  by (simp_all add: set_task_def)

section \<open>A task that is raised can be done\<close>

text \<open>What a step on the ladder does: it succeeds exactly along the ladder, and changes that room alone.\<close>

lemma transition_Inr:
  assumes "findRoom h i = Inr r" and "rm_cleanliness r = c \<or> c \<in> set (CLEANLINESS_TRANSITIONS (rm_cleanliness r))"
  shows "\<exists>h' r'. transitionRoomCleanliness i c a h = Inr h' \<and> findRoom h' i = Inr r' \<and> rm_cleanliness r' = c \<and> ho_tasks h' = ho_tasks h \<and> fresh h' = fresh h"
proof (cases "rm_cleanliness r = c")
  case True
  then show ?thesis using assms by (auto simp: transitionRoomCleanliness_def)
next
  case False
  define f where "f = (\<lambda>x :: room. x\<lparr>rm_cleanliness := c, rm_statusBy := a\<rparr>)"
  define h' where "h' = log_action (rm_branch r) a ''room.status_changed'' i (set_room i f h)"
  have "transitionRoomCleanliness i c a h = Inr h'"
    using assms False by (simp add: transitionRoomCleanliness_def Let_def h'_def f_def)
  moreover have "findRoom h' i = Inr (f r)"
    using findRoom_set_room[OF assms(1), of f] findRoom_cong[of h' "set_room i f h"] by (simp add: f_def h'_def)
  moreover have "ho_tasks h' = ho_tasks h" and "fresh h' = fresh h" by (simp_all add: h'_def fresh_def)
  ultimately show ?thesis by (auto simp: f_def)
qed

lemma createTask_room:
  assumes "createTaskInTx b opts h = Inr (task, h')" and "to_trigger opts \<noteq> TURNDOWN" and "findRoom h (to_room opts) = Inr r"
    and "\<forall>t \<in> set (ho_tasks h). hk_id t < fresh h"
  shows "\<exists>r'. findRoom h' (to_room opts) = Inr r' \<and> rm_cleanliness r' \<in> {Dirty, Cleaning}"
    and "findTaskOrThrow h' (hk_id task) = Inr task" and "hk_status task = Task_pending" and "hk_assignee task = None"
    and "hk_trigger task = Some (to_trigger opts)" and "hk_room task = to_room opts"
proof -
  have found: "List.find (\<lambda>r. rm_id r = to_room opts \<and> \<not> rm_deleted r) (ho_rooms h) = Some r"
    using assms(3) by (auto simp: findRoom_def split: option.splits)
  have "\<exists>h1 r1. (if rm_cleanliness r \<in> {Clean, Inspected} then transitionRoomCleanliness (to_room opts) Dirty (to_actor opts) h else Inr h) = Inr h1 \<and>
      findRoom h1 (to_room opts) = Inr r1 \<and> rm_cleanliness r1 \<in> {Dirty, Cleaning} \<and> ho_tasks h1 = ho_tasks h \<and> fresh h1 = fresh h"
  proof (cases "rm_cleanliness r \<in> {Clean, Inspected}")
    case True
    then show ?thesis using transition_Inr[OF assms(3), of Dirty "to_actor opts"] by (auto simp: CLEANLINESS_TRANSITIONS_def)
  next
    case False
    then show ?thesis using assms(3) by (cases "rm_cleanliness r") auto
  qed
  then obtain h1 r1 where h1: "(if rm_cleanliness r \<in> {Clean, Inspected} then transitionRoomCleanliness (to_room opts) Dirty (to_actor opts) h else Inr h) = Inr h1"
    and r1: "findRoom h1 (to_room opts) = Inr r1" "rm_cleanliness r1 \<in> {Dirty, Cleaning}" and t1: "ho_tasks h1 = ho_tasks h" "fresh h1 = fresh h" by blast
  have e: "task = fst (insert_task b opts h1)" "h' = log_action b (to_actor opts) ''housekeeping.task_created'' (hk_id task) (snd (insert_task b opts h1))"
    using assms(1,2) found h1 by (auto simp: createTaskInTx_def Let_def case_prod_beta)
  have i: "hk_id task = fresh h" and tasks: "ho_tasks h' = ho_tasks h @ [task]" and rooms: "ho_rooms h' = ho_rooms h1"
    and "hk_status task = Task_pending" "hk_assignee task = None" "hk_trigger task = Some (to_trigger opts)" "hk_room task = to_room opts"
    unfolding e by (simp_all add: insert_task_def Let_def t1)
  then show "hk_status task = Task_pending" "hk_assignee task = None" "hk_trigger task = Some (to_trigger opts)" "hk_room task = to_room opts" by simp_all
  show "\<exists>r'. findRoom h' (to_room opts) = Inr r' \<and> rm_cleanliness r' \<in> {Dirty, Cleaning}" using r1 findRoom_cong[OF rooms] by simp
  have "List.find (\<lambda>t. hk_id t = hk_id task) (ho_tasks h) = None" using assms(4) i by (auto simp: find_None_ex)
  then show "findTaskOrThrow h' (hk_id task) = Inr task" unfolding findTaskOrThrow_def tasks by (simp add: find_append)
qed

text \<open>
  C14. Every cleaning task that is raised for a room can be done: whatever state the room was in,
  whoever picks the task up can start it and then complete it, and afterwards the task is done and
  the room is clean.
\<close>

theorem raised_task_can_be_done:
  assumes "createTaskInTx b opts h = Inr (task, h1)" and "to_trigger opts \<noteq> TURNDOWN" and "findRoom h (to_room opts) = Inr room"
    and "\<forall>t \<in> set (ho_tasks h). hk_id t < fresh h"
  shows "\<exists>h2 h3 r t. startTask (hk_id task) u h1 = Inr h2 \<and> completeTask (hk_id task) u h2 = Inr h3 \<and>
     findRoom h3 (to_room opts) = Inr r \<and> rm_cleanliness r = Clean \<and> findTaskOrThrow h3 (hk_id task) = Inr t \<and> hk_status t = Done"
proof -
  note c = createTask_room[OF assms]
  let ?i = "hk_id task" and ?j = "to_room opts"
  from c(1) obtain r1 where r1: "findRoom h1 ?j = Inr r1" "rm_cleanliness r1 \<in> {Dirty, Cleaning}" by blast
  obtain k r2 where k: "transitionRoomCleanliness ?j Cleaning (Some u) h1 = Inr k" "findRoom k ?j = Inr r2" "rm_cleanliness r2 = Cleaning" "ho_tasks k = ho_tasks h1"
    using transition_Inr[OF r1(1), of Cleaning "Some u"] r1(2) by (auto simp: CLEANLINESS_TRANSITIONS_def)
  define f where "f = (\<lambda>t :: hk_task. t\<lparr>hk_status := In_progress, hk_assignee := Some u\<rparr>)"
  define h2 where "h2 = log_action (hk_branch task) (Some u) ''housekeeping.task_started'' ?i (set_task ?i f k)"
  have s: "startTask ?i u h1 = Inr h2"
    using c assms(2) k(1) by (simp add: startTask_def h2_def f_def TURNDOWN_def)
  have t2: "findTaskOrThrow h2 ?i = Inr (f task)"
    using findTask_set_task[of k ?i task f] c(2) findTask_cong[OF k(4), of ?i] findTask_cong[of h2 "set_task ?i f k" ?i] by (simp add: f_def h2_def)
  have "findRoom h2 ?j = Inr r2" using k(2) findRoom_cong[of h2 k ?j] by (simp add: h2_def)
  then obtain m r3 where m: "transitionRoomCleanliness ?j Clean (Some u) h2 = Inr m" "findRoom m ?j = Inr r3" "rm_cleanliness r3 = Clean" "ho_tasks m = ho_tasks h2"
    using transition_Inr[of h2 ?j r2 Clean "Some u"] k(3) by (auto simp: CLEANLINESS_TRANSITIONS_def)
  define g where "g = (\<lambda>t :: hk_task. t\<lparr>hk_status := Done, hk_completedBy := Some u\<rparr>)"
  define h3 where "h3 = log_action (hk_branch task) (Some u) ''housekeeping.task_completed'' ?i (set_task ?i g m)"
  have "completeTask ?i u h2 = Inr h3"
    using t2 c(5,6) assms(2) m(1) by (simp add: completeTask_def h3_def g_def f_def TURNDOWN_def)
  moreover have "findTaskOrThrow h3 ?i = Inr (g (f task))"
    using findTask_set_task[of m ?i "f task" g] t2 findTask_cong[OF m(4), of ?i] findTask_cong[of h3 "set_task ?i g m" ?i] by (simp add: g_def h3_def)
  moreover have "findRoom h3 ?j = Inr r3" using m(2) findRoom_cong[of h3 m ?j] by (simp add: h3_def)
  ultimately show ?thesis using s m(3) by (auto simp: g_def)
qed

definition inn_clean :: task_opts where
  "inn_clean = \<lparr>to_room = 70, to_priority = None, to_trigger = ''checkout'', to_reservation = None, to_date = 0, to_actor = Some 9\<rparr>"

theorem raised_task_can_be_done_witness:
  "\<exists>task h1 h2 h3 r t. createTaskInTx 1 inn_clean inn = Inr (task, h1) \<and> startTask (hk_id task) 5 h1 = Inr h2 \<and> completeTask (hk_id task) 5 h2 = Inr h3 \<and>
     findRoom h3 70 = Inr r \<and> rm_cleanliness r = Clean \<and> findTaskOrThrow h3 (hk_id task) = Inr t \<and> hk_status t = Done"
proof -
  have "map_sum id (\<lambda>(t, h). hk_id t) (createTaskInTx 1 inn_clean inn) = Inr 100" by code_simp
  then obtain task h1 where c: "createTaskInTx 1 inn_clean inn = Inr (task, h1)" by (cases "createTaskInTx 1 inn_clean inn") auto
  have room: "findRoom inn (to_room inn_clean) = Inr (inn_room 70 ''101'')" by code_simp
  have "to_trigger inn_clean \<noteq> TURNDOWN" and "\<forall>t \<in> set (ho_tasks inn). hk_id t < fresh inn" by code_simp+
  from raised_task_can_be_done[OF c this(1) room this(2), of 5] c show ?thesis unfolding inn_clean_def by auto
qed

section \<open>Who may call a room inspected\<close>

text \<open>Every request that touches a room's cleanliness, by the person who makes it.\<close>

inductive room_step :: "tz_offset \<Rightarrow> jwt \<Rightarrow> house \<Rightarrow> house \<Rightarrow> bool" for tzo actor where
  status: "changeStatus tzo i dto actor now h = Inr (r, h') \<Longrightarrow> room_step tzo actor h h'"
| task: "createTask tzo b i p td u now h = Inr (t, h') \<Longrightarrow> room_step tzo actor h h'"
| start: "startTask i u h = Inr h' \<Longrightarrow> room_step tzo actor h h'"
| complete: "completeTask i u h = Inr h' \<Longrightarrow> room_step tzo actor h h'"
| report: "reportIssue i u h = Inr h' \<Longrightarrow> room_step tzo actor h h'"
| stayover: "ensureStayoverTaskInTx b i r d h = Inr (x, h') \<Longrightarrow> room_step tzo actor h h'"
| occupancy: "applyReservationOccupancy i occ c u h = Inr h' \<Longrightarrow> c \<in> {None, Some Dirty} \<Longrightarrow> room_step tzo actor h h'"
| release: "releaseDueHolds tzo now h = (n, h') \<Longrightarrow> room_step tzo actor h h'"
| edit: "updateRoom tzo i patch u now h = Inr (r, h') \<Longrightarrow> room_step tzo actor h h'"
| remove: "removeRoom tzo i u now h = Inr h' \<Longrightarrow> room_step tzo actor h h'"
| add: "bulkCreateRooms b bdto u h = Inr (rs, h') \<Longrightarrow> room_step tzo actor h h'"

definition climbs :: "jwt \<Rightarrow> room \<Rightarrow> room \<Rightarrow> bool" where
  "climbs actor r r' \<longleftrightarrow> rm_cleanliness r' = rm_cleanliness r \<or> rm_cleanliness r' = Dirty \<or>
     rm_cleanliness r' \<in> set (CLEANLINESS_TRANSITIONS (rm_cleanliness r)) \<and> (rm_cleanliness r' = Inspected \<longrightarrow> roomSupervisor actor (rm_branch r))"

definition climbed :: "jwt \<Rightarrow> house \<Rightarrow> house \<Rightarrow> bool" where
  "climbed actor h h' \<longleftrightarrow> (\<exists>f new. ho_rooms h' = map f (ho_rooms h) @ new \<and> (\<forall>r \<in> set (ho_rooms h). rm_id (f r) = rm_id r \<and> climbs actor r (f r)))"

lemma climbed_same: "ho_rooms h' = ho_rooms h \<Longrightarrow> climbed actor h h'"
  unfolding climbed_def by (rule exI[of _ id], rule exI[of _ "[]"]) (simp add: climbs_def)

lemma climbed_set:
  assumes "ho_rooms h' = ho_rooms (set_room i f h)" and "\<And>r. r \<in> set (ho_rooms h) \<Longrightarrow> rm_id r = i \<Longrightarrow> rm_id (f r) = i \<and> climbs actor r (f r)"
  shows "climbed actor h h'"
  unfolding climbed_def using assms
  by (intro exI[of _ "\<lambda>r. if rm_id r = i then f r else r"] exI[of _ "[]"]) (auto simp: climbs_def)

lemma one_room:
  assumes "distinct (map rm_id (ho_rooms h))" and "findRoom h i = Inr room" and "r \<in> set (ho_rooms h)" and "rm_id r = i"
  shows "r = room"
  using assms findRoom_Inr[OF assms(2)] by (auto simp: distinct_map dest: inj_onD)

lemma transition_climbed:
  assumes "transitionRoomCleanliness i c a h = Inr h'" and "distinct (map rm_id (ho_rooms h))" and "c \<noteq> Inspected"
  shows "climbed actor h h'"
proof -
  from assms(1) obtain room where room: "findRoom h i = Inr room" "rm_cleanliness room \<noteq> c \<longrightarrow> c \<in> set (CLEANLINESS_TRANSITIONS (rm_cleanliness room))"
    and h': "h' = h \<or> ho_rooms h' = ho_rooms (set_room i (\<lambda>r. r\<lparr>rm_cleanliness := c, rm_statusBy := a\<rparr>) h)"
    by (auto simp: transitionRoomCleanliness_def Let_def res_simps split: if_splits)
  from h' show ?thesis
  proof
    assume e: "ho_rooms h' = ho_rooms (set_room i (\<lambda>r. r\<lparr>rm_cleanliness := c, rm_statusBy := a\<rparr>) h)"
    show ?thesis by (rule climbed_set[OF e]) (use one_room[OF assms(2) room(1)] room(2) assms(3) in \<open>auto simp: climbs_def\<close>)
  qed (simp add: climbed_same)
qed

lemma climbed_simps [simp]:
  "climbed actor h (log_action b u a e k) = climbed actor h k" "climbed actor h (set_task i f k) = climbed actor h k"
  "climbed actor h (k\<lparr>ho_tasks := ts\<rparr>) = climbed actor h k" "climbed actor h (bump k) = climbed actor h k"
  by (simp_all add: climbed_def)

lemma createTaskInTx_climbed:
  assumes "createTaskInTx b opts h = Inr (t, h')" and "distinct (map rm_id (ho_rooms h))"
  shows "climbed actor h h'"
  using assms(1) transition_climbed[OF _ assms(2)]
  by (auto simp: createTaskInTx_def insert_task_def Let_def res_simps climbed_same split: if_splits option.splits)

lemma changeStatus_climbed:
  assumes "changeStatus tzo i dto actor now h = Inr (r, h')" and "distinct (map rm_id (ho_rooms h))"
  shows "climbed actor h h'"
proof -
  from assms(1) obtain room u where room: "findRoom h i = Inr room"
    and c: "case sq_cleanliness dto of None \<Rightarrow> True | Some c \<Rightarrow> (rm_cleanliness room = c \<or> c \<in> set (CLEANLINESS_TRANSITIONS (rm_cleanliness room))) \<and> (c = Inspected \<longrightarrow> roomSupervisor actor (rm_branch room))"
    and h': "ho_rooms h' = ho_rooms (set_room i (\<lambda>r. r\<lparr>rm_occupancy := the_default (rm_occupancy r) (sq_occupancy dto), rm_cleanliness := the_default (rm_cleanliness r) (sq_cleanliness dto),
                rm_held := the_default (rm_held r) (sq_held dto), rm_heldUntil := heldUntilAfter dto (the_default (rm_held room) (sq_held dto)) (rm_heldUntil r), rm_statusBy := Some (jw_sub actor)\<rparr>) h)"
    by (cases "sq_cleanliness dto") (auto simp: changeStatus_def Let_def res_simps split: if_split_asm)
  show ?thesis
    by (rule climbed_set[OF h']) (use one_room[OF assms(2) room] c in \<open>auto simp: climbs_def split: option.splits\<close>)
qed

lemma releaseDueHolds_climbed:
  assumes "releaseDueHolds tzo now h = (n, h')"
  shows "climbed actor h h'"
proof -
  have "\<exists>f. ho_rooms (foldl (\<lambda>h r. log_action (rm_branch r) None ''room.hold_released'' (rm_id r)
      (set_room (rm_id r) (\<lambda>x. x\<lparr>rm_held := None, rm_heldUntil := None, rm_statusBy := None\<rparr>) h)) h due) = map f (ho_rooms h) \<and>
      (\<forall>r. rm_id (f r) = rm_id r \<and> rm_cleanliness (f r) = rm_cleanliness r)" for due
  proof (induction due arbitrary: h)
    case Nil
    show ?case by (rule exI[of _ id]) simp
  next
    case (Cons x xs)
    obtain f where f: "\<And>r. rm_id (f r) = rm_id r \<and> rm_cleanliness (f r) = rm_cleanliness r"
      and e: "ho_rooms (foldl (\<lambda>h r. log_action (rm_branch r) None ''room.hold_released'' (rm_id r)
      (set_room (rm_id r) (\<lambda>x. x\<lparr>rm_held := None, rm_heldUntil := None, rm_statusBy := None\<rparr>) h))
        (log_action (rm_branch x) None ''room.hold_released'' (rm_id x) (set_room (rm_id x) (\<lambda>x. x\<lparr>rm_held := None, rm_heldUntil := None, rm_statusBy := None\<rparr>) h)) xs)
        = map f (map (\<lambda>r. if rm_id r = rm_id x then r\<lparr>rm_held := None, rm_heldUntil := None, rm_statusBy := None\<rparr> else r) (ho_rooms h))"
      using Cons.IH[of "log_action (rm_branch x) None ''room.hold_released'' (rm_id x) (set_room (rm_id x) (\<lambda>x. x\<lparr>rm_held := None, rm_heldUntil := None, rm_statusBy := None\<rparr>) h)"] by auto
    show ?case unfolding foldl_Cons e map_map using f by (intro exI conjI) (rule refl, simp)
  qed
  then obtain f where "ho_rooms h' = map f (ho_rooms h) \<and> (\<forall>r. rm_id (f r) = rm_id r \<and> rm_cleanliness (f r) = rm_cleanliness r)"
    using assms unfolding releaseDueHolds_def Let_def by auto
  then show ?thesis unfolding climbed_def climbs_def by (intro exI[of _ f] exI[of _ "[]"]) simp
qed

lemma new_rooms_append: "\<exists>new. ho_rooms (new_rooms b rt fl view ns h) = ho_rooms h @ new"
proof (induction ns arbitrary: h)
  case (Cons n ns)
  show ?case unfolding new_rooms.simps by (rule exE[OF Cons.IH[of "(bump h)\<lparr>ho_rooms := ho_rooms h @
       [\<lparr>rm_id = fresh h, rm_branch = b, rm_roomType = rt, rm_floor = fl, rm_number = n, rm_occupancy = Vacant, rm_cleanliness = Clean, rm_held = None,
         rm_heldUntil = None, rm_view = view, rm_notes = None, rm_statusBy = None, rm_deleted = False\<rparr>]\<rparr>"]]) auto
qed simp

lemma defaultFloor_rooms: "findOrCreateDefaultFloor b h = (fl, h') \<Longrightarrow> ho_rooms h' = ho_rooms h"
  by (auto simp: findOrCreateDefaultFloor_def findOrCreateDefaultBuilding_def insert_floor_def Let_def split: option.splits)

lemma bulkCreateRooms_climbed:
  assumes "bulkCreateRooms b dto u h = Inr (rs, h')"
  shows "climbed actor h h'"
proof -
  from assms obtain h1 fl ns where h1: "ho_rooms h1 = ho_rooms h"
    and h': "ho_rooms h' = ho_rooms (new_rooms b (bq_roomType dto) fl (bq_view dto) ns
      (h1\<lparr>ho_rooms := map (\<lambda>r. if rm_branch r = b \<and> rm_number r \<in> set (projr (expandNumbers dto)) then broughtBack (bq_roomType dto) fl (bq_view dto) u r else r) (ho_rooms h1)\<rparr>))"
    by (auto simp: bulkCreateRooms_def Let_def res_simps split: if_splits option.splits prod.splits dest: defaultFloor_rooms)
  obtain new where "ho_rooms h' = map (\<lambda>r. if rm_branch r = b \<and> rm_number r \<in> set (projr (expandNumbers dto)) then broughtBack (bq_roomType dto) fl (bq_view dto) u r else r) (ho_rooms h) @ new"
    unfolding h' using new_rooms_append[of b "bq_roomType dto" fl "bq_view dto" ns
      "h1\<lparr>ho_rooms := map (\<lambda>r. if rm_branch r = b \<and> rm_number r \<in> set (projr (expandNumbers dto)) then broughtBack (bq_roomType dto) fl (bq_view dto) u r else r) (ho_rooms h1)\<rparr>"] h1 by auto
  then show ?thesis unfolding climbed_def by (intro exI conjI) (assumption, simp add: climbs_def broughtBack_def)
qed

lemma room_step_climbed: "room_step tzo actor h h' \<Longrightarrow> distinct (map rm_id (ho_rooms h)) \<Longrightarrow> climbed actor h h'"
proof (induction rule: room_step.induct)
  case (status i dto now h r h')
  then show ?case by (rule changeStatus_climbed)
next
  case (task b i p td u now h t h')
  then show ?case by (auto simp: createTask_def res_simps split: option.splits if_splits intro: createTaskInTx_climbed)
next
  case (start i u h h')
  then show ?case using transition_climbed[OF _ start(2)] by (auto simp: startTask_def res_simps climbed_same split: if_splits)
next
  case (complete i u h h')
  then show ?case using transition_climbed[OF _ complete(2)] by (auto simp: completeTask_def res_simps climbed_same split: if_splits)
next
  case (report i u h h')
  then show ?case using transition_climbed[OF _ report(2)] by (auto simp: reportIssue_def res_simps climbed_same split: if_splits)
next
  case (stayover b i r d h x h')
  then show ?case by (auto simp: ensureStayoverTaskInTx_def res_simps split: if_splits intro: climbed_same createTaskInTx_climbed)
next
  case (occupancy i occ c u h h')
  then have r: "ho_rooms h' = ho_rooms (set_room i (\<lambda>r. r\<lparr>rm_occupancy := occ, rm_cleanliness := the_default (rm_cleanliness r) c, rm_statusBy := u\<rparr>) h)"
    by (auto simp: applyReservationOccupancy_def res_simps)
  show ?case by (rule climbed_set[OF r]) (use occupancy(2) in \<open>auto simp: climbs_def\<close>)
next
  case (release now h n h')
  then show ?case by (intro releaseDueHolds_climbed)
next
  case (edit i patch u now h r h')
  then show ?case by (auto simp: updateRoom_def Let_def res_simps climbed_same climbs_def split: if_split_asm intro!: climbed_set[OF refl])
next
  case (remove i u now h h')
  then have r: "ho_rooms h' = ho_rooms (set_room i (\<lambda>r. r\<lparr>rm_deleted := True\<rparr>) h)"
    by (auto simp: removeRoom_def res_simps split: if_splits)
  show ?case by (rule climbed_set[OF r]) (auto simp: climbs_def)
next
  case (add b bdto u h rs h')
  then show ?case by (intro bulkCreateRooms_climbed)
qed

text \<open>
  Whatever is done to a room, its cleanliness moves along the ladder dirty, cleaning, clean,
  inspected one rung at a time or drops back to dirty, and a room becomes
  inspected only by a request of an owner or manager of its branch.
\<close>

theorem inspected_by_supervisor:
  assumes "room_step tzo actor h h'" and "distinct (map rm_id (ho_rooms h))" and "roomOf h i = Some r"
  shows "\<exists>r'. roomOf h' i = Some r' \<and> (rm_cleanliness r' \<in> {rm_cleanliness r, Dirty} \<or>
     rm_cleanliness r' \<in> set (CLEANLINESS_TRANSITIONS (rm_cleanliness r)) \<and> (rm_cleanliness r' = Inspected \<longrightarrow> roomSupervisor actor (rm_branch r)))"
proof -
  from room_step_climbed[OF assms(1,2)] obtain f new where f: "ho_rooms h' = map f (ho_rooms h) @ new"
    and k: "\<And>r. r \<in> set (ho_rooms h) \<Longrightarrow> rm_id (f r) = rm_id r \<and> climbs actor r (f r)" unfolding climbed_def by blast
  have r: "r \<in> set (ho_rooms h)" using assms(3) unfolding roomOf_def by (auto dest: find_Some_mem)
  have "List.find (\<lambda>r. rm_id r = i) (map f (ho_rooms h)) = map_option f (List.find (\<lambda>r. rm_id r = i) (ho_rooms h))"
    by (rule find_map_inv) (simp add: k)
  then have "roomOf h' i = Some (f r)" using assms(3) unfolding roomOf_def f by (simp add: find_append)
  then show ?thesis using k[OF r] unfolding climbs_def by auto
qed

definition inspect_request :: status_dto where
  "inspect_request = \<lparr>sq_occupancy = None, sq_cleanliness = Some Inspected, sq_held = None, sq_heldUntil = None\<rparr>"

theorem inspected_by_supervisor_witness:
  "\<exists>h' r'. room_step (\<lambda>_ _. 0) inn_manager inn h' \<and> roomOf h' 70 = Some r' \<and> rm_cleanliness r' \<in> {Clean, Dirty, Inspected}"
proof -
  have "map_sum id (\<lambda>(r, h). rm_cleanliness r) (changeStatus (\<lambda>_ _. 0) 70 inspect_request inn_manager 0 inn) = Inr Inspected" by code_simp
  then obtain r h' where c: "changeStatus (\<lambda>_ _. 0) 70 inspect_request inn_manager 0 inn = Inr (r, h')"
    by (cases "changeStatus (\<lambda>_ _. 0) 70 inspect_request inn_manager 0 inn") auto
  note step = room_step.status[OF c]
  have d: "distinct (map rm_id (ho_rooms inn))" and r: "roomOf inn 70 = Some (inn_room 70 ''101'')" by code_simp+
  from inspected_by_supervisor[OF step d r] step show ?thesis by (auto simp: inn_room_def CLEANLINESS_TRANSITIONS_def)
qed

end
