(* ===== verification/Guests.thy ===== *)
theory Guests
  imports Housekeeping Refunds
begin

text \<open>
  What a booking needs of the guests (\<^verbatim>\<open>guests/guests.service.ts\<close>): the guest it names, found
  by id, by e-mail or by the last nine digits of a phone, or put on file; and of the loyalty
  programme (\<^verbatim>\<open>loyalty/loyalty.service.ts\<close>): the points a stay earns. When several profiles match,
  the one updated last is taken; \<open>recent\<close> is the \<^verbatim>\<open>updatedAt\<close> column, which the ORM keeps.
\<close>

section \<open>Names and phones\<close>

record guest_dto =
  gd_name :: string
  gd_email :: "string option"
  gd_phone :: "string option"

definition phoneDigitsOf :: "string option \<Rightarrow> string option" where
  "phoneDigitsOf phone = (let digits = filter is_digit (the_default [] phone) in if digits = [] then None else Some digits)"

definition PHONE_MATCH_DIGITS :: nat where
  "PHONE_MATCH_DIGITS = 9"

definition phoneEnd :: "string option \<Rightarrow> string option" where
  "phoneEnd phone =
     (case phoneDigitsOf phone of
        None \<Rightarrow> None
      | Some ds \<Rightarrow> if PHONE_MATCH_DIGITS \<le> length ds then Some (drop (length ds - PHONE_MATCH_DIGITS) ds) else None)"

definition samePhone :: "string option \<Rightarrow> string option \<Rightarrow> bool" where
  "samePhone a b \<longleftrightarrow> phoneEnd a \<noteq> None \<and> phoneEnd a = phoneEnd b"

definition sameName :: "string \<Rightarrow> string \<Rightarrow> bool" where
  "sameName a b \<longleftrightarrow> js_lower (squeeze (js_trim a)) = js_lower (squeeze (js_trim b))"

section \<open>The guest of a booking\<close>

definition ends_with :: "string \<Rightarrow> string \<Rightarrow> bool" where
  "ends_with s e \<longleftrightarrow> length e \<le> length s \<and> drop (length s - length e) s = e"

definition newest :: "(nat \<Rightarrow> instant) \<Rightarrow> (guest_profile \<Rightarrow> bool) \<Rightarrow> house \<Rightarrow> guest_profile list" where
  "newest recent p h = sort_key (\<lambda>g. - recent (gu_id g)) (filter (\<lambda>g. \<not> gu_deleted g \<and> p g) (db_guests (ho_db h)))"

definition hasEmail :: "string \<Rightarrow> guest_profile \<Rightarrow> bool" where
  "hasEmail email g \<longleftrightarrow> (case gu_email g of None \<Rightarrow> False | Some e \<Rightarrow> js_lower e = js_lower email)"

definition createGuestInTx :: "guest_dto \<Rightarrow> house \<Rightarrow> guest_profile \<times> house" where
  "createGuestInTx dto h =
     (let row = \<lparr>gu_id = fresh h, gu_name = gd_name dto, gu_email = gd_email dto, gu_phone = gd_phone dto, gu_phoneDigits = phoneDigitsOf (gd_phone dto),
           gu_vipLevel = Some 0, gu_points = 0, gu_tier = None, gu_enrolledAt = None, gu_deleted = False\<rparr>
      in (row, ho_db_update (\<lambda>d. d\<lparr>db_guests := db_guests d @ [row]\<rparr>) (bump h)))"

text \<open>An empty string is no value (\<^verbatim>\<open>!found.email && email\<close>).\<close>

definition given :: "string option \<Rightarrow> string option" where
  "given s = (if s = Some [] then None else s)"

definition knownGuest :: "(nat \<Rightarrow> instant) \<Rightarrow> guest_dto \<Rightarrow> house \<Rightarrow> (guest_profile \<times> house) option" where
  "knownGuest recent dto h =
     (let email = given (map_option (\<lambda>e. js_lower (js_trim e)) (gd_email dto));
          phone = phoneEnd (gd_phone dto)
      in if email = None \<and> phone = None then None
      else case newest recent (\<lambda>g. (case email of None \<Rightarrow> False | Some e \<Rightarrow> hasEmail e g) \<or>
                  (case (phone, gu_phoneDigits g) of (Some e, Some ds) \<Rightarrow> ends_with ds e | _ \<Rightarrow> False)) h of
             [] \<Rightarrow> None
           | found # _ \<Rightarrow>
               (let fillsEmail = (given (gu_email found) = None \<and> email \<noteq> None);
                    fillsPhone = (given (gu_phone found) = None \<and> given (gd_phone dto) \<noteq> None);
                    upd = (\<lambda>g. g\<lparr>gu_email := (if fillsEmail then email else gu_email g),
                             gu_phone := (if fillsPhone then gd_phone dto else gu_phone g),
                             gu_phoneDigits := (if fillsPhone then phoneDigitsOf (gd_phone dto) else gu_phoneDigits g)\<rparr>)
                in if fillsEmail \<or> fillsPhone
                   then Some (upd found, ho_db_update (\<lambda>d. d\<lparr>db_guests := map (\<lambda>g. if gu_id g = gu_id found then upd g else g) (db_guests d)\<rparr>) h)
                   else Some (found, h)))"

definition publicBookingGuest :: "(nat \<Rightarrow> instant) \<Rightarrow> guest_dto \<Rightarrow> house \<Rightarrow> guest_profile \<times> house" where
  "publicBookingGuest recent dto h =
     (case given (map_option js_trim (gd_email dto)) of
        None \<Rightarrow> createGuestInTx dto h
      | Some email \<Rightarrow>
          (case List.find (\<lambda>g. sameName (gu_name g) (gd_name dto)) (take 25 (newest recent (hasEmail email) h)) of
             None \<Rightarrow> createGuestInTx dto h
           | Some found \<Rightarrow>
               if given (map_option js_trim (gd_phone dto)) \<noteq> None \<and> \<not> samePhone (gu_phone found) (gd_phone dto)
               then (found, h\<lparr>ho_notes := ho_notes h @ [gu_id found]\<rparr>) else (found, h)))"

text \<open>The guest is named by id, or described.\<close>

definition resolveGuestInput :: "nat option \<Rightarrow> guest_dto option \<Rightarrow> (nat + guest_dto) result" where
  "resolveGuestInput guestId guest =
     (case (guestId, guest) of
        (Some _, Some _) \<Rightarrow> Inl (BadRequest VALIDATION_FAILED)
      | (Some g, None) \<Rightarrow> Inr (Inl g)
      | (None, Some d) \<Rightarrow> Inr (Inr d)
      | (None, None) \<Rightarrow> Inl (BadRequest VALIDATION_FAILED))"

definition findOrCreateGuestInTx :: "(nat \<Rightarrow> instant) \<Rightarrow> nat + guest_dto \<Rightarrow> bool \<Rightarrow> house \<Rightarrow> (guest_profile \<times> house) result" where
  "findOrCreateGuestInTx recent inp publicBooking h =
     (case inp of
        Inl g \<Rightarrow> (case List.find (\<lambda>x. gu_id x = g \<and> \<not> gu_deleted x) (db_guests (ho_db h)) of
                    None \<Rightarrow> Inl (NotFound NOT_FOUND) | Some x \<Rightarrow> Inr (x, h))
      | Inr dto \<Rightarrow>
          if publicBooking then Inr (publicBookingGuest recent dto h)
          else Inr (case knownGuest recent dto h of Some found \<Rightarrow> found | None \<Rightarrow> createGuestInTx dto h))"

text \<open>
  The document itself is encrypted and stored outside these tables; what is left here is the
  trail of its being recorded.
\<close>

definition recordIdDocumentInTx :: "nat \<Rightarrow> nat \<Rightarrow> nat \<Rightarrow> house \<Rightarrow> house" where
  "recordIdDocumentInTx b g actorId = log_action b (Some actorId) ''guest.id_document_recorded'' g"

section \<open>Registration cards\<close>

definition generateCardInTx :: "reservation \<Rightarrow> nat \<Rightarrow> house \<Rightarrow> house" where
  "generateCardInTx r actorId h =
     (if re_id r \<in> set (ho_cards h) then h
      else log_action (re_branch r) (Some actorId) ''registration_card.generated'' (fresh h) ((bump h)\<lparr>ho_cards := ho_cards h @ [re_id r]\<rparr>))"

section \<open>Points for a stay\<close>

definition spendBeforeTax :: "db \<Rightarrow> nat \<Rightarrow> rat" where
  "spendBeforeTax d r =
     sum_list (map li_amount (filter (\<lambda>i. (\<exists>f \<in> set (db_folios d). fo_id f = li_folio i \<and> fo_reservation f = Some r) \<and>
       li_chargeType i \<noteq> Tax \<and> live_line i) (db_lines d)))"

definition earnForStayInTx :: "decimal_lib \<Rightarrow> reservation \<Rightarrow> nat option \<Rightarrow> instant \<Rightarrow> house \<Rightarrow> (int \<times> house) result" where
  "earnForStayInTx D r actorId now h =
     (case db_program (ho_db h) of
        None \<Rightarrow> Inr (0, h)
      | Some program \<Rightarrow>
          if \<not> pg_isActive program then Inr (0, h)
          else if map_option br_currency (List.find (\<lambda>b. br_id b = re_branch r) (db_branches (ho_db h))) \<noteq> Some (pg_currency program) then Inr (0, h)
          else if \<exists>t \<in> set (db_loyalty (ho_db h)). lt_earnReservation t = Some (re_id r) then Inr (0, h)
          else let points = pointsForSpend D (spendBeforeTax (ho_db h) (re_id r)) (pg_pointsPerUnit program)
          in if points \<le> 0 then Inr (0, h)
          else case lockLoyaltyGuest (ho_db h) (re_guest r) of
                 Inl _ \<Rightarrow> Inr (0, h)
               | Inr guest \<Rightarrow>
                   bindr (on_db (applyLoyaltyPoints guest \<lparr>le_type = Earn, le_points = points, le_branch = Some (re_branch r), le_earnReservation = Some (re_id r),
                       le_payment = None, le_expiresAt = pointsExpireAt now (pg_expireMonths program), le_actor = actorId\<rparr> now) h) (\<lambda>(upgraded, h).
                     Inr (points, if upgraded \<noteq> None then mail (re_id r) ''loyalty_tier_upgrade'' h else h)))"

end
