(* ===== verification/Reservations.thy ===== *)
theory Reservations
  imports Guests
begin

text \<open>
  Booking and arrival (\<^verbatim>\<open>reservations/reservations.service.ts\<close>): a stay is priced, checked against what is
  left to sell and written; a guest walks in; a booking, or a whole group, is checked in. The row
  locks the code takes order concurrent requests; a step here is one request, run to its end.
  The server's calendar year is that of UTC. In a stored sentence a long dash is written \<open>-\<close>.

  Parameters: \<open>D\<close> is the decimal library, \<open>tzo\<close> the time-zone data, \<open>recent\<close> when a guest was last
  updated, \<open>now\<close> the clock.
\<close>

section \<open>Rows\<close>

definition findReservationOrThrow :: "house \<Rightarrow> nat \<Rightarrow> reservation result" where
  "findReservationOrThrow h i =
     (case List.find (\<lambda>r. re_id r = i \<and> \<not> re_deleted r) (ho_stays h) of None \<Rightarrow> Inl (NotFound NOT_FOUND) | Some r \<Rightarrow> Inr r)"

definition set_stay :: "nat \<Rightarrow> (reservation \<Rightarrow> reservation) \<Rightarrow> house \<Rightarrow> house" where
  "set_stay i f h = ho_db_update (\<lambda>d. d\<lparr>db_reservations := map (\<lambda>r. if re_id r = i then f r else r) (db_reservations d)\<rparr>) h"

definition stayNights :: "reservation \<Rightarrow> int" where
  "stayNights r = stay_nights (re_checkInDate r) (re_checkOutDate r)"

definition padStart5 :: "string \<Rightarrow> string" where
  "padStart5 s = replicate (5 - length s) (CHR ''0'') @ s"

definition generateConfirmationNumber :: "instant \<Rightarrow> house \<Rightarrow> string \<times> house" where
  "generateConfirmationNumber now h =
     (let n = Suc (ho_seq h)
      in (''RES-'' @ show_nat (nat (yearOfDay (day_key now))) @ ''-'' @ padStart5 (show_nat n), h\<lparr>ho_seq := n\<rparr>))"

text \<open>Three attempts at a free confirmation number; the number is unique in the table.\<close>

fun createReservationRow :: "nat \<Rightarrow> instant \<Rightarrow> reservation \<Rightarrow> house \<Rightarrow> (reservation \<times> house) result" where
  "createReservationRow 0 now row h = Inl (Conflict CONFLICT)"
| "createReservationRow (Suc left) now row h =
     (if \<exists>r \<in> set (ho_stays h). re_confirmation r = re_confirmation row
      then if left = 0 then Inl (Conflict CONFLICT)
           else let (number, h) = generateConfirmationNumber now h in createReservationRow left now (row\<lparr>re_confirmation := number\<rparr>) h
      else let row = row\<lparr>re_id := fresh h\<rparr>
           in Inr (row, ho_db_update (\<lambda>d. d\<lparr>db_reservations := db_reservations d @ [row]\<rparr>) (bump h)))"

section \<open>Checks and prices\<close>

definition assertWithinCapacity :: "room_type \<Rightarrow> int \<Rightarrow> int \<Rightarrow> unit result" where
  "assertWithinCapacity rt adults children =
     (if rt_capacityAdults rt < adults \<or> rt_capacityChildren rt < children then Inl (BadRequest VALIDATION_FAILED) else Inr ())"

definition assertRoomCheckInReady :: "house \<Rightarrow> room \<Rightarrow> nat \<Rightarrow> nat \<Rightarrow> instant \<Rightarrow> instant \<Rightarrow> unit result" where
  "assertRoomCheckInReady h room b rt checkIn checkOut =
     (if rm_branch room \<noteq> b \<or> rm_roomType room \<noteq> rt then Inl (BadRequest VALIDATION_FAILED)
      else if rm_occupancy room \<noteq> Vacant \<or> rm_held room \<noteq> None then Inl (Conflict RESERVATION_NOT_AVAILABLE)
      else if \<exists>k \<in> set (ho_blocks h). rb_room k = rm_id room \<and> rb_from k < checkOut \<and> checkIn \<le> rb_to k then Inl (Conflict RESERVATION_NOT_AVAILABLE)
      else Inr ())"

definition dealTerms :: "house \<Rightarrow> string option \<Rightarrow> nat option \<Rightarrow> (int \<times> int) \<Rightarrow> deal result" where
  "dealTerms h promoCode corporate party =
     (case corporate of
        None \<Rightarrow> Inr \<lparr>dl_promoCode = trimmed promoCode, dl_corporate = None, dl_occupancy = Some party\<rparr>
      | Some c \<Rightarrow>
          if \<exists>a \<in> set (db_corporate (ho_db h)). ca_id a = c \<and> ca_isActive a
          then Inr \<lparr>dl_promoCode = trimmed promoCode, dl_corporate = Some c, dl_occupancy = Some party\<rparr>
          else Inl (BadRequest VALIDATION_FAILED))"

definition storedDeal :: "reservation \<Rightarrow> (int \<times> int) option \<Rightarrow> deal" where
  "storedDeal r occupancy = \<lparr>dl_promoCode = re_promoCode r, dl_corporate = re_corporate r,
     dl_occupancy = Some (the_default (re_adults r, re_children r) occupancy)\<rparr>"

text \<open>What a stay comes to: before tax, with tax, and night by night.\<close>

record stay_price =
  sp_subtotal :: rat
  sp_totalWithTax :: rat
  sp_nightlyRates :: nightly_json

definition blockPricing :: "decimal_lib \<Rightarrow> house \<Rightarrow> nat \<Rightarrow> rat \<Rightarrow> instant \<Rightarrow> instant \<Rightarrow> stay_price result" where
  "blockPricing D h b nightly checkIn checkOut =
     (let nights = enumerateNights checkIn checkOut; n = int (length nights)
      in bindr (priceCharge D (db_taxRules (ho_db h)) b Room (d_mul D nightly (of_int n)) n) (\<lambda>priced.
         Inr \<lparr>sp_subtotal = pc_price priced, sp_totalWithTax = pc_total priced,
              sp_nightlyRates = Some (map (\<lambda>night. (Some (day_key night), Some (JStr (d_toFixed2 D nightly)))) nights)\<rparr>))"

definition repricedStay :: "decimal_lib \<Rightarrow> house \<Rightarrow> reservation \<Rightarrow> stay_resolution \<Rightarrow> instant \<Rightarrow> instant \<Rightarrow> (rat \<times> nightly_json) result" where
  "repricedStay D h r resolved checkIn checkOut =
     (case re_overrideRate r of
        None \<Rightarrow> Inr (sr_subtotal resolved, nightlyRatesOf resolved)
      | Some rate \<Rightarrow> bindr (blockPricing D h (re_branch r) rate checkIn checkOut) (\<lambda>p. Inr (sp_subtotal p, sp_nightlyRates p)))"

definition dayUseHours :: "branch \<Rightarrow> (string \<times> string) result" where
  "dayUseHours br = (case dayUseHoursFor (br_dayUsePolicy br) of None \<Rightarrow> Inl (BadRequest VALIDATION_FAILED) | Some hours \<Rightarrow> Inr hours)"

definition dayUsePricing :: "decimal_lib \<Rightarrow> house \<Rightarrow> branch \<Rightarrow> room_type \<Rightarrow> stay_price result" where
  "dayUsePricing D h br rt =
     bindr (dayUseHours br) (\<lambda>_.
     case rt_dayUseRate rt of
       None \<Rightarrow> Inl (BadRequest VALIDATION_FAILED)
     | Some rate \<Rightarrow> bindr (priceCharge D (db_taxRules (ho_db h)) (br_id br) Room rate 1) (\<lambda>priced.
         Inr \<lparr>sp_subtotal = rate, sp_totalWithTax = pc_total priced, sp_nightlyRates = Some []\<rparr>))"

definition depositAskedFor :: "decimal_lib \<Rightarrow> tz_offset \<Rightarrow> branch \<Rightarrow> instant \<Rightarrow> stay_price \<Rightarrow> instant \<Rightarrow> (rat \<times> instant) option result" where
  "depositAskedFor D tzo br checkIn pricing now =
     (let nights = (case sp_nightlyRates pricing of None \<Rightarrow> 0 | Some ns \<Rightarrow> int (length ns))
      in bindr (nightlyRateFor D (sp_nightlyRates pricing) checkIn) (\<lambda>own.
         let firstNight = (case own of Some r \<Rightarrow> r
               | None \<Rightarrow> if 0 < nights then d_dp2 D (d_div D (sp_subtotal pricing) (of_int nights)) else sp_subtotal pricing)
         in Inr (depositFor D (resolveDepositPolicy (br_depositPolicy br))
              \<lparr>pd_checkInDate = checkIn, pd_subtotal = sp_subtotal pricing, pd_totalWithTax = sp_totalWithTax pricing, pd_firstNight = firstNight\<rparr>
              (branchToday tzo br now))))"

section \<open>Booking\<close>

record booking_dto =
  bk_guestId :: "nat option"
  bk_guest :: "guest_dto option"
  bk_roomType :: nat
  bk_checkIn :: day
  bk_checkOut :: day
  bk_adults :: int
  bk_children :: "int option"
  bk_channel :: "reservation_channel option"
  bk_joinWaitlist :: bool
  bk_promoCode :: "string option"
  bk_corporate :: "nat option"
  bk_dayUse :: bool
  bk_packages :: "nat list option"

definition createReservation ::
  "decimal_lib \<Rightarrow> tz_offset \<Rightarrow> (nat \<Rightarrow> instant) \<Rightarrow> nat \<Rightarrow> booking_dto \<Rightarrow> nat option \<Rightarrow> nat option \<Rightarrow> bool \<Rightarrow> instant \<Rightarrow> house \<Rightarrow> (reservation \<times> house) result" where
  "createReservation D tzo recent b dto actorId groupBlock publicBooking now h =
     (let dayUse = bk_dayUse dto; rtId = bk_roomType dto; children = the_default 0 (bk_children dto);
          checkIn = toBranchDate (bk_checkIn dto);
          checkOut = (if dayUse then checkIn else toBranchDate (bk_checkOut dto));
          channel = the_default Direct (bk_channel dto)
      in bindr (if dayUse then Inr () else assertValidRange checkIn checkOut) (\<lambda>_.
      if dayUse \<and> (bk_joinWaitlist dto \<or> groupBlock \<noteq> None) then Inl (BadRequest VALIDATION_FAILED)
      else bindr (resolveGuestInput (bk_guestId dto) (bk_guest dto)) (\<lambda>guestInput.
      bindr (branchOf h b) (\<lambda>br.
      bindr (assertRoomType h b rtId) (\<lambda>rt.
      bindr (assertWithinCapacity rt (bk_adults dto) children) (\<lambda>_.
      bindr (if dayUse then Inr () else assertNoViolation h b rtId checkIn checkOut) (\<lambda>_.
      bindr (snapshotsFor D h b rtId (the_default [] (bk_packages dto)) publicBooking) (\<lambda>packages.
      bindr (findOrCreateGuestInTx recent guestInput publicBooking h) (\<lambda>(guest, h).
      bindr (case groupBlock of None \<Rightarrow> Inr None | Some g \<Rightarrow> bindr (assertGroupBlockOpen h g b rtId) (\<lambda>block. Inr (Some block))) (\<lambda>block.
      bindr (if dayUse then assertDayUseAvailable h b rtId checkIn
             else if bk_joinWaitlist dto then Inr ()
             else bindr (assertAvailableForStay tzo h b rtId checkIn checkOut None (map_option gb_id block) now) (\<lambda>_.
                  assertWithinAllotment h b rtId channel checkIn checkOut None)) (\<lambda>_.
      bindr (dealTerms h (bk_promoCode dto) (bk_corporate dto) (bk_adults dto, children)) (\<lambda>deal.
      bindr (if dayUse then Inr (None, h)
             else bindr (resolveStay D b rt checkIn checkOut deal \<lparr>rc_trigger = ''booking_create'', rc_user = actorId, rc_reservation = None, rc_persist = True\<rparr> h)
                    (\<lambda>(resolved, h). Inr (Some resolved, h))) (\<lambda>(resolved, h).
      bindr (case (resolved, block) of
               (Some res, None) \<Rightarrow> Inr \<lparr>sp_subtotal = sr_subtotal res, sp_totalWithTax = sr_totalWithTax res, sp_nightlyRates = nightlyRatesOf res\<rparr>
             | (Some _, Some block) \<Rightarrow> blockPricing D h b (gb_rate block) checkIn checkOut
             | (None, _) \<Rightarrow> dayUsePricing D h br rt) (\<lambda>pricing.
      let (number, h) = generateConfirmationNumber now h
      in bindr (if bk_joinWaitlist dto then Inr None else depositAskedFor D tzo br checkIn pricing now) (\<lambda>deposit.
      bindr (createReservationRow 3 now
          \<lparr>re_id = 0, re_branch = b, re_guest = gu_id guest, re_roomType = rtId, re_room = None,
           re_status = (if bk_joinWaitlist dto then Waitlisted else Confirmed), re_checkInDate = checkIn, re_checkOutDate = checkOut,
           re_confirmedRate = sp_subtotal pricing, re_overrideRate = map_option gb_rate block, re_nightlyRates = sp_nightlyRates pricing,
           re_isDayUse = dayUse, re_packages = packages, re_adults = bk_adults dto, re_children = children, re_billToFolio = None,
           re_confirmation = number, re_channel = channel, re_ratePlan = (case resolved of None \<Rightarrow> None | Some res \<Rightarrow> sr_ratePlan res),
           re_overrideReason = map_option (\<lambda>k. ''Group block: '' @ gb_name k) block, re_groupBlock = map_option gb_id block,
           re_corporate = dl_corporate deal, re_promoCode = dl_promoCode deal, re_depositAmount = map_option fst deposit,
           re_depositDueDate = map_option snd deposit, re_cancellationPolicy = Some (policy_json (resolveCancellationPolicy (br_cancellationPolicy br))),
           re_actualCheckIn = None, re_actualCheckOut = None, re_createdBy = actorId, re_deleted = False\<rparr> h) (\<lambda>(r, h).
      let h = (case resolved of None \<Rightarrow> h | Some res \<Rightarrow> linkAuditLogsToReservation (sr_logIds res) (re_id r) h);
          h = stayAudit b actorId ''reservation.created'' (re_id r) h
      in Inr (r, if bk_joinWaitlist dto then h else mail (re_id r) ''booking_confirmation'' h)))))))))))))))))"

section \<open>Arrival\<close>

definition turndownTonight :: "tz_offset \<Rightarrow> branch \<Rightarrow> reservation \<Rightarrow> instant \<Rightarrow> house \<Rightarrow> house result" where
  "turndownTonight tzo br r now h =
     (let today = branchToday tzo br now
      in case re_room r of
           None \<Rightarrow> Inr h
         | Some room \<Rightarrow>
             if re_isDayUse r \<or> re_checkOutDate r \<le> today then Inr h
             else if \<not> wantsTurndown (turndownScopeFor (br_turndownPolicy br))
                        (case List.find (\<lambda>g. gu_id g = re_guest r) (db_guests (ho_db h)) of None \<Rightarrow> None | Some g \<Rightarrow> gu_vipLevel g) then Inr h
             else bindr (ensureTurndownTaskInTx (br_id br) room (re_id r) today h) (\<lambda>(_, h). Inr h))"

text \<open>The bill of a stay just placed in its room, with the arrival night on it; then the evening's turndown.\<close>

definition openBill :: "decimal_lib \<Rightarrow> tz_offset \<Rightarrow> branch \<Rightarrow> reservation \<Rightarrow> nat \<Rightarrow> instant \<Rightarrow> house \<Rightarrow> house result" where
  "openBill D tzo br r actorId now h =
     (let (folio, d) = ensurePrimaryFolio r (Some actorId) now (ho_db h); h = h\<lparr>ho_db := d\<rparr>
      in bindr (on_db (postRoomChargeForDate D r folio (re_checkInDate r) (Some actorId)) h) (\<lambda>(_, h). turndownTonight tzo br r now h))"

record walk_in_dto =
  wi_guestId :: "nat option"
  wi_guest :: "guest_dto option"
  wi_idDocument :: bool
  wi_roomType :: nat
  wi_room :: nat
  wi_checkOut :: "day option"
  wi_adults :: int
  wi_children :: "int option"
  wi_promoCode :: "string option"
  wi_corporate :: "nat option"
  wi_dayUse :: bool
  wi_packages :: "nat list option"

text \<open>A walk-in for the night without a departure day is an invalid date, which the database refuses.\<close>

definition walkIn ::
  "decimal_lib \<Rightarrow> tz_offset \<Rightarrow> (nat \<Rightarrow> instant) \<Rightarrow> nat \<Rightarrow> walk_in_dto \<Rightarrow> nat \<Rightarrow> instant \<Rightarrow> house \<Rightarrow> (reservation \<times> house) result" where
  "walkIn D tzo recent b dto actorId now h =
     bindr (resolveGuestInput (wi_guestId dto) (wi_guest dto)) (\<lambda>guestInput.
     bindr (branchOf h b) (\<lambda>br.
     let dayUse = wi_dayUse dto; rtId = wi_roomType dto; children = the_default 0 (wi_children dto); checkIn = branchToday tzo br now
     in bindr (if dayUse then Inr checkIn else case wi_checkOut dto of None \<Rightarrow> Inl PlainError | Some d \<Rightarrow> Inr (toBranchDate d)) (\<lambda>checkOut.
     bindr (if dayUse then Inr () else assertValidRange checkIn checkOut) (\<lambda>_.
     bindr (assertRoomType h b rtId) (\<lambda>rt.
     bindr (assertWithinCapacity rt (wi_adults dto) children) (\<lambda>_.
     bindr (if dayUse then Inr () else assertNoViolation h b rtId checkIn checkOut) (\<lambda>_.
     bindr (snapshotsFor D h b rtId (the_default [] (wi_packages dto)) False) (\<lambda>packages.
     bindr (findOrCreateGuestInTx recent guestInput False h) (\<lambda>(guest, h).
     bindr (findRoom h (wi_room dto)) (\<lambda>room.
     bindr (assertRoomCheckInReady h room b rtId checkIn checkOut) (\<lambda>_.
     bindr (if dayUse then assertDayUseAvailable h b rtId checkIn
            else bindr (assertAvailableForStay tzo h b rtId checkIn checkOut None None now) (\<lambda>_.
                 assertWithinAllotment h b rtId Walk_in checkIn checkOut None)) (\<lambda>_.
     bindr (dealTerms h (wi_promoCode dto) (wi_corporate dto) (wi_adults dto, children)) (\<lambda>deal.
     bindr (if dayUse then Inr (None, h)
            else bindr (resolveStay D b rt checkIn checkOut deal \<lparr>rc_trigger = ''walkin'', rc_user = Some actorId, rc_reservation = None, rc_persist = True\<rparr> h)
                   (\<lambda>(resolved, h). Inr (Some resolved, h))) (\<lambda>(resolved, h).
     bindr (case resolved of
              Some res \<Rightarrow> Inr (sr_subtotal res, nightlyRatesOf res)
            | None \<Rightarrow> bindr (dayUsePricing D h br rt) (\<lambda>p. Inr (sp_subtotal p, sp_nightlyRates p))) (\<lambda>(subtotal, nightly).
     let (number, h) = generateConfirmationNumber now h
     in bindr (createReservationRow 3 now
          \<lparr>re_id = 0, re_branch = b, re_guest = gu_id guest, re_roomType = rtId, re_room = Some (wi_room dto),
           re_status = Checked_in, re_checkInDate = checkIn, re_checkOutDate = checkOut,
           re_confirmedRate = subtotal, re_overrideRate = None, re_nightlyRates = nightly,
           re_isDayUse = dayUse, re_packages = packages, re_adults = wi_adults dto, re_children = children, re_billToFolio = None,
           re_confirmation = number, re_channel = Walk_in, re_ratePlan = (case resolved of None \<Rightarrow> None | Some res \<Rightarrow> sr_ratePlan res),
           re_overrideReason = None, re_groupBlock = None,
           re_corporate = dl_corporate deal, re_promoCode = dl_promoCode deal, re_depositAmount = None,
           re_depositDueDate = None, re_cancellationPolicy = None,
           re_actualCheckIn = Some now, re_actualCheckOut = None, re_createdBy = Some actorId, re_deleted = False\<rparr> h) (\<lambda>(r, h).
     let h = (case resolved of None \<Rightarrow> h | Some res \<Rightarrow> linkAuditLogsToReservation (sr_logIds res) (re_id r) h)
     in bindr (applyReservationOccupancy (wi_room dto) Occupied None (Some actorId) h) (\<lambda>h.
     bindr (openBill D tzo br r actorId now h) (\<lambda>h.
     let h = (if wi_idDocument dto then recordIdDocumentInTx b (gu_id guest) actorId h else h);
         h = generateCardInTx r actorId h;
         h = stayAudit b (Some actorId) ''reservation.walk_in'' (re_id r) h
     in Inr (r, mail (re_id r) ''checkin_receipt'' h)))))))))))))))))))"

record check_in_dto =
  ck_room :: "nat option"
  ck_idDocument :: bool
  ck_overrideReason :: "string option"

text \<open>A room of another type than was booked, given for a reason, at the booked rate.\<close>

definition typeGiven :: "decimal_lib \<Rightarrow> tz_offset \<Rightarrow> reservation \<Rightarrow> room \<Rightarrow> string option \<Rightarrow> instant \<Rightarrow> house \<Rightarrow> (reservation \<Rightarrow> reservation) result" where
  "typeGiven D tzo r room overrideReason now h =
     bindr (assertRoomType h (re_branch r) (re_roomType r)) (\<lambda>booked.
     bindr (assertRoomType h (re_branch r) (rm_roomType room)) (\<lambda>given.
     case overrideReason of
       None \<Rightarrow> Inl (BadRequest VALIDATION_FAILED)
     | Some reason \<Rightarrow>
         bindr (assertAvailableForStay tzo h (re_branch r) (rm_roomType room) (re_checkInDate r) (re_checkOutDate r) (Some (re_id r)) None now) (\<lambda>_.
           Inr (\<lambda>x. if re_overrideRate r \<noteq> None then x\<lparr>re_roomType := rm_roomType room\<rparr>
                    else x\<lparr>re_roomType := rm_roomType room,
                           re_overrideRate := Some (d_dp2 D (d_div D (re_confirmedRate r) (of_int (stayNights r)))),
                           re_overrideReason := Some (take 500 (''Given a '' @ rt_name given @ '' at check-in at the booked rate - '' @ reason))\<rparr>))))"

definition checkInInTx :: "decimal_lib \<Rightarrow> tz_offset \<Rightarrow> nat \<Rightarrow> check_in_dto \<Rightarrow> nat \<Rightarrow> instant \<Rightarrow> house \<Rightarrow> (reservation \<times> house) result" where
  "checkInInTx D tzo i dto actorId now h =
     bindr (findReservationOrThrow h i) (\<lambda>r.
     if re_status r \<noteq> Confirmed then Inl (Conflict INVALID_STATUS_TRANSITION)
     else bindr (branchOf h (re_branch r)) (\<lambda>br.
     if branchToday tzo br now < re_checkInDate r then Inl (Conflict EARLY_CHECK_IN)
     else case (case re_room r of Some x \<Rightarrow> Some x | None \<Rightarrow> ck_room dto) of
       None \<Rightarrow> Inl (BadRequest VALIDATION_FAILED)
     | Some roomId \<Rightarrow>
     bindr (findRoom h roomId) (\<lambda>room.
     let typeChanges = (rm_roomType room \<noteq> re_roomType r)
     in bindr (if typeChanges \<and> rm_branch room = re_branch r then typeGiven D tzo r room (trimmed (ck_overrideReason dto)) now h else Inr id) (\<lambda>override.
     bindr (assertRoomCheckInReady h room (re_branch r) (if typeChanges then rm_roomType room else re_roomType r) (re_checkInDate r) (re_checkOutDate r)) (\<lambda>_.
     let upd = (\<lambda>x. override (x\<lparr>re_status := Checked_in, re_room := Some roomId, re_actualCheckIn := Some now\<rparr>)); updated = upd r
     in bindr (applyReservationOccupancy roomId Occupied None (Some actorId) (set_stay i upd h)) (\<lambda>h.
     bindr (openBill D tzo br updated actorId now h) (\<lambda>h.
     let h = (if ck_idDocument dto then recordIdDocumentInTx (re_branch r) (re_guest updated) actorId h else h);
         h = generateCardInTx updated actorId h;
         h = stayAudit (re_branch r) (Some actorId) ''reservation.checked_in'' i h
     in Inr (updated, mail i ''checkin_receipt'' h))))))))"

definition checkIn :: "decimal_lib \<Rightarrow> tz_offset \<Rightarrow> nat \<Rightarrow> check_in_dto \<Rightarrow> nat \<Rightarrow> instant \<Rightarrow> house \<Rightarrow> (reservation \<times> house) result" where
  "checkIn = checkInInTx"

text \<open>A group's arrivals, each into the room the desk gives them.\<close>

fun checkInAll :: "decimal_lib \<Rightarrow> tz_offset \<Rightarrow> (nat \<times> nat) list \<Rightarrow> nat \<Rightarrow> instant \<Rightarrow> house \<Rightarrow> (reservation list \<times> house) result" where
  "checkInAll D tzo [] actorId now h = Inr ([], h)"
| "checkInAll D tzo ((i, room) # rest) actorId now h =
     bindr (checkInInTx D tzo i \<lparr>ck_room = Some room, ck_idDocument = False, ck_overrideReason = None\<rparr> actorId now h) (\<lambda>(r, h).
     bindr (checkInAll D tzo rest actorId now h) (\<lambda>(rs, h). Inr (r # rs, h)))"

definition checkInGroup ::
  "decimal_lib \<Rightarrow> tz_offset \<Rightarrow> nat \<Rightarrow> (nat \<times> nat) list \<Rightarrow> nat option \<Rightarrow> nat \<Rightarrow> instant \<Rightarrow> house \<Rightarrow> (reservation list \<times> nat option \<times> house) result" where
  "checkInGroup D tzo g assignments masterBill actorId now h =
     (let ids = map fst assignments
      in if \<not> distinct ids then Inl (BadRequest VALIDATION_FAILED)
      else if \<not> distinct (map snd assignments) then Inl (BadRequest VALIDATION_FAILED)
      else case List.find (\<lambda>x. gb_id x = g) (ho_groups h) of
        None \<Rightarrow> Inl (NotFound NOT_FOUND)
      | Some block \<Rightarrow>
          if length (filter (\<lambda>r. re_id r \<in> set ids \<and> re_groupBlock r = Some g \<and> \<not> re_deleted r) (ho_stays h)) \<noteq> length ids then Inl (BadRequest VALIDATION_FAILED)
          else bindr (case masterBill of
              None \<Rightarrow> Inr (None, h)
            | Some leadId \<Rightarrow>
                (case List.find (\<lambda>r. re_id r = leadId \<and> re_groupBlock r = Some g \<and> \<not> re_deleted r) (ho_stays h) of
                   None \<Rightarrow> Inl (BadRequest VALIDATION_FAILED)
                 | Some lead \<Rightarrow>
                     bindr (on_db (createAdditionalFolio (re_id lead) (take 100 (''Group - '' @ gb_name block)) (gb_contactName block) None actorId now) h) (\<lambda>(master, h).
                       Inr (Some (fo_id master),
                         ho_db_update (\<lambda>d. d\<lparr>db_reservations := map (\<lambda>r. if re_id r \<in> set ids then r\<lparr>re_billToFolio := Some (fo_id master)\<rparr> else r) (db_reservations d)\<rparr>) h)))) (\<lambda>(master, h).
          bindr (checkInAll D tzo assignments actorId now h) (\<lambda>(rs, h).
            Inr (rs, master, log_action (gb_branch block) (Some actorId) ''group_block.checked_in'' g h))))"

end
