(* ===== verification/Stays.thy ===== *)
theory Stays
  imports Reservations
begin

text \<open>
  What happens to a booking after it is made (\<^verbatim>\<open>reservations/reservations.service.ts\<close>): it is changed, promoted from
  the waitlist, cancelled, marked a no-show and reinstated, walked to another property; the
  stay is extended, moved to another room, repriced, given packages, and checked out.
\<close>

section \<open>Leaving\<close>

text \<open>\<^verbatim>\<open>new Date(`1970-01-01T${until}:00.000Z`)\<close> of a clock time \<open>HH:MM\<close>\<close>

definition digit :: "char \<Rightarrow> int" where
  "digit c = int (of_char c) - 48"

definition clockInstant :: "string \<Rightarrow> instant" where
  "clockInstant s = (case s of [a, b, _, d, e] \<Rightarrow> ((digit a * 10 + digit b) * 60 + digit d * 10 + digit e) * 60000 | _ \<Rightarrow> 0)"

definition stayFeesNow :: "decimal_lib \<Rightarrow> tz_offset \<Rightarrow> reservation \<Rightarrow> branch \<Rightarrow> instant \<Rightarrow> house \<Rightarrow> stay_fee list result" where
  "stayFeesNow D tzo r br now h =
     bindr (if re_isDayUse r then bindr (dayUseHours br) (\<lambda>hours. Inr (clockInstant (snd hours))) else Inr (br_checkOutTime br)) (\<lambda>checkOutTime.
     let today = branchToday tzo br now;
         billedNights = (\<lambda>i. day_key (li_serviceDate i)) ` set (filter (\<lambda>i. li_stay i = Some (re_id r) \<and> li_chargeType i = Room \<and> \<not> li_dayUse i \<and>
                            live_line i \<and> today \<le> li_serviceDate i) (db_lines (ho_db h)))
     in stayFeesFor D tzo (resolveStayFeePolicy (br_stayFeePolicy br)) (stay_of r) (br_timezone br) checkOutTime today now billedNights)"

definition getCheckOutQuote :: "decimal_lib \<Rightarrow> tz_offset \<Rightarrow> nat \<Rightarrow> instant \<Rightarrow> house \<Rightarrow> (stay_fee \<times> priced_charge) list result" where
  "getCheckOutQuote D tzo i now h =
     bindr (findReservationOrThrow h i) (\<lambda>r.
     bindr (branchOf h (re_branch r)) (\<lambda>br.
     bindr (if re_status r = Checked_in then stayFeesNow D tzo r br now h else Inr []) (\<lambda>fees.
       foldr_res (\<lambda>fee rows. bindr (previewCharge D (ho_db h) (br_id br) Penalty (fe_amount fee)) (\<lambda>p. Inr (rows @ [(fee, p)]))) fees [])))"

text \<open>The room is left dirty and vacant, its waiting services make way for a clean of the room.\<close>

definition vacate :: "nat \<Rightarrow> nat \<Rightarrow> string \<Rightarrow> nat \<Rightarrow> instant \<Rightarrow> nat \<Rightarrow> house \<Rightarrow> house result" where
  "vacate b room trigger r today actorId h =
     bindr (applyReservationOccupancy room Vacant (Some Dirty) (Some actorId) h) (\<lambda>h.
     let (_, h) = supersedeStayoverTasksInTx b room (Some actorId) h
     in bindr (createTaskInTx b \<lparr>to_room = room, to_priority = None, to_trigger = trigger, to_reservation = Some r, to_date = today, to_actor = Some actorId\<rparr> h)
          (\<lambda>(_, h). Inr h))"

definition postFees :: "decimal_lib \<Rightarrow> folio \<Rightarrow> instant \<Rightarrow> nat \<Rightarrow> stay_fee list \<Rightarrow> db \<Rightarrow> db result" where
  "postFees D folio today actorId fees d =
     foldr_res (\<lambda>fee d. bindr (postChargeInTx D folio (fe_amount fee) Penalty today (Some actorId) d) (\<lambda>(_, d). Inr d)) fees d"

definition chargeFees :: "decimal_lib \<Rightarrow> reservation \<Rightarrow> folio \<Rightarrow> instant \<Rightarrow> bool \<Rightarrow> nat \<Rightarrow> stay_fee list \<Rightarrow> house \<Rightarrow> house result" where
  "chargeFees D r folio today waiveFees actorId fees h =
     (if fees \<noteq> [] \<and> \<not> waiveFees then bindr (postFees D folio today actorId fees (ho_db h)) (\<lambda>d. Inr (h\<lparr>ho_db := d\<rparr>))
      else if fees \<noteq> [] then Inr (stayAudit (re_branch r) (Some actorId) ''reservation.check_out_fees_waived'' (re_id r) h)
      else Inr h)"

definition checkOut :: "decimal_lib \<Rightarrow> tz_offset \<Rightarrow> nat \<Rightarrow> bool \<Rightarrow> string option \<Rightarrow> jwt \<Rightarrow> instant \<Rightarrow> house \<Rightarrow> (reservation \<times> house) result" where
  "checkOut D tzo i waiveFees waiverReason actor now h =
     (let actorId = jw_sub actor
      in bindr (findReservationOrThrow h i) (\<lambda>r.
      if re_status r \<noteq> Checked_in then Inl (Conflict INVALID_STATUS_TRANSITION)
      else if waiveFees \<and> \<not> isSupervisorAt actor (re_branch r) then Inl (Forbidden FORBIDDEN)
      else if waiveFees \<and> trimmed waiverReason = None then Inl (BadRequest VALIDATION_FAILED)
      else case re_room r of
        None \<Rightarrow> Inl (Conflict INVALID_STATUS_TRANSITION)
      | Some room \<Rightarrow>
      let upd = (\<lambda>x. x\<lparr>re_status := Checked_out, re_actualCheckOut := Some now\<rparr>); updated = upd r; h = set_stay i upd h
      in bindr (branchOf h (re_branch r)) (\<lambda>br.
      let today = branchToday tzo br now
      in bindr (vacate (re_branch r) room ''checkout'' i today actorId h) (\<lambda>h.
      let (folio, d) = ensurePrimaryFolio updated (Some actorId) now (ho_db h); h = h\<lparr>ho_db := d\<rparr>
      in bindr (on_db (backfillRoomCharges D updated folio today (Some actorId)) h) (\<lambda>(_, h).
      bindr (stayFeesNow D tzo r br now h) (\<lambda>fees.
      bindr (chargeFees D updated folio today waiveFees actorId fees h) (\<lambda>h.
      let h = h\<lparr>ho_db := snd (settleIfFullyPaid folio (Some actorId) now (ho_db h))\<rparr>
      in bindr (earnForStayInTx D updated (Some actorId) now h) (\<lambda>(_, h).
        Inr (updated, mail i ''post_stay'' (stayAudit (re_branch r) (Some actorId) ''reservation.checked_out'' i h))))))))))"

section \<open>Cancelling\<close>

text \<open>
  The quote as it is sent: amounts of two decimals. \<^verbatim>\<open>new Decimal(x.toFixed(2))\<close> is the amount rounded
  to cents.
\<close>

record cancellation_quote =
  cq_penaltyType :: penalty_type
  cq_penaltyAmount :: rat
  cq_penaltyTotal :: rat
  cq_paidSoFar :: rat
  cq_refundDue :: rat
  cq_amountOwed :: rat
  cq_withinFreeWindow :: bool

definition paidOnPrimaryFolio :: "db \<Rightarrow> nat \<Rightarrow> rat" where
  "paidOnPrimaryFolio d r = (case primaryFolio d r of None \<Rightarrow> 0 | Some f \<Rightarrow> to_paymentsTotal (computeTotals d (fo_id f)))"

definition buildCancellationQuote :: "decimal_lib \<Rightarrow> tz_offset \<Rightarrow> reservation \<Rightarrow> branch \<Rightarrow> instant \<Rightarrow> house \<Rightarrow> cancellation_quote result" where
  "buildCancellationQuote D tzo r br now h =
     (let policy = resolveCancellationPolicy (case re_cancellationPolicy r of Some p \<Rightarrow> Some p | None \<Rightarrow> br_cancellationPolicy br)
      in bindr (cancellationTermsFor D tzo (stay_of r) (re_status r) (br_timezone br) (br_checkInTime br) policy now) (\<lambda>terms.
      bindr (previewCharge D (ho_db h) (re_branch r) Penalty (ct_penaltyAmount terms)) (\<lambda>penalty.
      let paidSoFar = paidOnPrimaryFolio (ho_db h) (re_id r); net = paidSoFar - pc_total penalty
      in Inr \<lparr>cq_penaltyType = ct_penaltyType terms, cq_penaltyAmount = d_dp2 D (ct_penaltyAmount terms), cq_penaltyTotal = d_dp2 D (pc_total penalty),
           cq_paidSoFar = d_dp2 D paidSoFar, cq_refundDue = d_dp2 D (if 0 < net then net else 0), cq_amountOwed = d_dp2 D (if net < 0 then - net else 0),
           cq_withinFreeWindow = ct_withinFreeWindow terms\<rparr>)))"

definition quoteCancellationInTx :: "decimal_lib \<Rightarrow> tz_offset \<Rightarrow> nat \<Rightarrow> instant \<Rightarrow> house \<Rightarrow> cancellation_quote result" where
  "quoteCancellationInTx D tzo i now h =
     bindr (findReservationOrThrow h i) (\<lambda>r. bindr (branchOf h (re_branch r)) (\<lambda>br. buildCancellationQuote D tzo r br now h))"

record cancel_opts =
  co_actor :: "nat option"
  co_waiverReason :: "string option"
  co_acknowledged :: "rat option"

text \<open>The penalty goes on the stay's bill, which settles when what was paid covers it.\<close>

definition chargePenalty :: "decimal_lib \<Rightarrow> reservation \<Rightarrow> cancellation_quote \<Rightarrow> nat option \<Rightarrow> instant \<Rightarrow> house \<Rightarrow> (rat \<times> house) result" where
  "chargePenalty D r quote actor now h =
     (let (folio, d) = ensurePrimaryFolio r actor now (ho_db h)
      in bindr (postAdHocCharge D r folio Penalty (cq_penaltyAmount quote) actor d) (\<lambda>(_, d).
           Inr (cq_penaltyTotal quote, h\<lparr>ho_db := snd (settleIfFullyPaid folio actor now d)\<rparr>)))"

definition cancelInTx :: "decimal_lib \<Rightarrow> tz_offset \<Rightarrow> nat \<Rightarrow> cancel_opts \<Rightarrow> instant \<Rightarrow> house \<Rightarrow> (reservation \<times> rat \<times> house) result" where
  "cancelInTx D tzo i opts now h =
     bindr (findReservationOrThrow h i) (\<lambda>r.
     if re_status r \<notin> CANCELLABLE_STATUSES then Inl (Conflict INVALID_STATUS_TRANSITION)
     else bindr (branchOf h (re_branch r)) (\<lambda>br.
     bindr (buildCancellationQuote D tzo r br now h) (\<lambda>quote.
     if (case co_acknowledged opts of None \<Rightarrow> False | Some a \<Rightarrow> a \<noteq> cq_penaltyTotal quote) then Inl (Conflict CANCELLATION_TERMS_CHANGED)
     else let upd = (\<lambda>x. x\<lparr>re_status := Cancelled\<rparr>); updated = upd r; h = set_stay i upd h;
              waived = (given (co_waiverReason opts) \<noteq> None \<and> cq_penaltyAmount quote \<noteq> 0)
     in bindr (if cq_penaltyAmount quote \<noteq> 0 \<and> \<not> waived then chargePenalty D updated quote (co_actor opts) now h else Inr (0, h)) (\<lambda>(charged, h).
       Inr (updated, charged, mail i ''cancellation'' (stayAudit (re_branch r) (co_actor opts) ''reservation.cancelled'' i h))))))"

definition cancel :: "decimal_lib \<Rightarrow> tz_offset \<Rightarrow> nat \<Rightarrow> rat option \<Rightarrow> nat \<Rightarrow> instant \<Rightarrow> house \<Rightarrow> (reservation \<times> rat \<times> house) result" where
  "cancel D tzo i acknowledged actorId = cancelInTx D tzo i \<lparr>co_actor = Some actorId, co_waiverReason = None, co_acknowledged = acknowledged\<rparr>"

definition cancelWithWaiver :: "decimal_lib \<Rightarrow> tz_offset \<Rightarrow> nat \<Rightarrow> string \<Rightarrow> rat option \<Rightarrow> nat \<Rightarrow> instant \<Rightarrow> house \<Rightarrow> (reservation \<times> rat \<times> house) result" where
  "cancelWithWaiver D tzo i waiverReason acknowledged actorId =
     cancelInTx D tzo i \<lparr>co_actor = Some actorId, co_waiverReason = Some waiverReason, co_acknowledged = acknowledged\<rparr>"

section \<open>No-shows\<close>

text \<open>The branch's stored policy; its form takes only the four penalty names.\<close>

definition noShowPenalty :: "branch \<Rightarrow> penalty_type" where
  "noShowPenalty br = (case jstring (jget (jfields (br_noShowPolicy br)) ''defaultPenalty'') of
     None \<Rightarrow> NoPenalty | Some n \<Rightarrow> the_default NoPenalty (penalty_of_name n))"

definition noShowFee :: "branch \<Rightarrow> rat option" where
  "noShowFee br = jnumber (jget (jfields (br_noShowPolicy br)) ''flatFeeAmount'')"

text \<open>\<^verbatim>\<open>/^\\d{2}:\\d{2}$/\<close>; a time that is no clock time never passes.\<close>

definition cutoffAhead :: "tz_offset \<Rightarrow> branch \<Rightarrow> instant \<Rightarrow> instant \<Rightarrow> bool" where
  "cutoffAhead tzo br day now =
     (case jstring (jget (jfields (br_noShowPolicy br)) ''cutoffTime'') of
        Some [a, b, c, d, e] \<Rightarrow> is_digit a \<and> is_digit b \<and> c = CHR '':'' \<and> is_digit d \<and> is_digit e \<and>
          (CLOCK [a, b, c, d, e] \<longrightarrow> \<not> hasPassedBranchCutoff tzo day (timeOfDay (clockInstant [a, b, c, d, e])) (br_timezone br) now)
      | _ \<Rightarrow> False)"

definition postPenalty :: "decimal_lib \<Rightarrow> reservation \<Rightarrow> folio \<Rightarrow> rat option \<Rightarrow> nat option \<Rightarrow> db \<Rightarrow> (line_item option \<times> db) result" where
  "postPenalty D r folio amount markedBy d =
     (case amount of
        None \<Rightarrow> Inr (None, d)
      | Some a \<Rightarrow> if a = 0 then Inr (None, d) else postAdHocCharge D r folio Penalty a markedBy d)"

definition markNoShowInTx :: "decimal_lib \<Rightarrow> reservation \<Rightarrow> penalty_type \<Rightarrow> rat option \<Rightarrow> nat option \<Rightarrow> instant \<Rightarrow> house \<Rightarrow> (no_show_record \<times> house) result" where
  "markNoShowInTx D r penaltyType flatFee markedBy now h =
     (let upd = (\<lambda>x. x\<lparr>re_status := No_show\<rparr>); updated = upd r; h = set_stay (re_id r) upd h
      in bindr (penaltyAmountFor D (stay_of r) penaltyType flatFee) (\<lambda>penaltyAmount.
      let (folio, d) = ensurePrimaryFolio updated markedBy now (ho_db h)
      in bindr (postPenalty D updated folio penaltyAmount markedBy d) (\<lambda>(line, d).
      let h = h\<lparr>ho_db := d\<rparr>;
          record = \<lparr>ns_id = fresh h, ns_reservation = re_id r, ns_penaltyType = penaltyType, ns_penaltyAmount = penaltyAmount, ns_waived = False, ns_waivedBy = None,
            ns_refundAmount = None, ns_markedBy = markedBy, ns_penaltyLine = map_option li_id line\<rparr>;
          h = (bump h)\<lparr>ho_noShows := ho_noShows h @ [record]\<rparr>;
          h = h\<lparr>ho_db := snd (settleIfFullyPaid folio markedBy now (ho_db h))\<rparr>;
          h = stayAudit (re_branch r) markedBy ''reservation.no_show'' (re_id r) h
      in Inr (record, mail (re_id r) ''no_show_notice'' h))))"

definition markNoShow :: "decimal_lib \<Rightarrow> tz_offset \<Rightarrow> nat \<Rightarrow> nat \<Rightarrow> instant \<Rightarrow> house \<Rightarrow> (no_show_record \<times> house) result" where
  "markNoShow D tzo i actorId now h =
     bindr (findReservationOrThrow h i) (\<lambda>r.
     if re_status r \<noteq> Confirmed then Inl (Conflict INVALID_STATUS_TRANSITION)
     else bindr (branchOf h (re_branch r)) (\<lambda>br.
     let today = branchToday tzo br now
     in if today < re_checkInDate r then Inl (Conflict INVALID_STATUS_TRANSITION)
     else if re_checkInDate r = today \<and> cutoffAhead tzo br today now then Inl (Conflict INVALID_STATUS_TRANSITION)
     else markNoShowInTx D r (noShowPenalty br) (noShowFee br) (Some actorId) now h))"

text \<open>\<open>labelled\<close> tells which lines carry the no-show label in their description, for records older than the link to the line.\<close>

definition findUnreversedNoShowPenalty :: "(nat \<Rightarrow> bool) \<Rightarrow> db \<Rightarrow> nat \<Rightarrow> nat option" where
  "findUnreversedNoShowPenalty labelled d folioId =
     map_option li_id (List.find (\<lambda>i. li_folio i = folioId \<and> li_chargeType i = Penalty \<and> labelled (li_id i) \<and> live_line i \<and> \<not> corrected d (li_id i)) (rev (db_lines d)))"

definition reverseNoShowPenalty :: "(nat \<Rightarrow> bool) \<Rightarrow> no_show_record \<Rightarrow> reservation \<Rightarrow> nat \<Rightarrow> instant \<Rightarrow> house \<Rightarrow> house result" where
  "reverseNoShowPenalty labelled record r actorId now h =
     (let (folio, d) = ensurePrimaryFolio r (Some actorId) now (ho_db h);
          line = (case ns_penaltyLine record of Some l \<Rightarrow> Some l | None \<Rightarrow> findUnreversedNoShowPenalty labelled d (fo_id folio))
      in bindr (case line of None \<Rightarrow> Inr d | Some l \<Rightarrow> bindr (reverseChargeInTx l (Some actorId) d) (\<lambda>(_, d). Inr d)) (\<lambda>d.
           Inr (h\<lparr>ho_db := snd (settleIfFullyPaid folio (Some actorId) now d)\<rparr>)))"

definition waiveNoShowPenaltyInTx :: "(nat \<Rightarrow> bool) \<Rightarrow> no_show_record \<Rightarrow> nat \<Rightarrow> instant \<Rightarrow> house \<Rightarrow> house result" where
  "waiveNoShowPenaltyInTx labelled record actorId now h =
     (if ns_waived record then Inr h
      else let h = h\<lparr>ho_noShows := map (\<lambda>n. if ns_id n = ns_id record
                 then n\<lparr>ns_waived := True, ns_waivedBy := Some actorId, ns_refundAmount := ns_penaltyAmount record\<rparr> else n) (ho_noShows h)\<rparr>
      in bindr (findReservationOrThrow h (ns_reservation record)) (\<lambda>r.
      bindr (if ns_penaltyAmount record = None \<or> ns_penaltyAmount record = Some 0 then Inr h
             else reverseNoShowPenalty labelled record r actorId now h) (\<lambda>h.
        Inr (stayAudit (re_branch r) (Some actorId) ''no_show.penalty_waived'' (ns_id record) h))))"

definition waiveNoShowPenalty :: "(nat \<Rightarrow> bool) \<Rightarrow> nat \<Rightarrow> nat \<Rightarrow> instant \<Rightarrow> house \<Rightarrow> house result" where
  "waiveNoShowPenalty labelled i actorId now h =
     (case List.find (\<lambda>n. ns_id n = i) (ho_noShows h) of
        None \<Rightarrow> Inl (NotFound NOT_FOUND)
      | Some record \<Rightarrow> waiveNoShowPenaltyInTx labelled record actorId now h)"

definition waiveLatestPenalty :: "(nat \<Rightarrow> bool) \<Rightarrow> nat \<Rightarrow> nat \<Rightarrow> instant \<Rightarrow> house \<Rightarrow> house result" where
  "waiveLatestPenalty labelled i actorId now h =
     (case List.find (\<lambda>n. ns_reservation n = i) (rev (ho_noShows h)) of
        None \<Rightarrow> Inr h
      | Some record \<Rightarrow> if ns_waived record then Inr h else waiveNoShowPenaltyInTx labelled record actorId now h)"

definition reinstateFromNoShow ::
  "decimal_lib \<Rightarrow> tz_offset \<Rightarrow> (nat \<Rightarrow> bool) \<Rightarrow> nat \<Rightarrow> day \<Rightarrow> day \<Rightarrow> bool \<Rightarrow> nat \<Rightarrow> instant \<Rightarrow> house \<Rightarrow> (reservation \<times> house) result" where
  "reinstateFromNoShow D tzo labelled i checkInDay checkOutDay waivePenalty actorId now h =
     bindr (findReservationOrThrow h i) (\<lambda>r.
     if re_status r \<noteq> No_show then Inl (Conflict INVALID_STATUS_TRANSITION)
     else let checkIn = toBranchDate checkInDay; checkOut = toBranchDate checkOutDay; b = re_branch r; rtId = re_roomType r
     in bindr (assertValidRange checkIn checkOut) (\<lambda>_.
     bindr (assertRoomType h b rtId) (\<lambda>rt.
     bindr (case re_groupBlock r of None \<Rightarrow> Inr () | Some g \<Rightarrow> assertStaysInGroupBlock h g rtId checkIn checkOut) (\<lambda>_.
     bindr (assertNoViolation h b rtId checkIn checkOut) (\<lambda>_.
     bindr (assertAvailableForStay tzo h b rtId checkIn checkOut (Some i) (re_groupBlock r) now) (\<lambda>_.
     bindr (resolveStay D b rt checkIn checkOut (storedDeal r None) \<lparr>rc_trigger = ''modify'', rc_user = Some actorId, rc_reservation = Some i, rc_persist = True\<rparr> h) (\<lambda>(resolved, h).
     bindr (repricedStay D h r resolved checkIn checkOut) (\<lambda>(subtotal, nightly).
     let upd = (\<lambda>x. x\<lparr>re_status := Confirmed, re_checkInDate := checkIn, re_checkOutDate := checkOut, re_ratePlan := sr_ratePlan resolved,
           re_confirmedRate := subtotal, re_nightlyRates := nightly\<rparr>);
         h = set_stay i upd h
     in bindr (if \<not> waivePenalty then Inr h else waiveLatestPenalty labelled i actorId now h) (\<lambda>h.
        Inr (upd r, stayAudit b (Some actorId) ''reservation.reinstated'' i h))))))))))"

section \<open>Changing a booking\<close>

record modify_dto =
  mo_checkIn :: "day option"
  mo_checkOut :: "day option"
  mo_roomType :: "nat option"
  mo_adults :: "int option"
  mo_children :: "int option"

definition modifyReservation :: "decimal_lib \<Rightarrow> tz_offset \<Rightarrow> nat \<Rightarrow> modify_dto \<Rightarrow> nat \<Rightarrow> instant \<Rightarrow> house \<Rightarrow> (reservation \<times> house) result" where
  "modifyReservation D tzo i dto actorId now h =
     bindr (findReservationOrThrow h i) (\<lambda>r.
     if re_status r \<notin> {Confirmed, Waitlisted} then Inl (Conflict INVALID_STATUS_TRANSITION)
     else if re_isDayUse r then Inl (Conflict INVALID_STATUS_TRANSITION)
     else let checkIn = (case mo_checkIn dto of None \<Rightarrow> re_checkInDate r | Some d \<Rightarrow> toBranchDate d);
              checkOut = (case mo_checkOut dto of None \<Rightarrow> re_checkOutDate r | Some d \<Rightarrow> toBranchDate d);
              b = re_branch r; rtId = the_default (re_roomType r) (mo_roomType dto);
              adults = the_default (re_adults r) (mo_adults dto); children = the_default (re_children r) (mo_children dto);
              changed = (checkIn \<noteq> re_checkInDate r \<or> checkOut \<noteq> re_checkOutDate r \<or> rtId \<noteq> re_roomType r)
     in bindr (assertValidRange checkIn checkOut) (\<lambda>_.
     bindr (assertRoomType h b rtId) (\<lambda>rt.
     bindr (assertWithinCapacity rt adults children) (\<lambda>_.
     bindr (case re_groupBlock r of None \<Rightarrow> Inr () | Some g \<Rightarrow> assertStaysInGroupBlock h g rtId checkIn checkOut) (\<lambda>_.
     bindr (if changed then assertNoViolation h b rtId checkIn checkOut else Inr ()) (\<lambda>_.
     bindr (if changed \<and> re_status r = Confirmed
            then bindr (assertAvailableForStay tzo h b rtId checkIn checkOut (Some i) (re_groupBlock r) now) (\<lambda>_.
                 assertWithinAllotment h b rtId (re_channel r) checkIn checkOut (Some i))
            else Inr ()) (\<lambda>_.
     bindr (resolveStay D b rt checkIn checkOut (storedDeal r (Some (adults, children)))
              \<lparr>rc_trigger = ''modify'', rc_user = Some actorId, rc_reservation = Some i, rc_persist = True\<rparr> h) (\<lambda>(resolved, h).
     bindr (repricedStay D h r resolved checkIn checkOut) (\<lambda>(subtotal, nightly).
     let upd = (\<lambda>x. x\<lparr>re_checkInDate := checkIn, re_checkOutDate := checkOut, re_roomType := rtId, re_ratePlan := sr_ratePlan resolved,
           re_confirmedRate := subtotal, re_nightlyRates := nightly, re_adults := adults, re_children := children\<rparr>)
     in Inr (upd r, stayAudit b (Some actorId) ''reservation.modified'' i (set_stay i upd h)))))))))))"

definition promoteFromWaitlist :: "decimal_lib \<Rightarrow> tz_offset \<Rightarrow> nat \<Rightarrow> nat \<Rightarrow> instant \<Rightarrow> house \<Rightarrow> (reservation \<times> house) result" where
  "promoteFromWaitlist D tzo i actorId now h =
     bindr (findReservationOrThrow h i) (\<lambda>r.
     if re_status r \<noteq> Waitlisted then Inl (Conflict INVALID_STATUS_TRANSITION)
     else let b = re_branch r
     in bindr (assertAvailableForStay tzo h b (re_roomType r) (re_checkInDate r) (re_checkOutDate r) None None now) (\<lambda>_.
     bindr (assertWithinAllotment h b (re_roomType r) (re_channel r) (re_checkInDate r) (re_checkOutDate r) (Some i)) (\<lambda>_.
     bindr (branchOf h b) (\<lambda>br.
     bindr (priceCharge D (db_taxRules (ho_db h)) b Room (re_confirmedRate r) (stayNights r)) (\<lambda>priced.
     bindr (depositAskedFor D tzo br (re_checkInDate r)
              \<lparr>sp_subtotal = re_confirmedRate r, sp_totalWithTax = pc_total priced, sp_nightlyRates = re_nightlyRates r\<rparr> now) (\<lambda>deposit.
     let upd = (\<lambda>x. x\<lparr>re_status := Confirmed, re_depositAmount := map_option fst deposit, re_depositDueDate := map_option snd deposit\<rparr>)
     in Inr (upd r, mail i ''booking_confirmation'' (stayAudit b (Some actorId) ''reservation.promoted'' i (set_stay i upd h)))))))))"

section \<open>The bill of a stay in house\<close>

definition roomLinesOf :: "db \<Rightarrow> nat \<Rightarrow> line_item list" where
  "roomLinesOf d r =
     filter (\<lambda>i. li_chargeType i = Room \<and> live_line i \<and>
       (li_stay i = Some r \<or> li_stay i = None \<and> (\<exists>f \<in> set (db_folios d). fo_id f = li_folio i \<and> fo_reservation f = Some r))) (db_lines d)"

text \<open>A line with what was taken back of it.\<close>

definition netOfReversal :: "db \<Rightarrow> line_item \<Rightarrow> rat" where
  "netOfReversal d i = li_amount i +
     (case List.find (\<lambda>x. li_corrects x = Some (li_id i)) (db_lines d) of
        None \<Rightarrow> 0 | Some x \<Rightarrow> if live_line x then li_amount x else 0)"

definition pricedWithPinnedRate :: "decimal_lib \<Rightarrow> db \<Rightarrow> reservation \<Rightarrow> rat \<Rightarrow> rat \<times> nightly_json" where
  "pricedWithPinnedRate D d r nightly =
     (let posted = roomLinesOf d (re_id r);
          rates = map (\<lambda>night. (day_key night,
              case filter (\<lambda>i. day_key (li_serviceDate i) = day_key night) posted of
                [] \<Rightarrow> nightly | is \<Rightarrow> sum_list (map (netOfReversal d) is))) (enumerateNights (re_checkInDate r) (re_checkOutDate r))
      in (sum_list (map snd rates), Some (map (\<lambda>(date, rate). (Some date, Some (JStr (d_toFixed2 D rate)))) rates)))"

definition setRateOverride :: "decimal_lib \<Rightarrow> nat \<Rightarrow> rat \<Rightarrow> string \<Rightarrow> nat \<Rightarrow> house \<Rightarrow> (reservation \<times> house) result" where
  "setRateOverride D i rate reason actorId h =
     bindr (findReservationOrThrow h i) (\<lambda>r.
     if re_status r \<noteq> Confirmed \<and> re_status r \<noteq> Checked_in then Inl (Conflict INVALID_STATUS_TRANSITION)
     else let (confirmed, nightly) = pricedWithPinnedRate D (ho_db h) r rate;
              upd = (\<lambda>x. x\<lparr>re_overrideRate := Some rate, re_overrideReason := Some reason, re_confirmedRate := confirmed, re_nightlyRates := nightly\<rparr>)
     in Inr (upd r, stayAudit (re_branch r) (Some actorId) ''reservation.rate_overridden'' i (set_stay i upd h)))"

definition postPackagesToday :: "decimal_lib \<Rightarrow> reservation \<Rightarrow> day \<Rightarrow> nat \<Rightarrow> instant \<Rightarrow> house \<Rightarrow> house result" where
  "postPackagesToday D r today actorId now h =
     (let (folio, d) = ensurePrimaryFolio r (Some actorId) now (ho_db h)
      in bindr (postPackageCharges D r folio (toBranchDate today) (Some actorId) d) (\<lambda>d. Inr (h\<lparr>ho_db := d\<rparr>)))"

definition setPackages :: "decimal_lib \<Rightarrow> tz_offset \<Rightarrow> nat \<Rightarrow> nat list \<Rightarrow> nat \<Rightarrow> instant \<Rightarrow> house \<Rightarrow> (reservation \<times> house) result" where
  "setPackages D tzo i packageIds actorId now h =
     bindr (findReservationOrThrow h i) (\<lambda>r.
     if re_status r \<notin> {Waitlisted, Confirmed, Checked_in} then Inl (Conflict INVALID_STATUS_TRANSITION)
     else bindr (branchOf h (re_branch r)) (\<lambda>br.
     let today = todayInTimezone tzo (br_timezone br) now; underWay = (re_status r = Checked_in);
         kept = filter (\<lambda>p. pk_packageId p \<in> set packageIds) (re_packages r)
     in bindr (snapshotsFor D h (re_branch r) (re_roomType r) (filter (\<lambda>p. p \<notin> set (map pk_packageId kept)) packageIds) False) (\<lambda>added.
     let packages = kept @ map (\<lambda>p. if underWay then p\<lparr>pk_addedOn := Some today\<rparr> else p) added;
         upd = (\<lambda>x. x\<lparr>re_packages := packages\<rparr>); updated = upd r; h = set_stay i upd h
     in bindr (if underWay \<and> added \<noteq> [] then postPackagesToday D updated today actorId now h else Inr h) (\<lambda>h.
        Inr (updated, stayAudit (re_branch r) (Some actorId) ''reservation.packages_changed'' i h)))))"

definition extendStay :: "decimal_lib \<Rightarrow> tz_offset \<Rightarrow> nat \<Rightarrow> day \<Rightarrow> nat \<Rightarrow> instant \<Rightarrow> house \<Rightarrow> (reservation \<times> house) result" where
  "extendStay D tzo i checkOutDay actorId now h =
     bindr (findReservationOrThrow h i) (\<lambda>r.
     if re_status r \<noteq> Checked_in then Inl (Conflict INVALID_STATUS_TRANSITION)
     else case re_room r of
       None \<Rightarrow> Inl (BadRequest VALIDATION_FAILED)
     | Some room \<Rightarrow>
     let newOut = toBranchDate checkOutDay; b = re_branch r; rtId = re_roomType r; oldOut = re_checkOutDate r
     in if newOut \<le> oldOut then Inl (BadRequest VALIDATION_FAILED)
     else bindr (assertExtensionAllowed h b rtId (re_checkInDate r) oldOut newOut) (\<lambda>_.
     if re_isDayUse r then Inl (Conflict INVALID_STATUS_TRANSITION)
     else bindr (assertAvailableForStay tzo h b rtId oldOut newOut (Some i) (re_groupBlock r) now) (\<lambda>_.
     bindr (assertWithinAllotment h b rtId (re_channel r) oldOut newOut (Some i)) (\<lambda>_.
     if \<exists>k \<in> set (ho_blocks h). rb_room k = room \<and> rb_from k < newOut \<and> oldOut \<le> rb_to k then Inl (Conflict RESERVATION_NOT_AVAILABLE)
     else bindr (assertRoomType h b rtId) (\<lambda>rt.
     bindr (resolveStay D b rt (re_checkInDate r) newOut (storedDeal r None)
              \<lparr>rc_trigger = ''extend_stay'', rc_user = Some actorId, rc_reservation = Some i, rc_persist = True\<rparr> h) (\<lambda>(resolved, h).
     let (confirmed, nightly) = (case re_overrideRate r of
             Some rate \<Rightarrow> pricedWithPinnedRate D (ho_db h) (r\<lparr>re_checkOutDate := newOut\<rparr>) rate
           | None \<Rightarrow> (sr_subtotal resolved, nightlyRatesOf resolved));
         upd = (\<lambda>x. x\<lparr>re_checkOutDate := newOut, re_confirmedRate := confirmed, re_ratePlan := sr_ratePlan resolved, re_nightlyRates := nightly\<rparr>)
     in Inr (upd r, mail i ''stay_extended'' (stayAudit b (Some actorId) ''reservation.extended'' i (set_stay i upd h)))))))))"

section \<open>Changing rooms\<close>

definition assertMovable :: "reservation \<Rightarrow> nat result" where
  "assertMovable r = (case re_room r of
     Some room \<Rightarrow> if re_status r = Checked_in then Inr room else Inl (Conflict INVALID_STATUS_TRANSITION)
   | None \<Rightarrow> Inl (Conflict INVALID_STATUS_TRANSITION))"

definition priced_value :: "decimal_lib \<Rightarrow> string \<Rightarrow> rat result" where
  "priced_value D s = (case d_parse D s of Finite x \<Rightarrow> Inr x | _ \<Rightarrow> Inl PlainError)"

record move_plan =
  mp_nightsLeft :: "instant list"
  mp_tonightAlreadyBilled :: bool
  mp_currentNightly :: rat
  mp_newNightly :: rat
  mp_newTotal :: rat

definition roomMovePlan ::
  "decimal_lib \<Rightarrow> tz_offset \<Rightarrow> reservation \<Rightarrow> room_type \<Rightarrow> bool \<Rightarrow> nat option \<Rightarrow> instant \<Rightarrow> house \<Rightarrow> (move_plan \<times> house) result" where
  "roomMovePlan D tzo r newType persist actorId now h =
     bindr (branchOf h (re_branch r)) (\<lambda>br.
     let today = branchToday tzo br now;
         tonight = (if re_checkInDate r < today then today else re_checkInDate r);
         billedDates = (\<lambda>i. day_key (li_serviceDate i)) ` set (roomLinesOf (ho_db h) (re_id r));
         nightsLeft = filter (\<lambda>n. day_key n \<notin> billedDates) (enumerateNights tonight (re_checkOutDate r));
         currentNightly = (case re_overrideRate r of Some x \<Rightarrow> x | None \<Rightarrow> d_dp2 D (d_div D (re_confirmedRate r) (of_int (stayNights r))));
         plan = (\<lambda>newTotal. \<lparr>mp_nightsLeft = nightsLeft, mp_tonightAlreadyBilled = (day_key tonight \<in> billedDates \<and> tonight < re_checkOutDate r),
             mp_currentNightly = currentNightly,
             mp_newNightly = (if nightsLeft \<noteq> [] then d_dp2 D (d_div D newTotal (of_nat (length nightsLeft))) else 0), mp_newTotal = newTotal\<rparr>)
     in case nightsLeft of
          [] \<Rightarrow> Inr (plan 0, h)
        | first # _ \<Rightarrow>
            bindr (resolveStay D (re_branch r) newType first (re_checkOutDate r) (storedDeal r None)
                     \<lparr>rc_trigger = ''room_move'', rc_user = actorId, rc_reservation = Some (re_id r), rc_persist = persist\<rparr> h) (\<lambda>(resolved, h).
            bindr (foldr_res (\<lambda>n total. bindr (priced_value D (pn_rate n)) (\<lambda>x. Inr (total + x)))
                     (filter (\<lambda>n. pn_date n \<in> day_key ` set nightsLeft) (sr_perNight resolved)) 0) (\<lambda>newTotal.
              Inr (plan newTotal, h))))"

definition roomMoveQuote :: "decimal_lib \<Rightarrow> tz_offset \<Rightarrow> nat \<Rightarrow> nat \<Rightarrow> instant \<Rightarrow> house \<Rightarrow> move_plan result" where
  "roomMoveQuote D tzo i rtId now h =
     bindr (findReservationOrThrow h i) (\<lambda>r. bindr (assertMovable r) (\<lambda>_. bindr (assertRoomType h (re_branch r) rtId) (\<lambda>rt.
       bindr (roomMovePlan D tzo r rt False None now h) (\<lambda>(plan, _). Inr plan))))"

text \<open>The nightly rate the move pins, if it pins one.\<close>

definition moveRate :: "decimal_lib \<Rightarrow> reservation \<Rightarrow> room_type \<Rightarrow> move_plan \<Rightarrow> bool \<Rightarrow> string \<Rightarrow> reservation \<Rightarrow> reservation" where
  "moveRate D r newType plan chargeNewRate reason x =
     (if chargeNewRate \<and> mp_nightsLeft plan \<noteq> []
      then x\<lparr>re_overrideRate := Some (d_dp2 D (d_div D (mp_newTotal plan) (of_nat (length (mp_nightsLeft plan))))),
             re_overrideReason := Some (take 500 (''Room move to '' @ rt_name newType @ '' - '' @ reason)),
             re_confirmedRate := d_mul D (mp_currentNightly plan) (of_int (stayNights r - int (length (mp_nightsLeft plan)))) + mp_newTotal plan\<rparr>
      else if rt_id newType \<noteq> re_roomType r \<and> re_overrideRate r = None
      then x\<lparr>re_overrideRate := Some (mp_currentNightly plan),
             re_overrideReason := Some (take 500 (''Moved to '' @ rt_name newType @ '' at the booked rate - '' @ reason))\<rparr>
      else x)"

definition moveRoom :: "decimal_lib \<Rightarrow> tz_offset \<Rightarrow> nat \<Rightarrow> nat \<Rightarrow> string \<Rightarrow> bool \<Rightarrow> nat \<Rightarrow> instant \<Rightarrow> house \<Rightarrow> (reservation \<times> house) result" where
  "moveRoom D tzo i roomId reason chargeNewRate actorId now h =
     bindr (findReservationOrThrow h i) (\<lambda>r.
     bindr (assertMovable r) (\<lambda>fromRoom.
     if roomId = fromRoom then Inl (BadRequest VALIDATION_FAILED)
     else bindr (findRoom h roomId) (\<lambda>room.
     if rm_branch room \<noteq> re_branch r then Inl (NotFound NOT_FOUND)
     else bindr (branchOf h (re_branch r)) (\<lambda>br.
     let today = branchToday tzo br now; b = re_branch r;
         tonight = (if re_checkInDate r < today then today else re_checkInDate r)
     in bindr (assertRoomCheckInReady h room b (rm_roomType room) tonight (if tonight < re_checkOutDate r then re_checkOutDate r else tonight)) (\<lambda>_.
     bindr (if rm_roomType room \<noteq> re_roomType r \<and> tonight < re_checkOutDate r
            then assertAvailableForStay tzo h b (rm_roomType room) tonight (re_checkOutDate r) (Some i) None now else Inr ()) (\<lambda>_.
     let (folio, d) = ensurePrimaryFolio r (Some actorId) now (ho_db h); h = h\<lparr>ho_db := d\<rparr>
     in bindr (on_db (backfillRoomCharges D r folio today (Some actorId)) h) (\<lambda>(_, h).
     bindr (assertRoomType h b (rm_roomType room)) (\<lambda>newType.
     bindr (roomMovePlan D tzo r newType True (Some actorId) now h) (\<lambda>(plan, h).
     let upd = (\<lambda>x. moveRate D r newType plan chargeNewRate (js_trim reason) (x\<lparr>re_room := Some roomId, re_roomType := rm_roomType room\<rparr>));
         updated = upd r; h = set_stay i upd h
     in bindr (vacate b fromRoom ''room_move'' i today actorId h) (\<lambda>h.
     bindr (applyReservationOccupancy roomId Occupied None (Some actorId) h) (\<lambda>h.
     bindr (turndownTonight tzo br updated now h) (\<lambda>h.
       Inr (updated, stayAudit b (Some actorId) ''reservation.room_moved'' i h)))))))))))))"

section \<open>Walking a guest\<close>

record walk_dto =
  wk_property :: string
  wk_transport :: "bool option"
  wk_transportCost :: "rat option"
  wk_compensation :: "string option"

text \<open>A refund is asked for what was paid.\<close>

definition refundWalked :: "decimal_lib \<Rightarrow> nat \<Rightarrow> jwt \<Rightarrow> house \<Rightarrow> (rat \<times> house) result" where
  "refundWalked D i actor h =
     (case List.find (\<lambda>f. fo_reservation f = Some i \<and> \<not> fo_deleted f) (db_folios (ho_db h)) of
        None \<Rightarrow> Inr (0, h)
      | Some folio \<Rightarrow>
          (let available = snd (refundable (ho_db h) (fo_id folio) None);
               lastPayment = List.find (\<lambda>p. pa_folio p = fo_id folio \<and> \<not> pa_isVoid p \<and> \<not> pa_deleted p \<and> 0 < pa_amount p \<and>
                  pa_method p \<in> REFUND_METHODS) (rev (db_payments (ho_db h)))
           in if \<not> 0 < available then Inr (0, h)
              else bindr (on_db (requestInTx folio \<lparr>rd_amount = d_dp2 D available, rd_payment = None,
                     rd_method = Some (case lastPayment of None \<Rightarrow> Bank_transfer | Some p \<Rightarrow> pa_method p)\<rparr> actor) h) (\<lambda>(_, h). Inr (available, h))))"

definition walkReservation :: "decimal_lib \<Rightarrow> nat \<Rightarrow> walk_dto \<Rightarrow> jwt \<Rightarrow> house \<Rightarrow> (reservation \<times> rat \<times> house) result" where
  "walkReservation D i dto actor h =
     bindr (findReservationOrThrow h i) (\<lambda>r.
     if re_status r \<noteq> Confirmed then Inl (Conflict INVALID_STATUS_TRANSITION)
     else let walk = \<lparr>wr_id = fresh h, wr_reservation = i, wr_property = wk_property dto, wr_transport = the_default False (wk_transport dto),
                wr_transportCost = wk_transportCost dto, wr_compensation = wk_compensation dto, wr_approvedBy = Some (jw_sub actor)\<rparr>;
              h = (bump h)\<lparr>ho_walks := ho_walks h @ [walk]\<rparr>;
              upd = (\<lambda>x. x\<lparr>re_status := Walked\<rparr>); h = set_stay i upd h
     in bindr (refundWalked D i actor h) (\<lambda>(refund, h).
        Inr (upd r, refund, stayAudit (re_branch r) (Some (jw_sub actor)) ''reservation.walked'' i h)))"

section \<open>Reads\<close>

definition listPendingNoShows :: "tz_offset \<Rightarrow> nat \<Rightarrow> instant \<Rightarrow> house \<Rightarrow> reservation list result" where
  "listPendingNoShows tzo b now h =
     bindr (branchOf h b) (\<lambda>br.
       Inr (sort_key re_checkInDate (filter (\<lambda>r. re_branch r = b \<and> \<not> re_deleted r \<and> re_status r = Confirmed \<and> re_checkInDate r \<le> branchToday tzo br now) (ho_stays h))))"

end
