(* ===== verification/Night_Audit.thy ===== *)
theory Night_Audit
  imports Stays
begin

text \<open>
  The night audit (\<^verbatim>\<open>night-audit/night-audit.service.ts\<close>): a run is claimed, the night that ended is posted for everyone in
  the house, rooms still occupied get their housekeeping, arrivals that never came are marked
  no-shows, and the log is closed. Each stay is worked on in a savepoint: when it fails, what was
  done for it is undone and the run goes on. A batch of stays is one transaction; \<open>lost\<close> tells which
  batches the database gives up on (a time-out, a lost connection), which undoes the batch and
  leaves the night to be run again.
\<close>

section \<open>Claiming a night\<close>

definition CATCH_UP_DAYS :: int where
  "CATCH_UP_DAYS = 7"

definition STAY_BATCH :: nat where
  "STAY_BATCH = 25"

definition STALE_RUN_MS :: int where
  "STALE_RUN_MS = 10 * 60000"

function inBatches :: "nat \<Rightarrow> 'a list \<Rightarrow> 'a list list" where
  "inBatches n xs = (if xs = [] then [] else if n = 0 then [xs] else take n xs # inBatches n (drop n xs))"
  by pat_completeness auto
termination
  by (relation "measure (length \<circ> snd)") auto

declare inBatches.simps [simp del]

definition yesterdayForBranch :: "tz_offset \<Rightarrow> string \<Rightarrow> instant \<Rightarrow> day" where
  "yesterdayForBranch tzo timezone now = todayInTimezone tzo timezone now - 1"

definition set_log :: "nat \<Rightarrow> (audit_log \<Rightarrow> audit_log) \<Rightarrow> house \<Rightarrow> house" where
  "set_log i f h = h\<lparr>ho_audits := map (\<lambda>l. if na_id l = i then f l else l) (ho_audits h)\<rparr>"

record run_claim =
  rn_log :: nat
  rn_posted :: nat
  rn_amount :: rat

text \<open>
  \<^verbatim>\<open>updateMany\<close> with the row just read as its condition finds the row as it was; the table allows one row for
  each branch and date.
\<close>

definition claimRun :: "tz_offset \<Rightarrow> nat \<Rightarrow> day \<Rightarrow> nat option \<Rightarrow> instant \<Rightarrow> house \<Rightarrow> (run_claim \<times> house) result" where
  "claimRun tzo b date triggeredBy now h =
     bindr (branchOf h b) (\<lambda>br.
     if yesterdayForBranch tzo (br_timezone br) now < date then Inl (BadRequest VALIDATION_FAILED)
     else case List.find (\<lambda>l. na_branch l = b \<and> na_date l = toBranchDate date) (ho_audits h) of
       Some existing \<Rightarrow>
         if na_status existing = Completed then Inl (Conflict AUDIT_ALREADY_RAN)
         else if na_status existing = Running \<and> now - STALE_RUN_MS \<le> na_triggeredAt existing then Inl (Conflict CONFLICT)
         else Inr (\<lparr>rn_log = na_id existing, rn_posted = na_chargesPosted existing, rn_amount = na_totalPosted existing\<rparr>,
                set_log (na_id existing) (\<lambda>l. l\<lparr>na_status := Running, na_triggeredAt := now, na_triggeredBy := triggeredBy, na_errors := []\<rparr>) h)
     | None \<Rightarrow>
         (let log = \<lparr>na_id = fresh h, na_branch = b, na_date = toBranchDate date, na_triggeredBy = triggeredBy, na_triggeredAt = now, na_status = Running,
                na_foliosProcessed = 0, na_chargesPosted = 0, na_totalPosted = 0, na_errors = []\<rparr>
          in Inr (\<lparr>rn_log = na_id log, rn_posted = 0, rn_amount = 0\<rparr>, (bump h)\<lparr>ho_audits := ho_audits h @ [log]\<rparr>)))"

section \<open>Closing the stays\<close>

record batch_done =
  bd_processed :: nat
  bd_posted :: nat
  bd_amount :: rat
  bd_tasks :: nat
  bd_errors :: "nat list"

definition inHouse :: "nat \<Rightarrow> instant \<Rightarrow> reservation \<Rightarrow> bool" where
  "inHouse b date r \<longleftrightarrow> re_branch r = b \<and> \<not> re_deleted r \<and> re_status r = Checked_in \<and> re_checkInDate r \<le> date"

definition vipLevelOf :: "house \<Rightarrow> reservation \<Rightarrow> int option" where
  "vipLevelOf h r = (case List.find (\<lambda>g. gu_id g = re_guest r) (db_guests (ho_db h)) of None \<Rightarrow> None | Some g \<Rightarrow> gu_vipLevel g)"

definition postNight :: "decimal_lib \<Rightarrow> instant \<Rightarrow> nat option \<Rightarrow> instant \<Rightarrow> reservation \<Rightarrow> house \<Rightarrow> (line_item option \<times> house) result" where
  "postNight D date triggeredBy now r h =
     (let (folio, d) = ensurePrimaryFolio r triggeredBy now (ho_db h)
      in on_db (postRoomChargeForDate D r folio date triggeredBy) (h\<lparr>ho_db := d\<rparr>))"

definition raiseTasks :: "nat \<Rightarrow> turndown_scope option \<Rightarrow> instant \<Rightarrow> reservation \<Rightarrow> nat \<Rightarrow> house \<Rightarrow> (nat \<times> house) result" where
  "raiseTasks b scope serviceDate r room h =
     bindr (ensureStayoverTaskInTx b room (re_id r) serviceDate h) (\<lambda>(raised, h).
     if \<not> re_isDayUse r \<and> serviceDate < re_checkOutDate r \<and> wantsTurndown scope (vipLevelOf h r)
     then bindr (ensureTurndownTaskInTx b room (re_id r) serviceDate h) (\<lambda>(turned, h).
            Inr ((if raised then 1 else 0) + (if turned then 1 else 0), h))
     else Inr (if raised then 1 else 0, h))"

definition closeStay ::
  "decimal_lib \<Rightarrow> nat \<Rightarrow> instant \<Rightarrow> turndown_scope option \<Rightarrow> nat option \<Rightarrow> instant \<Rightarrow> reservation \<Rightarrow> batch_done \<times> house \<Rightarrow> batch_done \<times> house" where
  "closeStay D b date scope triggeredBy now r st =
     (let (done, h) = st;
          (done, h) = (case postNight D date triggeredBy now r h of
              Inl _ \<Rightarrow> (done\<lparr>bd_errors := bd_errors done @ [re_id r]\<rparr>, h)
            | Inr (None, h) \<Rightarrow> (done\<lparr>bd_processed := Suc (bd_processed done)\<rparr>, h)
            | Inr (Some line, h) \<Rightarrow> (done\<lparr>bd_processed := Suc (bd_processed done), bd_posted := Suc (bd_posted done),
                 bd_amount := bd_amount done + li_amount line + li_taxAmount line\<rparr>, h))
      in case re_room r of
           None \<Rightarrow> (done, h)
         | Some room \<Rightarrow>
             (case raiseTasks b scope (date + DAY) r room h of
                Inl _ \<Rightarrow> (done\<lparr>bd_errors := bd_errors done @ [re_id r]\<rparr>, h)
              | Inr (n, h) \<Rightarrow> (done\<lparr>bd_tasks := bd_tasks done + n\<rparr>, h)))"

record run_state =
  ru_processed :: nat
  ru_posted :: nat
  ru_amount :: rat
  ru_marked :: nat
  ru_errors :: "nat list"
  ru_unfinished :: bool

definition closeBatch ::
  "decimal_lib \<Rightarrow> nat \<Rightarrow> instant \<Rightarrow> nat \<Rightarrow> turndown_scope option \<Rightarrow> nat option \<Rightarrow> (nat list \<Rightarrow> bool) \<Rightarrow> instant \<Rightarrow> nat list \<Rightarrow> run_state \<times> house \<Rightarrow> run_state \<times> house" where
  "closeBatch D b date logId scope triggeredBy lost now ids st =
     (let (run, h) = st;
          stays = filter (\<lambda>r. re_id r \<in> set ids \<and> inHouse b date r) (ho_stays h);
          (done, h') = fold (closeStay D b date scope triggeredBy now) stays (\<lparr>bd_processed = 0, bd_posted = 0, bd_amount = 0, bd_tasks = 0, bd_errors = []\<rparr>, h)
      in if lost ids then (run\<lparr>ru_unfinished := True, ru_errors := ru_errors run @ ids\<rparr>, h)
         else (run\<lparr>ru_processed := ru_processed run + bd_processed done, ru_posted := ru_posted run + bd_posted done,
                   ru_amount := ru_amount run + bd_amount done, ru_errors := ru_errors run @ bd_errors done\<rparr>,
               set_log logId (\<lambda>l. l\<lparr>na_chargesPosted := ru_posted run + bd_posted done, na_totalPosted := ru_amount run + bd_amount done\<rparr>) h'))"

section \<open>No-shows\<close>

definition unarrived :: "nat \<Rightarrow> instant \<Rightarrow> reservation \<Rightarrow> bool" where
  "unarrived b date r \<longleftrightarrow> re_branch r = b \<and> \<not> re_deleted r \<and> re_status r = Confirmed \<and> re_checkInDate r \<le> date"

definition markOne :: "decimal_lib \<Rightarrow> penalty_type \<Rightarrow> rat option \<Rightarrow> nat option \<Rightarrow> instant \<Rightarrow> reservation \<Rightarrow> nat \<times> nat list \<times> house \<Rightarrow> nat \<times> nat list \<times> house" where
  "markOne D penalty fee triggeredBy now r st =
     (let (marked, errors, h) = st
      in case markNoShowInTx D r penalty fee triggeredBy now h of
           Inl _ \<Rightarrow> (marked, errors @ [re_id r], h)
         | Inr (_, h) \<Rightarrow> (Suc marked, errors, h))"

definition markBatch ::
  "decimal_lib \<Rightarrow> nat \<Rightarrow> instant \<Rightarrow> penalty_type \<Rightarrow> rat option \<Rightarrow> nat option \<Rightarrow> (nat list \<Rightarrow> bool) \<Rightarrow> instant \<Rightarrow> nat list \<Rightarrow> run_state \<times> house \<Rightarrow> run_state \<times> house" where
  "markBatch D b date penalty fee triggeredBy lost now ids st =
     (let (run, h) = st;
          stays = filter (\<lambda>r. re_id r \<in> set ids \<and> unarrived b date r) (ho_stays h);
          (marked, errors, h') = fold (markOne D penalty fee triggeredBy now) stays (0, [], h)
      in if lost ids then (run\<lparr>ru_unfinished := True, ru_errors := ru_errors run @ ids\<rparr>, h)
         else (run\<lparr>ru_marked := ru_marked run + marked, ru_errors := ru_errors run @ errors\<rparr>, h'))"

definition autoMark :: "branch option \<Rightarrow> bool" where
  "autoMark br = (case br of None \<Rightarrow> True | Some b \<Rightarrow> jbool (jget (jfields (br_noShowPolicy b)) ''autoMark'') \<noteq> Some False)"

definition markNoShows ::
  "decimal_lib \<Rightarrow> nat \<Rightarrow> instant \<Rightarrow> nat option \<Rightarrow> (nat list \<Rightarrow> bool) \<Rightarrow> instant \<Rightarrow> run_state \<times> house \<Rightarrow> run_state \<times> house" where
  "markNoShows D b date triggeredBy lost now st =
     (let (run, h) = st;
          branch = List.find (\<lambda>x. br_id x = b) (db_branches (ho_db h));
          ids = (if autoMark branch then sort (map re_id (filter (unarrived b date) (ho_stays h))) else []);
          penalty = (case branch of None \<Rightarrow> NoPenalty | Some br \<Rightarrow> noShowPenalty br);
          fee = (case branch of None \<Rightarrow> None | Some br \<Rightarrow> noShowFee br)
      in fold (markBatch D b date penalty fee triggeredBy lost now) (inBatches STAY_BATCH ids) (run, h))"

section \<open>A run\<close>

definition runAudit ::
  "decimal_lib \<Rightarrow> tz_offset \<Rightarrow> nat \<Rightarrow> day \<Rightarrow> nat option \<Rightarrow> (nat list \<Rightarrow> bool) \<Rightarrow> instant \<Rightarrow> house \<Rightarrow> (run_state \<times> audit_status \<times> house) result" where
  "runAudit D tzo b day triggeredBy lost now h =
     bindr (claimRun tzo b day triggeredBy now h) (\<lambda>(claim, h).
     let date = toBranchDate day;
         stayIds = sort (map re_id (filter (inHouse b date) (ho_stays h)));
         scope = (case List.find (\<lambda>x. br_id x = b) (db_branches (ho_db h)) of None \<Rightarrow> turndownScopeFor None | Some br \<Rightarrow> turndownScopeFor (br_turndownPolicy br));
         start = \<lparr>ru_processed = 0, ru_posted = rn_posted claim, ru_amount = rn_amount claim, ru_marked = 0, ru_errors = [], ru_unfinished = False\<rparr>;
         (run, h) = markNoShows D b date triggeredBy lost now
           (fold (closeBatch D b date (rn_log claim) scope triggeredBy lost now) (inBatches STAY_BATCH stayIds) (start, h));
         status = (if ru_unfinished run \<or> ru_errors run \<noteq> [] \<and> ru_posted run = 0 \<and> ru_processed run = 0 then Failed else Completed)
     in Inr (run, status, set_log (rn_log claim) (\<lambda>l. l\<lparr>na_status := status, na_foliosProcessed := ru_processed run, na_chargesPosted := ru_posted run,
            na_totalPosted := ru_amount run, na_errors := ru_errors run\<rparr>) h))"

section \<open>The sweep\<close>

definition datesToAuditInTx :: "tz_offset \<Rightarrow> nat \<Rightarrow> string \<Rightarrow> instant \<Rightarrow> house \<Rightarrow> day list" where
  "datesToAuditInTx tzo b timezone now h =
     (let yesterday = yesterdayForBranch tzo timezone now;
          earliest = yesterday - (CATCH_UP_DAYS - 1);
          mine = filter (\<lambda>l. na_branch l = b) (ho_audits h);
          doneDates = (\<lambda>l. day_key (na_date l)) ` set (filter (\<lambda>l. toBranchDate earliest \<le> na_date l \<and> na_date l \<le> toBranchDate yesterday \<and>
             (na_status l = Completed \<or> na_status l = Running \<and> now - STALE_RUN_MS \<le> na_triggeredAt l)) mine);
          start = (if mine \<noteq> [] \<and> toBranchDate earliest \<le> Max (set (map na_date mine)) then day_key (Max (set (map na_date mine))) else yesterday)
      in filter (\<lambda>d. d \<notin> doneDates) [start..yesterday])"

definition closedAhead :: "tz_offset \<Rightarrow> nat \<Rightarrow> string \<Rightarrow> instant \<Rightarrow> house \<Rightarrow> day list" where
  "closedAhead tzo b timezone now h =
     (case datesToAuditInTx tzo b timezone now h of
        [] \<Rightarrow> []
      | first # _ \<Rightarrow> sort (map (\<lambda>l. day_key (na_date l))
          (filter (\<lambda>l. na_branch l = b \<and> na_status l = Completed \<and> toBranchDate first < na_date l) (ho_audits h))))"

text \<open>Nights close in order: a night that fails, or cannot be claimed, keeps the later ones waiting.\<close>

fun auditDates :: "decimal_lib \<Rightarrow> tz_offset \<Rightarrow> nat \<Rightarrow> (nat list \<Rightarrow> bool) \<Rightarrow> instant \<Rightarrow> day list \<Rightarrow> house \<Rightarrow> house" where
  "auditDates D tzo b lost now [] h = h"
| "auditDates D tzo b lost now (d # ds) h =
     (case runAudit D tzo b d None lost now h of
        Inl _ \<Rightarrow> h
      | Inr (_, status, h') \<Rightarrow> if status = Failed then h' else auditDates D tzo b lost now ds h')"

definition localHour :: "tz_offset \<Rightarrow> string \<Rightarrow> instant \<Rightarrow> int" where
  "localHour tzo timezone now = (now + tzo timezone now) mod DAY div 3600000"

definition runScheduledSweep :: "decimal_lib \<Rightarrow> tz_offset \<Rightarrow> int \<Rightarrow> (nat list \<Rightarrow> bool) \<Rightarrow> instant \<Rightarrow> house \<Rightarrow> house" where
  "runScheduledSweep D tzo auditHour lost now h =
     fold (\<lambda>br h. if localHour tzo (br_timezone br) now < auditHour then h
                  else auditDates D tzo (br_id br) lost now (datesToAuditInTx tzo (br_id br) (br_timezone br) now h) h)
       (filter (\<lambda>br. \<not> br_deleted br) (db_branches (ho_db h))) h"

end
