(* ===== verification/Stay_Effects.thy ===== *)
theory Stay_Effects
  imports Night_Audit Desk_Effects
begin

text \<open>
  What the handlers of stays leave alone. Most of a handler is bookkeeping: bills, trails, tasks,
  messages. None of it changes a stay, or a room but for its cleanliness; \<open>still\<close> says so, once for
  every helper, so that a handler's own change of a stay and of a room's occupancy stands out.
\<close>

section \<open>Money tables\<close>

definition keeps :: "db \<Rightarrow> db \<Rightarrow> bool" where
  "keeps d d' \<longleftrightarrow> db_reservations d' = db_reservations d \<and> db_branches d' = db_branches d \<and> db_roomTypes d' = db_roomTypes d \<and> db_next d \<le> db_next d' \<and>
     set (db_lines d) \<subseteq> set (db_lines d')"

lemma keeps_refl [simp]: "keeps d d"
  by (simp add: keeps_def)

lemma keeps_trans [trans]: "keeps a b \<Longrightarrow> keeps b c \<Longrightarrow> keeps a c"
  by (auto simp: keeps_def)

lemma keeps_append [simp]: "keeps d (append_lines rows d)"
  by (simp add: keeps_def append_lines_def)

lemma keeps_audit [simp]: "keeps d (audit b u a e d') = keeps d d'"
  by (simp add: keeps_def audit_def Let_def)

lemma writeCharge_keeps: "writeChargeWithTaxes D inp d = Inr (l, d') \<Longrightarrow> keeps d d'"
proof (cases l)
  case (Some p)
  assume "writeChargeWithTaxes D inp d = Inr (l, d')"
  with Some have "writeChargeWithTaxes D inp d = Inr (Some p, d')" by simp
  then show ?thesis by (cases rule: writeCharge_Some) simp
qed (use writeCharge_None in simp)

lemma postPackages_keeps: "foldr_res (postPackage D r folio date a) pkgs d = Inr d' \<Longrightarrow> keeps d d'"
  by (rule foldr_res_inv[where P = "keeps d"]) (auto simp: postPackage_def res_simps elim!: keeps_trans intro: writeCharge_keeps split: if_splits prod.splits)

lemma postDate_keeps: "postRoomChargeForDate D r folio date a d = Inr (l, d') \<Longrightarrow> keeps d d'"
proof -
  assume "postRoomChargeForDate D r folio date a d = Inr (l, d')"
  then obtain d1 where n: "(if re_isDayUse r \<and> \<not> dayUseCharged d (re_id r) then postDayUseCharge D r folio a d else postRoomNight D r folio date a d) = Inr (l, d1)"
    and p: "postPackageCharges D r folio date a d1 = Inr d'" by (auto simp: postRoomChargeForDate_def res_simps split: prod.splits)
  from n have "keeps d d1"
    by (auto simp: postDayUseCharge_def postRoomNight_def Let_def res_simps intro: writeCharge_keeps split: if_splits)
  also have "keeps d1 d'" using p unfolding postPackageCharges_def by (rule postPackages_keeps)
  finally show ?thesis .
qed

lemma backfill_keeps: "backfillRoomCharges D r folio today a d = Inr (n, d') \<Longrightarrow> keeps d d'"
proof -
  assume b: "backfillRoomCharges D r folio today a d = Inr (n, d')"
  have "keeps d (snd (n, d'))"
    using b unfolding backfillRoomCharges_def
  proof (rule foldr_res_inv[where P = "\<lambda>s. keeps d (snd s)"])
    fix night s t
    assume "keeps d (snd s)" and "(case s of (posted, d) \<Rightarrow> bindr (postRoomChargeForDate D r folio night a d)
      (\<lambda>(res, d). Inr (if res \<noteq> None then Suc posted else posted, d))) = Inr t"
    then show "keeps d (snd t)" by (auto simp: res_simps split: prod.splits elim!: keeps_trans intro: postDate_keeps)
  qed simp
  then show ?thesis by simp
qed

lemma postFees_keeps: "postFees D folio t a fees d = Inr d' \<Longrightarrow> keeps d d'"
  unfolding postFees_def
  by (rule foldr_res_inv[where P = "keeps d"]) (auto simp: postChargeInTx_def res_simps elim!: keeps_trans intro: writeCharge_keeps split: prod.splits)

lemma ensurePrimary_keeps: "ensurePrimaryFolio r a now d = (f, d') \<Longrightarrow> keeps d d'"
  by (auto simp: ensurePrimaryFolio_def insert_folio_def keeps_def Let_def split: option.splits if_splits prod.splits)

lemma settle_keeps: "keeps d (snd (settleIfFullyPaid folio a now d'))  = keeps d d'"
  by (simp add: settleIfFullyPaid_def set_folio_status_def keeps_def)

lemma reverse_keeps: "reverseChargeInTx i a d = Inr (c, d') \<Longrightarrow> keeps d d'"
  by (auto simp: reverseChargeInTx_def res_simps split: option.splits if_splits dest!: reverseLineItem_Inr)

lemma createFolio_keeps: "createAdditionalFolio r l p c a now d = Inr (x, d') \<Longrightarrow> keeps d d'"
  by (auto simp: createAdditionalFolio_def insert_folio_def keeps_def Let_def split: option.splits if_splits prod.splits)

lemma request_keeps: "requestInTx folio dto actor d = Inr (r, d') \<Longrightarrow> keeps d d'"
  by (erule requestInTx_effect) (simp add: keeps_def)

lemma applyLoyalty_keeps: "applyLoyaltyPoints g e now d = Inr (t, d') \<Longrightarrow> keeps d d'"
  by (auto simp: applyLoyaltyPoints_def insert_loyalty_def keeps_def Let_def res_simps split: if_splits)

section \<open>The house\<close>

text \<open>A room but for its cleanliness and who last touched it.\<close>

definition shape :: "room \<Rightarrow> room" where
  "shape r = r\<lparr>rm_cleanliness := Dirty, rm_statusBy := None\<rparr>"

definition still :: "house \<Rightarrow> house \<Rightarrow> bool" where
  "still h h' \<longleftrightarrow> keeps (ho_db h) (ho_db h') \<and> map shape (ho_rooms h') = map shape (ho_rooms h) \<and> ho_blocks h' = ho_blocks h \<and>
     ho_groups h' = ho_groups h \<and> ho_overbooking h' = ho_overbooking h"

lemma still_refl [simp]: "still h h"
  by (simp add: still_def)

lemma still_trans [trans]: "still a b \<Longrightarrow> still b c \<Longrightarrow> still a c"
  unfolding still_def using keeps_trans by auto

lemma still_bookkeeping [simp]:
  "still h (log_action b u a e k) = still h k" "still h (stayAudit b u a e k) = still h k" "still h (mail r t k) = still h k"
  "still h (k\<lparr>ho_noShows := ns\<rparr>) = still h k" "still h (k\<lparr>ho_walks := ws\<rparr>) = still h k" "still h (k\<lparr>ho_seq := n\<rparr>) = still h k"
  "still h (k\<lparr>ho_tasks := ts\<rparr>) = still h k" "still h (k\<lparr>ho_rateLog := ls\<rparr>) = still h k" "still h (k\<lparr>ho_cards := cs\<rparr>) = still h k"
  "still h (k\<lparr>ho_notes := notes\<rparr>) = still h k" "still h (k\<lparr>ho_audits := as\<rparr>) = still h k" "still h (set_task i tf k) = still h k"
  "still h (linkAuditLogsToReservation ids rr k) = still h k" "still h (recordIdDocumentInTx b g staff k) = still h k" "still h (set_log i lf k) = still h k"
  by (simp_all add: still_def keeps_def log_action_def audit_def stayAudit_def Let_def mail_def set_task_def linkAuditLogsToReservation_def recordIdDocumentInTx_def set_log_def)

lemma still_bump: "still h k \<Longrightarrow> still h (bump k)"
  by (simp add: still_def keeps_def bump_def)

lemma still_bump_self [simp]: "still h (bump h)"
  by (simp add: still_bump)

lemma still_db: "keeps (ho_db k) d \<Longrightarrow> still h k \<Longrightarrow> still h (k\<lparr>ho_db := d\<rparr>)"
  unfolding still_def using keeps_trans by auto

lemma on_db_still:
  assumes "on_db f h = Inr (x, h')" and "\<And>d'. f (ho_db h) = Inr (x, d') \<Longrightarrow> keeps (ho_db h) d'"
  shows "still h h'"
  using assms by (auto simp: on_db_Inr intro: still_db)

lemma generateCard_still: "still h (generateCardInTx r a h)"
  by (simp add: generateCardInTx_def still_bump)

lemma generateNumber_still: "generateConfirmationNumber now h = (c, h') \<Longrightarrow> still h h'"
  by (auto simp: generateConfirmationNumber_def Let_def)

lemma createGuest_still: "createGuestInTx dto h = (g, h') \<Longrightarrow> still h h'"
  by (auto simp: createGuestInTx_def Let_def still_def keeps_def bump_def)

lemma knownGuest_still: "knownGuest recent dto h = Some (g, h') \<Longrightarrow> still h h'"
  by (auto simp: knownGuest_def Let_def still_def keeps_def split: if_splits list.splits)

lemma findGuest_still: "findOrCreateGuestInTx recent inp pb h = Inr (g, h') \<Longrightarrow> still h h'"
  by (auto simp: findOrCreateGuestInTx_def publicBookingGuest_def split: sum.splits option.splits if_splits dest: createGuest_still knownGuest_still)

lemma writeRateLog_still: "writeRateLog b r rt t u ns h = (ids, h') \<Longrightarrow> still h h'"
proof (induction ns arbitrary: h ids)
  case (Cons n ns)
  then obtain ids' where "writeRateLog b r rt t u ns ((bump h)\<lparr>ho_rateLog := ho_rateLog h @ [\<lparr>rl_id = fresh h, rl_branch = b, rl_reservation = r, rl_roomType = rt,
      rl_night = day_key (nr_night n), rl_rate = nr_rate n, rl_trigger = t, rl_user = u\<rparr>]\<rparr>) = (ids', h')" by (auto simp: Let_def split: prod.splits)
  then have "still ((bump h)\<lparr>ho_rateLog := ho_rateLog h @ [\<lparr>rl_id = fresh h, rl_branch = b, rl_reservation = r, rl_roomType = rt,
      rl_night = day_key (nr_night n), rl_rate = nr_rate n, rl_trigger = t, rl_user = u\<rparr>]\<rparr>) h'" by (rule Cons.IH)
  with still_trans show ?case using still_bump[OF still_refl, of h] by (metis still_bookkeeping(8))
qed simp

lemma resolveStay_still: "resolveStay D b rt i out opts ctx h = Inr (s, h') \<Longrightarrow> still h h'"
  by (auto simp: resolveStay_def Let_def res_simps split: if_splits prod.splits dest: writeRateLog_still)

section \<open>Rooms and tasks\<close>

lemma set_room_still: "(\<And>r. shape (f r) = shape r) \<Longrightarrow> still h (set_room i f k) = still h k"
  by (simp add: still_def set_room_def comp_def if_distrib[of shape] cong: if_cong)

lemma transition_still: "transitionRoomCleanliness i c a h = Inr h' \<Longrightarrow> still h h'"
  by (auto simp: transitionRoomCleanliness_def Let_def res_simps set_room_still shape_def split: if_splits)

lemma createTask_still: "createTaskInTx b opts h = Inr (t, h') \<Longrightarrow> still h h'"
  by (auto simp: createTaskInTx_def insert_task_def Let_def res_simps split: option.splits if_splits elim!: still_trans dest!: transition_still intro: still_bump)

lemma ensureTurndown_still: "ensureTurndownTaskInTx b i r t h = Inr (x, h') \<Longrightarrow> still h h'"
  by (auto simp: ensureTurndownTaskInTx_def res_simps split: if_splits dest: createTask_still)

lemma ensureStayover_still: "ensureStayoverTaskInTx b i r t h = Inr (x, h') \<Longrightarrow> still h h'"
  by (auto simp: ensureStayoverTaskInTx_def res_simps split: if_splits dest: createTask_still)

lemma turndown_still: "turndownTonight tzo br r now h = Inr h' \<Longrightarrow> still h h'"
  by (auto simp: turndownTonight_def Let_def res_simps split: option.splits if_splits dest: ensureTurndown_still)

lemma supersede_still: "supersedeStayoverTasksInTx b i a h = (n, h') \<Longrightarrow> still h h'"
proof -
  have f: "still h (foldl (\<lambda>h t. log_action b a ''housekeeping.task_superseded'' (hk_id t) (set_task (hk_id t) (\<lambda>t. t\<lparr>hk_status := Skipped\<rparr>) h)) k ts) = still h k" for k ts
    by (induction ts arbitrary: k) simp_all
  then show "supersedeStayoverTasksInTx b i a h = (n, h') \<Longrightarrow> still h h'" by (auto simp: supersedeStayoverTasksInTx_def Let_def f)
qed

lemma openBill_still: "openBill D tzo br r a now h = Inr h' \<Longrightarrow> still h h'"
proof -
  assume o: "openBill D tzo br r a now h = Inr h'"
  obtain folio d where e: "ensurePrimaryFolio r (Some a) now (ho_db h) = (folio, d)" by fastforce
  with o obtain l h1 where p: "on_db (postRoomChargeForDate D r folio (re_checkInDate r) (Some a)) (h\<lparr>ho_db := d\<rparr>) = Inr (l, h1)"
    and t: "turndownTonight tzo br r now h1 = Inr h'" by (auto simp: openBill_def res_simps)
  have "still h (h\<lparr>ho_db := d\<rparr>)" by (rule still_db[OF ensurePrimary_keeps[OF e] still_refl])
  also have "still (h\<lparr>ho_db := d\<rparr>) h1" by (rule on_db_still[OF p]) (rule postDate_keeps)
  also have "still h1 h'" by (rule turndown_still[OF t])
  finally show ?thesis .
qed

lemma earn_still: "earnForStayInTx D r a now h = Inr (n, h') \<Longrightarrow> still h h'"
  by (auto simp: earnForStayInTx_def Let_def res_simps split: option.splits if_splits sum.splits dest!: on_db_still intro: applyLoyalty_keeps)

end
