(* ===== verification/Stay_Desk.thy ===== *)
theory Stay_Desk
  imports Stay_Effects
begin

text \<open>
  The front desk. \<open>desk_step\<close> is its abstract machine: a board of stays, each with its status and its
  room, and the set of rooms that are taken. \<open>desk\<close> reads the board off the tables, and the handlers
  of stays are shown to move it by steps of that machine, so that what holds of the machine (one
  party to a room; a stay that is over is over) holds of the handlers in any order.
\<close>

section \<open>The abstract desk\<close>

record desk =
  dk_stays :: "nat \<rightharpoonup> reservation_status \<times> nat option"
  dk_taken :: "nat set"

definition turns :: "reservation_status \<Rightarrow> reservation_status \<Rightarrow> bool" where
  "turns s t \<longleftrightarrow> (s, t) \<in> {(Waitlisted, Confirmed), (Waitlisted, Cancelled), (Confirmed, Cancelled), (Confirmed, No_show), (Confirmed, Walked), (No_show, Confirmed)}"

inductive desk_step :: "desk \<Rightarrow> desk \<Rightarrow> bool" where
  book: "i \<notin> dom (dk_stays k) \<Longrightarrow> s \<in> {Waitlisted, Confirmed} \<Longrightarrow> desk_step k (k\<lparr>dk_stays := (dk_stays k)(i \<mapsto> (s, None))\<rparr>)"
| walk_in: "i \<notin> dom (dk_stays k) \<Longrightarrow> x \<notin> dk_taken k \<Longrightarrow>
    desk_step k \<lparr>dk_stays = (dk_stays k)(i \<mapsto> (Checked_in, Some x)), dk_taken = insert x (dk_taken k)\<rparr>"
| arrive: "dk_stays k i = Some (Confirmed, y) \<Longrightarrow> x \<notin> dk_taken k \<Longrightarrow>
    desk_step k \<lparr>dk_stays = (dk_stays k)(i \<mapsto> (Checked_in, Some x)), dk_taken = insert x (dk_taken k)\<rparr>"
| move: "dk_stays k i = Some (Checked_in, Some y) \<Longrightarrow> x \<notin> dk_taken k \<Longrightarrow>
    desk_step k \<lparr>dk_stays = (dk_stays k)(i \<mapsto> (Checked_in, Some x)), dk_taken = insert x (dk_taken k - {y})\<rparr>"
| leave: "dk_stays k i = Some (Checked_in, Some y) \<Longrightarrow>
    desk_step k \<lparr>dk_stays = (dk_stays k)(i \<mapsto> (Checked_out, Some y)), dk_taken = dk_taken k - {y}\<rparr>"
| turn: "dk_stays k i = Some (s, y) \<Longrightarrow> turns s t \<Longrightarrow> desk_step k (k\<lparr>dk_stays := (dk_stays k)(i \<mapsto> (t, y))\<rparr>)"

text \<open>Everybody in the house has a room, that room is taken, and nobody else has it.\<close>

definition roomed :: "desk \<Rightarrow> bool" where
  "roomed k \<longleftrightarrow>
     (\<forall>i. dk_stays k i \<noteq> Some (Checked_in, None)) \<and>
     (\<forall>i x. dk_stays k i = Some (Checked_in, Some x) \<longrightarrow> x \<in> dk_taken k) \<and>
     (\<forall>i j x. dk_stays k i = Some (Checked_in, Some x) \<longrightarrow> dk_stays k j = Some (Checked_in, Some x) \<longrightarrow> i = j)"

lemma desk_step_roomed: "desk_step k k' \<Longrightarrow> roomed k \<Longrightarrow> roomed k'"
  by (induction rule: desk_step.induct) (auto simp: roomed_def turns_def split: if_split_asm)

definition over :: "reservation_status \<Rightarrow> bool" where
  "over s \<longleftrightarrow> s \<in> {Checked_out, Cancelled, Walked}"

lemma desk_step_over: "desk_step k k' \<Longrightarrow> dk_stays k i = Some (s, y) \<Longrightarrow> over s \<Longrightarrow> dk_stays k' i = Some (s, y)"
  by (induction rule: desk_step.induct) (auto simp: over_def turns_def)

section \<open>Refining the desk\<close>

locale desk_machine =
  fixes view :: "'s \<Rightarrow> desk" and fine :: "'s \<Rightarrow> bool" and step :: "'s \<Rightarrow> 's \<Rightarrow> bool"
  assumes simulates: "step s t \<Longrightarrow> fine s \<Longrightarrow> desk_step\<^sup>*\<^sup>* (view s) (view t)"
    and stays_fine: "step s t \<Longrightarrow> fine s \<Longrightarrow> fine t"
begin

lemma runs_simulate: "step\<^sup>*\<^sup>* s t \<Longrightarrow> fine s \<Longrightarrow> fine t \<and> desk_step\<^sup>*\<^sup>* (view s) (view t)"
  by (induction rule: rtranclp_induct) (auto intro: stays_fine rtranclp_trans[OF _ simulates])

lemma runs_roomed: "step\<^sup>*\<^sup>* s t \<Longrightarrow> fine s \<Longrightarrow> roomed (view s) \<Longrightarrow> roomed (view t)"
proof -
  have "desk_step\<^sup>*\<^sup>* k k' \<Longrightarrow> roomed k \<Longrightarrow> roomed k'" for k k'
    by (induction rule: rtranclp_induct) (auto dest: desk_step_roomed)
  then show "step\<^sup>*\<^sup>* s t \<Longrightarrow> fine s \<Longrightarrow> roomed (view s) \<Longrightarrow> roomed (view t)" using runs_simulate by blast
qed

lemma runs_over: "step\<^sup>*\<^sup>* s t \<Longrightarrow> fine s \<Longrightarrow> dk_stays (view s) i = Some (st, y) \<Longrightarrow> over st \<Longrightarrow> dk_stays (view t) i = Some (st, y)"
proof -
  have "desk_step\<^sup>*\<^sup>* k k' \<Longrightarrow> dk_stays k i = Some (st, y) \<Longrightarrow> over st \<Longrightarrow> dk_stays k' i = Some (st, y)" for k k'
    by (induction rule: rtranclp_induct) (auto dest: desk_step_over)
  then show "step\<^sup>*\<^sup>* s t \<Longrightarrow> fine s \<Longrightarrow> dk_stays (view s) i = Some (st, y) \<Longrightarrow> over st \<Longrightarrow> dk_stays (view t) i = Some (st, y)"
    using runs_simulate by blast
qed

end

section \<open>The board in the tables\<close>

definition party :: "reservation \<Rightarrow> nat \<times> reservation_status \<times> nat option" where
  "party r = (re_id r, re_status r, re_room r)"

definition desk :: "house \<Rightarrow> desk" where
  "desk h = \<lparr>dk_stays = map_of (map party (filter (\<lambda>r. \<not> re_deleted r) (ho_stays h))),
     dk_taken = rm_id ` set (filter (\<lambda>r. rm_occupancy r = Occupied) (ho_rooms h))\<rparr>"

definition keyed :: "house \<Rightarrow> bool" where
  "keyed h \<longleftrightarrow> distinct (map re_id (ho_stays h)) \<and> (\<forall>i \<in> set (map re_id (ho_stays h)). i < fresh h) \<and> distinct (map rm_id (ho_rooms h))"

text \<open>The desk is as it was.\<close>

definition same_desk :: "house \<Rightarrow> house \<Rightarrow> bool" where
  "same_desk h h' \<longleftrightarrow> desk h' = desk h \<and> (keyed h \<longrightarrow> keyed h')"

lemma same_desk_refl [simp]: "same_desk h h"
  by (simp add: same_desk_def)

lemma same_desk_trans [trans]: "same_desk a b \<Longrightarrow> same_desk b c \<Longrightarrow> same_desk a c"
  by (simp add: same_desk_def)

lemma shape_eqs: "map shape rs = map shape rs' \<Longrightarrow> map rm_id rs = map rm_id rs'"
  "map shape rs = map shape rs' \<Longrightarrow> rm_id ` set (filter (\<lambda>r. rm_occupancy r = Occupied) rs) = rm_id ` set (filter (\<lambda>r. rm_occupancy r = Occupied) rs')"
proof -
  assume e: "map shape rs = map shape rs'"
  have [simp]: "rm_id (shape r) = rm_id r" "rm_occupancy (shape r) = rm_occupancy r" for r by (simp_all add: shape_def)
  have "map rm_id (map shape rs) = map rm_id rs" for rs by simp
  with e show "map rm_id rs = map rm_id rs'" by metis
  have "rm_id ` set (filter (\<lambda>r. rm_occupancy r = Occupied) (map shape rs)) = rm_id ` set (filter (\<lambda>r. rm_occupancy r = Occupied) rs)" for rs
    by (induction rs) simp_all
  with e show "rm_id ` set (filter (\<lambda>r. rm_occupancy r = Occupied) rs) = rm_id ` set (filter (\<lambda>r. rm_occupancy r = Occupied) rs')" by metis
qed

lemma still_desk: "still h h' \<Longrightarrow> same_desk h h'"
proof -
  assume s: "still h h'"
  note e = shape_eqs[of "ho_rooms h'" "ho_rooms h"]
  from s e have "map rm_id (ho_rooms h') = map rm_id (ho_rooms h)" "ho_stays h' = ho_stays h" "fresh h \<le> fresh h'" "desk h' = desk h"
    by (simp_all add: still_def keeps_def fresh_def desk_def del: set_filter)
  then show ?thesis by (auto simp: same_desk_def keyed_def simp del: set_map)
qed

section \<open>What changes the board\<close>

lemma find_stay: "findReservationOrThrow h i = Inr r \<Longrightarrow> dk_stays (desk h) i = Some (re_status r, re_room r) \<and> re_id r = i \<and> r \<in> set (ho_stays h) \<and> \<not> re_deleted r"
proof -
  have "List.find (\<lambda>r. re_id r = i \<and> \<not> re_deleted r) rs = Some r \<Longrightarrow>
      map_of (map party (filter (\<lambda>r. \<not> re_deleted r) rs)) i = Some (re_status r, re_room r) \<and> re_id r = i \<and> r \<in> set rs \<and> \<not> re_deleted r" for rs
    by (induction rs) (auto simp: party_def split: if_split_asm)
  then show "findReservationOrThrow h i = Inr r \<Longrightarrow> dk_stays (desk h) i = Some (re_status r, re_room r) \<and> re_id r = i \<and> r \<in> set (ho_stays h) \<and> \<not> re_deleted r"
    by (auto simp: findReservationOrThrow_def desk_def split: option.splits)
qed

lemma set_stay_sel [simp]: "ho_stays (set_stay i f h) = map (\<lambda>r. if re_id r = i then f r else r) (ho_stays h)" "ho_rooms (set_stay i f h) = ho_rooms h"
  "fresh (set_stay i f h) = fresh h"
  by (simp_all add: set_stay_def fresh_def)

lemma set_stay_keyed: "(\<And>r. re_id (f r) = re_id r) \<Longrightarrow> keyed (set_stay i f h) = keyed h"
  by (simp add: keyed_def comp_def if_distrib[of re_id] del: set_map cong: if_cong)

lemma set_stay_desk:
  assumes "findReservationOrThrow h i = Inr r" "\<And>r. re_id (f r) = re_id r" "\<And>r. re_deleted (f r) = re_deleted r"
  shows "desk (set_stay i f h) = desk h\<lparr>dk_stays := (dk_stays (desk h))(i \<mapsto> (re_status (f r), re_room (f r)))\<rparr>"
proof -
  have "List.find (\<lambda>r. re_id r = i \<and> \<not> re_deleted r) rs = Some r \<Longrightarrow>
      map_of (map party (filter (\<lambda>r. \<not> re_deleted r) (map (\<lambda>r. if re_id r = i then f r else r) rs))) =
      (map_of (map party (filter (\<lambda>r. \<not> re_deleted r) rs)))(i \<mapsto> (re_status (f r), re_room (f r)))" for rs
  proof (induction rs)
    case (Cons x rs)
    have "map_of (map party (filter (\<lambda>r. \<not> re_deleted r) (map (\<lambda>r. if re_id r = i then f r else r) rs))) j =
        map_of (map party (filter (\<lambda>r. \<not> re_deleted r) rs)) j" if "j \<noteq> i" for j
      using that assms(2,3) by (induction rs) (auto simp: party_def)
    with Cons show ?case by (auto simp: fun_eq_iff assms(2,3) split: if_split_asm) (auto simp: party_def assms(2))
  qed simp
  with assms(1) show ?thesis by (auto simp: findReservationOrThrow_def desk_def split: option.splits)
qed

lemma set_stay_same:
  assumes "findReservationOrThrow h i = Inr r" "\<And>r. party (f r) = party r" "\<And>r. re_deleted (f r) = re_deleted r"
  shows "same_desk h (set_stay i f h)"
proof -
  have f: "re_id (f r) = re_id r" "re_status (f r) = re_status r" "re_room (f r) = re_room r" for r
    using assms(2)[of r] by (simp_all add: party_def)
  have "desk (set_stay i f h) = desk h\<lparr>dk_stays := (dk_stays (desk h))(i \<mapsto> (re_status r, re_room r))\<rparr>"
    using set_stay_desk[OF assms(1) f(1) assms(3)] f by simp
  moreover have "(dk_stays (desk h))(i \<mapsto> (re_status r, re_room r)) = dk_stays (desk h)"
    using find_stay[OF assms(1)] by (auto simp: fun_eq_iff)
  ultimately show ?thesis using set_stay_keyed[OF f(1)] by (simp add: same_desk_def)
qed

lemma findRoom_row: "findRoom h i = Inr x \<Longrightarrow> x \<in> set (ho_rooms h) \<and> rm_id x = i"
  by (auto simp: findRoom_def split: option.splits dest: find_Some_mem)

lemma vacant_free: "keyed h \<Longrightarrow> findRoom h i = Inr x \<Longrightarrow> rm_occupancy x = Vacant \<Longrightarrow> i \<notin> dk_taken (desk h)"
proof
  assume "keyed h" "findRoom h i = Inr x" "rm_occupancy x = Vacant" "i \<in> dk_taken (desk h)"
  moreover from this obtain y where "y \<in> set (ho_rooms h)" "rm_occupancy y = Occupied" "rm_id y = i" by (auto simp: desk_def)
  ultimately show False using findRoom_row inj_onD[of rm_id "set (ho_rooms h)" x y] by (auto simp: keyed_def distinct_map)
qed

lemma taken_set:
  assumes "\<And>r. rm_id (f r) = rm_id r" "\<And>r. rm_occupancy (f r) = occ"
  shows "rm_id ` set (filter (\<lambda>r. rm_occupancy r = Occupied) (map (\<lambda>r. if rm_id r = i then f r else r) rs)) =
    (if occ = Occupied then (if i \<in> rm_id ` set rs then {i} else {}) \<union> rm_id ` set (filter (\<lambda>r. rm_occupancy r = Occupied) rs)
     else rm_id ` set (filter (\<lambda>r. rm_occupancy r = Occupied) rs) - {i})"
  by (induction rs) (auto simp: assms)

lemma occupancy_desk:
  assumes "applyReservationOccupancy i occ c a h = Inr h'"
  shows "desk h' = desk h\<lparr>dk_taken := (if occ = Occupied then insert i (dk_taken (desk h)) else dk_taken (desk h) - {i})\<rparr>"
    and "keyed h \<Longrightarrow> keyed h'"
proof -
  from assms obtain x where x: "findRoom h i = Inr x"
    and h': "h' = log_action (rm_branch x) a ''room.status_changed'' i
      (set_room i (\<lambda>r. r\<lparr>rm_occupancy := occ, rm_cleanliness := the_default (rm_cleanliness r) c, rm_statusBy := a\<rparr>) h)"
    by (auto simp: applyReservationOccupancy_def res_simps)
  show "desk h' = desk h\<lparr>dk_taken := (if occ = Occupied then insert i (dk_taken (desk h)) else dk_taken (desk h) - {i})\<rparr>"
    using findRoom_row[OF x] by (auto simp: h' desk_def set_room_def taken_set simp del: set_filter)
  show "keyed h \<Longrightarrow> keyed h'" by (simp add: h' keyed_def set_room_def fresh_def comp_def if_distrib[of rm_id] cong: if_cong)
qed

lemma same_desk_bookkeeping [simp]:
  "same_desk h (stayAudit b u a e k) = same_desk h k" "same_desk h (mail r t k) = same_desk h k" "same_desk h (log_action b u a e k) = same_desk h k"
  by (simp_all add: same_desk_def desk_def keyed_def fresh_def)

end
