(* ===== verification/Stay_Moves.thy ===== *)
theory Stay_Moves
  imports Stay_Desk
begin

text \<open>
  Every handler of stays is a run of the front desk. \<open>moves\<close> is the statement for one handler; the
  properties at the end are about any sequence of them.
\<close>

section \<open>Moves\<close>

definition moves :: "house \<Rightarrow> house \<Rightarrow> bool" where
  "moves h h' \<longleftrightarrow> (keyed h \<longrightarrow> keyed h' \<and> desk_step\<^sup>*\<^sup>* (desk h) (desk h'))"

lemma moves_refl [simp]: "moves h h"
  by (simp add: moves_def)

lemma moves_trans [trans]: "moves a b \<Longrightarrow> moves b c \<Longrightarrow> moves a c"
  unfolding moves_def by auto

lemma same_moves: "same_desk h h' \<Longrightarrow> moves h h'"
  by (simp add: moves_def same_desk_def)

lemma still_moves: "still h h' \<Longrightarrow> moves h h'"
  by (intro same_moves still_desk)

lemmas still_into = still_trans[rotated]

lemma moves_bookkeeping [simp]:
  "moves h (stayAudit b u a e k) = moves h k" "moves h (mail r t k) = moves h k" "moves h (log_action b u a e k) = moves h k"
  by (simp_all add: moves_def keyed_def desk_def fresh_def)

lemma still_find: "still h h' \<Longrightarrow> findReservationOrThrow h' i = findReservationOrThrow h i"
  by (simp add: findReservationOrThrow_def still_def keeps_def)

lemma moves_turn:
  assumes "findReservationOrThrow h i = Inr r" "turns (re_status r) t"
    and "\<And>r. re_id (f r) = re_id r" "\<And>r. re_deleted (f r) = re_deleted r" "re_status (f r) = t" "re_room (f r) = re_room r"
  shows "moves h (set_stay i f h)"
  unfolding moves_def
proof
  assume "keyed h"
  moreover have "desk_step (desk h) (desk (set_stay i f h))"
    using find_stay[OF assms(1)] desk_step.turn[of "desk h" i "re_status r" "re_room r" t] assms(2,5,6) set_stay_desk[OF assms(1,3,4)] by simp
  ultimately show "keyed (set_stay i f h) \<and> desk_step\<^sup>*\<^sup>* (desk h) (desk (set_stay i f h))" using set_stay_keyed[of f] assms(3) by simp
qed

lemma ensurePrimary_snd [simp]: "keeps d (snd (ensurePrimaryFolio r a now d))"
  by (rule ensurePrimary_keeps) (rule prod.collapse[symmetric])

lemma postAdHoc_keeps: "postAdHocCharge D r folio t x a d = Inr (l, d') \<Longrightarrow> keeps d d'"
  by (auto simp: postAdHocCharge_def res_simps intro: writeCharge_keeps)

lemma settle_still: "keeps (ho_db h) d \<Longrightarrow> still h (h\<lparr>ho_db := snd (settleIfFullyPaid folio a now d)\<rparr>)"
  by (intro still_db) (simp_all add: settle_keeps)

section \<open>Reading a handler\<close>

text \<open>A handler that succeeds passed its guards.\<close>

lemma guard_passed: "(if c then Inl e else m) = Inr y \<longleftrightarrow> \<not> c \<and> m = Inr y"
  by simp

lemma guard_found: "(case x of None \<Rightarrow> Inl e | Some a \<Rightarrow> f a) = Inr y \<longleftrightarrow> (\<exists>a. x = Some a \<and> f a = Inr y)"
  by (cases x) simp_all

lemmas read_handler = Let_def res_simps split_beta guard_passed guard_found

section \<open>Handlers that leave the board as it is\<close>

lemma set_same:
  assumes "findReservationOrThrow h i = Inr r" "still h k" "\<And>r. party (f r) = party r" "\<And>r. re_deleted (f r) = re_deleted r"
  shows "same_desk h (set_stay i f k)"
  using still_desk[OF assms(2)] set_stay_same[of k i r f] assms still_find[OF assms(2)] by (auto intro: same_desk_trans)

lemma setRateOverride_same: "setRateOverride D i rate reason u h = Inr (r, h') \<Longrightarrow> same_desk h h'"
  unfolding setRateOverride_def by (clarsimp simp: read_handler) (erule set_same; simp add: party_def)

lemma modify_same: "modifyReservation D tzo i dto u now h = Inr (r, h') \<Longrightarrow> same_desk h h'"
  unfolding modifyReservation_def by (clarsimp simp: read_handler) (erule set_same; (erule resolveStay_still | simp add: party_def))

lemma extendStay_same: "extendStay D tzo i out u now h = Inr (r, h') \<Longrightarrow> same_desk h h'"
  unfolding extendStay_def by (clarsimp simp: read_handler) (erule set_same; (erule resolveStay_still | simp add: party_def))

lemma bill_then: "keeps (snd (ensurePrimaryFolio r v now d)) d' \<Longrightarrow> keeps d d'"
  by (rule keeps_trans[OF ensurePrimary_snd])

lemma packages_still: "(if c then postPackagesToday D r day u now h else Inr h) = Inr h' \<Longrightarrow> still h h'"
  by (auto simp: postPackagesToday_def postPackageCharges_def read_handler split: if_split_asm intro!: still_db elim!: bill_then[OF postPackages_keeps])

lemma setPackages_same: "setPackages D tzo i ids u now h = Inr (r, h') \<Longrightarrow> same_desk h h'"
  unfolding setPackages_def
  by (clarsimp simp: read_handler)
    (drule packages_still, drule still_desk, rule same_desk_trans, erule set_same; (assumption | simp add: party_def))

lemma reverseNoShow_still: "(if c then Inr h else reverseNoShowPenalty labelled rec r u now h) = Inr h' \<Longrightarrow> still h h'"
  by (auto simp: reverseNoShowPenalty_def read_handler settle_still split: if_split_asm option.split_asm intro!: settle_still elim!: bill_then[OF reverse_keeps])

lemma waive_still: "waiveNoShowPenaltyInTx labelled rec u now h = Inr h' \<Longrightarrow> still h h'"
  by (cases "ns_waived rec") (auto simp: waiveNoShowPenaltyInTx_def Let_def res_simps dest!: reverseNoShow_still elim!: still_trans[rotated])

lemma waiveLatest_still: "(if c then Inr h else waiveLatestPenalty labelled i u now h) = Inr h' \<Longrightarrow> still h h'"
  by (auto simp: waiveLatestPenalty_def waive_still split: if_split_asm option.split_asm)

section \<open>Handlers that turn a status\<close>

lemma set_turn:
  assumes "findReservationOrThrow h i = Inr r" "still h k" "turns (re_status r) (re_status (f r))" "re_room (f r) = re_room r"
    and "\<And>r. re_id (f r) = re_id r" "\<And>r. re_deleted (f r) = re_deleted r"
  shows "moves h (set_stay i f k)"
  using still_moves[OF assms(2)] moves_turn[of k i r "re_status (f r)" f] assms still_find[OF assms(2)] by (auto intro: moves_trans)

lemma promote_moves: "promoteFromWaitlist D tzo i u now h = Inr (r, h') \<Longrightarrow> moves h h'"
  unfolding promoteFromWaitlist_def
  by (clarsimp simp: Let_def res_simps split: if_split_asm prod.splits) (erule set_turn; simp add: turns_def)

lemma refundWalked_still: "refundWalked D i actor h = Inr (x, h') \<Longrightarrow> still h h'"
  by (auto simp: refundWalked_def Let_def res_simps split: option.split_asm if_split_asm dest: on_db_still[OF _ request_keeps])

lemma walkReservation_moves: "walkReservation D i dto actor h = Inr (r, x, h') \<Longrightarrow> moves h h'"
  unfolding walkReservation_def
  by (clarsimp simp: Let_def res_simps split: if_split_asm prod.splits)
    (rule moves_trans[OF _ still_moves[OF refundWalked_still]], erule set_turn; simp add: turns_def)

lemma chargePenalty_still: "(if c then chargePenalty D r q u now h else Inr (0, h)) = Inr (x, h') \<Longrightarrow> still h h'"
  by (auto simp: chargePenalty_def read_handler split: if_split_asm intro!: settle_still elim!: bill_then[OF postAdHoc_keeps])

lemma cancel_moves: "cancelInTx D tzo i opts now h = Inr (r, x, h') \<Longrightarrow> moves h h'"
  unfolding cancelInTx_def
  by (clarsimp simp: read_handler CANCELLABLE_STATUSES_def)
    (drule chargePenalty_still, drule still_moves, rule moves_trans[rotated], assumption, erule set_turn; (erule disjE)?; simp add: turns_def)

lemma postPenalty_keeps: "postPenalty D r folio x u d = Inr (l, d') \<Longrightarrow> keeps d d'"
  by (auto simp: postPenalty_def split: option.split_asm if_split_asm elim!: postAdHoc_keeps)

lemma markNoShowInTx_set:
  assumes "markNoShowInTx D r p fee u now h = Inr (rec, h')"
  shows "still (set_stay (re_id r) (re_status_update (\<lambda>_. No_show)) h) h'"
  using assms unfolding markNoShowInTx_def
  by (clarsimp simp: read_handler) (auto simp: settle_keeps intro!: still_db still_bump elim!: bill_then[OF postPenalty_keeps])

lemma markNoShowInTx_moves:
  assumes "markNoShowInTx D r p fee u now h = Inr (rec, h')" "findReservationOrThrow h (re_id r) = Inr r'" "re_status r' = Confirmed"
  shows "moves h h'"
proof -
  have "moves h (set_stay (re_id r) (re_status_update (\<lambda>_. No_show)) h)"
    by (rule set_turn[OF assms(2)]) (simp_all add: assms(3) turns_def)
  with still_moves[OF markNoShowInTx_set[OF assms(1)]] show ?thesis by (rule moves_trans[rotated])
qed

lemma markNoShow_moves: "markNoShow D tzo i u now h = Inr (rec, h') \<Longrightarrow> moves h h'"
  unfolding markNoShow_def by (clarsimp simp: read_handler) (erule markNoShowInTx_moves, auto dest: find_stay)

lemma reinstate_moves: "reinstateFromNoShow D tzo labelled i a b w u now h = Inr (r, h') \<Longrightarrow> moves h h'"
  unfolding reinstateFromNoShow_def
  by (clarsimp simp: read_handler)
    (drule waiveLatest_still, drule still_moves, drule resolveStay_still, rule moves_trans[rotated], assumption, erule set_turn; (assumption | simp add: turns_def))

section \<open>Arrivals and departures\<close>

lemma arrive_moves:
  assumes occ: "applyReservationOccupancy x Occupied c a (set_stay i f h) = Inr h'"
    and r: "findReservationOrThrow h i = Inr r" "re_status r = Confirmed" and room: "findRoom h x = Inr room" "rm_occupancy room = Vacant"
    and f: "\<And>r. re_id (f r) = re_id r" "\<And>r. re_deleted (f r) = re_deleted r" "re_status (f r) = Checked_in" "re_room (f r) = Some x"
  shows "moves h h'"
  unfolding moves_def
proof
  assume k: "keyed h"
  have "desk h' = \<lparr>dk_stays = (dk_stays (desk h))(i \<mapsto> (Checked_in, Some x)), dk_taken = insert x (dk_taken (desk h))\<rparr>"
    using occupancy_desk(1)[OF occ] set_stay_desk[OF r(1) f(1,2)] f(3,4) by simp
  moreover have "x \<notin> dk_taken (desk h)" using vacant_free[OF k room] .
  ultimately have "desk_step (desk h) (desk h')" using find_stay[OF r(1)] r(2) desk_step.arrive[of "desk h" i "re_room r" x] by simp
  moreover have "keyed h'" using occupancy_desk(2)[OF occ] set_stay_keyed[of f] f(1) k by simp
  ultimately show "keyed h' \<and> desk_step\<^sup>*\<^sup>* (desk h) (desk h')" by simp
qed

lemma vacate_desk:
  assumes "vacate b x t i today u h = Inr h'"
  shows "desk h' = desk h\<lparr>dk_taken := dk_taken (desk h) - {x}\<rparr>" "keyed h \<Longrightarrow> keyed h'"
proof -
  from assms obtain h1 task t' where o: "applyReservationOccupancy x Vacant (Some Dirty) (Some u) h = Inr h1"
    and t: "createTaskInTx b task (snd (supersedeStayoverTasksInTx b x (Some u) h1)) = Inr (t', h')"
    by (auto simp: vacate_def read_handler)
  have "same_desk h1 h'" using still_trans[OF supersede_still[OF prod.collapse[symmetric]] createTask_still[OF t]] by (rule still_desk)
  then show "desk h' = desk h\<lparr>dk_taken := dk_taken (desk h) - {x}\<rparr>" "keyed h \<Longrightarrow> keyed h'"
    using occupancy_desk[OF o] by (simp_all add: same_desk_def)
qed

lemma leave_moves:
  assumes v: "vacate b x t i' today u (set_stay i f h) = Inr h'"
    and r: "findReservationOrThrow h i = Inr r" "re_status r = Checked_in" "re_room r = Some x"
    and f: "\<And>r. re_id (f r) = re_id r" "\<And>r. re_deleted (f r) = re_deleted r" "re_status (f r) = Checked_out" "re_room (f r) = re_room r"
  shows "moves h h'"
  unfolding moves_def
proof
  assume k: "keyed h"
  have "desk h' = \<lparr>dk_stays = (dk_stays (desk h))(i \<mapsto> (Checked_out, Some x)), dk_taken = dk_taken (desk h) - {x}\<rparr>"
    using vacate_desk(1)[OF v] set_stay_desk[OF r(1) f(1,2)] f(3,4) r(3) by simp
  then have "desk_step (desk h) (desk h')" using find_stay[OF r(1)] r(2,3) desk_step.leave[of "desk h" i x] by simp
  moreover have "keyed h'" using vacate_desk(2)[OF v] set_stay_keyed[of f] f(1) k by simp
  ultimately show "keyed h' \<and> desk_step\<^sup>*\<^sup>* (desk h) (desk h')" by simp
qed

lemma move_moves:
  assumes v: "vacate b y t i' today u (set_stay i f h1) = Inr h2" and occ: "applyReservationOccupancy x Occupied c a h2 = Inr h'"
    and r: "findReservationOrThrow h i = Inr r" "re_status r = Checked_in" "re_room r = Some y" and s: "still h h1"
    and room: "findRoom h x = Inr room" "rm_occupancy room = Vacant"
    and f: "\<And>r. re_id (f r) = re_id r" "\<And>r. re_deleted (f r) = re_deleted r" "re_status (f r) = Checked_in" "re_room (f r) = Some x"
  shows "moves h h'"
  unfolding moves_def
proof
  assume k: "keyed h"
  note d = still_desk[OF s, unfolded same_desk_def]
  have "findReservationOrThrow h1 i = Inr r" using r(1) still_find[OF s] by simp
  then have "desk h' = \<lparr>dk_stays = (dk_stays (desk h))(i \<mapsto> (Checked_in, Some x)), dk_taken = insert x (dk_taken (desk h) - {y})\<rparr>"
    using occupancy_desk(1)[OF occ] vacate_desk(1)[OF v] set_stay_desk[of h1 i r f] f d by simp
  moreover have "x \<notin> dk_taken (desk h)" using vacant_free[OF k room] .
  ultimately have "desk_step (desk h) (desk h')" using find_stay[OF r(1)] r(2,3) desk_step.move[of "desk h" i y x] by simp
  moreover have "keyed h'" using occupancy_desk(2)[OF occ] vacate_desk(2)[OF v] set_stay_keyed[of f] f(1) k d by simp
  ultimately show "keyed h' \<and> desk_step\<^sup>*\<^sup>* (desk h) (desk h')" by simp
qed

lemma ready_vacant: "assertRoomCheckInReady h room b rt i out = Inr () \<Longrightarrow> rm_occupancy room = Vacant"
  by (auto simp: assertRoomCheckInReady_def split: if_split_asm)

lemma typeGiven_party:
  "(if c then typeGiven D tzo r room reason now h else Inr id) = Inr f \<Longrightarrow> \<forall>x. party (f x) = party x \<and> re_deleted (f x) = re_deleted x"
  by (auto simp: typeGiven_def party_def read_handler split: if_split_asm)

lemma registered_still:
  "still h (if c then recordIdDocumentInTx b g u h else h)" "still h k \<Longrightarrow> still h (generateCardInTx r u k)"
  by (simp_all add: still_trans[OF _ generateCard_still])

lemma checkIn_moves: "checkInInTx D tzo i dto u now h = Inr (r, h') \<Longrightarrow> moves h h'"
  unfolding checkInInTx_def
  by (clarsimp simp: read_handler split del: if_split,
      drule openBill_still, drule ready_vacant, drule typeGiven_party,
      rule moves_trans[rotated], rule still_moves, rule registered_still(2), rule registered_still(1),
      rule moves_trans[rotated], erule still_moves,
      erule arrive_moves, assumption+, simp_all add: party_def)

lemma billed_still:
  assumes "on_db (backfillRoomCharges D r folio t a) (h\<lparr>ho_db := snd (ensurePrimaryFolio r' v now (ho_db h))\<rparr>) = Inr (n, h')"
  shows "still h h'"
proof -
  have "still h (h\<lparr>ho_db := snd (ensurePrimaryFolio r' v now (ho_db h))\<rparr>)" by (intro still_db) simp_all
  also have "still \<dots> h'" by (rule on_db_still[OF assms]) (rule backfill_keeps)
  finally show ?thesis .
qed

lemma chargeFees_still: "chargeFees D r folio t w u fees h = Inr h' \<Longrightarrow> still h h'"
  by (auto simp: chargeFees_def res_simps split: if_split_asm intro!: still_db elim!: postFees_keeps)

lemma earned_still:
  assumes "earnForStayInTx D r a now (h\<lparr>ho_db := snd (settleIfFullyPaid folio v now (ho_db h))\<rparr>) = Inr (n, h')"
  shows "still h h'"
  using still_trans[OF settle_still[OF keeps_refl] earn_still[OF assms]] .

lemma checkOut_moves: "checkOut D tzo i waive reason actor now h = Inr (r, h') \<Longrightarrow> moves h h'"
  unfolding checkOut_def
  by (clarsimp simp: read_handler split del: if_split,
      drule billed_still, drule chargeFees_still, drule earned_still,
      rule moves_trans[rotated], rule still_moves, rule still_trans, erule still_trans, assumption+,
      erule leave_moves, assumption+, simp_all)

lemma assertMovable_Inr: "assertMovable r = Inr x \<Longrightarrow> re_room r = Some x \<and> re_status r = Checked_in"
  by (auto simp: assertMovable_def split: option.split_asm if_split_asm)

lemma moveRate_sel [simp]: "re_id (moveRate D r t p c reason x) = re_id x" "re_deleted (moveRate D r t p c reason x) = re_deleted x"
  "re_status (moveRate D r t p c reason x) = re_status x" "re_room (moveRate D r t p c reason x) = re_room x"
  by (simp_all add: moveRate_def)

lemma roomMovePlan_still: "roomMovePlan D tzo r t persist u now h = Inr (p, h') \<Longrightarrow> still h h'"
  unfolding roomMovePlan_def by (clarsimp simp: read_handler) (auto simp: read_handler split: list.split_asm dest: resolveStay_still)

lemma moveRoom_moves: "moveRoom D tzo i room reason c u now h = Inr (r, h') \<Longrightarrow> moves h h'"
  unfolding moveRoom_def
  by (clarsimp simp: read_handler split del: if_split,
      drule billed_still, drule roomMovePlan_still, drule (1) still_trans, drule turndown_still, drule ready_vacant, drule assertMovable_Inr,
      rule moves_trans[rotated], erule still_moves,
      erule move_moves, assumption+, simp_all)

section \<open>New stays\<close>

lemma createRow_Inr:
  "createReservationRow n now row h = Inr (r, h') \<Longrightarrow>
     \<exists>h1 c. still h h1 \<and> r = row\<lparr>re_confirmation := c, re_id := fresh h1\<rparr> \<and> h' = ho_db_update (\<lambda>d. d\<lparr>db_reservations := db_reservations d @ [r]\<rparr>) (bump h1)"
proof (induction n now row h rule: createReservationRow.induct)
  case (2 left now row h)
  show ?case
  proof (cases "\<exists>r \<in> set (ho_stays h). re_confirmation r = re_confirmation row")
    case True
    obtain c k where g: "generateConfirmationNumber now h = (c, k)" by fastforce
    with True 2(2) have "left \<noteq> 0" "createReservationRow left now (row\<lparr>re_confirmation := c\<rparr>) k = Inr (r, h')" by (auto split: if_split_asm)
    with 2(1)[OF True _ g[symmetric] refl] obtain h1 c' where "still k h1" "r = row\<lparr>re_confirmation := c', re_id := fresh h1\<rparr>"
      "h' = ho_db_update (\<lambda>d. d\<lparr>db_reservations := db_reservations d @ [r]\<rparr>) (bump h1)" by auto
    then show ?thesis using still_trans[OF generateNumber_still[OF g]] by blast
  next
    case False
    with 2(2) show ?thesis by (intro exI[of _ h] exI[of _ "re_confirmation row"]) (auto simp: Let_def)
  qed
qed simp

lemma append_desk:
  assumes "keyed h" "re_id r = fresh h" "\<not> re_deleted r"
  defines "h' \<equiv> ho_db_update (\<lambda>d. d\<lparr>db_reservations := db_reservations d @ [r]\<rparr>) (bump h)"
  shows "desk h' = desk h\<lparr>dk_stays := (dk_stays (desk h))(re_id r \<mapsto> (re_status r, re_room r))\<rparr>" "keyed h'" "re_id r \<notin> dom (dk_stays (desk h))"
proof -
  have "\<forall>x \<in> set (ho_stays h). re_id x \<noteq> re_id r" using assms(1,2) by (auto simp: keyed_def)
  then show "re_id r \<notin> dom (dk_stays (desk h))" by (auto simp: desk_def party_def dom_map_of_conv_image_fst)
  then show "desk h' = desk h\<lparr>dk_stays := (dk_stays (desk h))(re_id r \<mapsto> (re_status r, re_room r))\<rparr>"
    using assms(3) by (auto simp: desk_def h'_def party_def map_add_def fun_eq_iff split: option.split)
  show "keyed h'" using assms(1,2) by (auto simp: keyed_def h'_def fresh_def)
qed

lemma book_moves:
  assumes row: "createReservationRow n now row h = Inr (r, h')" and s: "re_status row \<in> {Waitlisted, Confirmed}" "re_room row = None" "\<not> re_deleted row"
  shows "moves h h'"
proof -
  from createRow_Inr[OF row] obtain h1 c where h1: "still h h1" and r: "r = row\<lparr>re_confirmation := c, re_id := fresh h1\<rparr>"
    and h': "h' = ho_db_update (\<lambda>d. d\<lparr>db_reservations := db_reservations d @ [r]\<rparr>) (bump h1)" by blast
  have "moves h1 h'"
    unfolding moves_def
  proof
    assume "keyed h1"
    note a = append_desk[OF this, of r, folded h']
    have "desk_step (desk h1) (desk h')" using a desk_step.book[of "re_id r" "desk h1" "re_status r"] s by (simp add: r)
    then show "keyed h' \<and> desk_step\<^sup>*\<^sup>* (desk h1) (desk h')" using a(2) s(3) by (simp add: r)
  qed
  with still_moves[OF h1] show ?thesis by (rule moves_trans)
qed

lemma walked_in_moves:
  assumes row: "createReservationRow n now row h = Inr (r, h')" and occ: "applyReservationOccupancy x Occupied c a h2 = Inr h3"
    and s: "re_status row = Checked_in" "re_room row = Some x" "\<not> re_deleted row" and h2: "still h' h2" and h0: "still h0 h"
    and room: "findRoom h0 x = Inr rm" "rm_occupancy rm = Vacant"
  shows "moves h0 h3"
  unfolding moves_def
proof
  assume k: "keyed h0"
  from createRow_Inr[OF row] obtain h1 n where h1: "still h h1" and r: "r = row\<lparr>re_confirmation := n, re_id := fresh h1\<rparr>"
    and h': "h' = ho_db_update (\<lambda>d. d\<lparr>db_reservations := db_reservations d @ [r]\<rparr>) (bump h1)" by blast
  have same: "desk h1 = desk h0" "keyed h1" "desk h2 = desk h'" "keyed h' \<Longrightarrow> keyed h2"
    using still_desk[OF still_trans[OF h0 h1]] still_desk[OF h2] k by (simp_all add: same_desk_def)
  note a = append_desk[OF same(2), of r, folded h']
  have "desk h3 = \<lparr>dk_stays = (dk_stays (desk h0))(re_id r \<mapsto> (Checked_in, Some x)), dk_taken = insert x (dk_taken (desk h0))\<rparr>"
    using occupancy_desk(1)[OF occ] a(1) same s by (simp add: r)
  then have "desk_step (desk h0) (desk h3)"
    using desk_step.walk_in[of "re_id r" "desk h0" x] a(3) vacant_free[OF k room] same s(3) by (simp add: r)
  moreover have "keyed h3" using occupancy_desk(2)[OF occ] same(4) a(2) s(3) by (simp add: r)
  ultimately show "keyed h3 \<and> desk_step\<^sup>*\<^sup>* (desk h0) (desk h3)" by simp
qed

lemma resolved_still:
  "(if c then Inr (None, h) else bindr (resolveStay D b rt i out deal ctx h) (\<lambda>(resolved, h). Inr (Some resolved, h))) = Inr (x, h') \<Longrightarrow> still h h'"
  by (auto simp: read_handler split: if_split_asm dest: resolveStay_still)

lemma numbered_still: "still h (snd (generateConfirmationNumber now h))"
  by (rule generateNumber_still) (rule prod.collapse[symmetric])

lemma linked_still: "still h (case res of None \<Rightarrow> h | Some x \<Rightarrow> linkAuditLogsToReservation (sr_logIds x) i h)"
  by (simp split: option.split)

lemma create_moves: "createReservation D tzo recent b dto u g pub now h = Inr (r, h') \<Longrightarrow> moves h h'"
  unfolding createReservation_def
  by (clarsimp simp: read_handler split del: if_split, unfold fst_conv snd_conv,
      drule findGuest_still, drule resolved_still, drule (1) still_trans,
      rule moves_trans, rule still_moves, erule still_trans[OF _ numbered_still],
      rule moves_trans, erule book_moves, simp_all add: still_moves linked_still)

lemma walkIn_moves: "walkIn D tzo recent b dto u now h = Inr (r, h') \<Longrightarrow> moves h h'"
  unfolding walkIn_def
  by (clarsimp simp: read_handler split del: if_split, unfold fst_conv snd_conv,
      drule findGuest_still, drule resolved_still, drule openBill_still, drule ready_vacant,
      rule moves_trans[rotated], rule still_moves, rule registered_still(2), rule registered_still(1),
      rule moves_trans[rotated], erule still_moves,
      rule moves_trans, erule still_moves,
      erule walked_in_moves, assumption, simp_all add: linked_still still_trans[OF _ numbered_still])

section \<open>A group arrives\<close>

lemma checkInAll_moves: "checkInAll D tzo as u now h = Inr (rs, h') \<Longrightarrow> moves h h'"
proof (induction D tzo as u now h arbitrary: rs rule: checkInAll.induct)
  case (2 D tzo i room rest u now h)
  from 2(2) obtain r k rs' where k: "checkInInTx D tzo i \<lparr>ck_room = Some room, ck_idDocument = False, ck_overrideReason = None\<rparr> u now h = Inr (r, k)"
    and rest: "checkInAll D tzo rest u now k = Inr (rs', h')" by (auto simp: read_handler)
  from checkIn_moves[OF k] 2(1)[OF k refl rest] show ?case by (rule moves_trans)
qed simp

lemma billTo_same: "same_desk h (ho_db_update (\<lambda>d. d\<lparr>db_reservations := map (\<lambda>r. if re_id r \<in> I then r\<lparr>re_billToFolio := f\<rparr> else r) (db_reservations d)\<rparr>) h)"
proof -
  let ?g = "\<lambda>r. if re_id r \<in> I then r\<lparr>re_billToFolio := f\<rparr> else r"
  have "map party (filter (\<lambda>r. \<not> re_deleted r) (map ?g rs)) = map party (filter (\<lambda>r. \<not> re_deleted r) rs)" "map re_id (map ?g rs) = map re_id rs" for rs
    by (induction rs) (auto simp: party_def)
  then show ?thesis by (simp add: same_desk_def desk_def keyed_def fresh_def del: map_map set_map)
qed

lemma checkInGroup_moves: "checkInGroup D tzo g as master u now h = Inr (rs, m, h') \<Longrightarrow> moves h h'"
proof -
  assume c: "checkInGroup D tzo g as master u now h = Inr (rs, m, h')"
  have "moves h k" if "(case master of
              None \<Rightarrow> Inr (None, h)
            | Some leadId \<Rightarrow>
                (case List.find (\<lambda>r. re_id r = leadId \<and> re_groupBlock r = Some g \<and> \<not> re_deleted r) (ho_stays h) of
                   None \<Rightarrow> Inl (BadRequest VALIDATION_FAILED)
                 | Some lead \<Rightarrow>
                     bindr (on_db (createAdditionalFolio (re_id lead) (take 100 (''Group - '' @ gb_name block)) (gb_contactName block) None u now) h) (\<lambda>(master, h).
                       Inr (Some (fo_id master),
                         ho_db_update (\<lambda>d. d\<lparr>db_reservations := map (\<lambda>r. if re_id r \<in> set (map fst as) then r\<lparr>re_billToFolio := Some (fo_id master)\<rparr> else r) (db_reservations d)\<rparr>) h)))) = Inr (mm, k)" for block mm k
    using that by (auto simp: read_handler split: option.split_asm
        intro!: moves_trans[OF still_moves[OF on_db_still] same_moves[OF billTo_same]] elim: createFolio_keeps)
  with c show ?thesis
    unfolding checkInGroup_def by (clarsimp simp: read_handler split del: if_split) (blast intro: moves_trans checkInAll_moves)
qed

section \<open>The night audit\<close>

lemma postNight_still: "postNight D date u now r h = Inr (l, h') \<Longrightarrow> still h h'"
proof -
  assume "postNight D date u now r h = Inr (l, h')"
  then have p: "on_db (postRoomChargeForDate D r (fst (ensurePrimaryFolio r u now (ho_db h))) date u) (h\<lparr>ho_db := snd (ensurePrimaryFolio r u now (ho_db h))\<rparr>) = Inr (l, h')"
    by (simp add: postNight_def split_beta)
  have "still h (h\<lparr>ho_db := snd (ensurePrimaryFolio r u now (ho_db h))\<rparr>)" by (intro still_db) simp_all
  also have "still \<dots> h'" by (rule on_db_still[OF p]) (rule postDate_keeps)
  finally show ?thesis .
qed

lemma raiseTasks_still: "raiseTasks b scope date r room h = Inr (n, h') \<Longrightarrow> still h h'"
  by (auto simp: raiseTasks_def read_handler split: if_split_asm dest!: ensureStayover_still ensureTurndown_still elim: still_trans)

lemma closeStay_still: "still h (snd (closeStay D b date scope u now r (bd, h)))"
proof -
  obtain bd1 k where k: "(case postNight D date u now r h of Inl _ \<Rightarrow> (bd\<lparr>bd_errors := bd_errors bd @ [re_id r]\<rparr>, h)
      | Inr (None, h) \<Rightarrow> (bd\<lparr>bd_processed := Suc (bd_processed bd)\<rparr>, h)
      | Inr (Some line, h) \<Rightarrow> (bd\<lparr>bd_processed := Suc (bd_processed bd), bd_posted := Suc (bd_posted bd),
                 bd_amount := bd_amount bd + li_amount line + li_taxAmount line\<rparr>, h)) = (bd1, k)" by fastforce
  then have "still h k" by (auto split: sum.split_asm option.split_asm prod.split_asm dest: postNight_still)
  moreover have "still k (snd (closeStay D b date scope u now r (bd, h)))"
    using k by (auto simp: closeStay_def Let_def split: option.split sum.split prod.split dest: raiseTasks_still)
  ultimately show ?thesis by (rule still_trans)
qed

lemma closeBatch_still: "still h (snd (closeBatch D b date l scope u lost now ids (run, h)))"
proof -
  have "still h (snd (fold (closeStay D b date scope u now) rs (bd, k)))" if "still h k" for rs bd k
    using that
  proof (induction rs arbitrary: bd k)
    case (Cons r rs)
    obtain bd1 k' where c: "closeStay D b date scope u now r (bd, k) = (bd1, k')" by fastforce
    have "still h k'" using still_trans[OF Cons.prems closeStay_still[of k D b date scope u now r bd]] c by simp
    with Cons.IH show ?case by (simp add: c)
  qed simp
  from this[of h] show ?thesis by (auto simp: closeBatch_def Let_def split_beta)
qed

end
