(* ===== verification/Stay_Lifecycle.thy ===== *)
theory Stay_Lifecycle
  imports Stay_Moves
begin

text \<open>
  The handlers of stays and the night audit as one relation on the house, and what holds of any
  sequence of them.
\<close>

section \<open>The night audit moves the desk\<close>

lemma desk_find: "dk_stays (desk h) i = Some (s, y) \<Longrightarrow> \<exists>r. findReservationOrThrow h i = Inr r \<and> re_status r = s \<and> re_room r = y"
proof -
  have "map_of (map party (filter (\<lambda>r. \<not> re_deleted r) rs)) i = Some (s, y) \<Longrightarrow>
      \<exists>r. List.find (\<lambda>r. re_id r = i \<and> \<not> re_deleted r) rs = Some r \<and> re_status r = s \<and> re_room r = y" for rs
    by (induction rs) (auto simp: party_def split: if_split_asm)
  then show "dk_stays (desk h) i = Some (s, y) \<Longrightarrow> \<exists>r. findReservationOrThrow h i = Inr r \<and> re_status r = s \<and> re_room r = y"
    by (fastforce simp: findReservationOrThrow_def desk_def)
qed

lemma desk_row: "keyed h \<Longrightarrow> r \<in> set (ho_stays h) \<Longrightarrow> \<not> re_deleted r \<Longrightarrow> dk_stays (desk h) (re_id r) = Some (re_status r, re_room r)"
proof -
  assume k: "keyed h" "r \<in> set (ho_stays h)" "\<not> re_deleted r"
  have "distinct (map fst (map party (filter (\<lambda>r. \<not> re_deleted r) (ho_stays h))))"
    using k(1) by (simp add: keyed_def comp_def party_def distinct_map_filter)
  moreover have "(re_id r, re_status r, re_room r) \<in> set (map party (filter (\<lambda>r. \<not> re_deleted r) (ho_stays h)))"
    using k(2,3) by (force simp: party_def)
  ultimately show ?thesis by (simp add: desk_def map_of_is_SomeI)
qed

lemma markOne_desk:
  assumes "dk_stays (desk h) (re_id r) = Some (Confirmed, y)"
  shows "moves h (snd (snd (markOne D p fee u now r (n, es, h))))"
    and "i \<noteq> re_id r \<Longrightarrow> dk_stays (desk (snd (snd (markOne D p fee u now r (n, es, h))))) i = dk_stays (desk h) i"
proof -
  from desk_find[OF assms] obtain r' where r': "findReservationOrThrow h (re_id r) = Inr r'" "re_status r' = Confirmed" by blast
  show "moves h (snd (snd (markOne D p fee u now r (n, es, h))))"
    using markNoShowInTx_moves[OF _ r'] by (auto simp: markOne_def Let_def split: sum.split)
  show "dk_stays (desk (snd (snd (markOne D p fee u now r (n, es, h))))) i = dk_stays (desk h) i" if "i \<noteq> re_id r"
  proof (cases "markNoShowInTx D r p fee u now h")
    case (Inr x)
    obtain rec h' where x: "x = (rec, h')" by fastforce
    have "desk h' = desk (set_stay (re_id r) (re_status_update (\<lambda>_. No_show)) h)"
      using still_desk[OF markNoShowInTx_set[of D r p fee u now h rec h']] Inr x by (simp add: same_desk_def)
    with that Inr x set_stay_desk[OF r'(1), of "re_status_update (\<lambda>_. No_show)"] show ?thesis by (simp add: markOne_def)
  qed (simp add: markOne_def)
qed

lemma marks_move:
  assumes "distinct (map re_id rs)" "\<forall>r \<in> set rs. \<exists>y. dk_stays (desk h) (re_id r) = Some (Confirmed, y)"
  shows "moves h (snd (snd (fold (markOne D p fee u now) rs (n, es, h))))"
  using assms
proof (induction rs arbitrary: h n es)
  case (Cons r rs)
  obtain n' es' h' where m: "markOne D p fee u now r (n, es, h) = (n', es', h')" by (metis prod_cases3)
  from Cons.prems obtain y where y: "dk_stays (desk h) (re_id r) = Some (Confirmed, y)" by auto
  have "moves h h'" using markOne_desk(1)[OF y, of D p fee u now n es] m by simp
  also have "moves h' (snd (snd (fold (markOne D p fee u now) rs (n', es', h'))))"
  proof (rule Cons.IH)
    show "\<forall>q \<in> set rs. \<exists>y. dk_stays (desk h') (re_id q) = Some (Confirmed, y)"
      using Cons.prems markOne_desk(2)[OF y, of _ D p fee u now n es] m by (auto simp: image_iff)
  qed (use Cons.prems in simp)
  finally show ?case by (simp add: m)
qed simp

lemma markBatch_moves: "moves h (snd (markBatch D b date p fee u lost now ids (run, h)))"
  unfolding moves_def
proof
  assume k: "keyed h"
  let ?rs = "filter (\<lambda>r. re_id r \<in> set ids \<and> unarrived b date r) (ho_stays h)"
  have "distinct (map re_id ?rs)" using k by (simp add: keyed_def distinct_map_filter)
  moreover have "\<forall>r \<in> set ?rs. \<exists>y. dk_stays (desk h) (re_id r) = Some (Confirmed, y)"
    using desk_row[OF k] by (auto simp: unarrived_def)
  ultimately have "moves h (snd (snd (fold (markOne D p fee u now) ?rs (0, [], h))))" by (rule marks_move)
  then have "moves h (snd (markBatch D b date p fee u lost now ids (run, h)))" by (auto simp: markBatch_def Let_def split_beta)
  with k show "keyed (snd (markBatch D b date p fee u lost now ids (run, h))) \<and> desk_step\<^sup>*\<^sup>* (desk h) (desk (snd (markBatch D b date p fee u lost now ids (run, h))))"
    by (simp add: moves_def)
qed

lemma fold_moves:
  assumes "\<And>x run h. moves h (snd (f x (run, h)))"
  shows "moves h (snd (fold f xs (run, h)))"
proof (induction xs arbitrary: run h)
  case (Cons x xs)
  obtain run' h' where "f x (run, h) = (run', h')" by fastforce
  with assms[where x = x and run = run and h = h] Cons.IH[of h' run'] show ?case by (auto intro: moves_trans)
qed simp

lemma claimRun_still: "claimRun tzo b d u now h = Inr (c, h') \<Longrightarrow> still h h'"
  by (auto simp: claimRun_def read_handler still_bump split: option.split_asm if_split_asm)

lemma markNoShows_moves: "moves h (snd (markNoShows D b date u lost now (run, h)))"
  unfolding markNoShows_def Let_def by (simp add: fold_moves markBatch_moves)

lemma runAudit_moves: "runAudit D tzo b d u lost now h = Inr (run, status, h') \<Longrightarrow> moves h h'"
proof -
  assume "runAudit D tzo b d u lost now h = Inr (run, status, h')"
  then obtain c h1 scope ids start l lf where c: "claimRun tzo b d u now h = Inr (c, h1)"
    and h': "h' = set_log l lf (snd (markNoShows D b (toBranchDate d) u lost now
      (fold (closeBatch D b (toBranchDate d) (rn_log c) scope u lost now) ids (start, h1))))"
    by (auto simp: runAudit_def read_handler)
  have "moves h h1" by (rule still_moves[OF claimRun_still[OF c]])
  also have "moves h1 (snd (fold (closeBatch D b (toBranchDate d) (rn_log c) scope u lost now) ids (start, h1)))"
    by (intro fold_moves still_moves closeBatch_still)
  also have "moves \<dots> (snd (markNoShows D b (toBranchDate d) u lost now (fold (closeBatch D b (toBranchDate d) (rn_log c) scope u lost now) ids (start, h1))))"
    by (metis markNoShows_moves prod.collapse)
  also have "moves \<dots> h'" unfolding h' by (intro still_moves) simp
  finally show ?thesis .
qed

lemma auditDates_moves: "moves h (auditDates D tzo b lost now ds h)"
proof (induction ds arbitrary: h)
  case (Cons d ds)
  then show ?case by (auto split: sum.split prod.split dest!: runAudit_moves intro: moves_trans)
qed simp

lemma sweep_moves: "moves h (runScheduledSweep D tzo hour lost now h)"
proof -
  have "moves h (fold (\<lambda>br h. if localHour tzo (br_timezone br) now < hour then h
      else auditDates D tzo (br_id br) lost now (datesToAuditInTx tzo (br_id br) (br_timezone br) now h) h) brs h)" for brs
    by (induction brs arbitrary: h) (auto intro: moves_trans[OF auditDates_moves])
  then show ?thesis by (simp add: runScheduledSweep_def)
qed

section \<open>Steps\<close>

inductive stay_step :: "decimal_lib \<Rightarrow> tz_offset \<Rightarrow> house \<Rightarrow> house \<Rightarrow> bool" for D tzo where
  create: "createReservation D tzo recent b dto u g pub now h = Inr (r, h') \<Longrightarrow> stay_step D tzo h h'"
| walkIn: "walkIn D tzo recent b wdto u now h = Inr (r, h') \<Longrightarrow> stay_step D tzo h h'"
| checkIn: "checkIn D tzo i cdto u now h = Inr (r, h') \<Longrightarrow> stay_step D tzo h h'"
| checkInGroup: "checkInGroup D tzo g as master u now h = Inr (rs, m, h') \<Longrightarrow> stay_step D tzo h h'"
| checkOut: "checkOut D tzo i waive why actor now h = Inr (r, h') \<Longrightarrow> stay_step D tzo h h'"
| cancel: "cancel D tzo i ack u now h = Inr (r, x, h') \<Longrightarrow> stay_step D tzo h h'"
| cancelWaived: "cancelWithWaiver D tzo i reason ack u now h = Inr (r, x, h') \<Longrightarrow> stay_step D tzo h h'"
| noShow: "markNoShow D tzo i u now h = Inr (rec, h') \<Longrightarrow> stay_step D tzo h h'"
| waive: "waiveNoShowPenalty labelled i u now h = Inr h' \<Longrightarrow> stay_step D tzo h h'"
| reinstate: "reinstateFromNoShow D tzo labelled i a b w u now h = Inr (r, h') \<Longrightarrow> stay_step D tzo h h'"
| modify: "modifyReservation D tzo i mdto u now h = Inr (r, h') \<Longrightarrow> stay_step D tzo h h'"
| promote: "promoteFromWaitlist D tzo i u now h = Inr (r, h') \<Longrightarrow> stay_step D tzo h h'"
| override: "setRateOverride D i rate reason u h = Inr (r, h') \<Longrightarrow> stay_step D tzo h h'"
| packages: "setPackages D tzo i ids u now h = Inr (r, h') \<Longrightarrow> stay_step D tzo h h'"
| extend: "extendStay D tzo i out u now h = Inr (r, h') \<Longrightarrow> stay_step D tzo h h'"
| moveRoom: "moveRoom D tzo i room reason charge u now h = Inr (r, h') \<Longrightarrow> stay_step D tzo h h'"
| walk: "walkReservation D i kdto actor h = Inr (r, x, h') \<Longrightarrow> stay_step D tzo h h'"
| audit: "runAudit D tzo b d u' lost now h = Inr (run, status, h') \<Longrightarrow> stay_step D tzo h h'"
| sweep: "stay_step D tzo h (runScheduledSweep D tzo hour lost now h)"

lemmas handler_moves = create_moves walkIn_moves checkIn_moves checkInGroup_moves checkOut_moves cancel_moves markNoShow_moves reinstate_moves
  promote_moves moveRoom_moves walkReservation_moves runAudit_moves sweep_moves
  same_moves[OF modify_same] same_moves[OF setRateOverride_same] same_moves[OF setPackages_same] same_moves[OF extendStay_same] still_moves[OF waive_still]

lemma stay_step_moves: "stay_step D tzo h h' \<Longrightarrow> moves h h'"
  by (induction rule: stay_step.induct)
    (auto simp: checkIn_def cancel_def cancelWithWaiver_def waiveNoShowPenalty_def split: option.split_asm intro: handler_moves)

interpretation front_desk: desk_machine desk keyed "stay_step D tzo" for D tzo
  by unfold_locales (use stay_step_moves in \<open>auto simp: moves_def\<close>)

section \<open>A day at the inn\<close>

text \<open>Ada's booking is confirmed, Bayo's is cancelled; Ada arrives and is given room 101.\<close>

definition inn_stay :: "nat \<Rightarrow> nat \<Rightarrow> reservation_status \<Rightarrow> reservation" where
  "inn_stay i guest status = \<lparr>re_id = i, re_branch = 1, re_guest = guest, re_roomType = 80, re_room = None, re_status = status, re_checkInDate = 0, re_checkOutDate = toBranchDate 2,
     re_confirmedRate = 200, re_overrideRate = None, re_nightlyRates = Some [(Some 0, Some (JStr ''100.00'')), (Some 1, Some (JStr ''100.00''))], re_isDayUse = False, re_packages = [],
     re_adults = 1, re_children = 0, re_billToFolio = None, re_confirmation = ''RES-1970-00001'', re_channel = Direct, re_ratePlan = None, re_overrideReason = None, re_groupBlock = None,
     re_corporate = None, re_promoCode = None, re_depositAmount = None, re_depositDueDate = None, re_cancellationPolicy = None, re_actualCheckIn = None, re_actualCheckOut = None,
     re_createdBy = None, re_deleted = False\<rparr>"

definition inn_full :: house where
  "inn_full = ho_db_update (\<lambda>d. d\<lparr>db_reservations := [inn_stay 50 60 Confirmed, inn_stay 51 61 Cancelled]\<rparr>) inn"

definition inn_arrival :: "(reservation \<times> house) result" where
  "inn_arrival = checkIn decimal_js (\<lambda>_ _. 0) 50 \<lparr>ck_room = Some 70, ck_idDocument = True, ck_overrideReason = None\<rparr> 7 0 inn_full"

lemma inn_full_ok: "keyed inn_full" "roomed (desk inn_full)"
  by (code_simp, simp add: roomed_def desk_def inn_full_def inn_def inn_stay_def party_def)

lemma evaluated_Inr: "map_sum id f m = Inr y \<Longrightarrow> \<exists>x. m = Inr x \<and> f x = y"
  by (cases m) simp_all

lemma inn_arrives:
  obtains r h a b where "(stay_step decimal_js (\<lambda>_ _. 0))\<^sup>*\<^sup>* inn_full h" "inn_arrival = Inr (r, h)" "ho_stays h = [a, b]"
    "re_status a = Checked_in" "\<not> re_deleted a" "re_status b = Cancelled"
proof -
  have e: "map_sum id (\<lambda>(r, h). map (\<lambda>r. (re_id r, re_status r, re_room r, re_deleted r)) (ho_stays h)) inn_arrival =
    Inr [(50, Checked_in, Some 70, False), (51, Cancelled, None, False)]" by code_simp
  then obtain x where x: "inn_arrival = Inr x" and f: "(\<lambda>(r, h). map (\<lambda>r. (re_id r, re_status r, re_room r, re_deleted r)) (ho_stays h)) x =
    [(50, Checked_in, Some 70, False), (51, Cancelled, None, False)]" by (auto dest!: evaluated_Inr)
  obtain r h where a: "x = (r, h)" by fastforce
  from x a have "stay_step decimal_js (\<lambda>_ _. 0) inn_full h" unfolding inn_arrival_def by (auto intro: stay_step.checkIn)
  moreover from f a obtain a b where "ho_stays h = [a, b]" "re_status a = Checked_in" "\<not> re_deleted a" "re_status b = Cancelled"
    by (auto simp: map_eq_Cons_conv)
  ultimately show ?thesis using that x a by blast
qed

section \<open>The front desk's promises\<close>

text \<open>
  C2. Whatever handlers of stays and night audits run, in whatever order, the board of stays and rooms
  changes only by the steps of the abstract desk: a stay is booked, arrives into a free room, moves,
  leaves, or turns from one status to another along the permitted edges.
\<close>

theorem stays_refine_desk:
  assumes "(stay_step D tzo)\<^sup>*\<^sup>* h h'" "keyed h"
  shows "desk_step\<^sup>*\<^sup>* (desk h) (desk h')"
  using front_desk.runs_simulate[OF assms] by simp

theorem stays_refine_desk_witness:
  "\<exists>h. desk_step\<^sup>*\<^sup>* (desk inn_full) (desk h) \<and> map re_status (ho_stays h) = [Checked_in, Cancelled]"
proof -
  obtain r h a b where run: "(stay_step decimal_js (\<lambda>_ _. 0))\<^sup>*\<^sup>* inn_full h"
    and st: "ho_stays h = [a, b]" "re_status a = Checked_in" "re_status b = Cancelled" by (rule inn_arrives)
  have "map re_status (ho_stays h) = [Checked_in, Cancelled]" using st by simp
  with stays_refine_desk[OF run inn_full_ok(1)] show ?thesis by (intro exI[of _ h] conjI)
qed

text \<open>
  C1. One party to a room: after any run from a house where it holds, a guest in the house has a
  room, the room's record says occupied, and no other guest in the house has that room.
\<close>

theorem one_party_per_room:
  assumes "(stay_step D tzo)\<^sup>*\<^sup>* h h'" "keyed h" "roomed (desk h)"
    and r: "r \<in> set (ho_stays h')" "\<not> re_deleted r" "re_status r = Checked_in"
  shows "\<exists>x. re_room r = Some x \<and> (\<exists>room \<in> set (ho_rooms h'). rm_id room = x \<and> rm_occupancy room = Occupied) \<and>
    (\<forall>s \<in> set (ho_stays h'). \<not> re_deleted s \<and> re_status s = Checked_in \<and> re_room s = Some x \<longrightarrow> s = r)"
proof -
  have k: "keyed h'" using front_desk.runs_simulate[OF assms(1,2)] by simp
  have ro: "roomed (desk h')" by (rule front_desk.runs_roomed[OF assms(1-3)])
  have d: "dk_stays (desk h') (re_id r) = Some (Checked_in, re_room r)" using desk_row[OF k r(1,2)] r(3) by simp
  then obtain x where x: "re_room r = Some x" using ro by (cases "re_room r") (auto simp: roomed_def)
  have "x \<in> dk_taken (desk h')" using ro d x by (auto simp: roomed_def)
  moreover have "s = r" if "s \<in> set (ho_stays h')" "\<not> re_deleted s" "re_status s = Checked_in" "re_room s = Some x" for s
  proof -
    have "dk_stays (desk h') (re_id s) = Some (Checked_in, Some x)" using desk_row[OF k that(1,2)] that(3,4) by simp
    then have "re_id s = re_id r" using ro d x unfolding roomed_def by metis
    then show ?thesis using k r(1) that(1) by (auto simp: keyed_def distinct_map inj_on_def)
  qed
  ultimately show ?thesis using x by (auto simp: desk_def)
qed

theorem one_party_per_room_witness:
  "\<exists>h r x. (stay_step decimal_js (\<lambda>_ _. 0))\<^sup>*\<^sup>* inn_full h \<and> r \<in> set (ho_stays h) \<and> re_room r = Some x \<and>
     (\<exists>room \<in> set (ho_rooms h). rm_id room = x \<and> rm_occupancy room = Occupied)"
proof -
  obtain r h a b where run: "(stay_step decimal_js (\<lambda>_ _. 0))\<^sup>*\<^sup>* inn_full h"
    and st: "ho_stays h = [a, b]" "re_status a = Checked_in" "\<not> re_deleted a" by (rule inn_arrives)
  have a: "a \<in> set (ho_stays h)" using st(1) by simp
  from one_party_per_room[OF run inn_full_ok this st(3,2)] obtain x
    where "re_room a = Some x" "\<exists>room \<in> set (ho_rooms h). rm_id room = x \<and> rm_occupancy room = Occupied" by (elim exE conjE) (rule that)
  with run a show ?thesis by (intro exI conjI)
qed

text \<open>
  C3. A stay that is over is over: once a guest has left, or the booking is cancelled or walked, no
  handler and no night audit changes its status or its room again.
\<close>

theorem closed_stay_stays_closed:
  assumes "(stay_step D tzo)\<^sup>*\<^sup>* h h'" "keyed h" "findReservationOrThrow h i = Inr r" "re_status r \<in> {Checked_out, Cancelled, Walked}"
  shows "\<exists>r'. findReservationOrThrow h' i = Inr r' \<and> re_status r' = re_status r \<and> re_room r' = re_room r"
  using front_desk.runs_over[OF assms(1,2), of i "re_status r" "re_room r"] find_stay[OF assms(3)] assms(4) desk_find by (simp add: over_def)

theorem closed_stay_stays_closed_witness:
  "\<exists>h r. inn_arrival = Inr (r, h) \<and> (\<exists>s. findReservationOrThrow h 51 = Inr s \<and> re_status s = Cancelled)"
proof -
  obtain r h where run: "(stay_step decimal_js (\<lambda>_ _. 0))\<^sup>*\<^sup>* inn_full h" and a: "inn_arrival = Inr (r, h)" by (rule inn_arrives)
  have "findReservationOrThrow inn_full 51 = Inr (inn_stay 51 61 Cancelled)" by (simp add: findReservationOrThrow_def inn_full_def inn_def inn_stay_def)
  from closed_stay_stays_closed[OF run inn_full_ok(1) this] a show ?thesis by (auto simp: inn_stay_def)
qed




end
