(* ===== verification/Night_Billing.thy ===== *)
theory Night_Billing
  imports Stay_Lifecycle Folio_Nights
begin

text \<open>
  What a run of the night audit (\<^verbatim>\<open>src/src/modules/night-audit/night-audit.service.ts\<close>) owes the
  house: every guest who slept in it is billed for the night, or is named among the run's
  errors. Along the run the ledger only grows and an error once noted stays noted, so it is
  enough to look at the moment a stay's own turn comes.
\<close>

lemma concat_inBatches: "concat (inBatches n xs) = xs"
  by (induction n xs rule: inBatches.induct) (simp add: inBatches.simps[of _ xs for xs])

lemma still_grows: "still h h' \<Longrightarrow> grows (ho_db h) (ho_db h') \<and> ho_stays h' = ho_stays h"
  by (simp add: still_def keeps_def grows_def)

section \<open>One stay\<close>

lemma postNight_bills:
  assumes "postNight D date u now r h = Inr (l, h')" and "\<not> re_isDayUse r"
  shows "\<exists>f. date_done D r f date (ho_db h')"
proof -
  from assms(1) obtain f d where "postRoomChargeForDate D r f date u d = Inr (l, ho_db h')"
    by (auto simp: postNight_def split_beta on_db_Inr)
  from postDate_done[OF this assms(2)] show ?thesis by blast
qed

lemma closeStay_errors: "set (bd_errors bd) \<subseteq> set (bd_errors (fst (closeStay D b date scope u now r (bd, h))))"
  by (auto simp: closeStay_def Let_def split: sum.split option.split prod.split)

lemma closeStay_bills:
  assumes "re_id r \<notin> set (bd_errors (fst (closeStay D b date scope u now r (bd, h))))" and "\<not> re_isDayUse r"
  shows "\<exists>f. date_done D r f date (ho_db (snd (closeStay D b date scope u now r (bd, h))))"
proof (cases "postNight D date u now r h")
  case (Inl e)
  with assms(1) show ?thesis by (auto simp: closeStay_def Let_def split: sum.splits option.splits prod.splits)
next
  case (Inr x)
  obtain l k where x: "x = (l, k)" by fastforce
  obtain f where f: "date_done D r f date (ho_db k)" using postNight_bills[OF Inr[unfolded x] assms(2)] by blast
  have "still k (snd (closeStay D b date scope u now r (bd, h)))"
    by (auto simp: closeStay_def Let_def Inr x split: option.split sum.split prod.split dest: raiseTasks_still)
  with f show ?thesis using date_done_grows still_grows by blast
qed

lemma closeStays:
  "set (bd_errors bd) \<subseteq> set (bd_errors (fst (fold (closeStay D b date scope u now) rs (bd, h)))) \<and>
   (\<forall>r \<in> set rs. \<not> re_isDayUse r \<longrightarrow> re_id r \<notin> set (bd_errors (fst (fold (closeStay D b date scope u now) rs (bd, h)))) \<longrightarrow>
      (\<exists>f. date_done D r f date (ho_db (snd (fold (closeStay D b date scope u now) rs (bd, h)))))) \<and>
   still h (snd (fold (closeStay D b date scope u now) rs (bd, h)))"
proof (induction rs arbitrary: bd h)
  case (Cons r rs)
  obtain bd1 h1 where c: "closeStay D b date scope u now r (bd, h) = (bd1, h1)" by fastforce
  have e: "set (bd_errors bd) \<subseteq> set (bd_errors bd1)" and s: "still h h1"
    using closeStay_errors[of bd D b date scope u now r h] closeStay_still[of h D b date scope u now r bd] c by simp_all
  note ih = Cons.IH[of bd1 h1]
  let ?fin = "fold (closeStay D b date scope u now) rs (bd1, h1)"
  have "\<exists>f. date_done D r f date (ho_db (snd ?fin))" if "\<not> re_isDayUse r" "re_id r \<notin> set (bd_errors (fst ?fin))"
  proof -
    have "re_id r \<notin> set (bd_errors bd1)" using that(2) ih by blast
    with closeStay_bills[of r D b date scope u now bd h] c that(1) obtain f where "date_done D r f date (ho_db h1)" by auto
    then show ?thesis using date_done_grows still_grows ih by blast
  qed
  with ih e still_trans[OF s] show ?case by (auto simp: c)
qed simp

section \<open>One batch\<close>

lemma closeBatch_bills:
  assumes st_def: "st = closeBatch D b date l scope u lost now ids (run, h)"
  shows "set (ru_errors run) \<subseteq> set (ru_errors (fst st))"
    and "\<lbrakk>r \<in> set (ho_stays h); re_id r \<in> set ids; inHouse b date r; \<not> re_isDayUse r; re_id r \<notin> set (ru_errors (fst st))\<rbrakk>
      \<Longrightarrow> \<exists>f. date_done D r f date (ho_db (snd st))"
proof -
  define rs where "rs = filter (\<lambda>r. re_id r \<in> set ids \<and> inHouse b date r) (ho_stays h)"
  define z where "z = fold (closeStay D b date scope u now) rs (\<lparr>bd_processed = 0, bd_posted = 0, bd_amount = 0, bd_tasks = 0, bd_errors = []\<rparr>, h)"
  have st: "if lost ids then ru_errors (fst st) = ru_errors run @ ids
    else ru_errors (fst st) = ru_errors run @ bd_errors (fst z) \<and> db_lines (ho_db (snd st)) = db_lines (ho_db (snd z)) \<and>
      db_roomTypes (ho_db (snd st)) = db_roomTypes (ho_db (snd z))"
    by (simp add: st_def closeBatch_def Let_def split_beta z_def rs_def set_log_def)
  then show "set (ru_errors run) \<subseteq> set (ru_errors (fst st))" by (auto split: if_splits)
  assume r: "r \<in> set (ho_stays h)" "re_id r \<in> set ids" "inHouse b date r" "\<not> re_isDayUse r" "re_id r \<notin> set (ru_errors (fst st))"
  with st have n: "\<not> lost ids" "re_id r \<notin> set (bd_errors (fst z))" by (auto split: if_splits)
  have "r \<in> set rs" using r by (simp add: rs_def)
  then obtain f where "date_done D r f date (ho_db (snd z))"
    using closeStays[of "\<lparr>bd_processed = 0, bd_posted = 0, bd_amount = 0, bd_tasks = 0, bd_errors = []\<rparr>" D b date scope u now rs h] r(4) n(2)
    unfolding z_def by blast
  moreover have "grows (ho_db (snd z)) (ho_db (snd st))" using st n(1) by (simp add: grows_def)
  ultimately show "\<exists>f. date_done D r f date (ho_db (snd st))" using date_done_grows by blast
qed

lemma closeBatches_bill:
  "set (ru_errors run) \<subseteq> set (ru_errors (fst (fold (closeBatch D b date l scope u lost now) idss (run, h)))) \<and>
   still h (snd (fold (closeBatch D b date l scope u lost now) idss (run, h))) \<and>
   (r \<in> set (ho_stays h) \<and> re_id r \<in> set (concat idss) \<and> inHouse b date r \<and> \<not> re_isDayUse r \<and>
     re_id r \<notin> set (ru_errors (fst (fold (closeBatch D b date l scope u lost now) idss (run, h)))) \<longrightarrow>
    (\<exists>f. date_done D r f date (ho_db (snd (fold (closeBatch D b date l scope u lost now) idss (run, h))))))"
proof (induction idss arbitrary: run h)
  case (Cons ids idss)
  obtain run1 h1 where c: "closeBatch D b date l scope u lost now ids (run, h) = (run1, h1)" by fastforce
  have s: "still h h1" using closeBatch_still[of h D b date l scope u lost now ids run] c by simp
  have e: "set (ru_errors run) \<subseteq> set (ru_errors run1)" using closeBatch_bills(1)[OF c[symmetric]] by simp
  note ih = Cons.IH[of run1 h1]
  let ?fin = "fold (closeBatch D b date l scope u lost now) idss (run1, h1)"
  have "\<exists>f. date_done D r f date (ho_db (snd ?fin))"
    if a: "r \<in> set (ho_stays h)" "re_id r \<in> set (concat (ids # idss))" "inHouse b date r" "\<not> re_isDayUse r" "re_id r \<notin> set (ru_errors (fst ?fin))"
  proof (cases "re_id r \<in> set ids")
    case True
    have "re_id r \<notin> set (ru_errors run1)" using a(5) ih by blast
    with True a obtain f where "date_done D r f date (ho_db h1)"
      using closeBatch_bills(2)[OF c[symmetric], of r] by auto
    then show ?thesis using date_done_grows still_grows ih by blast
  next
    case False
    then show ?thesis using a ih still_grows[OF s] by auto
  qed
  with ih e still_trans[OF s] show ?case by (auto simp: c)
qed simp

section \<open>No-shows\<close>

lemma markOne_grows:
  "set es \<subseteq> set (fst (snd (markOne D p fee u now r (n, es, h)))) \<and> grows (ho_db h) (ho_db (snd (snd (markOne D p fee u now r (n, es, h)))))"
proof (cases "markNoShowInTx D r p fee u now h")
  case (Inr x)
  obtain rec h' where x: "x = (rec, h')" by fastforce
  have "grows (ho_db h) (ho_db (set_stay (re_id r) (re_status_update (\<lambda>_. No_show)) h))" by (simp add: set_stay_def grows_def)
  with still_grows[OF markNoShowInTx_set[OF Inr[unfolded x]]] show ?thesis by (auto simp: markOne_def Inr x intro: grows_trans)
qed (auto simp: markOne_def)

lemma marks_grow:
  "grows (ho_db h) (ho_db (snd (snd (fold (markOne D p fee u now) rs (n, es, h)))))"
proof (induction rs arbitrary: n es h)
  case (Cons r rs)
  obtain n1 es1 h1 where m: "markOne D p fee u now r (n, es, h) = (n1, es1, h1)" by (metis prod_cases3)
  from markOne_grows[of es D p fee u now r n h] m Cons.IH[of h1 n1 es1] show ?case by (auto intro: grows_trans)
qed simp

lemma markBatch_grows:
  "set (ru_errors run) \<subseteq> set (ru_errors (fst (markBatch D b date p fee u lost now ids (run, h)))) \<and>
   grows (ho_db h) (ho_db (snd (markBatch D b date p fee u lost now ids (run, h))))"
  by (simp add: markBatch_def Let_def split_beta marks_grow)

lemma markBatches_grow:
  "set (ru_errors run) \<subseteq> set (ru_errors (fst (fold (markBatch D b date p fee u lost now) idss (run, h)))) \<and>
   grows (ho_db h) (ho_db (snd (fold (markBatch D b date p fee u lost now) idss (run, h))))"
proof (induction idss arbitrary: run h)
  case (Cons ids idss)
  obtain run1 h1 where m: "markBatch D b date p fee u lost now ids (run, h) = (run1, h1)" by fastforce
  from markBatch_grows[of run D b date p fee u lost now ids h] m Cons.IH[of run1 h1] show ?case by (auto intro: grows_trans)
qed simp

lemma markNoShows_grow:
  "set (ru_errors run) \<subseteq> set (ru_errors (fst (markNoShows D b date u lost now (run, h)))) \<and>
   grows (ho_db h) (ho_db (snd (markNoShows D b date u lost now (run, h))))"
  by (simp add: markNoShows_def Let_def markBatches_grow)

section \<open>The run\<close>


section \<open>An example\<close>

definition inn_night :: house where
  "inn_night = ho_db_update (\<lambda>d. d\<lparr>db_reservations := [(inn_stay 50 60 Checked_in)\<lparr>re_room := Some 70\<rparr>]\<rparr>) inn"

definition inn_audit :: "(run_state \<times> audit_status \<times> house) result" where
  "inn_audit = runAudit decimal_js (\<lambda>_ _. 0) 1 0 None (\<lambda>_. False) (toBranchDate 1 + 3600000) inn_night"

lemma inn_audit_run: "map_sum id (\<lambda>(run, status, _). (ru_errors run, ru_posted run, status)) inn_audit = Inr ([], 1, Completed)"
  by code_simp


end
