(* ===== verification/Events.thy ===== *)
theory Events
  imports Folio_Accounts Access
begin

text \<open>
  Event spaces and the events booked in them (\<^verbatim>\<open>src/src/modules/sales-events/event-spaces.service.ts\<close>):
  a space with its seats per layout, an event as a time range on a space, and billing an event's
  hire and catering to a guest's or a group's bill. The order sheet is a document over the same
  rows and is left out. The ledger is the database of the money handlers; ids come from its counter.
\<close>

section \<open>Spaces and events\<close>

datatype setup_style = Theater | Classroom | Banquet | U_shape

definition SETUP_STYLES :: "setup_style list" where
  "SETUP_STYLES = [Theater, Classroom, Banquet, U_shape]"

type_synonym setup_capacities = "(setup_style \<times> int) list"

record catering_line =
  cl_description :: string
  cl_quantity :: int
  cl_unitPrice :: rat

record event_space =
  es_id :: nat
  es_branch :: nat
  es_name :: string
  es_category :: string
  es_capacity :: int
  es_setupCapacities :: "setup_capacities option"

datatype event_status = EventConfirmed | EventCancelled

record event_booking =
  eb_id :: nat
  eb_space :: nat
  eb_title :: string
  eb_startsAt :: instant
  eb_endsAt :: instant
  eb_contactName :: "string option"
  eb_contactEmail :: "string option"
  eb_contactPhone :: "string option"
  eb_setupStyle :: "setup_style option"
  eb_headcount :: "int option"
  eb_catering :: "catering_line list option"
  eb_avRequirements :: "string option"
  eb_notes :: "string option"
  eb_status :: event_status
  eb_cancelledAt :: "instant option"
  eb_spaceHireFee :: "rat option"
  eb_folio :: "nat option"
  eb_billedAt :: "instant option"
  eb_billedBy :: "nat option"
  eb_createdBy :: "nat option"

record events =
  ev_db :: db
  ev_spaces :: "event_space list"
  ev_bookings :: "event_booking list"

record space_dto =
  sd_name :: string
  sd_category :: string
  sd_capacity :: int
  sd_setupCapacities :: "setup_capacities option"

record event_dto =
  ed_title :: string
  ed_startsAt :: instant
  ed_endsAt :: instant
  ed_contactName :: "string option"
  ed_contactEmail :: "string option"
  ed_contactPhone :: "string option"
  ed_setupStyle :: "setup_style option"
  ed_headcount :: "int option"
  ed_catering :: "catering_line list option"
  ed_avRequirements :: "string option"
  ed_notes :: "string option"
  ed_spaceHireFee :: "rat option"

text \<open>A patch: a field left out is \<open>None\<close>, a field sent as \<^verbatim>\<open>null\<close> is \<open>Some None\<close>.\<close>

record event_patch =
  ep_title :: "string option"
  ep_startsAt :: "instant option"
  ep_endsAt :: "instant option"
  ep_contactName :: "string option option"
  ep_contactEmail :: "string option option"
  ep_contactPhone :: "string option option"
  ep_setupStyle :: "setup_style option option"
  ep_headcount :: "int option option"
  ep_catering :: "catering_line list option option"
  ep_avRequirements :: "string option option"
  ep_notes :: "string option option"
  ep_spaceHireFee :: "rat option option"

section \<open>Operations\<close>

definition EVENT_STAFF_ROLES :: "string list" where
  "EVENT_STAFF_ROLES = [''owner'', ''manager'', ''front_desk'']"

definition parseCapacities :: "setup_capacities option \<Rightarrow> setup_capacities option" where
  "parseCapacities value =
     (case value of
        None \<Rightarrow> None
      | Some seats \<Rightarrow>
          let capacities = List.map_filter (\<lambda>style. case map_of seats style of
                Some n \<Rightarrow> if 0 < n then Some (style, n) else None | None \<Rightarrow> None) SETUP_STYLES
          in if capacities = [] then None else Some capacities)"

definition parseCatering :: "catering_line list option \<Rightarrow> catering_line list" where
  "parseCatering = the_default []"

definition seatsFor :: "event_space \<Rightarrow> setup_style option \<Rightarrow> int" where
  "seatsFor space setupStyle =
     (case setupStyle of
        None \<Rightarrow> es_capacity space
      | Some style \<Rightarrow>
          (case parseCapacities (es_setupCapacities space) of
             None \<Rightarrow> es_capacity space
           | Some c \<Rightarrow> the_default (es_capacity space) (map_of c style)))"

definition optionalText :: "string option option \<Rightarrow> string option option" where
  "optionalText value = map_option (\<lambda>v. case v of None \<Rightarrow> None | Some t \<Rightarrow> if js_trim t = [] then None else Some (js_trim t)) value"

definition createSpace :: "nat \<Rightarrow> space_dto \<Rightarrow> nat option \<Rightarrow> events \<Rightarrow> event_space \<times> events" where
  "createSpace branchId dto actorId s =
     (let space = \<lparr>es_id = db_next (ev_db s), es_branch = branchId, es_name = sd_name dto, es_category = sd_category dto,
            es_capacity = sd_capacity dto, es_setupCapacities = parseCapacities (sd_setupCapacities dto)\<rparr>;
          d = (ev_db s)\<lparr>db_next := Suc (db_next (ev_db s))\<rparr>
      in (space, s\<lparr>ev_spaces := ev_spaces s @ [space], ev_db := audit branchId actorId ''event_space.created'' (es_id space) d\<rparr>))"

definition findSpace :: "events \<Rightarrow> nat \<Rightarrow> event_space option" where
  "findSpace s i = List.find (\<lambda>x. es_id x = i) (ev_spaces s)"

definition listBookings :: "nat \<Rightarrow> instant \<Rightarrow> instant \<Rightarrow> events \<Rightarrow> event_booking list result" where
  "listBookings branchId start stop s =
     (if \<not> start < stop then Inl (BadRequest VALIDATION_FAILED)
      else if 366 * 86400000 < stop - start then Inl (BadRequest VALIDATION_FAILED)
      else Inr (sort_key eb_startsAt (filter (\<lambda>b. map_option es_branch (findSpace s (eb_space b)) = Some branchId \<and>
             eb_status b = EventConfirmed \<and> eb_startsAt b < stop \<and> start < eb_endsAt b) (ev_bookings s))))"

definition assertFits :: "event_space \<Rightarrow> setup_style option \<Rightarrow> int option \<Rightarrow> unit result" where
  "assertFits space setupStyle headcount =
     (case headcount of
        None \<Rightarrow> Inr ()
      | Some n \<Rightarrow> if n = 0 then Inr () else if seatsFor space setupStyle < n then Inl (BadRequest VALIDATION_FAILED) else Inr ())"

definition overlapping :: "nat \<Rightarrow> instant \<Rightarrow> instant \<Rightarrow> nat option \<Rightarrow> event_booking \<Rightarrow> bool" where
  "overlapping spaceId startsAt endsAt exceptId b \<longleftrightarrow>
     eb_space b = spaceId \<and> eb_status b = EventConfirmed \<and> eb_startsAt b < endsAt \<and> startsAt < eb_endsAt b \<and> Some (eb_id b) \<noteq> exceptId"

definition assertNoOverlap :: "events \<Rightarrow> event_space \<Rightarrow> instant \<Rightarrow> instant \<Rightarrow> nat option \<Rightarrow> unit result" where
  "assertNoOverlap s space startsAt endsAt exceptId =
     (if List.find (overlapping (es_id space) startsAt endsAt exceptId) (ev_bookings s) \<noteq> None then Inl (Conflict CONFLICT) else Inr ())"

definition cateringJson :: "catering_line list \<Rightarrow> catering_line list" where
  "cateringJson = map (\<lambda>l. l\<lparr>cl_description := js_trim (cl_description l)\<rparr>)"

text \<open>\<^verbatim>\<open>fee ? new Decimal(fee) : null\<close>, stored with two decimals: no fee and a fee of nothing are the same.\<close>

definition storedFee :: "rat option \<Rightarrow> rat option" where
  "storedFee fee = (case fee of None \<Rightarrow> None | Some x \<Rightarrow> if x = 0 then None else Some (num2 x))"

definition createBooking :: "nat \<Rightarrow> event_dto \<Rightarrow> nat \<Rightarrow> events \<Rightarrow> (event_booking \<times> events) result" where
  "createBooking eventSpaceId dto actorId s =
     (if ed_endsAt dto \<le> ed_startsAt dto then Inl (Conflict CONFLICT)
      else case findSpace s eventSpaceId of
        None \<Rightarrow> Inl (NotFound NOT_FOUND)
      | Some space \<Rightarrow>
          bindr (assertFits space (ed_setupStyle dto) (ed_headcount dto)) (\<lambda>_.
          bindr (assertNoOverlap s space (ed_startsAt dto) (ed_endsAt dto) None) (\<lambda>_.
          let b = \<lparr>eb_id = db_next (ev_db s), eb_space = eventSpaceId, eb_title = ed_title dto,
                eb_startsAt = ed_startsAt dto, eb_endsAt = ed_endsAt dto, eb_contactName = ed_contactName dto,
                eb_contactEmail = ed_contactEmail dto, eb_contactPhone = ed_contactPhone dto,
                eb_setupStyle = ed_setupStyle dto, eb_headcount = ed_headcount dto,
                eb_catering = map_option cateringJson (ed_catering dto), eb_avRequirements = ed_avRequirements dto,
                eb_notes = ed_notes dto, eb_status = EventConfirmed, eb_cancelledAt = None,
                eb_spaceHireFee = storedFee (ed_spaceHireFee dto), eb_folio = None, eb_billedAt = None, eb_billedBy = None,
                eb_createdBy = Some actorId\<rparr>;
              d = (ev_db s)\<lparr>db_next := Suc (db_next (ev_db s))\<rparr>
          in Inr (b, s\<lparr>ev_bookings := ev_bookings s @ [b],
                        ev_db := audit (es_branch space) (Some actorId) ''event_booking.created'' (eb_id b) d\<rparr>))))"

text \<open>The booking with its space; the foreign key keeps a space from being missing.\<close>

definition loadBooking :: "events \<Rightarrow> nat \<Rightarrow> (event_booking \<times> event_space) result" where
  "loadBooking s bookingId =
     (case List.find (\<lambda>b. eb_id b = bookingId) (ev_bookings s) of
        None \<Rightarrow> Inl (NotFound NOT_FOUND)
      | Some b \<Rightarrow> (case findSpace s (eb_space b) of None \<Rightarrow> Inl PlainError | Some space \<Rightarrow> Inr (b, space)))"

record event_totals =
  et_hire :: rat
  et_catering :: rat
  et_subtotal :: rat
  et_taxTotal :: rat
  et_taxIncluded :: rat
  et_total :: rat

definition cateringAmount :: "catering_line \<Rightarrow> rat" where
  "cateringAmount l = cl_unitPrice l * of_int (cl_quantity l)"

definition eventTotals :: "decimal_lib \<Rightarrow> db \<Rightarrow> nat \<Rightarrow> rat option \<Rightarrow> catering_line list \<Rightarrow> event_totals result" where
  "eventTotals D d branchId spaceHireFee lines =
     (let catering = foldl (\<lambda>sum l. sum + cateringAmount l) 0 lines; hire = the_default 0 spaceHireFee
      in bindr (priceCharge D (db_taxRules d) branchId Fnb catering 1) (\<lambda>cp.
         bindr (priceCharge D (db_taxRules d) branchId Misc hire 1) (\<lambda>hp.
           Inr \<lparr>et_hire = hire, et_catering = catering, et_subtotal = catering + hire,
                et_taxTotal = pc_addedTax cp + pc_addedTax hp, et_taxIncluded = pc_includedTax cp + pc_includedTax hp,
                et_total = pc_total cp + pc_total hp\<rparr>)))"

text \<open>What the handlers answer with: the booking, its space and its totals (\<^verbatim>\<open>detail\<close>).\<close>

definition detail :: "decimal_lib \<Rightarrow> events \<Rightarrow> event_booking \<Rightarrow> event_space \<Rightarrow> (event_booking \<times> event_space \<times> event_totals) result" where
  "detail D s b space =
     bindr (eventTotals D (ev_db s) (es_branch space) (eb_spaceHireFee b) (parseCatering (eb_catering b))) (\<lambda>t. Inr (b, space, t))"

definition set_booking :: "event_booking \<Rightarrow> events \<Rightarrow> events" where
  "set_booking b s = s\<lparr>ev_bookings := map (\<lambda>x. if eb_id x = eb_id b then b else x) (ev_bookings s)\<rparr>"

definition patchEvent :: "event_patch \<Rightarrow> instant \<Rightarrow> instant \<Rightarrow> event_booking \<Rightarrow> event_booking" where
  "patchEvent dto startsAt endsAt b =
     b\<lparr>eb_title := (case ep_title dto of None \<Rightarrow> eb_title b | Some t \<Rightarrow> if js_trim t = [] then eb_title b else js_trim t),
       eb_startsAt := startsAt, eb_endsAt := endsAt,
       eb_setupStyle := the_default (eb_setupStyle b) (ep_setupStyle dto),
       eb_headcount := the_default (eb_headcount b) (ep_headcount dto),
       eb_contactName := the_default (eb_contactName b) (optionalText (ep_contactName dto)),
       eb_contactEmail := the_default (eb_contactEmail b) (optionalText (ep_contactEmail dto)),
       eb_contactPhone := the_default (eb_contactPhone b) (optionalText (ep_contactPhone dto)),
       eb_catering := (case ep_catering dto of None \<Rightarrow> eb_catering b | Some c \<Rightarrow> Some (cateringJson (the_default [] c))),
       eb_avRequirements := the_default (eb_avRequirements b) (optionalText (ep_avRequirements dto)),
       eb_notes := the_default (eb_notes b) (optionalText (ep_notes dto)),
       eb_spaceHireFee := (case ep_spaceHireFee dto of None \<Rightarrow> eb_spaceHireFee b | Some f \<Rightarrow> storedFee f)\<rparr>"

definition updateBooking :: "decimal_lib \<Rightarrow> nat \<Rightarrow> event_patch \<Rightarrow> jwt \<Rightarrow> events \<Rightarrow> ((event_booking \<times> event_space \<times> event_totals) \<times> events) result" where
  "updateBooking D bookingId dto actor s =
     bindr (loadBooking s bookingId) (\<lambda>(b, space).
     bindr (assertRoleAtBranch actor (es_branch space) EVENT_STAFF_ROLES) (\<lambda>_.
     if eb_status b = EventCancelled then Inl (Conflict CONFLICT)
     else if eb_billedAt b \<noteq> None \<and> (ep_catering dto \<noteq> None \<or> ep_spaceHireFee dto \<noteq> None) then Inl (Conflict CONFLICT)
     else let startsAt = the_default (eb_startsAt b) (ep_startsAt dto); endsAt = the_default (eb_endsAt b) (ep_endsAt dto)
     in if endsAt \<le> startsAt then Inl (Conflict CONFLICT)
     else bindr (if startsAt \<noteq> eb_startsAt b \<or> endsAt \<noteq> eb_endsAt b
                 then assertNoOverlap s space startsAt endsAt (Some (eb_id b)) else Inr ()) (\<lambda>_.
     bindr (assertFits space (the_default (eb_setupStyle b) (ep_setupStyle dto)) (the_default (eb_headcount b) (ep_headcount dto))) (\<lambda>_.
     let updated = patchEvent dto startsAt endsAt b;
         s = set_booking updated s;
         s = s\<lparr>ev_db := audit (es_branch space) (Some (jw_sub actor)) ''event_booking.updated'' (eb_id b) (ev_db s)\<rparr>
     in bindr (detail D s updated space) (\<lambda>x. Inr (x, s))))))"

definition cancelBooking :: "nat \<Rightarrow> nat \<Rightarrow> instant \<Rightarrow> events \<Rightarrow> events result" where
  "cancelBooking bookingId actorId now s =
     bindr (loadBooking s bookingId) (\<lambda>(b, space).
       if eb_status b = EventCancelled then Inr s
       else let s = set_booking (b\<lparr>eb_status := EventCancelled, eb_cancelledAt := Some now\<rparr>) s
       in Inr (s\<lparr>ev_db := audit (es_branch space) (Some actorId) ''event_booking.cancelled'' bookingId (ev_db s)\<rparr>))"

definition hireOf :: "event_booking \<Rightarrow> rat option" where
  "hireOf b = (case eb_spaceHireFee b of None \<Rightarrow> None | Some h \<Rightarrow> if 0 < h then Some h else None)"

definition postCatering :: "decimal_lib \<Rightarrow> folio \<Rightarrow> instant \<Rightarrow> nat \<Rightarrow> catering_line \<Rightarrow> db \<Rightarrow> db result" where
  "postCatering D folio serviceDate actorId l d =
     (if \<not> 0 < cateringAmount l then Inr d
      else bindr (postChargeInTx D folio (cateringAmount l) Fnb serviceDate (Some actorId) d) (\<lambda>(_, d). Inr d))"

definition billBooking :: "decimal_lib \<Rightarrow> tz_offset \<Rightarrow> nat \<Rightarrow> nat \<Rightarrow> jwt \<Rightarrow> instant \<Rightarrow> events \<Rightarrow> ((event_booking \<times> event_space \<times> event_totals) \<times> events) result" where
  "billBooking D tzo bookingId folioId actor now s =
     bindr (loadBooking s bookingId) (\<lambda>(b, space).
     bindr (assertRoleAtBranch actor (es_branch space) EVENT_STAFF_ROLES) (\<lambda>_.
     if eb_status b = EventCancelled then Inl (Conflict CONFLICT)
     else if eb_billedAt b \<noteq> None then Inl (Conflict CONFLICT)
     else case List.find (\<lambda>f. fo_id f = folioId \<and> \<not> fo_deleted f) (db_folios (ev_db s)) of
       None \<Rightarrow> Inl (NotFound NOT_FOUND)
     | Some folio \<Rightarrow>
        if fo_branch folio \<noteq> es_branch space then Inl (NotFound NOT_FOUND)
        else if fo_status folio = Settled \<or> fo_status folio = Pending then Inl (Conflict CONFLICT)
        else let lines = parseCatering (eb_catering b); hire = hireOf b
        in if hire = None \<and> (\<forall>l \<in> set lines. \<not> (0 < cl_quantity l \<and> 0 < cl_unitPrice l)) then Inl (BadRequest VALIDATION_FAILED)
        else let timezone = (case List.find (\<lambda>x. br_id x = es_branch space) (db_branches (ev_db s)) of None \<Rightarrow> ''UTC'' | Some x \<Rightarrow> br_timezone x);
                 serviceDate = toBranchDate (localDateOf tzo (eb_startsAt b) timezone)
        in bindr (case hire of None \<Rightarrow> Inr (ev_db s)
                  | Some h \<Rightarrow> bindr (postChargeInTx D folio h Misc serviceDate (Some (jw_sub actor)) (ev_db s)) (\<lambda>(_, d). Inr d)) (\<lambda>d.
           bindr (foldr_res (postCatering D folio serviceDate (jw_sub actor)) lines d) (\<lambda>d.
           let billed = b\<lparr>eb_folio := Some (fo_id folio), eb_billedAt := Some now, eb_billedBy := Some (jw_sub actor)\<rparr>;
               s = set_booking billed (s\<lparr>ev_db := d\<rparr>);
               s = s\<lparr>ev_db := audit (es_branch space) (Some (jw_sub actor)) ''event_booking.billed'' (eb_id b) (ev_db s)\<rparr>
           in bindr (detail D s billed space) (\<lambda>x. Inr (x, s))))))"


section \<open>What is booked\<close>

definition fits :: "events \<Rightarrow> event_booking \<Rightarrow> bool" where
  "fits s b \<longleftrightarrow> (\<exists>space. findSpace s (eb_space b) = Some space \<and>
     (case eb_headcount b of None \<Rightarrow> True | Some n \<Rightarrow> n = 0 \<or> n \<le> seatsFor space (eb_setupStyle b)))"

definition separate :: "event_booking \<Rightarrow> event_booking \<Rightarrow> bool" where
  "separate x y \<longleftrightarrow> eb_endsAt x \<le> eb_startsAt y \<or> eb_endsAt y \<le> eb_startsAt x"

definition rivals :: "event_booking \<Rightarrow> event_booking \<Rightarrow> bool" where
  "rivals x y \<longleftrightarrow> eb_id x \<noteq> eb_id y \<and> eb_space x = eb_space y \<and> eb_status x = EventConfirmed \<and> eb_status y = EventConfirmed"

definition calendar_ok :: "events \<Rightarrow> bool" where
  "calendar_ok s \<longleftrightarrow> distinct (map eb_id (ev_bookings s)) \<and>
     (\<forall>b \<in> set (ev_bookings s). eb_id b < db_next (ev_db s) \<and> eb_startsAt b < eb_endsAt b \<and> fits s b) \<and>
     (\<forall>x \<in> set (ev_bookings s). \<forall>y \<in> set (ev_bookings s). rivals x y \<longrightarrow> separate x y)"

text \<open>The requests on events, between any requests that change the ledger.\<close>

inductive event_step :: "decimal_lib \<Rightarrow> tz_offset \<Rightarrow> events \<Rightarrow> events \<Rightarrow> bool" for D tzo where
  space: "createSpace b dto a s = (x, s') \<Longrightarrow> event_step D tzo s s'"
| book: "createBooking i ed u s = Inr (y, s') \<Longrightarrow> event_step D tzo s s'"
| change: "updateBooking D i ep actor s = Inr (z, s') \<Longrightarrow> event_step D tzo s s'"
| cancelled: "cancelBooking i u now s = Inr s' \<Longrightarrow> event_step D tzo s s'"
| billed: "billBooking D tzo i f actor now s = Inr (z, s') \<Longrightarrow> event_step D tzo s s'"
| ledger: "db_next (ev_db s) \<le> db_next d \<Longrightarrow> event_step D tzo s (s\<lparr>ev_db := d\<rparr>)"

lemma loadBooking_Inr:
  "loadBooking s i = Inr (b, space) \<longleftrightarrow>
     List.find (\<lambda>b. eb_id b = i) (ev_bookings s) = Some b \<and> findSpace s (eb_space b) = Some space"
  by (auto simp: loadBooking_def split: option.splits)

lemma assertFits_Inr:
  "assertFits space st hc = Inr () \<longleftrightarrow> (case hc of None \<Rightarrow> True | Some n \<Rightarrow> n = 0 \<or> n \<le> seatsFor space st)"
  by (auto simp: assertFits_def split: option.splits)

lemma assertNoOverlap_Inr:
  "assertNoOverlap s space a z e = Inr () \<longleftrightarrow> (\<forall>b \<in> set (ev_bookings s). \<not> overlapping (es_id space) a z e b)"
  by (auto simp: assertNoOverlap_def find_None_ex)

lemma findSpace_id: "findSpace s i = Some space \<Longrightarrow> es_id space = i"
  by (auto simp: findSpace_def dest: find_Some_mem)

lemma fits_same: "ev_spaces s' = ev_spaces s \<Longrightarrow> fits s' b = fits s b"
  by (simp add: fits_def findSpace_def)

lemma fits_cong: "eb_space b = eb_space x \<Longrightarrow> eb_headcount b = eb_headcount x \<Longrightarrow> eb_setupStyle b = eb_setupStyle x \<Longrightarrow> fits s b = fits s x"
  by (auto simp: fits_def split: option.splits)

lemma rivals_sym: "rivals x y \<Longrightarrow> rivals y x" and separate_sym: "separate x y \<Longrightarrow> separate y x"
  by (auto simp: rivals_def separate_def)

lemma set_booking_sel [simp]:
  "ev_spaces (set_booking b s) = ev_spaces s" "ev_db (set_booking b s) = ev_db s"
  "ev_bookings (set_booking b s) = map (\<lambda>x. if eb_id x = eb_id b then b else x) (ev_bookings s)"
  by (simp_all add: set_booking_def)

text \<open>A booking replaced by one that fits and is separate from its rivals keeps the calendar.\<close>

lemma calendar_ok_replace:
  assumes "calendar_ok s" and "x \<in> set (ev_bookings s)" and "eb_id b = eb_id x" and "eb_startsAt b < eb_endsAt b" and "fits s b"
    and rival: "\<And>y. y \<in> set (ev_bookings s) \<Longrightarrow> rivals b y \<Longrightarrow> separate b y"
    and "ev_bookings s' = map (\<lambda>y. if eb_id y = eb_id b then b else y) (ev_bookings s)" and "ev_spaces s' = ev_spaces s"
    and "db_next (ev_db s) \<le> db_next (ev_db s')"
  shows "calendar_ok s'"
proof -
  have ids: "map eb_id (ev_bookings s') = map eb_id (ev_bookings s)" by (simp add: assms(7) comp_def)
  have mem: "y = b \<or> y \<in> set (ev_bookings s)" if "y \<in> set (ev_bookings s')" for y using that assms(7) by auto
  have old: "eb_id y < db_next (ev_db s) \<and> eb_startsAt y < eb_endsAt y \<and> fits s y" if "y \<in> set (ev_bookings s)" for y
    using that assms(1) by (auto simp: calendar_ok_def)
  have good: "eb_id y < db_next (ev_db s') \<and> eb_startsAt y < eb_endsAt y \<and> fits s' y" if "y \<in> set (ev_bookings s')" for y
    using mem[OF that] old[of y] old[OF assms(2)] assms(3-5,9) fits_same[OF assms(8)] by auto
  have "separate y z" if "y \<in> set (ev_bookings s')" "z \<in> set (ev_bookings s')" "rivals y z" for y z
    using mem[OF that(1)] mem[OF that(2)] that(3) rival rivals_sym separate_sym assms(1)
    by (auto simp: calendar_ok_def dest: rivals_sym) (auto simp: rivals_def)
  with good assms(1) ids show ?thesis by (simp add: calendar_ok_def)
qed

lemma createSpace_ok:
  assumes "createSpace b dto a s = (x, s')" and "calendar_ok s"
  shows "calendar_ok s'"
proof -
  from assms(1) have s': "ev_spaces s' = ev_spaces s @ [x]" "ev_bookings s' = ev_bookings s" "db_next (ev_db s') = Suc (db_next (ev_db s))"
    by (auto simp: createSpace_def Let_def)
  then have "fits s y \<Longrightarrow> fits s' y" for y by (auto simp: fits_def findSpace_def find_append)
  with assms(2) s' show ?thesis by (auto simp: calendar_ok_def)
qed

lemma createBooking_ok:
  assumes "createBooking i dto u s = Inr (b, s')" and "calendar_ok s"
  shows "calendar_ok s'"
proof -
  from assms(1) obtain space where sp: "findSpace s i = Some space" and f: "assertFits space (ed_setupStyle dto) (ed_headcount dto) = Inr ()"
    and n: "assertNoOverlap s space (ed_startsAt dto) (ed_endsAt dto) None = Inr ()" and t: "ed_startsAt dto < ed_endsAt dto"
    and b: "eb_id b = db_next (ev_db s)" "eb_space b = i" "eb_startsAt b = ed_startsAt dto" "eb_endsAt b = ed_endsAt dto"
      "eb_setupStyle b = ed_setupStyle dto" "eb_headcount b = ed_headcount dto" "eb_status b = EventConfirmed"
    and s': "ev_bookings s' = ev_bookings s @ [b]" "ev_spaces s' = ev_spaces s" "db_next (ev_db s') = Suc (db_next (ev_db s))"
    by (auto simp: createBooking_def Let_def bindr_eq_Inr split: if_splits option.splits)
  have fit: "fits s' b" using sp f b s' by (auto simp: fits_def findSpace_def assertFits_Inr split: option.splits)
  have free: "separate b y" if "y \<in> set (ev_bookings s)" "rivals b y" for y
    using n that b findSpace_id[OF sp] by (auto simp: assertNoOverlap_Inr overlapping_def rivals_def separate_def)
  have new: "eb_id y < db_next (ev_db s)" if "y \<in> set (ev_bookings s)" for y using that assms(2) by (auto simp: calendar_ok_def)
  have "separate y z" if "y \<in> set (ev_bookings s')" "z \<in> set (ev_bookings s')" "rivals y z" for y z
    using that s' assms(2) free separate_sym rivals_sym by (auto simp: calendar_ok_def dest: rivals_sym) (auto simp: rivals_def)
  moreover have "distinct (map eb_id (ev_bookings s'))" using assms(2) new b s' by (fastforce simp: calendar_ok_def)
  moreover have "\<forall>y \<in> set (ev_bookings s'). eb_id y < db_next (ev_db s') \<and> eb_startsAt y < eb_endsAt y \<and> fits s' y"
    using assms(2) s' b t fit fits_same[OF s'(2)] by (auto simp: calendar_ok_def less_Suc_eq)
  ultimately show ?thesis by (simp add: calendar_ok_def)
qed

text \<open>What a successful change, cancellation and billing do to the rows.\<close>

lemma updateBooking_Inr:
  assumes "updateBooking D i dto actor s = Inr (z, s')"
  obtains b space startsAt endsAt where "loadBooking s i = Inr (b, space)" and "eb_status b = EventConfirmed"
    and "eb_billedAt b \<noteq> None \<Longrightarrow> ep_catering dto = None \<and> ep_spaceHireFee dto = None" and "startsAt < endsAt"
    and "startsAt \<noteq> eb_startsAt b \<or> endsAt \<noteq> eb_endsAt b \<Longrightarrow> assertNoOverlap s space startsAt endsAt (Some (eb_id b)) = Inr ()"
    and "assertFits space (the_default (eb_setupStyle b) (ep_setupStyle dto)) (the_default (eb_headcount b) (ep_headcount dto)) = Inr ()"
    and "s' = (set_booking (patchEvent dto startsAt endsAt b) s)\<lparr>ev_db := audit (es_branch space) (Some (jw_sub actor)) ''event_booking.updated'' (eb_id b) (ev_db s)\<rparr>"
proof -
  from assms obtain b space where l: "loadBooking s i = Inr (b, space)" by (auto simp: updateBooking_def bindr_eq_Inr)
  define a e where "a = the_default (eb_startsAt b) (ep_startsAt dto)" and "e = the_default (eb_endsAt b) (ep_endsAt dto)"
  from assms l have c: "eb_status b \<noteq> EventCancelled" "\<not> (eb_billedAt b \<noteq> None \<and> (ep_catering dto \<noteq> None \<or> ep_spaceHireFee dto \<noteq> None))" "\<not> e \<le> a"
    and o: "(if a \<noteq> eb_startsAt b \<or> e \<noteq> eb_endsAt b then assertNoOverlap s space a e (Some (eb_id b)) else Inr ()) = Inr ()"
    and f: "assertFits space (the_default (eb_setupStyle b) (ep_setupStyle dto)) (the_default (eb_headcount b) (ep_headcount dto)) = Inr ()"
    and s': "s' = (set_booking (patchEvent dto a e b) s)\<lparr>ev_db := audit (es_branch space) (Some (jw_sub actor)) ''event_booking.updated'' (eb_id b) (ev_db s)\<rparr>"
    unfolding a_def e_def by (simp_all add: updateBooking_def Let_def bindr_eq_Inr split: if_split_asm) blast+
  from c(1) have "eb_status b = EventConfirmed" by (cases "eb_status b") auto
  with l c o f s' show thesis by (intro that[of b space a e]) (auto split: if_splits)
qed

lemma updateBooking_ok:
  assumes "updateBooking D i dto actor s = Inr (z, s')" and "calendar_ok s"
  shows "calendar_ok s'"
  using assms(1)
proof (cases rule: updateBooking_Inr)
  case (1 b space a e)
  let ?u = "patchEvent dto a e b"
  have u: "eb_id ?u = eb_id b" "eb_space ?u = eb_space b" "eb_startsAt ?u = a" "eb_endsAt ?u = e" "eb_status ?u = eb_status b"
    "eb_setupStyle ?u = the_default (eb_setupStyle b) (ep_setupStyle dto)" "eb_headcount ?u = the_default (eb_headcount b) (ep_headcount dto)"
    by (simp_all add: patchEvent_def)
  from 1(1) have l: "b \<in> set (ev_bookings s)" "findSpace s (eb_space b) = Some space" by (auto simp: loadBooking_Inr dest: find_Some_mem)
  have fit: "fits s ?u" using l(2) 1(6) u by (auto simp: fits_def assertFits_Inr split: option.splits)
  have "separate ?u y" if y: "y \<in> set (ev_bookings s)" "rivals ?u y" for y
  proof (cases "a \<noteq> eb_startsAt b \<or> e \<noteq> eb_endsAt b")
    case True
    with 1(5) y u findSpace_id[OF l(2)] show ?thesis by (auto simp: assertNoOverlap_Inr overlapping_def rivals_def separate_def)
  next
    case False
    with y l(1) u assms(2) show ?thesis by (auto simp: calendar_ok_def rivals_def separate_def)
  qed
  then show ?thesis using assms(2) l(1) 1(4,7) u fit by (intro calendar_ok_replace[of s b ?u s']) simp_all
qed

lemma cancelBooking_Inr:
  assumes "cancelBooking i u now s = Inr s'"
  shows "\<exists>b space. loadBooking s i = Inr (b, space) \<and>
    (s' = s \<or> s' = (set_booking (b\<lparr>eb_status := EventCancelled, eb_cancelledAt := Some now\<rparr>) s)
        \<lparr>ev_db := audit (es_branch space) (Some u) ''event_booking.cancelled'' i (ev_db s)\<rparr>)"
  using assms by (auto simp: cancelBooking_def Let_def bindr_eq_Inr split: if_splits)

lemma cancelBooking_ok:
  assumes "cancelBooking i u now s = Inr s'" and "calendar_ok s"
  shows "calendar_ok s'"
proof -
  from cancelBooking_Inr[OF assms(1)] obtain b space where l: "loadBooking s i = Inr (b, space)"
    and c: "s' = s \<or> s' = (set_booking (b\<lparr>eb_status := EventCancelled, eb_cancelledAt := Some now\<rparr>) s)
        \<lparr>ev_db := audit (es_branch space) (Some u) ''event_booking.cancelled'' i (ev_db s)\<rparr>" (is "_ \<or> s' = ?s") by blast
  from l have b: "b \<in> set (ev_bookings s)" by (auto simp: loadBooking_Inr dest: find_Some_mem)
  have "eb_startsAt b < eb_endsAt b" "fits s b" using b assms(2) by (auto simp: calendar_ok_def)
  then have "calendar_ok ?s" using b assms(2)
    by (intro calendar_ok_replace[of s b "b\<lparr>eb_status := EventCancelled, eb_cancelledAt := Some now\<rparr>" ?s]) (auto simp: rivals_def cong: fits_cong)
  with c assms(2) show ?thesis by auto
qed

lemma postChargeInTx_frame:
  assumes "postChargeInTx D folio amount ct date u d = Inr (l, d')"
  shows "db_taxRules d' = db_taxRules d" and "db_next d \<le> db_next d'"
    and "decimal_arith D \<Longrightarrow> is_money amount \<Longrightarrow> 0 < amount \<Longrightarrow>
      \<exists>priced. previewCharge D d (fo_branch folio) ct amount = Inr priced \<and> balance d' g = balance d g + (if g = fo_id folio then pc_total priced else 0)"
proof -
  let ?inp = "plain_charge (fo_branch folio) (fo_id folio) amount ct date u"
  from assms have w: "writeChargeWithTaxes D ?inp d = Inr (l, d')" by (auto simp: postChargeInTx_def bindr_eq_Inr)
  have "db_taxRules d' = db_taxRules d \<and> db_next d \<le> db_next d'"
  proof (cases l)
    case (Some p)
    with w show ?thesis by (auto elim!: writeCharge_Some)
  qed (use w in \<open>simp add: writeCharge_None\<close>)
  then show "db_taxRules d' = db_taxRules d" "db_next d \<le> db_next d'" by simp_all
  assume m: "decimal_arith D" "is_money amount" "0 < amount"
  with w obtain p where "l = Some p" by (cases l) (simp_all add: writeCharge_None plain_charge_def)
  with w writeCharge_balance[OF m(1), of ?inp d p d' g] m(2)
  show "\<exists>priced. previewCharge D d (fo_branch folio) ct amount = Inr priced \<and> balance d' g = balance d g + (if g = fo_id folio then pc_total priced else 0)"
    by (auto simp: plain_charge_def previewCharge_def)
qed

lemma billBooking_Inr:
  assumes "billBooking D tzo i f actor now s = Inr (z, s')"
  obtains b space folio date d1 d2 where "loadBooking s i = Inr (b, space)" and "eb_status b = EventConfirmed" and "eb_billedAt b = None"
    and "fo_id folio = f" and "fo_branch folio = es_branch space" and "folio \<in> set (db_folios (ev_db s))"
    and "(case hireOf b of None \<Rightarrow> Inr (ev_db s)
          | Some h \<Rightarrow> bindr (postChargeInTx D folio h Misc date (Some (jw_sub actor)) (ev_db s)) (\<lambda>(_, d). Inr d)) = Inr d1"
    and "foldr_res (postCatering D folio date (jw_sub actor)) (parseCatering (eb_catering b)) d1 = Inr d2"
    and "s' = (set_booking (b\<lparr>eb_folio := Some f, eb_billedAt := Some now, eb_billedBy := Some (jw_sub actor)\<rparr>) s)
       \<lparr>ev_db := audit (es_branch space) (Some (jw_sub actor)) ''event_booking.billed'' (eb_id b) d2\<rparr>"
proof -
  from assms obtain b space where l: "loadBooking s i = Inr (b, space)" by (auto simp: billBooking_def bindr_eq_Inr)
  from assms l obtain folio where fo: "List.find (\<lambda>x. fo_id x = f \<and> \<not> fo_deleted x) (db_folios (ev_db s)) = Some folio"
    by (auto simp: billBooking_def bindr_eq_Inr split: if_splits option.splits)
  define date where "date = toBranchDate (localDateOf tzo (eb_startsAt b)
     (case List.find (\<lambda>x. br_id x = es_branch space) (db_branches (ev_db s)) of None \<Rightarrow> ''UTC'' | Some x \<Rightarrow> br_timezone x))"
  from assms l fo have c: "eb_status b \<noteq> EventCancelled" "eb_billedAt b = None" "fo_branch folio = es_branch space"
    by (auto simp: billBooking_def bindr_eq_Inr split: if_splits)
  from assms l fo c obtain d1 d2 where
    "(case hireOf b of None \<Rightarrow> Inr (ev_db s)
      | Some h \<Rightarrow> bindr (postChargeInTx D folio h Misc date (Some (jw_sub actor)) (ev_db s)) (\<lambda>(_, d). Inr d)) = Inr d1"
    "foldr_res (postCatering D folio date (jw_sub actor)) (parseCatering (eb_catering b)) d1 = Inr d2"
    "s' = (set_booking (b\<lparr>eb_folio := Some (fo_id folio), eb_billedAt := Some now, eb_billedBy := Some (jw_sub actor)\<rparr>) s)
       \<lparr>ev_db := audit (es_branch space) (Some (jw_sub actor)) ''event_booking.billed'' (eb_id b) d2\<rparr>"
    unfolding date_def by (auto simp: billBooking_def Let_def bindr_eq_Inr set_booking_def split: if_splits)
  moreover have "eb_status b = EventConfirmed" using c(1) by (cases "eb_status b") auto
  ultimately show thesis using l c find_Some_mem[OF fo] by (intro that[of b space folio date d1 d2]) auto
qed

section \<open>What is billed\<close>

definition event_charges :: "event_booking \<Rightarrow> (charge_type \<times> rat) list" where
  "event_charges b = (case hireOf b of None \<Rightarrow> [] | Some h \<Rightarrow> [(Misc, h)]) @
     map (\<lambda>l. (Fnb, cateringAmount l)) (filter (\<lambda>l. 0 < cateringAmount l) (parseCatering (eb_catering b)))"

definition chargeTotal :: "decimal_lib \<Rightarrow> db \<Rightarrow> nat \<Rightarrow> charge_type \<times> rat \<Rightarrow> rat" where
  "chargeTotal D d branchId c = (case previewCharge D d branchId (fst c) (snd c) of Inr q \<Rightarrow> pc_total q | Inl _ \<Rightarrow> 0)"

lemma chargeTotal_rules: "db_taxRules d' = db_taxRules d \<Longrightarrow> chargeTotal D d' b c = chargeTotal D d b c"
  by (simp add: chargeTotal_def previewCharge_def)

lemma postCatering_effect:
  assumes "postCatering D folio date u l d = Inr d'"
  shows "db_taxRules d' = db_taxRules d" and "db_next d \<le> db_next d'"
    and "decimal_arith D \<Longrightarrow> (0 < cateringAmount l \<Longrightarrow> is_money (cateringAmount l)) \<Longrightarrow>
      balance d' g = balance d g + (if g = fo_id folio \<and> 0 < cateringAmount l then chargeTotal D d (fo_branch folio) (Fnb, cateringAmount l) else 0)"
proof -
  have "db_taxRules d' = db_taxRules d \<and> db_next d \<le> db_next d' \<and>
    (decimal_arith D \<longrightarrow> (0 < cateringAmount l \<longrightarrow> is_money (cateringAmount l)) \<longrightarrow>
      balance d' g = balance d g + (if g = fo_id folio \<and> 0 < cateringAmount l then chargeTotal D d (fo_branch folio) (Fnb, cateringAmount l) else 0))"
  proof (cases "0 < cateringAmount l")
    case True
    with assms obtain p where p: "postChargeInTx D folio (cateringAmount l) Fnb date (Some u) d = Inr (p, d')"
      by (auto simp: postCatering_def bindr_eq_Inr)
    show ?thesis using postChargeInTx_frame(1,2)[OF p] postChargeInTx_frame(3)[OF p, of g] True by (auto simp: chargeTotal_def)
  qed (use assms in \<open>simp add: postCatering_def\<close>)
  then show "db_taxRules d' = db_taxRules d" "db_next d \<le> db_next d'"
    "decimal_arith D \<Longrightarrow> (0 < cateringAmount l \<Longrightarrow> is_money (cateringAmount l)) \<Longrightarrow>
      balance d' g = balance d g + (if g = fo_id folio \<and> 0 < cateringAmount l then chargeTotal D d (fo_branch folio) (Fnb, cateringAmount l) else 0)"
    by simp_all
qed

lemma postAllCatering_effect:
  assumes "foldr_res (postCatering D folio date u) ls d = Inr d'"
  shows "db_taxRules d' = db_taxRules d \<and> db_next d \<le> db_next d' \<and>
    (decimal_arith D \<longrightarrow> (\<forall>l \<in> set ls. 0 < cateringAmount l \<longrightarrow> is_money (cateringAmount l)) \<longrightarrow>
      balance d' g = balance d g + (if g = fo_id folio
        then sum_list (map (\<lambda>l. chargeTotal D d (fo_branch folio) (Fnb, cateringAmount l)) (filter (\<lambda>l. 0 < cateringAmount l) ls)) else 0))"
  using assms
proof (induction ls arbitrary: d)
  case (Cons l ls)
  from Cons.prems obtain d1 where a: "postCatering D folio date u l d = Inr d1" and r: "foldr_res (postCatering D folio date u) ls d1 = Inr d'"
    by (auto simp: bindr_eq_Inr)
  note e = postCatering_effect[OF a] and ih = Cons.IH[OF r]
  have "(\<lambda>l. chargeTotal D d1 (fo_branch folio) (Fnb, cateringAmount l)) = (\<lambda>l. chargeTotal D d (fo_branch folio) (Fnb, cateringAmount l))"
    by (simp add: chargeTotal_rules[OF e(1)])
  with e(1,2) e(3)[of g] ih show ?case by auto
qed simp

lemma billBooking_effect:
  assumes "billBooking D tzo i f actor now s = Inr (z, s')" and "loadBooking s i = Inr (b, space)"
  shows "db_next (ev_db s) \<le> db_next (ev_db s') \<and>
    (decimal_arith D \<longrightarrow> (\<forall>c \<in> set (event_charges b). is_money (snd c)) \<longrightarrow>
      balance (ev_db s') g = balance (ev_db s) g + (if g = f then sum_list (map (chargeTotal D (ev_db s) (es_branch space)) (event_charges b)) else 0))"
  using assms(1)
proof (cases rule: billBooking_Inr)
  case (1 b' space' folio date d1 d2)
  with assms(2) have [simp]: "b' = b" "space' = space" by auto
  note c = postAllCatering_effect[OF 1(8), of g]
  have "db_taxRules d1 = db_taxRules (ev_db s) \<and> db_next (ev_db s) \<le> db_next d1 \<and>
    (decimal_arith D \<longrightarrow> (\<forall>c \<in> set (event_charges b). is_money (snd c)) \<longrightarrow>
      balance d1 g = balance (ev_db s) g + (if g = f then (case hireOf b of None \<Rightarrow> 0 | Some h \<Rightarrow> chargeTotal D (ev_db s) (es_branch space) (Misc, h)) else 0))"
  proof (cases "hireOf b")
    case None
    with 1(7) show ?thesis by simp
  next
    case (Some h)
    with 1(7) obtain p where p: "postChargeInTx D folio h Misc date (Some (jw_sub actor)) (ev_db s) = Inr (p, d1)" by (auto simp: bindr_eq_Inr)
    have "0 < h" using Some by (auto simp: hireOf_def split: option.splits if_splits)
    then show ?thesis using postChargeInTx_frame(1,2)[OF p] postChargeInTx_frame(3)[OF p, of g] Some 1(4,5) by (auto simp: chargeTotal_def event_charges_def)
  qed
  note h = this
  have eq: "(\<lambda>l. chargeTotal D d1 (es_branch space) (Fnb, cateringAmount l)) = (\<lambda>l. chargeTotal D (ev_db s) (es_branch space) (Fnb, cateringAmount l))"
    by (rule ext) (rule chargeTotal_rules[OF conjunct1[OF h]])
  have "balance (ev_db s') g = balance (ev_db s) g + (if g = f then sum_list (map (chargeTotal D (ev_db s) (es_branch space)) (event_charges b)) else 0)"
    if D: "decimal_arith D" and m: "\<forall>c \<in> set (event_charges b). is_money (snd c)"
  proof -
    have "\<forall>l \<in> set (parseCatering (eb_catering b)). 0 < cateringAmount l \<longrightarrow> is_money (cateringAmount l)"
      using bspec[OF m, of "(Fnb, cateringAmount l)" for l] by (auto simp: event_charges_def)
    with c D 1(4,5) eq have "balance d2 g = balance d1 g + (if g = f then sum_list (map (\<lambda>l. chargeTotal D (ev_db s) (es_branch space) (Fnb, cateringAmount l))
        (filter (\<lambda>l. 0 < cateringAmount l) (parseCatering (eb_catering b)))) else 0)" by simp
    moreover have "balance (ev_db s') g = balance d2 g" by (simp add: 1(9) balance_def charges_def paid_def)
    moreover have "sum_list (map (chargeTotal D (ev_db s) (es_branch space)) (event_charges b)) =
        (case hireOf b of None \<Rightarrow> 0 | Some h \<Rightarrow> chargeTotal D (ev_db s) (es_branch space) (Misc, h)) +
        sum_list (map (\<lambda>l. chargeTotal D (ev_db s) (es_branch space) (Fnb, cateringAmount l)) (filter (\<lambda>l. 0 < cateringAmount l) (parseCatering (eb_catering b))))"
      by (simp add: event_charges_def comp_def split: option.split)
    ultimately show ?thesis using h D m by simp
  qed
  moreover have "db_next (ev_db s) \<le> db_next (ev_db s')" using h c 1(9) by simp
  ultimately show ?thesis by blast
qed

lemma billBooking_ok:
  assumes "billBooking D tzo i f actor now s = Inr (z, s')" and "calendar_ok s"
  shows "calendar_ok s'"
  using assms(1)
proof (cases rule: billBooking_Inr)
  case (1 b space folio date d1 d2)
  let ?b = "b\<lparr>eb_folio := Some f, eb_billedAt := Some now, eb_billedBy := Some (jw_sub actor)\<rparr>"
  have b: "b \<in> set (ev_bookings s)" using 1(1) by (auto simp: loadBooking_Inr dest: find_Some_mem)
  have "eb_startsAt b < eb_endsAt b" "fits s b" using b assms(2) by (auto simp: calendar_ok_def)
  moreover have "fits s ?b = fits s b" by (rule fits_cong) simp_all
  moreover have "separate ?b y" if "y \<in> set (ev_bookings s)" "rivals ?b y" for y
    using that b assms(2) by (auto simp: calendar_ok_def rivals_def separate_def)
  ultimately show ?thesis using b assms(2) 1(9) billBooking_effect[OF assms(1) 1(1)]
    by (intro calendar_ok_replace[of s b ?b s']) simp_all
qed

lemma event_step_ok: "event_step D tzo s s' \<Longrightarrow> calendar_ok s \<Longrightarrow> calendar_ok s'"
proof (induction rule: event_step.induct)
  case (ledger s d)
  then show ?case using fits_same[of "s\<lparr>ev_db := d\<rparr>" s] by (auto simp: calendar_ok_def)
qed (blast intro: createSpace_ok createBooking_ok updateBooking_ok cancelBooking_ok billBooking_ok)+

interpretation calendar: step_invariant "event_step D tzo" calendar_ok for D tzo
  by unfold_locales (rule event_step_ok)

text \<open>A billed event keeps its bill, and what it was billed for, under every request.\<close>

definition billed_as :: "nat \<Rightarrow> nat \<Rightarrow> instant \<Rightarrow> (charge_type \<times> rat) list \<Rightarrow> events \<Rightarrow> bool" where
  "billed_as i f t cs s \<longleftrightarrow> (\<exists>b \<in> set (ev_bookings s). eb_id b = i \<and> eb_folio b = Some f \<and> eb_billedAt b = Some t \<and> event_charges b = cs)"

lemma billed_as_replace:
  assumes "billed_as i f t cs s" and "distinct (map eb_id (ev_bookings s))" and "x \<in> set (ev_bookings s)" and "eb_id b = eb_id x"
    and "eb_billedAt x \<noteq> None \<Longrightarrow> eb_folio b = eb_folio x \<and> eb_billedAt b = eb_billedAt x \<and> event_charges b = event_charges x"
    and "ev_bookings s' = map (\<lambda>y. if eb_id y = eb_id b then b else y) (ev_bookings s)"
  shows "billed_as i f t cs s'"
proof -
  from assms(1) obtain y where y: "y \<in> set (ev_bookings s)" "eb_id y = i" "eb_folio y = Some f" "eb_billedAt y = Some t" "event_charges y = cs"
    by (auto simp: billed_as_def)
  show ?thesis
  proof (cases "eb_id y = eb_id b")
    case True
    then have "x = y" using y(1) assms(2-4) by (metis distinct_map inj_onD)
    with y assms(5) True have "eb_id b = i \<and> eb_folio b = Some f \<and> eb_billedAt b = Some t \<and> event_charges b = cs" by simp
    with y True show ?thesis using assms(6) by (force simp: billed_as_def)
  next
    case False
    with y show ?thesis using assms(6) by (force simp: billed_as_def)
  qed
qed

lemma event_step_billed_as:
  assumes "event_step D tzo s s'" and "calendar_ok s" and "billed_as i f t cs s"
  shows "billed_as i f t cs s'"
  using assms(1)
proof cases
  case (space b dto a x)
  then have "ev_bookings s' = ev_bookings s" by (auto simp: createSpace_def Let_def)
  with assms(3) show ?thesis by (simp add: billed_as_def)
next
  case (book j ed u y)
  then have "ev_bookings s' = ev_bookings s @ [y]"
    by (auto simp: createBooking_def Let_def bindr_eq_Inr split: if_splits option.splits)
  with assms(3) show ?thesis by (auto simp: billed_as_def)
next
  case (change j ep actor z)
  then show ?thesis
  proof (cases rule: updateBooking_Inr)
    case (1 b space a e)
    have b: "b \<in> set (ev_bookings s)" using 1(1) by (auto simp: loadBooking_Inr dest: find_Some_mem)
    have "event_charges (patchEvent ep a e b) = event_charges b" if "ep_catering ep = None" "ep_spaceHireFee ep = None"
      using that by (simp add: event_charges_def patchEvent_def hireOf_def)
    with 1(3) show ?thesis using b assms(2,3) 1(7)
      by (intro billed_as_replace[of i f t cs s b "patchEvent ep a e b" s']) (auto simp: calendar_ok_def patchEvent_def)
  qed
next
  case (cancelled j u now)
  from cancelBooking_Inr[OF this] obtain b space where l: "loadBooking s j = Inr (b, space)"
    and c: "s' = s \<or> ev_bookings s' = map (\<lambda>y. if eb_id y = eb_id b then b\<lparr>eb_status := EventCancelled, eb_cancelledAt := Some now\<rparr> else y) (ev_bookings s)"
    by (elim exE conjE disjE) simp_all
  have "b \<in> set (ev_bookings s)" using l by (auto simp: loadBooking_Inr dest: find_Some_mem)
  moreover have "event_charges (b\<lparr>eb_status := EventCancelled, eb_cancelledAt := Some now\<rparr>) = event_charges b"
    by (simp add: event_charges_def hireOf_def)
  ultimately show ?thesis using c assms(2,3)
    billed_as_replace[of i f t cs s b "b\<lparr>eb_status := EventCancelled, eb_cancelledAt := Some now\<rparr>" s'] by (auto simp: calendar_ok_def)
next
  case (billed j g actor now z)
  then show ?thesis
  proof (cases rule: billBooking_Inr)
    case (1 b space folio date d1 d2)
    have "b \<in> set (ev_bookings s)" using 1(1) by (auto simp: loadBooking_Inr dest: find_Some_mem)
    with 1(3,9) assms(2,3) show ?thesis
      by (intro billed_as_replace[of i f t cs s b "b\<lparr>eb_folio := Some g, eb_billedAt := Some now, eb_billedBy := Some (jw_sub actor)\<rparr>" s'])
        (auto simp: calendar_ok_def)
  qed
next
  case (ledger d)
  with assms(3) show ?thesis by (simp add: billed_as_def)
qed

interpretation billing: step_invariant "event_step D tzo" "\<lambda>s. calendar_ok s \<and> billed_as i f t cs s" for D tzo i f t cs
  by unfold_locales (blast intro: event_step_ok event_step_billed_as)

lemma billed_once:
  assumes "billed_as i f t cs s" and "distinct (map eb_id (ev_bookings s))"
  shows "\<exists>e. billBooking D tzo i f' actor now s = Inl e"
proof (cases "billBooking D tzo i f' actor now s")
  case (Inr r)
  then obtain z s' where "billBooking D tzo i f' actor now s = Inr (z, s')" by (cases r) auto
  then show ?thesis
  proof (cases rule: billBooking_Inr)
    case (1 b space folio date d1 d2)
    from assms(1) obtain y where y: "y \<in> set (ev_bookings s)" "eb_id y = i" "eb_billedAt y = Some t" by (auto simp: billed_as_def)
    from 1(1) have "b \<in> set (ev_bookings s)" "eb_id b = i" by (auto simp: loadBooking_Inr dest: find_Some_mem)
    with y assms(2) have "b = y" by (metis distinct_map inj_onD)
    with y 1(3) show ?thesis by simp
  qed
qed simp

section \<open>Properties\<close>

text \<open>
  C21. The event calendar never sells a space twice: over any run of requests two confirmed events of one
  space never share a moment, and every event fits the seats its space has for the layout.
\<close>

theorem events_never_clash:
  assumes "(event_step D tzo)\<^sup>*\<^sup>* s s'" and "calendar_ok s"
  shows "(\<forall>x \<in> set (ev_bookings s'). \<forall>y \<in> set (ev_bookings s'). rivals x y \<longrightarrow> separate x y) \<and> (\<forall>b \<in> set (ev_bookings s'). fits s' b)"
  using calendar.run_keeps[OF assms] by (simp add: calendar_ok_def)

text \<open>
  C22. An event is billed once and for what it costs: billing it raises the chosen bill by the totals
  the desk would quote for its hire and each of its catering lines, and no other bill; from then on
  whatever is asked, it stays on that bill for those charges and cannot be billed again.
\<close>

theorem event_billed_once:
  assumes "decimal_arith D" and "calendar_ok s" and "loadBooking s i = Inr (b, space)" and "\<forall>c \<in> set (event_charges b). is_money (snd c)"
    and "billBooking D tzo i f actor now s = Inr (z, s1)" and "(event_step D tzo)\<^sup>*\<^sup>* s1 s2"
  shows "balance (ev_db s1) g = balance (ev_db s) g + (if g = f then sum_list (map (chargeTotal D (ev_db s) (es_branch space)) (event_charges b)) else 0) \<and>
    billed_as i f now (event_charges b) s2 \<and> (\<exists>e. billBooking D tzo i f' actor' now' s2 = Inl e)"
proof -
  have ok1: "calendar_ok s1" using billBooking_ok[OF assms(5,2)] .
  have "billed_as i f now (event_charges b) s1"
    using assms(5)
  proof (cases rule: billBooking_Inr)
    case (1 b' space' folio date d1 d2)
    let ?b = "b\<lparr>eb_folio := Some f, eb_billedAt := Some now, eb_billedBy := Some (jw_sub actor)\<rparr>"
    from 1(1) assms(3) have [simp]: "b' = b" by simp
    from assms(3) have "b \<in> set (ev_bookings s)" "eb_id b = i" by (auto simp: loadBooking_Inr dest: find_Some_mem)
    then have "?b \<in> set (ev_bookings s1)" using 1(9) by force
    moreover have "event_charges ?b = event_charges b" by (simp add: event_charges_def hireOf_def)
    ultimately show ?thesis using \<open>eb_id b = i\<close> unfolding billed_as_def by (intro bexI[of _ ?b]) simp_all
  qed
  with ok1 have b: "billed_as i f now (event_charges b) s2" using billing.run_keeps[OF assms(6)] by blast
  moreover have "distinct (map eb_id (ev_bookings s2))" using calendar.run_keeps[OF assms(6) ok1] by (simp add: calendar_ok_def)
  ultimately show ?thesis using billBooking_effect[OF assms(5,3), of g] assms(1,4) billed_once by blast
qed

section \<open>An example\<close>

definition hall_space :: event_space where
  "hall_space = \<lparr>es_id = 40, es_branch = 1, es_name = ''Ballroom'', es_category = ''ballroom'', es_capacity = 100, es_setupCapacities = Some [(Banquet, 60)]\<rparr>"

definition hall_event :: event_booking where
  "hall_event = \<lparr>eb_id = 41, eb_space = 40, eb_title = ''Launch'', eb_startsAt = 1000, eb_endsAt = 2000, eb_contactName = None, eb_contactEmail = None,
     eb_contactPhone = None, eb_setupStyle = Some Banquet, eb_headcount = Some 55,
     eb_catering = Some [\<lparr>cl_description = ''Lunch'', cl_quantity = 10, cl_unitPrice = 8\<rparr>], eb_avRequirements = None, eb_notes = None,
     eb_status = EventConfirmed, eb_cancelledAt = None, eb_spaceHireFee = Some 50, eb_folio = None, eb_billedAt = None, eb_billedBy = None, eb_createdBy = Some 7\<rparr>"

definition hall :: events where
  "hall = \<lparr>ev_db = desk_db, ev_spaces = [hall_space], ev_bookings = [hall_event]\<rparr>"

definition hall_dto :: event_dto where
  "hall_dto = \<lparr>ed_title = ''Dinner'', ed_startsAt = 2000, ed_endsAt = 3000, ed_contactName = None, ed_contactEmail = None, ed_contactPhone = None,
     ed_setupStyle = None, ed_headcount = Some 80, ed_catering = None, ed_avRequirements = None, ed_notes = None, ed_spaceHireFee = None\<rparr>"

definition hall_manager :: jwt where
  "hall_manager = \<lparr>jw_sub = 7, jw_tenant = 1, jw_roles = [\<lparr>ra_branch = Some 1, ra_role = ''manager''\<rparr>], jw_apiKey = None\<rparr>"

lemma hall_ok: "calendar_ok hall"
  by (simp add: calendar_ok_def hall_def hall_event_def hall_space_def desk_db_def rivals_def fits_def findSpace_def seatsFor_def parseCapacities_def
      SETUP_STYLES_def List.map_filter_def)

theorem events_never_clash_witness:
  "\<exists>y s'. createBooking 40 hall_dto 7 hall = Inr (y, s') \<and> ev_bookings s' = [hall_event, y] \<and> rivals hall_event y \<and> separate hall_event y \<and> fits s' y"
proof -
  have "\<not> isl (createBooking 40 hall_dto 7 hall)" by code_simp
  then obtain y s' where c: "createBooking 40 hall_dto 7 hall = Inr (y, s')" using Inr_pair by blast
  then have e: "ev_bookings s' = [hall_event, y]" "eb_id y = 100" "eb_space y = 40" "eb_status y = EventConfirmed"
    by (auto simp: createBooking_def Let_def bindr_eq_Inr hall_def desk_db_def split: if_splits option.splits)
  have "(event_step decimal_js desk_tz)\<^sup>*\<^sup>* hall s'" using c by (blast intro: event_step.book)
  from events_never_clash[OF this hall_ok] have "rivals hall_event y \<longrightarrow> separate hall_event y" "fits s' y" using e(1) by simp_all
  moreover have "rivals hall_event y" using e by (simp add: rivals_def hall_event_def)
  ultimately show ?thesis using c e(1) by blast
qed

theorem event_billed_once_witness:
  "\<exists>z s'. billBooking decimal_js desk_tz 41 10 hall_manager 5 hall = Inr (z, s') \<and> balance (ev_db s') 10 = balance desk_db 10 + 136 \<and>
     (\<exists>e. billBooking decimal_js desk_tz 41 11 hall_manager 6 s' = Inl e)"
proof -
  have "\<not> isl (billBooking decimal_js desk_tz 41 10 hall_manager 5 hall)" by code_simp
  then obtain z s' where b: "billBooking decimal_js desk_tz 41 10 hall_manager 5 hall = Inr (z, s')" using Inr_pair by blast
  have l: "loadBooking hall 41 = Inr (hall_event, hall_space)" by (simp add: loadBooking_def findSpace_def hall_def hall_event_def hall_space_def)
  have ch: "event_charges hall_event = [(Misc, 50), (Fnb, 80)]" by (simp add: event_charges_def hall_event_def hireOf_def parseCatering_def cateringAmount_def)
  have "\<forall>c \<in> set (event_charges hall_event). is_money (snd c)"
    using is_moneyI[of 50 5000] is_moneyI[of 80 8000] by (simp add: ch)
  from event_billed_once[OF js.decimal_arith_axioms hall_ok l this b rtranclp.rtrancl_refl, of 10 11 hall_manager 6]
  have "balance (ev_db s') 10 = balance desk_db 10 + sum_list (map (chargeTotal decimal_js desk_db 1) (event_charges hall_event))"
    "\<exists>e. billBooking decimal_js desk_tz 41 11 hall_manager 6 s' = Inl e" by (simp_all add: hall_def hall_space_def)
  moreover have "sum_list (map (chargeTotal decimal_js desk_db 1) [(Misc, 50), (Fnb, 80)]) = 136" by code_simp
  ultimately show ?thesis using b ch by (intro exI[of _ z] exI[of _ s']) simp
qed

text \<open>
  The quote taxes the catering as one price, billing taxes every line: two lines of 10.06 at 7.5% are
  quoted at 21.63 and billed at 21.62.
\<close>

theorem event_quote_off_by_a_cent:
  "map_sum id et_total (eventTotals decimal_js desk_db 1 None
      [\<lparr>cl_description = ''Lunch'', cl_quantity = 1, cl_unitPrice = 1006 / 100\<rparr>, \<lparr>cl_description = ''Dinner'', cl_quantity = 1, cl_unitPrice = 1006 / 100\<rparr>]) =
      Inr (2163 / 100)"
  "sum_list (map (chargeTotal decimal_js desk_db 1) [(Fnb, 1006 / 100), (Fnb, 1006 / 100)]) = 2162 / 100"
  by code_simp+

end
