(* ===== verification/Webhooks.thy ===== *)
theory Webhooks
  imports House
begin

text \<open>
  Webhooks: queueing an event for the systems that listen and delivering it, with its retries
  (\<^verbatim>\<open>webhook-events.ts\<close>, \<^verbatim>\<open>webhook-events.service.ts\<close>, \<^verbatim>\<open>webhook-dispatcher.service.ts\<close> and the
  webhooks of \<^verbatim>\<open>integrations.service.ts\<close> under \<^verbatim>\<open>src/src/modules/integrations\<close>), for one tenant.

  Sending is a network exchange between two transactions, so several can be under way at once:
  \<open>attempt\<close> is written as its two halves, the claim and the recording of the answer, and the
  step relation interleaves the halves of different attempts. What the network answers, the
  cipher, the digest and the check of an address (\<^verbatim>\<open>webhook-http.ts\<close>) are fields of \<open>hook_env\<close>.
\<close>

section \<open>State\<close>

record webhook =
  wk_id :: nat
  wk_url :: string
  wk_eventTypes :: "string list"
  wk_secret :: string
  wk_branch :: "nat option"
  wk_isActive :: bool

datatype delivery_status = DeliveryPending | Delivered | DeliveryFailed

record webhook_payload =
  wp_id :: nat
  wp_type :: string
  wp_createdAt :: instant
  wp_branch :: "nat option"
  wp_data :: string

record delivery =
  wd_id :: nat
  wd_webhook :: nat
  wd_eventId :: nat
  wd_eventType :: string
  wd_payload :: webhook_payload
  wd_status :: delivery_status
  wd_attempts :: nat
  wd_nextAttemptAt :: instant
  wd_lockedUntil :: "instant option"
  wd_lastAttemptAt :: "instant option"
  wd_responseStatus :: "int option"
  wd_lastError :: "string option"
  wd_deliveredAt :: "instant option"
  wd_createdAt :: instant

record hooks =
  hk_webhooks :: "webhook list"
  hk_deliveries :: "delivery list"
  hk_branches :: "nat list"
  hk_audit :: "(nat \<times> string \<times> nat) list"
  hk_next :: nat

record post_result =
  ps_ok :: bool
  ps_status :: "int option"
  ps_error :: "string option"

record hook_env =
  he_send :: "string \<Rightarrow> string \<Rightarrow> (string \<times> string) list \<Rightarrow> post_result"
  he_json :: "webhook_payload \<Rightarrow> string"
  he_hmac :: "string \<Rightarrow> string \<Rightarrow> string"
  he_encrypt :: "string \<Rightarrow> string"
  he_decrypt :: "string \<Rightarrow> string result"
  he_uuid :: "nat \<Rightarrow> string"
  he_urlProblem :: "string \<Rightarrow> bool"

section \<open>Events\<close>

definition WEBHOOK_EVENT_TYPES :: "string list" where
  "WEBHOOK_EVENT_TYPES = [''reservation.created'', ''reservation.updated'', ''reservation.cancelled'', ''reservation.checked_in'',
     ''reservation.checked_out'', ''reservation.no_show'', ''reservation.walked'', ''reservation.room_moved'', ''payment.received'', ''refund.paid'']"

definition TEST_EVENT_TYPE :: string where "TEST_EVENT_TYPE = ''webhook.test''"

text \<open>A row as \<^verbatim>\<open>createMany\<close> writes it: the columns left out take the schema's defaults.\<close>

definition new_delivery :: "nat \<Rightarrow> webhook_payload \<Rightarrow> instant \<Rightarrow> nat \<Rightarrow> delivery" where
  "new_delivery webhookId payload now i =
     \<lparr>wd_id = i, wd_webhook = webhookId, wd_eventId = wp_id payload, wd_eventType = wp_type payload, wd_payload = payload,
      wd_status = DeliveryPending, wd_attempts = 0, wd_nextAttemptAt = now, wd_lockedUntil = None, wd_lastAttemptAt = None,
      wd_responseStatus = None, wd_lastError = None, wd_deliveredAt = None, wd_createdAt = now\<rparr>"

definition listens :: "string list \<Rightarrow> nat \<Rightarrow> webhook \<Rightarrow> bool" where
  "listens types branchId w \<longleftrightarrow> wk_isActive w \<and> (\<exists>t \<in> set types. t \<in> set (wk_eventTypes w)) \<and> (wk_branch w = None \<or> wk_branch w = Some branchId)"

definition queue_one :: "webhook_payload \<Rightarrow> instant \<Rightarrow> webhook \<Rightarrow> hooks \<Rightarrow> hooks" where
  "queue_one payload now w s =
     (if wp_type payload \<notin> set (wk_eventTypes w) then s
      else s\<lparr>hk_deliveries := hk_deliveries s @ [new_delivery (wk_id w) payload now (hk_next s)], hk_next := Suc (hk_next s)\<rparr>)"

text \<open>One event per type, its id shared by every webhook told about it.\<close>

definition queue_type :: "nat \<Rightarrow> string \<Rightarrow> instant \<Rightarrow> webhook list \<Rightarrow> string \<Rightarrow> hooks \<Rightarrow> hooks" where
  "queue_type branchId data now webhooks type s =
     (let payload = \<lparr>wp_id = hk_next s, wp_type = type, wp_createdAt = now, wp_branch = Some branchId, wp_data = data\<rparr>
      in fold (queue_one payload now) webhooks (s\<lparr>hk_next := Suc (hk_next s)\<rparr>))"

definition emit :: "nat \<Rightarrow> string list \<Rightarrow> string \<Rightarrow> instant \<Rightarrow> hooks \<Rightarrow> hooks" where
  "emit branchId types data now s =
     (let webhooks = filter (listens types branchId) (hk_webhooks s)
      in if webhooks = [] then s else fold (queue_type branchId data now webhooks) types s)"

definition reservationChanged :: "nat \<Rightarrow> string \<Rightarrow> string \<Rightarrow> instant \<Rightarrow> hooks \<Rightarrow> hooks" where
  "reservationChanged branchId action data now s =
     (let types = RESERVATION_ACTION_EVENTS action in if types = [] then s else emit branchId types data now s)"

definition paymentRecorded :: "nat \<Rightarrow> string \<Rightarrow> string \<Rightarrow> instant \<Rightarrow> hooks \<Rightarrow> hooks" where
  "paymentRecorded branchId type data now s = emit branchId [type] data now s"

section \<open>Delivering\<close>

definition MAX_ATTEMPTS :: nat where "MAX_ATTEMPTS = 8"

definition RETRY_DELAYS_MS :: "int list" where
  "RETRY_DELAYS_MS = [60000, 5 * 60000, 15 * 60000, 60 * 60000, 3 * 3600000, 6 * 3600000, 12 * 3600000]"

definition CLAIM_MS :: int where "CLAIM_MS = 60000"
definition BATCH_SIZE :: nat where "BATCH_SIZE = 25"
definition RETENTION_DAYS :: int where "RETENTION_DAYS = 30"

definition upd_delivery :: "nat \<Rightarrow> (delivery \<Rightarrow> delivery) \<Rightarrow> hooks \<Rightarrow> hooks" where
  "upd_delivery i f s = s\<lparr>hk_deliveries := map (\<lambda>d. if wd_id d = i then f d else d) (hk_deliveries s)\<rparr>"

definition findDelivery :: "hooks \<Rightarrow> nat \<Rightarrow> delivery option" where
  "findDelivery s i = List.find (\<lambda>d. wd_id d = i) (hk_deliveries s)"

definition unlocked :: "instant \<Rightarrow> delivery \<Rightarrow> bool" where
  "unlocked now d \<longleftrightarrow> (case wd_lockedUntil d of None \<Rightarrow> True | Some t \<Rightarrow> t < now)"

text \<open>The first transaction of \<^verbatim>\<open>attempt\<close>: the claimed row with its webhook as it is then, unless there is nothing to claim.\<close>

definition findWebhook :: "hooks \<Rightarrow> nat \<Rightarrow> webhook option" where
  "findWebhook s i = List.find (\<lambda>w. wk_id w = i) (hk_webhooks s)"

definition claim :: "nat \<Rightarrow> instant \<Rightarrow> hooks \<Rightarrow> (delivery \<times> webhook) option \<times> hooks" where
  "claim deliveryId now s =
     (case findDelivery s deliveryId of
        None \<Rightarrow> (None, s)
      | Some d \<Rightarrow>
          if wd_status d = DeliveryPending \<and> unlocked now d
          then let s = upd_delivery deliveryId (\<lambda>d. d\<lparr>wd_lockedUntil := Some (now + CLAIM_MS)\<rparr>) s
               in (case (findDelivery s deliveryId, findWebhook s (wd_webhook d)) of (Some c, Some w) \<Rightarrow> Some (c, w) | _ \<Rightarrow> None, s)
          else (None, s))"

definition signatureHeader :: "hook_env \<Rightarrow> string \<Rightarrow> string \<Rightarrow> nat \<Rightarrow> string" where
  "signatureHeader E secret body timestamp =
     ''t='' @ show_nat timestamp @ '',v1='' @ he_hmac E secret (show_nat timestamp @ ''.'' @ body)"

definition signingSecret :: "hook_env \<Rightarrow> string \<Rightarrow> string result" where
  "signingSecret E stored = (if CHR '':'' \<in> set stored then he_decrypt E stored else Inr stored)"

definition post :: "hook_env \<Rightarrow> webhook \<Rightarrow> delivery \<Rightarrow> instant \<Rightarrow> post_result result" where
  "post E w claimed now =
     (let body = he_json E (wd_payload claimed)
      in bindr (signingSecret E (wk_secret w)) (\<lambda>secret.
           Inr (he_send E (wk_url w) body
             [(''User-Agent'', ''Roomick-Webhooks/1.0''), (''Roomick-Event'', wd_eventType claimed),
              (''Roomick-Delivery'', he_uuid E (wd_id claimed)), (''Roomick-Signature'', signatureHeader E secret body (nat (now div 1000)))])))"

text \<open>What the answer makes of the claimed row, \<open>now\<close> being the moment it came.\<close>

definition outcome :: "delivery \<Rightarrow> post_result \<Rightarrow> instant \<Rightarrow> delivery \<Rightarrow> delivery" where
  "outcome claimed result now d =
     (let attempts = wd_attempts claimed + 1;
          lastTry = (MAX_ATTEMPTS \<le> attempts \<or> wd_eventType claimed = TEST_EVENT_TYPE);
          d = (if ps_ok result then d\<lparr>wd_status := Delivered, wd_deliveredAt := Some now, wd_lastError := None\<rparr>
               else if lastTry then d\<lparr>wd_status := DeliveryFailed, wd_lastError := ps_error result\<rparr>
               else d\<lparr>wd_status := DeliveryPending, wd_nextAttemptAt := now + RETRY_DELAYS_MS ! (attempts - 1), wd_lastError := ps_error result\<rparr>)
      in d\<lparr>wd_attempts := attempts, wd_lastAttemptAt := Some now, wd_responseStatus := ps_status result, wd_lockedUntil := None\<rparr>)"

definition switchedOff :: "delivery \<Rightarrow> delivery" where
  "switchedOff d = d\<lparr>wd_status := DeliveryFailed,
     wd_lastError := Some ''The webhook was switched off before this was sent'', wd_lockedUntil := None\<rparr>"

text \<open>\<^verbatim>\<open>update\<close> of one row: an error when it is gone (pruned meanwhile).\<close>

definition record_delivery :: "nat \<Rightarrow> (delivery \<Rightarrow> delivery) \<Rightarrow> hooks \<Rightarrow> delivery option result \<times> hooks" where
  "record_delivery deliveryId f s =
     (case findDelivery s deliveryId of
        None \<Rightarrow> (Inl PlainError, s)
      | Some d \<Rightarrow> (Inr (Some (f d)), upd_delivery deliveryId f s))"

text \<open>The second half: sending and recording. A claim is kept when the secret cannot be read.\<close>

definition finish :: "hook_env \<Rightarrow> delivery \<times> webhook \<Rightarrow> instant \<Rightarrow> instant \<Rightarrow> hooks \<Rightarrow> delivery option result \<times> hooks" where
  "finish E cw now answered s =
     (let (claimed, w) = cw in
      if \<not> wk_isActive w then record_delivery (wd_id claimed) switchedOff s
      else case post E w claimed now of
        Inl e \<Rightarrow> (Inl e, s)
      | Inr result \<Rightarrow> record_delivery (wd_id claimed) (outcome claimed result answered) s)"

definition attempt :: "hook_env \<Rightarrow> nat \<Rightarrow> instant \<Rightarrow> instant \<Rightarrow> hooks \<Rightarrow> delivery option result \<times> hooks" where
  "attempt E deliveryId now answered s =
     (case claim deliveryId now s of
        (None, s) \<Rightarrow> (Inr None, s)
      | (Some claimed, s) \<Rightarrow> finish E claimed now answered s)"

definition due :: "instant \<Rightarrow> hooks \<Rightarrow> delivery list" where
  "due now s = take BATCH_SIZE (sort_key wd_nextAttemptAt
     (filter (\<lambda>d. wd_status d = DeliveryPending \<and> wd_nextAttemptAt d \<le> now \<and> unlocked now d) (hk_deliveries s)))"

text \<open>
  A pass over what is due, taken one after the other: what came of each delivery, \<open>answered\<close> being when its
  exchange ended.
\<close>

definition dispatchForTenant :: "hook_env \<Rightarrow> instant \<Rightarrow> (nat \<Rightarrow> instant) \<Rightarrow> hooks \<Rightarrow> delivery option result list \<times> hooks" where
  "dispatchForTenant E now answered s =
     fold (\<lambda>d (outcomes, s). let (r, s) = attempt E (wd_id d) now (answered (wd_id d)) s in (outcomes @ [r], s)) (due now s) ([], s)"

definition retry_reset :: "nat \<Rightarrow> instant \<Rightarrow> hooks \<Rightarrow> unit result \<times> hooks" where
  "retry_reset deliveryId now s =
     (case findDelivery s deliveryId of
        None \<Rightarrow> (Inl (NotFound NOT_FOUND), s)
      | Some d \<Rightarrow>
          if wd_status d = Delivered then (Inl (Conflict CONFLICT), s)
          else (Inr (), upd_delivery deliveryId (\<lambda>d. if unlocked now d then d\<lparr>wd_status := DeliveryPending, wd_nextAttemptAt := now\<rparr> else d) s))"

definition answer_now :: "delivery option result \<Rightarrow> delivery result" where
  "answer_now r = bindr r (\<lambda>sent. case sent of None \<Rightarrow> Inl (Conflict CONFLICT) | Some d \<Rightarrow> Inr d)"

definition retryNow :: "hook_env \<Rightarrow> nat \<Rightarrow> instant \<Rightarrow> instant \<Rightarrow> hooks \<Rightarrow> delivery result \<times> hooks" where
  "retryNow E deliveryId now answered s =
     (case retry_reset deliveryId now s of
        (Inl e, s) \<Rightarrow> (Inl e, s)
      | (Inr _, s) \<Rightarrow> (let (r, s) = attempt E deliveryId now answered s in (answer_now r, s)))"

definition sendTest :: "hook_env \<Rightarrow> nat \<Rightarrow> instant \<Rightarrow> instant \<Rightarrow> hooks \<Rightarrow> delivery result \<times> hooks" where
  "sendTest E webhookId now answered s =
     (case findWebhook s webhookId of
        None \<Rightarrow> (Inl (NotFound NOT_FOUND), s)
      | Some w \<Rightarrow>
          if \<not> wk_isActive w then (Inl (Conflict CONFLICT), s)
          else let payload = \<lparr>wp_id = hk_next s, wp_type = TEST_EVENT_TYPE, wp_createdAt = now, wp_branch = wk_branch w,
                      wp_data = ''A test from Roomick. If you can read this, your endpoint receives webhooks.''\<rparr>;
                   i = Suc (hk_next s);
                   s = s\<lparr>hk_deliveries := hk_deliveries s @ [new_delivery webhookId payload now i], hk_next := Suc i\<rparr>;
                   (r, s) = attempt E i now answered s
               in (answer_now r, s))"

definition prune :: "instant \<Rightarrow> hooks \<Rightarrow> nat \<times> hooks" where
  "prune now s =
     (let before = now - RETENTION_DAYS * 86400000;
          kept = filter (\<lambda>d. \<not> wd_createdAt d < before) (hk_deliveries s)
      in (length (hk_deliveries s) - length kept, s\<lparr>hk_deliveries := kept\<rparr>))"

section \<open>The webhooks themselves\<close>

record webhook_dto =
  wt_url :: string
  wt_eventTypes :: "string list"
  wt_branch :: "nat option"

record webhook_patch =
  wq_url :: "string option"
  wq_eventTypes :: "string list option"
  wq_branch :: "nat option option"
  wq_isActive :: "bool option"

definition hook_branch :: "hooks \<Rightarrow> nat option \<Rightarrow> unit result" where
  "hook_branch s b = (case b of None \<Rightarrow> Inr () | Some i \<Rightarrow> if i \<in> set (hk_branches s) then Inr () else Inl (NotFound NOT_FOUND))"

definition createWebhook :: "hook_env \<Rightarrow> webhook_dto \<Rightarrow> string \<Rightarrow> nat \<Rightarrow> hooks \<Rightarrow> (webhook \<times> hooks) result" where
  "createWebhook E dto secret actorId s =
     (if he_urlProblem E (wt_url dto) then Inl (BadRequest VALIDATION_FAILED)
      else bindr (hook_branch s (wt_branch dto)) (\<lambda>_.
        let w = \<lparr>wk_id = hk_next s, wk_url = wt_url dto, wk_eventTypes = js_unique (wt_eventTypes dto), wk_secret = he_encrypt E secret,
               wk_branch = wt_branch dto, wk_isActive = True\<rparr>
        in Inr (w, s\<lparr>hk_webhooks := hk_webhooks s @ [w], hk_next := Suc (hk_next s),
                      hk_audit := hk_audit s @ [(actorId, ''webhook.created'', wk_id w)]\<rparr>)))"

definition dropWaiting :: "nat \<Rightarrow> hooks \<Rightarrow> hooks" where
  "dropWaiting webhookId s =
     s\<lparr>hk_deliveries := map (\<lambda>d. if wd_webhook d = webhookId \<and> wd_status d = DeliveryPending then switchedOff d else d) (hk_deliveries s)\<rparr>"

definition updateWebhook :: "hook_env \<Rightarrow> nat \<Rightarrow> webhook_patch \<Rightarrow> nat \<Rightarrow> hooks \<Rightarrow> (webhook \<times> hooks) result" where
  "updateWebhook E webhookId dto actorId s =
     (if (case wq_url dto of None \<Rightarrow> False | Some u \<Rightarrow> he_urlProblem E u) then Inl (BadRequest VALIDATION_FAILED)
      else case findWebhook s webhookId of
        None \<Rightarrow> Inl (NotFound NOT_FOUND)
      | Some w \<Rightarrow>
          bindr (hook_branch s (the_default None (wq_branch dto))) (\<lambda>_.
          if wq_isActive dto = Some True \<and> wq_eventTypes dto = None \<and> wk_eventTypes w = [] then Inl (BadRequest VALIDATION_FAILED)
          else let u = w\<lparr>wk_url := the_default (wk_url w) (wq_url dto),
                         wk_eventTypes := the_default (wk_eventTypes w) (map_option js_unique (wq_eventTypes dto)),
                         wk_branch := the_default (wk_branch w) (wq_branch dto),
                         wk_isActive := the_default (wk_isActive w) (wq_isActive dto)\<rparr>;
                   s = s\<lparr>hk_webhooks := map (\<lambda>x. if wk_id x = webhookId then u else x) (hk_webhooks s)\<rparr>;
                   s = (if wk_isActive w \<and> \<not> wk_isActive u then dropWaiting webhookId s else s)
               in Inr (u, s\<lparr>hk_audit := hk_audit s @ [(actorId, ''webhook.updated'', webhookId)]\<rparr>)))"

definition deactivateWebhook :: "hook_env \<Rightarrow> nat \<Rightarrow> nat \<Rightarrow> hooks \<Rightarrow> (webhook \<times> hooks) result" where
  "deactivateWebhook E webhookId actorId =
     updateWebhook E webhookId \<lparr>wq_url = None, wq_eventTypes = None, wq_branch = None, wq_isActive = Some False\<rparr> actorId"

section \<open>Attempts under way\<close>

text \<open>
  The tables, the attempts that have claimed a delivery and not yet recorded its answer, and the
  time. An exchange is cut off after ten seconds, so none is still under way when its claim of a minute
  runs out: time never passes the claim of an attempt under way. The webhooks stay switched on.
\<close>

record wire =
  wi_hooks :: hooks
  wi_flights :: "((delivery \<times> webhook) \<times> instant) list"
  wi_now :: instant

inductive wire_step :: "hook_env \<Rightarrow> bool \<Rightarrow> wire \<Rightarrow> wire \<Rightarrow> bool" for E retries where
  tick: "wi_now w \<le> t \<Longrightarrow> \<forall>(d, t0) \<in> set (wi_flights w). t \<le> t0 + CLAIM_MS \<Longrightarrow> wire_step E retries w (w\<lparr>wi_now := t\<rparr>)"
| queued: "s' = emit b types data (wi_now w) (wi_hooks w) \<Longrightarrow> wire_step E retries w (w\<lparr>wi_hooks := s'\<rparr>)"
| claimed: "claim i (wi_now w) (wi_hooks w) = (Some (d, v), s') \<Longrightarrow>
    wire_step E retries w (w\<lparr>wi_hooks := s', wi_flights := wi_flights w @ [((d, v), wi_now w)]\<rparr>)"
| finished: "wi_flights w = fs @ ((d, v), t0) # gs \<Longrightarrow> finish E (d, v) t0 (wi_now w) (wi_hooks w) = (r, s') \<Longrightarrow>
    wire_step E retries w (w\<lparr>wi_hooks := s', wi_flights := fs @ gs\<rparr>)"
| retried: "retries \<Longrightarrow> retry_reset i (wi_now w) (wi_hooks w) = (r, s') \<Longrightarrow> wire_step E retries w (w\<lparr>wi_hooks := s'\<rparr>)"
| pruned: "prune (wi_now w) (wi_hooks w) = (n, s') \<Longrightarrow> wire_step E retries w (w\<lparr>wi_hooks := s'\<rparr>)"

abbreviation flown :: "(delivery \<times> webhook) \<times> instant \<Rightarrow> delivery" where
  "flown f \<equiv> fst (fst f)"

definition held :: "hooks \<Rightarrow> instant \<Rightarrow> (delivery \<times> webhook) \<times> instant \<Rightarrow> bool" where
  "held s now f \<longleftrightarrow> now \<le> snd f + CLAIM_MS \<and> wd_id (flown f) < hk_next s \<and>
     (\<forall>d \<in> set (hk_deliveries s). wd_id d = wd_id (flown f) \<longrightarrow>
        wd_status d = DeliveryPending \<and> wd_lockedUntil d = Some (snd f + CLAIM_MS) \<and> wd_attempts d = wd_attempts (flown f) \<and> wd_eventType d = wd_eventType (flown f))"

text \<open>
  Distinct rows; a row that is waiting has tries left; the attempts under way are of different
  deliveries and hold them.
\<close>

definition wire_ok :: "wire \<Rightarrow> bool" where
  "wire_ok w \<longleftrightarrow> (let s = wi_hooks w in
     distinct (map wd_id (hk_deliveries s)) \<and> (\<forall>d \<in> set (hk_deliveries s). wd_id d < hk_next s) \<and>
     distinct (map (wd_id \<circ> flown) (wi_flights w)) \<and> (\<forall>f \<in> set (wi_flights w). held s (wi_now w) f))"

lemma findDelivery_Some: "findDelivery s i = Some d \<Longrightarrow> d \<in> set (hk_deliveries s) \<and> wd_id d = i"
  by (auto simp: findDelivery_def dest: find_Some_mem)

lemma findDelivery_mem:
  assumes "distinct (map wd_id (hk_deliveries s))" and "d \<in> set (hk_deliveries s)"
  shows "findDelivery s (wd_id d) = Some d"
proof -
  have "\<exists>x. findDelivery s (wd_id d) = Some x" using assms(2) by (cases "findDelivery s (wd_id d)") (auto simp: findDelivery_def find_None_ex)
  then show ?thesis using assms findDelivery_Some by (metis distinct_map inj_onD)
qed

lemma upd_delivery_sel [simp]:
  "hk_deliveries (upd_delivery i f s) = map (\<lambda>d. if wd_id d = i then f d else d) (hk_deliveries s)"
  "hk_next (upd_delivery i f s) = hk_next s" "hk_webhooks (upd_delivery i f s) = hk_webhooks s"
  by (simp_all add: upd_delivery_def)

lemma outcome_sel [simp]:
  "wd_id (outcome c r t d) = wd_id d" "wd_attempts (outcome c r t d) = Suc (wd_attempts c)" "wd_lockedUntil (outcome c r t d) = None"
  "wd_eventType (outcome c r t d) = wd_eventType d"
  "wd_status (outcome c r t d) =
     (if ps_ok r then Delivered else if MAX_ATTEMPTS \<le> Suc (wd_attempts c) \<or> wd_eventType c = TEST_EVENT_TYPE then DeliveryFailed else DeliveryPending)"
  by (simp_all add: outcome_def Let_def)

lemma switchedOff_sel [simp]:
  "wd_id (switchedOff d) = wd_id d" "wd_attempts (switchedOff d) = wd_attempts d" "wd_status (switchedOff d) = DeliveryFailed"
  "wd_lockedUntil (switchedOff d) = None"
  by (simp_all add: switchedOff_def)

text \<open>Queueing only adds rows, with new numbers, waiting and untried.\<close>

definition fresh_rows :: "hooks \<Rightarrow> hooks \<Rightarrow> bool" where
  "fresh_rows s s' \<longleftrightarrow> (\<exists>ds. hk_deliveries s' = hk_deliveries s @ ds \<and> distinct (map wd_id ds) \<and>
     (\<forall>d \<in> set ds. hk_next s \<le> wd_id d \<and> wd_id d < hk_next s' \<and> wd_status d = DeliveryPending \<and> wd_attempts d = 0)) \<and> hk_next s \<le> hk_next s'"

lemma fresh_rows_refl: "fresh_rows s s"
  by (simp add: fresh_rows_def)

lemma fresh_rows_trans:
  assumes "fresh_rows s t" and "fresh_rows t u"
  shows "fresh_rows s u"
proof -
  from assms obtain ds es where d: "hk_deliveries t = hk_deliveries s @ ds" "distinct (map wd_id ds)"
      "\<forall>d \<in> set ds. hk_next s \<le> wd_id d \<and> wd_id d < hk_next t \<and> wd_status d = DeliveryPending \<and> wd_attempts d = 0" "hk_next s \<le> hk_next t"
    and e: "hk_deliveries u = hk_deliveries t @ es" "distinct (map wd_id es)"
      "\<forall>d \<in> set es. hk_next t \<le> wd_id d \<and> wd_id d < hk_next u \<and> wd_status d = DeliveryPending \<and> wd_attempts d = 0" "hk_next t \<le> hk_next u"
    by (auto simp: fresh_rows_def)
  have "distinct (map wd_id (ds @ es))" using d e by fastforce
  moreover have "\<forall>d \<in> set (ds @ es). hk_next s \<le> wd_id d \<and> wd_id d < hk_next u \<and> wd_status d = DeliveryPending \<and> wd_attempts d = 0"
    using d e by fastforce
  ultimately show ?thesis unfolding fresh_rows_def using d(1,4) e(1,4) by (intro conjI exI[of _ "ds @ es"]) simp_all
qed

lemma queue_one_fresh: "fresh_rows s (queue_one p now w s)"
  unfolding fresh_rows_def queue_one_def new_delivery_def by auto

lemma queue_ones_fresh: "fresh_rows s (fold (queue_one p now) ws s)"
  by (induction ws arbitrary: s) (auto intro: fresh_rows_refl fresh_rows_trans queue_one_fresh)

lemma queue_type_fresh: "fresh_rows s (queue_type b data now ws type s)"
proof -
  have "fresh_rows s (s\<lparr>hk_next := Suc (hk_next s)\<rparr>)" by (simp add: fresh_rows_def)
  then show ?thesis unfolding queue_type_def Let_def by (rule fresh_rows_trans[OF _ queue_ones_fresh])
qed

lemma emit_fresh: "fresh_rows s (emit b types data now s)"
proof -
  have "fresh_rows s (fold (queue_type b data now ws) types s)" for ws
    by (induction types arbitrary: s) (auto intro: fresh_rows_refl fresh_rows_trans queue_type_fresh)
  then show ?thesis by (simp add: emit_def Let_def fresh_rows_refl)
qed

section \<open>No delivery is sent twice at once\<close>

text \<open>Rows rewritten in place, but for those an attempt still holds.\<close>

lemma wire_ok_map:
  assumes "wire_ok w" and "hk_deliveries s' = map f (hk_deliveries (wi_hooks w))" and "hk_next s' = hk_next (wi_hooks w)"
    and "\<And>d. wd_id (f d) = wd_id d" and "set fl \<subseteq> set (wi_flights w)" and "distinct (map (wd_id \<circ> flown) fl)"
    and "\<And>d x. d \<in> set (hk_deliveries (wi_hooks w)) \<Longrightarrow> x \<in> set fl \<Longrightarrow> wd_id d = wd_id (flown x) \<Longrightarrow> f d = d"
  shows "wire_ok (w\<lparr>wi_hooks := s', wi_flights := fl\<rparr>)"
proof -
  have "map wd_id (hk_deliveries s') = map wd_id (hk_deliveries (wi_hooks w))" by (simp add: assms(2,4))
  moreover have "\<forall>d \<in> set (hk_deliveries s'). wd_id d < hk_next s'" using assms(1-4) by (auto simp: wire_ok_def Let_def)
  moreover have "held s' (wi_now w) x" if x: "x \<in> set fl" for x
  proof -
    have h: "held (wi_hooks w) (wi_now w) x" using assms(1,5) x by (auto simp: wire_ok_def Let_def)
    then show ?thesis using assms(2,3,4,7) x by (auto simp: held_def)
  qed
  ultimately show ?thesis using assms(1,6) by (simp add: wire_ok_def Let_def)
qed

lemma held_locked:
  assumes "wire_ok w" and "x \<in> set (wi_flights w)" and "d \<in> set (hk_deliveries (wi_hooks w))" and "wd_id d = wd_id (flown x)"
  shows "wd_status d = DeliveryPending" and "\<not> unlocked (wi_now w) d"
proof -
  have "held (wi_hooks w) (wi_now w) x" using assms(1,2) by (auto simp: wire_ok_def Let_def)
  with assms(3,4) have "wd_status d = DeliveryPending \<and> wd_lockedUntil d = Some (snd x + CLAIM_MS) \<and> wi_now w \<le> snd x + CLAIM_MS"
    by (auto simp: held_def)
  then show "wd_status d = DeliveryPending" "\<not> unlocked (wi_now w) d" by (auto simp: unlocked_def)
qed

lemma claim_Some:
  assumes "claim i now s = (Some (c, v), s')"
  obtains d where "findDelivery s i = Some d" and "wd_status d = DeliveryPending" and "unlocked now d"
    and "c = d\<lparr>wd_lockedUntil := Some (now + CLAIM_MS)\<rparr>" and "s' = upd_delivery i (\<lambda>d. d\<lparr>wd_lockedUntil := Some (now + CLAIM_MS)\<rparr>) s"
proof -
  from assms obtain d where d: "findDelivery s i = Some d" "wd_status d = DeliveryPending" "unlocked now d"
    and s': "s' = upd_delivery i (\<lambda>d. d\<lparr>wd_lockedUntil := Some (now + CLAIM_MS)\<rparr>) s" and c: "findDelivery s' i = Some c"
    by (auto simp: claim_def Let_def split: option.splits if_splits)
  have "findDelivery s' i = map_option (\<lambda>d. if wd_id d = i then d\<lparr>wd_lockedUntil := Some (now + CLAIM_MS)\<rparr> else d) (findDelivery s i)"
    unfolding s' findDelivery_def by (simp add: find_map_inv)
  with c d(1) findDelivery_Some[OF d(1)] have "c = d\<lparr>wd_lockedUntil := Some (now + CLAIM_MS)\<rparr>" by simp
  with d s' that show thesis by blast
qed

text \<open>What recording an answer can do to the rows.\<close>

lemma finish_rows:
  assumes "finish E (c, v) now ans s = (r, s')"
  obtains "s' = s" | "s' = upd_delivery (wd_id c) switchedOff s" | res where "s' = upd_delivery (wd_id c) (outcome c res ans) s"
  using assms by (auto simp: finish_def Let_def record_delivery_def split: option.splits if_splits sum.splits)

lemma wire_step_ok:
  assumes "wire_step E retries w w'" and ok: "wire_ok w"
  shows "wire_ok w'"
  using assms(1)
proof cases
  case (tick t)
  then show ?thesis using ok by (fastforce simp: wire_ok_def held_def Let_def)
next
  case (queued s' b types data)
  have "fresh_rows (wi_hooks w) s'" using queued emit_fresh by simp
  then obtain ds where ds: "hk_deliveries s' = hk_deliveries (wi_hooks w) @ ds" "distinct (map wd_id ds)" "\<forall>d \<in> set ds. hk_next (wi_hooks w) \<le> wd_id d \<and> wd_id d < hk_next s'"
    "hk_next (wi_hooks w) \<le> hk_next s'" by (auto simp: fresh_rows_def)
  have "held s' (wi_now w) f" if "f \<in> set (wi_flights w)" for f
    using that ok ds by (fastforce simp: wire_ok_def held_def Let_def)
  moreover have "distinct (map wd_id (hk_deliveries s'))" using ok ds by (fastforce simp: wire_ok_def Let_def)
  moreover have "\<forall>d \<in> set (hk_deliveries s'). wd_id d < hk_next s'" using ok ds by (fastforce simp: wire_ok_def Let_def)
  ultimately show ?thesis using ok queued(1) by (simp add: wire_ok_def Let_def)
next
  case (claimed i c v s')
  from claimed(2) obtain d where d: "findDelivery (wi_hooks w) i = Some d" "wd_status d = DeliveryPending" "unlocked (wi_now w) d"
    and c: "c = d\<lparr>wd_lockedUntil := Some (wi_now w + CLAIM_MS)\<rparr>"
    and s': "s' = upd_delivery i (\<lambda>d. d\<lparr>wd_lockedUntil := Some (wi_now w + CLAIM_MS)\<rparr>) (wi_hooks w)" by (rule claim_Some)
  note dm = findDelivery_Some[OF d(1)]
  have new: "wd_id (flown f) \<noteq> i" if "f \<in> set (wi_flights w)" for f using held_locked(2)[OF ok that, of d] dm d(3) by auto
  have one: "x = d" if "x \<in> set (hk_deliveries (wi_hooks w))" "wd_id x = i" for x
    using findDelivery_mem[of "wi_hooks w" x] that ok d(1) by (simp add: wire_ok_def Let_def)
  have "wire_ok (w\<lparr>wi_hooks := s', wi_flights := wi_flights w\<rparr>)"
    by (rule wire_ok_map[OF ok, of s' "\<lambda>d. if wd_id d = i then d\<lparr>wd_lockedUntil := Some (wi_now w + CLAIM_MS)\<rparr> else d"])
      (use ok new s' in \<open>auto simp: wire_ok_def Let_def\<close>)
  moreover have "held s' (wi_now w) ((c, v), wi_now w)" unfolding held_def
  proof (intro conjI ballI impI)
    show "wd_id (flown ((c, v), wi_now w)) < hk_next s'" using dm ok c s' by (auto simp: wire_ok_def Let_def)
    fix x
    assume "x \<in> set (hk_deliveries s')" and "wd_id x = wd_id (flown ((c, v), wi_now w))"
    then have "x = c" using one dm c s' by (auto split: if_splits)
    then show "wd_status x = DeliveryPending" "wd_lockedUntil x = Some (snd ((c, v), wi_now w) + CLAIM_MS)"
      "wd_attempts x = wd_attempts (flown ((c, v), wi_now w))" "wd_eventType x = wd_eventType (flown ((c, v), wi_now w))" using c d(2) by simp_all
  qed (simp add: CLAIM_MS_def)
  moreover have "wd_id c = i" using c dm by simp
  ultimately show ?thesis using new claimed(1) by (force simp: wire_ok_def Let_def)
next
  case (finished fs d v t0 gs r s')
  have dis: "distinct (map (wd_id \<circ> flown) (fs @ ((d, v), t0) # gs))" using ok unfolding wire_ok_def Let_def finished(2) by blast
  have fl: "set (fs @ gs) \<subseteq> set (wi_flights w)" "distinct (map (wd_id \<circ> flown) (fs @ gs))" using finished(2) dis by auto
  have "wd_id d \<notin> (wd_id \<circ> flown) ` set (fs @ gs)" using dis by auto
  then have other: "wd_id (flown x) \<noteq> wd_id d" if "x \<in> set (fs @ gs)" for x using that by (metis comp_apply imageI)
  have upd: "wire_ok (w\<lparr>wi_hooks := upd_delivery (wd_id d) g (wi_hooks w), wi_flights := fs @ gs\<rparr>)" if "\<And>x. wd_id (g x) = wd_id x" for g
    by (rule wire_ok_map[OF ok, of _ "\<lambda>x. if wd_id x = wd_id d then g x else x"]) (use fl other that in auto)
  from finished(3) show ?thesis unfolding finished(1)
  proof (cases rule: finish_rows)
    case 1
    have "wire_ok (w\<lparr>wi_hooks := wi_hooks w, wi_flights := fs @ gs\<rparr>)" by (rule wire_ok_map[OF ok, of _ "\<lambda>x. x"]) (use fl in auto)
    with 1 show "wire_ok (w\<lparr>wi_hooks := s', wi_flights := fs @ gs\<rparr>)" by simp
  qed (use upd in simp_all)
next
  case (retried i r s')
  have "s' = wi_hooks w \<or> s' = upd_delivery i (\<lambda>d. if unlocked (wi_now w) d then d\<lparr>wd_status := DeliveryPending, wd_nextAttemptAt := wi_now w\<rparr> else d) (wi_hooks w)"
    using retried(3) by (auto simp: retry_reset_def split: option.splits if_splits)
  moreover have "wire_ok (w\<lparr>wi_hooks := upd_delivery i (\<lambda>d. if unlocked (wi_now w) d then d\<lparr>wd_status := DeliveryPending, wd_nextAttemptAt := wi_now w\<rparr> else d) (wi_hooks w), wi_flights := wi_flights w\<rparr>)"
    by (rule wire_ok_map[OF ok, of _ "\<lambda>d. if wd_id d = i then if unlocked (wi_now w) d then d\<lparr>wd_status := DeliveryPending, wd_nextAttemptAt := wi_now w\<rparr> else d else d"])
      (use ok held_locked(2)[OF ok] in \<open>auto simp: wire_ok_def Let_def\<close>)
  ultimately show ?thesis using retried(1) ok by auto
next
  case (pruned n s')
  then have s': "hk_deliveries s' = filter (\<lambda>d. \<not> wd_createdAt d < wi_now w - RETENTION_DAYS * 86400000) (hk_deliveries (wi_hooks w))" "hk_next s' = hk_next (wi_hooks w)"
    by (auto simp: prune_def Let_def)
  then show ?thesis using ok pruned(1) by (auto simp: wire_ok_def held_def Let_def distinct_map_filter)
qed

interpretation wires: step_invariant "wire_step E retries" wire_ok for E retries
  by unfold_locales (rule wire_step_ok)

lemma wire_step_ids:
  assumes "wire_step E retries w w'"
  shows "hk_next (wi_hooks w) \<le> hk_next (wi_hooks w') \<and>
    (\<forall>x \<in> set (hk_deliveries (wi_hooks w')). wd_id x \<in> wd_id ` set (hk_deliveries (wi_hooks w)) \<or> hk_next (wi_hooks w) \<le> wd_id x)"
  using assms
proof cases
  case (queued s' b types data)
  then show ?thesis using emit_fresh[of "wi_hooks w" b types data "wi_now w"] by (fastforce simp: fresh_rows_def)
next
  case (claimed i c v s')
  from claimed(2) show ?thesis by (rule claim_Some) (use claimed(1) in auto)
next
  case (finished fs c v t0 gs r s')
  from finished(3) show ?thesis by (cases rule: finish_rows) (use finished(1) in \<open>auto intro: rev_image_eqI\<close>)
next
  case (retried i r s')
  then show ?thesis by (auto simp: retry_reset_def split: option.splits if_splits)
next
  case (pruned n s')
  then show ?thesis by (auto simp: prune_def Let_def)
qed auto

text \<open>A delivered row is never touched again, and no step takes one back.\<close>

lemma wire_step_delivered:
  assumes "wire_step E retries w w'" and ok: "wire_ok w" and "d \<in> set (hk_deliveries (wi_hooks w))" and "wd_status d = Delivered"
    and "d' \<in> set (hk_deliveries (wi_hooks w'))" and "wd_id d' = wd_id d"
  shows "d' = d"
proof -
  have uniq: "x = d" if "x \<in> set (hk_deliveries (wi_hooks w))" "wd_id x = wd_id d" for x
    using that assms(3) ok by (auto simp: wire_ok_def Let_def distinct_map inj_on_def)
  have upd: "d' = d" if "hk_deliveries (wi_hooks w') = map (\<lambda>x. if wd_id x = i then g x else x) (hk_deliveries (wi_hooks w))" "\<And>x. wd_id (g x) = wd_id x" "i \<noteq> wd_id d" for i g
    using that assms(5,6) uniq by (auto split: if_splits)
  from assms(1) show ?thesis
  proof cases
    case (tick t)
    then show ?thesis using uniq assms(5,6) by simp
  next
    case (queued s' b types data)
    have "fresh_rows (wi_hooks w) s'" using queued emit_fresh by simp
    moreover have "wd_id d < hk_next (wi_hooks w)" using ok assms(3) by (auto simp: wire_ok_def Let_def)
    ultimately show ?thesis using uniq assms(5,6) queued(1) by (fastforce simp: fresh_rows_def)
  next
    case (claimed i c v s')
    from claimed(2) show ?thesis
    proof (rule claim_Some)
      fix x
      assume x: "findDelivery (wi_hooks w) i = Some x" "wd_status x = DeliveryPending"
        and s': "s' = upd_delivery i (\<lambda>d. d\<lparr>wd_lockedUntil := Some (wi_now w + CLAIM_MS)\<rparr>) (wi_hooks w)"
      have "i \<noteq> wd_id d" using findDelivery_Some[OF x(1)] uniq[of x] x(2) assms(4) by auto
      with s' claimed(1) show ?thesis by (intro upd[of i "\<lambda>d. d\<lparr>wd_lockedUntil := Some (wi_now w + CLAIM_MS)\<rparr>"]) simp_all
    qed
  next
    case (finished fs c v t0 gs r s')
    have "wd_id c \<noteq> wd_id d" using held_locked(1)[OF ok, of "((c, v), t0)" d] finished(2) assms(3,4) by auto
    then have any: "d' = d" if "s' = upd_delivery (wd_id c) g (wi_hooks w)" "\<And>x. wd_id (g x) = wd_id x" for g
      using that finished(1) by (intro upd[of "wd_id c" g]) simp_all
    from finished(3) show ?thesis
      by (cases rule: finish_rows) (use any uniq assms(5,6) finished(1) in auto)
  next
    case (retried i r s')
    show ?thesis
    proof (cases "i = wd_id d")
      case True
      then have "findDelivery (wi_hooks w) i = Some d" using findDelivery_mem[OF _ assms(3)] ok by (simp add: wire_ok_def Let_def)
      then have "s' = wi_hooks w" using retried(3) assms(4) by (auto simp: retry_reset_def)
      then show ?thesis using uniq assms(5,6) retried(1) by simp
    next
      case False
      have "s' = wi_hooks w \<or> s' = upd_delivery i (\<lambda>d. if unlocked (wi_now w) d then d\<lparr>wd_status := DeliveryPending, wd_nextAttemptAt := wi_now w\<rparr> else d) (wi_hooks w)"
        using retried(3) by (auto simp: retry_reset_def split: option.splits if_splits)
      with False retried(1) show ?thesis using uniq assms(5,6)
          upd[of i "\<lambda>d. if unlocked (wi_now w) d then d\<lparr>wd_status := DeliveryPending, wd_nextAttemptAt := wi_now w\<rparr> else d"] by fastforce
    qed
  next
    case (pruned n s')
    then show ?thesis using uniq assms(5,6) by (auto simp: prune_def Let_def)
  qed
qed

definition delivered_as :: "delivery \<Rightarrow> wire \<Rightarrow> bool" where
  "delivered_as d w \<longleftrightarrow> wd_id d < hk_next (wi_hooks w) \<and> (\<forall>x \<in> set (hk_deliveries (wi_hooks w)). wd_id x = wd_id d \<longrightarrow> x = d)"

lemma wire_step_delivered_as:
  assumes "wire_step E retries w w'" and "wire_ok w" and "delivered_as d w" and "wd_status d = Delivered"
  shows "delivered_as d w'"
proof (cases "d \<in> set (hk_deliveries (wi_hooks w))")
  case True
  then show ?thesis using wire_step_delivered[OF assms(1,2) True assms(4)] wire_step_ids[OF assms(1)] assms(3) by (auto simp: delivered_as_def)
next
  case False
  then have "wd_id d \<notin> wd_id ` set (hk_deliveries (wi_hooks w))" using assms(3) by (auto simp: delivered_as_def)
  then show ?thesis using wire_step_ids[OF assms(1)] assms(3) by (fastforce simp: delivered_as_def)
qed

interpretation arrived: step_invariant "wire_step E retries" "\<lambda>w. wire_ok w \<and> delivered_as d w \<and> wd_status d = Delivered" for E retries d
  by unfold_locales (blast intro: wire_step_ok wire_step_delivered_as)


section \<open>Tries\<close>

definition tries_ok :: "delivery \<Rightarrow> bool" where
  "tries_ok d \<longleftrightarrow> wd_attempts d \<le> MAX_ATTEMPTS \<and> (wd_status d = DeliveryPending \<longrightarrow> wd_attempts d < MAX_ATTEMPTS)"

lemma tries_ok_simps [simp]:
  "tries_ok (d\<lparr>wd_lockedUntil := l\<rparr>) = tries_ok d" "tries_ok d \<Longrightarrow> tries_ok (switchedOff d)"
  by (auto simp: tries_ok_def)

lemma tries_ok_outcome: "wd_attempts c < MAX_ATTEMPTS \<Longrightarrow> tries_ok (outcome c r t d)"
  by (auto simp: tries_ok_def)

lemma wire_step_tries:
  assumes "wire_step E False w w'" and ok: "wire_ok w" and "\<forall>d \<in> set (hk_deliveries (wi_hooks w)). tries_ok d"
  shows "\<forall>d \<in> set (hk_deliveries (wi_hooks w')). tries_ok d"
  using assms(1)
proof cases
  case (queued s' b types data)
  have "fresh_rows (wi_hooks w) s'" using queued emit_fresh by simp
  then show ?thesis using assms(3) queued(1) by (auto simp: fresh_rows_def tries_ok_def MAX_ATTEMPTS_def)
next
  case (claimed i c v s')
  from claimed(2) show ?thesis by (rule claim_Some) (use assms(3) claimed(1) in auto)
next
  case (finished fs c v t0 gs r s')
  have h: "held (wi_hooks w) (wi_now w) ((c, v), t0)" using ok finished(2) by (simp add: wire_ok_def Let_def)
  have "wd_attempts c < MAX_ATTEMPTS" if "d \<in> set (hk_deliveries (wi_hooks w))" "wd_id d = wd_id c" for d
    using h that assms(3) by (auto simp: held_def tries_ok_def)
  then have o: "tries_ok (outcome c res (wi_now w) d)" if "d \<in> set (hk_deliveries (wi_hooks w))" "wd_id d = wd_id c" for d res
    using that tries_ok_outcome by blast
  from finished(3) show ?thesis by (cases rule: finish_rows) (use o assms(3) finished(1) in auto)
next
  case (pruned n s')
  then show ?thesis using assms(3) by (auto simp: prune_def Let_def)
qed (use assms(3) in auto)

interpretation tries: step_invariant "wire_step E False" "\<lambda>w. wire_ok w \<and> (\<forall>d \<in> set (hk_deliveries (wi_hooks w)). tries_ok d)" for E
  by unfold_locales (blast intro: wire_step_ok dest: wire_step_tries)

text \<open>
  Left to itself a delivery is tried at most eight times: the count never passes eight, a row still
  waiting has a try left, and the wait before it is one of the seven listed.
\<close>

theorem tries_bounded:
  assumes "(wire_step E False)\<^sup>*\<^sup>* w w'" and "wire_ok w" and "\<forall>d \<in> set (hk_deliveries (wi_hooks w)). tries_ok d"
  shows "\<forall>d \<in> set (hk_deliveries (wi_hooks w')). wd_attempts d \<le> MAX_ATTEMPTS \<and>
    (wd_status d = DeliveryPending \<longrightarrow> wd_attempts d < MAX_ATTEMPTS \<and> (0 < wd_attempts d \<longrightarrow> RETRY_DELAYS_MS ! (wd_attempts d - 1) \<in> set RETRY_DELAYS_MS))"
proof -
  have "\<forall>d \<in> set (hk_deliveries (wi_hooks w')). tries_ok d" using tries.run_keeps[OF assms(1)] assms(2,3) by blast
  moreover have "RETRY_DELAYS_MS ! (n - 1) \<in> set RETRY_DELAYS_MS" if "0 < n" "n < MAX_ATTEMPTS" for n
    using that by (intro nth_mem) (simp add: RETRY_DELAYS_MS_def MAX_ATTEMPTS_def)
  ultimately show ?thesis by (auto simp: tries_ok_def)
qed

section \<open>An example\<close>

definition post_env :: hook_env where
  "post_env = \<lparr>he_send = (\<lambda>_ _ _. \<lparr>ps_ok = False, ps_status = Some 500, ps_error = Some ''HTTP 500''\<rparr>), he_json = wp_data,
     he_hmac = (\<lambda>k t. k @ t), he_encrypt = (\<lambda>t. CHR '':'' # t), he_decrypt = (\<lambda>t. Inr (drop 1 t)), he_uuid = show_nat, he_urlProblem = (\<lambda>_. False)\<rparr>"

definition post_hook :: webhook where
  "post_hook = \<lparr>wk_id = 1, wk_url = ''https://partner.example.com'', wk_eventTypes = [''reservation.created''], wk_secret = '':secret'', wk_branch = None, wk_isActive = True\<rparr>"

definition post_hooks :: hooks where
  "post_hooks = emit 7 [''reservation.created''] ''{}'' 0
     \<lparr>hk_webhooks = [post_hook], hk_deliveries = [], hk_branches = [7], hk_audit = [], hk_next = 4\<rparr>"

lemma post_hooks_rows:
  "hk_deliveries post_hooks = [new_delivery 1 \<lparr>wp_id = 4, wp_type = ''reservation.created'', wp_createdAt = 0, wp_branch = Some 7, wp_data = ''{}''\<rparr> 0 5]"
  "hk_next post_hooks = 6" "hk_webhooks post_hooks = [post_hook]"
  by (simp_all add: post_hooks_def emit_def listens_def post_hook_def queue_type_def queue_one_def Let_def)

definition post_wire :: wire where
  "post_wire = \<lparr>wi_hooks = post_hooks, wi_flights = [], wi_now = 0\<rparr>"

lemma post_wire_ok: "wire_ok post_wire"
  by (simp add: wire_ok_def post_wire_def post_hooks_rows new_delivery_def)


theorem tries_bounded_witness:
  "\<exists>c v s r t d. claim 5 0 post_hooks = (Some (c, v), s) \<and> finish post_env (c, v) 0 0 s = (r, t) \<and> hk_deliveries t = [d] \<and>
     wd_status d = DeliveryPending \<and> wd_attempts d = 1 \<and> wd_attempts d < MAX_ATTEMPTS"
proof -
  define s where "s = snd (claim 5 0 post_hooks)"
  define c where "c = fst (the (fst (claim 5 0 post_hooks)))"
  define v where "v = snd (the (fst (claim 5 0 post_hooks)))"
  define t where "t = snd (finish post_env (c, v) 0 0 s)"
  have "fst (claim 5 0 post_hooks) \<noteq> None" by code_simp
  then have c: "claim 5 0 post_hooks = (Some (c, v), s)" by (auto simp: c_def v_def s_def prod_eq_iff)
  have f: "finish post_env (c, v) 0 0 s = (fst (finish post_env (c, v) 0 0 s), t)" by (simp add: t_def)
  have t: "map (\<lambda>d. (wd_status d, wd_attempts d)) (hk_deliveries t) = [(DeliveryPending, 1)]" unfolding t_def c_def v_def s_def by code_simp
  then obtain d where d: "hk_deliveries t = [d]" "wd_status d = DeliveryPending" "wd_attempts d = 1" by auto
  let ?w1 = "post_wire\<lparr>wi_hooks := s, wi_flights := [((c, v), 0)]\<rparr>" and ?w2 = "post_wire\<lparr>wi_hooks := t, wi_flights := []\<rparr>"
  have "wire_step post_env False post_wire ?w1"
    using wire_step.claimed[of 5 post_wire c v s post_env False] c by (simp add: post_wire_def)
  moreover have "wire_step post_env False ?w1 ?w2"
    using wire_step.finished[of ?w1 "[]" c v 0 "[]" post_env _ t False] f by (simp add: post_wire_def)
  ultimately have "(wire_step post_env False)\<^sup>*\<^sup>* post_wire ?w2" by (meson converse_rtranclp_into_rtranclp r_into_rtranclp)
  moreover have "\<forall>d \<in> set (hk_deliveries (wi_hooks post_wire)). tries_ok d"
    by (simp add: post_wire_def post_hooks_rows new_delivery_def tries_ok_def MAX_ATTEMPTS_def)
  ultimately have "wd_attempts d < MAX_ATTEMPTS" using tries_bounded[OF _ post_wire_ok] d by (fastforce simp: post_wire_def)
  then show ?thesis using c f d by blast
qed

text \<open>
  Switching a webhook off clears the claim of a delivery that is being sent. Switched on again and
  retried, the same delivery is sent a second time while the first exchange is still under way.
\<close>

theorem switched_off_sends_twice:
  "(let (c1, s) = claim 5 0 post_hooks;
        s = (case deactivateWebhook post_env 1 9 s of Inr (_, s) \<Rightarrow> s | Inl _ \<Rightarrow> s);
        s = (case updateWebhook post_env 1 \<lparr>wq_url = None, wq_eventTypes = None, wq_branch = None, wq_isActive = Some True\<rparr> 9 s of Inr (_, s) \<Rightarrow> s | Inl _ \<Rightarrow> s);
        (_, s) = retry_reset 5 1000 s;
        (c2, s) = claim 5 1000 s
    in c1 \<noteq> None \<and> c2 \<noteq> None)"
  by code_simp

end
