(* ===== verification/Spec2Isabelle.thy ===== *)
theory Spec2Isabelle
  imports Desk_Refunds Session_Safety Account_Access Folio_Rounds Night_Billing Events Webhooks
begin

text \<open>
  Verification of the hotel property-management backend under \<^verbatim>\<open>src/src\<close>, a NestJS service over a
  PostgreSQL database. Each service class answers requests, each request is one transaction, and
  services call each other inside the caller's transaction. The model follows that shape: the tables are
  records of lists, a handler is a function from its arguments and the tables to a result, \<open>Inl\<close> the
  exception it throws or \<open>Inr\<close> its answer with the tables after commit. A refused request changes
  nothing, so the runs below are sequences of successful requests in any order by anyone. Where
  a handler commits in two transactions (an attempt to deliver a webhook, the batches of a night audit,
  a wrong one-time code) the model keeps the halves apart.

  \<^bold>\<open>Foundations.\<close>
  \<^item> \<open>Prelude\<close>: errors (\<^verbatim>\<open>common/errors/error-codes.ts\<close>), the result type and its bind, JSON
    values, JavaScript strings, and the locale \<open>step_invariant\<close> through which every invariant over runs is proved.
  \<^item> \<open>Decimal\<close>: what the code uses of decimal.js. The locale \<open>decimal_arith\<close> states its documented
    rounding; \<open>decimal_js\<close> computes with twenty significant digits and interprets it. Sums and products of
    whole cents are exact.
  \<^item> \<open>Dates\<close>: \<^verbatim>\<open>common/utils/branch-date.ts\<close>; the offset of a time zone is an argument \<open>tzo\<close>.
  \<^item> \<open>Store\<close> and \<open>House\<close>: the tables of the money handlers and of the house (\<^verbatim>\<open>prisma/schema.prisma\<close>) with the
    checks and unique columns that matter.

  \<^bold>\<open>Who may do what.\<close>
  \<^item> \<open>Access\<close>: the tenant and role guards, permission maps, page access and staff authority
    (\<^verbatim>\<open>common/guards\<close>, \<^verbatim>\<open>common/permissions\<close>). A request passes only on a role or permission valid at its branch; an
    API key only reads; a custom role stays within the modules that can be delegated.
  \<^item> \<open>Staff\<close>, \<open>Roles\<close>: \<^verbatim>\<open>users/users.service.ts\<close> and the invitations and roles of \<^verbatim>\<open>auth/auth.service.ts\<close>. No
    run of requests by others makes or unmakes an owner or a manager; custom roles never pass as built-in ones.
  \<^item> \<open>Totp\<close>, \<open>Sessions\<close>, \<open>Session_Effects\<close>, \<open>Session_Safety\<close>: \<^verbatim>\<open>auth/totp.ts\<close>, \<^verbatim>\<open>auth.service.ts\<close>, \<^verbatim>\<open>mfa.service.ts\<close>,
    \<^verbatim>\<open>password.service.ts\<close>. One lemma per handler says what it does to accounts and sessions; from them: an
    ended session stays ended, two-step sign-in cannot be gone round, a code works once, guessing is bounded, and
    a secret survives its base-32 text.
  \<^item> \<open>Account_Access\<close>: \<^verbatim>\<open>common/guards/jwt-auth.guard.ts\<close>, \<^verbatim>\<open>common/auth\<close>: a request acts with roles read less than
    thirty seconds ago, or with a key that is not revoked.

  \<^bold>\<open>Money.\<close>
  \<^item> \<open>Policies\<close>, \<open>Taxes\<close>, \<open>Loyalty\<close>, \<open>Pos_Pricing\<close>: the pure rules (\<^verbatim>\<open>reservations/*.ts\<close>, \<^verbatim>\<open>taxes/taxes.service.ts\<close>,
    \<^verbatim>\<open>loyalty/*.ts\<close>, \<^verbatim>\<open>outlets\<close>): cancellation, deposits, stay fees, taxes to the cent, points, menu prices. The locale
    \<open>tax_engine\<close> is what the ledger relies on of the tax engine.
  \<^item> \<open>Folios\<close>, \<open>Pos\<close>, \<open>Shifts\<close>, \<open>Refunds\<close>: the handlers of \<^verbatim>\<open>folios.service.ts\<close>, the outlets, the cash drawers and
    the refunds.
  \<^item> \<open>Folio_Ledger\<close>, \<open>Folio_Moves\<close>, \<open>Folio_Accounts\<close>, \<open>Folio_Rounds\<close>, \<open>Folio_Nights\<close>: what one request does to
    a bill. A charge costs its quote, a correction undoes it, a move conserves every bill and can be taken
    back, the search for dependent lines ends, a night is billed once.
  \<^item> \<open>Desk_Effects\<close>, \<open>Desk\<close>, \<open>Desk_Drawers\<close>, \<open>Desk_Orders\<close>, \<open>Desk_Refunds\<close>: runs of the whole desk. Counted drawers
    stand, room orders follow their charges, a refund is paid once and only along its workflow.
  \<^item> \<open>Events\<close>: \<^verbatim>\<open>sales-events/event-spaces.service.ts\<close>: events never clash, and are billed once for what they cost.

  \<^bold>\<open>The house.\<close>
  \<^item> \<open>Rates\<close>, \<open>Inventory\<close>: the rate resolver and packages; availability, overbooking, restrictions, allotments,
    group blocks. The quote is what the nights are billed at, whatever order the plans are read in.
  \<^item> \<open>Rooms\<close>, \<open>Housekeeping\<close>: rooms, buildings, holds, blocks; cleaning tasks and the cleanliness ladder.
  \<^item> \<open>Guests\<close>, \<open>Reservations\<close>, \<open>Stays\<close>, \<open>Night_Audit\<close>: \<^verbatim>\<open>reservations.service.ts\<close> from booking to departure, the guests
    it finds or makes, and \<^verbatim>\<open>night-audit.service.ts\<close>.
  \<^item> \<open>Stay_Effects\<close>, \<open>Stay_Desk\<close>, \<open>Stay_Moves\<close>, \<open>Stay_Lifecycle\<close>, \<open>Night_Billing\<close>: every handler of stays refines an
    abstract front desk (\<open>desk_step\<close>, locale \<open>desk_machine\<close>), which gives one party per room and that closed
    stays stay closed; a night audit bills the house.
  \<^item> \<open>Webhooks\<close>: \<^verbatim>\<open>modules/integrations\<close>: the delivery queue with several dispatchers at once.

  \<^bold>\<open>Loops and bounds.\<close> Every definition is total. Loops over rows are structural. The search for lines that hang off
  a charge is a function with a termination proof, and \<open>dependentsWithin\<close> bounds its queries. Loops the code
  bounds itself keep its bounds: three tries for a confirmation number, five for a subdomain, batches of twenty-five
  stays, seven days of catching up, eight tries of a delivery.

  \<^bold>\<open>Parameters.\<close> The decimal library \<open>D\<close>; time zone offsets \<open>tzo\<close>; the moment of a request \<open>now\<close>; random texts; the
  order rows were created in (\<open>recent\<close>); which batches the database lost (\<open>lost\<close>); bcrypt, JWT, digests, ciphers and the mail
  provider (\<open>auth_env\<close>); the network and the check of a webhook's address (\<open>hook_env\<close>). Theorems that need something
  of them name it as a hypothesis.

  \<^bold>\<open>Not modelled.\<close> Screens, lists, reports and PDFs, which change nothing; the public booking pages, which call the modelled
  booking handlers; forms stored as they are sent (property settings, corporate accounts, templates); marketing and
  message delivery, storage, backups and erasure, which are I/O over the whole schema; controllers, modules and
  interceptors. Concurrency inside one transaction is left to the database's locks, which the handlers take first.
\<close>

end
